(* ===== verification/Fix_Prelude.thy ===== *)
theory Fix_Prelude
  imports Main "HOL-Library.Word" "HOL-Library.Char_ord" "HOL-Library.List_Lexorder"
begin

text \<open>
  Shared vocabulary of the development.

  Byte strings are HOL's \<^typ>\<open>string\<close>: a \<^typ>\<open>char\<close> is exactly eight bits, so a Rust
  \<open>&[u8]\<close>, \<open>Vec<u8>\<close>, \<open>Bytes\<close> or \<open>str\<close> is a list of characters and its length counts bytes.
  Machine integers that the code only compares and prints are \<^typ>\<open>nat\<close> or \<^typ>\<open>int\<close> with
  their range checked where the code checks it (parsing); every addition and subtraction
  that can leave the 64-bit range goes through \<open>u64_add\<close> and \<open>u64_sub\<close>, which wrap as a
  release build does.

  The theory also holds the result types of the model (\<open>res\<close>, for code that can fail or
  panic) and the named collections the component proofs draw on.
\<close>

section \<open>Collections of facts\<close>

named_theorems bytes_simps \<open>facts that evaluate byte-string operations\<close>
named_theorems u64_simps \<open>facts about wrapping 64-bit arithmetic\<close>
named_theorems frame_simps \<open>which state fields an operation leaves alone\<close>

section \<open>Types\<close>

type_synonym bytes = string
type_synonym tag = int
type_synonym u64 = nat

text \<open>
  The outcome of a computation that returns a value, returns an error, or unwinds.
\<close>

datatype ('e, 'a) res = Ok 'a | Err 'e | Panic

fun res_bind :: "('e, 'a) res \<Rightarrow> ('a \<Rightarrow> ('e, 'b) res) \<Rightarrow> ('e, 'b) res" where
  "res_bind (Ok a) f = f a"
| "res_bind (Err e) f = Err e"
| "res_bind Panic f = Panic"

fun res_ok :: "('e, 'a) res \<Rightarrow> 'a option" where
  "res_ok (Ok a) = Some a"
| "res_ok (Err e) = None"
| "res_ok Panic = None"

text \<open>The \<open>?\<close> operator on a plain \<open>Result\<close>.\<close>

fun ebind :: "'e + 'a \<Rightarrow> ('a \<Rightarrow> 'e + 'b) \<Rightarrow> 'e + 'b" where
  "ebind (Inl e) f = Inl e"
| "ebind (Inr a) f = f a"

lemma ebind_Inr_iff: "ebind r f = Inr b \<longleftrightarrow> (\<exists>a. r = Inr a \<and> f a = Inr b)"
  by (cases r) auto

lemma res_bind_Ok_iff:
  "res_bind r f = Ok b \<longleftrightarrow> (\<exists>a. r = Ok a \<and> f a = Ok b)"
  by (cases r) auto

lemma res_ok_Some_iff [simp]: "res_ok r = Some a \<longleftrightarrow> r = Ok a"
  by (cases r) auto

section \<open>Wrapping 64-bit arithmetic\<close>

definition u64_max :: nat where
  "u64_max = 2 ^ 64 - 1"

definition u64_add :: "u64 \<Rightarrow> u64 \<Rightarrow> u64" where
  "u64_add a b = (a + b) mod 2 ^ 64"

definition u64_sub :: "u64 \<Rightarrow> u64 \<Rightarrow> u64" where
  "u64_sub a b = (a + (2 ^ 64 - b mod 2 ^ 64)) mod 2 ^ 64"

lemma u64_add_lt [simp]: "u64_add a b < 2 ^ 64"
  by (simp add: u64_add_def)

lemma u64_sub_lt [simp]: "u64_sub a b < 2 ^ 64"
  by (simp add: u64_sub_def)

lemmas u64_lt_numeral [simp] = u64_add_lt [simplified] u64_sub_lt [simplified]

lemma u64_add_exact [u64_simps]: "a + b < 2 ^ 64 \<Longrightarrow> u64_add a b = a + b"
  by (simp add: u64_add_def)

lemma u64_sub_exact [u64_simps]: "b \<le> a \<Longrightarrow> a < 2 ^ 64 \<Longrightarrow> u64_sub a b = a - b"
proof -
  assume "b \<le> a" and "a < 2 ^ 64"
  then have "a + (2 ^ 64 - b mod 2 ^ 64) = (a - b) + 2 ^ 64" by simp
  then show ?thesis using \<open>a < 2 ^ 64\<close> by (simp add: u64_sub_def)
qed

lemma u64_add_wraps [u64_simps]:
  "a < 2 ^ 64 \<Longrightarrow> b < 2 ^ 64 \<Longrightarrow> 2 ^ 64 \<le> a + b \<Longrightarrow> u64_add a b = a + b - 2 ^ 64"
  unfolding u64_add_def by (subst mod_if) (simp add: mod_if)

lemma u64_add_eqI: "a + b = c + 2 ^ 64 \<Longrightarrow> c < 2 ^ 64 \<Longrightarrow> u64_add a b = c"
  unfolding u64_add_def by simp

text \<open>
  The arithmetic is that of 64-bit words read as naturals.
\<close>

lemma u64_add_word:
  "u64_add (unat (x :: 64 word)) (unat (y :: 64 word)) = unat (x + y)"
  by (simp add: u64_add_def unat_word_ariths)

lemma u64_sub_word:
  "u64_sub (unat (x :: 64 word)) (unat (y :: 64 word)) = unat (x - y)"
proof -
  have ylt: "unat y < 2 ^ 64" using unsigned_less [of y] by simp
  have "(word_of_nat (unat x + (2 ^ 64 - unat y)) :: 64 word) = x - y"
    using ylt by (simp add: of_nat_diff)
  then have "unat (x - y) = (unat x + (2 ^ 64 - unat y)) mod 2 ^ 64"
    using unat_of_nat [of "unat x + (2 ^ 64 - unat y)", where ?'a = 64] by simp
  with ylt show ?thesis by (simp add: u64_sub_def)
qed

end
