(* ===== verification/Rust_Std.thy ===== *)
theory Rust_Std
  imports Fix_Prelude "HOL-Library.Sublist"
begin

text \<open>
  The part of Rust's standard library that the engine relies on, as executable functions:
  decimal printing (\<open>to_string\<close>, zero padding), integer parsing (\<open>str::parse\<close>, which takes an
  optional sign and checks the range of the target type), UTF-8 validation and lossy decoding,
  and the byte searches \<open>iter().position\<close> and \<open>windows\<close>. The lemmas are the round trips and the
  character facts that the wire-format proofs need.
\<close>

section \<open>Characters and digits\<close>

definition byte_of :: "char \<Rightarrow> nat" where
  "byte_of c = of_char c"

definition digit_char :: "nat \<Rightarrow> char" where
  "digit_char d = char_of (48 + d)"

definition is_digit :: "char \<Rightarrow> bool" where
  "is_digit c \<longleftrightarrow> 48 \<le> byte_of c \<and> byte_of c \<le> 57"

definition digit_val :: "char \<Rightarrow> nat" where
  "digit_val c = byte_of c - 48"

lemma byte_of_lt [simp]: "byte_of c < 256"
  unfolding byte_of_def by (rule nat_of_char_less_256)

lemma byte_of_digit_char: "d < 10 \<Longrightarrow> byte_of (digit_char d) = 48 + d"
  by (simp add: byte_of_def digit_char_def)

lemma digit_char_table [simp]:
  "digit_char 0 = CHR ''0''" "digit_char 1 = CHR ''1''" "digit_char 2 = CHR ''2''"
  "digit_char 3 = CHR ''3''" "digit_char 4 = CHR ''4''" "digit_char 5 = CHR ''5''"
  "digit_char 6 = CHR ''6''" "digit_char 7 = CHR ''7''" "digit_char 8 = CHR ''8''"
  "digit_char 9 = CHR ''9''" "digit_char (Suc 0) = CHR ''1''"
  by (simp_all add: digit_char_def) (code_simp+)

lemma is_digit_digit_char [simp]: "d < 10 \<Longrightarrow> is_digit (digit_char d)"
  by (simp add: is_digit_def byte_of_digit_char)

lemma digit_val_digit_char [simp]: "d < 10 \<Longrightarrow> digit_val (digit_char d) = d"
  by (simp add: digit_val_def byte_of_digit_char)

lemma not_is_digit_special [simp]:
  "\<not> is_digit (CHR 0x01)" "\<not> is_digit (CHR ''='')" "\<not> is_digit (CHR ''-'')"
  "\<not> is_digit (CHR ''+'')" "\<not> is_digit (CHR '':'')" "\<not> is_digit (CHR '','')"
  "\<not> is_digit (CHR '' '')" "\<not> is_digit (CHR ''.'')"
  by (simp_all add: is_digit_def byte_of_def)

lemma is_digit_CHR_0 [simp]: "is_digit (CHR ''0'')" "digit_val (CHR ''0'') = 0"
  by (simp_all add: is_digit_def digit_val_def byte_of_def)

section \<open>Printing decimals\<close>

fun dec_nat :: "nat \<Rightarrow> bytes" where
  "dec_nat n = (if n < 10 then [digit_char n] else dec_nat (n div 10) @ [digit_char (n mod 10)])"

declare dec_nat.simps [simp del]

definition dec_int :: "int \<Rightarrow> bytes" where
  "dec_int i = (if i < 0 then CHR ''-'' # dec_nat (nat (- i)) else dec_nat (nat i))"

text \<open>\<open>format!("{:0w$}")\<close> of an unsigned number: zeros on the left up to the width.\<close>

definition pad_zero :: "nat \<Rightarrow> bytes \<Rightarrow> bytes" where
  "pad_zero w s = replicate (w - length s) (CHR ''0'') @ s"

lemma dec_nat_small: "n < 10 \<Longrightarrow> dec_nat n = [digit_char n]"
  by (simp add: dec_nat.simps)

lemma dec_nat_step: "10 \<le> n \<Longrightarrow> dec_nat n = dec_nat (n div 10) @ [digit_char (n mod 10)]"
  by (subst dec_nat.simps) simp

lemma dec_nat_not_Nil [simp]: "dec_nat n \<noteq> []"
  by (subst dec_nat.simps) simp

lemma dec_nat_digits: "c \<in> set (dec_nat n) \<Longrightarrow> is_digit c"
proof (induction n rule: dec_nat.induct)
  case (1 n)
  show ?case
  proof (cases "n < 10")
    case True
    with "1.prems" show ?thesis by (simp add: dec_nat_small)
  next
    case False
    with "1.prems" have "c \<in> set (dec_nat (n div 10)) \<or> c = digit_char (n mod 10)"
      by (auto simp: dec_nat_step)
    with "1.IH" [OF False] show ?thesis by auto
  qed
qed

lemma list_all_dec_nat [simp]: "list_all is_digit (dec_nat n)"
  by (simp add: list_all_iff dec_nat_digits)

lemma length_dec_nat_bound: "n < 10 ^ k \<Longrightarrow> 0 < k \<Longrightarrow> length (dec_nat n) \<le> k"
proof (induction k arbitrary: n)
  case (Suc k)
  show ?case
  proof (cases "n < 10")
    case True
    then show ?thesis by (simp add: dec_nat_small)
  next
    case False
    with Suc.prems have "n div 10 < 10 ^ k" by (simp add: less_mult_imp_div_less)
    moreover from False Suc.prems have "0 < k" by (cases k) auto
    ultimately have "length (dec_nat (n div 10)) \<le> k" by (rule Suc.IH)
    with False show ?thesis by (simp add: dec_nat_step)
  qed
qed simp

lemma dec_int_not_Nil [simp]: "dec_int i \<noteq> []"
  by (simp add: dec_int_def)

lemma dec_int_no_special:
  "CHR ''='' \<notin> set (dec_int i)" "CHR 0x01 \<notin> set (dec_int i)"
  using dec_nat_digits [of "CHR ''=''"] dec_nat_digits [of "CHR 0x01"]
  by (auto simp: dec_int_def)

lemma dec_nat_no_soh [simp]: "CHR 0x01 \<notin> set (dec_nat n)"
  using dec_nat_digits [of "CHR 0x01" n] by auto

lemma pad_zero_length: "length (pad_zero w s) = max w (length s)"
  by (simp add: pad_zero_def max_def)

section \<open>Parsing integers\<close>

fun digits_val :: "nat \<Rightarrow> bytes \<Rightarrow> nat option" where
  "digits_val acc [] = Some acc"
| "digits_val acc (c # cs) =
     (if is_digit c then digits_val (10 * acc + digit_val c) cs else None)"

text \<open>
  \<open>uN::from_str\<close>: an optional \<open>+\<close>, at least one digit, nothing else, and a value that fits.
\<close>

definition strip_plus :: "bytes \<Rightarrow> bytes" where
  "strip_plus s = (case s of c # cs \<Rightarrow> if c = CHR ''+'' then cs else s | [] \<Rightarrow> [])"

definition parse_unsigned :: "nat \<Rightarrow> bytes \<Rightarrow> nat option" where
  "parse_unsigned mx s =
     (if strip_plus s = [] then None
      else case digits_val 0 (strip_plus s) of
             None \<Rightarrow> None
           | Some n \<Rightarrow> if n \<le> mx then Some n else None)"

text \<open>\<open>iN::from_str\<close>: as above, with \<open>-\<close> allowed as the sign.\<close>

definition parse_signed :: "int \<Rightarrow> int \<Rightarrow> bytes \<Rightarrow> int option" where
  "parse_signed lo hi s =
     (case s of
        c # cs \<Rightarrow>
          (if c = CHR ''-'' then
             (if cs = [] then None
              else case digits_val 0 cs of
                     None \<Rightarrow> None
                   | Some n \<Rightarrow> if lo \<le> - int n then Some (- int n) else None)
           else if strip_plus s = [] then None
           else case digits_val 0 (strip_plus s) of
                  None \<Rightarrow> None
                | Some n \<Rightarrow> if int n \<le> hi then Some (int n) else None)
      | [] \<Rightarrow> None)"

definition parse_u64 :: "bytes \<Rightarrow> nat option" where
  "parse_u64 = parse_unsigned (2 ^ 64 - 1)"

definition parse_u32 :: "bytes \<Rightarrow> nat option" where
  "parse_u32 = parse_unsigned (2 ^ 32 - 1)"

definition parse_u16 :: "bytes \<Rightarrow> nat option" where
  "parse_u16 = parse_unsigned (2 ^ 16 - 1)"

definition parse_i64 :: "bytes \<Rightarrow> int option" where
  "parse_i64 = parse_signed (- (2 ^ 63)) (2 ^ 63 - 1)"

definition parse_i32 :: "bytes \<Rightarrow> int option" where
  "parse_i32 = parse_signed (- (2 ^ 31)) (2 ^ 31 - 1)"

lemma digits_val_append:
  "list_all is_digit xs \<Longrightarrow>
   digits_val acc (xs @ ys) = digits_val (the (digits_val acc xs)) ys"
  by (induction xs arbitrary: acc) auto

lemma digits_val_digits: "list_all is_digit xs \<Longrightarrow> \<exists>n. digits_val acc xs = Some n"
  by (induction xs arbitrary: acc) auto

lemma digits_val_Some_digits: "digits_val acc xs = Some n \<Longrightarrow> list_all is_digit xs"
  by (induction xs arbitrary: acc) (auto split: if_splits)

lemma digits_val_dec_nat [simp]: "digits_val 0 (dec_nat n) = Some n"
proof (induction n rule: dec_nat.induct)
  case (1 n)
  show ?case
  proof (cases "n < 10")
    case True
    then show ?thesis by (simp add: dec_nat_small)
  next
    case False
    with "1.IH" show ?thesis by (simp add: dec_nat_step digits_val_append)
  qed
qed

lemma digits_val_zeros [simp]: "digits_val 0 (replicate k (CHR ''0'') @ s) = digits_val 0 s"
  by (induction k) auto

lemma strip_plus_digits: "list_all is_digit s \<Longrightarrow> strip_plus s = s"
  by (auto simp: strip_plus_def split: list.splits)

lemma parse_unsigned_dec_nat [simp]: "n \<le> mx \<Longrightarrow> parse_unsigned mx (dec_nat n) = Some n"
  by (simp add: parse_unsigned_def strip_plus_digits)

lemma parse_unsigned_bound: "parse_unsigned mx s = Some n \<Longrightarrow> n \<le> mx"
  by (auto simp: parse_unsigned_def split: if_splits option.splits)

lemma parse_u64_dec_nat [simp]: "n < 2 ^ 64 \<Longrightarrow> parse_u64 (dec_nat n) = Some n"
  by (simp add: parse_u64_def)

lemma parse_u64_bound: "parse_u64 s = Some n \<Longrightarrow> n < 2 ^ 64"
  by (auto simp: parse_u64_def dest: parse_unsigned_bound)

lemma parse_u32_dec_nat [simp]: "n < 2 ^ 32 \<Longrightarrow> parse_u32 (dec_nat n) = Some n"
  by (simp add: parse_u32_def)

lemma list_all_pad_zero: "list_all is_digit s \<Longrightarrow> list_all is_digit (pad_zero w s)"
  by (auto simp: pad_zero_def list_all_iff)

lemma parse_unsigned_pad [simp]:
  "n \<le> mx \<Longrightarrow> parse_unsigned mx (pad_zero w (dec_nat n)) = Some n"
proof -
  assume le: "n \<le> mx"
  have "strip_plus (pad_zero w (dec_nat n)) = pad_zero w (dec_nat n)"
    by (rule strip_plus_digits) (simp add: list_all_pad_zero)
  moreover have "digits_val 0 (pad_zero w (dec_nat n)) = Some n"
    by (simp add: pad_zero_def)
  moreover have "pad_zero w (dec_nat n) \<noteq> []" by (simp add: pad_zero_def)
  ultimately show ?thesis using le by (simp add: parse_unsigned_def)
qed

lemma parse_signed_dec_int:
  assumes "lo \<le> i" and "i \<le> hi"
  shows "parse_signed lo hi (dec_int i) = Some i"
proof (cases "i < 0")
  case True
  then have "dec_int i = CHR ''-'' # dec_nat (nat (- i))" by (simp add: dec_int_def)
  with True assms show ?thesis by (simp add: parse_signed_def)
next
  case False
  then have d: "dec_int i = dec_nat (nat i)" by (simp add: dec_int_def)
  obtain c cs where cc: "dec_nat (nat i) = c # cs" by (cases "dec_nat (nat i)") auto
  then have "is_digit c" using dec_nat_digits [of c "nat i"] by simp
  then have c: "c \<noteq> CHR ''+''" "c \<noteq> CHR ''-''" by auto
  have "strip_plus (c # cs) = c # cs"
    using c by (simp add: strip_plus_def)
  moreover have "digits_val 0 (c # cs) = Some (nat i)"
    using cc digits_val_dec_nat [of "nat i"] by simp
  ultimately show ?thesis using False assms d cc c
    by (simp add: parse_signed_def)
qed

lemma parse_i32_dec_int [simp]:
  "- (2 ^ 31) \<le> i \<Longrightarrow> i < 2 ^ 31 \<Longrightarrow> parse_i32 (dec_int i) = Some i"
  by (simp add: parse_i32_def parse_signed_dec_int)

lemma parse_i64_dec_int [simp]:
  "- (2 ^ 63) \<le> i \<Longrightarrow> i < 2 ^ 63 \<Longrightarrow> parse_i64 (dec_int i) = Some i"
  by (simp add: parse_i64_def parse_signed_dec_int)

lemma parse_unsigned_negative [simp]: "parse_unsigned mx (CHR ''-'' # cs) = None"
  by (simp add: parse_unsigned_def strip_plus_def is_digit_def byte_of_def)

text \<open>Evaluation of closed instances by the simplifier.\<close>

lemmas decimal_eval [bytes_simps] =
  dec_nat.simps dec_int_def pad_zero_def
  parse_u64_def parse_u32_def parse_u16_def parse_i64_def parse_i32_def
  parse_unsigned_def parse_signed_def strip_plus_def is_digit_def digit_val_def byte_of_def

section \<open>Searching\<close>

fun position :: "(char \<Rightarrow> bool) \<Rightarrow> bytes \<Rightarrow> nat option" where
  "position P [] = None"
| "position P (c # cs) = (if P c then Some 0 else map_option Suc (position P cs))"

lemma position_append_hit:
  "(\<forall>c\<in>set xs. \<not> P c) \<Longrightarrow> P y \<Longrightarrow> position P (xs @ y # ys) = Some (length xs)"
  by (induction xs) auto

lemma position_None_iff: "position P xs = None \<longleftrightarrow> (\<forall>c\<in>set xs. \<not> P c)"
  by (induction xs) auto

lemma position_Some_lt: "position P xs = Some i \<Longrightarrow> i < length xs"
  by (induction xs arbitrary: i) (auto split: if_splits)

lemma position_Some_nth: "position P xs = Some i \<Longrightarrow> P (xs ! i)"
  by (induction xs arbitrary: i) (auto split: if_splits)

lemma position_Some_before: "position P xs = Some i \<Longrightarrow> j < i \<Longrightarrow> \<not> P (xs ! j)"
  by (induction xs arbitrary: i j) (auto split: if_splits simp: nth_Cons split: nat.splits)

section \<open>UTF-8\<close>

text \<open>
  One step of \<open>core::str::lossy\<close>'s decoder: how many bytes the next chunk takes and whether
  it is a well-formed scalar value (the table of the Unicode standard that \<open>from_utf8\<close> uses).
\<close>

definition utf8_cont :: "nat \<Rightarrow> bool" where
  "utf8_cont b \<longleftrightarrow> 128 \<le> b \<and> b \<le> 191"

definition utf8_second3 :: "nat \<Rightarrow> nat \<Rightarrow> bool" where
  "utf8_second3 b c \<longleftrightarrow>
     (if b = 224 then 160 \<le> c \<and> c \<le> 191
      else if b = 237 then 128 \<le> c \<and> c \<le> 159
      else utf8_cont c)"

definition utf8_second4 :: "nat \<Rightarrow> nat \<Rightarrow> bool" where
  "utf8_second4 b c \<longleftrightarrow>
     (if b = 240 then 144 \<le> c \<and> c \<le> 191
      else if b = 244 then 128 \<le> c \<and> c \<le> 143
      else utf8_cont c)"

definition at_or_zero :: "bytes \<Rightarrow> nat \<Rightarrow> nat" where
  "at_or_zero s i = (if i < length s then byte_of (s ! i) else 0)"

definition utf8_head :: "bytes \<Rightarrow> nat \<times> bool" where
  "utf8_head s =
     (let b = at_or_zero s 0 in
      if b < 128 then (1, True)
      else if 194 \<le> b \<and> b \<le> 223 then
        (if utf8_cont (at_or_zero s 1) then (2, True) else (1, False))
      else if 224 \<le> b \<and> b \<le> 239 then
        (if \<not> utf8_second3 b (at_or_zero s 1) then (1, False)
         else if \<not> utf8_cont (at_or_zero s 2) then (2, False) else (3, True))
      else if 240 \<le> b \<and> b \<le> 244 then
        (if \<not> utf8_second4 b (at_or_zero s 1) then (1, False)
         else if \<not> utf8_cont (at_or_zero s 2) then (2, False)
         else if \<not> utf8_cont (at_or_zero s 3) then (3, False) else (4, True))
      else (1, False))"

lemma utf8_head_pos: "0 < fst (utf8_head s)"
  by (simp add: utf8_head_def Let_def)

function utf8_ok :: "bytes \<Rightarrow> bool" where
  "utf8_ok s =
     (if s = [] then True
      else snd (utf8_head s) \<and> utf8_ok (drop (fst (utf8_head s)) s))"
  by pat_completeness auto
termination
  by (relation "measure length") (auto simp: utf8_head_pos)

declare utf8_ok.simps [simp del]

function from_utf8_lossy :: "bytes \<Rightarrow> bytes" where
  "from_utf8_lossy s =
     (if s = [] then []
      else (let n = fst (utf8_head s) in
        (if snd (utf8_head s) then take n s else [CHR 0xEF, CHR 0xBF, CHR 0xBD])
        @ from_utf8_lossy (drop n s)))"
  by pat_completeness auto
termination
  by (relation "measure length") (auto simp: utf8_head_pos)

declare from_utf8_lossy.simps [simp del]

lemma from_utf8_lossy_ok: "utf8_ok s \<Longrightarrow> from_utf8_lossy s = s"
proof (induction s rule: utf8_ok.induct)
  case (1 s)
  show ?case
  proof (cases "s = []")
    case True
    then show ?thesis by (simp add: from_utf8_lossy.simps)
  next
    case False
    with "1.prems" have h: "snd (utf8_head s)" and t: "utf8_ok (drop (fst (utf8_head s)) s)"
      by (simp_all add: utf8_ok.simps [of s])
    from "1.IH" [OF False t] h False show ?thesis
      by (simp add: from_utf8_lossy.simps [of s] Let_def)
  qed
qed

lemma utf8_ok_Nil [simp]: "utf8_ok []"
  by (simp add: utf8_ok.simps)

lemma utf8_ok_ascii: "(\<forall>c\<in>set s. byte_of c < 128) \<Longrightarrow> utf8_ok s"
proof (induction s)
  case (Cons c s)
  then have "utf8_head (c # s) = (1, True)" by (simp add: utf8_head_def at_or_zero_def)
  with Cons show ?case by (simp add: utf8_ok.simps [of "c # s"])
qed simp

end
