(* ===== verification/Fix_Tags.thy ===== *)
theory Fix_Tags
  imports Rust_Std
begin

text \<open>
  \<open>src/tags.rs\<close>: the tag numbers the session layer uses, the administrative message types,
  the classification of tags into header, trailer and body, and the length-prefixed data
  fields. The constants unfold by \<open>simp\<close>.
\<close>

section \<open>Tag numbers\<close>

definition BEGIN_SEQ_NO :: tag where [simp]: "BEGIN_SEQ_NO = 7"
definition BEGIN_STRING :: tag where [simp]: "BEGIN_STRING = 8"
definition BODY_LENGTH :: tag where [simp]: "BODY_LENGTH = 9"
definition CHECK_SUM :: tag where [simp]: "CHECK_SUM = 10"
definition END_SEQ_NO :: tag where [simp]: "END_SEQ_NO = 16"
definition MSG_SEQ_NUM :: tag where [simp]: "MSG_SEQ_NUM = 34"
definition MSG_TYPE :: tag where [simp]: "MSG_TYPE = 35"
definition NEW_SEQ_NO :: tag where [simp]: "NEW_SEQ_NO = 36"
definition POSS_DUP_FLAG :: tag where [simp]: "POSS_DUP_FLAG = 43"
definition REF_SEQ_NUM :: tag where [simp]: "REF_SEQ_NUM = 45"
definition SENDER_COMP_ID :: tag where [simp]: "SENDER_COMP_ID = 49"
definition SENDER_SUB_ID :: tag where [simp]: "SENDER_SUB_ID = 50"
definition SENDING_TIME :: tag where [simp]: "SENDING_TIME = 52"
definition TARGET_COMP_ID :: tag where [simp]: "TARGET_COMP_ID = 56"
definition TARGET_SUB_ID :: tag where [simp]: "TARGET_SUB_ID = 57"
definition TEXT :: tag where [simp]: "TEXT = 58"
definition SIGNATURE :: tag where [simp]: "SIGNATURE = 89"
definition SECURE_DATA_LEN :: tag where [simp]: "SECURE_DATA_LEN = 90"
definition SECURE_DATA :: tag where [simp]: "SECURE_DATA = 91"
definition SIGNATURE_LENGTH :: tag where [simp]: "SIGNATURE_LENGTH = 93"
definition RAW_DATA_LENGTH :: tag where [simp]: "RAW_DATA_LENGTH = 95"
definition RAW_DATA :: tag where [simp]: "RAW_DATA = 96"
definition POSS_RESEND :: tag where [simp]: "POSS_RESEND = 97"
definition ENCRYPT_METHOD :: tag where [simp]: "ENCRYPT_METHOD = 98"
definition HEART_BT_INT :: tag where [simp]: "HEART_BT_INT = 108"
definition TEST_REQ_ID :: tag where [simp]: "TEST_REQ_ID = 112"
definition ON_BEHALF_OF_COMP_ID :: tag where [simp]: "ON_BEHALF_OF_COMP_ID = 115"
definition ON_BEHALF_OF_SUB_ID :: tag where [simp]: "ON_BEHALF_OF_SUB_ID = 116"
definition ORIG_SENDING_TIME :: tag where [simp]: "ORIG_SENDING_TIME = 122"
definition GAP_FILL_FLAG :: tag where [simp]: "GAP_FILL_FLAG = 123"
definition DELIVER_TO_COMP_ID :: tag where [simp]: "DELIVER_TO_COMP_ID = 128"
definition DELIVER_TO_SUB_ID :: tag where [simp]: "DELIVER_TO_SUB_ID = 129"
definition RESET_SEQ_NUM_FLAG :: tag where [simp]: "RESET_SEQ_NUM_FLAG = 141"
definition SENDER_LOCATION_ID :: tag where [simp]: "SENDER_LOCATION_ID = 142"
definition TARGET_LOCATION_ID :: tag where [simp]: "TARGET_LOCATION_ID = 143"
definition ON_BEHALF_OF_LOCATION_ID :: tag where [simp]: "ON_BEHALF_OF_LOCATION_ID = 144"
definition DELIVER_TO_LOCATION_ID :: tag where [simp]: "DELIVER_TO_LOCATION_ID = 145"
definition XML_DATA_LEN :: tag where [simp]: "XML_DATA_LEN = 212"
definition XML_DATA :: tag where [simp]: "XML_DATA = 213"
definition MESSAGE_ENCODING :: tag where [simp]: "MESSAGE_ENCODING = 347"
definition ENCODED_TEXT_LEN :: tag where [simp]: "ENCODED_TEXT_LEN = 354"
definition ENCODED_TEXT :: tag where [simp]: "ENCODED_TEXT = 355"
definition LAST_MSG_SEQ_NUM_PROCESSED :: tag where [simp]: "LAST_MSG_SEQ_NUM_PROCESSED = 369"
definition REF_TAG_ID :: tag where [simp]: "REF_TAG_ID = 371"
definition REF_MSG_TYPE :: tag where [simp]: "REF_MSG_TYPE = 372"
definition SESSION_REJECT_REASON :: tag where [simp]: "SESSION_REJECT_REASON = 373"
definition BUSINESS_REJECT_REASON :: tag where [simp]: "BUSINESS_REJECT_REASON = 380"
definition NO_HOPS :: tag where [simp]: "NO_HOPS = 627"
definition HOP_COMP_ID :: tag where [simp]: "HOP_COMP_ID = 628"
definition HOP_SENDING_TIME :: tag where [simp]: "HOP_SENDING_TIME = 629"
definition HOP_REF_ID :: tag where [simp]: "HOP_REF_ID = 630"
definition NEXT_EXPECTED_MSG_SEQ_NUM :: tag where [simp]: "NEXT_EXPECTED_MSG_SEQ_NUM = 789"
definition APPL_VER_ID :: tag where [simp]: "APPL_VER_ID = 1128"
definition CSTM_APPL_VER_ID :: tag where [simp]: "CSTM_APPL_VER_ID = 1129"
definition DEFAULT_APPL_VER_ID :: tag where [simp]: "DEFAULT_APPL_VER_ID = 1137"

section \<open>Message types\<close>

definition MT_HEARTBEAT :: bytes where [simp]: "MT_HEARTBEAT = ''0''"
definition MT_TEST_REQUEST :: bytes where [simp]: "MT_TEST_REQUEST = ''1''"
definition MT_RESEND_REQUEST :: bytes where [simp]: "MT_RESEND_REQUEST = ''2''"
definition MT_REJECT :: bytes where [simp]: "MT_REJECT = ''3''"
definition MT_SEQUENCE_RESET :: bytes where [simp]: "MT_SEQUENCE_RESET = ''4''"
definition MT_LOGOUT :: bytes where [simp]: "MT_LOGOUT = ''5''"
definition MT_LOGON :: bytes where [simp]: "MT_LOGON = ''A''"
definition MT_BUSINESS_MESSAGE_REJECT :: bytes where [simp]: "MT_BUSINESS_MESSAGE_REJECT = ''j''"

definition is_admin_type :: "bytes \<Rightarrow> bool" where
  "is_admin_type mt \<longleftrightarrow> mt \<in> set [''0'', ''1'', ''2'', ''3'', ''4'', ''5'', ''A'', ''n'']"

section \<open>Sections of a message\<close>

definition header_tags :: "tag list" where
  "header_tags =
     [BEGIN_STRING,
      BODY_LENGTH,
      MSG_TYPE,
      SENDER_COMP_ID,
      TARGET_COMP_ID,
      ON_BEHALF_OF_COMP_ID,
      DELIVER_TO_COMP_ID,
      SECURE_DATA_LEN,
      SECURE_DATA,
      MSG_SEQ_NUM,
      SENDER_SUB_ID,
      SENDER_LOCATION_ID,
      TARGET_SUB_ID,
      TARGET_LOCATION_ID,
      ON_BEHALF_OF_SUB_ID,
      ON_BEHALF_OF_LOCATION_ID,
      DELIVER_TO_SUB_ID,
      DELIVER_TO_LOCATION_ID,
      POSS_DUP_FLAG,
      POSS_RESEND,
      SENDING_TIME,
      ORIG_SENDING_TIME,
      XML_DATA_LEN,
      XML_DATA,
      MESSAGE_ENCODING,
      LAST_MSG_SEQ_NUM_PROCESSED,
      NO_HOPS,
      HOP_COMP_ID,
      HOP_SENDING_TIME,
      HOP_REF_ID,
      APPL_VER_ID,
      CSTM_APPL_VER_ID]"

definition is_header_tag :: "tag \<Rightarrow> bool" where
  "is_header_tag t \<longleftrightarrow> t \<in> set header_tags"

definition is_trailer_tag :: "tag \<Rightarrow> bool" where
  "is_trailer_tag t \<longleftrightarrow> t \<in> set [SIGNATURE_LENGTH, SIGNATURE, CHECK_SUM]"

definition data_tag_table :: "(tag \<times> tag) list" where
  "data_tag_table =
     [(90, 91), (93, 89), (95, 96), (212, 213), (348, 349), (350, 351),
      (352, 353), (354, 355), (356, 357), (358, 359), (360, 361),
      (362, 363), (364, 365), (445, 446), (618, 619), (621, 622)]"

definition data_tag_for_length_tag :: "tag \<Rightarrow> tag option" where
  "data_tag_for_length_tag t = map_of data_tag_table t"

text \<open>The three sections are disjoint, and no length tag is also a data tag.\<close>

lemma header_not_trailer: "is_header_tag t \<Longrightarrow> \<not> is_trailer_tag t"
  by (auto simp: is_header_tag_def header_tags_def is_trailer_tag_def)

lemma header_tag_simps [simp]:
  "is_header_tag 8" "is_header_tag 9" "is_header_tag 35" "is_header_tag 34"
  "is_header_tag 49" "is_header_tag 56" "is_header_tag 52" "is_header_tag 43"
  "is_header_tag 122" "\<not> is_header_tag 10" "is_trailer_tag 10"
  by (simp_all add: is_header_tag_def header_tags_def is_trailer_tag_def)

lemma header_tags_range: "is_header_tag t \<Longrightarrow> 8 \<le> t \<and> t \<le> 1129"
  by (auto simp: is_header_tag_def header_tags_def)

lemma data_tag_for_length_tag_simps [simp]:
  "data_tag_for_length_tag 8 = None" "data_tag_for_length_tag 9 = None"
  "data_tag_for_length_tag 10 = None" "data_tag_for_length_tag 35 = None"
  by (simp_all add: data_tag_for_length_tag_def data_tag_table_def)

lemma length_tag_not_data_tag:
  "data_tag_for_length_tag l = Some d \<Longrightarrow> data_tag_for_length_tag d = None"
  by (auto simp: data_tag_for_length_tag_def data_tag_table_def split: if_splits)

end
