(* ===== verification/Fix_Error.thy ===== *)
theory Fix_Error
  imports Fix_Tags
begin

text \<open>
  \<open>src/error.rs\<close>: the session-level reject reasons with their wire codes and texts, the
  \<open>RejectError\<close> a validation failure carries, and the error values of the engine.
\<close>

datatype session_reject_reason =
    InvalidTagNumber
  | RequiredTagMissing
  | TagNotDefinedForThisMessageType
  | UndefinedTag
  | TagSpecifiedWithoutAValue
  | ValueIsIncorrect
  | IncorrectDataFormatForValue
  | DecryptionProblem
  | SignatureProblem
  | CompIDProblem
  | SendingTimeAccuracyProblem
  | InvalidMsgType
  | XMLValidationError
  | TagAppearsMoreThanOnce
  | TagSpecifiedOutOfRequiredOrder
  | RepeatingGroupFieldsOutOfOrder
  | IncorrectNumInGroupCountForRepeatingGroup
  | NonDataValueIncludesFieldDelimiter
  | Other

fun reason_code :: "session_reject_reason \<Rightarrow> nat" where
  "reason_code InvalidTagNumber = 0"
| "reason_code RequiredTagMissing = 1"
| "reason_code TagNotDefinedForThisMessageType = 2"
| "reason_code UndefinedTag = 3"
| "reason_code TagSpecifiedWithoutAValue = 4"
| "reason_code ValueIsIncorrect = 5"
| "reason_code IncorrectDataFormatForValue = 6"
| "reason_code DecryptionProblem = 7"
| "reason_code SignatureProblem = 8"
| "reason_code CompIDProblem = 9"
| "reason_code SendingTimeAccuracyProblem = 10"
| "reason_code InvalidMsgType = 11"
| "reason_code XMLValidationError = 12"
| "reason_code TagAppearsMoreThanOnce = 13"
| "reason_code TagSpecifiedOutOfRequiredOrder = 14"
| "reason_code RepeatingGroupFieldsOutOfOrder = 15"
| "reason_code IncorrectNumInGroupCountForRepeatingGroup = 16"
| "reason_code NonDataValueIncludesFieldDelimiter = 17"
| "reason_code Other = 99"

fun reason_text :: "session_reject_reason \<Rightarrow> bytes" where
  "reason_text InvalidTagNumber = ''Invalid tag number''"
| "reason_text RequiredTagMissing = ''Required tag missing''"
| "reason_text TagNotDefinedForThisMessageType = ''Tag not defined for this message type''"
| "reason_text UndefinedTag = ''Undefined tag''"
| "reason_text TagSpecifiedWithoutAValue = ''Tag specified without a value''"
| "reason_text ValueIsIncorrect = ''Value is incorrect (out of range) for this tag''"
| "reason_text IncorrectDataFormatForValue = ''Incorrect data format for value''"
| "reason_text DecryptionProblem = ''Decryption problem''"
| "reason_text SignatureProblem = ''Signature problem''"
| "reason_text CompIDProblem = ''CompID problem''"
| "reason_text SendingTimeAccuracyProblem = ''SendingTime accuracy problem''"
| "reason_text InvalidMsgType = ''Invalid MsgType''"
| "reason_text XMLValidationError = ''XML validation error''"
| "reason_text TagAppearsMoreThanOnce = ''Tag appears more than once''"
| "reason_text TagSpecifiedOutOfRequiredOrder = ''Tag specified out of required order''"
| "reason_text RepeatingGroupFieldsOutOfOrder = ''Repeating group fields out of order''"
| "reason_text IncorrectNumInGroupCountForRepeatingGroup = ''Incorrect NumInGroup count for repeating group''"
| "reason_text NonDataValueIncludesFieldDelimiter = ''Non-data value includes field delimiter (SOH character)''"
| "reason_text Other = ''Other''"

record reject_error =
  rej_reason :: session_reject_reason
  rej_ref_tag :: "tag option"
  rej_text :: "bytes option"
  rej_is_garbled :: bool

definition reject_new :: "session_reject_reason \<Rightarrow> reject_error" where
  "reject_new r =
     \<lparr>rej_reason = r, rej_ref_tag = None, rej_text = None, rej_is_garbled = False\<rparr>"

definition reject_with_tag :: "session_reject_reason \<Rightarrow> tag \<Rightarrow> reject_error" where
  "reject_with_tag r t =
     \<lparr>rej_reason = r, rej_ref_tag = Some t, rej_text = None, rej_is_garbled = False\<rparr>"

definition reject_other :: "bytes \<Rightarrow> tag \<Rightarrow> reject_error" where
  "reject_other txt t =
     \<lparr>rej_reason = Other, rej_ref_tag = Some t, rej_text = Some txt, rej_is_garbled = False\<rparr>"

text \<open>\<open>Display\<close>: the overriding text if there is one, the standard text otherwise.\<close>

definition reject_display :: "reject_error \<Rightarrow> bytes" where
  "reject_display r = (case rej_text r of Some t \<Rightarrow> t | None \<Rightarrow> reason_text (rej_reason r))"

datatype conversion_error =
    FieldNotFound tag
  | InvalidValue tag bytes

text \<open>
  \<open>Error::Parse\<close> carries a formatted message; the model keeps what it is formatted from.
\<close>

datatype parse_reason =
    FieldWithoutEq
  | InvalidTag bytes
  | DataTooShort tag nat
  | NotTerminated tag
  | FirstNotBeginString
  | SecondNotBodyLength
  | ThirdNotMsgType
  | NoCheckSum
  | BadBodyLength
  | BodyLengthMismatch nat nat
  | BadCheckSum
  | CheckSumMismatch nat nat
  | FewerFields nat

datatype error =
    ParseError parse_reason
  | Conversion conversion_error
  | RejectErr reject_error
  | UnknownSession bytes
  | NotLoggedOn bytes
  | ConfigError bytes
  | TlsError bytes
  | DictionaryError bytes
  | StoreError bytes
  | DoNotSend
  | IoError bytes

text \<open>The wire codes tell the reasons apart.\<close>

lemma reason_code_inj: "reason_code r = reason_code r' \<Longrightarrow> r = r'"
  by (cases r; cases r') simp_all

lemma reject_simps [simp]:
  "rej_ref_tag (reject_new r) = None" "rej_reason (reject_new r) = r"
  "rej_ref_tag (reject_with_tag r t) = Some t" "rej_reason (reject_with_tag r t) = r"
  "rej_ref_tag (reject_other x t) = Some t" "rej_reason (reject_other x t) = Other"
  by (simp_all add: reject_new_def reject_with_tag_def reject_other_def)

end
