(* ===== verification/Fix_Value.thy ===== *)
theory Fix_Value
  imports Fix_Error
begin

text \<open>
  \<open>src/value.rs\<close>: conversions between values and their wire representation, one \<open>encode_*\<close> and
  one \<open>decode_*\<close> per implementation of \<open>FixEncode\<close> and \<open>FixDecode\<close>. Calendar formatting is the
  \<open>chrono\<close> crate's and is a parameter (record \<open>chrono\<close>); instants are integers, nanoseconds
  from a fixed origin. Of \<open>f64\<close> only the acceptance test is modelled (the engine itself never
  looks at the value); \<open>rust_decimal\<close>'s printing and parsing are parameters.
\<close>

section \<open>Errors\<close>

definition invalid :: "tag \<Rightarrow> bytes \<Rightarrow> conversion_error" where
  "invalid t b = InvalidValue t (from_utf8_lossy b)"

type_synonym 'a decoder = "tag \<Rightarrow> bytes \<Rightarrow> conversion_error + 'a"

section \<open>Booleans and integers\<close>

definition encode_bool :: "bool \<Rightarrow> bytes" where
  "encode_bool b = (if b then ''Y'' else ''N'')"

definition decode_bool :: "bool decoder" where
  "decode_bool t b =
     (if b = ''Y'' then Inr True else if b = ''N'' then Inr False else Inl (invalid t b))"

text \<open>
  The integer implementations share one encoder, which casts to \<open>i64\<close> first: a \<open>u64\<close> or
  \<open>usize\<close> from \<open>2 ^ 63\<close> on becomes negative.
\<close>

definition as_i64 :: "nat \<Rightarrow> int" where
  "as_i64 n = (if n < 2 ^ 63 then int n else int n - 2 ^ 64)"

definition encode_u64 :: "u64 \<Rightarrow> bytes" where
  "encode_u64 n = dec_int (as_i64 n)"

definition encode_int :: "int \<Rightarrow> bytes" where
  "encode_int i = dec_int i"

definition decode_u64 :: "u64 decoder" where
  "decode_u64 t b = (case parse_u64 b of Some n \<Rightarrow> Inr n | None \<Rightarrow> Inl (invalid t b))"

definition decode_u32 :: "nat decoder" where
  "decode_u32 t b = (case parse_u32 b of Some n \<Rightarrow> Inr n | None \<Rightarrow> Inl (invalid t b))"

definition decode_i64 :: "int decoder" where
  "decode_i64 t b = (case parse_i64 b of Some n \<Rightarrow> Inr n | None \<Rightarrow> Inl (invalid t b))"

definition decode_i32 :: "int decoder" where
  "decode_i32 t b = (case parse_i32 b of Some n \<Rightarrow> Inr n | None \<Rightarrow> Inl (invalid t b))"

section \<open>Floats: what the wire accepts\<close>

text \<open>
  \<open>f64::decode\<close> first refuses every byte but digits, \<open>.\<close> and \<open>-\<close>, then parses: over those
  bytes \<open>f64::from_str\<close> takes an optional minus, digits with at most one point, and at least
  one digit.
\<close>

definition float_charset :: "bytes \<Rightarrow> bool" where
  "float_charset b \<longleftrightarrow> list_all (\<lambda>c. is_digit c \<or> c = CHR ''.'' \<or> c = CHR ''-'') b"

definition float_body :: "bytes \<Rightarrow> bool" where
  "float_body b \<longleftrightarrow>
     list_all (\<lambda>c. is_digit c \<or> c = CHR ''.'') b
     \<and> length (filter (\<lambda>c. c = CHR ''.'') b) \<le> 1
     \<and> list_ex is_digit b"

definition decode_f64_ok :: "bytes \<Rightarrow> bool" where
  "decode_f64_ok b \<longleftrightarrow>
     float_charset b
     \<and> float_body (case b of c # cs \<Rightarrow> if c = CHR ''-'' then cs else b | [] \<Rightarrow> b)"

section \<open>Strings\<close>

definition decode_string :: "bytes decoder" where
  "decode_string t b = (if utf8_ok b then Inr b else Inl (invalid t b))"

definition decode_bytes :: "bytes decoder" where
  "decode_bytes t b = Inr b"

definition encode_str :: "bytes \<Rightarrow> bytes" where
  "encode_str s = s"

definition encode_bytes :: "bytes \<Rightarrow> bytes" where
  "encode_bytes b = b"

text \<open>A \<open>char\<close> is the UTF-8 encoding of one character; decoding takes exactly one.\<close>

definition one_char :: "bytes \<Rightarrow> bool" where
  "one_char b \<longleftrightarrow> b \<noteq> [] \<and> utf8_head b = (length b, True)"

definition encode_char :: "bytes \<Rightarrow> bytes" where
  "encode_char c = c"

definition decode_char :: "bytes decoder" where
  "decode_char t b = (if utf8_ok b \<and> one_char b then Inr b else Inl (invalid t b))"

lemma decode_char_encode: "one_char c \<Longrightarrow> decode_char t (encode_char c) = Inr c"
  by (simp add: decode_char_def encode_char_def one_char_def utf8_ok.simps [of c])

lemma decode_char_one: "decode_char t b = Inr c \<Longrightarrow> c = b \<and> one_char c"
  by (simp add: decode_char_def split: if_splits)

section \<open>Decimals\<close>

definition encode_decimal :: "('d \<Rightarrow> bytes) \<Rightarrow> 'd \<Rightarrow> bytes" where
  "encode_decimal display d = display d"

definition decode_decimal :: "(bytes \<Rightarrow> 'd option) \<Rightarrow> 'd decoder" where
  "decode_decimal from_str t b =
     (if \<not> utf8_ok b \<or> \<not> float_charset b then Inl (invalid t b)
      else case from_str b of Some d \<Rightarrow> Inr d | None \<Rightarrow> Inl (invalid t b))"

text \<open>A decimal printed without exponent or plus sign, as the crate documents, is read back.\<close>

lemma decode_decimal_encode:
  assumes "from_str (display d) = Some d" and "float_charset (display d)"
  shows "decode_decimal from_str t (encode_decimal display d) = Inr d"
proof -
  have "\<forall>c \<in> set (display d). byte_of c < 128"
    using assms(2) by (auto simp: float_charset_def list_all_iff is_digit_def byte_of_def)
  with assms show ?thesis by (simp add: decode_decimal_def encode_decimal_def utf8_ok_ascii)
qed

section \<open>Timestamps\<close>

datatype timestamp_precision = Seconds | Millis | Micros | Nanos

record utc_timestamp =
  ts_time :: int
  ts_precision :: timestamp_precision

text \<open>
  What the code uses of \<open>chrono\<close>: \<open>DateTime::format\<close> and \<open>NaiveDateTime::parse_from_str\<close>,
  each with the format string it is given, and \<open>NaiveDate::parse_from_str\<close>.
\<close>

record chrono =
  ch_format :: "bytes \<Rightarrow> int \<Rightarrow> bytes"
  ch_parse :: "bytes \<Rightarrow> bytes \<Rightarrow> int option"
  ch_date_ok :: "bytes \<Rightarrow> bytes \<Rightarrow> bool"

fun ts_format :: "timestamp_precision \<Rightarrow> bytes" where
  "ts_format Seconds = ''%Y%m%d-%H:%M:%S''"
| "ts_format Millis = ''%Y%m%d-%H:%M:%S%.3f''"
| "ts_format Micros = ''%Y%m%d-%H:%M:%S%.6f''"
| "ts_format Nanos = ''%Y%m%d-%H:%M:%S%.9f''"

definition encode_timestamp :: "chrono \<Rightarrow> utc_timestamp \<Rightarrow> bytes" where
  "encode_timestamp ch ts = ch_format ch (ts_format (ts_precision ts)) (ts_time ts)"

definition precision_of_length :: "nat \<Rightarrow> timestamp_precision option" where
  "precision_of_length n =
     (if n = 17 then Some Seconds else if n = 21 then Some Millis
      else if n = 24 then Some Micros else if n = 27 then Some Nanos else None)"

definition decode_timestamp :: "chrono \<Rightarrow> utc_timestamp decoder" where
  "decode_timestamp ch t b =
     (if \<not> utf8_ok b then Inl (invalid t b)
      else case precision_of_length (length b) of
        None \<Rightarrow> Inl (invalid t b)
      | Some p \<Rightarrow>
          (case ch_parse ch (ts_format p) b of
             None \<Rightarrow> Inl (invalid t b)
           | Some time \<Rightarrow> Inr \<lparr>ts_time = time, ts_precision = p\<rparr>))"

definition decode_fix_date_ok :: "chrono \<Rightarrow> bytes \<Rightarrow> bool" where
  "decode_fix_date_ok ch b \<longleftrightarrow> utf8_ok b \<and> ch_date_ok ch ''%Y%m%d'' b"

section \<open>Round trips\<close>

lemma decode_bool_encode [simp]: "decode_bool t (encode_bool b) = Inr b"
  by (simp add: decode_bool_def encode_bool_def)

lemma encode_u64_small: "n < 2 ^ 63 \<Longrightarrow> encode_u64 n = dec_nat n"
  by (simp add: encode_u64_def as_i64_def dec_int_def)

lemma decode_u64_encode: "n < 2 ^ 63 \<Longrightarrow> decode_u64 t (encode_u64 n) = Inr n"
  by (simp add: decode_u64_def encode_u64_small)

lemma encode_u64_big:
  "2 ^ 63 \<le> n \<Longrightarrow> n < 2 ^ 64 \<Longrightarrow> encode_u64 n = CHR ''-'' # dec_nat (2 ^ 64 - n)"
  by (simp add: encode_u64_def as_i64_def dec_int_def nat_diff_distrib)

lemma decode_u64_encode_big:
  "2 ^ 63 \<le> n \<Longrightarrow> n < 2 ^ 64 \<Longrightarrow>
   decode_u64 t (encode_u64 n) = Inl (invalid t (CHR ''-'' # dec_nat (2 ^ 64 - n)))"
  by (simp add: decode_u64_def encode_u64_big parse_u64_def)

lemma decode_u64_bound: "decode_u64 t b = Inr n \<Longrightarrow> n < 2 ^ 64"
  by (auto simp: decode_u64_def dest: parse_u64_bound split: option.splits)

lemma encode_u64_no_soh [simp]: "CHR 0x01 \<notin> set (encode_u64 n)"
  by (simp add: encode_u64_def dec_int_no_special)

text \<open>
  The integer encoding is faithful exactly below two to the sixty-third: for every 64-bit
  value, decoding what was encoded gives the value back if and only if the cast to \<open>i64\<close> kept
  it non-negative.
\<close>

lemma encode_u64_round_trip_iff:
  "decode_u64 t (encode_u64 (unat (w :: 64 word))) = Inr (unat w) \<longleftrightarrow> unat w < 2 ^ 63"
proof (cases "unat w < 2 ^ 63")
  case True
  then show ?thesis by (simp add: decode_u64_encode)
next
  case False
  moreover have "unat w < 2 ^ 64" using unsigned_less [of w] by simp
  ultimately show ?thesis by (simp add: decode_u64_encode_big)
qed

end
