(* ===== verification/Field_Map.thy ===== *)
theory Field_Map
  imports Fix_Value
begin

text \<open>
  \<open>src/field_map.rs\<close>: the ordered multi-map of FIX fields. \<open>FieldMap\<close> wraps one vector, so it is
  the list of its fields in wire order. \<open>read_groups\<close> and \<open>write_groups\<close> are the repeating-group
  operations, \<open>wire_len\<close> and \<open>write_to\<close> the serialisation.
\<close>

section \<open>Fields and maps of fields\<close>

definition SOH :: char where [simp]: "SOH = CHR 0x01"

record tag_value =
  tv_tag :: tag
  tv_value :: bytes

type_synonym field_map = "tag_value list"

definition tv :: "tag \<Rightarrow> bytes \<Rightarrow> tag_value" where
  "tv t v = \<lparr>tv_tag = t, tv_value = v\<rparr>"

lemma tv_simps [simp]: "tv_tag (tv t v) = t" "tv_value (tv t v) = v"
  by (simp_all add: tv_def)

lemma tv_eta [simp]: "tv (tv_tag f) (tv_value f) = f"
  by (simp add: tv_def)

lemma tv_inject [simp]: "tv t v = tv t' v' \<longleftrightarrow> t = t' \<and> v = v'"
  by (simp add: tv_def)

definition contains :: "tag \<Rightarrow> field_map \<Rightarrow> bool" where
  "contains t fm \<longleftrightarrow> list_ex (\<lambda>f. tv_tag f = t) fm"

definition get_raw :: "tag \<Rightarrow> field_map \<Rightarrow> bytes option" where
  "get_raw t fm = map_option tv_value (List.find (\<lambda>f. tv_tag f = t) fm)"

definition fm_get :: "'a decoder \<Rightarrow> tag \<Rightarrow> field_map \<Rightarrow> conversion_error + 'a" where
  "fm_get dec t fm = (case get_raw t fm of None \<Rightarrow> Inl (FieldNotFound t) | Some v \<Rightarrow> dec t v)"

definition fm_get_opt :: "'a decoder \<Rightarrow> tag \<Rightarrow> field_map \<Rightarrow> conversion_error + 'a option" where
  "fm_get_opt dec t fm =
     (case get_raw t fm of None \<Rightarrow> Inr None | Some v \<Rightarrow> map_sum id Some (dec t v))"

definition get_string :: "tag \<Rightarrow> field_map \<Rightarrow> conversion_error + bytes" where
  "get_string t fm = fm_get decode_string t fm"

text \<open>\<open>get_opt(..).ok().flatten()\<close>, the shape in which the session layer reads options.\<close>

definition get_ok :: "'a decoder \<Rightarrow> tag \<Rightarrow> field_map \<Rightarrow> 'a option" where
  "get_ok dec t fm = (case fm_get_opt dec t fm of Inl _ \<Rightarrow> None | Inr v \<Rightarrow> v)"

fun set_raw :: "tag \<Rightarrow> bytes \<Rightarrow> field_map \<Rightarrow> field_map" where
  "set_raw t v [] = [tv t v]"
| "set_raw t v (f # fs) = (if tv_tag f = t then tv t v # fs else f # set_raw t v fs)"

definition push :: "tag \<Rightarrow> bytes \<Rightarrow> field_map \<Rightarrow> field_map" where
  "push t v fm = fm @ [tv t v]"

definition fm_remove :: "tag \<Rightarrow> field_map \<Rightarrow> field_map \<times> bool" where
  "fm_remove t fm =
     (let kept = filter (\<lambda>f. tv_tag f \<noteq> t) fm in (kept, length kept \<noteq> length fm))"

section \<open>Serialisation\<close>

definition write_tag_value :: "tag \<Rightarrow> bytes \<Rightarrow> bytes" where
  "write_tag_value t v = dec_int t @ [CHR ''=''] @ v @ [SOH]"

definition write_to :: "field_map \<Rightarrow> bytes" where
  "write_to fm = concat (map (\<lambda>f. write_tag_value (tv_tag f) (tv_value f)) fm)"

text \<open>
  \<open>dec_len\<close> counts decimal digits by repeated division (Rust's \<open>/\<close> on the non-negative
  magnitude), one more for the sign.
\<close>

fun dec_len_loop :: "nat \<Rightarrow> nat \<Rightarrow> nat" where
  "dec_len_loop v n = (if 10 \<le> v then dec_len_loop (v div 10) (n + 1) else n)"

declare dec_len_loop.simps [simp del]

definition dec_len :: "tag \<Rightarrow> nat" where
  "dec_len v = (if v < 0 then dec_len_loop (nat (- v)) 2 else dec_len_loop (nat v) 1)"

definition wire_len :: "field_map \<Rightarrow> nat" where
  "wire_len fm = sum_list (map (\<lambda>f. dec_len (tv_tag f) + 1 + length (tv_value f) + 1) fm)"

section \<open>Repeating groups\<close>

record group_template =
  gt_num_tag :: tag
  gt_member_tags :: "tag list"

text \<open>The constructor asserts a non-empty member list; \<open>delimiter\<close> indexes its first element.\<close>

definition group_template_new :: "tag \<Rightarrow> tag list \<Rightarrow> ('e, group_template) res" where
  "group_template_new n ms =
     (if ms = [] then Panic else Ok \<lparr>gt_num_tag = n, gt_member_tags = ms\<rparr>)"

definition delimiter :: "group_template \<Rightarrow> tag" where
  "delimiter tpl = hd (gt_member_tags tpl)"

definition is_member :: "group_template \<Rightarrow> tag \<Rightarrow> bool" where
  "is_member tpl t \<longleftrightarrow> t \<in> set (gt_member_tags tpl)"

text \<open>
  The loop of \<open>read_groups\<close> over the fields after the counter. A delimiter opens an instance; a
  tag outside the template, or any tag before the first delimiter, ends the section; the last
  branch is the source's \<open>None\<close> arm of \<open>groups.last_mut()\<close>.
\<close>

fun read_loop ::
  "group_template \<Rightarrow> field_map list \<Rightarrow> field_map \<Rightarrow> conversion_error + field_map list" where
  "read_loop tpl gs [] = Inr gs"
| "read_loop tpl gs (f # fs) =
     (let gs1 = (if tv_tag f = delimiter tpl then gs @ [[]] else gs) in
      if tv_tag f \<noteq> delimiter tpl \<and> (gs = [] \<or> \<not> is_member tpl (tv_tag f)) then Inr gs
      else if gs1 = [] then Inl (invalid (tv_tag f) (tv_value f))
      else read_loop tpl (butlast gs1 @ [last gs1 @ [f]]) fs)"

definition read_groups :: "group_template \<Rightarrow> field_map \<Rightarrow> conversion_error + field_map list" where
  "read_groups tpl fm =
     (case dropWhile (\<lambda>f. tv_tag f \<noteq> gt_num_tag tpl) fm of
        [] \<Rightarrow> Inr []
      | _ # after \<Rightarrow>
          (case fm_get decode_u64 (gt_num_tag tpl) fm of
             Inl e \<Rightarrow> Inl e
           | Inr declared \<Rightarrow>
               (case read_loop tpl [] after of
                  Inl e \<Rightarrow> Inl e
                | Inr gs \<Rightarrow>
                    if length gs \<noteq> declared
                    then Inl (InvalidValue (gt_num_tag tpl) (dec_nat declared))
                    else Inr gs)))"

definition write_groups :: "group_template \<Rightarrow> field_map list \<Rightarrow> field_map \<Rightarrow> field_map" where
  "write_groups tpl gs fm =
     set_raw (gt_num_tag tpl) (encode_u64 (length gs)) fm @ concat gs"

section \<open>Look-up after update\<close>

lemma get_raw_Nil [simp]: "get_raw t [] = None"
  by (simp add: get_raw_def)

lemma get_raw_Cons [simp]:
  "get_raw t (f # fs) = (if tv_tag f = t then Some (tv_value f) else get_raw t fs)"
  by (simp add: get_raw_def)

lemma get_raw_append:
  "get_raw t (xs @ ys) = (case get_raw t xs of Some v \<Rightarrow> Some v | None \<Rightarrow> get_raw t ys)"
  by (induction xs) auto

lemma get_raw_None_iff: "get_raw t fm = None \<longleftrightarrow> t \<notin> tv_tag ` set fm"
  by (induction fm) auto

lemma contains_iff: "contains t fm \<longleftrightarrow> t \<in> tv_tag ` set fm"
  by (auto simp: contains_def list_ex_iff)

lemma contains_get_raw: "contains t fm \<longleftrightarrow> get_raw t fm \<noteq> None"
  by (simp add: contains_iff get_raw_None_iff)

lemma get_raw_set_raw [simp]: "get_raw t (set_raw t v fm) = Some v"
  by (induction fm) auto

lemma get_raw_set_raw_other [simp]: "t \<noteq> u \<Longrightarrow> get_raw u (set_raw t v fm) = get_raw u fm"
  by (induction fm) auto

lemma set_raw_absent: "t \<notin> tv_tag ` set fm \<Longrightarrow> set_raw t v fm = fm @ [tv t v]"
  by (induction fm) auto

lemma tags_set_raw: "tv_tag ` set (set_raw t v fm) = insert t (tv_tag ` set fm)"
  by (induction fm) auto

lemma get_raw_filter_other:
  "(\<And>f. tv_tag f = u \<Longrightarrow> P f) \<Longrightarrow> get_raw u (filter P fm) = get_raw u fm"
  by (induction fm) auto

lemma get_raw_fm_remove [simp]: "get_raw t (fst (fm_remove t fm)) = None"
  by (auto simp: fm_remove_def Let_def get_raw_None_iff)

lemma get_raw_fm_remove_other [simp]:
  "t \<noteq> u \<Longrightarrow> get_raw u (fst (fm_remove t fm)) = get_raw u fm"
  by (simp add: fm_remove_def Let_def get_raw_filter_other)

lemma set_fst_fm_remove: "set (fst (fm_remove t fm)) = {f \<in> set fm. tv_tag f \<noteq> t}"
  by (simp add: fm_remove_def Let_def)

lemma fm_get_set_raw: "fm_get dec t (set_raw t v fm) = dec t v"
  by (simp add: fm_get_def)

text \<open>
  The interface of a keyed field store, and the laws its clients use. The instance below is
  the field map with \<open>set_raw\<close> and \<open>get_raw\<close>.
\<close>

locale keyed_fields =
  fixes lookup :: "'k \<Rightarrow> 'm \<Rightarrow> 'v option"
    and store :: "'k \<Rightarrow> 'v \<Rightarrow> 'm \<Rightarrow> 'm"
    and erase :: "'k \<Rightarrow> 'm \<Rightarrow> 'm"
  assumes lookup_store: "lookup k (store k v m) = Some v"
    and lookup_store_other: "k \<noteq> j \<Longrightarrow> lookup j (store k v m) = lookup j m"
    and lookup_erase: "lookup k (erase k m) = None"
    and lookup_erase_other: "k \<noteq> j \<Longrightarrow> lookup j (erase k m) = lookup j m"
begin

lemma lookup_store_all:
  "lookup j (fold (\<lambda>(k, v). store k v) kvs m)
   = (case map_of (rev kvs) j of Some v \<Rightarrow> Some v | None \<Rightarrow> lookup j m)"
proof (induction kvs arbitrary: m)
  case (Cons kv kvs)
  obtain k v where [simp]: "kv = (k, v)" by (cases kv)
  show ?case
    using Cons.IH [of "store k v m"]
    by (auto simp: map_add_def lookup_store lookup_store_other split: option.splits)
qed simp

lemma lookup_store_erase:
  "lookup j (store k v (erase k m)) = lookup j (store k v m)"
  by (cases "j = k") (auto simp: lookup_store lookup_store_other lookup_erase_other)

end

interpretation fields: keyed_fields get_raw set_raw "\<lambda>t fm. fst (fm_remove t fm)"
  by unfold_locales auto

section \<open>Serialised length\<close>

lemma dec_len_loop_eq: "dec_len_loop v n = n + length (dec_nat v) - 1"
proof (induction v n rule: dec_len_loop.induct)
  case (1 v n)
  show ?case
  proof (cases "10 \<le> v")
    case True
    with "1.IH" show ?thesis
      by (simp add: dec_len_loop.simps [of v n] dec_nat_step [of v])
  next
    case False
    then show ?thesis by (simp add: dec_len_loop.simps [of v n] dec_nat_small)
  qed
qed

lemma length_dec_nat_pos [simp]: "0 < length (dec_nat n)"
  by simp

lemma dec_len_length: "dec_len t = length (dec_int t)"
  by (simp add: dec_len_def dec_int_def dec_len_loop_eq Suc_leI)

text \<open>
  \<open>wire_len\<close>, computed without serialising, is the number of bytes \<open>write_to\<close> appends.
\<close>

lemma wire_len_correct: "wire_len fm = length (write_to fm)"
  by (induction fm) (simp_all add: wire_len_def write_to_def write_tag_value_def dec_len_length)

section \<open>Groups: read after write\<close>

text \<open>An instance starts with the delimiter and goes on with other members.\<close>

definition group_instance :: "group_template \<Rightarrow> field_map \<Rightarrow> bool" where
  "group_instance tpl g \<longleftrightarrow>
     (case g of
        [] \<Rightarrow> False
      | f # fs \<Rightarrow> tv_tag f = delimiter tpl
          \<and> list_all (\<lambda>h. tv_tag h \<noteq> delimiter tpl \<and> is_member tpl (tv_tag h)) fs)"

lemma read_loop_members:
  assumes "list_all (\<lambda>h. tv_tag h \<noteq> delimiter tpl \<and> is_member tpl (tv_tag h)) fs"
  shows "read_loop tpl (gs @ [g]) (fs @ rest) = read_loop tpl (gs @ [g @ fs]) rest"
  using assms by (induction fs arbitrary: g) (auto simp: Let_def)

lemma read_loop_instances:
  assumes "list_all (group_instance tpl) hs"
  shows "read_loop tpl gs (concat hs @ rest) = read_loop tpl (gs @ hs) rest"
  using assms
proof (induction hs arbitrary: gs)
  case (Cons h hs)
  then obtain f fs where h: "h = f # fs" and f: "tv_tag f = delimiter tpl"
    and fs: "list_all (\<lambda>h. tv_tag h \<noteq> delimiter tpl \<and> is_member tpl (tv_tag h)) fs"
    by (auto simp: group_instance_def split: list.splits)
  have "read_loop tpl gs (concat (h # hs) @ rest)
      = read_loop tpl (gs @ [[f]]) (fs @ concat hs @ rest)"
    using f by (simp add: h Let_def)
  also have "\<dots> = read_loop tpl (gs @ [f # fs]) (concat hs @ rest)"
    using read_loop_members [OF fs, of gs "[f]" "concat hs @ rest"] by simp
  also have "\<dots> = read_loop tpl (gs @ h # hs) rest"
    using Cons h by simp
  finally show ?case .
qed simp

lemma dropWhile_absent:
  "n \<notin> tv_tag ` set fm \<Longrightarrow> dropWhile (\<lambda>f. tv_tag f \<noteq> n) (fm @ x # rest)
    = (if tv_tag x \<noteq> n then dropWhile (\<lambda>f. tv_tag f \<noteq> n) rest else x # rest)"
  by (induction fm) auto

text \<open>
  Writing repeating-group instances into a body that has no such group and reading the group
  back returns exactly those instances, whatever non-member fields follow them.
\<close>

lemma read_write_groups:
  assumes "gt_num_tag tpl \<notin> tv_tag ` set fm"
    and "list_all (group_instance tpl) gs" and "length gs < 2 ^ 63"
    and "case rest of [] \<Rightarrow> True
         | f # _ \<Rightarrow> tv_tag f \<noteq> delimiter tpl \<and> \<not> is_member tpl (tv_tag f)"
  shows "read_groups tpl (write_groups tpl gs fm @ rest) = Inr gs"
proof -
  let ?n = "gt_num_tag tpl" and ?c = "tv (gt_num_tag tpl) (encode_u64 (length gs))"
  have w: "write_groups tpl gs fm @ rest = fm @ ?c # concat gs @ rest"
    using assms(1) by (simp add: write_groups_def set_raw_absent)
  have "get_raw ?n fm = None" using assms(1) by (simp add: get_raw_None_iff)
  then have g: "fm_get decode_u64 ?n (fm @ ?c # concat gs @ rest) = Inr (length gs)"
    using assms(3) by (simp add: fm_get_def get_raw_append decode_u64_encode)
  have "read_loop tpl [] (concat gs @ rest) = read_loop tpl gs rest"
    using read_loop_instances [OF assms(2), of "[]"] by simp
  also have "\<dots> = Inr gs" using assms(4) by (cases rest) (auto simp: Let_def)
  finally show ?thesis
    unfolding w read_groups_def using g
    by (simp add: dropWhile_absent [OF assms(1)])
qed

lemma read_write_groups_witness:
  "read_groups \<lparr>gt_num_tag = 267, gt_member_tags = [269, 270]\<rparr>
     (write_groups \<lparr>gt_num_tag = 267, gt_member_tags = [269, 270]\<rparr>
        [[tv 269 ''0'', tv 270 ''101.5''], [tv 269 ''1'']] [tv 262 ''REQ1''] @ [tv 58 ''x''])
   = Inr [[tv 269 ''0'', tv 270 ''101.5''], [tv 269 ''1'']]"
  by (rule read_write_groups) (simp_all add: group_instance_def delimiter_def is_member_def)

lemma read_loop_never_fails: "\<exists>gs'. read_loop tpl gs fs = Inr gs'"
  by (induction tpl gs fs rule: read_loop.induct) (auto simp: Let_def)

text \<open>
  An error of \<open>read_groups\<close> always names the counter tag: a member before the first delimiter
  ends the section instead of being reported under its own tag.
\<close>

lemma read_groups_error_names_counter:
  assumes "read_groups tpl fm = Inl e"
  shows "\<exists>v. e = InvalidValue (gt_num_tag tpl) v"
proof -
  obtain x after where d: "dropWhile (\<lambda>f. tv_tag f \<noteq> gt_num_tag tpl) fm = x # after"
    using assms by (auto simp: read_groups_def split: list.splits)
  then have "tv_tag x = gt_num_tag tpl" "x \<in> set fm"
    by (metis (full_types) hd_dropWhile list.sel(1) list.simps(3))
       (metis d list.set_intros(1) set_dropWhileD)
  then obtain v where "get_raw (gt_num_tag tpl) fm = Some v"
    by (metis get_raw_None_iff image_eqI option.exhaust)
  then have "fm_get decode_u64 (gt_num_tag tpl) fm = Inl e' \<Longrightarrow> \<exists>v. e' = InvalidValue (gt_num_tag tpl) v" for e'
    by (auto simp: fm_get_def decode_u64_def invalid_def split: option.splits)
  moreover obtain gs where "read_loop tpl [] after = Inr gs"
    using read_loop_never_fails by blast
  ultimately show ?thesis
    using assms d by (auto simp: read_groups_def split: sum.splits if_splits)
qed

lemma read_groups_error_names_counter_witness:
  "\<exists>v. InvalidValue 267 ''3'' = InvalidValue (gt_num_tag \<lparr>gt_num_tag = 267, gt_member_tags = [269]\<rparr>) v"
  by (rule read_groups_error_names_counter [of _ "[tv 267 ''3'', tv 269 ''0'']"])
     (simp add: read_groups_def fm_get_def decode_u64_def delimiter_def is_member_def bytes_simps)

text \<open>
  Writing a group twice does not replace it: the counter is updated in place but the old
  instances stay in front of the new ones, so reading the group back fails.
\<close>

lemma write_groups_twice_unreadable:
  assumes "gt_num_tag tpl \<notin> tv_tag ` set fm" "gt_num_tag tpl \<noteq> delimiter tpl"
    and "list_all (group_instance tpl) gs" "list_all (group_instance tpl) hs"
    and "gs \<noteq> []" "length hs < 2 ^ 63"
  shows "read_groups tpl (write_groups tpl hs (write_groups tpl gs fm))
    = Inl (InvalidValue (gt_num_tag tpl) (dec_nat (length hs)))"
proof -
  let ?n = "gt_num_tag tpl" and ?c = "\<lambda>k. tv (gt_num_tag tpl) (encode_u64 k)"
  have set2: "set_raw ?n v (xs @ tv ?n u # ys) = xs @ tv ?n v # ys"
    if "?n \<notin> tv_tag ` set xs" for v u xs ys
    using that by (induction xs) auto
  have w: "write_groups tpl hs (write_groups tpl gs fm) = fm @ ?c (length hs) # concat (gs @ hs)"
    using assms(1) by (simp add: write_groups_def set_raw_absent set2)
  have "get_raw ?n fm = None" using assms(1) by (simp add: get_raw_None_iff)
  then have g: "fm_get decode_u64 ?n (fm @ ?c (length hs) # concat (gs @ hs)) = Inr (length hs)"
    using assms(6) by (simp add: fm_get_def get_raw_append decode_u64_encode)
  have "read_loop tpl [] (concat (gs @ hs) @ []) = read_loop tpl ([] @ gs @ hs) []"
    by (rule read_loop_instances) (use assms(3,4) in simp)
  then show ?thesis
    unfolding w read_groups_def using g assms(5)
    by (simp add: dropWhile_absent [OF assms(1)])
qed

lemma write_groups_twice_unreadable_witness:
  "read_groups \<lparr>gt_num_tag = 267, gt_member_tags = [269]\<rparr>
     (write_groups \<lparr>gt_num_tag = 267, gt_member_tags = [269]\<rparr> [[tv 269 ''1'']]
       (write_groups \<lparr>gt_num_tag = 267, gt_member_tags = [269]\<rparr> [[tv 269 ''0'']] []))
   = Inl (InvalidValue (gt_num_tag \<lparr>gt_num_tag = 267, gt_member_tags = [269]\<rparr>) (dec_nat 1))"
  using write_groups_twice_unreadable
    [of "\<lparr>gt_num_tag = 267, gt_member_tags = [269]\<rparr>" "[]" "[[tv 269 ''0'']]" "[[tv 269 ''1'']]"]
  by (simp add: group_instance_def delimiter_def)

end
