(* ===== verification/Fix_Message.thy ===== *)
theory Fix_Message
  imports Field_Map
begin

text \<open>
  \<open>src/message.rs\<close>: the message record, \<open>Message::parse\<close> as a loop over byte positions, and
  \<open>to_bytes\<close>. The parser returns an error for a garbled message and can unwind: a length-prefixed
  data field whose declared length wraps the end position around makes the slice bounds cross.
\<close>

section \<open>The message\<close>

record message =
  header :: field_map
  body :: field_map
  trailer :: field_map
  structure_error :: "tag option"

definition message_new :: message where
  "message_new = \<lparr>header = [], body = [], trailer = [], structure_error = None\<rparr>"

definition set_header :: "tag \<Rightarrow> bytes \<Rightarrow> message \<Rightarrow> message" where
  "set_header t v m = m\<lparr>header := set_raw t v (header m)\<rparr>"

definition set_body :: "tag \<Rightarrow> bytes \<Rightarrow> message \<Rightarrow> message" where
  "set_body t v m = m\<lparr>body := set_raw t v (body m)\<rparr>"

definition with_type :: "bytes \<Rightarrow> message" where
  "with_type mt = set_header MSG_TYPE mt message_new"

definition msg_type :: "message \<Rightarrow> conversion_error + bytes" where
  "msg_type m = get_string MSG_TYPE (header m)"

definition is_admin :: "message \<Rightarrow> bool" where
  "is_admin m = (case get_raw MSG_TYPE (header m) of None \<Rightarrow> False | Some t \<Rightarrow> is_admin_type t)"

definition seq_num :: "message \<Rightarrow> conversion_error + u64" where
  "seq_num m = fm_get decode_u64 MSG_SEQ_NUM (header m)"

definition poss_dup :: "message \<Rightarrow> bool" where
  "poss_dup m \<longleftrightarrow> get_raw POSS_DUP_FLAG (header m) = Some ''Y''"

definition stamp_sending_time :: "chrono \<Rightarrow> utc_timestamp \<Rightarrow> message \<Rightarrow> message" where
  "stamp_sending_time ch ts m = set_header SENDING_TIME (encode_timestamp ch ts) m"

section \<open>Checksum and field offsets\<close>

text \<open>The byte sum is accumulated in a \<open>u32\<close>, which wraps.\<close>

definition checksum :: "bytes \<Rightarrow> nat" where
  "checksum b = unat (foldl (\<lambda>s c. s + word_of_nat (byte_of c)) (0 :: 32 word) b) mod 256"

text \<open>The offset just past the SOH that ends the \<open>n\<close>-th field, counting SOH bytes from 0.\<close>

fun field_end_loop :: "bytes \<Rightarrow> nat \<Rightarrow> nat \<Rightarrow> nat option" where
  "field_end_loop [] i n = None"
| "field_end_loop (b # bs) i n =
     (if b = SOH then (if n = 0 then Some (i + 1) else field_end_loop bs (i + 1) (n - 1))
      else field_end_loop bs (i + 1) n)"

definition field_end_of :: "bytes \<Rightarrow> nat \<Rightarrow> (error, nat) res" where
  "field_end_of raw n =
     (case field_end_loop raw 0 n of
        Some i \<Rightarrow> Ok i
      | None \<Rightarrow> Err (ParseError (FewerFields (n + 1))))"

section \<open>Parsing\<close>

record parse_state =
  ps_msg :: message
  ps_pos :: nat
  ps_section :: nat
  ps_index :: nat
  ps_checksum_start :: "nat option"
  ps_pending :: "(tag \<times> nat) option"

definition parse_init :: parse_state where
  "parse_init = \<lparr>ps_msg = message_new, ps_pos = 0, ps_section = 0, ps_index = 0,
     ps_checksum_start = None, ps_pending = None\<rparr>"

text \<open>Where the value of a field ends: by its declared length or at the next SOH.\<close>

definition value_end :: "bytes \<Rightarrow> nat \<Rightarrow> tag \<Rightarrow> (tag \<times> nat) option \<Rightarrow> (error, nat) res" where
  "value_end raw val_start t pending =
     (let scan = (case position (\<lambda>b. b = SOH) (drop val_start raw) of
                    Some p \<Rightarrow> Ok (val_start + p)
                  | None \<Rightarrow> Err (ParseError (NotTerminated t)))
      in case pending of
           Some (data_tag, len) \<Rightarrow>
             if data_tag = t then
               (let e = u64_add val_start len in
                if length raw < e \<or> \<not> (e < length raw \<and> raw ! e = SOH)
                then Err (ParseError (DataTooShort t len)) else Ok e)
             else scan
         | None \<Rightarrow> scan)"

text \<open>The field at a position: its tag, its value and the position after it.\<close>

definition field_at ::
  "bytes \<Rightarrow> nat \<Rightarrow> (tag \<times> nat) option \<Rightarrow> (error, tag \<times> bytes \<times> nat) res" where
  "field_at raw pos pending =
     (case position (\<lambda>b. b = CHR ''='') (drop pos raw) of
        None \<Rightarrow> Err (ParseError FieldWithoutEq)
      | Some k \<Rightarrow>
          (case parse_i32 (take k (drop pos raw)) of
             None \<Rightarrow> Err (ParseError (InvalidTag (from_utf8_lossy (take (min k 16) (drop pos raw)))))
           | Some t \<Rightarrow>
               (let val_start = pos + k + 1 in
                res_bind (value_end raw val_start t pending) (\<lambda>val_end.
                  if val_end < val_start then Panic
                  else Ok (t, take (val_end - val_start) (drop val_start raw), val_end + 1)))))"

definition next_pending :: "tag \<Rightarrow> bytes \<Rightarrow> (tag \<times> nat) option" where
  "next_pending t v =
     (case data_tag_for_length_tag t of
        None \<Rightarrow> None
      | Some d \<Rightarrow> map_option (\<lambda>n. (d, n)) (parse_u64 v))"

definition leading_check :: "nat \<Rightarrow> tag \<Rightarrow> parse_reason option" where
  "leading_check i t =
     (if i = 0 \<and> t \<noteq> BEGIN_STRING then Some FirstNotBeginString
      else if i = 1 \<and> t \<noteq> BODY_LENGTH then Some SecondNotBodyLength
      else if i = 2 \<and> t \<noteq> MSG_TYPE then Some ThirdNotMsgType
      else None)"

definition get_or_insert :: "'a \<Rightarrow> 'a option \<Rightarrow> 'a option" where
  "get_or_insert x old = (case old of None \<Rightarrow> Some x | Some y \<Rightarrow> Some y)"

text \<open>Routing a field to its section by tag class, recording what is out of position.\<close>

definition route :: "nat \<Rightarrow> tag \<Rightarrow> bytes \<Rightarrow> parse_state \<Rightarrow> parse_state" where
  "route field_start t v ps =
     (let m = ps_msg ps in
      if t = CHECK_SUM then
        ps\<lparr>ps_checksum_start := Some field_start, ps_section := 2,
           ps_msg := m\<lparr>trailer := trailer m @ [tv t v]\<rparr>\<rparr>
      else if is_header_tag t then
        ps\<lparr>ps_msg := m\<lparr>header := header m @ [tv t v],
             structure_error := (if ps_section ps \<noteq> 0 then get_or_insert t (structure_error m)
                                 else structure_error m)\<rparr>\<rparr>
      else if is_trailer_tag t then
        ps\<lparr>ps_section := 2, ps_msg := m\<lparr>trailer := trailer m @ [tv t v]\<rparr>\<rparr>
      else
        ps\<lparr>ps_section := (if ps_section ps = 0 then 1 else ps_section ps),
           ps_msg := m\<lparr>body := body m @ [tv t v],
             structure_error := (if ps_section ps = 2 then get_or_insert t (structure_error m)
                                 else structure_error m)\<rparr>\<rparr>)"

definition parse_step :: "bytes \<Rightarrow> parse_state \<Rightarrow> (error, parse_state) res" where
  "parse_step raw ps =
     res_bind (field_at raw (ps_pos ps) (ps_pending ps)) (\<lambda>(t, v, next).
       case leading_check (ps_index ps) t of
         Some r \<Rightarrow> Err (ParseError r)
       | None \<Rightarrow> Ok ((route (ps_pos ps) t v ps)
           \<lparr>ps_pos := next, ps_index := ps_index ps + 1, ps_pending := next_pending t v\<rparr>))"

lemma route_ps_pos [simp]: "ps_pos (route s t v ps) = ps_pos ps"
  and route_ps_index [simp]: "ps_index (route s t v ps) = ps_index ps"
  by (simp_all add: route_def Let_def)

lemma field_at_advances: "field_at raw pos p = Ok (t, v, n) \<Longrightarrow> pos < n"
  by (auto simp: field_at_def res_bind_Ok_iff Let_def split: option.splits if_splits)

lemma parse_step_advances: "parse_step raw ps = Ok ps' \<Longrightarrow> ps_pos ps < ps_pos ps'"
  by (auto simp: parse_step_def res_bind_Ok_iff dest: field_at_advances split: option.splits)

function parse_loop :: "bytes \<Rightarrow> parse_state \<Rightarrow> (error, parse_state) res" where
  "parse_loop raw ps =
     (if ps_pos ps < length raw then
        (case parse_step raw ps of
           Ok ps' \<Rightarrow> parse_loop raw ps'
         | Err e \<Rightarrow> Err e
         | Panic \<Rightarrow> Panic)
      else Ok ps)"
  by pat_completeness auto
termination
  by (relation "measure (\<lambda>(raw, ps). length raw - ps_pos ps)")
     (auto dest: parse_step_advances)

declare parse_loop.simps [simp del]

text \<open>
  The length and checksum validation. The subtraction of the offsets is exact: the checksum
  field starts after the first two fields, or \<open>usize\<close> wraps.
\<close>

definition validate_wire :: "bytes \<Rightarrow> parse_state \<Rightarrow> (error, message) res" where
  "validate_wire raw ps =
     (case ps_checksum_start ps of
        None \<Rightarrow> Err (ParseError NoCheckSum)
      | Some checksum_start \<Rightarrow>
          (case fm_get decode_u64 BODY_LENGTH (header (ps_msg ps)) of
             Inl _ \<Rightarrow> Err (ParseError BadBodyLength)
           | Inr declared_len \<Rightarrow>
               res_bind (field_end_of raw 1) (\<lambda>body_from.
                 let actual_len = u64_sub checksum_start body_from in
                 if declared_len \<noteq> actual_len
                 then Err (ParseError (BodyLengthMismatch declared_len actual_len))
                 else case fm_get decode_u32 CHECK_SUM (trailer (ps_msg ps)) of
                        Inl _ \<Rightarrow> Err (ParseError BadCheckSum)
                      | Inr declared_sum \<Rightarrow>
                          (let actual_sum = checksum (take checksum_start raw) in
                           if declared_sum \<noteq> actual_sum
                           then Err (ParseError (CheckSumMismatch declared_sum actual_sum))
                           else Ok (ps_msg ps)))))"

definition message_parse :: "bytes \<Rightarrow> bool \<Rightarrow> (error, message) res" where
  "message_parse raw validate_length_checksum =
     res_bind (parse_loop raw parse_init) (\<lambda>ps.
       if validate_length_checksum then validate_wire raw ps else Ok (ps_msg ps))"

section \<open>Serialisation\<close>

definition header_rest :: "field_map \<Rightarrow> field_map" where
  "header_rest h =
     sort_key tv_tag (filter (\<lambda>f. tv_tag f \<notin> set [BEGIN_STRING, BODY_LENGTH, MSG_TYPE]) h)"

definition trailer_rest :: "field_map \<Rightarrow> field_map" where
  "trailer_rest tr = sort_key (\<lambda>f. - tv_tag f) (filter (\<lambda>f. tv_tag f \<noteq> CHECK_SUM) tr)"

definition msg_type_field :: "field_map \<Rightarrow> field_map" where
  "msg_type_field h = (case get_raw MSG_TYPE h of Some v \<Rightarrow> [tv MSG_TYPE v] | None \<Rightarrow> [])"

definition to_bytes_inner :: "message \<Rightarrow> bytes" where
  "to_bytes_inner m =
     write_to (msg_type_field (header m)) @ write_to (header_rest (header m))
     @ write_to (body m) @ write_to (trailer_rest (trailer m))"

definition begin_string_of :: "message \<Rightarrow> bytes" where
  "begin_string_of m =
     (case get_raw BEGIN_STRING (header m) of Some v \<Rightarrow> v | None \<Rightarrow> ''FIX.4.4'')"

definition to_bytes :: "message \<Rightarrow> bytes" where
  "to_bytes m =
     (let inner = to_bytes_inner m;
          out = write_tag_value BEGIN_STRING (begin_string_of m)
                @ write_tag_value BODY_LENGTH (dec_nat (length inner)) @ inner
      in out @ write_tag_value CHECK_SUM (pad_zero 3 (dec_nat (checksum out))))"

end
