(* ===== verification/Wire_Round_Trip.thy ===== *)
theory Wire_Round_Trip
  imports Fix_Message
begin

text \<open>
  Proofs about the wire format: what the parser does on serialised fields, the round trip
  through \<open>to_bytes\<close> and \<open>parse\<close>, and the inputs on which the parser unwinds.
\<close>

section \<open>Checksum\<close>

lemma foldl_word_sum:
  "foldl (\<lambda>s c. s + word_of_nat (byte_of c)) (w :: 'a :: len word) b
   = w + word_of_nat (sum_list (map byte_of b))"
  by (induction b arbitrary: w) (simp_all add: algebra_simps)

text \<open>
  The checksum accumulated in a wrapping 32-bit integer is the exact byte sum modulo 256:
  the overflow of the accumulator does not show.
\<close>

lemma checksum_byte_sum: "checksum b = sum_list (map byte_of b) mod 256"
proof -
  have "checksum b = (sum_list (map byte_of b) mod 2 ^ 32) mod 256"
    by (simp add: checksum_def foldl_word_sum unat_of_nat)
  also have "\<dots> = sum_list (map byte_of b) mod 256"
    by (rule mod_mod_cancel) simp
  finally show ?thesis .
qed

lemma checksum_lt [simp]: "checksum b < 256"
  by (simp add: checksum_def)

section \<open>Well-formed field sequences\<close>

definition tag_in_range :: "tag \<Rightarrow> bool" where
  "tag_in_range t \<longleftrightarrow> - (2 ^ 31) \<le> t \<and> t < 2 ^ 31"

text \<open>
  A field sequence the parser reads back: tags are 32-bit, and a value holds an SOH only when the
  field is the data field announced by the length field right before it, with that length.
\<close>

definition value_ok :: "(tag \<times> nat) option \<Rightarrow> tag \<Rightarrow> bytes \<Rightarrow> bool" where
  "value_ok pending t v \<longleftrightarrow>
     (case pending of
        Some (d, n) \<Rightarrow> if d = t then length v = n else SOH \<notin> set v
      | None \<Rightarrow> SOH \<notin> set v)"

fun wire_ok :: "(tag \<times> nat) option \<Rightarrow> field_map \<Rightarrow> bool" where
  "wire_ok p [] = True"
| "wire_ok p (f # fs) =
     (tag_in_range (tv_tag f) \<and> value_ok p (tv_tag f) (tv_value f)
      \<and> wire_ok (next_pending (tv_tag f) (tv_value f)) fs)"

fun pending_after :: "(tag \<times> nat) option \<Rightarrow> field_map \<Rightarrow> (tag \<times> nat) option" where
  "pending_after p [] = p"
| "pending_after p (f # fs) = pending_after (next_pending (tv_tag f) (tv_value f)) fs"

lemma wire_ok_append:
  "wire_ok p (xs @ ys) \<longleftrightarrow> wire_ok p xs \<and> wire_ok (pending_after p xs) ys"
  by (induction xs arbitrary: p) auto

lemma write_to_Nil [simp]: "write_to [] = []"
  by (simp add: write_to_def)

lemma write_to_Cons [simp]:
  "write_to (f # fs) = write_tag_value (tv_tag f) (tv_value f) @ write_to fs"
  by (simp add: write_to_def)

lemma write_to_append [simp]: "write_to (xs @ ys) = write_to xs @ write_to ys"
  by (simp add: write_to_def)

lemma length_write_tag_value [simp]:
  "length (write_tag_value t v) = length (dec_int t) + length v + 2"
  by (simp add: write_tag_value_def)

section \<open>One field\<close>

lemma value_end_written:
  assumes "value_ok p t v" and "length (pre @ v @ SOH # post) < 2 ^ 64"
  shows "value_end (pre @ v @ SOH # post) (length pre) t p = Ok (length pre + length v)"
proof -
  have scan: "position (\<lambda>b. b = SOH) (v @ SOH # post) = Some (length v)" if "SOH \<notin> set v"
    using that by (intro position_append_hit) auto
  show ?thesis
  proof (cases "\<exists>n. p = Some (t, n)")
    case True
    then obtain n where p: "p = Some (t, n)" by blast
    with assms(1) have "length v = n" by (simp add: value_ok_def)
    moreover have "u64_add (length pre) (length v) = length pre + length v"
      using assms(2) by (intro u64_add_exact) simp
    moreover have "(pre @ v @ SOH # post) ! (length pre + length v) = SOH"
      by (simp add: nth_append)
    ultimately show ?thesis using p by (simp add: value_end_def Let_def)
  next
    case False
    with assms(1) have "SOH \<notin> set v"
      by (auto simp: value_ok_def split: option.splits if_splits)
    with False scan show ?thesis
      by (auto simp: value_end_def Let_def split: option.splits)
  qed
qed

lemma field_at_written:
  assumes "tag_in_range t" "value_ok p t v"
    and "length (pre @ write_tag_value t v @ post) < 2 ^ 64"
  shows "field_at (pre @ write_tag_value t v @ post) (length pre) p
    = Ok (t, v, length pre + length (write_tag_value t v))"
proof -
  let ?raw = "pre @ write_tag_value t v @ post"
  let ?d = "dec_int t"
  let ?pre' = "pre @ ?d @ [CHR ''='']"
  have raw: "?raw = ?pre' @ v @ SOH # post" by (simp add: write_tag_value_def)
  have pos: "position (\<lambda>b. b = CHR ''='') (drop (length pre) ?raw) = Some (length ?d)"
    using dec_int_no_special(1) [of t] by (auto simp: write_tag_value_def intro!: position_append_hit)
  have tk: "take (length ?d) (drop (length pre) ?raw) = ?d" by (simp add: write_tag_value_def)
  have tag: "parse_i32 ?d = Some t" using assms(1) by (simp add: tag_in_range_def)
  have "value_end ?raw (length ?pre') t p = Ok (length ?pre' + length v)"
    unfolding raw by (rule value_end_written) (use assms(2,3) raw in simp_all)
  then have ve: "value_end ?raw (length pre + length ?d + 1) t p
      = Ok (length pre + length ?d + 1 + length v)" by (simp add: algebra_simps)
  have "take (length v) (drop (length pre + length ?d + 1) ?raw) = v"
    unfolding raw by simp
  then show ?thesis
    unfolding field_at_def pos option.case tk tag Let_def ve res_bind.simps by simp
qed

definition parse_next :: "parse_state \<Rightarrow> tag_value \<Rightarrow> parse_state" where
  "parse_next ps f =
     (route (ps_pos ps) (tv_tag f) (tv_value f) ps)
       \<lparr>ps_pos := ps_pos ps + length (write_tag_value (tv_tag f) (tv_value f)),
        ps_index := ps_index ps + 1,
        ps_pending := next_pending (tv_tag f) (tv_value f)\<rparr>"

lemma parse_next_simps [simp]:
  "ps_pos (parse_next ps f) = ps_pos ps + length (write_tag_value (tv_tag f) (tv_value f))"
  "ps_index (parse_next ps f) = ps_index ps + 1"
  "ps_pending (parse_next ps f) = next_pending (tv_tag f) (tv_value f)"
  by (simp_all add: parse_next_def)

lemma parse_loop_one:
  assumes "tag_in_range (tv_tag f)" "value_ok (ps_pending ps) (tv_tag f) (tv_value f)"
    and "length raw < 2 ^ 64" and "leading_check (ps_index ps) (tv_tag f) = None"
    and raw: "raw = pre @ write_tag_value (tv_tag f) (tv_value f) @ post"
    and "ps_pos ps = length pre"
  shows "parse_loop raw ps = parse_loop raw (parse_next ps f)"
proof -
  have "parse_step raw ps = Ok (parse_next ps f)"
    using field_at_written [OF assms(1,2), of pre post] assms(3-6)
    by (simp add: parse_step_def parse_next_def)
  moreover have "ps_pos ps < length raw" using assms(5,6) by simp
  ultimately show ?thesis by (simp add: parse_loop.simps [of raw ps])
qed

lemma leading_check_late [simp]: "3 \<le> i \<Longrightarrow> leading_check i t = None"
  by (simp add: leading_check_def)

lemma parse_loop_fields:
  assumes "wire_ok (ps_pending ps) fs" "length raw < 2 ^ 64" "3 \<le> ps_index ps"
    and "raw = pre @ write_to fs @ post" "ps_pos ps = length pre"
  shows "parse_loop raw ps = parse_loop raw (foldl parse_next ps fs)"
  using assms
proof (induction fs arbitrary: ps pre)
  case (Cons f fs)
  have "parse_loop raw ps = parse_loop raw (parse_next ps f)"
    by (rule parse_loop_one [where pre = pre and post = "write_to fs @ post"])
       (use Cons.prems in simp_all)
  also have "\<dots> = parse_loop raw (foldl parse_next (parse_next ps f) fs)"
    by (rule Cons.IH [where pre = "pre @ write_tag_value (tv_tag f) (tv_value f)"])
       (use Cons.prems in simp_all)
  finally show ?case by simp
qed simp

section \<open>Runs of fields of one section\<close>

lemma foldl_next_pos:
  "ps_pos (foldl parse_next ps fs) = ps_pos ps + length (write_to fs)"
  by (induction fs arbitrary: ps) simp_all

lemma foldl_next_index: "ps_index (foldl parse_next ps fs) = ps_index ps + length fs"
  by (induction fs arbitrary: ps) simp_all

lemma foldl_next_pending: "ps_pending (foldl parse_next ps fs) = pending_after (ps_pending ps) fs"
  by (induction fs arbitrary: ps) simp_all

lemmas foldl_next_simps = foldl_next_pos foldl_next_index foldl_next_pending

lemma route_header:
  assumes "is_header_tag t" "ps_section ps = 0"
  shows "route s t v ps = ps\<lparr>ps_msg := (ps_msg ps)\<lparr>header := header (ps_msg ps) @ [tv t v]\<rparr>\<rparr>"
  using assms header_tag_simps(10) by (auto simp: route_def Let_def)

lemma foldl_next_header:
  assumes "list_all (\<lambda>f. is_header_tag (tv_tag f)) fs" "ps_section ps = 0"
  shows "ps_section (foldl parse_next ps fs) = 0
    \<and> ps_checksum_start (foldl parse_next ps fs) = ps_checksum_start ps
    \<and> ps_msg (foldl parse_next ps fs) = (ps_msg ps)\<lparr>header := header (ps_msg ps) @ fs\<rparr>"
  using assms
proof (induction fs arbitrary: ps)
  case (Cons f fs)
  then have "ps_section (parse_next ps f) = 0"
    and "ps_checksum_start (parse_next ps f) = ps_checksum_start ps"
    and "ps_msg (parse_next ps f) = (ps_msg ps)\<lparr>header := header (ps_msg ps) @ [f]\<rparr>"
    by (simp_all add: parse_next_def route_header)
  with Cons show ?case by simp
qed simp

definition body_tag :: "tag \<Rightarrow> bool" where
  "body_tag t \<longleftrightarrow> \<not> is_header_tag t \<and> \<not> is_trailer_tag t"

lemma foldl_next_body:
  assumes "list_all (\<lambda>f. body_tag (tv_tag f)) fs" "ps_section ps < 2"
  shows "ps_section (foldl parse_next ps fs) < 2
    \<and> ps_checksum_start (foldl parse_next ps fs) = ps_checksum_start ps
    \<and> ps_msg (foldl parse_next ps fs) = (ps_msg ps)\<lparr>body := body (ps_msg ps) @ fs\<rparr>"
  using assms
proof (induction fs arbitrary: ps)
  case (Cons f fs)
  then have t: "tv_tag f \<noteq> CHECK_SUM" "\<not> is_header_tag (tv_tag f)" "\<not> is_trailer_tag (tv_tag f)"
    using header_tag_simps(11) by (auto simp: body_tag_def)
  with Cons.prems have "ps_section (parse_next ps f) < 2"
    and "ps_checksum_start (parse_next ps f) = ps_checksum_start ps"
    and "ps_msg (parse_next ps f) = (ps_msg ps)\<lparr>body := body (ps_msg ps) @ [f]\<rparr>"
    by (auto simp: parse_next_def route_def Let_def)
  with Cons show ?case by simp
qed simp

lemma foldl_next_trailer:
  assumes "list_all (\<lambda>f. is_trailer_tag (tv_tag f) \<and> tv_tag f \<noteq> CHECK_SUM) fs"
  shows "ps_checksum_start (foldl parse_next ps fs) = ps_checksum_start ps
    \<and> ps_msg (foldl parse_next ps fs) = (ps_msg ps)\<lparr>trailer := trailer (ps_msg ps) @ fs\<rparr>"
  using assms
proof (induction fs arbitrary: ps)
  case (Cons f fs)
  then have t: "tv_tag f \<noteq> 10" "\<not> is_header_tag (tv_tag f)" "is_trailer_tag (tv_tag f)"
    using header_not_trailer by auto
  then have "ps_checksum_start (parse_next ps f) = ps_checksum_start ps"
    and "ps_msg (parse_next ps f) = (ps_msg ps)\<lparr>trailer := trailer (ps_msg ps) @ [f]\<rparr>"
    by (simp_all add: parse_next_def route_def Let_def)
  with Cons show ?case by simp
qed simp

section \<open>The whole message\<close>

text \<open>The fields \<open>to_bytes\<close> writes after BodyLength, and the message they parse to.\<close>

definition wire_fields :: "message \<Rightarrow> field_map" where
  "wire_fields m =
     msg_type_field (header m) @ header_rest (header m) @ body m @ trailer_rest (trailer m)"

definition out_prefix :: "message \<Rightarrow> bytes" where
  "out_prefix m =
     write_tag_value BEGIN_STRING (begin_string_of m)
     @ write_tag_value BODY_LENGTH (dec_nat (length (to_bytes_inner m))) @ to_bytes_inner m"

definition wire_form :: "message \<Rightarrow> message" where
  "wire_form m =
     \<lparr>header = tv BEGIN_STRING (begin_string_of m)
        # tv BODY_LENGTH (dec_nat (length (to_bytes_inner m)))
        # msg_type_field (header m) @ header_rest (header m),
      body = body m,
      trailer = trailer_rest (trailer m)
        @ [tv CHECK_SUM (pad_zero 3 (dec_nat (checksum (out_prefix m))))],
      structure_error = None\<rparr>"

text \<open>
  What a message must satisfy to survive the wire: a MsgType, each field in the section of its
  tag, and values the parser can delimit.
\<close>

definition message_wf :: "message \<Rightarrow> bool" where
  "message_wf m \<longleftrightarrow>
     get_raw MSG_TYPE (header m) \<noteq> None
     \<and> SOH \<notin> set (begin_string_of m)
     \<and> list_all (\<lambda>f. is_header_tag (tv_tag f)) (header m)
     \<and> list_all (\<lambda>f. body_tag (tv_tag f)) (body m)
     \<and> list_all (\<lambda>f. is_trailer_tag (tv_tag f)) (trailer m)
     \<and> wire_ok None (wire_fields m)
     \<and> length (to_bytes m) < 2 ^ 64"

lemma to_bytes_inner_eq: "to_bytes_inner m = write_to (wire_fields m)"
  by (simp add: to_bytes_inner_def wire_fields_def)

lemma to_bytes_eq:
  "to_bytes m = out_prefix m @ write_tag_value CHECK_SUM (pad_zero 3 (dec_nat (checksum (out_prefix m))))"
  by (simp add: to_bytes_def out_prefix_def Let_def)

lemma list_all_sort_key [simp]: "list_all P (sort_key k xs) = list_all P xs"
  by (simp add: list_all_iff)

lemma list_all_header_rest:
  "list_all (\<lambda>f. is_header_tag (tv_tag f)) h \<Longrightarrow> list_all (\<lambda>f. is_header_tag (tv_tag f)) (header_rest h)"
  by (simp add: header_rest_def list_all_iff)

lemma list_all_trailer_rest:
  "list_all (\<lambda>f. is_trailer_tag (tv_tag f)) tr \<Longrightarrow>
   list_all (\<lambda>f. is_trailer_tag (tv_tag f) \<and> tv_tag f \<noteq> CHECK_SUM) (trailer_rest tr)"
  by (simp add: trailer_rest_def list_all_iff)

lemma field_end_loop_skip:
  "SOH \<notin> set xs \<Longrightarrow> field_end_loop (xs @ ys) i n = field_end_loop ys (i + length xs) n"
  by (induction xs arbitrary: i) auto

lemma field_end_loop_field:
  assumes "SOH \<notin> set v"
  shows "field_end_loop (write_tag_value t v @ rest) i n
    = (if n = 0 then Some (i + length (write_tag_value t v))
       else field_end_loop rest (i + length (write_tag_value t v)) (n - 1))"
proof -
  have "SOH \<notin> set (dec_int t @ CHR ''='' # v)"
    using assms dec_int_no_special(2) by simp
  from field_end_loop_skip [OF this, of "SOH # rest" i n] show ?thesis
    by (simp add: write_tag_value_def)
qed

lemma field_end_of_second:
  assumes "SOH \<notin> set v" "SOH \<notin> set w"
  shows "field_end_of (write_tag_value t v @ write_tag_value u w @ rest) 1
    = Ok (length (write_tag_value t v) + length (write_tag_value u w))"
  using assms by (simp add: field_end_of_def field_end_loop_field)

lemma next_pending_not_checksum: "next_pending t v = Some (d, n) \<Longrightarrow> d \<noteq> CHECK_SUM"
  by (auto simp: next_pending_def data_tag_for_length_tag_def data_tag_table_def
      split: option.splits if_splits)

lemma pending_after_not_checksum: "pending_after None fs = Some (d, n) \<Longrightarrow> d \<noteq> CHECK_SUM"
proof (induction fs rule: rev_induct)
  case (snoc f fs)
  have "pending_after p (fs @ [f]) = next_pending (tv_tag f) (tv_value f)" for p
    by (induction fs arbitrary: p) auto
  with snoc.prems show ?case by (auto dest: next_pending_not_checksum)
qed simp

lemma next_pending_none [simp]:
  "next_pending 8 v = None" "next_pending 9 v = None" "next_pending 10 v = None" "next_pending 35 v = None"
  by (simp_all add: next_pending_def)

lemma parse_loop_prefix:
  assumes ok: "wire_ok None (a # b # c # rest)"
    and tags: "tv_tag a = BEGIN_STRING" "tv_tag b = BODY_LENGTH" "tv_tag c = MSG_TYPE"
    and raw: "raw = write_to (a # b # c # rest) @ post" and len: "length raw < 2 ^ 64"
  shows "parse_loop raw parse_init
    = parse_loop raw (foldl parse_next parse_init (a # b # c # rest))"
proof -
  let ?w = "\<lambda>f. write_tag_value (tv_tag f) (tv_value f)"
  let ?p1 = "parse_next parse_init a" and ?p2 = "parse_next (parse_next parse_init a) b"
  let ?p3 = "parse_next (parse_next (parse_next parse_init a) b) c"
  have "parse_loop raw parse_init = parse_loop raw ?p1"
    by (rule parse_loop_one [where pre = "[]" and post = "?w b @ ?w c @ write_to rest @ post"])
       (use assms in \<open>simp_all add: parse_init_def leading_check_def\<close>)
  also have "\<dots> = parse_loop raw ?p2"
    by (rule parse_loop_one [where pre = "?w a" and post = "?w c @ write_to rest @ post"])
       (use assms in \<open>simp_all add: parse_init_def leading_check_def\<close>)
  also have "\<dots> = parse_loop raw ?p3"
    by (rule parse_loop_one [where pre = "?w a @ ?w b" and post = "write_to rest @ post"])
       (use assms in \<open>simp_all add: parse_init_def leading_check_def\<close>)
  also have "\<dots> = parse_loop raw (foldl parse_next ?p3 rest)"
    by (rule parse_loop_fields [where pre = "?w a @ ?w b @ ?w c" and post = post])
       (use assms in \<open>simp_all add: parse_init_def\<close>)
  finally show ?thesis by simp
qed

lemma parse_loop_message:
  assumes "wire_ok None (a # b # c # rest)"
    and "tv_tag a = BEGIN_STRING" "tv_tag b = BODY_LENGTH" "tv_tag c = MSG_TYPE"
    and "length (write_to (a # b # c # rest)) < 2 ^ 64"
  shows "parse_loop (write_to (a # b # c # rest)) parse_init
    = Ok (foldl parse_next parse_init (a # b # c # rest))"
  using parse_loop_prefix [OF assms(1-4), of "write_to (a # b # c # rest)" "[]"] assms(5)
  by (simp add: parse_loop.simps [where ps = "foldl parse_next _ rest"] foldl_next_pos parse_init_def)

definition all_fields :: "message \<Rightarrow> field_map" where
  "all_fields m =
     tv BEGIN_STRING (begin_string_of m)
     # tv BODY_LENGTH (dec_nat (length (to_bytes_inner m)))
     # wire_fields m @ [tv CHECK_SUM (pad_zero 3 (dec_nat (checksum (out_prefix m))))]"

lemma to_bytes_write_to: "to_bytes m = write_to (all_fields m)"
  by (simp add: to_bytes_eq all_fields_def out_prefix_def to_bytes_inner_eq)

lemma soh_not_in_digits: "list_all is_digit v \<Longrightarrow> SOH \<notin> set v"
  by (auto simp: list_all_iff)

lemma wire_ok_all_fields:
  assumes "message_wf m"
  shows "wire_ok None (all_fields m)"
proof -
  have "value_ok (pending_after None (wire_fields m)) CHECK_SUM
     (pad_zero 3 (dec_nat (checksum (out_prefix m))))"
    using soh_not_in_digits [OF list_all_pad_zero [OF list_all_dec_nat, of 3 "checksum (out_prefix m)"]]
      pending_after_not_checksum [of "wire_fields m"]
    by (auto simp: value_ok_def split: option.splits)
  with assms show ?thesis
    by (simp add: all_fields_def message_wf_def wire_ok_append value_ok_def tag_in_range_def)
qed

lemma parse_loop_to_bytes:
  assumes "message_wf m"
  shows "parse_loop (to_bytes m) parse_init = Ok (foldl parse_next parse_init (all_fields m))"
proof -
  obtain v where v: "get_raw MSG_TYPE (header m) = Some v"
    using assms by (auto simp: message_wf_def)
  let ?rest = "header_rest (header m) @ body m @ trailer_rest (trailer m)
     @ [tv CHECK_SUM (pad_zero 3 (dec_nat (checksum (out_prefix m))))]"
  have af: "all_fields m = tv BEGIN_STRING (begin_string_of m)
     # tv BODY_LENGTH (dec_nat (length (to_bytes_inner m))) # tv MSG_TYPE v # ?rest"
    using v by (simp add: all_fields_def wire_fields_def msg_type_field_def)
  show ?thesis
    unfolding to_bytes_write_to unfolding af
    by (rule parse_loop_message)
       (use wire_ok_all_fields [OF assms] assms in
         \<open>simp_all add: message_wf_def to_bytes_write_to af del: write_to_Cons\<close>)
qed

lemma parse_next_checksum:
  assumes "tv_tag f = CHECK_SUM"
  shows "ps_msg (parse_next ps f) = (ps_msg ps)\<lparr>trailer := trailer (ps_msg ps) @ [f]\<rparr>"
    and "ps_checksum_start (parse_next ps f) = Some (ps_pos ps)"
  using assms by (simp_all add: parse_next_def route_def Let_def flip: tv_eta)

lemma parse_state_all_fields:
  assumes "message_wf m"
  defines "ps \<equiv> foldl parse_next parse_init (all_fields m)"
  shows "ps_msg ps = wire_form m" "ps_checksum_start ps = Some (length (out_prefix m))"
proof -
  obtain v where v: "get_raw MSG_TYPE (header m) = Some v"
    using assms by (auto simp: message_wf_def)
  let ?hs = "tv BEGIN_STRING (begin_string_of m)
     # tv BODY_LENGTH (dec_nat (length (to_bytes_inner m)))
     # tv MSG_TYPE v # header_rest (header m)"
  let ?ps1 = "foldl parse_next parse_init ?hs"
  let ?ps2 = "foldl parse_next ?ps1 (body m)"
  let ?ps3 = "foldl parse_next ?ps2 (trailer_rest (trailer m))"
  let ?c = "tv CHECK_SUM (pad_zero 3 (dec_nat (checksum (out_prefix m))))"
  have ps: "ps = parse_next ?ps3 ?c"
    using v by (simp add: ps_def all_fields_def wire_fields_def msg_type_field_def)
  have "list_all (\<lambda>f. is_header_tag (tv_tag f)) ?hs"
    using assms(1) by (simp add: message_wf_def list_all_header_rest)
  from foldl_next_header [OF this, of parse_init]
  have h1: "ps_section ?ps1 = 0" "ps_msg ?ps1 = message_new\<lparr>header := ?hs\<rparr>"
    by (simp_all add: parse_init_def message_new_def)
  have h2: "ps_msg ?ps2 = message_new\<lparr>header := ?hs, body := body m\<rparr>"
    using foldl_next_body [of "body m" ?ps1] assms(1) h1
    by (simp add: message_wf_def message_new_def)
  have h3: "ps_msg ?ps3 = message_new\<lparr>header := ?hs, body := body m, trailer := trailer_rest (trailer m)\<rparr>"
    using foldl_next_trailer [OF list_all_trailer_rest, of "trailer m" ?ps2] assms(1) h2
    by (simp add: message_wf_def message_new_def)
  show "ps_msg ps = wire_form m"
    using h3 v by (simp add: ps parse_next_checksum wire_form_def message_new_def msg_type_field_def)
  have "ps_pos ?ps3 = length (write_to (?hs @ body m @ trailer_rest (trailer m)))"
    by (simp add: foldl_next_pos parse_init_def)
  also have "write_to (?hs @ body m @ trailer_rest (trailer m)) = out_prefix m"
    using v by (simp add: out_prefix_def to_bytes_inner_eq wire_fields_def msg_type_field_def)
  finally show "ps_checksum_start ps = Some (length (out_prefix m))"
    by (simp add: ps parse_next_checksum)
qed

lemma validate_wire_to_bytes:
  assumes "message_wf m"
  defines "ps \<equiv> foldl parse_next parse_init (all_fields m)"
  shows "validate_wire (to_bytes m) ps = Ok (wire_form m)"
proof -
  let ?pre = "write_tag_value BEGIN_STRING (begin_string_of m)
     @ write_tag_value BODY_LENGTH (dec_nat (length (to_bytes_inner m)))"
  have len: "length (to_bytes m) < 2 ^ 64" and bs: "SOH \<notin> set (begin_string_of m)"
    using assms(1) by (simp_all add: message_wf_def)
  have op: "out_prefix m = ?pre @ to_bytes_inner m" by (simp add: out_prefix_def)
  have small: "length (out_prefix m) < 2 ^ 64" using len by (simp add: to_bytes_eq)
  have fe: "field_end_of (to_bytes m) 1 = Ok (length ?pre)"
    using field_end_of_second [OF bs, of "dec_nat (length (to_bytes_inner m))"]
    by (simp add: to_bytes_eq out_prefix_def del: length_write_tag_value)
  have sub: "u64_sub (length (out_prefix m)) (length ?pre) = length (to_bytes_inner m)"
    using small by (subst u64_sub_exact) (simp_all add: op)
  have dl: "fm_get decode_u64 BODY_LENGTH (header (wire_form m)) = Inr (length (to_bytes_inner m))"
    using small by (simp add: wire_form_def fm_get_def decode_u64_def op)
  have "get_raw CHECK_SUM (trailer_rest (trailer m)) = None"
    by (auto simp: trailer_rest_def get_raw_None_iff)
  then have ds: "fm_get decode_u32 CHECK_SUM (trailer (wire_form m)) = Inr (checksum (out_prefix m))"
    using checksum_lt [of "out_prefix m"]
    by (simp add: wire_form_def fm_get_def get_raw_append decode_u32_def parse_u32_def
        del: checksum_lt)
  have tk: "take (length (out_prefix m)) (to_bytes m) = out_prefix m" by (simp add: to_bytes_eq)
  note st = parse_state_all_fields [OF assms(1), folded ps_def]
  show ?thesis
    unfolding validate_wire_def st option.case dl sum.case fe res_bind.simps Let_def sub ds tk
    by simp
qed

lemma parse_to_bytes:
  assumes "message_wf m"
  shows "message_parse (to_bytes m) validate = Ok (wire_form m)"
  using parse_loop_to_bytes [OF assms] parse_state_all_fields [OF assms]
    validate_wire_to_bytes [OF assms]
  by (simp add: message_parse_def)

text \<open>Header fields keep their values: the sort is stable, so the first occurrence stays first.\<close>

lemma get_raw_first:
  "get_raw t fm = (case filter (\<lambda>f. tv_tag f = t) fm of [] \<Rightarrow> None | f # _ \<Rightarrow> Some (tv_value f))"
  by (induction fm) auto

lemma get_raw_header_rest:
  assumes "t \<notin> {BEGIN_STRING, BODY_LENGTH, MSG_TYPE}"
  shows "get_raw t (header_rest h) = get_raw t h"
proof -
  have "filter (\<lambda>f. tv_tag f = t) (header_rest h) = filter (\<lambda>f. tv_tag f = t) h"
    using assms by (auto simp: header_rest_def sort_key_stable intro!: filter_cong)
  then show ?thesis by (simp add: get_raw_first)
qed

lemma get_raw_wire_form:
  assumes "t \<notin> {BEGIN_STRING, BODY_LENGTH}"
  shows "get_raw t (header (wire_form m)) = get_raw t (header m)"
proof (cases "t = MSG_TYPE")
  case True
  have "get_raw MSG_TYPE (header_rest h) = None" for h
    by (auto simp: header_rest_def get_raw_None_iff)
  with True show ?thesis
    by (simp add: wire_form_def get_raw_append msg_type_field_def split: option.splits)
next
  case False
  have "get_raw t (msg_type_field (header m)) = None"
    using False by (simp add: msg_type_field_def split: option.splits)
  with assms False get_raw_header_rest [of t "header m"] show ?thesis
    by (simp add: wire_form_def get_raw_append)
qed

lemma body_wire_form [simp]: "body (wire_form m) = body m"
  by (simp add: wire_form_def)

lemma begin_wire_form: "get_raw BEGIN_STRING (header (wire_form m)) = Some (begin_string_of m)"
  by (simp add: wire_form_def)

text \<open>A parsed message serialises to the bytes it came from.\<close>

lemma sort_key_idem [simp]: "sort_key f (sort_key f xs) = sort_key f xs"
  by (rule sort_key_id_if_sorted) simp

lemma rest_wire_form:
  "header_rest (header (wire_form m)) = header_rest (header m)" "trailer_rest (trailer (wire_form m)) = trailer_rest (trailer m)"
proof -
  have "filter (\<lambda>f. tv_tag f \<notin> set [BEGIN_STRING, BODY_LENGTH, MSG_TYPE]) (msg_type_field h) = []" for h
    by (simp add: msg_type_field_def split: option.splits)
  then show "header_rest (header (wire_form m)) = header_rest (header m)"
    by (simp add: header_rest_def wire_form_def filter_sort)
  show "trailer_rest (trailer (wire_form m)) = trailer_rest (trailer m)"
    by (simp add: trailer_rest_def wire_form_def filter_sort)
qed

lemma to_bytes_wire_form: "to_bytes (wire_form m) = to_bytes m"
proof -
  have "msg_type_field (header (wire_form m)) = msg_type_field (header m)"
    using get_raw_wire_form [of MSG_TYPE m] by (simp add: msg_type_field_def)
  then have "to_bytes_inner (wire_form m) = to_bytes_inner m"
    by (simp add: to_bytes_inner_eq wire_fields_def rest_wire_form)
  moreover have "begin_string_of (wire_form m) = begin_string_of m"
    using begin_wire_form [of m] by (simp add: begin_string_of_def)
  ultimately show ?thesis by (simp add: to_bytes_def)
qed
text \<open>
  C2. Serialising a well-formed message and parsing the bytes, with or without the length and
  checksum validation, succeeds and returns the message in wire form: BeginString, BodyLength
  and MsgType first, the other header fields in ascending order, the body untouched (data fields
  with embedded SOH included), the trailer in descending order with the checksum last, and no
  structure error. Serialising that again gives the same bytes.
\<close>

theorem message_round_trip:
  assumes "message_wf m"
  shows "message_parse (to_bytes m) validate = Ok (wire_form m) \<and> to_bytes (wire_form m) = to_bytes m"
  using parse_to_bytes [OF assms] to_bytes_wire_form by blast

lemma length_to_bytes_bound:
  assumes "length (to_bytes_inner m) < 2 ^ 20" and "length (begin_string_of m) < 2 ^ 20"
  shows "length (to_bytes m) < 2 ^ 64"
proof -
  have "length (pad_zero 3 (dec_nat (checksum (out_prefix m)))) \<le> 3"
    using length_dec_nat_bound [of "checksum (out_prefix m)" 3] checksum_lt [of "out_prefix m"]
    by (simp add: pad_zero_length del: checksum_lt)
  moreover have "length (dec_nat (length (to_bytes_inner m))) \<le> 7"
    using length_dec_nat_bound [of "length (to_bytes_inner m)" 7] assms(1) by simp
  moreover have "length (dec_int 8) = 1" "length (dec_int 9) = 1" "length (dec_int 10) = 2"
    by (simp_all add: bytes_simps)
  ultimately show ?thesis using assms by (simp add: to_bytes_eq out_prefix_def)
qed

text \<open>A NewOrderSingle-like message with a length-prefixed data field that holds an SOH.\<close>

definition sample_message :: message where
  "sample_message =
     \<lparr>header = [tv 35 ''B'', tv 8 ''FIX.4.2'', tv 56 ''ISLD'', tv 34 ''2'', tv 49 ''TW''],
      body = [tv 95 ''3'', tv 96 [CHR ''a'', CHR 0x01, CHR ''b''], tv 58 ''after''],
      trailer = [], structure_error = None\<rparr>"

lemma sample_message_wire_fields:
  "wire_fields sample_message =
     [tv 35 ''B'', tv 34 ''2'', tv 49 ''TW'', tv 56 ''ISLD'',
      tv 95 ''3'', tv 96 [CHR ''a'', CHR 0x01, CHR ''b''], tv 58 ''after'']"
  by (simp add: wire_fields_def sample_message_def msg_type_field_def header_rest_def
      trailer_rest_def)

lemma sample_message_wf: "message_wf sample_message"
proof -
  have w: "wire_ok None (wire_fields sample_message)"
    unfolding sample_message_wire_fields
    by (simp add: value_ok_def tag_in_range_def next_pending_def data_tag_for_length_tag_def
        data_tag_table_def bytes_simps)
  have "length (to_bytes_inner sample_message) < 2 ^ 20"
    unfolding to_bytes_inner_eq sample_message_wire_fields by (simp add: bytes_simps)
  then have l: "length (to_bytes sample_message) < 2 ^ 64"
    by (rule length_to_bytes_bound) (simp add: begin_string_of_def sample_message_def)
  from w l show ?thesis
    by (simp add: message_wf_def begin_string_of_def)
       (simp add: sample_message_def body_tag_def is_header_tag_def header_tags_def is_trailer_tag_def)
qed

theorem message_round_trip_witness:
  "message_parse (to_bytes sample_message) True = Ok (wire_form sample_message)
    \<and> to_bytes (wire_form sample_message) = to_bytes sample_message"
  by (rule message_round_trip) (rule sample_message_wf)

section \<open>Where the parser unwinds\<close>

text \<open>Only a declared data length that wraps the end position around can make a step unwind.\<close>

lemma value_end_before_start:
  assumes "value_end raw vs t p = Ok e" "e < vs" "vs \<le> length raw"
  shows "\<exists>n. p = Some (t, n) \<and> 2 ^ 64 \<le> vs + n"
proof -
  obtain n where p: "p = Some (t, n)" and e: "e = u64_add vs n"
    using assms(1,2) by (auto simp: value_end_def Let_def split: option.splits if_splits)
  have "2 ^ 64 \<le> vs + n"
  proof (rule ccontr)
    assume "\<not> 2 ^ 64 \<le> vs + n"
    with e have "e = vs + n" by (simp add: u64_add_exact)
    with assms(2) show False by simp
  qed
  with p show ?thesis by blast
qed

lemma parse_loop_step_Panic:
  "parse_step raw ps = Panic \<Longrightarrow> ps_pos ps < length raw \<Longrightarrow> parse_loop raw ps = Panic"
  by (simp add: parse_loop.simps [of raw ps])

lemma parse_loop_Panic:
  assumes "parse_loop raw ps = Panic"
  shows "\<exists>ps'. parse_step raw ps' = Panic \<and> ps_pos ps' < length raw"
  using assms
proof (induction raw ps rule: parse_loop.induct)
  case (1 raw ps)
  then show ?case
    by (auto simp: parse_loop.simps [of raw ps] split: if_splits res.splits)
qed

text \<open>
  C39. The parser unwinds on a well-framed message whose length-prefixed data field declares the
  length \<open>2 ^ 64 - (k + 2)\<close>, \<open>k\<close> the number of digits of the data tag: the end position wraps
  around to the SOH that ends the length field, passes the bounds test, and the slice from the
  value's start to that earlier position has crossed bounds. A peer that can deliver one frame can
  therefore terminate the task that parses it.
\<close>

theorem parse_panics_on_wrapping_data_length:
  assumes "wire_ok None (a # b # c # rest)"
    and "tv_tag a = BEGIN_STRING" "tv_tag b = BODY_LENGTH" "tv_tag c = MSG_TYPE"
    and "data_tag_for_length_tag l = Some d" and "tag_in_range l" "tag_in_range d"
    and "pending_after None (a # b # c # rest) = None"
    and "raw = write_to (a # b # c # rest)
           @ write_tag_value l (dec_nat (2 ^ 64 - (length (dec_int d) + 2)))
           @ dec_int d @ CHR ''='' # tail"
    and "length raw < 2 ^ 63"
  shows "message_parse raw validate = Panic"
proof -
  let ?n = "2 ^ 64 - (length (dec_int d) + 2) :: nat"
  let ?lf = "tv l (dec_nat ?n)"
  let ?fs = "a # b # c # rest @ [?lf]"
  let ?ps = "foldl parse_next parse_init ?fs"
  let ?P = "length (write_to ?fs)"
  have raw: "raw = write_to ?fs @ dec_int d @ CHR ''='' # tail" using assms(9) by simp
  have ok: "wire_ok None ?fs"
    using assms(1,6,8) wire_ok_append [of None "a # b # c # rest" "[?lf]"]
    by (simp add: value_ok_def)
  have loop: "parse_loop raw parse_init = parse_loop raw ?ps"
    by (rule parse_loop_prefix [OF ok assms(2-4)]) (use assms(10) raw in simp_all)
  have pos: "ps_pos ?ps = ?P" by (simp add: foldl_next_pos parse_init_def)
  have pend: "ps_pending ?ps = Some (d, ?n)"
    using assms(5) by (simp add: next_pending_def)
  have dl: "length (dec_int d) < 2 ^ 63" using assms(10) raw by simp
  have k: "position (\<lambda>b. b = CHR ''='') (drop ?P raw) = Some (length (dec_int d))"
    unfolding raw using dec_int_no_special(1) [of d] by (auto intro!: position_append_hit)
  have tk: "take (length (dec_int d)) (drop ?P raw) = dec_int d" unfolding raw by simp
  have dt: "parse_i32 (dec_int d) = Some d" using assms(7) by (simp add: tag_in_range_def)
  have P1: "0 < ?P" by simp
  have e: "u64_add (?P + length (dec_int d) + 1) ?n = ?P - 1"
    by (rule u64_add_eqI) (use P1 dl assms(10) raw in \<open>simp_all del: length_append\<close>,
      use assms(10) raw in simp)
  have soh: "raw ! (?P - 1) = SOH"
    unfolding raw by (simp add: nth_append write_tag_value_def)
  have ve: "value_end raw (?P + length (dec_int d) + 1) d (Some (d, ?n)) = Ok (?P - 1)"
    unfolding value_end_def Let_def option.case prod.case e
    using soh raw by simp
  have "parse_step raw ?ps = Panic"
    unfolding parse_step_def pos pend field_at_def k option.case tk dt Let_def ve res_bind.simps
    using P1 by simp
  moreover have "ps_pos ?ps < length raw" unfolding pos raw by simp
  ultimately have "parse_loop raw ?ps = Panic" by (rule parse_loop_step_Panic)
  with loop show ?thesis by (simp add: message_parse_def)
qed

theorem parse_panics_on_wrapping_data_length_witness:
  "message_parse
     (write_to [tv 8 ''FIX.4.4'', tv 9 ''40'', tv 35 ''0'']
      @ write_tag_value 95 (dec_nat (2 ^ 64 - (length (dec_int 96) + 2)))
      @ dec_int 96 @ CHR ''='' # ''x'' @ [SOH] @ ''10=000'' @ [SOH]) True = Panic"
proof (rule parse_panics_on_wrapping_data_length)
  show "wire_ok None [tv 8 ''FIX.4.4'', tv 9 ''40'', tv 35 ''0'']"
    by (simp add: value_ok_def tag_in_range_def)
  show "data_tag_for_length_tag 95 = Some 96"
    by (simp add: data_tag_for_length_tag_def data_tag_table_def)
  have "length (dec_nat (2 ^ 64 - (length (dec_int 96) + 2))) \<le> 20"
    by (rule length_dec_nat_bound) simp_all
  moreover have "length (dec_int 8) = 1" "length (dec_int 9) = 1" "length (dec_int 35) = 2"
    "length (dec_int 95) = 2" "length (dec_int 96) = 2" by (simp_all add: bytes_simps)
  ultimately show "length (write_to [tv 8 ''FIX.4.4'', tv 9 ''40'', tv 35 ''0'']
      @ write_tag_value 95 (dec_nat (2 ^ 64 - (length (dec_int 96) + 2)))
      @ dec_int 96 @ CHR ''='' # ''x'' @ [SOH] @ ''10=000'' @ [SOH]) < 2 ^ 63"
    by simp
qed (simp_all add: tag_in_range_def)

end
