(* ===== verification/Frame_Parser.thy ===== *)
theory Frame_Parser
  imports Wire_Round_Trip
begin

text \<open>
  \<open>src/parser.rs\<close> and the read and write tasks of \<open>src/transport.rs\<close>: carving frames out of a byte stream.
  The buffer is the list of unread bytes; \<open>extract_frame\<close> returns a frame or asks for more and
  gives back what is left of the buffer.

  The main result is that framing does not depend on how the stream is cut into reads, for any
  bytes at all, and that serialised messages come out exactly as they went in, as far as they went
  out completely.
\<close>

section \<open>The frame extractor\<close>

fun find_bytes :: "bytes \<Rightarrow> bytes \<Rightarrow> nat option" where
  "find_bytes needle [] = None"
| "find_bytes needle (c # cs) =
     (if prefix needle (c # cs) then Some 0 else map_option Suc (find_bytes needle cs))"

datatype frame = FrameMessage bytes | Incomplete

datatype scan = Resync | NeedMore | Complete nat

text \<open>
  The body of the loop after resynchronisation, on a buffer that starts with \<open>8=\<close>. The sum of
  the body's start and its declared length is a \<open>usize\<close> and wraps.
\<close>

definition scan_frame :: "bytes \<Rightarrow> scan" where
  "scan_frame buf =
     (case find_bytes [SOH] buf of
        None \<Rightarrow> NeedMore
      | Some soh1 \<Rightarrow>
          (let after_begin = soh1 + 1 in
           if length buf < after_begin + 2 then NeedMore
           else if take 2 (drop after_begin buf) \<noteq> ''9='' then Resync
           else (let len_start = after_begin + 2 in
             case position (\<lambda>b. b = SOH) (drop len_start buf) of
               None \<Rightarrow> NeedMore
             | Some rel_soh2 \<Rightarrow>
                 (case parse_u64 (take rel_soh2 (drop len_start buf)) of
                    None \<Rightarrow> Resync
                  | Some body_len \<Rightarrow>
                      (let body_start = len_start + rel_soh2 + 1;
                           search_from = u64_add body_start body_len - 1
                       in if length buf \<le> search_from then NeedMore
                          else case find_bytes (SOH # ''10='') (drop search_from buf) of
                            None \<Rightarrow> NeedMore
                          | Some rel_cs \<Rightarrow>
                              (let after_cs_tag = search_from + rel_cs + 4 in
                               case position (\<lambda>b. b = SOH) (drop after_cs_tag buf) of
                                 None \<Rightarrow> NeedMore
                               | Some rel_end \<Rightarrow> Complete (after_cs_tag + rel_end + 1)))))))"

lemma find_bytes_lt: "find_bytes n h = Some i \<Longrightarrow> i < length h"
  by (induction h arbitrary: i) (auto split: if_splits)

lemma find_bytes_prefix: "find_bytes n h = Some i \<Longrightarrow> prefix n (drop i h)"
  by (induction h arbitrary: i) (auto split: if_splits)

lemma prefix_length2: "prefix [a, b] xs \<Longrightarrow> 2 \<le> length xs"
  by (auto simp: prefix_def)

function extract_frame :: "bytes \<Rightarrow> frame \<times> bytes" where
  "extract_frame buf =
     (case find_bytes ''8='' buf of
        None \<Rightarrow>
          (let keep = (if buf \<noteq> [] \<and> last buf = CHR ''8'' then 1 else 0)
           in (Incomplete, drop (length buf - keep) buf))
      | Some start \<Rightarrow>
          (case scan_frame (drop start buf) of
             NeedMore \<Rightarrow> (Incomplete, drop start buf)
           | Resync \<Rightarrow> extract_frame (drop 2 (drop start buf))
           | Complete e \<Rightarrow> (FrameMessage (take e (drop start buf)), drop e (drop start buf))))"
  by pat_completeness auto
termination
proof (relation "measure length")
  fix buf start
  assume "find_bytes ''8='' buf = Some start"
  then have "2 \<le> length (drop start buf)"
    by (rule prefix_length2 [OF find_bytes_prefix])
  then show "(drop 2 (drop start buf), buf) \<in> measure length" by simp
qed simp

declare extract_frame.simps [simp del]

section \<open>The read task\<close>

text \<open>
  The inner loop of \<open>read_task\<close> sends every complete frame to the session; the outer loop reads
  more bytes. A read of zero bytes (the end of the chunk list) ends the task. Delivery is to a
  session that stays attached.
\<close>

lemma scan_frame_pos: "scan_frame buf = Complete e \<Longrightarrow> 0 < e \<and> e \<le> length buf"
  by (auto simp: scan_frame_def Let_def split: option.splits if_splits dest!: position_Some_lt)

lemma extract_frame_shorter: "extract_frame buf = (FrameMessage f, rest) \<Longrightarrow> length rest < length buf"
proof (induction buf rule: extract_frame.induct)
  case (1 buf)
  show ?case
  proof (cases "find_bytes ''8='' buf")
    case None
    with "1.prems" show ?thesis by (simp add: extract_frame.simps [of buf] Let_def)
  next
    case (Some start)
    then have lt: "start < length buf" by (rule find_bytes_lt)
    show ?thesis
    proof (cases "scan_frame (drop start buf)")
      case Resync
      with "1.IH" [OF Some Resync] "1.prems" Some show ?thesis
        by (fastforce simp: extract_frame.simps [of buf])
    next
      case NeedMore
      with "1.prems" Some show ?thesis by (simp add: extract_frame.simps [of buf])
    next
      case (Complete e)
      with scan_frame_pos [OF Complete] "1.prems" Some lt show ?thesis
        by (auto simp: extract_frame.simps [of buf])
    qed
  qed
qed

function drain_frames :: "bytes \<Rightarrow> bytes list \<times> bytes" where
  "drain_frames buf =
     (case extract_frame buf of
        (FrameMessage raw, rest) \<Rightarrow>
          (case drain_frames rest of (raws, left) \<Rightarrow> (raw # raws, left))
      | (Incomplete, rest) \<Rightarrow> ([], rest))"
  by pat_completeness auto
termination
  by (relation "measure length") (auto dest: extract_frame_shorter [OF sym])

declare drain_frames.simps [simp del]

fun read_task :: "bytes \<Rightarrow> bytes list \<Rightarrow> bytes list" where
  "read_task buf [] = fst (drain_frames buf)"
| "read_task buf (chunk # chunks) =
     (case drain_frames buf of (raws, left) \<Rightarrow> raws @ read_task (left @ chunk) chunks)"

section \<open>The write task\<close>

text \<open>
  The frames come from the session's channel until it is closed; then the socket is shut down. Each
  \<open>write_all\<close> succeeds (\<open>None\<close>) or fails after some bytes went out; a write without an
  outcome has not happened yet. The result is what went out, and whether the socket was shut down.
\<close>

fun write_task :: "bytes list \<Rightarrow> nat option list \<Rightarrow> bytes \<times> bool" where
  "write_task [] ws = ([], True)"
| "write_task (raw # raws) [] = ([], False)"
| "write_task (raw # raws) (Some n # ws) = (take n raw, False)"
| "write_task (raw # raws) (None # ws) = (case write_task raws ws of (out, closed) \<Rightarrow> (raw @ out, closed))"

text \<open>Both tasks of a connection, given what arrives and what the session sends.\<close>

definition spawn_io_tasks :: "bytes \<Rightarrow> bytes list \<Rightarrow> bytes list \<Rightarrow> nat option list \<Rightarrow> bytes list \<times> bytes \<times> bool" where
  "spawn_io_tasks leftover chunks raws ws = (read_task leftover chunks, write_task raws ws)"

text \<open>How many frames went out completely.\<close>

fun completed :: "bytes list \<Rightarrow> nat option list \<Rightarrow> nat" where
  "completed [] ws = 0"
| "completed (raw # raws) [] = 0"
| "completed (raw # raws) (Some n # ws) = (if length raw \<le> n then 1 else 0)"
| "completed (raw # raws) (None # ws) = Suc (completed raws ws)"

section \<open>More input never changes a decision\<close>

lemma find_bytes_append: "find_bytes n a = Some i \<Longrightarrow> find_bytes n (a @ b) = Some i"
proof (induction a arbitrary: i)
  case (Cons c cs)
  show ?case
  proof (cases "prefix n (c # cs)")
    case True
    then have "prefix n ((c # cs) @ b)" by (rule prefix_prefix)
    with True Cons.prems show ?thesis by simp
  next
    case False
    with Cons.prems obtain j where j: "find_bytes n cs = Some j" "i = Suc j" by auto
    have "\<not> prefix n ((c # cs) @ b)"
    proof
      assume "prefix n ((c # cs) @ b)"
      moreover have "length n \<le> length (c # cs)"
        using find_bytes_prefix [OF j(1)] prefix_length_le by fastforce
      ultimately have "prefix n (c # cs)" by (metis prefix_append prefix_length_prefix prefixI)
      with False show False by contradiction
    qed
    with Cons.IH [OF j(1)] j(2) show ?thesis by simp
  qed
qed simp

lemma position_append: "position P a = Some i \<Longrightarrow> position P (a @ b) = Some i"
  by (induction a arbitrary: i) (auto split: if_splits)

lemma drop_append_le: "i \<le> length a \<Longrightarrow> drop i (a @ b) = drop i a @ b"
  by simp

lemma take_append_le: "i \<le> length a \<Longrightarrow> take i (a @ b) = take i a"
  by simp

lemma scan_frame_append:
  assumes "scan_frame a \<noteq> NeedMore"
  shows "scan_frame (a @ b) = scan_frame a"
proof -
  from assms obtain s1 where s1: "find_bytes [SOH] a = Some s1"
    by (auto simp: scan_frame_def split: option.splits)
  from assms s1 have l1: "s1 + 3 \<le> length a"
    by (auto simp: scan_frame_def Let_def split: if_splits)
  have f1: "find_bytes [SOH] (a @ b) = Some s1" using s1 by (rule find_bytes_append)
  have t2: "take 2 (drop (s1 + 1) (a @ b)) = take 2 (drop (s1 + 1) a)" using l1 by simp
  have d3: "drop (s1 + 1 + 2) (a @ b) = drop (s1 + 1 + 2) a @ b" using l1 by simp
  show ?thesis
  proof (cases "take 2 (drop (s1 + 1) a) = ''9=''")
    case False
    then show ?thesis using l1
      unfolding scan_frame_def f1 s1 option.case Let_def t2 by simp
  next
    case True
    from assms True s1 l1 obtain s2 where s2: "position (\<lambda>b. b = SOH) (drop (s1 + 1 + 2) a) = Some s2"
      by (auto simp: scan_frame_def Let_def split: option.splits)
    have p2: "position (\<lambda>b. b = SOH) (drop (s1 + 1 + 2) a @ b) = Some s2"
      using s2 by (rule position_append)
    have t4: "take s2 (drop (s1 + 1 + 2) a @ b) = take s2 (drop (s1 + 1 + 2) a)"
      using position_Some_lt [OF s2] by simp
    show ?thesis
    proof (cases "parse_u64 (take s2 (drop (s1 + 1 + 2) a))")
      case None
      then show ?thesis using l1 True
        unfolding scan_frame_def f1 s1 option.case Let_def t2 d3 p2 s2 t4 by simp
    next
      case (Some n)
      let ?sf = "u64_add (s1 + 1 + 2 + s2 + 1) n - 1"
      have l5: "?sf < length a" using assms l1 True
        unfolding scan_frame_def s1 s2 option.case Let_def Some
        by (auto split: if_splits)
      have d5: "drop ?sf (a @ b) = drop ?sf a @ b" using l5 by simp
      obtain c where c: "find_bytes (SOH # ''10='') (drop ?sf a) = Some c"
        using assms l1 True l5 unfolding scan_frame_def s1 s2 option.case Let_def Some
        by (auto split: option.splits if_splits)
      have c': "find_bytes (SOH # ''10='') (drop ?sf a @ b) = Some c"
        using c by (rule find_bytes_append)
      have "4 \<le> length (drop c (drop ?sf a))"
        using prefix_length_le [OF find_bytes_prefix [OF c]] by simp
      then have d6: "drop (?sf + c + 4) (a @ b) = drop (?sf + c + 4) a @ b"
        using l5 by simp
      obtain e where e: "position (\<lambda>b. b = SOH) (drop (?sf + c + 4) a) = Some e"
        using assms l1 True l5 unfolding scan_frame_def s1 s2 option.case Let_def Some c
        by (auto split: option.splits if_splits)
      have e': "position (\<lambda>b. b = SOH) (drop (?sf + c + 4) a @ b) = Some e"
        using e by (rule position_append)
      show ?thesis using l1 l5 True
        unfolding scan_frame_def f1 s1 option.case Let_def t2 d3 p2 s2 t4 Some d5 c c' d6 e e'
        by simp
    qed
  qed
qed

lemma extract_frame_message_append:
  "extract_frame a = (FrameMessage f, rest) \<Longrightarrow> extract_frame (a @ b) = (FrameMessage f, rest @ b)"
proof (induction a rule: extract_frame.induct)
  case (1 buf)
  show ?case
  proof (cases "find_bytes ''8='' buf")
    case None
    with "1.prems" show ?thesis by (simp add: extract_frame.simps [of buf] Let_def)
  next
    case (Some start)
    then have lt: "start < length buf" by (rule find_bytes_lt)
    note fa = find_bytes_append [OF Some, of b]
    note d = drop_append_le [OF less_imp_le [OF lt], of b]
    show ?thesis
    proof (cases "scan_frame (drop start buf)")
      case Resync
      have l2: "2 \<le> length (drop start buf)" by (rule prefix_length2 [OF find_bytes_prefix [OF Some]])
      have "scan_frame (drop start buf @ b) = Resync" using scan_frame_append [of "drop start buf" b] Resync by simp
      moreover have "extract_frame (drop 2 (drop start buf) @ b) = (FrameMessage f, rest @ b)"
        using "1.IH" [OF Some Resync] "1.prems" Some Resync by (simp add: extract_frame.simps [of buf])
      ultimately show ?thesis using l2
        unfolding extract_frame.simps [of "buf @ b"] fa d option.case by (simp add: drop_append_le)
    next
      case NeedMore
      with "1.prems" Some show ?thesis by (simp add: extract_frame.simps [of buf])
    next
      case (Complete e)
      have "scan_frame (drop start buf @ b) = Complete e" using scan_frame_append [of "drop start buf" b] Complete by simp
      with scan_frame_pos [OF Complete] "1.prems" Some Complete lt show ?thesis
        unfolding extract_frame.simps [of "buf @ b"] fa d option.case
        by (simp add: extract_frame.simps [of buf] del: drop_drop)
    qed
  qed
qed

lemma extract_frame_garbage:
  assumes "find_bytes ''8='' a = None"
  shows "extract_frame a = (Incomplete, if a \<noteq> [] \<and> last a = CHR ''8'' then ''8'' else [])"
  unfolding extract_frame.simps [of a] assms option.case Let_def
  by (cases a rule: rev_cases) simp_all

lemma extract_frame_skip:
  assumes "\<not> prefix ''8='' (c # xs)" and "xs \<noteq> []"
  shows "extract_frame (c # xs) = extract_frame xs"
proof (cases "find_bytes ''8='' xs")
  case None
  with assms show ?thesis
    by (subst (1 2) extract_frame_garbage) auto
next
  case (Some start)
  then have "find_bytes ''8='' (c # xs) = Some (Suc start)" using assms(1) by simp
  then show ?thesis
    unfolding extract_frame.simps [of "c # xs"] extract_frame.simps [of xs] Some
    by (simp del: find_bytes.simps split: scan.split)
qed

lemma extract_frame_skip_to:
  "find_bytes ''8='' buf = Some start \<Longrightarrow> extract_frame buf = extract_frame (drop start buf)"
proof (induction buf arbitrary: start)
  case (Cons c cs)
  then show ?case
    by (cases "cs = []") (auto split: if_splits simp: extract_frame_skip)
qed simp

lemma extract_frame_append_garbage:
  assumes "find_bytes ''8='' a = None"
  shows "extract_frame (a @ b) = extract_frame ((if a \<noteq> [] \<and> last a = CHR ''8'' then ''8'' else []) @ b)"
  using assms
proof (induction a)
  case (Cons c cs)
  show ?case
  proof (cases cs)
    case Nil
    show ?thesis
    proof (cases "c = CHR ''8''")
      case False
      show ?thesis
      proof (cases "b = []")
        case True
        with False Nil show ?thesis by (simp add: extract_frame_garbage)
      next
        case bne: False
        with False Nil show ?thesis using extract_frame_skip [of c b] by simp
      qed
    qed (use Nil in simp)
  next
    case (Cons d ds)
    have np: "\<not> prefix ''8='' (c # cs @ b)" using Cons.prems Cons by (auto split: if_splits)
    have "extract_frame ((c # cs) @ b) = extract_frame (cs @ b)"
      using extract_frame_skip [OF np] Cons by simp
    also have "\<dots> = extract_frame ((if cs \<noteq> [] \<and> last cs = CHR ''8'' then ''8'' else []) @ b)"
      using Cons.IH Cons.prems by (auto split: if_splits)
    finally show ?thesis using Cons by simp
  qed
qed simp

lemma extract_frame_incomplete_append:
  "extract_frame a = (Incomplete, rest) \<Longrightarrow> extract_frame (a @ b) = extract_frame (rest @ b)"
proof (induction a rule: extract_frame.induct)
  case (1 buf)
  show ?case
  proof (cases "find_bytes ''8='' buf")
    case None
    have "rest = (if buf \<noteq> [] \<and> last buf = CHR ''8'' then ''8'' else [])"
      using "1.prems" extract_frame_garbage [OF None] by simp
    then show ?thesis using extract_frame_append_garbage [OF None] by simp
  next
    case (Some start)
    then have lt: "start < length buf" by (rule find_bytes_lt)
    note d = drop_append_le [OF less_imp_le [OF lt], of b]
    have skip: "extract_frame (buf @ b) = extract_frame (drop start buf @ b)"
      using extract_frame_skip_to [OF find_bytes_append [OF Some, of b]] unfolding d .
    show ?thesis
    proof (cases "scan_frame (drop start buf)")
      case Resync
      have l2: "2 \<le> length (drop start buf)" by (rule prefix_length2 [OF find_bytes_prefix [OF Some]])
      have "scan_frame (drop start buf @ b) = Resync" using scan_frame_append [of "drop start buf" b] Resync by simp
      then have "extract_frame (buf @ b) = extract_frame (drop 2 (drop start buf) @ b)"
        using l2 unfolding extract_frame.simps [of "buf @ b"] find_bytes_append [OF Some, of b] d option.case
        by (simp add: drop_append_le)
      also have "\<dots> = extract_frame (rest @ b)"
        using "1.IH" [OF Some Resync] "1.prems" Some Resync by (simp add: extract_frame.simps [of buf])
      finally show ?thesis .
    next
      case NeedMore
      with "1.prems" Some skip show ?thesis by (simp add: extract_frame.simps [of buf])
    next
      case (Complete e)
      with "1.prems" Some show ?thesis by (simp add: extract_frame.simps [of buf])
    qed
  qed
qed


lemma drain_frames_append:
  "drain_frames (a @ b) =
     (case drain_frames a of (raws, left) \<Rightarrow>
        case drain_frames (left @ b) of (raws', left') \<Rightarrow> (raws @ raws', left'))"
proof (induction a rule: drain_frames.induct)
  case (1 buf)
  show ?case
  proof (cases "extract_frame buf")
    case (Pair f rest)
    show ?thesis
    proof (cases f)
      case (FrameMessage raw)
      with Pair have e: "extract_frame buf = (FrameMessage raw, rest)" by simp
      show ?thesis
        using "1.IH" [OF Pair [symmetric] FrameMessage]
        by (simp add: drain_frames.simps [of "buf @ b"] drain_frames.simps [of buf] e
            extract_frame_message_append [OF e] split: prod.splits)
    next
      case Incomplete
      with Pair have e: "extract_frame buf = (Incomplete, rest)" by simp
      then show ?thesis
        by (simp add: drain_frames.simps [of "buf @ b"] drain_frames.simps [of buf] e
            extract_frame_incomplete_append [OF e] drain_frames.simps [of "rest @ b"] split: prod.splits frame.splits)
    qed
  qed
qed

lemma read_task_drain:
  "read_task buf chunks = fst (drain_frames (buf @ concat chunks))"
proof (induction chunks arbitrary: buf)
  case (Cons chunk chunks)
  have "drain_frames (buf @ chunk @ concat chunks) =
     (case drain_frames buf of (raws, left) \<Rightarrow>
        case drain_frames (left @ chunk @ concat chunks) of (raws', left') \<Rightarrow> (raws @ raws', left'))"
    by (rule drain_frames_append)
  with Cons.IH show ?case by (simp split: prod.splits)
qed simp

text \<open>
  Framing does not depend on how the network cuts the stream: for any bytes and any cut of
  them into reads, the read task delivers exactly the frames of the whole stream, in order.
\<close>

lemma read_task_chunking:
  assumes "concat chunks = concat chunks'"
  shows "read_task buf chunks = read_task buf chunks'
    \<and> read_task buf chunks = fst (drain_frames (buf @ concat chunks))"
  using assms by (simp_all add: read_task_drain)

section \<open>Serialised messages are frames\<close>

lemma find_bytes_hit:
  "SOH \<notin> set xs \<Longrightarrow> find_bytes [SOH] (xs @ SOH # ys) = Some (length xs)"
  by (induction xs) auto

lemma find_bytes_at: "n \<noteq> [] \<Longrightarrow> find_bytes n (n @ ys) = Some 0"
  by (cases n) auto

lemma scan_frame_exact:
  assumes "SOH \<notin> set bs" and "inner \<noteq> []" and "last inner = SOH" and "SOH \<notin> set cs"
    and "length inner + length bs + 100 < 2 ^ 64"
  defines "msg \<equiv> (''8='' @ bs) @ SOH # ''9='' @ dec_nat (length inner) @ SOH # inner @ ''10='' @ cs @ [SOH]"
  shows "scan_frame (msg @ rest) = Complete (length msg)"
proof -
  let ?L = "dec_nat (length inner)"
  let ?buf = "msg @ rest"
  let ?tl = "''10='' @ cs @ SOH # rest"
  have s1: "find_bytes [SOH] ?buf = Some (2 + length bs)"
    using find_bytes_hit [of "''8='' @ bs"] assms(1) by (simp add: msg_def SOH_def)
  have d1: "drop (2 + length bs + 1) ?buf = ''9='' @ ?L @ SOH # inner @ ?tl" by (simp add: msg_def)
  have d2: "drop (2 + length bs + 1 + 2) ?buf = ?L @ SOH # inner @ ?tl" by (simp add: msg_def)
  have p2: "position (\<lambda>b. b = SOH) (?L @ SOH # inner @ ?tl) = Some (length ?L)"
    using soh_not_in_digits [OF list_all_dec_nat] by (intro position_append_hit) auto
  have len: "length ?L \<le> 20" using length_dec_nat_bound [of "length inner" 20] assms(5) by simp
  let ?sf = "u64_add (2 + length bs + 1 + 2 + length ?L + 1) (length inner) - 1"
  have sf: "?sf = 2 + length bs + 1 + 2 + length ?L + length inner"
    using assms(5) len by (simp add: u64_add_exact)
  have split: "inner = butlast inner @ [SOH]" using assms(2,3) by (metis append_butlast_last_id)
  have d3: "drop ?sf ?buf = SOH # ?tl"
  proof -
    have "?buf = ((''8='' @ bs @ [SOH] @ ''9='' @ ?L @ [SOH]) @ butlast inner) @ SOH # ?tl"
      using split by (simp add: msg_def)
    moreover have "length ((''8='' @ bs @ [SOH] @ ''9='' @ ?L @ [SOH]) @ butlast inner) = ?sf"
      unfolding sf using assms(2) by (cases inner) auto
    ultimately show ?thesis by (metis append_eq_conv_conj)
  qed
  have f3: "find_bytes (SOH # ''10='') (SOH # ?tl) = Some 0"
    using find_bytes_at [of "SOH # ''10=''" "cs @ SOH # rest"] by simp
  have d4: "drop (?sf + 0 + 4) ?buf = cs @ SOH # rest"
  proof -
    have "drop (?sf + 0 + 4) ?buf = drop 4 (drop ?sf ?buf)" by (simp only: drop_drop add_0_right add.commute [of 4])
    then show ?thesis unfolding d3 by simp
  qed
  have p4: "position (\<lambda>b. b = SOH) (cs @ SOH # rest) = Some (length cs)"
    using assms(4) by (intro position_append_hit) auto
  have lt: "\<not> length ?buf \<le> ?sf" using arg_cong [OF d3, of length] by simp
  have "Complete (?sf + 0 + 4 + length cs + 1) = Complete (length msg)"
    unfolding sf by (simp add: msg_def)
  moreover have "parse_u64 (take (length ?L) (?L @ SOH # inner @ ?tl)) = Some (length inner)"
    using assms(5) by simp
  moreover have "\<not> length ?buf < 2 + length bs + 1 + 2" by (simp add: msg_def)
  moreover have "take 2 (''9='' @ ?L @ SOH # inner @ ?tl) = ''9=''" by simp
  ultimately show ?thesis
    using lt unfolding scan_frame_def s1 option.case Let_def d2 p2 d1
    by (simp only: if_False simp_thms option.case d3 f3 d4 p4 scan.inject)
qed

lemma write_to_last: "fs \<noteq> [] \<Longrightarrow> write_to fs \<noteq> [] \<and> last (write_to fs) = SOH"
  by (induction fs rule: rev_induct) (auto simp: write_tag_value_def)

lemma to_bytes_split:
  "to_bytes m = (''8='' @ begin_string_of m) @ SOH # ''9='' @ dec_nat (length (to_bytes_inner m)) @ SOH
     # to_bytes_inner m @ ''10='' @ pad_zero 3 (dec_nat (checksum (out_prefix m))) @ [SOH]"
proof -
  have "dec_int 8 = ''8''" "dec_int 9 = ''9''" "dec_int 10 = ''10''" by (simp_all add: bytes_simps)
  then show ?thesis by (simp add: to_bytes_eq out_prefix_def write_tag_value_def)
qed

lemma extract_frame_to_bytes:
  assumes "message_wf m" and "length (to_bytes m) + 100 < 2 ^ 64"
  shows "extract_frame (to_bytes m @ rest) = (FrameMessage (to_bytes m), rest)"
proof -
  have "wire_fields m \<noteq> []"
    using assms(1) by (auto simp: message_wf_def wire_fields_def msg_type_field_def)
  then have i: "to_bytes_inner m \<noteq> []" "last (to_bytes_inner m) = SOH"
    using write_to_last [of "wire_fields m"] by (simp_all add: to_bytes_inner_eq)
  have cs: "SOH \<notin> set (pad_zero 3 (dec_nat (checksum (out_prefix m))))"
    by (rule soh_not_in_digits [OF list_all_pad_zero [OF list_all_dec_nat]])
  have "length (to_bytes_inner m) + length (begin_string_of m) + 100 < 2 ^ 64"
    using assms(2) arg_cong [OF to_bytes_split, of length m] by simp
  from scan_frame_exact [OF _ i cs this] assms(1)
  have "scan_frame (to_bytes m @ rest) = Complete (length (to_bytes m))"
    unfolding to_bytes_split [of m] by (simp add: message_wf_def)
  moreover have "find_bytes ''8='' (to_bytes m @ rest) = Some 0"
    by (simp add: to_bytes_split)
  ultimately show ?thesis by (simp add: extract_frame.simps [of "to_bytes m @ rest"])
qed

lemma extract_frame_after_garbage:
  assumes "find_bytes ''8='' g = None"
  shows "extract_frame (g @ to_bytes m @ rest) = extract_frame (to_bytes m @ rest)"
  using extract_frame_append_garbage [OF assms, of "to_bytes m @ rest"]
    extract_frame_skip [of "CHR ''8''" "to_bytes m @ rest"]
  by (simp add: to_bytes_split split: if_splits)

definition wire_size_ok :: "message \<Rightarrow> bool" where
  "wire_size_ok m \<longleftrightarrow> length (to_bytes m) < 2 ^ 63"

lemma extract_frame_partial:
  assumes "message_wf m" and "wire_size_ok m" and "n < length (to_bytes m)"
  obtains rest where "extract_frame (take n (to_bytes m)) = (Incomplete, rest)"
proof (cases "extract_frame (take n (to_bytes m))")
  case (Pair f rest)
  have "f = Incomplete"
  proof (cases f)
    case (FrameMessage raw)
    have "extract_frame (take n (to_bytes m) @ drop n (to_bytes m)) = (FrameMessage raw, rest @ drop n (to_bytes m))"
      by (rule extract_frame_message_append) (simp add: Pair FrameMessage)
    moreover have "extract_frame (to_bytes m) = (FrameMessage (to_bytes m), [])"
      using extract_frame_to_bytes [of m "[]"] assms(1,2) by (simp add: wire_size_ok_def)
    ultimately show ?thesis using assms(3) by simp
  qed
  with Pair that show ?thesis by blast
qed

lemma drain_frames_partial:
  assumes "message_wf m" and "wire_size_ok m" and "n < length (to_bytes m)"
  shows "fst (drain_frames (take n (to_bytes m))) = []"
proof -
  obtain rest where "extract_frame (take n (to_bytes m)) = (Incomplete, rest)" by (rule extract_frame_partial [OF assms])
  then show ?thesis by (subst drain_frames.simps) simp
qed

lemma drain_frames_Cons:
  assumes "message_wf m" and "wire_size_ok m"
  shows "fst (drain_frames (to_bytes m @ rest)) = to_bytes m # fst (drain_frames rest)"
  using extract_frame_to_bytes [of m rest] assms
  by (simp add: drain_frames.simps [of "to_bytes m @ rest"] wire_size_ok_def split: prod.splits)

lemma drain_frames_Nil: "fst (drain_frames []) = []"
  by (simp add: drain_frames.simps [of "[]"] extract_frame.simps [of "[]"] Let_def)

text \<open>Of what went out, the frames that are complete come out.\<close>

lemma drain_frames_written:
  "list_all (\<lambda>m. message_wf m \<and> wire_size_ok m) ms \<Longrightarrow>
   fst (drain_frames (fst (write_task (map to_bytes ms) ws))) = map to_bytes (take (completed (map to_bytes ms) ws) ms)"
proof (induction ms arbitrary: ws)
  case (Cons m ms)
  show ?case
  proof (cases ws)
    case (Cons w ws')
    show ?thesis
    proof (cases w)
      case None
      then show ?thesis using Cons Cons.IH Cons.prems by (simp add: drain_frames_Cons split: prod.splits) (metis fst_conv)
    next
      case (Some n)
      then show ?thesis
        using Cons Cons.prems drain_frames_partial [of m n] drain_frames_Cons [of m "[]"] by (simp add: drain_frames_Nil)
    qed
  qed (simp add: drain_frames_Nil)
qed (simp add: drain_frames_Nil)

lemma drain_frames_garbage:
  assumes "find_bytes ''8='' g = None" and "out = [] \<or> hd out = CHR ''8''"
  shows "fst (drain_frames (g @ out)) = fst (drain_frames out)"
proof (cases "out = []")
  case True
  then show ?thesis using extract_frame_garbage [OF assms(1)] by (simp add: drain_frames.simps [of g] drain_frames_Nil)
next
  case False
  then have "\<not> prefix ''8='' (CHR ''8'' # out)" using assms(2) by (cases out) auto
  then have "extract_frame (g @ out) = extract_frame out"
    using extract_frame_append_garbage [OF assms(1), of out] extract_frame_skip [of "CHR ''8''" out] False by simp
  then show ?thesis by (simp add: drain_frames.simps [of "g @ out"] drain_frames.simps [of out])
qed

lemma written_head: "fst (write_task (map to_bytes ms) ws) = [] \<or> hd (fst (write_task (map to_bytes ms) ws)) = CHR ''8''"
proof (cases ms)
  case (Cons m ms')
  have m: "to_bytes m = CHR ''8'' # tl (to_bytes m)" by (simp add: to_bytes_split)
  have "take n (to_bytes m) = [] \<or> hd (take n (to_bytes m)) = CHR ''8''" for n
    by (subst (1 2) m) (cases n; simp)
  moreover have "hd (to_bytes m @ out) = CHR ''8''" for out by (subst m) simp
  ultimately show ?thesis
    by (cases "(map to_bytes ms, ws)" rule: write_task.cases) (auto simp: Cons split: prod.splits)
qed simp

lemma shutdown_completed: "snd (write_task raws ws) \<Longrightarrow> completed raws ws = length raws"
  by (induction raws ws rule: write_task.induct) (auto split: prod.splits)

lemma message_parse_to_bytes: "message_wf m \<Longrightarrow> message_parse (to_bytes m) True = Ok (wire_form m)"
  using parse_loop_to_bytes parse_state_all_fields validate_wire_to_bytes
  by (simp add: message_parse_def)

text \<open>
  C1. End to end over the wire. One side writes well-formed messages to its socket, where any
  write may fail half way; the bytes that went out arrive, possibly after garbage that holds no
  \<open>8=\<close>, cut into any reads. Then the other side's read task hands its session exactly the frames
  that went out completely, in order, never a part of one, and each parses to the message that was sent. When
  the writer shut the socket down, that is all of them.
\<close>

theorem wire_end_to_end:
  assumes "concat chunks = garbage @ fst (write_task (map to_bytes ms) ws)"
    and "find_bytes ''8='' garbage = None"
    and "list_all (\<lambda>m. message_wf m \<and> wire_size_ok m) ms"
  defines "arrived \<equiv> take (completed (map to_bytes ms) ws) ms"
  shows "read_task [] chunks = map to_bytes arrived
    \<and> map (\<lambda>raw. message_parse raw True) (read_task [] chunks) = map (\<lambda>m. Ok (wire_form m)) arrived
    \<and> (snd (write_task (map to_bytes ms) ws) \<longrightarrow> arrived = ms)"
proof -
  have r: "read_task [] chunks = map to_bytes arrived"
    using drain_frames_written [OF assms(3)] drain_frames_garbage [OF assms(2) written_head] assms(1)
    by (simp add: read_task_drain arrived_def)
  have "map (\<lambda>raw. message_parse raw True) (read_task [] chunks) = map (\<lambda>m. Ok (wire_form m)) arrived"
    unfolding r arrived_def using assms(3) by (auto simp: list_all_iff message_parse_to_bytes dest!: in_set_takeD)
  with r show ?thesis using shutdown_completed [of "map to_bytes ms" ws] by (simp add: arrived_def)
qed

lemma sample_message_size: "wire_size_ok sample_message"
proof -
  have "length (to_bytes_inner sample_message) = 45"
    unfolding to_bytes_inner_eq sample_message_wire_fields by (simp add: bytes_simps)
  moreover have "length (pad_zero 3 (dec_nat (checksum (out_prefix sample_message)))) \<le> 3"
    using length_dec_nat_bound [of "checksum (out_prefix sample_message)" 3]
      checksum_lt [of "out_prefix sample_message"]
    by (simp add: pad_zero_length del: checksum_lt)
  moreover have "length (dec_nat 45) = 2" by (simp add: bytes_simps)
  moreover have "length (begin_string_of sample_message) = 7"
    by (simp add: begin_string_of_def sample_message_def)
  ultimately show ?thesis by (simp add: wire_size_ok_def to_bytes_split)
qed

lemma sample_message_length: "5 < length (to_bytes sample_message)"
  by (simp add: to_bytes_split)

theorem wire_end_to_end_witness:
  "read_task [] [''xy8'' @ take 7 (to_bytes sample_message), drop 7 (to_bytes sample_message), take 5 (to_bytes sample_message)]
     = [to_bytes sample_message]"
  using wire_end_to_end [of "[''xy8'' @ take 7 (to_bytes sample_message), drop 7 (to_bytes sample_message), take 5 (to_bytes sample_message)]"
      "''xy8''" "[sample_message, sample_message]" "[None, Some 5]"] sample_message_wf sample_message_size
    sample_message_length
  by (simp del: read_task.simps)

lemma read_task_chunking_witness:
  "read_task [] [''garbage8'', tl (to_bytes sample_message), []]
     = read_task [] [''garb'', ''age'' @ to_bytes sample_message]"
  using read_task_chunking [of "[''garbage8'', tl (to_bytes sample_message), []]"
      "[''garb'', ''age'' @ to_bytes sample_message]" "[]"]
  by (simp add: to_bytes_split)

end
