(* ===== verification/Rust_Text.thy ===== *)
theory Rust_Text
  imports Rust_Std
begin

text \<open>
  The text operations of Rust's standard library the stores and the settings use: \<open>str::trim\<close>,
  \<open>split_once\<close>, \<open>split\<close>, \<open>splitn\<close>, \<open>lines\<close>, \<open>char::to_lowercase\<close> on ASCII, \<open>Path::join\<close> and
  \<open>PathBuf::with_extension\<close>; and \<open>BTreeMap\<close> as a list of pairs in ascending key order.
\<close>

section \<open>Trimming\<close>

text \<open>The UTF-8 encodings of the characters with the property White\_Space.\<close>

definition ws_ascii :: "char \<Rightarrow> bool" where
  "ws_ascii c \<longleftrightarrow> c = CHR '' '' \<or> (9 \<le> byte_of c \<and> byte_of c \<le> 13)"

definition ws_multi :: "bytes list" where
  "ws_multi =
     [[CHR 0xC2, CHR 0x85], [CHR 0xC2, CHR 0xA0], [CHR 0xE1, CHR 0x9A, CHR 0x80],
      [CHR 0xE2, CHR 0x80, CHR 0x80], [CHR 0xE2, CHR 0x80, CHR 0x81], [CHR 0xE2, CHR 0x80, CHR 0x82],
      [CHR 0xE2, CHR 0x80, CHR 0x83], [CHR 0xE2, CHR 0x80, CHR 0x84], [CHR 0xE2, CHR 0x80, CHR 0x85],
      [CHR 0xE2, CHR 0x80, CHR 0x86], [CHR 0xE2, CHR 0x80, CHR 0x87], [CHR 0xE2, CHR 0x80, CHR 0x88],
      [CHR 0xE2, CHR 0x80, CHR 0x89], [CHR 0xE2, CHR 0x80, CHR 0x8A], [CHR 0xE2, CHR 0x80, CHR 0xA8],
      [CHR 0xE2, CHR 0x80, CHR 0xA9], [CHR 0xE2, CHR 0x80, CHR 0xAF], [CHR 0xE2, CHR 0x81, CHR 0x9F],
      [CHR 0xE3, CHR 0x80, CHR 0x80]]"

text \<open>How many leading (trailing) bytes one whitespace character takes, zero if there is none.\<close>

definition ws_head :: "bytes \<Rightarrow> nat" where
  "ws_head s =
     (case s of [] \<Rightarrow> 0
      | c # _ \<Rightarrow> if ws_ascii c then 1
                else (case List.find (\<lambda>w. take (length w) s = w) ws_multi of
                        Some w \<Rightarrow> length w | None \<Rightarrow> 0))"

function trim_start :: "bytes \<Rightarrow> bytes" where
  "trim_start s = (if s \<noteq> [] \<and> 0 < ws_head s then trim_start (drop (ws_head s) s) else s)"
  by pat_completeness auto
termination by (relation "measure length") auto

declare trim_start.simps [simp del]

definition ws_last :: "bytes \<Rightarrow> nat" where
  "ws_last s =
     (if s = [] then 0
      else if ws_ascii (last s) then 1
      else (case List.find (\<lambda>w. length w \<le> length s \<and> drop (length s - length w) s = w) ws_multi of
              Some w \<Rightarrow> length w | None \<Rightarrow> 0))"

function trim_end :: "bytes \<Rightarrow> bytes" where
  "trim_end s = (if s \<noteq> [] \<and> 0 < ws_last s then trim_end (take (length s - ws_last s) s) else s)"
  by pat_completeness auto
termination by (relation "measure length") auto

declare trim_end.simps [simp del]

definition trim :: "bytes \<Rightarrow> bytes" where
  "trim s = trim_end (trim_start s)"

section \<open>Splitting\<close>

fun split_once :: "bytes \<Rightarrow> bytes \<Rightarrow> (bytes \<times> bytes) option" where
  "split_once pat [] = (if pat = [] then Some ([], []) else None)"
| "split_once pat (c # cs) =
     (if take (length pat) (c # cs) = pat then Some ([], drop (length pat) (c # cs))
      else map_option (\<lambda>(a, b). (c # a, b)) (split_once pat cs))"

fun split_on :: "char \<Rightarrow> bytes \<Rightarrow> bytes list" where
  "split_on d [] = [[]]"
| "split_on d (c # cs) =
     (if c = d then [] # split_on d cs
      else case split_on d cs of [] \<Rightarrow> [[c]] | p # ps \<Rightarrow> (c # p) # ps)"

fun splitn :: "nat \<Rightarrow> char \<Rightarrow> bytes \<Rightarrow> bytes list" where
  "splitn 0 d s = []"
| "splitn (Suc 0) d s = [s]"
| "splitn (Suc (Suc n)) d s =
     (case position (\<lambda>c. c = d) s of
        None \<Rightarrow> [s]
      | Some i \<Rightarrow> take i s # splitn (Suc n) d (drop (i + 1) s))"

text \<open>\<open>str::lines\<close>: split at newlines, without a last empty piece and without a carriage return before a newline.\<close>

fun strip_cr :: "bytes \<Rightarrow> bytes" where
  "strip_cr s = (if s \<noteq> [] \<and> last s = CHR 0x0D then butlast s else s)"

function str_lines :: "bytes \<Rightarrow> bytes list" where
  "str_lines s =
     (if s = [] then []
      else case position (\<lambda>c. c = CHR 0x0A) s of
        None \<Rightarrow> [s]
      | Some i \<Rightarrow> strip_cr (take i s) # str_lines (drop (i + 1) s))"
  by pat_completeness auto
termination by (relation "measure length") auto

declare str_lines.simps [simp del]

lemma str_lines_concat:
  "list_all (\<lambda>l. CHR 0x0A \<notin> set l \<and> (l \<noteq> [] \<longrightarrow> last l \<noteq> CHR 0x0D)) ls \<Longrightarrow>
   str_lines (concat (map (\<lambda>l. l @ [CHR 0x0A]) ls)) = ls"
proof (induction ls)
  case (Cons l ls)
  have "position (\<lambda>c. c = CHR 0x0A) (l @ CHR 0x0A # concat (map (\<lambda>l. l @ [CHR 0x0A]) ls)) = Some (length l)"
    using Cons.prems by (intro position_append_hit) auto
  moreover have "strip_cr l = l" using Cons.prems by auto
  ultimately show ?case using Cons by (simp add: str_lines.simps [of "l @ _"] del: strip_cr.simps)
qed (simp add: str_lines.simps)

definition ascii_lower :: "char \<Rightarrow> char" where
  "ascii_lower c = (if 65 \<le> byte_of c \<and> byte_of c \<le> 90 then char_of (byte_of c + 32) else c)"

text \<open>
  \<open>{:?}\<close> of a string: the text in quotes, with the escapes of \<open>char::escape_debug\<close> for ASCII (characters
  outside ASCII are taken to be printable, so they stand for themselves).
\<close>

definition hex_digit :: "nat \<Rightarrow> char" where
  "hex_digit n = char_of (if n < 10 then 48 + n else 87 + n)"

definition hex_byte :: "nat \<Rightarrow> bytes" where
  "hex_byte n = (if n < 16 then [hex_digit n] else [hex_digit (n div 16), hex_digit (n mod 16)])"

definition escape_debug :: "char \<Rightarrow> bytes" where
  "escape_debug c =
     (if c = CHR 0x22 then [CHR 0x5C, CHR 0x22]
      else if c = CHR 0x5C then [CHR 0x5C, CHR 0x5C]
      else if c = CHR 0x00 then [CHR 0x5C, CHR ''0'']
      else if c = CHR 0x09 then [CHR 0x5C, CHR ''t'']
      else if c = CHR 0x0A then [CHR 0x5C, CHR ''n'']
      else if c = CHR 0x0D then [CHR 0x5C, CHR ''r'']
      else if byte_of c < 32 \<or> byte_of c = 127 then CHR 0x5C # ''u{'' @ hex_byte (byte_of c) @ ''}''
      else [c])"

definition debug_str :: "bytes \<Rightarrow> bytes" where
  "debug_str s = CHR 0x22 # concat (map escape_debug s) @ [CHR 0x22]"

definition ascii_upper :: "char \<Rightarrow> char" where
  "ascii_upper c = (if 97 \<le> byte_of c \<and> byte_of c \<le> 122 then char_of (byte_of c - 32) else c)"

section \<open>Paths\<close>

definition path_join :: "bytes \<Rightarrow> bytes \<Rightarrow> bytes" where
  "path_join dir name =
     (if name \<noteq> [] \<and> hd name = CHR ''/'' then name
      else if dir = [] \<or> last dir = CHR ''/'' then dir @ name
      else dir @ CHR ''/'' # name)"

text \<open>
  \<open>file_stem\<close> of a file name: everything before the last dot, the whole name when it has no dot
  or only a leading one. The name is the last component of the path, which holds no slash, is
  not empty and is neither \<open>.\<close> nor \<open>..\<close>.
\<close>

definition file_stem :: "bytes \<Rightarrow> bytes" where
  "file_stem n =
     (case position (\<lambda>c. c = CHR ''.'') (rev n) of
        None \<Rightarrow> n
      | Some i \<Rightarrow> if length n = i + 1 then n else take (length n - i - 1) n)"

definition with_extension :: "bytes \<Rightarrow> bytes \<Rightarrow> bytes" where
  "with_extension p ext =
     (let name = (case position (\<lambda>c. c = CHR ''/'') (rev p) of
                    None \<Rightarrow> p | Some i \<Rightarrow> drop (length p - i) p);
          parent = take (length p - length name) p
      in parent @ file_stem name @ CHR ''.'' # ext)"

section \<open>Ordered maps\<close>

type_synonym 'v btree = "(u64 \<times> 'v) list"

fun bt_insert :: "u64 \<Rightarrow> 'v \<Rightarrow> 'v btree \<Rightarrow> 'v btree" where
  "bt_insert k v [] = [(k, v)]"
| "bt_insert k v ((k', v') # m) =
     (if k < k' then (k, v) # (k', v') # m
      else if k = k' then (k, v) # m
      else (k', v') # bt_insert k v m)"

text \<open>\<open>BTreeMap::range\<close> over an inclusive range; it panics when the bounds are the wrong way round.\<close>

definition bt_range :: "u64 \<Rightarrow> u64 \<Rightarrow> 'v btree \<Rightarrow> ('e, 'v btree) res" where
  "bt_range b e m = (if e < b then Panic else Ok (filter (\<lambda>(k, _). b \<le> k \<and> k \<le> e) m))"

definition bt_ok :: "'v btree \<Rightarrow> bool" where
  "bt_ok m \<longleftrightarrow> sorted_wrt (<) (map fst m)"

lemma bt_insert_keys: "fst ` set (bt_insert k v m) = insert k (fst ` set m)"
  by (induction k v m rule: bt_insert.induct) (simp_all add: insert_commute)

lemma bt_ok_insert [simp]: "bt_ok m \<Longrightarrow> bt_ok (bt_insert k v m)"
proof (induction m)
  case (Cons p m)
  have "\<forall>k'\<in>fst ` set (bt_insert k v m). k' = k \<or> k' \<in> fst ` set m"
    using bt_insert_keys [of k v m] by blast
  with Cons show ?case by (cases p) (fastforce simp: bt_ok_def)
qed (simp add: bt_ok_def)

lemma bt_ok_tl: "bt_ok m \<Longrightarrow> bt_ok (tl m)"
  by (cases m) (simp_all add: bt_ok_def)

lemma bt_ok_filter: "bt_ok m \<Longrightarrow> bt_ok (filter P m)"
  unfolding bt_ok_def sorted_wrt_map by (rule sorted_wrt_filter)

lemma bt_ok_distinct: "bt_ok m \<Longrightarrow> distinct (map fst m)"
  by (simp add: bt_ok_def strict_sorted_iff)

lemma map_of_bt_insert: "bt_ok m \<Longrightarrow> map_of (bt_insert k v m) = (map_of m)(k \<mapsto> v)"
  by (induction m) (auto simp: bt_ok_def fun_eq_iff map_of_eq_None_iff)

lemma map_of_bt_filter:
  "map_of (filter (\<lambda>(k, _). P k) m) k = (if P k then map_of m k else None)"
  by (induction m) auto

section \<open>Hash maps\<close>

text \<open>\<open>HashMap::insert\<close> and \<open>entry().or_insert()\<close>.\<close>

definition hm_insert :: "'k \<Rightarrow> 'v \<Rightarrow> ('k \<times> 'v) list \<Rightarrow> ('k \<times> 'v) list" where
  "hm_insert k v m = (k, v) # filter (\<lambda>(k', _). k' \<noteq> k) m"

definition hm_or_insert :: "'k \<Rightarrow> 'v \<Rightarrow> ('k \<times> 'v) list \<Rightarrow> ('k \<times> 'v) list" where
  "hm_or_insert k v m = (if map_of m k = None then (k, v) # m else m)"

definition hm_extend_missing :: "('k \<times> 'v) list \<Rightarrow> ('k \<times> 'v) list \<Rightarrow> ('k \<times> 'v) list" where
  "hm_extend_missing m new = foldl (\<lambda>m (k, v). hm_or_insert k v m) m new"

lemma map_of_hm_insert [simp]: "map_of (hm_insert k v m) = (map_of m)(k \<mapsto> v)"
proof
  fix x
  have "map_of (filter (\<lambda>(k', _). k' \<noteq> k) m) x = (if x = k then None else map_of m x)"
    by (induction m) auto
  then show "map_of (hm_insert k v m) x = ((map_of m)(k \<mapsto> v)) x" by (simp add: hm_insert_def)
qed

lemma hm_extend_missing_lookup: "map_of (hm_extend_missing m new) = map_of new ++ map_of m"
proof (induction new arbitrary: m)
  case (Cons p new)
  obtain k v where p: "p = (k, v)" by (cases p)
  have "map_of (hm_extend_missing m (p # new)) = map_of (hm_extend_missing (hm_or_insert k v m) new)"
    by (simp add: hm_extend_missing_def p)
  also have "\<dots> = map_of new ++ map_of (hm_or_insert k v m)" by (rule Cons.IH)
  also have "\<dots> = map_of (p # new) ++ map_of m"
    by (rule ext) (auto simp: hm_or_insert_def p map_add_def split: option.splits)
  finally show ?case .
qed (simp add: hm_extend_missing_def)

end
