(* ===== verification/Session_Id.thy ===== *)
theory Session_Id
  imports Rust_Text
begin

text \<open>
  \<open>src/session_id.rs\<close>: the identity of a session, the identity an acceptor derives from a
  Logon, the file prefix of the file stores and logs, and the name the session is printed with.
\<close>

record session_id =
  sid_begin_string :: bytes
  sid_sender_comp_id :: bytes
  sid_sender_sub_id :: bytes
  sid_sender_location_id :: bytes
  sid_target_comp_id :: bytes
  sid_target_sub_id :: bytes
  sid_target_location_id :: bytes
  sid_qualifier :: bytes

definition session_id_new :: "bytes \<Rightarrow> bytes \<Rightarrow> bytes \<Rightarrow> session_id" where
  "session_id_new begin_string sender target =
     \<lparr>sid_begin_string = begin_string, sid_sender_comp_id = sender, sid_sender_sub_id = [],
      sid_sender_location_id = [], sid_target_comp_id = target, sid_target_sub_id = [],
      sid_target_location_id = [], sid_qualifier = []\<rparr>"

definition is_fixt :: "session_id \<Rightarrow> bool" where
  "is_fixt s \<longleftrightarrow> sid_begin_string s = ''FIXT.1.1''"

definition reversed :: "session_id \<Rightarrow> session_id" where
  "reversed s =
     \<lparr>sid_begin_string = sid_begin_string s,
      sid_sender_comp_id = sid_target_comp_id s,
      sid_sender_sub_id = sid_target_sub_id s,
      sid_sender_location_id = sid_target_location_id s,
      sid_target_comp_id = sid_sender_comp_id s,
      sid_target_sub_id = sid_sender_sub_id s,
      sid_target_location_id = sid_sender_location_id s,
      sid_qualifier = sid_qualifier s\<rparr>"

definition sid_file_prefix :: "session_id \<Rightarrow> bytes" where
  "sid_file_prefix s =
     sid_begin_string s @ ''-'' @ sid_sender_comp_id s @ ''-'' @ sid_target_comp_id s
     @ (if sid_qualifier s = [] then [] else ''-'' @ sid_qualifier s)"

definition opt_part :: "bytes \<Rightarrow> bytes \<Rightarrow> bytes" where
  "opt_part sep s = (if s = [] then [] else sep @ s)"

definition session_id_display :: "session_id \<Rightarrow> bytes" where
  "session_id_display s =
     sid_begin_string s @ '':'' @ sid_sender_comp_id s
     @ opt_part ''/'' (sid_sender_sub_id s) @ opt_part ''/'' (sid_sender_location_id s)
     @ ''->'' @ sid_target_comp_id s
     @ opt_part ''/'' (sid_target_sub_id s) @ opt_part ''/'' (sid_target_location_id s)
     @ opt_part '':'' (sid_qualifier s)"

lemma reversed_reversed [simp]: "reversed (reversed s) = s"
  by (simp add: reversed_def)

section \<open>The files of a session\<close>

text \<open>
  The store and the log open \<open>dir.join(session_id.file_prefix()).with_extension(ext)\<close>, and \<open>with_extension\<close>
  replaces whatever follows the last dot of the file name.
\<close>

definition session_path :: "bytes \<Rightarrow> session_id \<Rightarrow> bytes \<Rightarrow> bytes" where
  "session_path dir s ext = with_extension (path_join dir (sid_file_prefix s)) ext"

lemma position_rev_skip:
  "c \<notin> set b \<Longrightarrow> position (\<lambda>x. x = c) (rev b @ c # ys) = Some (length b)"
  using position_append_hit [of "rev b" "\<lambda>x. x = c" c ys] by auto

lemma position_none: "c \<notin> set b \<Longrightarrow> position (\<lambda>x. x = c) b = None"
  by (auto simp: position_None_iff)

lemma with_extension_join:
  assumes "CHR ''/'' \<notin> set n" and "n \<noteq> []"
  shows "with_extension (path_join dir n) ext = path_join dir (file_stem n @ CHR ''.'' # ext)"
proof -
  have hd: "hd n \<noteq> CHR ''/''" using assms by (cases n) auto
  have sl: "file_stem n \<noteq> [] \<longrightarrow> hd (file_stem n) \<noteq> CHR ''/''"
    using assms by (cases n) (auto simp: file_stem_def hd_take split: option.splits)
  have hd': "hd (file_stem n @ CHR ''.'' # ext) \<noteq> CHR ''/''"
    using sl by (cases "file_stem n") auto
  show ?thesis
  proof (cases "dir = []")
    case True
    with assms(1) hd hd' show ?thesis
      by (simp add: path_join_def with_extension_def position_none)
  next
    case False
    show ?thesis
    proof (cases "last dir = CHR ''/''")
      case True
      with False obtain d where d: "dir = d @ ''/''" by (metis append_butlast_last_id)
      with assms(1) hd hd' show ?thesis
        by (simp add: path_join_def with_extension_def position_rev_skip)
    next
      case l: False
      with False assms(1) hd hd' show ?thesis
        by (simp add: path_join_def with_extension_def position_rev_skip)
    qed
  qed
qed

lemma file_stem_dot:
  assumes "CHR ''.'' \<notin> set b" and "a \<noteq> []"
  shows "file_stem (a @ CHR ''.'' # b) = a"
  using assms position_rev_skip [OF assms(1), of "rev a"] by (simp add: file_stem_def)

text \<open>
  The files of a session do not identify it: for a BeginString with a dot (\<open>FIX.4.4\<close>) the
  text after the last dot, which holds both CompIDs and the qualifier, is cut off as if it were
  an extension, so any two such sessions in one directory share every store and log file.
\<close>

lemma session_files_collide:
  assumes "CHR ''/'' \<notin> set (v @ CHR ''.'' # b)" and "v \<noteq> []"
    and "CHR ''.'' \<notin> set (b @ sender @ target @ sender' @ target')"
    and "CHR ''/'' \<notin> set (sender @ target @ sender' @ target')"
  shows "session_path dir (session_id_new (v @ CHR ''.'' # b) sender target) ext
       = session_path dir (session_id_new (v @ CHR ''.'' # b) sender' target') ext"
proof -
  have stem: "file_stem (sid_file_prefix (session_id_new (v @ CHR ''.'' # b) s t)) = v"
    if "CHR ''.'' \<notin> set (b @ s @ t)" for s t
    using file_stem_dot [of "b @ ''-'' @ s @ ''-'' @ t" v] that assms(2)
    by (simp add: sid_file_prefix_def session_id_new_def)
  have path: "session_path dir (session_id_new (v @ CHR ''.'' # b) s t) ext
      = path_join dir (v @ CHR ''.'' # ext)"
    if "CHR ''.'' \<notin> set (b @ s @ t)" and "CHR ''/'' \<notin> set (s @ t)" for s t
    unfolding session_path_def
    using with_extension_join [of "sid_file_prefix (session_id_new (v @ CHR ''.'' # b) s t)" dir ext]
      stem [OF that(1)] assms(1) that(2)
    by (simp add: sid_file_prefix_def session_id_new_def)
  from path [of sender target] path [of sender' target'] assms(3,4) show ?thesis by simp
qed

lemma session_files_collide_witness:
  "session_path ''store'' (session_id_new ''FIX.4.4'' ''BANK'' ''CLIENT1'') ''seqnums''
     = session_path ''store'' (session_id_new ''FIX.4.4'' ''BANK'' ''CLIENT2'') ''seqnums''"
  using session_files_collide [of "''FIX.4''" "''4''" "''BANK''" "''CLIENT1''" "''BANK''" "''CLIENT2''"
      "''store''" "''seqnums''"]
  by simp

end
