(* ===== verification/Message_Store.thy ===== *)
theory Message_Store
  imports Session_Id Fix_Error
begin

text \<open>
  \<open>src/store.rs\<close>: the \<open>MessageStore\<close> trait as a record of operations (the methods of the trait
  object the session holds), its contract as the locale \<open>message_store\<close>, and the in-memory store.

  An operation takes the store and returns its outcome with the store as it is left: a failing
  operation can have changed the store. \<open>Utc::now()\<close> is an argument of the operations that
  read the clock.
\<close>

section \<open>The trait\<close>

type_synonym time = int

record 'st store_ops =
  so_next_sender :: "'st \<Rightarrow> u64"
  so_next_target :: "'st \<Rightarrow> u64"
  so_incr_sender :: "'st \<Rightarrow> (error, unit) res \<times> 'st"
  so_incr_target :: "'st \<Rightarrow> (error, unit) res \<times> 'st"
  so_set_sender :: "u64 \<Rightarrow> 'st \<Rightarrow> (error, unit) res \<times> 'st"
  so_set_target :: "u64 \<Rightarrow> 'st \<Rightarrow> (error, unit) res \<times> 'st"
  so_creation_time :: "'st \<Rightarrow> time"
  so_save :: "u64 \<Rightarrow> bytes \<Rightarrow> 'st \<Rightarrow> (error, unit) res \<times> 'st"
  so_get :: "u64 \<Rightarrow> u64 \<Rightarrow> 'st \<Rightarrow> (error, (u64 \<times> bytes) list) res \<times> 'st"
  so_refresh :: "time \<Rightarrow> 'st \<Rightarrow> (error, unit) res \<times> 'st"
  so_reset :: "time \<Rightarrow> 'st \<Rightarrow> (error, unit) res \<times> 'st"

text \<open>The provided method: persist, then advance.\<close>

definition save_message_and_incr :: "'st store_ops \<Rightarrow> u64 \<Rightarrow> bytes \<Rightarrow> 'st \<Rightarrow> (error, unit) res \<times> 'st" where
  "save_message_and_incr ops seq_num raw st =
     (case so_save ops seq_num raw st of
        (Ok _, st') \<Rightarrow> so_incr_sender ops st'
      | (Err e, st') \<Rightarrow> (Err e, st')
      | (Panic, st') \<Rightarrow> (Panic, st'))"

text \<open>
  What the session relies on. \<open>sok\<close> is the store's invariant and \<open>msgs\<close> the messages it can give
  back. A store may forget messages it has saved (a bounded resend buffer) but never gives back
  something that was not saved under that number. The laws speak of operations that succeed; what
  a failing one leaves behind is up to the store.
\<close>

locale message_store =
  fixes ops :: "'st store_ops"
    and sok :: "'st \<Rightarrow> bool"
    and msgs :: "'st \<Rightarrow> u64 \<rightharpoonup> bytes"
  assumes incr_sender:
    "sok st \<Longrightarrow> so_incr_sender ops st = (Ok (), st') \<Longrightarrow>
       sok st' \<and> so_next_sender ops st' = u64_add (so_next_sender ops st) 1
       \<and> so_next_target ops st' = so_next_target ops st \<and> msgs st' = msgs st
       \<and> so_creation_time ops st' = so_creation_time ops st"
  and incr_target:
    "sok st \<Longrightarrow> so_incr_target ops st = (Ok (), st') \<Longrightarrow>
       sok st' \<and> so_next_target ops st' = u64_add (so_next_target ops st) 1
       \<and> so_next_sender ops st' = so_next_sender ops st \<and> msgs st' = msgs st
       \<and> so_creation_time ops st' = so_creation_time ops st"
  and set_sender:
    "sok st \<Longrightarrow> n < 2 ^ 64 \<Longrightarrow> so_set_sender ops n st = (Ok (), st') \<Longrightarrow>
       sok st' \<and> so_next_sender ops st' = n
       \<and> so_next_target ops st' = so_next_target ops st \<and> msgs st' = msgs st
       \<and> so_creation_time ops st' = so_creation_time ops st"
  and set_target:
    "sok st \<Longrightarrow> n < 2 ^ 64 \<Longrightarrow> so_set_target ops n st = (Ok (), st') \<Longrightarrow>
       sok st' \<and> so_next_target ops st' = n
       \<and> so_next_sender ops st' = so_next_sender ops st \<and> msgs st' = msgs st
       \<and> so_creation_time ops st' = so_creation_time ops st"
  and save:
    "sok st \<Longrightarrow> n < 2 ^ 64 \<Longrightarrow> so_save ops n raw st = (Ok (), st') \<Longrightarrow>
       sok st' \<and> so_next_sender ops st' = so_next_sender ops st
       \<and> so_next_target ops st' = so_next_target ops st
       \<and> msgs st' \<subseteq>\<^sub>m (msgs st)(n \<mapsto> raw)
       \<and> so_creation_time ops st' = so_creation_time ops st"
  and get_ok:
    "sok st \<Longrightarrow> b \<le> e \<Longrightarrow> so_get ops b e st = (Ok xs, st') \<Longrightarrow>
       sok st' \<and> so_next_sender ops st' = so_next_sender ops st
       \<and> so_next_target ops st' = so_next_target ops st \<and> msgs st' = msgs st
       \<and> so_creation_time ops st' = so_creation_time ops st
       \<and> bt_ok xs \<and> (\<forall>k. map_of xs k = (if b \<le> k \<and> k \<le> e then msgs st k else None))"
  and get_no_panic: "b \<le> e \<Longrightarrow> fst (so_get ops b e st) \<noteq> Panic"
  and reset:
    "sok st \<Longrightarrow> so_reset ops now st = (Ok (), st') \<Longrightarrow>
       sok st' \<and> so_next_sender ops st' = 1 \<and> so_next_target ops st' = 1
       \<and> msgs st' = Map.empty \<and> so_creation_time ops st' = now"
  and refresh:
    "sok st \<Longrightarrow> so_refresh ops now st = (Ok (), st') \<Longrightarrow> sok st'"
  and u64_sender: "sok st \<Longrightarrow> so_next_sender ops st < 2 ^ 64"
  and u64_target: "sok st \<Longrightarrow> so_next_target ops st < 2 ^ 64"
begin

text \<open>Persist-and-advance moves the sender number by one and can only add the message it was given.\<close>

lemma save_and_incr:
  assumes "sok st" and "n < 2 ^ 64" and "save_message_and_incr ops n raw st = (Ok (), st')"
  shows "sok st' \<and> so_next_sender ops st' = u64_add (so_next_sender ops st) 1
    \<and> so_next_target ops st' = so_next_target ops st \<and> msgs st' \<subseteq>\<^sub>m (msgs st)(n \<mapsto> raw)"
proof -
  from assms(3) obtain st1 where s: "so_save ops n raw st = (Ok (), st1)"
    and i: "so_incr_sender ops st1 = (Ok (), st')"
    by (auto simp: save_message_and_incr_def split: prod.splits res.splits)
  from save [OF assms(1,2) s] have "sok st1" by simp
  from incr_sender [OF this i] save [OF assms(1,2) s] show ?thesis by simp
qed

text \<open>What a store gives back for a range lies in the range, in ascending order, without repetition.\<close>

lemma get_keys:
  assumes "sok st" and "b \<le> e" and "so_get ops b e st = (Ok xs, st')"
  shows "sorted_wrt (<) (map fst xs) \<and> (\<forall>k\<in>set (map fst xs). b \<le> k \<and> k \<le> e)"
proof -
  from get_ok [OF assms] have bt: "bt_ok xs"
    and m: "\<And>k. map_of xs k = (if b \<le> k \<and> k \<le> e then msgs st k else None)" by auto
  have "b \<le> k \<and> k \<le> e" if "k \<in> set (map fst xs)" for k
    using that m [of k] by (auto simp: map_of_eq_None_iff split: if_splits)
  with bt show ?thesis by (auto simp: bt_ok_def)
qed

end

section \<open>The in-memory store\<close>

record memory_store =
  ms_next_sender :: u64
  ms_next_target :: u64
  ms_creation_time :: time
  ms_messages :: "bytes btree"
  ms_capacity :: "nat option"

definition memory_store_new :: "time \<Rightarrow> memory_store" where
  "memory_store_new now =
     \<lparr>ms_next_sender = 1, ms_next_target = 1, ms_creation_time = now, ms_messages = [],
      ms_capacity = None\<rparr>"

definition memory_store_with_capacity :: "time \<Rightarrow> nat \<Rightarrow> memory_store" where
  "memory_store_with_capacity now capacity =
     (memory_store_new now)\<lparr>ms_capacity := Some capacity\<rparr>"

function trim_oldest :: "nat \<Rightarrow> bytes btree \<Rightarrow> bytes btree" where
  "trim_oldest cap m = (if cap < length m then trim_oldest cap (tl m) else m)"
  by pat_completeness auto
termination by (relation "measure (\<lambda>(cap, m). length m)") auto

declare trim_oldest.simps [simp del]

definition ms_trim :: "memory_store \<Rightarrow> memory_store" where
  "ms_trim st =
     (case ms_capacity st of
        None \<Rightarrow> st
      | Some cap \<Rightarrow> st\<lparr>ms_messages := trim_oldest cap (ms_messages st)\<rparr>)"

definition ms_save :: "u64 \<Rightarrow> bytes \<Rightarrow> memory_store \<Rightarrow> (error, unit) res \<times> memory_store" where
  "ms_save seq_num raw st =
     (Ok (), ms_trim (st\<lparr>ms_messages := bt_insert seq_num raw (ms_messages st)\<rparr>))"

definition ms_get :: "u64 \<Rightarrow> u64 \<Rightarrow> memory_store \<Rightarrow> (error, (u64 \<times> bytes) list) res \<times> memory_store" where
  "ms_get b e st = (bt_range b e (ms_messages st), st)"

definition ms_reset :: "time \<Rightarrow> memory_store \<Rightarrow> (error, unit) res \<times> memory_store" where
  "ms_reset now st =
     (Ok (), st\<lparr>ms_next_sender := 1, ms_next_target := 1, ms_creation_time := now, ms_messages := []\<rparr>)"

definition memory_ops :: "memory_store store_ops" where
  "memory_ops =
     \<lparr>so_next_sender = ms_next_sender,
      so_next_target = ms_next_target,
      so_incr_sender = (\<lambda>st. (Ok (), st\<lparr>ms_next_sender := u64_add (ms_next_sender st) 1\<rparr>)),
      so_incr_target = (\<lambda>st. (Ok (), st\<lparr>ms_next_target := u64_add (ms_next_target st) 1\<rparr>)),
      so_set_sender = (\<lambda>n st. (Ok (), st\<lparr>ms_next_sender := n\<rparr>)),
      so_set_target = (\<lambda>n st. (Ok (), st\<lparr>ms_next_target := n\<rparr>)),
      so_creation_time = ms_creation_time,
      so_save = ms_save,
      so_get = ms_get,
      so_refresh = (\<lambda>now st. (Ok (), st)),
      so_reset = ms_reset\<rparr>"

definition memory_store_create :: "nat option \<Rightarrow> time \<Rightarrow> memory_store" where
  "memory_store_create capacity now =
     (case capacity of Some cap \<Rightarrow> memory_store_with_capacity now cap | None \<Rightarrow> memory_store_new now)"

text \<open>The invariant: the counters are 64-bit values and the resend buffer is within its capacity.\<close>

definition ms_ok :: "memory_store \<Rightarrow> bool" where
  "ms_ok st \<longleftrightarrow>
     ms_next_sender st < 2 ^ 64 \<and> ms_next_target st < 2 ^ 64 \<and> bt_ok (ms_messages st)
     \<and> (case ms_capacity st of None \<Rightarrow> True | Some cap \<Rightarrow> length (ms_messages st) \<le> cap)"

lemma trim_oldest_drop: "trim_oldest cap m = drop (length m - cap) m"
proof (induction cap m rule: trim_oldest.induct)
  case (1 cap m)
  show ?case
  proof (cases "cap < length m")
    case True
    with "1.IH" have "trim_oldest cap m = drop (length (tl m) - cap) (tl m)"
      by (simp add: trim_oldest.simps [of cap m])
    also have "\<dots> = drop (Suc (length m - 1 - cap)) m" by (simp add: drop_Suc)
    finally show ?thesis using True by (simp add: Suc_diff_Suc)
  qed (simp add: trim_oldest.simps)
qed

lemma bt_ok_drop: "bt_ok m \<Longrightarrow> bt_ok (drop n m)"
  unfolding bt_ok_def drop_map [symmetric] by (rule sorted_wrt_drop)

lemma map_of_drop_le:
  assumes "bt_ok m"
  shows "map_of (drop n m) \<subseteq>\<^sub>m map_of m"
  unfolding map_le_def
proof
  fix k assume "k \<in> dom (map_of (drop n m))"
  then obtain x where x: "map_of (drop n m) k = Some x" by blast
  then have "(k, x) \<in> set m" by (metis map_of_SomeD in_set_dropD)
  with x show "map_of (drop n m) k = map_of m k"
    using bt_ok_distinct [OF assms] by simp
qed

lemma ms_trim_simps [simp]:
  "ms_next_sender (ms_trim st) = ms_next_sender st" "ms_next_target (ms_trim st) = ms_next_target st"
  "ms_creation_time (ms_trim st) = ms_creation_time st" "ms_capacity (ms_trim st) = ms_capacity st"
  by (simp_all add: ms_trim_def split: option.splits)

lemma ms_ok_create: "ms_ok (memory_store_create capacity now)"
  by (simp add: ms_ok_def memory_store_create_def memory_store_with_capacity_def memory_store_new_def
      bt_ok_def split: option.splits)

lemma ms_save_ok: "ms_ok st \<Longrightarrow> ms_ok (snd (ms_save n raw st))"
  by (auto simp: ms_ok_def ms_save_def ms_trim_def trim_oldest_drop bt_ok_drop split: option.splits)

lemma ms_save_msgs:
  assumes "ms_ok st"
  shows "map_of (ms_messages (snd (ms_save n raw st))) \<subseteq>\<^sub>m (map_of (ms_messages st))(n \<mapsto> raw)"
proof -
  let ?m = "bt_insert n raw (ms_messages st)"
  have bt: "bt_ok (ms_messages st)" using assms by (simp add: ms_ok_def)
  have "map_of (drop k ?m) \<subseteq>\<^sub>m (map_of (ms_messages st))(n \<mapsto> raw)" for k
    using map_of_drop_le [OF bt_ok_insert [OF bt], of k n raw] map_of_bt_insert [OF bt] by simp
  from this [of 0] this show ?thesis
    by (simp add: ms_save_def ms_trim_def trim_oldest_drop split: option.splits)
qed

interpretation memory: message_store memory_ops ms_ok "\<lambda>st. map_of (ms_messages st)"
proof unfold_locales
  fix st st' :: memory_store and n raw
  assume "ms_ok st" "n < 2 ^ 64" "so_save memory_ops n raw st = (Ok (), st')"
  then show "ms_ok st' \<and> so_next_sender memory_ops st' = so_next_sender memory_ops st
       \<and> so_next_target memory_ops st' = so_next_target memory_ops st
       \<and> map_of (ms_messages st') \<subseteq>\<^sub>m (map_of (ms_messages st))(n \<mapsto> raw)
       \<and> so_creation_time memory_ops st' = so_creation_time memory_ops st"
    using ms_save_ok [of st n raw] ms_save_msgs [of st n raw]
    by (auto simp: memory_ops_def) (auto simp: ms_save_def)
qed (auto simp: memory_ops_def ms_ok_def ms_get_def ms_reset_def bt_range_def bt_ok_def [of "[]"]
      bt_ok_filter map_of_bt_filter split: if_splits option.splits)

section \<open>The bounded resend buffer\<close>

definition ms_save_all :: "(u64 \<times> bytes) list \<Rightarrow> memory_store \<Rightarrow> memory_store" where
  "ms_save_all xs st = foldl (\<lambda>s (n, raw). snd (ms_save n raw s)) st xs"

lemma bt_insert_last: "\<forall>k\<in>fst ` set m. k < n \<Longrightarrow> bt_insert n raw m = m @ [(n, raw)]"
  by (induction m) auto

lemma ms_save_all_capacity:
  assumes "sorted_wrt (<) (map fst xs)"
  shows "ms_messages (ms_save_all xs (memory_store_with_capacity now cap)) = drop (length xs - cap) xs
    \<and> ms_capacity (ms_save_all xs (memory_store_with_capacity now cap)) = Some cap"
  using assms
proof (induction xs rule: rev_induct)
  case Nil
  show ?case by (simp add: ms_save_all_def memory_store_with_capacity_def memory_store_new_def)
next
  case (snoc x xs)
  obtain n raw where x: "x = (n, raw)" by (cases x)
  let ?st = "ms_save_all xs (memory_store_with_capacity now cap)"
  let ?m = "drop (length xs - cap) xs"
  from snoc have m: "ms_messages ?st = ?m" "ms_capacity ?st = Some cap"
    by (simp_all add: sorted_wrt_append)
  have "\<forall>k\<in>fst ` set ?m. k < n"
    using snoc.prems x by (auto simp: sorted_wrt_append dest: in_set_dropD)
  then have "bt_insert n raw ?m = ?m @ [(n, raw)]" by (rule bt_insert_last)
  moreover have "ms_save_all (xs @ [x]) st = snd (ms_save n raw (ms_save_all xs st))" for st
    by (simp add: ms_save_all_def x)
  ultimately show ?case using m x
    by (cases "cap \<le> length xs") (simp_all add: ms_save_def ms_trim_def trim_oldest_drop Suc_diff_le)
qed

text \<open>
  C26. A bounded in-memory store keeps exactly the most recent messages: after saving messages
  under ascending numbers, a resend request for any range gets the saved messages of that range
  among the last \<open>capacity\<close> ones, in order, and nothing else.
\<close>

theorem memory_store_keeps_newest:
  assumes "sorted_wrt (<) (map fst xs)" and "b \<le> e"
  shows "fst (so_get memory_ops b e (ms_save_all xs (memory_store_with_capacity now cap)))
    = Ok (filter (\<lambda>(k, _). b \<le> k \<and> k \<le> e) (drop (length xs - cap) xs))"
  using ms_save_all_capacity [OF assms(1)] assms(2)
  by (simp add: memory_ops_def ms_get_def bt_range_def)

theorem memory_store_keeps_newest_witness:
  "fst (so_get memory_ops 1 9 (ms_save_all [(1, ''a''), (2, ''b''), (3, ''c'')] (memory_store_with_capacity 0 2)))
    = Ok [(2, ''b''), (3, ''c'')]"
  using memory_store_keeps_newest [of "[(1, ''a''), (2, ''b''), (3, ''c'')]" 1 9 0 2] by simp

end
