(* ===== verification/Schedule.thy ===== *)
theory Schedule
  imports Message_Store
begin

text \<open>
  \<open>src/schedule.rs\<close>: daily and weekly session windows. An instant is a number of nanoseconds since
  the Unix epoch. The time of day, the weekday and the day number of an instant in a time zone
  come from chrono and are the parameter \<open>calendar\<close>, one for UTC and one for the local zone.

  The specification is the set of occurrences of a window as intervals of seconds: the lemmas show
  for which windows \<open>is_in_range\<close> is membership in an occurrence and \<open>is_in_same_range\<close> is membership
  in one occurrence together, and what the tests are for the others. The offset of the zone from UTC
  is fixed there (\<open>calendar_ok\<close>); the definitions hold for any.
\<close>

section \<open>Parsing\<close>

definition i64_wrap :: "int \<Rightarrow> int" where
  "i64_wrap x = (x + 2 ^ 63) mod 2 ^ 64 - 2 ^ 63"

definition tod_parse :: "bytes \<Rightarrow> error + int" where
  "tod_parse s =
     (let bad = Inl (ConfigError (''invalid time '' @ debug_str s @ '', expected HH:MM:SS'')) in
      case split_on (CHR '':'') s of
        hs # ms # ss # rest \<Rightarrow>
          (case parse_i64 hs of None \<Rightarrow> bad | Some h \<Rightarrow>
             (case parse_i64 ms of None \<Rightarrow> bad | Some m \<Rightarrow>
                (case parse_i64 ss of None \<Rightarrow> bad | Some sec \<Rightarrow>
                   if rest \<noteq> [] \<or> 23 < h \<or> 59 < m \<or> 59 < sec then bad
                   else Inr (i64_wrap (h * 3600 + m * 60 + sec)))))
      | _ \<Rightarrow> bad)"

definition parse_day :: "bytes \<Rightarrow> error + int" where
  "parse_day s =
     (let abbr = map ascii_lower (take 2 s) in
      if abbr = ''su'' then Inr 1
      else if abbr = ''mo'' then Inr 2
      else if abbr = ''tu'' then Inr 3
      else if abbr = ''we'' then Inr 4
      else if abbr = ''th'' then Inr 5
      else if abbr = ''fr'' then Inr 6
      else if abbr = ''sa'' then Inr 7
      else Inl (ConfigError (''invalid day '' @ debug_str s)))"

record schedule =
  sch_start :: int
  sch_end :: int
  sch_start_day :: int
  sch_end_day :: int
  sch_use_local :: bool
  sch_non_stop :: bool

definition schedule_non_stop :: schedule where
  "schedule_non_stop =
     \<lparr>sch_start = 0, sch_end = 0, sch_start_day = -1, sch_end_day = -1, sch_use_local = False,
      sch_non_stop = True\<rparr>"

fun opt_day :: "bytes option \<Rightarrow> error + int" where
  "opt_day None = Inr (-1)"
| "opt_day (Some s) = parse_day s"

definition schedule_parse ::
  "bytes option \<Rightarrow> bytes option \<Rightarrow> bytes option \<Rightarrow> bytes option \<Rightarrow> bool \<Rightarrow> bool \<Rightarrow> error + schedule" where
  "schedule_parse start en start_day end_day use_local non_stop_setting =
     (case opt_day start_day of Inl e \<Rightarrow> Inl e | Inr sd \<Rightarrow>
       (case opt_day end_day of Inl e \<Rightarrow> Inl e | Inr ed \<Rightarrow>
         if (0 \<le> sd) \<noteq> (0 \<le> ed) then Inl (ConfigError ''StartDay and EndDay must be set together'')
         else case (start, en) of
           (Some s, Some e) \<Rightarrow>
             (case tod_parse s of Inl er \<Rightarrow> Inl er | Inr st \<Rightarrow>
               (case tod_parse e of Inl er \<Rightarrow> Inl er | Inr et \<Rightarrow>
                  Inr \<lparr>sch_start = st, sch_end = et, sch_start_day = sd, sch_end_day = ed,
                       sch_use_local = use_local, sch_non_stop = False\<rparr>))
         | _ \<Rightarrow>
             if non_stop_setting \<or> sd < 0 then Inr schedule_non_stop
             else Inr \<lparr>sch_start = 0, sch_end = 0, sch_start_day = sd, sch_end_day = ed,
                       sch_use_local = use_local, sch_non_stop = False\<rparr>))"

section \<open>Windows\<close>

record calendar =
  cal_tod :: "time \<Rightarrow> int"
  cal_weekday :: "time \<Rightarrow> int"
  cal_day :: "time \<Rightarrow> int"

type_synonym calendars = "bool \<Rightarrow> calendar"

definition sch_parts :: "calendars \<Rightarrow> schedule \<Rightarrow> time \<Rightarrow> int \<times> int \<times> int" where
  "sch_parts cals sch now =
     (let c = cals (sch_use_local sch) in (cal_tod c now, cal_weekday c now, cal_day c now))"

definition in_daily :: "int \<Rightarrow> int \<Rightarrow> int \<Rightarrow> bool" where
  "in_daily start en tod \<longleftrightarrow>
     (if start < en then start \<le> tod \<and> tod \<le> en else start \<le> tod \<or> tod \<le> en)"

definition in_weekly :: "schedule \<Rightarrow> int \<Rightarrow> int \<Rightarrow> bool" where
  "in_weekly sch tod day \<longleftrightarrow>
     (let sd = sch_start_day sch; ed = sch_end_day sch in
      if sd = ed then (if day \<noteq> sd then True else in_daily (sch_start sch) (sch_end sch) tod)
      else if sd < ed \<and> (day < sd \<or> ed < day) then False
      else if \<not> sd < ed \<and> (day < sd \<and> ed < day) then False
      else if day = sd \<and> tod < sch_start sch then False
      else if day = ed \<and> sch_end sch < tod then False
      else True)"

definition is_in_range :: "calendars \<Rightarrow> schedule \<Rightarrow> time \<Rightarrow> bool" where
  "is_in_range cals sch now \<longleftrightarrow>
     (if sch_non_stop sch then True
      else case sch_parts cals sch now of (tod, wd, _) \<Rightarrow>
        if sch_start_day sch < 0 then in_daily (sch_start sch) (sch_end sch) tod
        else in_weekly sch tod wd)"

text \<open>\<open>(t1 - t2).num_seconds()\<close> rounds towards zero.\<close>

definition num_seconds :: "int \<Rightarrow> int" where
  "num_seconds ns = (if 0 \<le> ns then ns div 10 ^ 9 else - ((- ns) div 10 ^ 9))"

definition same_daily :: "calendars \<Rightarrow> schedule \<Rightarrow> time \<Rightarrow> time \<Rightarrow> bool" where
  "same_daily cals sch t1 t2 \<longleftrightarrow>
     (if sch_start sch \<le> sch_end sch
      then snd (snd (sch_parts cals sch t1)) = snd (snd (sch_parts cals sch t2))
      else (let session_length = 86400 - (sch_start sch - sch_end sch);
                diff = num_seconds (t1 - t2)
            in if 0 < diff then
                 (let delta = fst (sch_parts cals sch t2) - sch_start sch;
                      delta' = (if delta < 0 then 86400 - \<bar>delta\<bar> else delta)
                  in diff < session_length - delta')
               else - diff < session_length))"

definition range_start_date :: "calendars \<Rightarrow> schedule \<Rightarrow> time \<Rightarrow> int" where
  "range_start_date cals sch now =
     (case sch_parts cals sch now of (tod, wd, jul) \<Rightarrow>
        let sd = sch_start_day sch in
        if sd < wd then jul - wd + sd
        else if wd < sd then jul - wd + sd - 7
        else if sch_start sch \<le> tod then jul
        else jul - 7)"

definition same_weekly_sameday :: "calendars \<Rightarrow> schedule \<Rightarrow> time \<Rightarrow> time \<Rightarrow> bool" where
  "same_weekly_sameday cals sch t1 t2 \<longleftrightarrow>
     (case sch_parts cals sch t1 of (tod1, wd1, day1) \<Rightarrow>
      case sch_parts cals sch t2 of (tod2, _, day2) \<Rightarrow>
        let sd = sch_start_day sch in
        if day1 = day2 \<and> sd = wd1 then
          (tod1 \<le> sch_end sch \<and> tod2 \<le> sch_end sch) \<or> (sch_start sch \<le> tod1 \<and> sch_start sch \<le> tod2)
        else if day1 = day2 \<and> sd \<noteq> wd1 then True
        else if 7 < \<bar>day1 - day2\<bar> then False
        else if \<bar>day1 - day2\<bar> = 7 then
          (if wd1 \<noteq> sd then False
           else (let p = (if day1 < day2 then (tod1, tod2) else (tod2, tod1))
                 in sch_start sch \<le> fst p \<and> snd p \<le> sch_end sch))
        else range_start_date cals sch t1 = range_start_date cals sch t2)"

definition is_in_same_range :: "calendars \<Rightarrow> schedule \<Rightarrow> time \<Rightarrow> time \<Rightarrow> bool" where
  "is_in_same_range cals sch now other \<longleftrightarrow>
     (if sch_non_stop sch then True
      else if \<not> is_in_range cals sch now \<or> \<not> is_in_range cals sch other then False
      else if now = other then True
      else if sch_start_day sch < 0 then same_daily cals sch now other
      else if sch_start_day sch \<noteq> sch_end_day sch
        then range_start_date cals sch now = range_start_date cals sch other
      else same_weekly_sameday cals sch now other)"

section \<open>Specification\<close>

text \<open>
  A zone with a fixed offset from UTC: the day number and the time of day count the seconds of
  the instant, and weekdays follow day numbers (day one of the common era was a Monday).
\<close>

definition local_secs :: "calendar \<Rightarrow> time \<Rightarrow> int" where
  "local_secs c t = cal_day c t * 86400 + cal_tod c t"

definition calendar_ok :: "int \<Rightarrow> calendar \<Rightarrow> bool" where
  "calendar_ok offset c \<longleftrightarrow>
     (\<forall>t. 0 \<le> cal_tod c t \<and> cal_tod c t < 86400 \<and> cal_weekday c t = cal_day c t mod 7 + 1
        \<and> local_secs c t = t div 10 ^ 9 + offset)"

definition utc_calendar :: calendar where
  "utc_calendar =
     \<lparr>cal_tod = (\<lambda>t. t div 10 ^ 9 mod 86400),
      cal_weekday = (\<lambda>t. (t div 10 ^ 9 div 86400 + 719163) mod 7 + 1),
      cal_day = (\<lambda>t. t div 10 ^ 9 div 86400 + 719163)\<rparr>"

lemma utc_calendar_ok: "calendar_ok (719163 * 86400) utc_calendar"
  by (simp add: calendar_ok_def utc_calendar_def local_secs_def distrib_right)

definition tod_ok :: "int \<Rightarrow> bool" where
  "tod_ok s \<longleftrightarrow> 0 \<le> s \<and> s < 86400"

text \<open>
  The occurrences of a weekly window, numbered by week, and of a daily one, by day. A daily window
  that ends when it starts is open all day, and its occurrences are the calendar days.
\<close>

definition week_start :: "schedule \<Rightarrow> int \<Rightarrow> int" where
  "week_start sch k = (7 * k + sch_start_day sch - 1) * 86400 + sch_start sch"

definition week_end :: "schedule \<Rightarrow> int \<Rightarrow> int" where
  "week_end sch k =
     (7 * k + sch_end_day sch - 1 + (if sch_start_day sch < sch_end_day sch then 0 else 7)) * 86400 + sch_end sch"

definition day_start :: "schedule \<Rightarrow> int \<Rightarrow> int" where
  "day_start sch k = k * 86400 + (if sch_start sch = sch_end sch then 0 else sch_start sch)"

definition day_end :: "schedule \<Rightarrow> int \<Rightarrow> int" where
  "day_end sch k =
     (if sch_start sch = sch_end sch then k * 86400 + 86399
      else if sch_start sch < sch_end sch then k * 86400 + sch_end sch
      else (k + 1) * 86400 + sch_end sch)"

definition weekly_window :: "schedule \<Rightarrow> bool" where
  "weekly_window sch \<longleftrightarrow>
     \<not> sch_non_stop sch \<and> 1 \<le> sch_start_day sch \<and> sch_start_day sch \<le> 7
     \<and> 1 \<le> sch_end_day sch \<and> sch_end_day sch \<le> 7
     \<and> tod_ok (sch_start sch) \<and> tod_ok (sch_end sch)"

definition daily_window :: "schedule \<Rightarrow> bool" where
  "daily_window sch \<longleftrightarrow>
     \<not> sch_non_stop sch \<and> sch_start_day sch < 0 \<and> tod_ok (sch_start sch) \<and> tod_ok (sch_end sch)"

section \<open>Weekly windows\<close>

lemma lex_secs:
  fixes a b x y :: int
  assumes "0 \<le> x" "x < 86400" "0 \<le> y" "y < 86400"
  shows "a * 86400 + x \<le> b * 86400 + y \<longleftrightarrow> a < b \<or> (a = b \<and> x \<le> y)"
proof (cases a b rule: linorder_cases)
  case less
  then have "a + 1 \<le> b" by simp
  then have "(a + 1) * 86400 \<le> b * 86400" by simp
  then show ?thesis using assms less by simp
next
  case greater
  then have "b + 1 \<le> a" by simp
  then have "(b + 1) * 86400 \<le> a * 86400" by simp
  then show ?thesis using assms greater by simp
qed simp

lemma lex_secs_eq:
  fixes a b x y :: int
  assumes "a * 86400 + x = b * 86400 + y" "0 \<le> x" "x < 86400" "0 \<le> y" "y < 86400"
  shows "x = y"
proof -
  have "a < b \<or> (a = b \<and> x \<le> y)" using assms(1) lex_secs [OF assms(2-5), of a b] by simp
  moreover have "b < a \<or> (b = a \<and> y \<le> x)" using assms(1) lex_secs [OF assms(4,5,2,3), of b a] by simp
  ultimately show ?thesis by auto
qed

definition occ_week :: "calendars \<Rightarrow> schedule \<Rightarrow> time \<Rightarrow> int \<Rightarrow> bool" where
  "occ_week cals sch t k \<longleftrightarrow>
     week_start sch k \<le> local_secs (cals (sch_use_local sch)) t
     \<and> local_secs (cals (sch_use_local sch)) t \<le> week_end sch k"

text \<open>The range tests on the day number, in weeks of seven days, and the second of the day.\<close>

lemma week_readings:
  assumes "calendar_ok ofs (cals (sch_use_local sch))" and "weekly_window sch"
    and "sch_start_day sch \<noteq> sch_end_day sch"
    and "cal_day (cals (sch_use_local sch)) t = 7 * q + r" and "0 \<le> r" and "r < 7" and "cal_tod (cals (sch_use_local sch)) t = T"
    and "sch_start_day sch = sd" and "sch_end_day sch = ed"
  shows "occ_week cals sch t k \<longleftrightarrow>
      (7 * k + sd - 1 < 7 * q + r \<or> (7 * k + sd - 1 = 7 * q + r \<and> sch_start sch \<le> T))
      \<and> (7 * q + r < 7 * k + ed - 1 + (if sd < ed then 0 else 7)
         \<or> (7 * q + r = 7 * k + ed - 1 + (if sd < ed then 0 else 7) \<and> T \<le> sch_end sch))"
    and "is_in_range cals sch t \<longleftrightarrow>
      (if sd < ed then sd \<le> r + 1 \<and> r + 1 \<le> ed else sd \<le> r + 1 \<or> r + 1 \<le> ed)
      \<and> (r + 1 = sd \<longrightarrow> sch_start sch \<le> T) \<and> (r + 1 = ed \<longrightarrow> T \<le> sch_end sch)"
    and "range_start_date cals sch t =
      (if sd < r + 1 then 7 * q + sd - 1 else if r + 1 < sd then 7 * q + sd - 8
       else if sch_start sch \<le> T then 7 * q + r else 7 * q + r - 7)"
proof -
  let ?c = "cals (sch_use_local sch)"
  have cal: "0 \<le> T" "T < 86400" "cal_weekday ?c t = r + 1"
    using assms(1,4-7) by (auto simp: calendar_ok_def)
  have w: "\<not> sch_non_stop sch" "1 \<le> sd" "sd \<le> 7" "1 \<le> ed" "ed \<le> 7" "sd \<noteq> ed"
    "0 \<le> sch_start sch" "sch_start sch < 86400" "0 \<le> sch_end sch" "sch_end sch < 86400"
    using assms(2,3,8,9) by (auto simp: weekly_window_def tod_ok_def)
  show "occ_week cals sch t k \<longleftrightarrow>
      (7 * k + sd - 1 < 7 * q + r \<or> (7 * k + sd - 1 = 7 * q + r \<and> sch_start sch \<le> T))
      \<and> (7 * q + r < 7 * k + ed - 1 + (if sd < ed then 0 else 7)
         \<or> (7 * q + r = 7 * k + ed - 1 + (if sd < ed then 0 else 7) \<and> T \<le> sch_end sch))"
    unfolding occ_week_def week_start_def week_end_def local_secs_def assms(4,7-9)
    using cal w by (subst (1 2) lex_secs) auto
  have "is_in_range cals sch t \<longleftrightarrow> in_weekly sch T (r + 1)"
    using w by (simp add: is_in_range_def sch_parts_def cal assms(7,8) Let_def)
  moreover have "in_weekly sch T (r + 1) \<longleftrightarrow>
      (if sd < ed then sd \<le> r + 1 \<and> r + 1 \<le> ed else sd \<le> r + 1 \<or> r + 1 \<le> ed)
      \<and> (r + 1 = sd \<longrightarrow> sch_start sch \<le> T) \<and> (r + 1 = ed \<longrightarrow> T \<le> sch_end sch)"
    using w unfolding in_weekly_def Let_def assms(8,9) by auto
  ultimately show "is_in_range cals sch t \<longleftrightarrow>
      (if sd < ed then sd \<le> r + 1 \<and> r + 1 \<le> ed else sd \<le> r + 1 \<or> r + 1 \<le> ed)
      \<and> (r + 1 = sd \<longrightarrow> sch_start sch \<le> T) \<and> (r + 1 = ed \<longrightarrow> T \<le> sch_end sch)" by simp
  show "range_start_date cals sch t =
      (if sd < r + 1 then 7 * q + sd - 1 else if r + 1 < sd then 7 * q + sd - 8
       else if sch_start sch \<le> T then 7 * q + r else 7 * q + r - 7)"
    by (simp add: range_start_date_def sch_parts_def Let_def cal assms(4,7,8))
qed

lemma week_of_day:
  fixes q r k sd ed :: int
  assumes "0 \<le> r" "r < 7" "1 \<le> sd" "ed \<le> 7"
    and lo: "7 * k + sd - 1 \<le> 7 * q + r" and hi: "7 * q + r \<le> 7 * k + ed - 1 + (if sd < ed then 0 else 7)"
  shows "k = q \<or> k = q - 1 \<and> \<not> sd < ed"
proof (cases "sd < ed")
  case True
  with assms have "k \<le> q" "q \<le> k" by auto
  then show ?thesis by simp
next
  case False
  with assms have "k \<le> q" "q - 1 \<le> k" by auto
  with False show ?thesis by linarith
qed

lemma week_range:
  assumes "calendar_ok ofs (cals (sch_use_local sch))" and "weekly_window sch"
    and "sch_start_day sch \<noteq> sch_end_day sch"
  shows "is_in_range cals sch t \<Longrightarrow> \<exists>k. occ_week cals sch t k"
    and "occ_week cals sch t k \<Longrightarrow>
      is_in_range cals sch t \<and> range_start_date cals sch t = 7 * k + sch_start_day sch - 1"
proof -
  define q where "q = cal_day (cals (sch_use_local sch)) t div 7"
  define r where "r = cal_day (cals (sch_use_local sch)) t mod 7"
  define sd where "sd = sch_start_day sch"
  define ed where "ed = sch_end_day sch"
  have D: "cal_day (cals (sch_use_local sch)) t = 7 * q + r" "0 \<le> r" "r < 7" by (simp_all add: q_def r_def)
  have w: "1 \<le> sd" "sd \<le> 7" "1 \<le> ed" "ed \<le> 7" "sd \<noteq> ed"
    using assms(2,3) by (auto simp: weekly_window_def sd_def ed_def)
  note occ = week_readings(1) [where cals = cals and t = t, OF assms D refl sd_def [symmetric] ed_def [symmetric]]
    and rng = week_readings(2) [where cals = cals and t = t, OF assms D refl sd_def [symmetric] ed_def [symmetric]]
    and rsd = week_readings(3) [where cals = cals and t = t, OF assms D refl sd_def [symmetric] ed_def [symmetric]]
  show "\<exists>k. occ_week cals sch t k" if "is_in_range cals sch t"
  proof (intro exI)
    show "occ_week cals sch t (if sd \<le> r + 1 then q else q - 1)"
      using that D(2,3) w unfolding occ rng by presburger
  qed
  show "is_in_range cals sch t \<and> range_start_date cals sch t = 7 * k + sch_start_day sch - 1"
    if "occ_week cals sch t k"
  proof -
    have "k = q \<or> k = q - 1 \<and> \<not> sd < ed"
      using that [unfolded occ] by (intro week_of_day [OF D(2,3) w(1,4)]) auto
    then show ?thesis
    proof
      assume k: "k = q"
      show ?thesis using that D(2,3) w unfolding occ rng rsd sd_def [symmetric] k by (cases "sd < ed") auto
    next
      assume k: "k = q - 1 \<and> \<not> sd < ed"
      then have k1: "k = q - 1" and k2: "(sd < ed) = False" by simp_all
      have "ed < sd" using k w by simp
      with that D(2,3) w show ?thesis unfolding occ rng rsd sd_def [symmetric] k1 k2 if_False by auto
    qed
  qed
qed

lemma week_same_range:
  assumes "calendar_ok ofs (cals (sch_use_local sch))" and "weekly_window sch"
    and "sch_start_day sch \<noteq> sch_end_day sch"
  shows "(is_in_range cals sch now \<longleftrightarrow> (\<exists>k. occ_week cals sch now k))
    \<and> (is_in_same_range cals sch now other \<longleftrightarrow> (\<exists>k. occ_week cals sch now k \<and> occ_week cals sch other k))"
proof -
  note wr = week_range [where cals = cals and sch = sch, OF assms]
  have flags: "\<not> sch_non_stop sch" "\<not> sch_start_day sch < 0" "sch_start_day sch \<noteq> sch_end_day sch"
    using assms(2,3) by (auto simp: weekly_window_def)
  have "is_in_same_range cals sch now other \<longleftrightarrow>
      is_in_range cals sch now \<and> is_in_range cals sch other
      \<and> range_start_date cals sch now = range_start_date cals sch other"
    using flags by (auto simp: is_in_same_range_def)
  also have "\<dots> \<longleftrightarrow> (\<exists>k. occ_week cals sch now k \<and> occ_week cals sch other k)"
    using wr by (metis add_diff_cancel_right' diff_add_cancel mult_cancel_left zero_neq_numeral add_right_cancel)
  finally show ?thesis using wr by blast
qed

section \<open>Weekly windows that start and end on one day\<close>

text \<open>
  The week of an instant runs from the start day and time to the next. The second in which the
  week changes belongs to two occurrences when the window ends at the time it starts.
\<close>

definition in_week :: "calendars \<Rightarrow> schedule \<Rightarrow> time \<Rightarrow> int \<Rightarrow> bool" where
  "in_week cals sch t k \<longleftrightarrow>
     week_start sch k \<le> local_secs (cals (sch_use_local sch)) t
     \<and> local_secs (cals (sch_use_local sch)) t < week_start sch (k + 1)"

definition on_start_day :: "calendars \<Rightarrow> schedule \<Rightarrow> time \<Rightarrow> bool" where
  "on_start_day cals sch t \<longleftrightarrow> cal_weekday (cals (sch_use_local sch)) t = sch_start_day sch"

definition at_changeover :: "calendars \<Rightarrow> schedule \<Rightarrow> time \<Rightarrow> bool" where
  "at_changeover cals sch t \<longleftrightarrow>
     on_start_day cals sch t \<and> cal_tod (cals (sch_use_local sch)) t = sch_start sch"

lemma mod_seven_step:
  fixes x q :: int
  assumes "0 \<le> x" "x < 14"
  shows "(7 * q + x) mod 7 = (if x < 7 then x else x - 7)"
proof -
  have "(7 * q + x) mod 7 = x mod 7" by simp
  moreover have "x mod 7 = (if x < 7 then x else x - 7)" using assms by presburger
  ultimately show ?thesis by simp
qed

lemma sameday_occ:
  fixes q r k :: int
  assumes "0 \<le> r" "r < 7"
  shows "(7 * k < 7 * q + r \<or> (7 * k = 7 * q + r \<and> a)) \<and> (7 * q + r < 7 * k + 7 \<or> (7 * q + r = 7 * k + 7 \<and> b))
    \<longleftrightarrow> (k = q \<and> (r = 0 \<longrightarrow> a)) \<or> (k = q - 1 \<and> r = 0 \<and> b)"
proof -
  have "7 * k < 7 * q + r \<longleftrightarrow> k < q \<or> (k = q \<and> r \<noteq> 0)" "7 * k = 7 * q + r \<longleftrightarrow> k = q \<and> r = 0"
    "7 * q + r < 7 * k + 7 \<longleftrightarrow> q \<le> k" "7 * q + r = 7 * k + 7 \<longleftrightarrow> q = k + 1 \<and> r = 0"
    using assms by presburger+
  then show ?thesis by auto
qed

text \<open>Such a window is read on the day number counted from the start day.\<close>

lemma sameday_readings:
  assumes "calendar_ok ofs (cals (sch_use_local sch))" and "weekly_window sch"
    and "sch_end_day sch = sch_start_day sch"
    and "cal_day (cals (sch_use_local sch)) t = 7 * q + r + sch_start_day sch - 1" and "0 \<le> r" and "r < 7"
    and "cal_tod (cals (sch_use_local sch)) t = T"
  shows "on_start_day cals sch t \<longleftrightarrow> r = 0"
    and "occ_week cals sch t k \<longleftrightarrow>
      (k = q \<and> (r = 0 \<longrightarrow> sch_start sch \<le> T)) \<or> (k = q - 1 \<and> r = 0 \<and> T \<le> sch_end sch)"
    and "in_week cals sch t k \<longleftrightarrow> k = (if r = 0 \<and> T < sch_start sch then q - 1 else q)"
    and "is_in_range cals sch t \<longleftrightarrow> (r = 0 \<longrightarrow> in_daily (sch_start sch) (sch_end sch) T)"
    and "range_start_date cals sch t =
      7 * (if r = 0 \<and> T < sch_start sch then q - 1 else q) + sch_start_day sch - 1"
proof -
  let ?c = "cals (sch_use_local sch)"
  have w: "\<not> sch_non_stop sch" "1 \<le> sch_start_day sch" "sch_start_day sch \<le> 7"
    "0 \<le> sch_start sch" "sch_start sch < 86400" "0 \<le> sch_end sch" "sch_end sch < 86400"
    using assms(2) by (auto simp: weekly_window_def tod_ok_def)
  have T: "0 \<le> T" "T < 86400" using assms(1,7) by (auto simp: calendar_ok_def)
  have "(7 * q + (r + sch_start_day sch - 1)) mod 7
      = (if r + sch_start_day sch - 1 < 7 then r + sch_start_day sch - 1 else r + sch_start_day sch - 1 - 7)"
    by (rule mod_seven_step) (use assms(5,6) w(2,3) in simp_all)
  moreover have "cal_weekday ?c t = (7 * q + (r + sch_start_day sch - 1)) mod 7 + 1"
    using assms(1,4) by (simp add: calendar_ok_def add.assoc add_diff_eq)
  ultimately have wd: "cal_weekday ?c t =
      (if r + sch_start_day sch \<le> 7 then r + sch_start_day sch else r + sch_start_day sch - 7)"
    by simp
  show on: "on_start_day cals sch t \<longleftrightarrow> r = 0"
    using assms(5,6) w(2,3) by (auto simp: on_start_day_def wd)
  show "occ_week cals sch t k \<longleftrightarrow>
      (k = q \<and> (r = 0 \<longrightarrow> sch_start sch \<le> T)) \<or> (k = q - 1 \<and> r = 0 \<and> T \<le> sch_end sch)"
  proof -
    have "occ_week cals sch t k \<longleftrightarrow>
        (7 * k < 7 * q + r \<or> (7 * k = 7 * q + r \<and> sch_start sch \<le> T))
        \<and> (7 * q + r < 7 * k + 7 \<or> (7 * q + r = 7 * k + 7 \<and> T \<le> sch_end sch))"
      unfolding occ_week_def week_start_def week_end_def local_secs_def assms(3,4,7)
      using T w by (subst (1 2) lex_secs) auto
    then show ?thesis using sameday_occ [OF assms(5,6)] by simp
  qed
  show "in_week cals sch t k \<longleftrightarrow> k = (if r = 0 \<and> T < sch_start sch then q - 1 else q)"
    unfolding in_week_def week_start_def local_secs_def assms(4,7) not_le [symmetric]
    using T w assms(5,6) by (subst (1 2) lex_secs) auto
  show "is_in_range cals sch t \<longleftrightarrow> (r = 0 \<longrightarrow> in_daily (sch_start sch) (sch_end sch) T)"
    using w on by (simp add: is_in_range_def sch_parts_def assms(3,7) Let_def in_weekly_def on_start_day_def)
  show "range_start_date cals sch t =
      7 * (if r = 0 \<and> T < sch_start sch then q - 1 else q) + sch_start_day sch - 1"
    using assms(5,6) w(2,3) by (auto simp: range_start_date_def sch_parts_def Let_def wd assms(4,7))
qed

lemma sameday_split:
  fixes D sd :: int
  obtains q r where "D = 7 * q + r + sd - 1" "0 \<le> r" "r < 7"
  by (rule that [of "(D - sd + 1) div 7" "(D - sd + 1) mod 7"]) simp_all

text \<open>Two days of one week, or of two that touch, on day numbers counted from the start day.\<close>

lemma sameday_far:
  fixes q r q' r' :: int
  assumes "0 \<le> r" "r < 7" "0 \<le> r'" "r' < 7"
  shows "7 * q + r = 7 * q' + r' \<longleftrightarrow> q = q' \<and> r = r'"
    and "\<bar>7 * q + r - (7 * q' + r')\<bar> = 7 \<longleftrightarrow> r = r' \<and> (q = q' + 1 \<or> q' = q + 1)"
    and "7 < \<bar>7 * q + r - (7 * q' + r')\<bar> \<longleftrightarrow>
      q' + 1 < q \<or> q + 1 < q' \<or> (q = q' + 1 \<and> r' < r) \<or> (q' = q + 1 \<and> r < r')"
proof -
  consider "q = q'" | "q = q' + 1" | "q' = q + 1" | "q' + 2 \<le> q" | "q + 2 \<le> q'" by linarith
  note cases = this
  show "7 * q + r = 7 * q' + r' \<longleftrightarrow> q = q' \<and> r = r'"
    by (rule cases) (use assms in auto)
  show "\<bar>7 * q + r - (7 * q' + r')\<bar> = 7 \<longleftrightarrow> r = r' \<and> (q = q' + 1 \<or> q' = q + 1)"
    by (rule cases) (use assms in \<open>auto simp: abs_if\<close>)
  show "7 < \<bar>7 * q + r - (7 * q' + r')\<bar> \<longleftrightarrow>
      q' + 1 < q \<or> q + 1 < q' \<or> (q = q' + 1 \<and> r' < r) \<or> (q' = q + 1 \<and> r < r')"
    by (rule cases) (use assms in \<open>auto simp: abs_if\<close>)
qed

text \<open>The two outcomes of the same-day comparison, on day numbers and the two tests of the time of day.\<close>

lemma sameday_weeks_open:
  fixes q r q' r' sd :: int
  assumes "0 \<le> r" "r < 7" "0 \<le> r'" "r' < 7"
    and "r = 0 \<Longrightarrow> e \<and> s" and "r' = 0 \<Longrightarrow> e' \<and> s'"
  shows "(if q = q' \<and> r = r' \<and> r = 0 then (e \<and> e') \<or> (s \<and> s')
       else if q = q' \<and> r = r' then True
       else if q' + 1 < q \<or> q + 1 < q' \<or> (q = q' + 1 \<and> r' < r) \<or> (q' = q + 1 \<and> r < r') then False
       else if r = r' \<and> (q = q' + 1 \<or> q' = q + 1) then
         (if r \<noteq> 0 then False else if q < q' then s \<and> e' else s' \<and> e)
       else 7 * q + sd - 1 = 7 * q' + sd - 1) \<longleftrightarrow>
      q = q' \<or> (r = 0 \<and> r' = 0 \<and> (q = q' + 1 \<or> q' = q + 1))"
proof (cases "r = 0")
  case True
  with assms show ?thesis by (cases "r' = 0") auto
next
  case False
  with assms show ?thesis by (cases "q = q'") auto
qed

lemma sameday_weeks_closed:
  fixes q r q' r' sd :: int
  assumes "0 \<le> r" "r < 7" "0 \<le> r'" "r' < 7"
    and "r = 0 \<Longrightarrow> (e \<longleftrightarrow> b) \<and> (s \<longleftrightarrow> \<not> b)" and "r' = 0 \<Longrightarrow> (e' \<longleftrightarrow> b') \<and> (s' \<longleftrightarrow> \<not> b')"
  shows "(if q = q' \<and> r = r' \<and> r = 0 then (e \<and> e') \<or> (s \<and> s')
       else if q = q' \<and> r = r' then True
       else if q' + 1 < q \<or> q + 1 < q' \<or> (q = q' + 1 \<and> r' < r) \<or> (q' = q + 1 \<and> r < r') then False
       else if r = r' \<and> (q = q' + 1 \<or> q' = q + 1) then
         (if r \<noteq> 0 then False else if q < q' then s \<and> e' else s' \<and> e)
       else 7 * (if r = 0 \<and> b then q - 1 else q) + sd - 1 = 7 * (if r' = 0 \<and> b' then q' - 1 else q') + sd - 1) \<longleftrightarrow>
      (if r = 0 \<and> b then q - 1 else q) = (if r' = 0 \<and> b' then q' - 1 else q')"
proof (cases "r = 0")
  case True
  with assms show ?thesis by (cases "r' = 0"; cases b; cases b'; simp; arith)
next
  case False
  with assms show ?thesis by (cases "r' = 0"; cases b'; simp; arith)
qed

lemma same_weekly_sameday_readings:
  assumes "calendar_ok ofs (cals (sch_use_local sch))" and "weekly_window sch"
    and "sch_end_day sch = sch_start_day sch"
    and "cal_day (cals (sch_use_local sch)) t = 7 * q + r + sch_start_day sch - 1" and "0 \<le> r" and "r < 7"
    and "cal_tod (cals (sch_use_local sch)) t = T"
    and "cal_day (cals (sch_use_local sch)) t' = 7 * q' + r' + sch_start_day sch - 1" and "0 \<le> r'" and "r' < 7"
    and "cal_tod (cals (sch_use_local sch)) t' = T'"
    and "is_in_range cals sch t" and "is_in_range cals sch t'"
  shows "sch_start sch < sch_end sch \<Longrightarrow> same_weekly_sameday cals sch t t' \<longleftrightarrow>
      q = q' \<or> (r = 0 \<and> r' = 0 \<and> (q = q' + 1 \<or> q' = q + 1))"
    and "sch_end sch \<le> sch_start sch \<Longrightarrow>
      sch_start sch = sch_end sch \<longrightarrow> (r = 0 \<longrightarrow> T \<noteq> sch_start sch) \<and> (r' = 0 \<longrightarrow> T' \<noteq> sch_start sch) \<Longrightarrow>
      same_weekly_sameday cals sch t t' \<longleftrightarrow>
      (if r = 0 \<and> T < sch_start sch then q - 1 else q) = (if r' = 0 \<and> T' < sch_start sch then q' - 1 else q')"
proof -
  note rd = sameday_readings [where cals = cals and sch = sch, OF assms(1-3) assms(4-7)]
  note rd' = sameday_readings [where cals = cals and sch = sch, OF assms(1-3) assms(8-11)]
  note far = sameday_far [OF assms(5,6,9,10), of q q']
  have sw: "same_weekly_sameday cals sch t t' \<longleftrightarrow>
      (if q = q' \<and> r = r' \<and> r = 0 then (T \<le> sch_end sch \<and> T' \<le> sch_end sch) \<or> (sch_start sch \<le> T \<and> sch_start sch \<le> T')
       else if q = q' \<and> r = r' then True
       else if 7 < \<bar>7 * q + r - (7 * q' + r')\<bar> then False
       else if r = r' \<and> (q = q' + 1 \<or> q' = q + 1) then
         (if r \<noteq> 0 then False
          else if q < q' then sch_start sch \<le> T \<and> T' \<le> sch_end sch else sch_start sch \<le> T' \<and> T \<le> sch_end sch)
       else range_start_date cals sch t = range_start_date cals sch t')"
  proof -
    have e: "7 * q + r + sch_start_day sch - 1 = 7 * q' + r' + sch_start_day sch - 1 \<longleftrightarrow> q = q' \<and> r = r'"
      "7 * q + r + sch_start_day sch - 1 - (7 * q' + r' + sch_start_day sch - 1) = 7 * q + r - (7 * q' + r')"
      "7 * q + r + sch_start_day sch - 1 < 7 * q' + r' + sch_start_day sch - 1 \<longleftrightarrow> 7 * q + r < 7 * q' + r'"
      using far(1) by simp_all
    have wd: "sch_start_day sch = cal_weekday (cals (sch_use_local sch)) t \<longleftrightarrow> r = 0"
      "cal_weekday (cals (sch_use_local sch)) t \<noteq> sch_start_day sch \<longleftrightarrow> r \<noteq> 0"
      using rd(1) by (auto simp: on_start_day_def)
    show ?thesis
      unfolding same_weekly_sameday_def sch_parts_def Let_def prod.case assms(4,7,8,11) e far(2) wd fst_conv snd_conv
      by auto
  qed
  have rng: "r = 0 \<longrightarrow> in_daily (sch_start sch) (sch_end sch) T" "r' = 0 \<longrightarrow> in_daily (sch_start sch) (sch_end sch) T'"
    using assms(12,13) rd(4) rd'(4) by simp_all
  show "same_weekly_sameday cals sch t t' \<longleftrightarrow> q = q' \<or> (r = 0 \<and> r' = 0 \<and> (q = q' + 1 \<or> q' = q + 1))"
    if "sch_start sch < sch_end sch"
  proof -
    have "\<not> (r = 0 \<and> T < sch_start sch)" "\<not> (r' = 0 \<and> T' < sch_start sch)"
      using rng that by (auto simp: in_daily_def)
    moreover have "r = 0 \<Longrightarrow> T \<le> sch_end sch \<and> sch_start sch \<le> T" "r' = 0 \<Longrightarrow> T' \<le> sch_end sch \<and> sch_start sch \<le> T'"
      using rng that by (auto simp: in_daily_def)
    ultimately show ?thesis
      unfolding sw far(3) rd(5) rd'(5) using assms(5,6,9,10) by (simp only: if_False) (rule sameday_weeks_open)
  qed
  show "same_weekly_sameday cals sch t t' \<longleftrightarrow>
      (if r = 0 \<and> T < sch_start sch then q - 1 else q) = (if r' = 0 \<and> T' < sch_start sch then q' - 1 else q')"
    if "sch_end sch \<le> sch_start sch"
      and "sch_start sch = sch_end sch \<longrightarrow> (r = 0 \<longrightarrow> T \<noteq> sch_start sch) \<and> (r' = 0 \<longrightarrow> T' \<noteq> sch_start sch)"
  proof -
    have "r = 0 \<Longrightarrow> (T \<le> sch_end sch \<longleftrightarrow> T < sch_start sch) \<and> (sch_start sch \<le> T \<longleftrightarrow> \<not> T < sch_start sch)"
      "r' = 0 \<Longrightarrow> (T' \<le> sch_end sch \<longleftrightarrow> T' < sch_start sch) \<and> (sch_start sch \<le> T' \<longleftrightarrow> \<not> T' < sch_start sch)"
      using rng that by (auto simp: in_daily_def)
    then show ?thesis
      unfolding sw far(3) rd(5) rd'(5) using assms(5,6,9,10) by (intro sameday_weeks_closed)
  qed
qed

lemma sameday_occ_in_range:
  fixes q r T S E k :: int
  assumes "E \<le> S" and "S = E \<Longrightarrow> r = 0 \<Longrightarrow> T \<noteq> S"
  shows "(k = q \<and> (r = 0 \<longrightarrow> S \<le> T)) \<or> (k = q - 1 \<and> r = 0 \<and> T \<le> E) \<longleftrightarrow>
    (r = 0 \<longrightarrow> in_daily S E T) \<and> k = (if r = 0 \<and> T < S then q - 1 else q)"
  using assms by (cases "r = 0"; cases "T < S"; auto simp: in_daily_def)

lemma same_index:
  assumes "\<And>k. P k \<longleftrightarrow> A \<and> k = x" and "\<And>k. Q k \<longleftrightarrow> B \<and> k = y"
  shows "A \<and> B \<and> x = y \<longleftrightarrow> (\<exists>k. P k \<and> Q k)"
  using assms by auto

lemma sameday_same_range:
  assumes "calendar_ok ofs (cals (sch_use_local sch))" and "weekly_window sch"
    and "sch_end_day sch = sch_start_day sch"
  shows "sch_end sch \<le> sch_start sch \<Longrightarrow> is_in_range cals sch now \<longleftrightarrow> (\<exists>k. occ_week cals sch now k)"
    and "sch_end sch \<le> sch_start sch \<Longrightarrow>
      sch_start sch = sch_end sch \<longrightarrow> \<not> at_changeover cals sch now \<and> \<not> at_changeover cals sch other \<Longrightarrow>
      is_in_same_range cals sch now other \<longleftrightarrow> (\<exists>k. occ_week cals sch now k \<and> occ_week cals sch other k)"
    and "sch_start sch < sch_end sch \<Longrightarrow> is_in_range cals sch now \<longleftrightarrow>
      (on_start_day cals sch now \<longrightarrow> in_daily (sch_start sch) (sch_end sch) (cal_tod (cals (sch_use_local sch)) now))"
    and "sch_start sch < sch_end sch \<Longrightarrow> is_in_same_range cals sch now other \<longleftrightarrow>
      is_in_range cals sch now \<and> is_in_range cals sch other \<and>
      (\<exists>k l. in_week cals sch now k \<and> in_week cals sch other l \<and>
        (k = l \<or> (\<bar>k - l\<bar> = 1 \<and> on_start_day cals sch now \<and> on_start_day cals sch other)))"
proof -
  let ?c = "cals (sch_use_local sch)"
  obtain q r where d: "cal_day ?c now = 7 * q + r + sch_start_day sch - 1" "0 \<le> r" "r < 7"
    by (rule sameday_split)
  obtain q' r' where d': "cal_day ?c other = 7 * q' + r' + sch_start_day sch - 1" "0 \<le> r'" "r' < 7"
    by (rule sameday_split)
  define T where "T = cal_tod ?c now"
  define T' where "T' = cal_tod ?c other"
  note rd = sameday_readings [where cals = cals and sch = sch, OF assms d T_def [symmetric]]
  note rd' = sameday_readings [where cals = cals and sch = sch, OF assms d' T'_def [symmetric]]
  note sw = same_weekly_sameday_readings
    [where cals = cals and sch = sch, OF assms d T_def [symmetric] d' T'_def [symmetric]]
  have flags: "\<not> sch_non_stop sch" "\<not> sch_start_day sch < 0" using assms(2) by (auto simp: weekly_window_def)
  have same: "is_in_same_range cals sch now other \<longleftrightarrow>
      is_in_range cals sch now \<and> is_in_range cals sch other
      \<and> (now = other \<or> same_weekly_sameday cals sch now other)"
    using flags assms(3) by (auto simp: is_in_same_range_def)
  have eq: "now = other \<Longrightarrow> q = q' \<and> r = r' \<and> T = T'"
    using d d' sameday_far(1) [of r r' q q'] by (auto simp: T_def T'_def)
  show r1: "is_in_range cals sch now \<longleftrightarrow> (\<exists>k. occ_week cals sch now k)" if "sch_end sch \<le> sch_start sch"
    using that unfolding rd(2,4) in_daily_def by auto
  show "is_in_same_range cals sch now other \<longleftrightarrow> (\<exists>k. occ_week cals sch now k \<and> occ_week cals sch other k)"
    if a: "sch_end sch \<le> sch_start sch"
      and b: "sch_start sch = sch_end sch \<longrightarrow> \<not> at_changeover cals sch now \<and> \<not> at_changeover cals sch other"
  proof -
    have b': "sch_start sch = sch_end sch \<longrightarrow> (r = 0 \<longrightarrow> T \<noteq> sch_start sch) \<and> (r' = 0 \<longrightarrow> T' \<noteq> sch_start sch)"
      using b by (auto simp: at_changeover_def rd(1) rd'(1) T_def T'_def)
    have "is_in_same_range cals sch now other \<longleftrightarrow>
        is_in_range cals sch now \<and> is_in_range cals sch other \<and>
        (if r = 0 \<and> T < sch_start sch then q - 1 else q) = (if r' = 0 \<and> T' < sch_start sch then q' - 1 else q')"
      unfolding same using sw(2) [OF _ _ a b'] eq by (cases "now = other") (simp_all cong: conj_cong)
    also have "\<dots> \<longleftrightarrow> (\<exists>k. occ_week cals sch now k \<and> occ_week cals sch other k)"
    proof -
      have "occ_week cals sch now k \<longleftrightarrow> is_in_range cals sch now \<and> k = (if r = 0 \<and> T < sch_start sch then q - 1 else q)" for k
        unfolding rd(2,4) by (rule sameday_occ_in_range [OF a]) (use b' in blast)
      moreover have "occ_week cals sch other k \<longleftrightarrow>
          is_in_range cals sch other \<and> k = (if r' = 0 \<and> T' < sch_start sch then q' - 1 else q')" for k
        unfolding rd'(2,4) by (rule sameday_occ_in_range [OF a]) (use b' in blast)
      ultimately show ?thesis by (rule same_index)
    qed
    finally show ?thesis .
  qed
  show "is_in_range cals sch now \<longleftrightarrow>
      (on_start_day cals sch now \<longrightarrow> in_daily (sch_start sch) (sch_end sch) (cal_tod ?c now))"
    unfolding rd(1,4) by (simp add: T_def)
  show "is_in_same_range cals sch now other \<longleftrightarrow>
      is_in_range cals sch now \<and> is_in_range cals sch other \<and>
      (\<exists>k l. in_week cals sch now k \<and> in_week cals sch other l \<and>
        (k = l \<or> (\<bar>k - l\<bar> = 1 \<and> on_start_day cals sch now \<and> on_start_day cals sch other)))"
    if "sch_start sch < sch_end sch"
  proof -
    have "is_in_same_range cals sch now other \<longleftrightarrow>
        is_in_range cals sch now \<and> is_in_range cals sch other \<and>
        (q = q' \<or> (r = 0 \<and> r' = 0 \<and> (q = q' + 1 \<or> q' = q + 1)))"
      unfolding same using sw(1) that eq by auto
    also have "\<dots> \<longleftrightarrow> is_in_range cals sch now \<and> is_in_range cals sch other \<and>
      (\<exists>k l. in_week cals sch now k \<and> in_week cals sch other l \<and>
        (k = l \<or> (\<bar>k - l\<bar> = 1 \<and> on_start_day cals sch now \<and> on_start_day cals sch other)))"
    proof -
      have "is_in_range cals sch now \<Longrightarrow> in_week cals sch now k \<longleftrightarrow> k = q"
        "is_in_range cals sch other \<Longrightarrow> in_week cals sch other k \<longleftrightarrow> k = q'" for k
        using that unfolding rd(3,4) rd'(3,4) in_daily_def by (simp_all add: not_less) linarith+
      moreover have "q = q' + 1 \<or> q' = q + 1 \<longleftrightarrow> \<bar>q - q'\<bar> = 1" by auto
      ultimately show ?thesis unfolding rd(1) rd'(1) by (metis (no_types, lifting))
    qed
    finally show ?thesis .
  qed
qed

text \<open>
  C21. Weekly windows, in a zone whose offset from UTC is fixed. (1) A window that ends on another
  day than it starts, or on the same day no later than it starts, is exactly the set of its
  occurrences: an instant is in range if and only if it lies in some week's interval from the
  start day and time to the end day and time. (2) Two instants are then in the same range if and
  only if one such interval holds both, so a session resets when, and only when, an occurrence
  has ended and another begun; where the window ends at the very second it starts, that second
  is excluded. (3) A window that starts and ends on one day, ending after it starts, is not the
  hours between: the session is in range on every other day as well, and on its day between the
  two times. (4) There two instants in range are in the same range if and only if they are in one
  week, counted from the start day and time, or in adjacent weeks and both on the start day.
\<close>

theorem weekly_same_range_spec:
  assumes "calendar_ok ofs (cals (sch_use_local sch))" and "weekly_window sch"
  shows "(sch_start_day sch \<noteq> sch_end_day sch \<or> sch_end sch \<le> sch_start sch \<longrightarrow>
      (is_in_range cals sch now \<longleftrightarrow> (\<exists>k. occ_week cals sch now k)) \<and>
      ((sch_start_day sch = sch_end_day sch \<and> sch_start sch = sch_end sch \<longrightarrow>
          \<not> at_changeover cals sch now \<and> \<not> at_changeover cals sch other) \<longrightarrow>
        (is_in_same_range cals sch now other \<longleftrightarrow> (\<exists>k. occ_week cals sch now k \<and> occ_week cals sch other k))))
    \<and> (sch_start_day sch = sch_end_day sch \<and> sch_start sch < sch_end sch \<longrightarrow>
      (is_in_range cals sch now \<longleftrightarrow> (on_start_day cals sch now \<longrightarrow>
        sch_start sch \<le> cal_tod (cals (sch_use_local sch)) now \<and>
        cal_tod (cals (sch_use_local sch)) now \<le> sch_end sch)) \<and>
      (is_in_same_range cals sch now other \<longleftrightarrow>
        is_in_range cals sch now \<and> is_in_range cals sch other \<and>
        (\<exists>k l. in_week cals sch now k \<and> in_week cals sch other l \<and>
          (k = l \<or> (\<bar>k - l\<bar> = 1 \<and> on_start_day cals sch now \<and> on_start_day cals sch other)))))"
proof (cases "sch_end_day sch = sch_start_day sch")
  case True
  note same = sameday_same_range [where cals = cals and sch = sch, OF assms True]
  show ?thesis
    using same(1) [of now] same(2) [of now other] same(3) [of now] same(4) [of now other]
    by (simp add: in_daily_def True)
next
  case False
  with week_same_range [where cals = cals and sch = sch, OF assms, of now other] show ?thesis by simp
qed

section \<open>Daily windows\<close>

definition occ_day :: "calendars \<Rightarrow> schedule \<Rightarrow> time \<Rightarrow> int \<Rightarrow> bool" where
  "occ_day cals sch t k \<longleftrightarrow>
     day_start sch k \<le> local_secs (cals (sch_use_local sch)) t
     \<and> local_secs (cals (sch_use_local sch)) t \<le> day_end sch k"

lemma div_diff_bounds:
  fixes a b p :: int
  assumes "0 < p"
  shows "a div p - b div p - 1 \<le> (a - b) div p \<and> (a - b) div p \<le> a div p - b div p"
proof -
  have "a - b = (a mod p - b mod p) + p * (a div p - b div p)"
    by (simp add: algebra_simps)
  then have d: "(a - b) div p = (a div p - b div p) + (a mod p - b mod p) div p"
    using assms by (metis add.commute div_mult_self2 less_irrefl)
  let ?x = "a mod p - b mod p"
  have x: "- p \<le> ?x" "?x < p"
    using assms pos_mod_bound [of p a] pos_mod_bound [of p b] pos_mod_sign [of p a] pos_mod_sign [of p b]
    by linarith+
  have "-1 \<le> ?x div p \<and> ?x div p \<le> 0"
  proof (cases "0 \<le> ?x")
    case True
    with x show ?thesis by (simp add: div_pos_pos_trivial)
  next
    case False
    with x have "(?x + p) div p = 0" by (intro div_pos_pos_trivial) linarith+
    then have "?x div p + 1 = 0" using assms div_add_self2 [of p ?x] by linarith
    then show ?thesis by linarith
  qed
  then show ?thesis unfolding d by linarith
qed

lemma day_range:
  assumes "calendar_ok ofs (cals (sch_use_local sch))" and "daily_window sch"
  shows "(\<exists>k. occ_day cals sch t k) \<longleftrightarrow> is_in_range cals sch t"
    and "occ_day cals sch t k \<longleftrightarrow> is_in_range cals sch t \<and>
      k = (if sch_start sch \<le> sch_end sch \<or> sch_start sch \<le> cal_tod (cals (sch_use_local sch)) t
           then cal_day (cals (sch_use_local sch)) t else cal_day (cals (sch_use_local sch)) t - 1)"
proof -
  let ?c = "cals (sch_use_local sch)"
  define D where "D = cal_day ?c t"
  define T where "T = cal_tod ?c t"
  have cal: "0 \<le> T" "T < 86400" using assms(1) by (auto simp: calendar_ok_def T_def)
  have w: "\<not> sch_non_stop sch" "sch_start_day sch < 0"
    "0 \<le> sch_start sch" "sch_start sch < 86400" "0 \<le> sch_end sch" "sch_end sch < 86400"
    using assms(2) by (auto simp: daily_window_def tod_ok_def)
  have rng: "is_in_range cals sch t \<longleftrightarrow> in_daily (sch_start sch) (sch_end sch) T"
    using w by (simp add: is_in_range_def sch_parts_def T_def Let_def)
  have occ: "occ_day cals sch t k \<longleftrightarrow>
      (k < D \<or> (k = D \<and> sch_start sch \<le> T))
      \<and> (D < (if sch_start sch < sch_end sch then k else k + 1)
         \<or> (D = (if sch_start sch < sch_end sch then k else k + 1) \<and> T \<le> sch_end sch))"
    if "sch_start sch \<noteq> sch_end sch" for k
    unfolding occ_day_def day_start_def day_end_def local_secs_def D_def [symmetric] T_def [symmetric]
      if_not_P [OF that] using cal w that by (cases "sch_start sch < sch_end sch"; simp only: if_True if_False; subst (1 2) lex_secs; auto)
  show one: "occ_day cals sch t k \<longleftrightarrow> is_in_range cals sch t \<and>
      k = (if sch_start sch \<le> sch_end sch \<or> sch_start sch \<le> T then D else D - 1)" for k
  proof (cases "sch_start sch = sch_end sch")
    case True
    have "k * 86400 + 0 \<le> D * 86400 + T \<longleftrightarrow> k < D \<or> (k = D \<and> 0 \<le> T)"
      "D * 86400 + T \<le> k * 86400 + 86399 \<longleftrightarrow> D < k \<or> (D = k \<and> T \<le> 86399)"
      using cal by (rule_tac [!] lex_secs) simp_all
    with True cal show ?thesis
      unfolding rng by (auto simp: occ_day_def day_start_def day_end_def local_secs_def in_daily_def
          D_def [symmetric] T_def [symmetric])
  next
    case False
    show ?thesis unfolding occ [OF False] rng in_daily_def using False by auto
  qed
  show "(\<exists>k. occ_day cals sch t k) \<longleftrightarrow> is_in_range cals sch t"
    using one by auto
qed

lemma elapsed_secs:
  assumes "calendar_ok ofs c" and "other \<le> now"
  shows "0 \<le> num_seconds (now - other)"
    and "0 < num_seconds (now - other) \<longleftrightarrow> 10 ^ 9 \<le> now - other"
    and "num_seconds (now - other) + local_secs c other = local_secs c (now - other mod 10 ^ 9)"
    and "local_secs c (now - other mod 10 ^ 9) \<le> local_secs c now"
    and "local_secs c now \<le> local_secs c (now - other mod 10 ^ 9) + 1"
    and "local_secs c other \<le> local_secs c now"
proof -
  have s: "local_secs c t = t div 10 ^ 9 + ofs" for t
    using assms(1) by (auto simp: calendar_ok_def)
  have diff: "num_seconds (now - other) = (now - other) div 10 ^ 9"
    using assms(2) by (simp add: num_seconds_def)
  show "0 \<le> num_seconds (now - other)" unfolding diff using assms(2) by (simp add: pos_imp_zdiv_nonneg_iff)
  show "0 < num_seconds (now - other) \<longleftrightarrow> 10 ^ 9 \<le> now - other"
    unfolding diff by (rule pos_imp_zdiv_pos_iff) simp
  have "now - other mod 10 ^ 9 = (now - other) + other div 10 ^ 9 * 10 ^ 9"
    by (simp add: minus_div_mult_eq_mod [symmetric])
  then have "(now - other mod 10 ^ 9) div 10 ^ 9 = (now - other) div 10 ^ 9 + other div 10 ^ 9"
    by (simp only: div_mult_self1) simp
  then show e: "num_seconds (now - other) + local_secs c other = local_secs c (now - other mod 10 ^ 9)"
    unfolding diff s by simp
  show "local_secs c (now - other mod 10 ^ 9) \<le> local_secs c now"
    "local_secs c now \<le> local_secs c (now - other mod 10 ^ 9) + 1"
    using div_diff_bounds [of "10 ^ 9" now other] unfolding e [symmetric] unfolding diff s by simp_all
  show "local_secs c other \<le> local_secs c now"
    unfolding s using zdiv_mono1 [OF assms(2), of "10 ^ 9"] by simp
qed

lemma overnight_same:
  assumes "calendar_ok ofs (cals (sch_use_local sch))" and "daily_window sch"
    and "sch_end sch < sch_start sch" and "0 < num_seconds (now - other)"
    and "occ_day cals sch other k"
  shows "same_daily cals sch now other \<longleftrightarrow>
    num_seconds (now - other) + local_secs (cals (sch_use_local sch)) other < day_end sch k"
proof -
  let ?c = "cals (sch_use_local sch)"
  have k: "k = (if sch_start sch \<le> cal_tod ?c other then cal_day ?c other else cal_day ?c other - 1)"
    using day_range(2) [where cals = cals and sch = sch and t = other and k = k, OF assms(1,2)] assms(3,5) by auto
  show ?thesis
    using assms(3,4) unfolding k
    by (auto simp: same_daily_def Let_def sch_parts_def local_secs_def day_end_def algebra_simps)
qed

text \<open>
  Overnight windows exactly: the comparison ignores the sub-second part of the earlier instant,
  stops one second short of the end, and takes any two instants within a second of each other.
\<close>

lemma overnight_same_range:
  assumes "calendar_ok ofs (cals (sch_use_local sch))" and "daily_window sch"
    and "sch_end sch < sch_start sch" and "other \<le> now"
  shows "is_in_same_range cals sch now other \<longleftrightarrow>
      is_in_range cals sch now \<and> is_in_range cals sch other \<and>
      (now - other < 10 ^ 9 \<or> (\<exists>k. occ_day cals sch now k \<and> occ_day cals sch other k \<and>
        local_secs (cals (sch_use_local sch)) (now - other mod 10 ^ 9) < day_end sch k))"
proof -
  let ?c = "cals (sch_use_local sch)"
  note dr = day_range [where cals = cals and sch = sch, OF assms(1,2)]
  note b = elapsed_secs [OF assms(1,4)]
  have flags: "\<not> sch_non_stop sch" "sch_start_day sch < 0" using assms(2) by (auto simp: daily_window_def)
  have same: "is_in_same_range cals sch now other \<longleftrightarrow>
      is_in_range cals sch now \<and> is_in_range cals sch other \<and> (now = other \<or> same_daily cals sch now other)"
    using flags by (auto simp: is_in_same_range_def)
  show ?thesis
  proof (cases "now - other < 10 ^ 9")
    case True
    then have "same_daily cals sch now other"
      using b(1,2) assms(2,3) by (simp add: same_daily_def Let_def daily_window_def tod_ok_def)
    with True same show ?thesis by simp
  next
    case False
    then have pos: "0 < num_seconds (now - other)" "now \<noteq> other" using b(2) by auto
    have "same_daily cals sch now other \<longleftrightarrow> occ_day cals sch now k \<and> local_secs ?c (now - other mod 10 ^ 9) < day_end sch k"
      if "occ_day cals sch other k" for k
      using overnight_same [where cals = cals and sch = sch, OF assms(1-3) pos(1) that] b(3,5,6) that
      by (auto simp: occ_day_def)
    with False same pos dr(1) show ?thesis by blast
  qed
qed

text \<open>An instant of an overnight occurrence that is not in the closing second lies before its end.\<close>

lemma occ_day_not_end:
  assumes "calendar_ok ofs (cals (sch_use_local sch))" and "daily_window sch"
    and "sch_end sch < sch_start sch" and "cal_tod (cals (sch_use_local sch)) t \<noteq> sch_end sch"
    and "occ_day cals sch t k"
  shows "local_secs (cals (sch_use_local sch)) t < day_end sch k"
proof (rule ccontr)
  let ?c = "cals (sch_use_local sch)"
  assume "\<not> local_secs ?c t < day_end sch k"
  with assms(5) have "local_secs ?c t = day_end sch k" by (simp add: occ_day_def)
  then have "cal_day ?c t * 86400 + cal_tod ?c t = (k + 1) * 86400 + sch_end sch"
    using assms(3) by (simp add: local_secs_def day_end_def)
  moreover have "0 \<le> cal_tod ?c t" "cal_tod ?c t < 86400" "0 \<le> sch_end sch" "sch_end sch < 86400"
    using assms(1,2) by (auto simp: calendar_ok_def daily_window_def tod_ok_def)
  ultimately have "cal_tod ?c t = sch_end sch" by (rule lex_secs_eq)
  with assms(4) show False by contradiction
qed

text \<open>
  Two instants less than a second apart lie in one occurrence when the window is closed for more
  than a second between occurrences.
\<close>

lemma overnight_near:
  assumes "calendar_ok ofs (cals (sch_use_local sch))" and "sch_end sch + 1 < sch_start sch"
    and "other \<le> now" and "now - other < 10 ^ 9"
    and "occ_day cals sch now k" and "occ_day cals sch other k'"
  shows "k = k'"
proof -
  let ?s = "local_secs (cals (sch_use_local sch))"
  note b = elapsed_secs [OF assms(1,3)]
  have near: "?s other \<le> ?s now" "?s now \<le> ?s other + 1" using assms(4) b(1-3,5,6) by auto
  have "\<not> k < k'" "\<not> k' < k"
  proof -
    show "\<not> k < k'"
    proof
      assume "k < k'"
      then have "(k + 1) * 86400 \<le> k' * 86400" by simp
      with near assms(2,5,6) show False by (simp add: occ_day_def day_start_def day_end_def)
    qed
    show "\<not> k' < k"
    proof
      assume "k' < k"
      then have "(k' + 1) * 86400 \<le> k * 86400" by simp
      with near assms(2,5,6) show False by (simp add: occ_day_def day_start_def day_end_def)
    qed
  qed
  then show ?thesis by simp
qed

text \<open>
  C22. Daily windows, in a zone whose offset from UTC is fixed, for the current time and an
  instant that is not after it. (1) An instant is in range if and only if it lies in some
  occurrence. (2) For a window inside one day, and for one that ends when it starts (open around
  the clock, whose occurrences are the calendar days), the two instants are in the same range if
  and only if one occurrence holds both. (3) For an overnight window they are if and only if both
  are in range and they are less than a second apart, or one occurrence holds both and the
  current time, less the fraction of a second of the earlier one, has not reached its closing
  second. (4) So if an overnight window is closed for more than a second and the current time
  is not in the closing second, again if and only if one occurrence holds both.
\<close>

theorem daily_same_range_spec:
  assumes "calendar_ok ofs (cals (sch_use_local sch))" and "daily_window sch" and "other \<le> now"
  shows "(is_in_range cals sch now \<longleftrightarrow> (\<exists>k. occ_day cals sch now k))
    \<and> (sch_start sch \<le> sch_end sch \<longrightarrow>
        (is_in_same_range cals sch now other \<longleftrightarrow> (\<exists>k. occ_day cals sch now k \<and> occ_day cals sch other k)))
    \<and> (sch_end sch < sch_start sch \<longrightarrow>
        (is_in_same_range cals sch now other \<longleftrightarrow>
          is_in_range cals sch now \<and> is_in_range cals sch other \<and>
          (now - other < 10 ^ 9 \<or> (\<exists>k. occ_day cals sch now k \<and> occ_day cals sch other k \<and>
            local_secs (cals (sch_use_local sch)) (now - other mod 10 ^ 9) < day_end sch k))))
    \<and> (sch_end sch + 1 < sch_start sch \<and> cal_tod (cals (sch_use_local sch)) now \<noteq> sch_end sch \<longrightarrow>
        (is_in_same_range cals sch now other \<longleftrightarrow> (\<exists>k. occ_day cals sch now k \<and> occ_day cals sch other k)))"
proof (intro conjI impI)
  let ?c = "cals (sch_use_local sch)"
  note dr = day_range [where cals = cals and sch = sch, OF assms(1,2)]
  note b = elapsed_secs [OF assms(1,3)]
  show "is_in_range cals sch now \<longleftrightarrow> (\<exists>k. occ_day cals sch now k)" using dr(1) by simp
  show "is_in_same_range cals sch now other \<longleftrightarrow> (\<exists>k. occ_day cals sch now k \<and> occ_day cals sch other k)"
    if "sch_start sch \<le> sch_end sch"
    using that assms(2)
    by (auto simp: is_in_same_range_def dr(2) daily_window_def same_daily_def sch_parts_def Let_def)
  show on: "is_in_same_range cals sch now other \<longleftrightarrow>
      is_in_range cals sch now \<and> is_in_range cals sch other \<and>
      (now - other < 10 ^ 9 \<or> (\<exists>k. occ_day cals sch now k \<and> occ_day cals sch other k \<and>
        local_secs ?c (now - other mod 10 ^ 9) < day_end sch k))"
    if "sch_end sch < sch_start sch"
    by (rule overnight_same_range [where cals = cals, OF assms(1,2) that assms(3)])
  show "is_in_same_range cals sch now other \<longleftrightarrow> (\<exists>k. occ_day cals sch now k \<and> occ_day cals sch other k)"
    if a: "sch_end sch + 1 < sch_start sch \<and> cal_tod ?c now \<noteq> sch_end sch"
  proof -
    have "occ_day cals sch now k \<Longrightarrow> local_secs ?c (now - other mod 10 ^ 9) < day_end sch k" for k
      using occ_day_not_end [where cals = cals, OF assms(1,2), of now k] a b(4) by linarith
    moreover have "now - other < 10 ^ 9 \<Longrightarrow> occ_day cals sch now k \<Longrightarrow> occ_day cals sch other k' \<Longrightarrow> k = k'" for k k'
      using overnight_near [where cals = cals, OF assms(1) _ assms(3)] a by blast
    moreover have "is_in_range cals sch now \<Longrightarrow> \<exists>k. occ_day cals sch now k"
      "is_in_range cals sch other \<Longrightarrow> \<exists>k. occ_day cals sch other k"
      "occ_day cals sch now k \<Longrightarrow> is_in_range cals sch now"
      "occ_day cals sch other k \<Longrightarrow> is_in_range cals sch other" for k
      using dr(1) by blast+
    ultimately show ?thesis using on a by (metis add_lessD1 less_add_one order.strict_trans)
  qed
qed

text \<open>
  In the closing second of an overnight window the session is still in range, but is not in
  the same range as any earlier whole second of that very occurrence: the session resets its
  sequence numbers one second before it closes.
\<close>

lemma overnight_closing_second_resets:
  assumes "calendar_ok ofs (cals (sch_use_local sch))" and "daily_window sch"
    and "sch_end sch < sch_start sch"
    and "now mod 10 ^ 9 = 0" and "other mod 10 ^ 9 = 0" and "other < now"
    and "cal_tod (cals (sch_use_local sch)) now = sch_end sch"
    and "occ_day cals sch now k" and "occ_day cals sch other k"
  shows "is_in_range cals sch now \<and> is_in_range cals sch other \<and> \<not> is_in_same_range cals sch now other"
proof -
  let ?c = "cals (sch_use_local sch)"
  note dr = day_range [where cals = cals and sch = sch, OF assms(1,2)]
  have flags: "\<not> sch_non_stop sch" "sch_start_day sch < 0" using assms(2) by (auto simp: daily_window_def)
  have div: "num_seconds (now - other) = now div 10 ^ 9 - other div 10 ^ 9"
    using assms(4-6) by (auto simp: num_seconds_def) 
  have pos: "0 < num_seconds (now - other)"
    unfolding div using assms(4-6) by (auto elim!: dvdE simp: dvd_eq_mod_eq_0 [symmetric])
  have E: "local_secs ?c now = day_end sch k"
    using assms(3,7,8) dr(2) [of now k] by (simp add: local_secs_def day_end_def split: if_splits)
  have "\<not> same_daily cals sch now other"
    using overnight_same [where cals = cals and sch = sch, OF assms(1,2,3) pos assms(9)] E assms(1)
    unfolding div by (simp add: calendar_ok_def)
  with assms(6,8,9) dr(2) flags show ?thesis by (simp add: is_in_same_range_def)
qed

section \<open>Concrete windows\<close>

text \<open>Monday 09:00 to Friday 17:00, and 22:00 to 06:00 every day, in UTC.\<close>

definition trading_week :: schedule where
  "trading_week = \<lparr>sch_start = 32400, sch_end = 61200, sch_start_day = 2, sch_end_day = 6,
     sch_use_local = False, sch_non_stop = False\<rparr>"

definition night_shift :: schedule where
  "night_shift = \<lparr>sch_start = 79200, sch_end = 21600, sch_start_day = -1, sch_end_day = -1,
     sch_use_local = False, sch_non_stop = False\<rparr>"

text \<open>Mondays 09:00 to 17:00 as a weekly window, and a daily window that ends when it starts.\<close>

definition monday_hours :: schedule where
  "monday_hours = \<lparr>sch_start = 32400, sch_end = 61200, sch_start_day = 2, sch_end_day = 2,
     sch_use_local = False, sch_non_stop = False\<rparr>"

definition round_the_clock :: schedule where
  "round_the_clock = \<lparr>sch_start = 0, sch_end = 0, sch_start_day = -1, sch_end_day = -1,
     sch_use_local = False, sch_non_stop = False\<rparr>"

definition utc_only :: calendars where
  "utc_only = (\<lambda>_. utc_calendar)"

lemma utc_only_ok: "calendar_ok (719163 * 86400) (utc_only b)"
  using utc_calendar_ok by (simp add: utc_only_def)

theorem weekly_same_range_spec_witness:
  "(is_in_same_range utc_only trading_week (5 * 86400 * 10 ^ 9 - 1) (4 * 86400 * 10 ^ 9 + 36000 * 10 ^ 9)
     \<longleftrightarrow> (\<exists>k. occ_week utc_only trading_week (5 * 86400 * 10 ^ 9 - 1) k
          \<and> occ_week utc_only trading_week (4 * 86400 * 10 ^ 9 + 36000 * 10 ^ 9) k))
   \<and> is_in_range utc_only monday_hours (5 * 86400 * 10 ^ 9)"
  using weekly_same_range_spec [where cals = utc_only and sch = trading_week, OF utc_only_ok]
    weekly_same_range_spec [where cals = utc_only and sch = monday_hours and now = "5 * 86400 * 10 ^ 9", OF utc_only_ok]
  by (simp add: weekly_window_def trading_week_def monday_hours_def tod_ok_def on_start_day_def
      utc_only_def utc_calendar_def)

theorem daily_same_range_spec_witness:
  "(is_in_same_range utc_only night_shift (90000 * 10 ^ 9) (80000 * 10 ^ 9)
     \<longleftrightarrow> (\<exists>k. occ_day utc_only night_shift (90000 * 10 ^ 9) k \<and> occ_day utc_only night_shift (80000 * 10 ^ 9) k))
   \<and> (is_in_same_range utc_only round_the_clock (90000 * 10 ^ 9) (80000 * 10 ^ 9)
     \<longleftrightarrow> (\<exists>k. occ_day utc_only round_the_clock (90000 * 10 ^ 9) k \<and> occ_day utc_only round_the_clock (80000 * 10 ^ 9) k))"
proof -
  have "daily_window night_shift" "daily_window round_the_clock"
    by (simp_all add: daily_window_def night_shift_def round_the_clock_def tod_ok_def)
  note spec = this [THEN daily_same_range_spec [where cals = utc_only and other = "80000 * 10 ^ 9"
    and now = "90000 * 10 ^ 9", OF utc_only_ok]]
  have "(80000 :: int) * 10 ^ 9 \<le> 90000 * 10 ^ 9" by simp
  note spec = spec(1) [OF this] spec(2) [OF this]
  have "cal_tod (utc_only (sch_use_local night_shift)) (90000 * 10 ^ 9) \<noteq> sch_end night_shift"
    "sch_end night_shift + 1 < sch_start night_shift" "sch_start round_the_clock \<le> sch_end round_the_clock"
    by (simp_all add: night_shift_def round_the_clock_def utc_only_def utc_calendar_def)
  with spec show ?thesis by blast
qed

lemma overnight_closing_second_resets_witness:
  "is_in_range utc_only night_shift (108000 * 10 ^ 9) \<and> is_in_range utc_only night_shift (80000 * 10 ^ 9)
   \<and> \<not> is_in_same_range utc_only night_shift (108000 * 10 ^ 9) (80000 * 10 ^ 9)"
  by (rule overnight_closing_second_resets
      [where cals = utc_only and sch = night_shift and k = 719163, OF utc_only_ok])
     (simp_all add: daily_window_def night_shift_def tod_ok_def utc_only_def utc_calendar_def
        occ_day_def day_start_def day_end_def local_secs_def)

end
