(* ===== verification/Data_Dictionary.thy ===== *)
theory Data_Dictionary
  imports Fix_Message Rust_Text "HOL-Library.Multiset"
begin

text \<open>
  \<open>src/datadictionary.rs\<close>, the dictionary and the validation of messages against it (loading it
  from XML is in \<open>Dictionary_Load\<close>).

  A \<open>HashMap\<close> is an association list with distinct keys whose order is the iteration order, which
  the source leaves open: the statements hold for every order. A \<open>HashSet\<close> is a list of which
  only membership is used.
\<close>

section \<open>The dictionary\<close>

definition USER_DEFINED_TAG_MIN :: tag where
  "USER_DEFINED_TAG_MIN = 5000"

datatype field_type =
    FtInt | FtLength | FtSeqNum | FtNumInGroup | FtDayOfMonth | FtFloat | FtQty | FtPrice
  | FtPriceOffset | FtAmt | FtPercentage | FtChar | FtBoolean | FtString | FtData | FtUtcTimestamp
  | FtUtcDateOnly | FtUtcTimeOnly | FtLocalMktDate | FtMonthYear | FtOther

definition field_type_from_name :: "bytes \<Rightarrow> field_type" where
  "field_type_from_name name =
     (if name = ''INT'' then FtInt
      else if name = ''LENGTH'' then FtLength
      else if name = ''SEQNUM'' then FtSeqNum
      else if name = ''NUMINGROUP'' then FtNumInGroup
      else if name = ''DAYOFMONTH'' then FtDayOfMonth
      else if name = ''FLOAT'' then FtFloat
      else if name \<in> set [''QTY'', ''QUANTITY''] then FtQty
      else if name = ''PRICE'' then FtPrice
      else if name = ''PRICEOFFSET'' then FtPriceOffset
      else if name = ''AMT'' then FtAmt
      else if name = ''PERCENTAGE'' then FtPercentage
      else if name = ''CHAR'' then FtChar
      else if name = ''BOOLEAN'' then FtBoolean
      else if name \<in> set [''STRING'', ''MULTIPLEVALUESTRING'', ''MULTIPLESTRINGVALUE'',
                           ''MULTIPLECHARVALUE'', ''COUNTRY'', ''CURRENCY'', ''EXCHANGE'', ''LANGUAGE'']
        then FtString
      else if name \<in> set [''DATA'', ''XMLDATA''] then FtData
      else if name \<in> set [''UTCTIMESTAMP'', ''TIME''] then FtUtcTimestamp
      else if name \<in> set [''UTCDATEONLY'', ''UTCDATE'', ''DATE''] then FtUtcDateOnly
      else if name = ''UTCTIMEONLY'' then FtUtcTimeOnly
      else if name = ''LOCALMKTDATE'' then FtLocalMktDate
      else if name = ''MONTHYEAR'' then FtMonthYear
      else FtOther)"

record field_def =
  fd_tag :: tag
  fd_name :: bytes
  fd_type :: field_type
  fd_values :: "bytes list"
  fd_enum_values :: "(bytes \<times> bytes) list"

datatype group_def =
  GroupDef (gd_counter: tag) (gd_delimiter: tag) (gd_tags: "tag list") (gd_required: "tag list")
    (gd_groups: "(tag \<times> group_def) list") (gd_member_order: "tag list")

record message_def =
  md_name :: bytes
  md_msg_type :: bytes
  md_tags :: "tag list"
  md_required :: "tag list"
  md_groups :: "(tag \<times> group_def) list"
  md_field_order :: "tag list"

record data_dictionary =
  dd_begin_string :: bytes
  dd_fields_by_tag :: "(tag \<times> field_def) list"
  dd_tags_by_name :: "(bytes \<times> tag) list"
  dd_header_tags :: "tag list"
  dd_header_required :: "tag list"
  dd_trailer_tags :: "tag list"
  dd_trailer_required :: "tag list"
  dd_messages :: "(bytes \<times> message_def) list"

record validation_settings =
  vs_check_fields_out_of_order :: bool
  vs_check_fields_have_values :: bool
  vs_check_user_defined_fields :: bool
  vs_allow_unknown_message_fields :: bool

definition validation_default :: validation_settings where
  "validation_default =
     \<lparr>vs_check_fields_out_of_order = True, vs_check_fields_have_values = True,
      vs_check_user_defined_fields = True, vs_allow_unknown_message_fields = False\<rparr>"

definition merged_with_app :: "data_dictionary \<Rightarrow> data_dictionary \<Rightarrow> data_dictionary" where
  "merged_with_app dd app =
     dd\<lparr>dd_fields_by_tag := hm_extend_missing (dd_fields_by_tag dd) (dd_fields_by_tag app),
        dd_tags_by_name := hm_extend_missing (dd_tags_by_name dd) (dd_tags_by_name app),
        dd_messages := hm_extend_missing (dd_messages dd) (dd_messages app)\<rparr>"

section \<open>Canonical order of a body\<close>

function segments :: "(tag \<times> group_def) list \<Rightarrow> field_map \<Rightarrow> (tag \<times> field_map) list" where
  "segments groups [] = []"
| "segments groups (f # fs) =
     (case map_of groups (tv_tag f) of
        None \<Rightarrow> (tv_tag f, [f]) # segments groups fs
      | Some g \<Rightarrow>
          (tv_tag f, f # takeWhile (\<lambda>h. tv_tag h \<in> set (gd_tags g)) fs)
          # segments groups (dropWhile (\<lambda>h. tv_tag h \<in> set (gd_tags g)) fs))"
  by pat_completeness auto
termination
  by (relation "measure (\<lambda>(g, fs). length fs)") (auto simp: le_imp_less_Suc length_dropWhile_le)

definition canonicalize_body :: "data_dictionary \<Rightarrow> message \<Rightarrow> message" where
  "canonicalize_body dd m =
     (case msg_type m of
        Inl _ \<Rightarrow> m
      | Inr mt \<Rightarrow>
          (case map_of (dd_messages dd) mt of
             None \<Rightarrow> m
           | Some def \<Rightarrow>
               m\<lparr>body := concat (map snd (sort_key fst (segments (md_groups def) (body m))))\<rparr>))"

definition dd_group_template :: "data_dictionary \<Rightarrow> bytes \<Rightarrow> tag \<Rightarrow> group_template option" where
  "dd_group_template dd mt counter =
     (case map_of (dd_messages dd) mt of None \<Rightarrow> None | Some def \<Rightarrow>
       (case map_of (md_groups def) counter of None \<Rightarrow> None | Some g \<Rightarrow>
          Some \<lparr>gt_num_tag = counter,
                gt_member_tags = gd_delimiter g # filter (\<lambda>t. t \<noteq> gd_delimiter g) (gd_tags g)\<rparr>))"

section \<open>Validation\<close>

definition check_format :: "chrono \<Rightarrow> field_def \<Rightarrow> bytes \<Rightarrow> bool" where
  "check_format ch fd v =
     (case fd_type fd of
        FtInt \<Rightarrow> \<not> isl (decode_i64 (fd_tag fd) v)
      | FtLength \<Rightarrow> \<not> isl (decode_u64 (fd_tag fd) v)
      | FtSeqNum \<Rightarrow> \<not> isl (decode_u64 (fd_tag fd) v)
      | FtNumInGroup \<Rightarrow> \<not> isl (decode_u64 (fd_tag fd) v)
      | FtDayOfMonth \<Rightarrow> (case decode_u64 (fd_tag fd) v of Inr d \<Rightarrow> 1 \<le> d \<and> d \<le> 31 | Inl _ \<Rightarrow> False)
      | FtFloat \<Rightarrow> decode_f64_ok v
      | FtQty \<Rightarrow> decode_f64_ok v
      | FtPrice \<Rightarrow> decode_f64_ok v
      | FtPriceOffset \<Rightarrow> decode_f64_ok v
      | FtAmt \<Rightarrow> decode_f64_ok v
      | FtPercentage \<Rightarrow> decode_f64_ok v
      | FtChar \<Rightarrow> length v = 1
      | FtBoolean \<Rightarrow> v = ''Y'' \<or> v = ''N''
      | FtUtcTimestamp \<Rightarrow> \<not> isl (decode_timestamp ch (fd_tag fd) v)
      | FtUtcDateOnly \<Rightarrow> decode_fix_date_ok ch v
      | FtLocalMktDate \<Rightarrow> decode_fix_date_ok ch v
      | FtMonthYear \<Rightarrow> 6 \<le> length v \<and> list_all is_digit (take 6 v)
      | FtUtcTimeOnly \<Rightarrow> True
      | FtString \<Rightarrow> True
      | FtData \<Rightarrow> True
      | FtOther \<Rightarrow> True)"

definition check_field ::
  "chrono \<Rightarrow> data_dictionary \<Rightarrow> message_def \<Rightarrow> validation_settings \<Rightarrow> bool \<Rightarrow> tag \<Rightarrow> bytes \<Rightarrow> reject_error option" where
  "check_field ch dd def vs is_body t v =
     (if USER_DEFINED_TAG_MIN \<le> t \<and> \<not> vs_check_user_defined_fields vs then None
      else if vs_check_fields_have_values vs \<and> v = [] then Some (reject_with_tag TagSpecifiedWithoutAValue t)
      else case map_of (dd_fields_by_tag dd) t of
        None \<Rightarrow> if vs_allow_unknown_message_fields vs then None
                else Some (reject_with_tag InvalidTagNumber t)
      | Some field \<Rightarrow>
          if is_body \<and> \<not> vs_allow_unknown_message_fields vs \<and> t \<notin> set (md_tags def) \<and> t < USER_DEFINED_TAG_MIN
          then Some (reject_with_tag TagNotDefinedForThisMessageType t)
          else if \<not> check_format ch field v then Some (reject_with_tag IncorrectDataFormatForValue t)
          else if fd_values field \<noteq> []
               \<and> \<not> list_all (\<lambda>part. part \<in> set (fd_values field)) (split_on (CHR '' '') (from_utf8_lossy v))
          then Some (reject_with_tag ValueIsIncorrect t)
          else None)"

text \<open>The loops of \<open>validate\<close>, each returning the first reject it finds.\<close>

fun first_some :: "('a \<Rightarrow> 'b option) \<Rightarrow> 'a list \<Rightarrow> 'b option" where
  "first_some f [] = None"
| "first_some f (x # xs) = (case f x of Some y \<Rightarrow> Some y | None \<Rightarrow> first_some f xs)"

definition missing_required :: "tag list \<Rightarrow> field_map \<Rightarrow> reject_error option" where
  "missing_required req fm =
     first_some (\<lambda>t. if contains t fm then None else Some (reject_with_tag RequiredTagMissing t)) req"

fun check_delimiters :: "(tag \<times> group_def) list \<Rightarrow> field_map \<Rightarrow> field_map \<Rightarrow> reject_error option" where
  "check_delimiters groups all [] = None"
| "check_delimiters groups all (f # fs) =
     (case map_of groups (tv_tag f) of
        None \<Rightarrow> check_delimiters groups all fs
      | Some g \<Rightarrow>
          (case get_ok decode_u64 (gd_counter g) all of
             None \<Rightarrow> check_delimiters groups all fs
           | Some declared \<Rightarrow>
               if declared = 0 then check_delimiters groups all fs
               else case fs of
                 [] \<Rightarrow> check_delimiters groups all fs
               | first # _ \<Rightarrow>
                   if tv_tag first \<in> set (gd_tags g) \<and> tv_tag first \<noteq> gd_delimiter g
                   then Some (reject_other (''Group '' @ dec_int (gd_counter g)
                                @ [CHR 0x27] @ ''s first entry does not start with delimiter '' @ dec_int (gd_delimiter g))
                              (gd_counter g))
                   else check_delimiters groups all fs))"

fun check_duplicates :: "tag list \<Rightarrow> tag list \<Rightarrow> field_map \<Rightarrow> reject_error option" where
  "check_duplicates group_tags seen [] = None"
| "check_duplicates group_tags seen (f # fs) =
     (if tv_tag f \<notin> set group_tags then
        (if tv_tag f \<in> set seen then Some (reject_with_tag TagAppearsMoreThanOnce (tv_tag f))
         else check_duplicates group_tags (tv_tag f # seen) fs)
      else check_duplicates group_tags seen fs)"

definition check_count :: "field_map \<Rightarrow> group_def \<Rightarrow> reject_error option" where
  "check_count fm g =
     (case get_raw (gd_counter g) fm of
        None \<Rightarrow> None
      | Some raw \<Rightarrow>
          (case (if utf8_ok raw then parse_u64 raw else None) of
             None \<Rightarrow> Some (reject_with_tag IncorrectDataFormatForValue (gd_counter g))
           | Some declared \<Rightarrow>
               if declared \<noteq> length (filter (\<lambda>f. tv_tag f = gd_delimiter g) fm)
               then Some (reject_with_tag IncorrectNumInGroupCountForRepeatingGroup (gd_counter g))
               else None))"

definition group_member_tags :: "message_def \<Rightarrow> tag list" where
  "group_member_tags def = concat (map (\<lambda>(_, g). gd_tags g) (md_groups def))"

definition check_section ::
  "chrono \<Rightarrow> data_dictionary \<Rightarrow> message_def \<Rightarrow> validation_settings \<Rightarrow> bool \<Rightarrow> field_map \<Rightarrow> reject_error option" where
  "check_section ch dd def vs is_body fm =
     first_some (\<lambda>f. check_field ch dd def vs is_body (tv_tag f) (tv_value f)) fm"

fun or_else :: "'a option \<Rightarrow> 'a option \<Rightarrow> 'a option" where
  "or_else (Some x) y = Some x"
| "or_else None y = y"

definition validate_with_def ::
  "chrono \<Rightarrow> data_dictionary \<Rightarrow> message_def \<Rightarrow> message \<Rightarrow> validation_settings \<Rightarrow> reject_error option" where
  "validate_with_def ch dd def m vs =
     or_else (if vs_check_fields_out_of_order vs
              then map_option (reject_with_tag TagSpecifiedOutOfRequiredOrder) (structure_error m) else None)
    (or_else (check_delimiters (md_groups def) (body m) (body m))
    (or_else (missing_required (dd_header_required dd) (header m))
    (or_else (missing_required (dd_trailer_required dd) (trailer m))
    (or_else (missing_required (md_required def) (body m))
    (or_else (check_duplicates (group_member_tags def) [] (body m))
    (or_else (first_some (\<lambda>(_, g). check_count (body m) g) (md_groups def))
    (or_else (check_section ch dd def vs False (header m))
    (or_else (check_section ch dd def vs True (body m))
             (check_section ch dd def vs False (trailer m))))))))))"

definition validate ::
  "chrono \<Rightarrow> data_dictionary \<Rightarrow> message \<Rightarrow> validation_settings \<Rightarrow> reject_error option" where
  "validate ch dd m vs =
     (case get_string MSG_TYPE (header m) of
        Inl _ \<Rightarrow> Some (reject_with_tag RequiredTagMissing MSG_TYPE)
      | Inr mt \<Rightarrow>
          if mt = ''n'' then None
          else case map_of (dd_messages dd) mt of
            None \<Rightarrow> Some (if dd_begin_string dd = ''FIX.4.2''
                          then reject_with_tag InvalidMsgType MSG_TYPE else reject_new InvalidMsgType)
          | Some def \<Rightarrow> validate_with_def ch dd def m vs)"

section \<open>The checks without their order\<close>

text \<open>
  The conditions behind the loops, each on its own. What they say of the text of a frame is
  \<open>Validation_Spec\<close>.
\<close>

definition delimiters_first :: "(tag \<times> group_def) list \<Rightarrow> field_map \<Rightarrow> bool" where
  "delimiters_first groups fm \<longleftrightarrow>
     (\<forall>i g n. i + 1 < length fm \<longrightarrow> map_of groups (tv_tag (fm ! i)) = Some g \<longrightarrow>
        get_ok decode_u64 (gd_counter g) fm = Some n \<longrightarrow> 0 < n \<longrightarrow>
        tv_tag (fm ! (i + 1)) \<in> set (gd_tags g) \<longrightarrow> tv_tag (fm ! (i + 1)) = gd_delimiter g)"

definition counts_match :: "(tag \<times> group_def) list \<Rightarrow> field_map \<Rightarrow> bool" where
  "counts_match groups fm \<longleftrightarrow>
     (\<forall>(k, g) \<in> set groups. \<forall>raw. get_raw (gd_counter g) fm = Some raw \<longrightarrow>
        utf8_ok raw \<and> parse_u64 raw = Some (length (filter (\<lambda>f. tv_tag f = gd_delimiter g) fm)))"

definition fields_ok ::
  "chrono \<Rightarrow> data_dictionary \<Rightarrow> message_def \<Rightarrow> validation_settings \<Rightarrow> bool \<Rightarrow> field_map \<Rightarrow> bool" where
  "fields_ok ch dd def vs is_body fm \<longleftrightarrow>
     (\<forall>f \<in> set fm. check_field ch dd def vs is_body (tv_tag f) (tv_value f) = None)"

definition every_check_passes :: "chrono \<Rightarrow> data_dictionary \<Rightarrow> validation_settings \<Rightarrow> message_def \<Rightarrow> message \<Rightarrow> bool" where
  "every_check_passes ch dd vs def m \<longleftrightarrow>
     (vs_check_fields_out_of_order vs \<longrightarrow> structure_error m = None)
     \<and> delimiters_first (md_groups def) (body m)
     \<and> (\<forall>t \<in> set (dd_header_required dd). contains t (header m))
     \<and> (\<forall>t \<in> set (dd_trailer_required dd). contains t (trailer m))
     \<and> (\<forall>t \<in> set (md_required def). contains t (body m))
     \<and> distinct (filter (\<lambda>t. t \<notin> set (group_member_tags def)) (map tv_tag (body m)))
     \<and> counts_match (md_groups def) (body m)
     \<and> fields_ok ch dd def vs False (header m) \<and> fields_ok ch dd def vs True (body m)
     \<and> fields_ok ch dd def vs False (trailer m)"

lemma first_some_None [simp]: "first_some f xs = None \<longleftrightarrow> (\<forall>x \<in> set xs. f x = None)"
  by (induction xs) (auto split: option.splits)

lemma or_else_None [simp]: "or_else x y = None \<longleftrightarrow> x = None \<and> y = None"
  by (cases x) auto

lemma all_nat_split:
  fixes Q :: "nat \<Rightarrow> bool"
  shows "(\<forall>n. Q n) = (Q 0 \<and> (\<forall>n. Q (Suc n)))"
  using old.nat.exhaust by metis

lemma check_delimiters_None:
  "check_delimiters groups all fs = None \<longleftrightarrow>
     (\<forall>i g n. i + 1 < length fs \<longrightarrow> map_of groups (tv_tag (fs ! i)) = Some g \<longrightarrow>
        get_ok decode_u64 (gd_counter g) all = Some n \<longrightarrow> 0 < n \<longrightarrow>
        tv_tag (fs ! (i + 1)) \<in> set (gd_tags g) \<longrightarrow> tv_tag (fs ! (i + 1)) = gd_delimiter g)"
proof (induction fs)
  case (Cons f fs)
  let ?P = "\<lambda>xs i. \<forall>g n. i + 1 < length xs \<longrightarrow> map_of groups (tv_tag (xs ! i)) = Some g \<longrightarrow>
        get_ok decode_u64 (gd_counter g) all = Some n \<longrightarrow> 0 < n \<longrightarrow>
        tv_tag (xs ! (i + 1)) \<in> set (gd_tags g) \<longrightarrow> tv_tag (xs ! (i + 1)) = gd_delimiter g"
  have "(\<forall>i. ?P (f # fs) i) \<longleftrightarrow> ?P (f # fs) 0 \<and> (\<forall>i. ?P fs i)"
    unfolding all_nat_split [of "?P (f # fs)"] by simp
  moreover have "check_delimiters groups all (f # fs) = None \<longleftrightarrow>
      ?P (f # fs) 0 \<and> check_delimiters groups all fs = None"
    by (auto split: option.splits list.splits)
  ultimately show ?case using Cons.IH by simp
qed simp

lemma check_duplicates_None:
  "check_duplicates gt seen fs = None \<longleftrightarrow>
     distinct (filter (\<lambda>t. t \<notin> set gt) (map tv_tag fs))
     \<and> set (filter (\<lambda>t. t \<notin> set gt) (map tv_tag fs)) \<inter> set seen = {}"
  by (induction fs arbitrary: seen) auto

lemma check_count_None:
  "check_count fm g = None \<longleftrightarrow>
     (\<forall>raw. get_raw (gd_counter g) fm = Some raw \<longrightarrow>
        utf8_ok raw \<and> parse_u64 raw = Some (length (filter (\<lambda>f. tv_tag f = gd_delimiter g) fm)))"
  by (auto simp: check_count_def split: option.splits if_splits)

lemma validate_with_def_None:
  "validate_with_def ch dd def m vs = None \<longleftrightarrow> every_check_passes ch dd vs def m"
  unfolding validate_with_def_def every_check_passes_def delimiters_first_def counts_match_def fields_ok_def
    missing_required_def check_section_def or_else_None first_some_None check_delimiters_None
    check_duplicates_None
  by (auto simp: check_count_None split: if_splits)

section \<open>Canonical order\<close>

lemma segments_concat: "concat (map snd (segments groups fs)) = fs"
  by (induction groups fs rule: segments.induct) (auto split: option.splits)

lemma mset_concat_sort_key: "mset (concat (map snd (sort_key k xs))) = mset (concat (map snd xs))"
proof -
  have "mset (concat (map snd ys)) = sum_mset (image_mset (\<lambda>p. mset (snd p)) (mset ys))" for ys :: "('b \<times> 'a list) list"
    by (induction ys) auto
  from this [of "sort_key k xs"] this [of xs] show ?thesis by simp
qed

text \<open>A segment is a field with, for a group counter, the member fields that follow it.\<close>

definition segment_ok :: "(tag \<times> group_def) list \<Rightarrow> tag \<times> field_map \<Rightarrow> bool" where
  "segment_ok groups s \<longleftrightarrow>
     (\<exists>f fs. s = (tv_tag f, f # fs)
        \<and> (case map_of groups (tv_tag f) of None \<Rightarrow> fs = [] | Some g \<Rightarrow> \<forall>h \<in> set fs. tv_tag h \<in> set (gd_tags g)))"

lemma segments_ok: "s \<in> set (segments groups fs) \<Longrightarrow> segment_ok groups s"
proof (induction groups fs rule: segments.induct)
  case (2 groups f fs)
  show ?case
  proof (cases "map_of groups (tv_tag f)")
    case None
    with 2 show ?thesis by (auto simp: segment_ok_def)
  next
    case (Some g)
    let ?block = "takeWhile (\<lambda>h. tv_tag h \<in> set (gd_tags g)) fs"
    have "segment_ok groups (tv_tag f, f # ?block)"
      unfolding segment_ok_def using Some set_takeWhileD [of _ "\<lambda>h. tv_tag h \<in> set (gd_tags g)" fs]
      by (intro exI [of _ f] exI [of _ ?block]) auto
    with Some 2 show ?thesis by auto
  qed
qed simp

text \<open>
  Canonicalising a body keeps every field: the result has the same fields with the same
  multiplicities, header and trailer are untouched, and the body is cut into segments, a plain
  field or a group counter with its member block intact, whose leading tags ascend.
\<close>

lemma canonicalize_body_permutes:
  assumes "msg_type m = Inr mt" and "map_of (dd_messages dd) mt = Some def"
  shows "mset (body (canonicalize_body dd m)) = mset (body m)
    \<and> header (canonicalize_body dd m) = header m \<and> trailer (canonicalize_body dd m) = trailer m
    \<and> (\<exists>segs. body (canonicalize_body dd m) = concat (map snd segs)
          \<and> sorted (map fst segs) \<and> list_all (segment_ok (md_groups def)) segs)"
proof -
  let ?segs = "sort_key fst (segments (md_groups def) (body m))"
  have b: "body (canonicalize_body dd m) = concat (map snd ?segs)"
    using assms by (simp add: canonicalize_body_def)
  have "mset (concat (map snd ?segs)) = mset (body m)"
    by (simp add: mset_concat_sort_key segments_concat)
  moreover have "list_all (segment_ok (md_groups def)) ?segs"
    by (simp add: list_all_iff segments_ok)
  moreover have "sorted (map fst ?segs)" by simp
  ultimately show ?thesis using b assms by (auto simp: canonicalize_body_def)
qed

section \<open>Transport and application dictionaries\<close>

text \<open>
  In a merged FIXT dictionary the transport dictionary wins: every message, field and name it
  defines keeps its definition, everything else comes from the application dictionary, and
  nothing more is defined. The header, the trailer and the version are the transport's.
\<close>

lemma merged_with_app_lookup:
  "map_of (dd_messages (merged_with_app dd app)) = map_of (dd_messages app) ++ map_of (dd_messages dd)
   \<and> map_of (dd_fields_by_tag (merged_with_app dd app)) = map_of (dd_fields_by_tag app) ++ map_of (dd_fields_by_tag dd)
   \<and> map_of (dd_tags_by_name (merged_with_app dd app)) = map_of (dd_tags_by_name app) ++ map_of (dd_tags_by_name dd)
   \<and> dd_begin_string (merged_with_app dd app) = dd_begin_string dd
   \<and> dd_header_required (merged_with_app dd app) = dd_header_required dd
   \<and> dd_trailer_required (merged_with_app dd app) = dd_trailer_required dd"
  by (simp add: merged_with_app_def hm_extend_missing_lookup)

section \<open>A concrete dictionary\<close>

definition parties_group :: group_def where
  "parties_group = GroupDef 453 448 [448, 447, 452] [448] [] [448, 447, 452]"

definition sample_def :: message_def where
  "sample_def = \<lparr>md_name = ''NewOrderSingle'', md_msg_type = ''D'', md_tags = [11, 58, 453, 448, 447, 452],
     md_required = [11], md_groups = [(453, parties_group)], md_field_order = [11, 58, 453]\<rparr>"

definition sample_dd :: data_dictionary where
  "sample_dd = \<lparr>dd_begin_string = ''FIX.4.4'', dd_fields_by_tag = [], dd_tags_by_name = [],
     dd_header_tags = [], dd_header_required = [], dd_trailer_tags = [], dd_trailer_required = [],
     dd_messages = [(''D'', sample_def)]\<rparr>"

definition sample_order :: message where
  "sample_order = \<lparr>header = [tv 35 ''D''],
     body = [tv 453 ''2'', tv 448 ''P'', tv 447 ''D'', tv 448 ''Q'', tv 58 ''x'', tv 11 ''id''],
     trailer = [], structure_error = None\<rparr>"

lemma canonicalize_body_permutes_witness:
  "mset (body (canonicalize_body sample_dd sample_order)) = mset (body sample_order)
   \<and> body (canonicalize_body sample_dd sample_order)
     = [tv 11 ''id'', tv 58 ''x'', tv 453 ''2'', tv 448 ''P'', tv 447 ''D'', tv 448 ''Q'']"
proof -
  have t: "msg_type sample_order = Inr ''D''"
    by (simp add: msg_type_def sample_order_def get_string_def fm_get_def get_raw_def decode_string_def
        utf8_ok_ascii byte_of_def)
  moreover have "map_of (dd_messages sample_dd) ''D'' = Some sample_def" by (simp add: sample_dd_def)
  ultimately have "mset (body (canonicalize_body sample_dd sample_order)) = mset (body sample_order)"
    using canonicalize_body_permutes [of sample_order "''D''" sample_dd sample_def] by simp
  moreover have "body (canonicalize_body sample_dd sample_order)
     = [tv 11 ''id'', tv 58 ''x'', tv 453 ''2'', tv 448 ''P'', tv 447 ''D'', tv 448 ''Q'']"
    using t by (simp add: canonicalize_body_def sample_dd_def sample_def_def sample_order_def parties_group_def)
  ultimately show ?thesis ..
qed

end
