(* ===== verification/Settings.thy ===== *)
theory Settings
  imports Schedule Data_Dictionary
begin

text \<open>
  \<open>src/settings.rs\<close>: the INI-style configuration with its \<open>[DEFAULT]\<close> and \<open>[SESSION]\<close> sections, and
  the typed configuration of a session. A \<open>HashMap\<close> is an association list; durations are
  nanoseconds.
\<close>

section \<open>Sections\<close>

type_synonym section_map = "(bytes \<times> bytes) list"

record settings =
  st_defaults :: section_map
  st_sessions :: "section_map list"

record parse_cursor =
  pc_settings :: settings
  pc_current :: "section_map option"
  pc_in_default :: bool

definition flush_section :: "parse_cursor \<Rightarrow> parse_cursor" where
  "flush_section pc =
     (case pc_current pc of
        None \<Rightarrow> pc
      | Some sec \<Rightarrow> pc\<lparr>pc_current := None,
          pc_settings := (pc_settings pc)\<lparr>st_sessions := st_sessions (pc_settings pc) @ [sec]\<rparr>\<rparr>)"

definition line_error :: "nat \<Rightarrow> bytes \<Rightarrow> error" where
  "line_error line_no txt = ConfigError (''line '' @ dec_nat (line_no + 1) @ '': '' @ txt)"

definition section_line :: "nat \<Rightarrow> bytes \<Rightarrow> parse_cursor \<Rightarrow> error + parse_cursor" where
  "section_line line_no line pc0 =
     (let pc = flush_section pc0;
          name = map ascii_upper (trim (butlast (tl line)))
      in if name = ''DEFAULT'' then Inr (pc\<lparr>pc_in_default := True\<rparr>)
         else if name = ''SESSION'' then Inr (pc\<lparr>pc_in_default := False, pc_current := Some []\<rparr>)
         else Inl (line_error line_no (''unknown section ['' @ name @ '']'')))"

definition key_line :: "nat \<Rightarrow> bytes \<Rightarrow> parse_cursor \<Rightarrow> error + parse_cursor" where
  "key_line line_no line pc =
     (case split_once ''='' line of
        None \<Rightarrow> Inl (line_error line_no (''expected key=value, got '' @ debug_str line))
      | Some (k, v) \<Rightarrow>
          (case pc_current pc of
             Some sec \<Rightarrow> Inr (pc\<lparr>pc_current := Some (hm_insert (trim k) (trim v) sec)\<rparr>)
           | None \<Rightarrow>
               if pc_in_default pc
               then Inr (pc\<lparr>pc_settings := (pc_settings pc)\<lparr>st_defaults :=
                           hm_insert (trim k) (trim v) (st_defaults (pc_settings pc))\<rparr>\<rparr>)
               else Inl (line_error line_no ''key outside of [DEFAULT]/[SESSION]'')))"

definition settings_line :: "nat \<Rightarrow> bytes \<Rightarrow> parse_cursor \<Rightarrow> error + parse_cursor" where
  "settings_line line_no raw pc =
     (let line = trim raw in
      if line = [] \<or> hd line = CHR ''#'' then Inr pc
      else if hd line = CHR ''['' \<and> last line = CHR '']'' then section_line line_no line pc
      else key_line line_no line pc)"

fun settings_lines :: "nat \<Rightarrow> bytes list \<Rightarrow> parse_cursor \<Rightarrow> error + parse_cursor" where
  "settings_lines n [] pc = Inr pc"
| "settings_lines n (l # ls) pc = ebind (settings_line n l pc) (settings_lines (n + 1) ls)"

definition settings_parse :: "bytes \<Rightarrow> error + settings" where
  "settings_parse txt =
     ebind (settings_lines 0 (str_lines txt)
              \<lparr>pc_settings = \<lparr>st_defaults = [], st_sessions = []\<rparr>, pc_current = None, pc_in_default = False\<rparr>)
       (\<lambda>pc. Inr (pc_settings (flush_section pc)))"

section \<open>Session configuration\<close>

datatype connection_type = Initiator | Acceptor

record tls_settings =
  tls_enabled :: bool
  tls_certificate_file :: "bytes option"
  tls_private_key_file :: "bytes option"
  tls_ca_file :: "bytes option"
  tls_insecure_skip_verify :: bool
  tls_server_name :: "bytes option"

record session_config =
  cfg_session_id :: session_id
  cfg_connection_type :: connection_type
  cfg_heart_bt_int :: nat
  cfg_heart_bt_int_override :: "nat option"
  cfg_socket_connect_host :: bytes
  cfg_socket_connect_port :: nat
  cfg_socket_accept_port :: nat
  cfg_reconnect_interval :: nat
  cfg_logon_timeout :: nat
  cfg_logout_timeout :: nat
  cfg_reset_on_logon :: bool
  cfg_reset_on_logout :: bool
  cfg_reset_on_disconnect :: bool
  cfg_refresh_on_logon :: bool
  cfg_send_reset_seq_num_flag :: bool
  cfg_persist_messages :: bool
  cfg_check_comp_id :: bool
  cfg_check_latency :: bool
  cfg_max_latency :: nat
  cfg_send_redundant_resend_requests :: bool
  cfg_timestamp_precision :: timestamp_precision
  cfg_validate_length_checksum :: bool
  cfg_use_data_dictionary :: bool
  cfg_data_dictionary :: "bytes option"
  cfg_transport_data_dictionary :: "bytes option"
  cfg_app_data_dictionary :: "bytes option"
  cfg_validation :: validation_settings
  cfg_enable_last_msg_seq_num_processed :: bool
  cfg_max_messages_in_resend_request :: u64
  cfg_send_logout_before_disconnect_from_timeout :: bool
  cfg_requires_orig_sending_time :: bool
  cfg_send_next_expected_msg_seq_num :: bool
  cfg_tls :: tls_settings
  cfg_schedule :: schedule
  cfg_logon_schedule :: schedule
  cfg_file_store_path :: "bytes option"
  cfg_file_log_path :: "bytes option"
  cfg_default_appl_ver_id :: "bytes option"

definition secs :: "nat \<Rightarrow> nat" where
  "secs n = n * 10 ^ 9"

definition as_secs :: "nat \<Rightarrow> nat" where
  "as_secs d = d div 10 ^ 9"

definition get_bool :: "section_map \<Rightarrow> bytes \<Rightarrow> bool \<Rightarrow> error + bool" where
  "get_bool m key dflt =
     (case map_of m key of
        None \<Rightarrow> Inr dflt
      | Some v \<Rightarrow> if v = ''Y'' then Inr True
                  else if v = ''N'' then Inr False
                  else Inl (ConfigError (key @ '' must be Y or N, got '' @ debug_str v)))"

definition get_u64 :: "section_map \<Rightarrow> bytes \<Rightarrow> u64 \<Rightarrow> error + u64" where
  "get_u64 m key dflt =
     (case map_of m key of
        None \<Rightarrow> Inr dflt
      | Some v \<Rightarrow> (case parse_u64 v of Some n \<Rightarrow> Inr n
                   | None \<Rightarrow> Inl (ConfigError (key @ '' must be a number''))))"

definition require :: "section_map \<Rightarrow> bytes \<Rightarrow> error + bytes" where
  "require m key =
     (case map_of m key of
        Some v \<Rightarrow> Inr v
      | None \<Rightarrow> Inl (ConfigError (''missing required setting '' @ key)))"

definition or_default :: "section_map \<Rightarrow> bytes \<Rightarrow> bytes" where
  "or_default m key = (case map_of m key of Some v \<Rightarrow> v | None \<Rightarrow> [])"

definition opt_or :: "'a option \<Rightarrow> 'a option \<Rightarrow> 'a option" where
  "opt_or x y = (case x of Some _ \<Rightarrow> x | None \<Rightarrow> y)"

definition cfg_session_id_of :: "section_map \<Rightarrow> error + session_id" where
  "cfg_session_id_of m =
     ebind (require m ''BeginString'') (\<lambda>begin_string.
     if begin_string \<notin> set [''FIX.4.0'', ''FIX.4.1'', ''FIX.4.2'', ''FIX.4.3'', ''FIX.4.4'', ''FIXT.1.1'']
     then Inl (ConfigError (''unsupported BeginString '' @ debug_str begin_string))
     else ebind (require m ''SenderCompID'') (\<lambda>sender.
          ebind (require m ''TargetCompID'') (\<lambda>target.
            Inr \<lparr>sid_begin_string = begin_string, sid_sender_comp_id = sender,
                 sid_sender_sub_id = or_default m ''SenderSubID'',
                 sid_sender_location_id = or_default m ''SenderLocationID'',
                 sid_target_comp_id = target,
                 sid_target_sub_id = or_default m ''TargetSubID'',
                 sid_target_location_id = or_default m ''TargetLocationID'',
                 sid_qualifier = or_default m ''SessionQualifier''\<rparr>)))"

definition cfg_connection_type_of :: "section_map \<Rightarrow> error + connection_type" where
  "cfg_connection_type_of m =
     ebind (require m ''ConnectionType'') (\<lambda>ct.
       if ct = ''initiator'' then Inr Initiator
       else if ct = ''acceptor'' then Inr Acceptor
       else Inl (ConfigError (''ConnectionType must be initiator or acceptor, got '' @ debug_str ct)))"

definition cfg_schedules_of :: "section_map \<Rightarrow> error + schedule \<times> schedule" where
  "cfg_schedules_of m =
     ebind (get_bool m ''UseLocalTime'' False) (\<lambda>use_local.
     ebind (get_bool m ''NonStopSession'' False) (\<lambda>non_stop.
     ebind (schedule_parse (map_of m ''StartTime'') (map_of m ''EndTime'') (map_of m ''StartDay'')
              (map_of m ''EndDay'') use_local non_stop) (\<lambda>sch.
     ebind (if map_of m ''LogonTime'' \<noteq> None \<or> map_of m ''LogoutTime'' \<noteq> None
            then schedule_parse (map_of m ''LogonTime'') (map_of m ''LogoutTime'')
                   (opt_or (map_of m ''LogonDay'') (map_of m ''StartDay''))
                   (opt_or (map_of m ''LogoutDay'') (map_of m ''EndDay'')) use_local non_stop
            else Inr sch) (\<lambda>logon_sch. Inr (sch, logon_sch)))))"

definition cfg_heart_bt_int_of :: "section_map \<Rightarrow> connection_type \<Rightarrow> error + nat" where
  "cfg_heart_bt_int_of m ct =
     (case ct of
        Initiator \<Rightarrow>
          ebind (require m ''HeartBtInt'') (\<lambda>v.
            case parse_u64 v of
              None \<Rightarrow> Inl (ConfigError ''HeartBtInt must be a number'')
            | Some n \<Rightarrow> if n = 0 then Inl (ConfigError ''HeartBtInt must be > 0'') else Inr (secs n))
      | Acceptor \<Rightarrow> ebind (get_u64 m ''HeartBtInt'' 30) (\<lambda>n. Inr (secs n)))"

definition parse_port :: "bytes \<Rightarrow> bytes \<Rightarrow> error + nat" where
  "parse_port key v = (case parse_u16 v of Some p \<Rightarrow> Inr p | None \<Rightarrow> Inl (ConfigError (key @ '' must be a port'')))"

definition cfg_sockets_of :: "section_map \<Rightarrow> connection_type \<Rightarrow> error + bytes \<times> nat \<times> nat" where
  "cfg_sockets_of m ct =
     (case ct of
        Initiator \<Rightarrow>
          ebind (require m ''SocketConnectHost'') (\<lambda>host.
          ebind (require m ''SocketConnectPort'') (\<lambda>v.
          ebind (parse_port ''SocketConnectPort'' v) (\<lambda>port. Inr (host, port, 0))))
      | Acceptor \<Rightarrow>
          ebind (require m ''SocketAcceptPort'') (\<lambda>v.
          ebind (parse_port ''SocketAcceptPort'' v) (\<lambda>port. Inr ([], 0, port))))"

definition cfg_precision_of :: "section_map \<Rightarrow> bytes \<Rightarrow> error + timestamp_precision" where
  "cfg_precision_of m begin_string =
     (let default_precision = (if begin_string < ''FIX.4.2'' then Seconds else Millis) in
      case map_of m ''TimestampPrecision'' of
        None \<Rightarrow> ebind (get_bool m ''MillisecondsInTimeStamp'' True)
                  (\<lambda>b. Inr (if b then default_precision else Seconds))
      | Some v \<Rightarrow>
          if v = ''0'' then Inr Seconds
          else if v = ''3'' then Inr Millis
          else if v = ''6'' then Inr Micros
          else if v = ''9'' then Inr Nanos
          else Inl (ConfigError (''TimestampPrecision must be 0, 3, 6 or 9, got '' @ debug_str v)))"

definition cfg_override_of :: "section_map \<Rightarrow> error + nat option" where
  "cfg_override_of m =
     (case map_of m ''HeartBtIntOverride'' of
        None \<Rightarrow> Inr None
      | Some v \<Rightarrow> (case parse_u64 v of
                     Some n \<Rightarrow> Inr (Some (secs n))
                   | None \<Rightarrow> Inl (ConfigError ''HeartBtIntOverride must be a number'')))"

definition from_map :: "section_map \<Rightarrow> error + session_config" where
  "from_map m =
     ebind (cfg_session_id_of m) (\<lambda>sid.
     ebind (cfg_connection_type_of m) (\<lambda>ct.
     ebind (cfg_schedules_of m) (\<lambda>(sch, logon_sch).
     ebind (cfg_heart_bt_int_of m ct) (\<lambda>hbi.
     ebind (cfg_sockets_of m ct) (\<lambda>(host, connect_port, accept_port).
     ebind (cfg_precision_of m (sid_begin_string sid)) (\<lambda>precision.
     if is_fixt sid \<and> map_of m ''DefaultApplVerID'' = None
     then Inl (ConfigError ''FIXT.1.1 sessions require DefaultApplVerID'')
     else
     ebind (cfg_override_of m) (\<lambda>hbi_override.
     ebind (get_u64 m ''ReconnectInterval'' 30) (\<lambda>reconnect.
     ebind (get_u64 m ''LogonTimeout'' 10) (\<lambda>logon_timeout.
     ebind (get_u64 m ''LogoutTimeout'' 2) (\<lambda>logout_timeout.
     ebind (get_bool m ''ResetOnLogon'' False) (\<lambda>reset_on_logon.
     ebind (get_bool m ''ResetOnLogout'' False) (\<lambda>reset_on_logout.
     ebind (get_bool m ''ResetOnDisconnect'' False) (\<lambda>reset_on_disconnect.
     ebind (get_bool m ''RefreshOnLogon'' False) (\<lambda>refresh_on_logon.
     ebind (get_bool m ''SendResetSeqNumFlag'' False) (\<lambda>send_reset.
     ebind (get_bool m ''PersistMessages'' True) (\<lambda>persist.
     ebind (get_bool m ''CheckCompID'' True) (\<lambda>check_comp_id.
     ebind (get_bool m ''CheckLatency'' True) (\<lambda>check_latency.
     ebind (get_u64 m ''MaxLatency'' 120) (\<lambda>max_latency.
     ebind (get_bool m ''SendRedundantResendRequests'' False) (\<lambda>redundant.
     ebind (get_bool m ''ValidateLengthAndChecksum'' True) (\<lambda>validate_lc.
     ebind (get_bool m ''UseDataDictionary'' True) (\<lambda>use_dd.
     ebind (get_bool m ''EnableLastMsgSeqNumProcessed'' False) (\<lambda>last_processed.
     ebind (get_u64 m ''MaxMessagesInResendRequest'' 0) (\<lambda>max_resend.
     ebind (get_bool m ''SendLogoutBeforeDisconnectFromTimeout'' False) (\<lambda>logout_first.
     ebind (get_bool m ''RequiresOrigSendingTime'' True) (\<lambda>requires_orig.
     ebind (ebind (get_bool m ''SendNextExpectedMsgSeqNum'' False) (\<lambda>b.
              if b then Inr True else get_bool m ''EnableNextExpectedMsgSeqNum'' False)) (\<lambda>next_expected.
     ebind (get_bool m ''SocketUseSSL'' False) (\<lambda>use_ssl.
     ebind (get_bool m ''SocketInsecureSkipVerify'' False) (\<lambda>skip_verify.
     ebind (get_bool m ''ValidateFieldsOutOfOrder'' True) (\<lambda>v_order.
     ebind (get_bool m ''ValidateFieldsHaveValues'' True) (\<lambda>v_values.
     ebind (get_bool m ''ValidateUserDefinedFields'' True) (\<lambda>v_user.
     ebind (get_bool m ''AllowUnknownMsgFields'' False) (\<lambda>v_unknown.
     Inr \<lparr>cfg_session_id = sid, cfg_connection_type = ct, cfg_heart_bt_int = hbi,
          cfg_heart_bt_int_override = hbi_override, cfg_socket_connect_host = host,
          cfg_socket_connect_port = connect_port, cfg_socket_accept_port = accept_port,
          cfg_reconnect_interval = secs reconnect, cfg_logon_timeout = secs logon_timeout,
          cfg_logout_timeout = secs logout_timeout, cfg_reset_on_logon = reset_on_logon,
          cfg_reset_on_logout = reset_on_logout, cfg_reset_on_disconnect = reset_on_disconnect,
          cfg_refresh_on_logon = refresh_on_logon, cfg_send_reset_seq_num_flag = send_reset,
          cfg_persist_messages = persist, cfg_check_comp_id = check_comp_id,
          cfg_check_latency = check_latency, cfg_max_latency = secs max_latency,
          cfg_send_redundant_resend_requests = redundant, cfg_timestamp_precision = precision,
          cfg_validate_length_checksum = validate_lc, cfg_use_data_dictionary = use_dd,
          cfg_data_dictionary = map_of m ''DataDictionary'',
          cfg_transport_data_dictionary = map_of m ''TransportDataDictionary'',
          cfg_app_data_dictionary = map_of m ''AppDataDictionary'',
          cfg_validation = \<lparr>vs_check_fields_out_of_order = v_order, vs_check_fields_have_values = v_values,
             vs_check_user_defined_fields = v_user, vs_allow_unknown_message_fields = v_unknown\<rparr>,
          cfg_enable_last_msg_seq_num_processed = last_processed,
          cfg_max_messages_in_resend_request = max_resend,
          cfg_send_logout_before_disconnect_from_timeout = logout_first,
          cfg_requires_orig_sending_time = requires_orig,
          cfg_send_next_expected_msg_seq_num = next_expected,
          cfg_tls = \<lparr>tls_enabled = use_ssl, tls_certificate_file = map_of m ''SocketCertificateFile'',
             tls_private_key_file = map_of m ''SocketPrivateKeyFile'', tls_ca_file = map_of m ''SocketCAFile'',
             tls_insecure_skip_verify = skip_verify, tls_server_name = map_of m ''SocketServerName''\<rparr>,
          cfg_schedule = sch, cfg_logon_schedule = logon_sch,
          cfg_file_store_path = map_of m ''FileStorePath'', cfg_file_log_path = map_of m ''FileLogPath'',
          cfg_default_appl_ver_id = map_of m ''DefaultApplVerID''\<rparr>)))))))))))))))))))))))))))))))))"

fun collect_configs :: "section_map \<Rightarrow> section_map list \<Rightarrow> error + session_config list" where
  "collect_configs defaults [] = Inr []"
| "collect_configs defaults (s # ss) =
     ebind (from_map (foldl (\<lambda>m (k, v). hm_insert k v m) defaults s)) (\<lambda>c.
     ebind (collect_configs defaults ss) (\<lambda>cs. Inr (c # cs)))"

definition session_configs :: "settings \<Rightarrow> error + session_config list" where
  "session_configs st = collect_configs (st_defaults st) (st_sessions st)"

end
