(* ===== verification/Application.thy ===== *)
theory Application
  imports Session_Id Fix_Message
begin

text \<open>
  \<open>src/application.rs\<close>: the callback interface of the engine as a record of functions over the
  application's own state, the defaults of the trait, and the channel adapter that turns the
  notifications into a queue of events.

  A callback sees a message and the session's identity; what it decides (a veto, a reject) is its
  result. Callbacks run to completion on the session's task.
\<close>

datatype application_error =
    RejectLogon bytes
  | AppReject reject_error
  | UnsupportedMessageType

record 'ap application =
  ap_on_create :: "session_id \<Rightarrow> 'ap \<Rightarrow> 'ap"
  ap_on_logon :: "session_id \<Rightarrow> 'ap \<Rightarrow> 'ap"
  ap_on_logout :: "session_id \<Rightarrow> 'ap \<Rightarrow> 'ap"
  ap_to_admin :: "message \<Rightarrow> session_id \<Rightarrow> 'ap \<Rightarrow> message \<times> 'ap"
  ap_to_app :: "message \<Rightarrow> session_id \<Rightarrow> 'ap \<Rightarrow> message option \<times> 'ap"
  ap_from_admin :: "message \<Rightarrow> session_id \<Rightarrow> 'ap \<Rightarrow> application_error option \<times> 'ap"
  ap_from_app :: "message \<Rightarrow> session_id \<Rightarrow> 'ap \<Rightarrow> application_error option \<times> 'ap"

text \<open>The provided methods of the trait. \<open>to_app\<close> yields \<open>None\<close> for \<open>DoNotSend\<close>.\<close>

definition default_application :: "'ap application" where
  "default_application =
     \<lparr>ap_on_create = (\<lambda>_ a. a), ap_on_logon = (\<lambda>_ a. a), ap_on_logout = (\<lambda>_ a. a),
      ap_to_admin = (\<lambda>m _ a. (m, a)), ap_to_app = (\<lambda>m _ a. (Some m, a)),
      ap_from_admin = (\<lambda>_ _ a. (None, a)), ap_from_app = (\<lambda>_ _ a. (None, a))\<rparr>"

section \<open>The channel adapter\<close>

datatype session_event =
    Created session_id
  | LoggedOn session_id
  | LoggedOut session_id
  | AppMsg message session_id
  | AdminMsg message session_id

text \<open>
  The unbounded channel is the list of events sent; a send never blocks and its failure (the
  receiver is gone) is ignored.
\<close>

definition channel_application :: "session_event list application" where
  "channel_application =
     default_application
       \<lparr>ap_on_create := (\<lambda>s q. q @ [Created s]),
        ap_on_logon := (\<lambda>s q. q @ [LoggedOn s]),
        ap_on_logout := (\<lambda>s q. q @ [LoggedOut s]),
        ap_from_admin := (\<lambda>m s q. (None, q @ [AdminMsg m s])),
        ap_from_app := (\<lambda>m s q. (None, q @ [AppMsg m s]))\<rparr>"

end
