(* ===== verification/Session_State.thy ===== *)
theory Session_State
  imports Frame_Parser Settings Application
begin

text \<open>
  \<open>src/session.rs\<close>, first part: the state of a session, the environment it runs in, and the small
  language its handlers are written in.

  One task owns the state, so a handler is a function from the state to an outcome and the state it
  leaves: it returns, fails with an error (a \<open>Result\<close> or a \<open>Disconnect\<close>), unwinds, or, for the loop
  that replays stashed messages, runs out of the fuel it was given. The clocks are read once per
  step. The outbound channel is the list of the frames pushed into it; \<open>out_closed\<close> says that the
  write task has gone. The store and the application are the trait objects the session holds.
\<close>

section \<open>Error texts\<close>

fun parse_reason_text :: "parse_reason \<Rightarrow> bytes" where
  "parse_reason_text FieldWithoutEq = ''field without '' @ [CHR 0x27, CHR ''='', CHR 0x27]"
| "parse_reason_text (InvalidTag t) = ''invalid tag '' @ debug_str t"
| "parse_reason_text (DataTooShort t n) =
     ''data field '' @ dec_int t @ '' shorter than its declared length '' @ dec_nat n"
| "parse_reason_text (NotTerminated t) = ''field '' @ dec_int t @ '' not SOH-terminated''"
| "parse_reason_text FirstNotBeginString = ''first field is not BeginString(8)''"
| "parse_reason_text SecondNotBodyLength = ''second field is not BodyLength(9)''"
| "parse_reason_text ThirdNotMsgType = ''third field is not MsgType(35)''"
| "parse_reason_text NoCheckSum = ''message has no CheckSum(10)''"
| "parse_reason_text BadBodyLength = ''missing/invalid BodyLength(9)''"
| "parse_reason_text (BodyLengthMismatch d a) =
     ''BodyLength mismatch: declared '' @ dec_nat d @ '', actual '' @ dec_nat a"
| "parse_reason_text BadCheckSum = ''missing/invalid CheckSum(10)''"
| "parse_reason_text (CheckSumMismatch d a) =
     ''CheckSum mismatch: declared '' @ pad_zero 3 (dec_nat d) @ '', actual '' @ pad_zero 3 (dec_nat a)"
| "parse_reason_text (FewerFields n) = ''message has fewer than '' @ dec_nat n @ '' fields''"

fun conversion_display :: "conversion_error \<Rightarrow> bytes" where
  "conversion_display (FieldNotFound t) = ''field '' @ dec_int t @ '' not found''"
| "conversion_display (InvalidValue t v) =
     ''cannot convert value '' @ debug_str v @ '' for tag '' @ dec_int t"

fun error_display :: "error \<Rightarrow> bytes" where
  "error_display (ParseError r) = ''message parse error: '' @ parse_reason_text r"
| "error_display (Conversion c) = conversion_display c"
| "error_display (RejectErr r) = reject_display r"
| "error_display (UnknownSession s) = ''session '' @ s @ '' not found''"
| "error_display (NotLoggedOn s) = ''session '' @ s @ '' is not logged on''"
| "error_display (ConfigError s) = ''configuration error: '' @ s"
| "error_display (TlsError s) = ''TLS error: '' @ s"
| "error_display (DictionaryError s) = ''data dictionary error: '' @ s"
| "error_display (StoreError s) = ''store error: '' @ s"
| "error_display DoNotSend = ''do not send''"
| "error_display (IoError s) = s"

section \<open>State and environment\<close>

datatype log_entry = LogIncoming bytes | LogOutgoing bytes | LogEvent bytes

record outbound =
  out_sent :: "bytes list"
  out_closed :: bool

record ('st, 'ap) session =
  se_store :: 'st
  se_app :: 'ap
  se_log :: "log_entry list"
  se_inbound :: bool
  se_outbound :: "outbound option"
  se_disconnected_tx :: bool
  se_received_logon :: bool
  se_sent_logon :: bool
  se_sent_logout :: bool
  se_sent_reset :: bool
  se_received_reset :: bool
  se_heart_bt_int :: nat
  se_last_sent :: nat
  se_last_received :: nat
  se_test_request_counter :: nat
  se_resend_range :: "(u64 \<times> u64 \<times> u64) option"
  se_last_received_seq :: u64
  se_stash :: "bytes btree"
  se_last_processed_was_queued :: bool
  se_pending_logon :: bool

record ('st, 'ap) env =
  en_cfg :: session_config
  en_ops :: "'st store_ops"
  en_application :: "'ap application"
  en_dictionary :: "data_dictionary option"
  en_admin_dictionary :: "data_dictionary option"
  en_chrono :: chrono
  en_cals :: calendars
  en_now :: nat
  en_utc :: time

definition session_spawn :: "('st, 'ap) env \<Rightarrow> 'st \<Rightarrow> 'ap \<Rightarrow> ('st, 'ap) session" where
  "session_spawn e store app =
     \<lparr>se_store = store, se_app = ap_on_create (en_application e) (cfg_session_id (en_cfg e)) app,
      se_log = [], se_inbound = False, se_outbound = None, se_disconnected_tx = False,
      se_received_logon = False, se_sent_logon = False, se_sent_logout = False,
      se_sent_reset = False, se_received_reset = False,
      se_heart_bt_int = cfg_heart_bt_int (en_cfg e), se_last_sent = en_now e,
      se_last_received = en_now e, se_test_request_counter = 0, se_resend_range = None,
      se_last_received_seq = 0, se_stash = [], se_last_processed_was_queued = False,
      se_pending_logon = False\<rparr>"

definition is_initiator :: "('st, 'ap) env \<Rightarrow> bool" where
  "is_initiator e \<longleftrightarrow> cfg_connection_type (en_cfg e) = Initiator"

definition is_connected :: "('st, 'ap) session \<Rightarrow> bool" where
  "is_connected s \<longleftrightarrow> se_outbound s \<noteq> None"

definition is_logged_on :: "('st, 'ap) session \<Rightarrow> bool" where
  "is_logged_on s \<longleftrightarrow> se_received_logon s \<and> se_sent_logon s"

abbreviation the_sid :: "('st, 'ap) env \<Rightarrow> session_id" where
  "the_sid e \<equiv> cfg_session_id (en_cfg e)"

abbreviation the_begin :: "('st, 'ap) env \<Rightarrow> bytes" where
  "the_begin e \<equiv> sid_begin_string (cfg_session_id (en_cfg e))"

definition next_sender :: "('st, 'ap) env \<Rightarrow> ('st, 'ap) session \<Rightarrow> u64" where
  "next_sender e s = so_next_sender (en_ops e) (se_store s)"

definition next_target :: "('st, 'ap) env \<Rightarrow> ('st, 'ap) session \<Rightarrow> u64" where
  "next_target e s = so_next_target (en_ops e) (se_store s)"

section \<open>Handlers\<close>

datatype ('e, 'a) outcome = Done 'a | Fail 'e | Unwind | OutOfFuel

type_synonym ('s, 'e, 'a) cmd = "'s \<Rightarrow> ('e, 'a) outcome \<times> 's"

definition ret :: "'a \<Rightarrow> ('s, 'e, 'a) cmd" where
  "ret a s = (Done a, s)"

definition raise :: "'e \<Rightarrow> ('s, 'e, 'a) cmd" where
  "raise e s = (Fail e, s)"

definition bnd :: "('s, 'e, 'a) cmd \<Rightarrow> ('a \<Rightarrow> ('s, 'e, 'b) cmd) \<Rightarrow> ('s, 'e, 'b) cmd" where
  "bnd m f s =
     (case m s of
        (Done a, s') \<Rightarrow> f a s'
      | (Fail e, s') \<Rightarrow> (Fail e, s')
      | (Unwind, s') \<Rightarrow> (Unwind, s')
      | (OutOfFuel, s') \<Rightarrow> (OutOfFuel, s'))"

definition thn :: "('s, 'e, unit) cmd \<Rightarrow> ('s, 'e, 'b) cmd \<Rightarrow> ('s, 'e, 'b) cmd" where
  "thn m k = bnd m (\<lambda>_. k)"

definition modify :: "('s \<Rightarrow> 's) \<Rightarrow> ('s, 'e, unit) cmd" where
  "modify f s = (Done (), f s)"

definition gets :: "('s \<Rightarrow> 'a) \<Rightarrow> ('s, 'e, 'a) cmd" where
  "gets f s = (Done (f s), s)"

text \<open>A command that depends on the state it starts in.\<close>

definition look :: "('s \<Rightarrow> ('s, 'e, 'a) cmd) \<Rightarrow> ('s, 'e, 'a) cmd" where
  "look f s = f s s"

text \<open>\<open>let _ = ...\<close>: an error is dropped.\<close>

definition discard :: "('s, 'f, 'a) cmd \<Rightarrow> ('s, 'e, unit) cmd" where
  "discard m s =
     (case m s of
        (Done _, s') \<Rightarrow> (Done (), s')
      | (Fail _, s') \<Rightarrow> (Done (), s')
      | (Unwind, s') \<Rightarrow> (Unwind, s')
      | (OutOfFuel, s') \<Rightarrow> (OutOfFuel, s'))"

definition map_err :: "('f \<Rightarrow> 'e) \<Rightarrow> ('s, 'f, 'a) cmd \<Rightarrow> ('s, 'e, 'a) cmd" where
  "map_err h m s =
     (case m s of
        (Done a, s') \<Rightarrow> (Done a, s')
      | (Fail e, s') \<Rightarrow> (Fail (h e), s')
      | (Unwind, s') \<Rightarrow> (Unwind, s')
      | (OutOfFuel, s') \<Rightarrow> (OutOfFuel, s'))"

text \<open>A \<open>match\<close> on a result: the error becomes a value.\<close>

definition attempt :: "('s, 'f, 'a) cmd \<Rightarrow> ('s, 'e, 'f + 'a) cmd" where
  "attempt m s =
     (case m s of
        (Done a, s') \<Rightarrow> (Done (Inr a), s')
      | (Fail e, s') \<Rightarrow> (Done (Inl e), s')
      | (Unwind, s') \<Rightarrow> (Unwind, s')
      | (OutOfFuel, s') \<Rightarrow> (OutOfFuel, s'))"

definition whenM :: "bool \<Rightarrow> ('s, 'e, unit) cmd \<Rightarrow> ('s, 'e, unit) cmd" where
  "whenM b m = (if b then m else ret ())"

definition on_store ::
  "('st \<Rightarrow> (error, 'a) res \<times> 'st) \<Rightarrow> (('st, 'ap) session, error, 'a) cmd" where
  "on_store op s =
     (case op (se_store s) of (r, st') \<Rightarrow>
        ((case r of Ok a \<Rightarrow> Done a | Err e \<Rightarrow> Fail e | Panic \<Rightarrow> Unwind), s\<lparr>se_store := st'\<rparr>))"

definition event :: "bytes \<Rightarrow> (('st, 'ap) session, 'e, unit) cmd" where
  "event txt = modify (\<lambda>s. s\<lparr>se_log := se_log s @ [LogEvent txt]\<rparr>)"

definition incr_target_op :: "('st, 'ap) env \<Rightarrow> (('st, 'ap) session, error, unit) cmd" where
  "incr_target_op e = on_store (so_incr_target (en_ops e))"

definition store_reset :: "('st, 'ap) env \<Rightarrow> (('st, 'ap) session, error, unit) cmd" where
  "store_reset e = on_store (so_reset (en_ops e) (en_utc e))"

definition store_refresh :: "('st, 'ap) env \<Rightarrow> (('st, 'ap) session, error, unit) cmd" where
  "store_refresh e = on_store (so_refresh (en_ops e) (en_utc e))"

section \<open>Invariants of handlers\<close>

text \<open>
  \<open>keeps R m\<close>: whatever the outcome, the state a command leaves is related to the state it started
  in. For a reflexive and transitive relation this composes through every construct of the
  language, so an invariant of all handlers needs only the primitive steps to be looked at.
\<close>

definition keeps :: "('s \<Rightarrow> 's \<Rightarrow> bool) \<Rightarrow> ('s, 'e, 'a) cmd \<Rightarrow> bool" where
  "keeps R m \<longleftrightarrow> (\<forall>s. R s (snd (m s)))"

locale step_relation =
  fixes R :: "'s \<Rightarrow> 's \<Rightarrow> bool"
  assumes refl: "R s s"
    and trans: "R s t \<Longrightarrow> R t u \<Longrightarrow> R s u"
begin

lemma keeps_ret: "keeps R (ret a)"
  by (simp add: keeps_def ret_def refl)

lemma keeps_raise: "keeps R (raise e)"
  by (simp add: keeps_def raise_def refl)

lemma keeps_gets: "keeps R (gets f)"
  by (simp add: keeps_def gets_def refl)

lemma keeps_bnd:
  assumes "keeps R m" and "\<And>a. keeps R (f a)"
  shows "keeps R (bnd m f)"
  unfolding keeps_def
proof
  fix s
  obtain r t where m: "m s = (r, t)" by (cases "m s")
  have "R s t" using assms(1) m by (metis keeps_def snd_conv)
  moreover have "R t (snd (f a t))" for a using assms(2) by (simp add: keeps_def)
  ultimately show "R s (snd (bnd m f s))" using m trans by (auto simp: bnd_def split: outcome.splits)
qed

lemma keeps_thn: "keeps R m \<Longrightarrow> keeps R k \<Longrightarrow> keeps R (thn m k)"
  unfolding thn_def by (rule keeps_bnd)

lemma keeps_discard: "keeps R m \<Longrightarrow> keeps R (discard m)"
  by (auto simp: keeps_def discard_def split: prod.splits outcome.splits) (metis snd_conv)+

lemma keeps_map_err: "keeps R m \<Longrightarrow> keeps R (map_err h m)"
  by (auto simp: keeps_def map_err_def split: prod.splits outcome.splits) (metis snd_conv)+

lemma keeps_attempt: "keeps R m \<Longrightarrow> keeps R (attempt m)"
  by (auto simp: keeps_def attempt_def split: prod.splits outcome.splits) (metis snd_conv)+

lemma keeps_whenM: "keeps R m \<Longrightarrow> keeps R (whenM b m)"
  by (simp add: whenM_def keeps_ret)

lemma keeps_modify: "(\<And>s. R s (f s)) \<Longrightarrow> keeps R (modify f)"
  by (simp add: keeps_def modify_def)

lemma keeps_if: "keeps R m \<Longrightarrow> keeps R k \<Longrightarrow> keeps R (if b then m else k)"
  by simp

lemma keeps_look: "(\<And>s. keeps R (f s)) \<Longrightarrow> keeps R (look f)"
  by (simp add: keeps_def look_def)

lemmas keeps_intros = keeps_ret keeps_raise keeps_gets keeps_bnd keeps_thn keeps_discard keeps_map_err
  keeps_attempt keeps_whenM keeps_look

end

lemma keeps_on_store:
  "(\<And>s st. R s (s\<lparr>se_store := st\<rparr>)) \<Longrightarrow> keeps R (on_store op)"
  by (simp add: keeps_def on_store_def split: prod.splits)

end
