(* ===== verification/Tls_Config.thy ===== *)
theory Tls_Config
  imports Settings
begin

text \<open>
  \<open>src/tls.rs\<close>: the TLS configurations built from a session's settings. Reading files and the rustls
  crates are arguments (\<open>rustls\<close>): what a file holds, the certificates and the key found in it, and
  whether rustls accepts what it is given. A configuration is what rustls is told: whom to trust,
  which certificate to present, the name to verify. \<open>NoVerify\<close> accepts every server certificate.
\<close>

record rustls =
  rl_read :: "bytes \<Rightarrow> bytes + bytes"
  rl_certs :: "bytes \<Rightarrow> bytes + bytes list"
  rl_private_key :: "bytes \<Rightarrow> bytes + bytes option"
  rl_add_root :: "bytes \<Rightarrow> bytes + unit"
  rl_versions :: "bytes + unit"
  rl_client_verifier :: "bytes list \<Rightarrow> bytes + unit"
  rl_single_cert :: "bytes list \<Rightarrow> bytes \<Rightarrow> bytes + unit"
  rl_client_auth_cert :: "bytes list \<Rightarrow> bytes \<Rightarrow> bytes + unit"
  rl_server_name :: "bytes \<Rightarrow> bytes + bytes"

record tls_acceptor =
  ta_client_roots :: "bytes list option"
  ta_certs :: "bytes list"
  ta_key :: bytes

datatype server_verification = NoVerify | Roots "bytes list"

record client_tls_config =
  ct_verification :: server_verification
  ct_client_auth :: "(bytes list \<times> bytes) option"
  ct_server_name :: bytes

fun tls_err :: "bytes \<Rightarrow> bytes + 'a \<Rightarrow> error + 'a" where
  "tls_err what (Inl e) = Inl (TlsError (what @ e))"
| "tls_err what (Inr a) = Inr a"

definition load_certs :: "rustls \<Rightarrow> bytes \<Rightarrow> error + bytes list" where
  "load_certs rl path =
     ebind (tls_err (''cannot read certificate '' @ path @ '': '') (rl_read rl path)) (\<lambda>data.
     ebind (tls_err (''bad certificate '' @ path @ '': '') (rl_certs rl data)) (\<lambda>certs.
       if certs = [] then Inl (TlsError (''no certificates found in '' @ path)) else Inr certs))"

definition load_key :: "rustls \<Rightarrow> bytes \<Rightarrow> error + bytes" where
  "load_key rl path =
     ebind (tls_err (''cannot read private key '' @ path @ '': '') (rl_read rl path)) (\<lambda>data.
     ebind (tls_err (''bad private key '' @ path @ '': '') (rl_private_key rl data)) (\<lambda>key.
       case key of None \<Rightarrow> Inl (TlsError (''no private key found in '' @ path)) | Some k \<Rightarrow> Inr k))"

fun add_roots :: "rustls \<Rightarrow> bytes \<Rightarrow> bytes list \<Rightarrow> bytes list \<Rightarrow> error + bytes list" where
  "add_roots rl ca_file [] roots = Inr roots"
| "add_roots rl ca_file (c # cs) roots =
     ebind (tls_err (''bad CA certificate in '' @ ca_file @ '': '') (rl_add_root rl c)) (\<lambda>_.
       add_roots rl ca_file cs (roots @ [c]))"

definition root_store :: "rustls \<Rightarrow> bytes \<Rightarrow> error + bytes list" where
  "root_store rl ca_file = ebind (load_certs rl ca_file) (\<lambda>certs. add_roots rl ca_file certs [])"

definition required_file :: "bytes \<Rightarrow> bytes option \<Rightarrow> error + bytes" where
  "required_file setting f =
     (case f of Some path \<Rightarrow> Inr path | None \<Rightarrow> Inl (TlsError (''acceptor SocketUseSSL=Y requires '' @ setting)))"

definition build_acceptor :: "rustls \<Rightarrow> tls_settings \<Rightarrow> error + tls_acceptor" where
  "build_acceptor rl tls =
     ebind (required_file ''SocketCertificateFile'' (tls_certificate_file tls)) (\<lambda>cert_file.
     ebind (required_file ''SocketPrivateKeyFile'' (tls_private_key_file tls)) (\<lambda>key_file.
     ebind (load_certs rl cert_file) (\<lambda>certs.
     ebind (load_key rl key_file) (\<lambda>key.
     ebind (tls_err [] (rl_versions rl)) (\<lambda>_.
     ebind (case tls_ca_file tls of
              Some ca \<Rightarrow> ebind (root_store rl ca) (\<lambda>roots.
                 ebind (tls_err [] (rl_client_verifier rl roots)) (\<lambda>_. Inr (Some roots)))
            | None \<Rightarrow> Inr None) (\<lambda>client_roots.
     ebind (tls_err ''invalid certificate/key: '' (rl_single_cert rl certs key)) (\<lambda>_.
       Inr \<lparr>ta_client_roots = client_roots, ta_certs = certs, ta_key = key\<rparr>)))))))"

definition webpki_roots :: "bytes list" where
  "webpki_roots = []"

definition build_connector :: "rustls \<Rightarrow> tls_settings \<Rightarrow> bytes \<Rightarrow> error + client_tls_config" where
  "build_connector rl tls connect_host =
     ebind (tls_err [] (rl_versions rl)) (\<lambda>_.
     ebind (if tls_insecure_skip_verify tls then Inr NoVerify
            else ebind (case tls_ca_file tls of Some ca \<Rightarrow> root_store rl ca | None \<Rightarrow> Inr webpki_roots)
                   (\<lambda>roots. Inr (Roots roots))) (\<lambda>verified.
     ebind (case (tls_certificate_file tls, tls_private_key_file tls) of
              (Some cert, Some key) \<Rightarrow>
                ebind (load_certs rl cert) (\<lambda>certs.
                ebind (load_key rl key) (\<lambda>k.
                ebind (tls_err ''invalid client certificate/key: '' (rl_client_auth_cert rl certs k)) (\<lambda>_. Inr (Some (certs, k)))))
            | _ \<Rightarrow> Inr None) (\<lambda>auth.
     ebind (tls_err ''invalid SocketServerName: ''
              (rl_server_name rl (case tls_server_name tls of Some n \<Rightarrow> n | None \<Rightarrow> connect_host))) (\<lambda>name.
       Inr \<lparr>ct_verification = verified, ct_client_auth = auth, ct_server_name = name\<rparr>))))"

section \<open>Whom a configuration trusts\<close>

lemma load_certs_nonempty: "load_certs rl path = Inr certs \<Longrightarrow> certs \<noteq> []"
  by (auto simp: load_certs_def ebind_Inr_iff split: if_splits)

lemma add_roots_all: "add_roots rl ca certs roots = Inr roots' \<Longrightarrow> roots' = roots @ certs"
  by (induction certs arbitrary: roots) (fastforce simp: ebind_Inr_iff)+

lemma root_store_certs: "root_store rl ca = Inr roots \<Longrightarrow> load_certs rl ca = Inr roots \<and> roots \<noteq> []"
  by (auto simp: root_store_def ebind_Inr_iff dest: add_roots_all load_certs_nonempty)

definition acceptor_trust :: "rustls \<Rightarrow> tls_settings \<Rightarrow> tls_acceptor \<Rightarrow> bool" where
  "acceptor_trust rl tls acc \<longleftrightarrow>
     ta_certs acc \<noteq> [] \<and> tls_certificate_file tls \<noteq> None \<and> tls_private_key_file tls \<noteq> None
     \<and> (case tls_ca_file tls of
          None \<Rightarrow> ta_client_roots acc = None
        | Some ca \<Rightarrow> (case ta_client_roots acc of
                        None \<Rightarrow> False
                      | Some roots \<Rightarrow> load_certs rl ca = Inr roots \<and> roots \<noteq> []))"

definition connector_trust :: "rustls \<Rightarrow> tls_settings \<Rightarrow> client_tls_config \<Rightarrow> bool" where
  "connector_trust rl tls con \<longleftrightarrow>
     (case ct_verification con of
        NoVerify \<Rightarrow> tls_insecure_skip_verify tls
      | Roots roots \<Rightarrow> \<not> tls_insecure_skip_verify tls
          \<and> (case tls_ca_file tls of None \<Rightarrow> roots = [] | Some ca \<Rightarrow> load_certs rl ca = Inr roots \<and> roots \<noteq> []))"

lemma build_acceptor_trust: "build_acceptor rl tls = Inr acc \<Longrightarrow> acceptor_trust rl tls acc"
  by (auto simp: build_acceptor_def acceptor_trust_def required_file_def ebind_Inr_iff
      dest: load_certs_nonempty root_store_certs split: option.splits)

lemma build_connector_trust: "build_connector rl tls host = Inr con \<Longrightarrow> connector_trust rl tls con"
  by (auto simp: build_connector_def connector_trust_def ebind_Inr_iff webpki_roots_def
      dest: root_store_certs split: if_splits option.splits)

end
