(* ===== verification/Connections.thy ===== *)
theory Connections
  imports Session_State Tls_Config
begin

text \<open>
  \<open>src/transport.rs\<close>, new connections. The acceptor reads the first frame off the stream, looks the
  session it belongs to up by the identities in its header, and hands the connection over with the
  first frame in front of those that follow; the initiator dials, hands its connection over and
  dials again when it is gone. What the network, the clock and the session's task answer are
  arguments: the reads, what ends them, the TLS handshake from the bytes on the wire to those
  inside, the answers to the status requests made until the deadline, and the attempts to connect.
\<close>

type_synonym session_key = "bytes \<times> bytes \<times> bytes"

text \<open>
  The first frame, with the rest of the buffer and the reads still to come. \<open>ending\<close> is how the reads
  stop: the peer closed the connection, a read error, or the timeout.
\<close>

fun first_frame :: "bytes \<Rightarrow> bytes list \<Rightarrow> bytes \<Rightarrow> (bytes, bytes \<times> bytes \<times> bytes list) res" where
  "first_frame buf reads ending =
     (case extract_frame buf of
        (FrameMessage raw, rest) \<Rightarrow> Ok (raw, rest, reads)
      | (Incomplete, rest) \<Rightarrow>
          (case reads of [] \<Rightarrow> Err ending | r # rs \<Rightarrow> first_frame (rest @ r) rs ending))"

declare first_frame.simps [simp del]

definition header_text :: "message \<Rightarrow> tag \<Rightarrow> (bytes, bytes) res" where
  "header_text m t =
     (case get_raw t (header m) of
        Some v \<Rightarrow> Ok (from_utf8_lossy v)
      | None \<Rightarrow> Err (''first message missing tag '' @ dec_int t))"

text \<open>Their sender is our target and vice versa.\<close>

definition connection_key :: "message \<Rightarrow> (bytes, session_key) res" where
  "connection_key m =
     res_bind (header_text m BEGIN_STRING) (\<lambda>b.
     res_bind (header_text m TARGET_COMP_ID) (\<lambda>s.
     res_bind (header_text m SENDER_COMP_ID) (\<lambda>t. Ok (b, s, t))))"

text \<open>Waiting for the session to notice that its last connection is gone.\<close>

fun wait_free :: "bool option list \<Rightarrow> (bytes, unit) res" where
  "wait_free [] = Err ''session already has an active connection''"
| "wait_free (Some False # ps) = Ok ()"
| "wait_free (Some True # ps) = wait_free ps"
| "wait_free (None # ps) = Err ''session task not running''"

definition parse_first :: "bytes \<Rightarrow> (bytes, message) res" where
  "parse_first raw =
     (case message_parse raw False of
        Ok m \<Rightarrow> Ok m
      | Err e \<Rightarrow> Err (''unparseable first message: '' @ error_display e)
      | Panic \<Rightarrow> Panic)"

fun find_session :: "(session_key \<times> 'h) list \<Rightarrow> session_key \<Rightarrow> (bytes, 'h) res" where
  "find_session registry (b, s, t) =
     (case map_of registry (b, s, t) of
        Some h \<Rightarrow> Ok h
      | None \<Rightarrow> Err (''no session configured for '' @ b @ '':'' @ s @ ''->'' @ t))"

definition handle_connection ::
  "(session_key \<times> 'h) list \<Rightarrow> bytes list \<Rightarrow> bytes \<Rightarrow> bool option list \<Rightarrow> (bytes, 'h \<times> bytes list) res" where
  "handle_connection registry reads ending polls =
     res_bind (first_frame [] reads ending) (\<lambda>(first, rest, later).
     res_bind (parse_first first) (\<lambda>m.
     res_bind (connection_key m) (\<lambda>key.
     res_bind (find_session registry key) (\<lambda>h.
     res_bind (wait_free polls) (\<lambda>_.
       Ok (h, first # read_task rest later))))))"

datatype tls = TlsNone | TlsServer tls_acceptor | TlsClient client_tls_config

definition accept_connection ::
  "(tls_acceptor \<Rightarrow> bytes list \<Rightarrow> bytes + bytes list) \<Rightarrow> tls \<Rightarrow> (session_key \<times> 'h) list \<Rightarrow> bytes list \<Rightarrow> bytes
     \<Rightarrow> bool option list \<Rightarrow> (bytes, 'h \<times> bytes list) res" where
  "accept_connection handshake t registry wire ending polls =
     (case t of
        TlsNone \<Rightarrow> handle_connection registry wire ending polls
      | TlsServer acc \<Rightarrow>
          (case handshake acc wire of
             Inl e \<Rightarrow> Err (''TLS handshake failed: '' @ e)
           | Inr reads \<Rightarrow> handle_connection registry reads ending polls)
      | TlsClient _ \<Rightarrow> Err ''acceptor was given client TLS config'')"

text \<open>
  The acceptor's loop over the outcomes of \<open>accept\<close>: a connection (its reads, how it ends and the
  session's answers while it waits) or an error, after which the loop goes on. Every connection has
  a task of its own; these are their results.
\<close>

datatype accepted = Accepted "bytes list" bytes "bool option list" | AcceptError

fun run_acceptor ::
  "(tls_acceptor \<Rightarrow> bytes list \<Rightarrow> bytes + bytes list) \<Rightarrow> tls \<Rightarrow> (session_key \<times> 'h) list \<Rightarrow> accepted list
     \<Rightarrow> (bytes, 'h \<times> bytes list) res list" where
  "run_acceptor handshake t registry [] = []"
| "run_acceptor handshake t registry (Accepted wire ending polls # accepts) =
     accept_connection handshake t registry wire ending polls # run_acceptor handshake t registry accepts"
| "run_acceptor handshake t registry (AcceptError # accepts) = run_acceptor handshake t registry accepts"

text \<open>
  One attempt of the initiator: the frames its connection will deliver, or \<open>None\<close> when the session has
  stopped.
\<close>

definition attach_initiator ::
  "(client_tls_config \<Rightarrow> bytes list \<Rightarrow> bytes + bytes list) \<Rightarrow> tls \<Rightarrow> bytes list \<Rightarrow> bool \<Rightarrow> bytes + bytes list option" where
  "attach_initiator handshake t wire running =
     ebind (case t of
              TlsNone \<Rightarrow> Inr wire
            | TlsClient con \<Rightarrow>
                (case handshake con wire of Inl e \<Rightarrow> Inl (''TLS handshake failed: '' @ e) | Inr reads \<Rightarrow> Inr reads)
            | TlsServer _ \<Rightarrow> Inl ''initiator was given server TLS config'')
       (\<lambda>reads. Inr (if running then Some (read_task [] reads) else None))"

text \<open>
  The attempts to connect: \<open>None\<close> for one that failed, otherwise what the peer will send and whether
  the session is still running. The connections handed over, and whether the loop has ended.
\<close>

fun run_initiator ::
  "(client_tls_config \<Rightarrow> bytes list \<Rightarrow> bytes + bytes list) \<Rightarrow> tls \<Rightarrow> (bytes list \<times> bool) option list \<Rightarrow> bytes list list \<times> bool" where
  "run_initiator handshake t [] = ([], False)"
| "run_initiator handshake t (None # dials) = run_initiator handshake t dials"
| "run_initiator handshake t (Some (wire, running) # dials) =
     (case attach_initiator handshake t wire running of
        Inl _ \<Rightarrow> run_initiator handshake t dials
      | Inr None \<Rightarrow> ([], True)
      | Inr (Some frames) \<Rightarrow> (case run_initiator handshake t dials of (conns, ended) \<Rightarrow> (frames # conns, ended)))"

lemma parse_first_Ok_iff: "parse_first raw = Ok m \<longleftrightarrow> message_parse raw False = Ok m"
  by (simp add: parse_first_def split: res.splits)

lemma find_session_Ok_iff: "find_session registry key = Ok h \<longleftrightarrow> map_of registry key = Some h"
  by (cases key) (simp split: option.splits)

section \<open>The handed over connection\<close>

lemma first_frame_drain:
  assumes "first_frame buf reads ending = Ok (raw, rest, later)"
  shows "drain_frames (buf @ concat reads) =
    (case drain_frames (rest @ concat later) of (raws, left) \<Rightarrow> (raw # raws, left))"
  using assms
proof (induction buf reads ending rule: first_frame.induct)
  case (1 buf reads ending)
  obtain f r where e: "extract_frame buf = (f, r)" by (cases "extract_frame buf")
  show ?case
  proof (cases f)
    case (FrameMessage raw')
    then have "raw' = raw" "r = rest" "reads = later" using "1.prems" e by (simp_all add: first_frame.simps [of buf])
    then show ?thesis
      using extract_frame_message_append [of buf raw r "concat reads"] e FrameMessage
      by (simp add: drain_frames.simps [of "buf @ concat later"])
  next
    case Incomplete
    then obtain c cs where c: "reads = c # cs" "first_frame (r @ c) cs ending = Ok (raw, rest, later)"
      using "1.prems" e by (auto simp: first_frame.simps [of buf] split: list.splits)
    have "drain_frames (buf @ concat reads) = drain_frames (r @ concat reads)"
      using drain_frames_append [of buf "concat reads"] e Incomplete by (simp add: drain_frames.simps [of buf] split: prod.splits)
    then show ?thesis using "1.IH" [OF e [symmetric] Incomplete c] c(1) by simp
  qed
qed

lemma first_frame_read_task:
  "first_frame [] reads ending = Ok (raw, rest, later) \<Longrightarrow> raw # read_task rest later = read_task [] reads"
  using first_frame_drain [of "[]"] by (simp add: read_task_drain split: prod.splits)

text \<open>
  A connection that is handed to a session loses nothing on the way: the session gets exactly
  the frames of the whole stream, the first one - which was read to find the session - included and
  in front, however the stream was cut into reads; and the session is the one registered for the
  BeginString, TargetCompID and SenderCompID of that first frame.
\<close>

lemma handed_over_complete:
  assumes "handle_connection registry reads ending polls = Ok (h, frames)"
  shows "frames = read_task [] reads
    \<and> (\<exists>m key. frames \<noteq> [] \<and> message_parse (hd frames) False = Ok m
         \<and> connection_key m = Ok key \<and> map_of registry key = Some h)"
proof -
  obtain first rest later m key where f: "first_frame [] reads ending = Ok (first, rest, later)"
    and m: "message_parse first False = Ok m" "connection_key m = Ok key" "map_of registry key = Some h"
    and fs: "frames = first # read_task rest later"
    using assms by (auto simp: handle_connection_def res_bind_Ok_iff parse_first_Ok_iff find_session_Ok_iff
        simp del: find_session.simps)
  show ?thesis
    using fs first_frame_read_task [OF f, symmetric] m(1) by (intro conjI exI [of _ m] exI [of _ key] m(2,3)) simp_all
qed

text \<open>A connection whose first frame names a registered session that is free is handed over.\<close>

lemma first_frame_found:
  assumes "read_task buf reads = raw # raws"
  shows "\<exists>rest later. first_frame buf reads ending = Ok (raw, rest, later)"
  using assms
proof (induction buf reads ending rule: first_frame.induct)
  case (1 buf reads ending)
  obtain f r where e: "extract_frame buf = (f, r)" by (cases "extract_frame buf")
  show ?case
  proof (cases f)
    case (FrameMessage raw')
    then have "raw' = raw"
      using "1.prems" e by (cases reads) (auto simp: drain_frames.simps [of buf] split: prod.splits)
    then show ?thesis using e FrameMessage by (simp add: first_frame.simps [of buf])
  next
    case Incomplete
    then obtain c cs where c: "reads = c # cs" "read_task (r @ c) cs = raw # raws"
      using "1.prems" e by (cases reads) (auto simp: drain_frames.simps [of buf])
    then show ?thesis using "1.IH" [OF e [symmetric] Incomplete c] e Incomplete by (simp add: first_frame.simps [of buf])
  qed
qed

lemma routed:
  assumes "read_task [] reads = raw # raws" and "message_parse raw False = Ok m"
    and "connection_key m = Ok key" and "map_of registry key = Some h"
  shows "handle_connection registry reads ending [Some False] = Ok (h, read_task [] reads)"
proof -
  obtain rest later where f: "first_frame [] reads ending = Ok (raw, rest, later)"
    using first_frame_found [OF assms(1)] by blast
  then show ?thesis
    using assms(2-4) first_frame_read_task [OF f]
    by (simp add: handle_connection_def parse_first_Ok_iff [THEN iffD2] find_session_Ok_iff [THEN iffD2] del: find_session.simps)
qed

text \<open>The bytes on the wire that carry the given reads, under the acceptor's TLS.\<close>

definition carries :: "(tls_acceptor \<Rightarrow> bytes list \<Rightarrow> bytes + bytes list) \<Rightarrow> tls \<Rightarrow> bytes list \<Rightarrow> bytes list \<Rightarrow> bool" where
  "carries handshake t wire reads \<longleftrightarrow>
     (case t of TlsNone \<Rightarrow> wire = reads | TlsServer acc \<Rightarrow> handshake acc wire = Inr reads | TlsClient _ \<Rightarrow> False)"

lemma accept_connection_carries:
  "carries handshake t wire reads \<Longrightarrow>
    accept_connection handshake t registry wire ending polls = handle_connection registry reads ending polls"
  by (auto simp: carries_def accept_connection_def split: tls.splits)

section \<open>A connection\<close>

lemma sample_read: "read_task [] [to_bytes sample_message] = [to_bytes sample_message]"
  using drain_frames_Cons [of sample_message "[]"] sample_message_wf sample_message_size by (simp add: read_task_drain drain_frames_Nil)

lemma sample_read_split:
  "read_task [] [take 7 (to_bytes sample_message), drop 7 (to_bytes sample_message)] = [to_bytes sample_message]"
  using sample_read by (simp only: read_task_drain) simp

lemma sample_connection_key: "connection_key (wire_form sample_message) = Ok (''FIX.4.2'', ''ISLD'', ''TW'')"
  using get_raw_wire_form [of _ sample_message] begin_wire_form [of sample_message]
  by (simp add: connection_key_def header_text_def sample_message_def begin_string_of_def from_utf8_lossy_ok
      utf8_ok_ascii byte_of_def)

lemma handed_over_complete_witness:
  "\<exists>h frames. handle_connection [((''FIX.4.2'', ''ISLD'', ''TW''), 7 :: nat)]
       [take 7 (to_bytes sample_message), drop 7 (to_bytes sample_message)] ''timeout'' [Some False] = Ok (h, frames)
     \<and> frames = [to_bytes sample_message]"
proof -
  let ?reads = "[take 7 (to_bytes sample_message), drop 7 (to_bytes sample_message)]"
  have h: "handle_connection [((''FIX.4.2'', ''ISLD'', ''TW''), 7 :: nat)] ?reads ''timeout'' [Some False] = Ok (7, read_task [] ?reads)"
    by (rule routed [OF sample_read_split parse_to_bytes [OF sample_message_wf] sample_connection_key]) simp
  from handed_over_complete [OF h] h show ?thesis by (simp only: sample_read_split) blast
qed

end
