(* ===== verification/Dictionary_Load.thy ===== *)
theory Dictionary_Load
  imports Data_Dictionary
begin

text \<open>
  \<open>src/datadictionary.rs\<close>, loading a dictionary from its XML. The XML reader is the crate
  \<open>quick_xml\<close>; what the loader sees of it is the sequence of events up to the end of the file, the
  argument of \<open>parse_xml\<close> here. Components refer to each other by name, so the recursion that expands
  them follows the document and not its tree: it takes the depth of the stack as fuel, and
  \<open>None\<close> is the recursion that did not return within it. A chain of references that closes on
  itself never does.
\<close>

section \<open>The document\<close>

datatype node = Node (nd_name: bytes) (nd_attrs: "(bytes \<times> bytes) list") (nd_children: "node list")

text \<open>An element's attributes come one by one, each a key and a value or an error.\<close>

datatype xml_event =
    XmlStart bytes "(bytes + bytes \<times> bytes) list"
  | XmlEmpty bytes "(bytes + bytes \<times> bytes) list"
  | XmlEnd
  | XmlOther
  | XmlError bytes

fun read_attrs :: "(bytes + bytes \<times> bytes) list \<Rightarrow> (bytes \<times> bytes) list \<Rightarrow> (error, (bytes \<times> bytes) list) res" where
  "read_attrs [] attrs = Ok attrs"
| "read_attrs (Inl e # as) attrs = Err (DictionaryError (''bad attribute: '' @ e))"
| "read_attrs (Inr (k, v) # as) attrs = read_attrs as (hm_insert (from_utf8_lossy k) (from_utf8_lossy v) attrs)"

definition read_node :: "bytes \<Rightarrow> (bytes + bytes \<times> bytes) list \<Rightarrow> (error, node) res" where
  "read_node name as = res_bind (read_attrs as []) (\<lambda>attrs. Ok (Node (from_utf8_lossy name) attrs []))"

fun add_child :: "node \<Rightarrow> node \<Rightarrow> node" where
  "add_child (Node n as cs) c = Node n as (cs @ [c])"

text \<open>The stack of open elements, innermost first.\<close>

fun xml_loop :: "xml_event list \<Rightarrow> node list \<Rightarrow> (error, node list) res" where
  "xml_loop [] stack = Ok stack"
| "xml_loop (XmlStart n as # evs) stack = res_bind (read_node n as) (\<lambda>nd. xml_loop evs (nd # stack))"
| "xml_loop (XmlEmpty n as # evs) stack =
     res_bind (read_node n as) (\<lambda>nd.
       case stack of [] \<Rightarrow> Panic | parent # rest \<Rightarrow> xml_loop evs (add_child parent nd # rest))"
| "xml_loop (XmlEnd # evs) stack =
     (case stack of
        [] \<Rightarrow> Panic
      | [nd] \<Rightarrow> Err (DictionaryError ''unbalanced XML'')
      | nd # parent # rest \<Rightarrow> xml_loop evs (add_child parent nd # rest))"
| "xml_loop (XmlOther # evs) stack = xml_loop evs stack"
| "xml_loop (XmlError e # evs) stack = Err (DictionaryError (''XML parse error: '' @ e))"

definition child :: "node \<Rightarrow> bytes \<Rightarrow> node option" where
  "child nd name = find (\<lambda>c. nd_name c = name) (nd_children nd)"

definition parse_xml :: "xml_event list \<Rightarrow> (error, node) res" where
  "parse_xml evs =
     res_bind (xml_loop evs [Node ''(root)'' [] []]) (\<lambda>stack.
       case stack of
         [] \<Rightarrow> Err (DictionaryError ''empty document'')
       | root # _ \<Rightarrow>
           (case child root ''fix'' of
              Some nd \<Rightarrow> Ok nd
            | None \<Rightarrow> Err (DictionaryError ''no <fix> root element'')))"

section \<open>Expanding components and groups\<close>

text \<open>\<open>HashSet::insert\<close> and \<open>extend\<close>.\<close>

definition hs_insert :: "'a \<Rightarrow> 'a list \<Rightarrow> 'a list" where
  "hs_insert x xs = (if x \<in> set xs then xs else xs @ [x])"

definition hs_extend :: "'a list \<Rightarrow> 'a list \<Rightarrow> 'a list" where
  "hs_extend xs ys = foldl (\<lambda>xs y. hs_insert y xs) xs ys"

definition attr_or_empty :: "node \<Rightarrow> bytes \<Rightarrow> bytes" where
  "attr_or_empty nd k = (case map_of (nd_attrs nd) k of Some v \<Rightarrow> v | None \<Rightarrow> [])"

definition is_required :: "node \<Rightarrow> bool" where
  "is_required nd \<longleftrightarrow> map_of (nd_attrs nd) ''required'' = Some ''Y''"

fun call_bind :: "('e, 'a) res option \<Rightarrow> ('a \<Rightarrow> ('e, 'b) res option) \<Rightarrow> ('e, 'b) res option" where
  "call_bind None f = None"
| "call_bind (Some (Ok a)) f = f a"
| "call_bind (Some (Err e)) f = Some (Err e)"
| "call_bind (Some Panic) f = Some Panic"

definition lookup_tag :: "(bytes \<times> tag) list \<Rightarrow> bytes \<Rightarrow> bytes \<Rightarrow> (error, tag) res" where
  "lookup_tag tags_by_name what name =
     (case map_of tags_by_name name of
        Some t \<Rightarrow> Ok t | None \<Rightarrow> Err (DictionaryError (''unknown '' @ what @ '' '' @ name)))"

definition lookup_component :: "(bytes \<times> node) list \<Rightarrow> bytes \<Rightarrow> (error, node) res" where
  "lookup_component components name =
     (case map_of components name of
        Some nd \<Rightarrow> Ok nd | None \<Rightarrow> Err (DictionaryError (''unknown component '' @ name)))"

definition push_if :: "bool \<Rightarrow> 'a \<Rightarrow> 'a list \<Rightarrow> 'a list" where
  "push_if b x xs = (if b then xs @ [x] else xs)"

text \<open>A group under construction: its tags, required members, nested groups and direct members in order.\<close>

record group_acc =
  ga_tags :: "tag list"
  ga_required :: "tag list"
  ga_groups :: "(tag \<times> group_def) list"
  ga_order :: "tag list"

definition empty_group :: group_acc where
  "empty_group = \<lparr>ga_tags = [], ga_required = [], ga_groups = [], ga_order = []\<rparr>"

definition close_group :: "bytes \<Rightarrow> tag \<Rightarrow> group_acc \<Rightarrow> (error, group_def) res" where
  "close_group name counter g =
     (case ga_order g of
        [] \<Rightarrow> Err (DictionaryError (''empty group '' @ name))
      | first # _ \<Rightarrow> Ok (GroupDef counter first (ga_tags g) (ga_required g) (ga_groups g) (ga_order g)))"

definition group_field :: "bool \<Rightarrow> tag \<Rightarrow> group_acc \<Rightarrow> group_acc" where
  "group_field required t g =
     g\<lparr>ga_tags := hs_insert t (ga_tags g), ga_order := ga_order g @ [t],
       ga_required := push_if required t (ga_required g)\<rparr>"

definition group_nested :: "tag \<Rightarrow> group_def \<Rightarrow> group_acc \<Rightarrow> group_acc" where
  "group_nested counter nested g =
     g\<lparr>ga_tags := hs_extend (ga_tags g) (gd_tags nested), ga_groups := hm_insert counter nested (ga_groups g)\<rparr>"

fun collect_group ::
  "nat \<Rightarrow> (bytes \<times> tag) list \<Rightarrow> (bytes \<times> node) list \<Rightarrow> node list \<Rightarrow> group_acc \<Rightarrow> (error, group_acc) res option" where
  "collect_group depth tbn comps [] g = Some (Ok g)"
| "collect_group depth tbn comps (c # cs) g =
     call_bind
       (let name = attr_or_empty c ''name'' in
        if nd_name c = ''field'' then
          call_bind (Some (lookup_tag tbn ''field'' name)) (\<lambda>t. Some (Ok (group_field (is_required c) t g)))
        else if nd_name c = ''component'' then
          call_bind (Some (lookup_component comps name)) (\<lambda>def.
            case depth of 0 \<Rightarrow> None | Suc d \<Rightarrow> collect_group d tbn comps (nd_children def) g)
        else if nd_name c = ''group'' then
          call_bind (Some (lookup_tag tbn ''group'' name)) (\<lambda>counter.
          call_bind (case depth of 0 \<Rightarrow> None | Suc d \<Rightarrow> collect_group d tbn comps (nd_children c) empty_group) (\<lambda>n.
          call_bind (Some (close_group name counter n)) (\<lambda>nested.
            Some (Ok (group_nested counter nested (group_field (is_required c) counter g))))))
        else Some (Ok g))
       (\<lambda>g'. collect_group depth tbn comps cs g')"

text \<open>A message under construction.\<close>

record message_acc =
  ma_tags :: "tag list"
  ma_required :: "tag list"
  ma_groups :: "(tag \<times> group_def) list"
  ma_order :: "tag list"

definition empty_message :: message_acc where
  "empty_message = \<lparr>ma_tags = [], ma_required = [], ma_groups = [], ma_order = []\<rparr>"

definition message_field :: "bool \<Rightarrow> tag \<Rightarrow> message_acc \<Rightarrow> message_acc" where
  "message_field required t m =
     m\<lparr>ma_tags := hs_insert t (ma_tags m),
       ma_order := (if t \<in> set (ma_tags m) then ma_order m else ma_order m @ [t]),
       ma_required := push_if required t (ma_required m)\<rparr>"

definition message_group :: "tag \<Rightarrow> group_def \<Rightarrow> message_acc \<Rightarrow> message_acc" where
  "message_group counter g m =
     m\<lparr>ma_tags := hs_extend (ma_tags m) (gd_tags g), ma_groups := hm_insert counter g (ma_groups m)\<rparr>"

text \<open>What a component adds counts as required only when the reference to the component is.\<close>

fun collect ::
  "nat \<Rightarrow> (bytes \<times> tag) list \<Rightarrow> (bytes \<times> node) list \<Rightarrow> node list \<Rightarrow> message_acc \<Rightarrow> (error, message_acc) res option" where
  "collect depth tbn comps [] m = Some (Ok m)"
| "collect depth tbn comps (c # cs) m =
     call_bind
       (let name = attr_or_empty c ''name'' in
        if nd_name c = ''field'' then
          call_bind (Some (lookup_tag tbn ''field'' name)) (\<lambda>t. Some (Ok (message_field (is_required c) t m)))
        else if nd_name c = ''component'' then
          call_bind (Some (lookup_component comps name)) (\<lambda>def.
          call_bind (case depth of 0 \<Rightarrow> None
                     | Suc d \<Rightarrow> collect d tbn comps (nd_children def) (m\<lparr>ma_required := []\<rparr>)) (\<lambda>m'.
            Some (Ok (m'\<lparr>ma_required := (if is_required c then ma_required m @ ma_required m' else ma_required m)\<rparr>))))
        else if nd_name c = ''group'' then
          call_bind (Some (lookup_tag tbn ''group'' name)) (\<lambda>counter.
          call_bind (case depth of 0 \<Rightarrow> None | Suc d \<Rightarrow> collect_group d tbn comps (nd_children c) empty_group) (\<lambda>n.
          call_bind (Some (close_group name counter n)) (\<lambda>g.
            Some (Ok (message_group counter g (message_field (is_required c) counter m))))))
        else Some (Ok m))
       (\<lambda>m'. collect depth tbn comps cs m')"

section \<open>The whole dictionary\<close>

definition read_field :: "bool \<Rightarrow> node \<Rightarrow> (error, field_def) res" where
  "read_field char_is_string f =
     (case Option.bind (map_of (nd_attrs f) ''number'') parse_i32 of
        None \<Rightarrow> Err (DictionaryError ''field without number'')
      | Some t \<Rightarrow>
          (let ft = field_type_from_name (attr_or_empty f ''type'');
               enums = List.map_filter (\<lambda>c. case map_of (nd_attrs c) ''enum'' of
                          None \<Rightarrow> None | Some v \<Rightarrow> Some (v, attr_or_empty c ''description''))
                        (filter (\<lambda>c. nd_name c = ''value'') (nd_children f))
           in Ok \<lparr>fd_tag = t, fd_name = attr_or_empty f ''name'',
                  fd_type = (if char_is_string \<and> ft = FtChar then FtString else ft),
                  fd_values = map fst enums, fd_enum_values = enums\<rparr>))"

fun load_fields :: "bool \<Rightarrow> node list \<Rightarrow> data_dictionary \<Rightarrow> (error, data_dictionary) res" where
  "load_fields cis [] dd = Ok dd"
| "load_fields cis (f # fs) dd =
     res_bind (read_field cis f) (\<lambda>fd.
       load_fields cis fs
         (dd\<lparr>dd_tags_by_name := hm_insert (fd_name fd) (fd_tag fd) (dd_tags_by_name dd),
             dd_fields_by_tag := hm_insert (fd_tag fd) fd (dd_fields_by_tag dd)\<rparr>))"

definition elements :: "node \<Rightarrow> bytes \<Rightarrow> bytes \<Rightarrow> node list" where
  "elements fix section name =
     (case child fix section of None \<Rightarrow> [] | Some s \<Rightarrow> filter (\<lambda>c. nd_name c = name) (nd_children s))"

definition load_components :: "node \<Rightarrow> (bytes \<times> node) list" where
  "load_components fix =
     foldl (\<lambda>m c. case map_of (nd_attrs c) ''name'' of None \<Rightarrow> m | Some n \<Rightarrow> hm_insert n c m) []
       (elements fix ''components'' ''component'')"

definition collect_section ::
  "nat \<Rightarrow> (bytes \<times> tag) list \<Rightarrow> (bytes \<times> node) list \<Rightarrow> node option \<Rightarrow> (error, message_acc option) res option" where
  "collect_section depth tbn comps s =
     (case s of None \<Rightarrow> Some (Ok None)
      | Some nd \<Rightarrow> call_bind (collect depth tbn comps (nd_children nd) empty_message) (\<lambda>m. Some (Ok (Some m))))"

fun load_messages ::
  "nat \<Rightarrow> (bytes \<times> node) list \<Rightarrow> node list \<Rightarrow> data_dictionary \<Rightarrow> (error, data_dictionary) res option" where
  "load_messages depth comps [] dd = Some (Ok dd)"
| "load_messages depth comps (m # ms) dd =
     (case map_of (nd_attrs m) ''msgtype'' of
        None \<Rightarrow> Some (Err (DictionaryError ''message without msgtype''))
      | Some mt \<Rightarrow>
          call_bind (collect depth (dd_tags_by_name dd) comps (nd_children m) empty_message) (\<lambda>acc.
            load_messages depth comps ms
              (dd\<lparr>dd_messages := hm_insert mt
                   \<lparr>md_name = attr_or_empty m ''name'', md_msg_type = mt, md_tags = ma_tags acc,
                    md_required = ma_required acc, md_groups = ma_groups acc, md_field_order = ma_order acc\<rparr>
                   (dd_messages dd)\<rparr>)))"

definition set_header_section :: "message_acc option \<Rightarrow> data_dictionary \<Rightarrow> data_dictionary" where
  "set_header_section m dd =
     (case m of None \<Rightarrow> dd
      | Some m \<Rightarrow> dd\<lparr>dd_header_tags := ma_tags m, dd_header_required := ma_required m\<rparr>)"

definition set_trailer_section :: "message_acc option \<Rightarrow> data_dictionary \<Rightarrow> data_dictionary" where
  "set_trailer_section m dd =
     (case m of None \<Rightarrow> dd
      | Some m \<Rightarrow> dd\<lparr>dd_trailer_tags := ma_tags m, dd_trailer_required := ma_required m\<rparr>)"

definition new_dictionary :: "node \<Rightarrow> data_dictionary" where
  "new_dictionary fix =
     \<lparr>dd_begin_string = (if map_of (nd_attrs fix) ''type'' = Some ''FIXT'' then ''FIXT.'' else ''FIX.'')
          @ attr_or_empty fix ''major'' @ ''.'' @ attr_or_empty fix ''minor'',
      dd_fields_by_tag = [], dd_tags_by_name = [], dd_header_tags = [], dd_header_required = [],
      dd_trailer_tags = [], dd_trailer_required = [], dd_messages = []\<rparr>"

definition dictionary_of :: "nat \<Rightarrow> node \<Rightarrow> (error, data_dictionary) res option" where
  "dictionary_of depth fix =
     (let dd0 = new_dictionary fix;
          cis = (map_of (nd_attrs fix) ''type'' \<noteq> Some ''FIXT'' \<and> dd_begin_string dd0 < ''FIX.4.2'');
          comps = load_components fix
      in call_bind (Some (load_fields cis (elements fix ''fields'' ''field'') dd0)) (\<lambda>dd.
         call_bind (collect_section depth (dd_tags_by_name dd) comps (child fix ''header'')) (\<lambda>h.
         call_bind (collect_section depth (dd_tags_by_name dd) comps (child fix ''trailer'')) (\<lambda>t.
           load_messages depth comps (elements fix ''messages'' ''message'') (set_trailer_section t (set_header_section h dd))))))"

definition dictionary_parse :: "nat \<Rightarrow> xml_event list \<Rightarrow> (error, data_dictionary) res option" where
  "dictionary_parse depth evs = call_bind (Some (parse_xml evs)) (dictionary_of depth)"

section \<open>What is loaded is well-formed\<close>

lemma call_bind_Ok_iff: "call_bind x f = Some (Ok b) \<longleftrightarrow> (\<exists>a. x = Some (Ok a) \<and> f a = Some (Ok b))"
proof (cases x)
  case (Some r)
  then show ?thesis by (cases r) auto
qed simp

lemma set_hs_insert [simp]: "set (hs_insert x xs) = insert x (set xs)"
  by (auto simp: hs_insert_def)

lemma set_hs_extend [simp]: "set (hs_extend xs ys) = set xs \<union> set ys"
  unfolding hs_extend_def by (induction ys arbitrary: xs) auto

lemma set_push_if [simp]: "set (push_if b x xs) = (if b then insert x (set xs) else set xs)"
  by (simp add: push_if_def)

lemma set_hm_insert: "set (hm_insert k v m) = insert (k, v) {(k', v') \<in> set m. k' \<noteq> k}"
  by (auto simp: hm_insert_def)

lemma distinct_hm_insert [simp]: "distinct (map fst m) \<Longrightarrow> distinct (map fst (hm_insert k v m))"
  by (auto simp: hm_insert_def distinct_map inj_on_def)

text \<open>
  A group: the delimiter is the first direct member, members and required tags are among the
  group's tags, nested groups hang off a direct member and their tags are among the group's.
\<close>

fun group_wf :: "group_def \<Rightarrow> bool" where
  "group_wf (GroupDef counter delim ts req gs order) \<longleftrightarrow>
     order \<noteq> [] \<and> delim = hd order \<and> set order \<subseteq> set ts \<and> set req \<subseteq> set order
     \<and> distinct (map fst gs)
     \<and> (\<forall>(k, g) \<in> set gs. gd_counter g = k \<and> k \<in> set order \<and> set (gd_tags g) \<subseteq> set ts \<and> group_wf g)"

definition groups_within :: "tag set \<Rightarrow> tag set \<Rightarrow> (tag \<times> group_def) list \<Rightarrow> bool" where
  "groups_within keys ts gs \<longleftrightarrow>
     distinct (map fst gs)
     \<and> (\<forall>(k, g) \<in> set gs. gd_counter g = k \<and> k \<in> keys \<and> set (gd_tags g) \<subseteq> ts \<and> group_wf g)"

lemma groups_within_insert:
  assumes "groups_within keys ts gs" and "group_wf g" and "keys \<subseteq> keys'" and "ts \<subseteq> ts'" and "gd_counter g \<in> keys'"
    and "set (gd_tags g) \<subseteq> ts'"
  shows "groups_within keys' ts' (hm_insert (gd_counter g) g gs)"
  using assms unfolding groups_within_def by (auto simp: set_hm_insert) fast+

lemma groups_within_mono: "groups_within keys ts gs \<Longrightarrow> keys \<subseteq> keys' \<Longrightarrow> ts \<subseteq> ts' \<Longrightarrow> groups_within keys' ts' gs"
  unfolding groups_within_def by fast

text \<open>The invariant of a group under construction, with \<open>known\<close> the tags that have a definition.\<close>

definition group_acc_ok :: "tag set \<Rightarrow> group_acc \<Rightarrow> bool" where
  "group_acc_ok known g \<longleftrightarrow>
     set (ga_order g) \<subseteq> set (ga_tags g) \<and> set (ga_required g) \<subseteq> set (ga_order g) \<and> set (ga_tags g) \<subseteq> known
     \<and> groups_within (set (ga_order g)) (set (ga_tags g)) (ga_groups g)"

lemma group_acc_ok_empty: "group_acc_ok known empty_group"
  by (simp add: group_acc_ok_def empty_group_def groups_within_def)

lemma lookup_tag_known: "lookup_tag tbn what name = Ok t \<Longrightarrow> t \<in> snd ` set tbn"
  by (auto simp: lookup_tag_def image_iff split: option.splits dest!: map_of_SomeD intro: bexI [rotated])

lemma group_acc_ok_field: "group_acc_ok known g \<Longrightarrow> t \<in> known \<Longrightarrow> group_acc_ok known (group_field r t g)"
  by (auto simp: group_acc_ok_def group_field_def elim!: groups_within_mono)

lemma close_group_wf:
  assumes "close_group name counter g = Ok d" and "group_acc_ok known g"
  shows "group_wf d \<and> gd_counter d = counter \<and> set (gd_tags d) \<subseteq> known"
  using assms
  by (auto simp: close_group_def group_acc_ok_def groups_within_def split: list.splits)

lemma group_acc_ok_nested:
  assumes "group_acc_ok known g" and "group_wf d" and "gd_counter d \<in> set (ga_order g)" and "set (gd_tags d) \<subseteq> known"
  shows "group_acc_ok known (group_nested (gd_counter d) d g)"
proof -
  have "groups_within (set (ga_order g)) (set (ga_tags g) \<union> set (gd_tags d)) (hm_insert (gd_counter d) d (ga_groups g))"
    using assms by (intro groups_within_insert [where keys = "set (ga_order g)" and ts = "set (ga_tags g)"])
      (auto simp: group_acc_ok_def)
  then show ?thesis using assms by (auto simp: group_acc_ok_def group_nested_def)
qed

lemma collect_group_step:
  assumes "collect_group depth tbn comps (c # cs) g = Some (Ok g')"
  obtains (field) t where "nd_name c = ''field''" "lookup_tag tbn ''field'' (attr_or_empty c ''name'') = Ok t"
      "collect_group depth tbn comps cs (group_field (is_required c) t g) = Some (Ok g')"
  | (component) def d g1 where "nd_name c \<noteq> ''field''" "nd_name c = ''component''" "depth = Suc d"
      "collect_group d tbn comps (nd_children def) g = Some (Ok g1)" "collect_group depth tbn comps cs g1 = Some (Ok g')"
  | (nested) counter d n nested where "nd_name c \<noteq> ''field''" "nd_name c \<noteq> ''component''" "nd_name c = ''group''" "depth = Suc d"
      "lookup_tag tbn ''group'' (attr_or_empty c ''name'') = Ok counter"
      "collect_group d tbn comps (nd_children c) empty_group = Some (Ok n)" "close_group (attr_or_empty c ''name'') counter n = Ok nested"
      "collect_group depth tbn comps cs (group_nested counter nested (group_field (is_required c) counter g)) = Some (Ok g')"
  | (other) "collect_group depth tbn comps cs g = Some (Ok g')"
  using assms by (cases depth) (auto simp: call_bind_Ok_iff Let_def split: if_splits)

lemma collect_group_ok:
  "collect_group depth tbn comps cs g = Some (Ok g') \<Longrightarrow> group_acc_ok (snd ` set tbn) g \<Longrightarrow> group_acc_ok (snd ` set tbn) g'"
proof (induction depth tbn comps cs g arbitrary: g' rule: collect_group.induct)
  case (2 depth tbn comps c cs g)
  note rest = "2.IH"(3)
  from "2.prems"(1) show ?case
  proof (cases rule: collect_group_step)
    case (field t)
    then show ?thesis using rest group_acc_ok_field [OF "2.prems"(2) lookup_tag_known] by blast
  next
    case (component def d g1)
    then show ?thesis using rest "2.IH"(1) [OF refl component(1,2)] "2.prems"(2) by blast
  next
    case (nested counter d n nested)
    have k: "counter \<in> snd ` set tbn" using nested(5) lookup_tag_known by blast
    have "group_acc_ok (snd ` set tbn) n" using "2.IH"(2) [OF refl nested(1-4,6) group_acc_ok_empty] by simp
    from close_group_wf [OF nested(7) this] group_acc_ok_field [OF "2.prems"(2) k, of "is_required c"] show ?thesis
      using group_acc_ok_nested [of "snd ` set tbn" "group_field (is_required c) counter g" nested] rest [OF nested(8)]
      by (simp add: group_field_def)
  next
    case other
    then show ?thesis using rest "2.prems"(2) by blast
  qed
qed simp

definition message_acc_ok :: "tag set \<Rightarrow> message_acc \<Rightarrow> bool" where
  "message_acc_ok known m \<longleftrightarrow>
     distinct (ma_order m) \<and> set (ma_order m) \<subseteq> set (ma_tags m) \<and> set (ma_required m) \<subseteq> set (ma_tags m)
     \<and> set (ma_tags m) \<subseteq> known \<and> groups_within (set (ma_tags m)) (set (ma_tags m)) (ma_groups m)"

lemma message_acc_ok_empty: "message_acc_ok known empty_message"
  by (simp add: message_acc_ok_def empty_message_def groups_within_def)

lemma message_acc_ok_field: "message_acc_ok known m \<Longrightarrow> t \<in> known \<Longrightarrow> message_acc_ok known (message_field r t m)"
  by (auto simp: message_acc_ok_def message_field_def elim!: groups_within_mono)

lemma message_acc_ok_group:
  assumes "message_acc_ok known m" and "group_wf d" and "gd_counter d \<in> set (ma_tags m)" and "set (gd_tags d) \<subseteq> known"
  shows "message_acc_ok known (message_group (gd_counter d) d m)"
proof -
  have "groups_within (set (ma_tags m) \<union> set (gd_tags d)) (set (ma_tags m) \<union> set (gd_tags d))
      (hm_insert (gd_counter d) d (ma_groups m))"
    using assms by (intro groups_within_insert [where keys = "set (ma_tags m)" and ts = "set (ma_tags m)"])
      (auto simp: message_acc_ok_def)
  then show ?thesis using assms by (auto simp: message_acc_ok_def message_group_def)
qed

lemma collect_step:
  assumes "collect depth tbn comps (c # cs) m = Some (Ok m')"
  obtains (field) t where "nd_name c = ''field''" "lookup_tag tbn ''field'' (attr_or_empty c ''name'') = Ok t"
      "collect depth tbn comps cs (message_field (is_required c) t m) = Some (Ok m')"
  | (component) def d m2 where "nd_name c \<noteq> ''field''" "nd_name c = ''component''" "depth = Suc d"
      "collect d tbn comps (nd_children def) (m\<lparr>ma_required := []\<rparr>) = Some (Ok m2)"
      "collect depth tbn comps cs
        (m2\<lparr>ma_required := (if is_required c then ma_required m @ ma_required m2 else ma_required m)\<rparr>) = Some (Ok m')"
  | (nested) counter d n g where "lookup_tag tbn ''group'' (attr_or_empty c ''name'') = Ok counter"
      "collect_group d tbn comps (nd_children c) empty_group = Some (Ok n)" "close_group (attr_or_empty c ''name'') counter n = Ok g"
      "collect depth tbn comps cs (message_group counter g (message_field (is_required c) counter m)) = Some (Ok m')"
  | (other) "collect depth tbn comps cs m = Some (Ok m')"
  using assms by (cases depth) (auto simp: call_bind_Ok_iff Let_def split: if_splits)

lemma collect_ok:
  "collect depth tbn comps cs m = Some (Ok m') \<Longrightarrow> message_acc_ok (snd ` set tbn) m \<Longrightarrow>
     message_acc_ok (snd ` set tbn) m' \<and> set (ma_tags m) \<subseteq> set (ma_tags m')"
proof (induction depth tbn comps cs m arbitrary: m' rule: collect.induct)
  case (2 depth tbn comps c cs m)
  let ?known = "snd ` set tbn"
  have rest: "message_acc_ok ?known m' \<and> set (ma_tags m) \<subseteq> set (ma_tags m')"
    if "collect depth tbn comps cs m1 = Some (Ok m')" "message_acc_ok ?known m1" "set (ma_tags m) \<subseteq> set (ma_tags m1)" for m1
    using "2.IH"(2) [OF that(1,2)] that(3) by blast
  from "2.prems"(1) show ?case
  proof (cases rule: collect_step)
    case (field t)
    then show ?thesis
      using message_acc_ok_field [OF "2.prems"(2) lookup_tag_known] by (intro rest [OF field(3)]) (auto simp: message_field_def)
  next
    case (component def d m2)
    have "message_acc_ok ?known (m\<lparr>ma_required := []\<rparr>)" using "2.prems"(2) by (simp add: message_acc_ok_def)
    with "2.IH"(1) [OF refl component(1-4)] have "message_acc_ok ?known m2" "set (ma_tags m) \<subseteq> set (ma_tags m2)" by simp_all
    then show ?thesis using "2.prems"(2) by (intro rest [OF component(5)]) (auto simp: message_acc_ok_def)
  next
    case (nested counter d n g)
    have k: "counter \<in> ?known" using nested(1) lookup_tag_known by blast
    from close_group_wf [OF nested(3) collect_group_ok [OF nested(2) group_acc_ok_empty]]
      message_acc_ok_field [OF "2.prems"(2) k, of "is_required c"] show ?thesis
      using message_acc_ok_group [of ?known "message_field (is_required c) counter m" g]
      by (intro rest [OF nested(4)]) (auto simp: message_field_def message_group_def)
  next
    case other
    then show ?thesis using "2.IH"(2) "2.prems"(2) by blast
  qed
qed simp

text \<open>
  A dictionary: fields are filed under their tag, every name leads to a defined field, and every
  tag a header, trailer, message or group mentions is defined.
\<close>

definition message_def_wf :: "tag set \<Rightarrow> message_def \<Rightarrow> bool" where
  "message_def_wf known d \<longleftrightarrow>
     distinct (md_field_order d) \<and> set (md_field_order d) \<subseteq> set (md_tags d) \<and> set (md_required d) \<subseteq> set (md_tags d)
     \<and> set (md_tags d) \<subseteq> known \<and> groups_within (set (md_tags d)) (set (md_tags d)) (md_groups d)"

definition dictionary_wf :: "data_dictionary \<Rightarrow> bool" where
  "dictionary_wf dd \<longleftrightarrow>
     (let known = fst ` set (dd_fields_by_tag dd) in
      distinct (map fst (dd_fields_by_tag dd)) \<and> (\<forall>(t, fd) \<in> set (dd_fields_by_tag dd). fd_tag fd = t)
      \<and> snd ` set (dd_tags_by_name dd) \<subseteq> known
      \<and> set (dd_header_required dd) \<subseteq> set (dd_header_tags dd) \<and> set (dd_header_tags dd) \<subseteq> known
      \<and> set (dd_trailer_required dd) \<subseteq> set (dd_trailer_tags dd) \<and> set (dd_trailer_tags dd) \<subseteq> known
      \<and> distinct (map fst (dd_messages dd))
      \<and> (\<forall>(mt, d) \<in> set (dd_messages dd). md_msg_type d = mt \<and> message_def_wf known d))"

lemma hm_insert_keys: "fst ` set (hm_insert k v m) = insert k (fst ` set m)"
  by (force simp: set_hm_insert image_iff)

lemma hm_insert_values: "snd ` set (hm_insert k v m) \<subseteq> insert v (snd ` set m)"
  by (auto simp: set_hm_insert)

lemma load_fields_wf:
  assumes "load_fields cis fs dd = Ok dd'" and "dictionary_wf dd" and "dd_messages dd = []"
  shows "dictionary_wf dd' \<and> dd_messages dd' = []"
  using assms
proof (induction fs arbitrary: dd)
  case (Cons f fs)
  from Cons.prems(1) obtain fd where "load_fields cis fs
      (dd\<lparr>dd_tags_by_name := hm_insert (fd_name fd) (fd_tag fd) (dd_tags_by_name dd),
          dd_fields_by_tag := hm_insert (fd_tag fd) fd (dd_fields_by_tag dd)\<rparr>) = Ok dd'"
    by (auto simp: res_bind_Ok_iff)
  moreover have "dictionary_wf (dd\<lparr>dd_tags_by_name := hm_insert (fd_name fd) (fd_tag fd) (dd_tags_by_name dd),
          dd_fields_by_tag := hm_insert (fd_tag fd) fd (dd_fields_by_tag dd)\<rparr>)"
    using Cons.prems(2,3) hm_insert_values [of "fd_name fd" "fd_tag fd" "dd_tags_by_name dd"]
    by (auto simp: dictionary_wf_def Let_def hm_insert_keys) (auto simp: set_hm_insert)
  ultimately show ?case using Cons.IH Cons.prems(3) by simp
qed simp


lemma message_acc_ok_mono: "message_acc_ok known m \<Longrightarrow> known \<subseteq> known' \<Longrightarrow> message_acc_ok known' m"
  by (auto simp: message_acc_ok_def)

lemma collect_known:
  assumes "collect depth (dd_tags_by_name dd) comps cs empty_message = Some (Ok m)" and "dictionary_wf dd"
  shows "message_acc_ok (fst ` set (dd_fields_by_tag dd)) m"
  using message_acc_ok_mono [OF conjunct1 [OF collect_ok [OF assms(1) message_acc_ok_empty]]] assms(2)
  by (simp add: dictionary_wf_def Let_def)

lemma load_section_wf:
  assumes "collect_section depth (dd_tags_by_name dd) comps s = Some (Ok h)" and "dictionary_wf dd"
  shows "dictionary_wf (set_header_section h dd)" "dictionary_wf (set_trailer_section h dd)"
proof -
  have "h = Some m \<Longrightarrow> message_acc_ok (fst ` set (dd_fields_by_tag dd)) m" for m
    using assms(1) collect_known [OF _ assms(2)]
    by (auto simp: collect_section_def call_bind_Ok_iff split: option.splits)
  then show "dictionary_wf (set_header_section h dd)" "dictionary_wf (set_trailer_section h dd)"
    using assms(2) by (auto simp: set_header_section_def set_trailer_section_def dictionary_wf_def Let_def message_acc_ok_def
        split: option.splits)
qed

lemma load_messages_wf:
  "load_messages depth comps ms dd = Some (Ok dd') \<Longrightarrow> dictionary_wf dd \<Longrightarrow> dictionary_wf dd'"
proof (induction ms arbitrary: dd)
  case (Cons m ms)
  obtain mt acc where acc: "collect depth (dd_tags_by_name dd) comps (nd_children m) empty_message = Some (Ok acc)"
    and rest: "load_messages depth comps ms (dd\<lparr>dd_messages := hm_insert mt
      \<lparr>md_name = attr_or_empty m ''name'', md_msg_type = mt, md_tags = ma_tags acc, md_required = ma_required acc,
       md_groups = ma_groups acc, md_field_order = ma_order acc\<rparr> (dd_messages dd)\<rparr>) = Some (Ok dd')"
    using Cons.prems(1) by (auto simp: call_bind_Ok_iff split: option.splits)
  have "message_acc_ok (fst ` set (dd_fields_by_tag dd)) acc" by (rule collect_known [OF acc Cons.prems(2)])
  with Cons.prems(2) show ?case
    by (intro Cons.IH [OF rest]) (auto simp: dictionary_wf_def Let_def set_hm_insert message_def_wf_def message_acc_ok_def)
qed simp

lemma dictionary_parse_wf:
  assumes "dictionary_parse depth evs = Some (Ok dd)"
  shows "dictionary_wf dd"
proof -
  obtain root where "dictionary_of depth root = Some (Ok dd)"
    using assms by (auto simp: dictionary_parse_def call_bind_Ok_iff)
  then obtain cis dd1 h t where dd1: "load_fields cis (elements root ''fields'' ''field'') (new_dictionary root) = Ok dd1"
    and h: "collect_section depth (dd_tags_by_name dd1) (load_components root) (child root ''header'') = Some (Ok h)"
    and t: "collect_section depth (dd_tags_by_name dd1) (load_components root) (child root ''trailer'') = Some (Ok t)"
    and dd: "load_messages depth (load_components root) (elements root ''messages'' ''message'') (set_trailer_section t (set_header_section h dd1))
      = Some (Ok dd)"
    by (auto simp: dictionary_of_def Let_def call_bind_Ok_iff)
  have "dictionary_wf (new_dictionary root)" by (simp add: dictionary_wf_def new_dictionary_def)
  then have w1: "dictionary_wf dd1" using load_fields_wf [OF dd1] by (simp add: new_dictionary_def)
  have "dd_tags_by_name (set_header_section h dd1) = dd_tags_by_name dd1" by (simp add: set_header_section_def split: option.splits)
  then have "dictionary_wf (set_trailer_section t (set_header_section h dd1))"
    using load_section_wf(2) [OF _ load_section_wf(1) [OF h w1]] t by metis
  then show ?thesis by (rule load_messages_wf [OF dd])
qed

text \<open>
  C24. A dictionary that loads is well-formed, whatever the document: fields are filed under their
  own tag, every tag that the header, the trailer, a message or a group (at any depth) mentions has a
  definition, required tags and members are among the tags allowed, and every group has its
  first member as delimiter and hangs off a member of its parent.
\<close>

theorem loaded_dictionary_wf:
  assumes "dictionary_parse depth evs = Some (Ok dd)"
  shows "dictionary_wf dd"
  by (rule dictionary_parse_wf [OF assms])

section \<open>The expansion of components returns\<close>

lemma call_bind_returns: "x \<noteq> None \<Longrightarrow> (\<And>a. x = Some (Ok a) \<Longrightarrow> f a \<noteq> None) \<Longrightarrow> call_bind x f \<noteq> None"
  by (cases "(x, f)" rule: call_bind.cases) auto

text \<open>The components an element refers to, at any depth of groups.\<close>

fun mentions :: "node \<Rightarrow> bytes list" where
  "mentions (Node n as cs) =
     (if n = ''component'' then [attr_or_empty (Node n as cs) ''name'']
      else if n = ''group'' then concat (map mentions cs) else [])"

definition component_refs :: "(bytes \<times> node) list \<Rightarrow> (bytes \<times> bytes) set" where
  "component_refs comps = {(n', n). \<exists>def. map_of comps n = Some def \<and> n' \<in> set (concat (map mentions (nd_children def)))}"

text \<open>The expansion of the elements needs at most a stack of the given depth.\<close>

fun fits :: "nat \<Rightarrow> (bytes \<times> node) list \<Rightarrow> node list \<Rightarrow> bool" where
  "fits d comps cs \<longleftrightarrow>
     (\<forall>c \<in> set cs.
        (nd_name c = ''component'' \<longrightarrow>
           (case map_of comps (attr_or_empty c ''name'') of None \<Rightarrow> True
            | Some def \<Rightarrow> (case d of 0 \<Rightarrow> False | Suc d' \<Rightarrow> fits d' comps (nd_children def))))
        \<and> (nd_name c = ''group'' \<longrightarrow> (case d of 0 \<Rightarrow> False | Suc d' \<Rightarrow> fits d' comps (nd_children c))))"

declare fits.simps [simp del]

lemma fits_Nil: "fits d comps []"
  by (simp add: fits.simps)

lemma fits_Cons: "fits d comps (c # cs) \<longleftrightarrow> fits d comps [c] \<and> fits d comps cs"
  by (subst (1 2 3) fits.simps) auto

lemma fits_subset: "fits d comps cs \<Longrightarrow> set cs' \<subseteq> set cs \<Longrightarrow> fits d comps cs'"
  by (subst fits.simps, subst (asm) fits.simps) blast

lemma fits_Suc: "fits d comps cs \<Longrightarrow> fits (Suc d) comps cs"
proof (induction d arbitrary: cs)
  case 0
  then show ?case by (subst fits.simps, subst (asm) fits.simps) (auto split: option.splits)
next
  case (Suc d)
  then show ?case by (subst fits.simps, subst (asm) fits.simps) (auto split: option.splits)
qed

lemma fits_mono: "d \<le> d' \<Longrightarrow> fits d comps cs \<Longrightarrow> fits d' comps cs"
  by (induction d' rule: dec_induct) (auto intro: fits_Suc)

lemma collect_group_returns: "fits depth comps cs \<Longrightarrow> collect_group depth tbn comps cs g \<noteq> None"
proof (induction depth tbn comps cs g rule: collect_group.induct)
  case (2 depth tbn comps c cs g)
  note head = conjunct1 [OF "2.prems" [unfolded fits_Cons [of depth comps c cs]]]
    and tail = conjunct2 [OF "2.prems" [unfolded fits_Cons [of depth comps c cs]]]
  have "nd_name c = ''component'' \<Longrightarrow> lookup_component comps (attr_or_empty c ''name'') = Ok def \<Longrightarrow>
      (case depth of 0 \<Rightarrow> None | Suc d \<Rightarrow> collect_group d tbn comps (nd_children def) g) \<noteq> None" for def
    using head "2.IH"(1) [OF refl] by (auto simp: fits.simps [of depth] lookup_component_def split: option.splits nat.splits)
  moreover have "nd_name c = ''group'' \<Longrightarrow>
      (case depth of 0 \<Rightarrow> None | Suc d \<Rightarrow> collect_group d tbn comps (nd_children c) empty_group) \<noteq> None"
    using head "2.IH"(2) [OF refl] by (auto simp: fits.simps [of depth] split: nat.splits)
  ultimately show ?case using "2.IH"(3) [OF tail]
    by (simp del: not_None_eq add: Let_def) (intro call_bind_returns conjI impI; simp del: not_None_eq)
qed simp

lemma collect_returns: "fits depth comps cs \<Longrightarrow> collect depth tbn comps cs m \<noteq> None"
proof (induction depth tbn comps cs m rule: collect.induct)
  case (2 depth tbn comps c cs m)
  note head = conjunct1 [OF "2.prems" [unfolded fits_Cons [of depth comps c cs]]]
    and tail = conjunct2 [OF "2.prems" [unfolded fits_Cons [of depth comps c cs]]]
  have "nd_name c = ''component'' \<Longrightarrow> lookup_component comps (attr_or_empty c ''name'') = Ok def \<Longrightarrow>
      (case depth of 0 \<Rightarrow> None | Suc d \<Rightarrow> collect d tbn comps (nd_children def) (m\<lparr>ma_required := []\<rparr>)) \<noteq> None" for def
    using head "2.IH"(1) [OF refl] by (auto simp: fits.simps [of depth] lookup_component_def split: option.splits nat.splits)
  moreover have "nd_name c = ''group'' \<Longrightarrow>
      (case depth of 0 \<Rightarrow> None | Suc d \<Rightarrow> collect_group d tbn comps (nd_children c) empty_group) \<noteq> None"
    using head collect_group_returns by (auto simp: fits.simps [of depth] split: nat.splits)
  ultimately show ?case using "2.IH"(2) [OF tail]
    by (simp del: not_None_eq add: Let_def) (intro call_bind_returns conjI impI; simp del: not_None_eq)
qed simp

lemma fits_all: "\<forall>c \<in> set cs. \<exists>d. fits d comps [c] \<Longrightarrow> \<exists>d. fits d comps cs"
proof (induction cs)
  case (Cons c cs)
  then obtain d1 d2 where "fits d1 comps [c]" "fits d2 comps cs" by auto
  then have "fits (max d1 d2) comps (c # cs)"
    unfolding fits_Cons [of _ _ c cs] by (auto intro: fits_mono [rotated])
  then show ?case ..
qed (simp add: fits_Nil)

text \<open>If every component an element mentions can be expanded, so can the element.\<close>

lemma fits_element:
  assumes "\<forall>n \<in> set (mentions c). \<forall>def. map_of comps n = Some def \<longrightarrow> (\<exists>d. fits d comps (nd_children def))"
  shows "\<exists>d. fits d comps [c]"
  using assms
proof (induction c)
  case (Node n as cs)
  consider "n = ''component''" | "n = ''group''" | "n \<noteq> ''component''" "n \<noteq> ''group''" by blast
  then show ?case
  proof cases
    case 1
    let ?name = "attr_or_empty (Node n as cs) ''name''"
    show ?thesis
    proof (cases "map_of comps ?name")
      case (Some def)
      then obtain d where "fits d comps (nd_children def)" using Node.prems 1 by auto
      then have "fits (Suc d) comps [Node n as cs]" using Some 1 by (simp add: fits.simps [of "Suc d"])
      then show ?thesis ..
    qed (use 1 in \<open>simp add: fits.simps\<close>)
  next
    case 2
    then have "\<forall>c \<in> set cs. \<exists>d. fits d comps [c]" using Node by auto
    then obtain d where "fits d comps cs" using fits_all by blast
    then have "fits (Suc d) comps [Node n as cs]" using 2 by (simp add: fits.simps [of "Suc d"])
    then show ?thesis ..
  qed (simp add: fits.simps)
qed

lemma fits_component:
  assumes "wf (component_refs comps)"
  shows "map_of comps n = Some def \<Longrightarrow> \<exists>d. fits d comps (nd_children def)"
  using assms
proof (induction n arbitrary: def rule: wf_induct_rule)
  case (less n)
  have "\<exists>d. fits d comps [c]" if "c \<in> set (nd_children def)" for c
  proof (rule fits_element, intro ballI allI impI)
    fix n' def'
    assume "n' \<in> set (mentions c)" and "map_of comps n' = Some def'"
    moreover from this have "(n', n) \<in> component_refs comps" using less.prems(1) that by (auto simp: component_refs_def)
    ultimately show "\<exists>d. fits d comps (nd_children def')" using less.IH by blast
  qed
  then show ?case by (intro fits_all) blast
qed

lemma finite_component_refs: "finite (component_refs comps)"
proof -
  have "component_refs comps \<subseteq> (\<Union>def \<in> snd ` set comps. set (concat (map mentions (nd_children def)))) \<times> fst ` set comps"
    unfolding component_refs_def by (auto dest!: map_of_SomeD) force+
  then show ?thesis by (rule finite_subset) auto
qed

lemma fits_document:
  assumes "acyclic (component_refs comps)"
  shows "\<exists>d. fits d comps cs"
proof (rule fits_all, rule ballI)
  fix c
  note wf = finite_acyclic_wf [OF finite_component_refs assms]
  show "\<exists>d. fits d comps [c]" by (rule fits_element) (intro ballI allI impI fits_component [OF wf])
qed

lemma collect_section_returns:
  "(\<And>nd. s = Some nd \<Longrightarrow> fits depth comps (nd_children nd)) \<Longrightarrow> collect_section depth tbn comps s \<noteq> None"
  by (cases s) (simp_all del: not_None_eq add: collect_section_def call_bind_returns collect_returns)

lemma load_messages_returns:
  "\<forall>m \<in> set ms. fits depth comps (nd_children m) \<Longrightarrow> load_messages depth comps ms dd \<noteq> None"
proof (induction ms arbitrary: dd)
  case (Cons m ms)
  then show ?case
    by (cases "map_of (nd_attrs m) ''msgtype''")
       (simp_all del: not_None_eq add: call_bind_returns collect_returns)
qed simp

text \<open>
  C25. Loading ends whenever the references between components are acyclic, however deep: there is
  a stack depth from which on the loader returns a dictionary or an error for the document.
\<close>

theorem acyclic_components_load:
  assumes "acyclic (component_refs (load_components root))"
  shows "\<exists>d. \<forall>depth \<ge> d. dictionary_of depth root \<noteq> None"
proof -
  let ?comps = "load_components root"
  let ?sections = "map nd_children (elements root ''messages'' ''message'')
    @ (case child root ''header'' of None \<Rightarrow> [] | Some h \<Rightarrow> [nd_children h])
    @ (case child root ''trailer'' of None \<Rightarrow> [] | Some t \<Rightarrow> [nd_children t])"
  obtain d where d: "fits d ?comps (concat ?sections)" using fits_document [OF assms] by blast
  have sec: "fits depth ?comps cs" if "d \<le> depth" "cs \<in> set ?sections" for depth cs
    by (rule fits_subset [OF fits_mono [OF that(1) d]]) (use that(2) in auto)
  have "dictionary_of depth root \<noteq> None" if "d \<le> depth" for depth
  proof -
    have m: "\<forall>m \<in> set (elements root ''messages'' ''message''). fits depth ?comps (nd_children m)"
      using sec [OF that] by simp
    have "collect_section depth tbn ?comps (child root ''header'') \<noteq> None"
      "collect_section depth tbn ?comps (child root ''trailer'') \<noteq> None" for tbn
      by (rule collect_section_returns, rule sec [OF that], simp)+
    then show ?thesis
      unfolding dictionary_of_def Let_def by (intro call_bind_returns load_messages_returns [OF m]) simp_all
  qed
  then show ?thesis by blast
qed

text \<open>
  A component that refers to itself before anything else makes the loader recurse without
  end: no stack depth is enough for a message that uses it.
\<close>

lemma self_reference_overflows:
  assumes "map_of comps n = Some def" and "nd_children def = c # cs"
    and "nd_name c = ''component''" and "attr_or_empty c ''name'' = n"
  shows "collect depth tbn comps (c # rest) m = None"
proof (induction depth arbitrary: rest m)
  case (Suc depth)
  show ?case using Suc [of cs] assms by (simp add: lookup_component_def Let_def)
qed (use assms in \<open>simp add: lookup_component_def Let_def\<close>)

section \<open>A small dictionary\<close>

definition small_document :: "xml_event list" where
  "small_document =
     [XmlOther, XmlStart ''fix'' [Inr (''major'', ''4''), Inr (''minor'', ''4'')],
      XmlStart ''header'' [], XmlEmpty ''field'' [Inr (''name'', ''BeginString''), Inr (''required'', ''Y'')], XmlEnd,
      XmlStart ''messages'' [],
        XmlStart ''message'' [Inr (''name'', ''Order''), Inr (''msgtype'', ''D'')],
          XmlEmpty ''component'' [Inr (''name'', ''Parties''), Inr (''required'', ''N'')], XmlEnd, XmlEnd,
      XmlStart ''components'' [],
        XmlStart ''component'' [Inr (''name'', ''Parties'')],
          XmlStart ''group'' [Inr (''name'', ''NoPartyIDs'')],
            XmlEmpty ''field'' [Inr (''name'', ''PartyID''), Inr (''required'', ''Y'')], XmlEnd, XmlEnd, XmlEnd,
      XmlStart ''fields'' [],
        XmlEmpty ''field'' [Inr (''number'', ''8''), Inr (''name'', ''BeginString''), Inr (''type'', ''STRING'')],
        XmlEmpty ''field'' [Inr (''number'', ''453''), Inr (''name'', ''NoPartyIDs''), Inr (''type'', ''NUMINGROUP'')],
        XmlEmpty ''field'' [Inr (''number'', ''448''), Inr (''name'', ''PartyID''), Inr (''type'', ''STRING'')],
      XmlEnd, XmlEnd]"

lemma loaded_case: "(case x of Some (Ok dd) \<Rightarrow> P dd | _ \<Rightarrow> False) \<Longrightarrow> \<exists>dd. x = Some (Ok dd) \<and> P dd"
  by (simp split: option.splits res.splits)

lemma small_document_loads:
  "\<exists>dd. dictionary_parse 2 small_document = Some (Ok dd) \<and> (map fst (dd_messages dd) = [''D''] \<and> dd_header_required dd = [8])"
  by (rule loaded_case) code_simp

theorem loaded_dictionary_wf_witness:
  "\<exists>dd. dictionary_parse 2 small_document = Some (Ok dd) \<and> map fst (dd_messages dd) = [''D''] \<and> dictionary_wf dd"
proof -
  obtain dd where dd: "dictionary_parse 2 small_document = Some (Ok dd)" "map fst (dd_messages dd) = [''D'']"
    by (rule exE [OF small_document_loads], elim conjE)
  show ?thesis by (intro exI conjI, rule dd(1), rule dd(2), rule loaded_dictionary_wf [OF dd(1)])
qed

definition party_group :: node where
  "party_group = Node ''group'' [(''name'', ''NoPartyIDs'')] [Node ''field'' [(''name'', ''PartyID'')] []]"

definition small_root :: node where
  "small_root =
     Node ''fix'' []
       [Node ''components'' []
          [Node ''component'' [(''name'', ''Parties'')] [party_group],
           Node ''component'' [(''name'', ''Block'')] [Node ''component'' [(''name'', ''Parties'')] []]],
        Node ''messages'' [] [Node ''message'' [(''msgtype'', ''D'')] [Node ''component'' [(''name'', ''Block'')] []]]]"

lemma small_root_components:
  "load_components small_root =
     [(''Block'', Node ''component'' [(''name'', ''Block'')] [Node ''component'' [(''name'', ''Parties'')] []]),
      (''Parties'', Node ''component'' [(''name'', ''Parties'')] [party_group])]"
  by (simp add: load_components_def elements_def child_def small_root_def hm_insert_def)

theorem acyclic_components_load_witness:
  "\<exists>d. \<forall>depth \<ge> d. dictionary_of depth small_root \<noteq> None"
proof (rule acyclic_components_load)
  have "component_refs (load_components small_root) \<subseteq> measure (\<lambda>n. if n = ''Parties'' then 0 else 1)"
    by (auto simp: component_refs_def small_root_components party_group_def attr_or_empty_def split: if_splits)
  then show "acyclic (component_refs (load_components small_root))"
    by (rule acyclic_subset [OF wf_acyclic [OF wf_measure]])
qed

lemma self_reference_overflows_witness:
  "\<forall>depth. collect depth [] [(''C'', Node ''component'' [(''name'', ''C'')] [Node ''component'' [(''name'', ''C'')] []])]
     [Node ''component'' [(''name'', ''C'')] []] empty_message = None"
  by (intro allI self_reference_overflows [where n = "''C''" and cs = "[]"
      and def = "Node ''component'' [(''name'', ''C'')] [Node ''component'' [(''name'', ''C'')] []]"])
     (simp_all add: attr_or_empty_def)


end
