(* ===== verification/Settings_Text.thy ===== *)
theory Settings_Text
  imports Settings
begin

text \<open>
  What a configuration file means: every \<open>[SESSION]\<close> section is read with the entries of \<open>[DEFAULT]\<close> in
  front of its own, a later entry of a key replacing an earlier one.
\<close>

section \<open>Trimming\<close>

definition graphic :: "char \<Rightarrow> bool" where
  "graphic c \<longleftrightarrow> 33 \<le> byte_of c \<and> byte_of c \<le> 126"

definition trimmed :: "bytes \<Rightarrow> bool" where
  "trimmed s \<longleftrightarrow> list_all (\<lambda>c. graphic c \<or> c = CHR '' '') s \<and> (s \<noteq> [] \<longrightarrow> graphic (hd s) \<and> graphic (last s))"

lemma ws_multi_outside: "w \<in> set ws_multi \<Longrightarrow> w \<noteq> [] \<and> \<not> graphic (hd w) \<and> \<not> graphic (last w)"
  by (auto simp: ws_multi_def graphic_def byte_of_def)

lemma graphic_not_ws: "graphic c \<Longrightarrow> \<not> ws_ascii c"
  by (auto simp: graphic_def ws_ascii_def byte_of_def)

lemma ws_head_graphic: "graphic c \<Longrightarrow> ws_head (c # s) = 0"
proof -
  assume c: "graphic c"
  have "take (length w) (c # s) \<noteq> w" if "w \<in> set ws_multi" for w
    using ws_multi_outside [OF that] c by (cases w) auto
  then have "List.find (\<lambda>w. take (length w) (c # s) = w) ws_multi = None" by (simp add: find_None_iff)
  then show ?thesis using graphic_not_ws [OF c] by (simp add: ws_head_def)
qed

lemma ws_last_graphic: "s \<noteq> [] \<Longrightarrow> graphic (last s) \<Longrightarrow> ws_last s = 0"
proof -
  assume s: "s \<noteq> []" "graphic (last s)"
  have "\<not> (length w \<le> length s \<and> drop (length s - length w) s = w)" if "w \<in> set ws_multi" for w
  proof
    assume d: "length w \<le> length s \<and> drop (length s - length w) s = w"
    moreover have "w \<noteq> []" using ws_multi_outside [OF that] by simp
    ultimately have "last w = last s" using last_drop [of "length s - length w" s] by (cases w) auto
    with s(2) ws_multi_outside [OF that] show False by simp
  qed
  then have "List.find (\<lambda>w. length w \<le> length s \<and> drop (length s - length w) s = w) ws_multi = None"
    by (simp add: find_None_iff)
  then show ?thesis using graphic_not_ws [OF s(2)] by (simp add: ws_last_def)
qed

lemma trim_trimmed: "trimmed s \<Longrightarrow> trim s = s"
proof (cases "s = []")
  case False
  assume t: "trimmed s"
  then have "ws_head s = 0" using False ws_head_graphic [of "hd s" "tl s"] by (simp add: trimmed_def)
  moreover have "ws_last s = 0" using False t by (simp add: trimmed_def ws_last_graphic)
  ultimately show ?thesis by (simp add: trim_def trim_start.simps [of s] trim_end.simps [of s])
qed (simp add: trim_def trim_start.simps [of "[]"] trim_end.simps [of "[]"])

section \<open>Lines\<close>

definition text_of_lines :: "bytes list \<Rightarrow> bytes" where
  "text_of_lines ls = concat (map (\<lambda>l. l @ [CHR 0x0A]) ls)"

lemma trimmed_line: "trimmed l \<Longrightarrow> CHR 0x0A \<notin> set l \<and> (l \<noteq> [] \<longrightarrow> last l \<noteq> CHR 0x0D)"
  by (auto simp: trimmed_def list_all_iff graphic_def byte_of_def)

lemma str_lines_text: "list_all trimmed ls \<Longrightarrow> str_lines (text_of_lines ls) = ls"
  unfolding text_of_lines_def by (rule str_lines_concat) (auto simp: list_all_iff dest: trimmed_line)

section \<open>The meaning of a file\<close>

type_synonym entries = "(bytes \<times> bytes) list"

definition entry_line :: "bytes \<times> bytes \<Rightarrow> bytes" where
  "entry_line kv = fst kv @ CHR ''='' # snd kv"

definition plain_entry :: "bytes \<times> bytes \<Rightarrow> bool" where
  "plain_entry kv \<longleftrightarrow> trimmed (fst kv) \<and> trimmed (snd kv) \<and> fst kv \<noteq> [] \<and> CHR ''='' \<notin> set (fst kv)
     \<and> hd (fst kv) \<noteq> CHR ''#'' \<and> hd (fst kv) \<noteq> CHR ''[''"

definition settings_text :: "entries \<Rightarrow> entries list \<Rightarrow> bytes" where
  "settings_text ds ss =
     text_of_lines (''[DEFAULT]'' # map entry_line ds @ concat (map (\<lambda>s. ''[SESSION]'' # map entry_line s) ss))"

fun sequence :: "('e + 'a) list \<Rightarrow> 'e + 'a list" where
  "sequence [] = Inr []"
| "sequence (r # rs) = ebind r (\<lambda>a. ebind (sequence rs) (\<lambda>as. Inr (a # as)))"

definition insert_all :: "section_map \<Rightarrow> entries \<Rightarrow> section_map" where
  "insert_all m s = foldl (\<lambda>m (k, v). hm_insert k v m) m s"

lemma insert_all_lookup: "map_of (insert_all m s) = map_of (rev s @ m)"
  by (induction s arbitrary: m) (auto simp: insert_all_def map_add_def fun_eq_iff split: option.splits)

lemma entry_line_trimmed: "plain_entry kv \<Longrightarrow> trimmed (entry_line kv)"
  by (auto simp: plain_entry_def entry_line_def trimmed_def graphic_def byte_of_def)

lemma split_entry: "CHR ''='' \<notin> set k \<Longrightarrow> split_once ''='' (k @ CHR ''='' # v) = Some (k, v)"
  by (induction k) auto

lemma settings_line_entry:
  assumes "plain_entry (k, v)"
  shows "settings_line n (entry_line (k, v)) pc = key_line n (entry_line (k, v)) pc"
    and "split_once ''='' (entry_line (k, v)) = Some (k, v)" "trim k = k" "trim v = v"
  using assms trim_trimmed [OF entry_line_trimmed [OF assms]]
  by (auto simp: settings_line_def plain_entry_def entry_line_def split_entry trim_trimmed)

lemma settings_lines_append:
  "settings_lines n (as @ bs) pc = ebind (settings_lines n as pc) (settings_lines (n + length as) bs)"
proof (induction as arbitrary: n pc)
  case (Cons a as)
  then show ?case by (cases "settings_line n a pc") simp_all
qed simp

lemma entries_in_session:
  "list_all plain_entry s \<Longrightarrow> pc_current pc = Some m \<Longrightarrow>
    settings_lines n (map entry_line s) pc = Inr (pc\<lparr>pc_current := Some (insert_all m s)\<rparr>)"
proof (induction s arbitrary: n pc m)
  case (Cons kv s)
  obtain k v where kv: "kv = (k, v)" by (cases kv)
  with Cons show ?case using settings_line_entry [of k v] by (simp add: key_line_def insert_all_def)
qed (simp add: insert_all_def)

lemma entries_in_default:
  "list_all plain_entry s \<Longrightarrow> pc_current pc = None \<Longrightarrow> pc_in_default pc \<Longrightarrow>
    settings_lines n (map entry_line s) pc =
      Inr (pc\<lparr>pc_settings := (pc_settings pc)\<lparr>st_defaults := insert_all (st_defaults (pc_settings pc)) s\<rparr>\<rparr>)"
proof (induction s arbitrary: n pc)
  case (Cons kv s)
  obtain k v where kv: "kv = (k, v)" by (cases kv)
  with Cons show ?case using settings_line_entry [of k v] by (simp add: key_line_def insert_all_def)
qed (simp add: insert_all_def)

lemma header_trimmed: "trimmed ''[DEFAULT]''" "trimmed ''[SESSION]''" "trimmed ''DEFAULT''" "trimmed ''SESSION''"
  by (simp_all add: trimmed_def graphic_def byte_of_def)

lemma header_lines:
  "settings_line n ''[DEFAULT]'' pc = Inr ((flush_section pc)\<lparr>pc_in_default := True\<rparr>)"
  "settings_line n ''[SESSION]'' pc = Inr ((flush_section pc)\<lparr>pc_in_default := False, pc_current := Some []\<rparr>)"
proof -
  note header_trimmed [THEN trim_trimmed]
  then show "settings_line n ''[DEFAULT]'' pc = Inr ((flush_section pc)\<lparr>pc_in_default := True\<rparr>)"
    "settings_line n ''[SESSION]'' pc = Inr ((flush_section pc)\<lparr>pc_in_default := False, pc_current := Some []\<rparr>)"
    by (simp_all add: settings_line_def section_line_def Let_def ascii_upper_def byte_of_def)
qed

text \<open>The settings once the open section is closed.\<close>

definition closed :: "parse_cursor \<Rightarrow> settings" where
  "closed pc = pc_settings (flush_section pc)"

lemma session_sections:
  "list_all (list_all plain_entry) ss \<Longrightarrow>
    \<exists>pc'. settings_lines n (concat (map (\<lambda>s. ''[SESSION]'' # map entry_line s) ss)) pc = Inr pc'
      \<and> closed pc' = (closed pc)\<lparr>st_sessions := st_sessions (closed pc) @ map (insert_all []) ss\<rparr>"
proof (induction ss arbitrary: n pc)
  case (Cons s ss)
  let ?pc = "(flush_section pc)\<lparr>pc_in_default := False, pc_current := Some (insert_all [] s)\<rparr>"
  have "settings_lines n (''[SESSION]'' # map entry_line s) pc = Inr ?pc"
    using Cons.prems by (simp add: header_lines entries_in_session)
  moreover have "closed ?pc = (closed pc)\<lparr>st_sessions := st_sessions (closed pc) @ [insert_all [] s]\<rparr>"
    by (simp add: closed_def flush_section_def split: option.splits)
  ultimately show ?case
    using Cons.IH [of "n + length (''[SESSION]'' # map entry_line s)" ?pc] Cons.prems
      settings_lines_append [of n "''[SESSION]'' # map entry_line s"]
    by simp
qed simp

lemma entry_lines_trimmed: "list_all plain_entry s \<Longrightarrow> list_all trimmed (map entry_line s)"
  by (induction s) (simp_all add: entry_line_trimmed)

lemma session_lines_trimmed:
  "list_all (list_all plain_entry) ss \<Longrightarrow> list_all trimmed (concat (map (\<lambda>s. ''[SESSION]'' # map entry_line s) ss))"
  by (induction ss) (simp_all add: entry_lines_trimmed header_trimmed)

lemma settings_parse_text:
  assumes "list_all plain_entry ds" and "list_all (list_all plain_entry) ss"
  shows "settings_parse (settings_text ds ss) =
    Inr \<lparr>st_defaults = insert_all [] ds, st_sessions = map (insert_all []) ss\<rparr>"
proof -
  let ?start = "\<lparr>pc_settings = \<lparr>st_defaults = [], st_sessions = []\<rparr>, pc_current = None, pc_in_default = False\<rparr>"
  let ?pc = "\<lparr>pc_settings = \<lparr>st_defaults = insert_all [] ds, st_sessions = []\<rparr>, pc_current = None, pc_in_default = True\<rparr>"
  let ?sessions = "concat (map (\<lambda>s. ''[SESSION]'' # map entry_line s) ss)"
  have "list_all trimmed (''[DEFAULT]'' # map entry_line ds @ ?sessions)"
    using assms by (simp add: entry_lines_trimmed session_lines_trimmed header_trimmed)
  then have l: "str_lines (settings_text ds ss) = (''[DEFAULT]'' # map entry_line ds) @ ?sessions"
    unfolding settings_text_def by (simp only: str_lines_text append_Cons)
  have d: "settings_lines 0 (''[DEFAULT]'' # map entry_line ds) ?start = Inr ?pc"
    using assms(1) by (simp add: header_lines entries_in_default flush_section_def)
  obtain pc' where "settings_lines (1 + length ds) ?sessions ?pc = Inr pc'"
    "closed pc' = (closed ?pc)\<lparr>st_sessions := st_sessions (closed ?pc) @ map (insert_all []) ss\<rparr>"
    using session_sections [OF assms(2)] by blast
  then show ?thesis
    unfolding settings_parse_def l settings_lines_append d by (simp add: closed_def flush_section_def)
qed

lemma from_map_lookup:
  assumes "map_of m = map_of m'"
  shows "from_map m = from_map m'"
  unfolding from_map_def cfg_session_id_of_def cfg_connection_type_of_def cfg_schedules_of_def
    cfg_heart_bt_int_of_def cfg_sockets_of_def cfg_precision_of_def cfg_override_of_def get_bool_def get_u64_def require_def
    or_default_def assms ..

lemma collect_configs_sequence:
  "collect_configs defaults ss = sequence (map (\<lambda>s. from_map (insert_all defaults s)) ss)"
  by (induction ss) (simp_all add: insert_all_def)

lemma merged_sections: "map_of (insert_all (insert_all [] ds) (insert_all [] s)) = map_of (rev (ds @ s))"
proof -
  have "distinct (map fst (insert_all m s))" if "distinct (map fst m)" for m
    using that
  proof (induction s arbitrary: m)
    case (Cons kv s)
    obtain k v where "kv = (k, v)" by (cases kv)
    moreover have "distinct (map fst (hm_insert k v m))"
      using Cons.prems by (auto simp: hm_insert_def distinct_map inj_on_def)
    ultimately show ?case using Cons.IH by (simp add: insert_all_def)
  qed (simp add: insert_all_def)
  then have "map_of (rev (insert_all [] s)) = map_of (insert_all [] s)"
    by (intro map_of_inject_set [THEN iffD2]) (simp_all add: rev_map [symmetric])
  then show ?thesis by (simp add: insert_all_lookup)
qed

text \<open>
  C28. What a configuration file means. For a file with a \<open>[DEFAULT]\<close> section and any number of
  \<open>[SESSION]\<close> sections of plain \<open>key=value\<close> lines, reading the file and resolving its sessions gives, in
  order, the configuration of every section's default entries followed by its own, where the last
  entry of a key counts - or the error of the first section that has one.
\<close>

theorem configuration_file_meaning:
  assumes "list_all plain_entry ds" and "list_all (list_all plain_entry) ss"
  shows "ebind (settings_parse (settings_text ds ss)) session_configs
    = sequence (map (\<lambda>s. from_map (rev (ds @ s))) ss)"
proof -
  have "from_map (insert_all (insert_all [] ds) (insert_all [] s)) = from_map (rev (ds @ s))" for s
    by (rule from_map_lookup) (rule merged_sections)
  then show ?thesis
    by (simp add: settings_parse_text [OF assms] session_configs_def collect_configs_sequence o_def)
qed

section \<open>A file\<close>

lemmas config_simps = from_map_def cfg_session_id_of_def cfg_connection_type_of_def cfg_schedules_of_def
  cfg_heart_bt_int_of_def cfg_sockets_of_def cfg_precision_of_def cfg_override_of_def get_bool_def get_u64_def require_def
  or_default_def is_fixt_def parse_port_def schedule_parse_def

lemma sample_port: "parse_u16 ''5001'' = Some 5001"
  by (simp add: parse_u16_def parse_unsigned_def strip_plus_def is_digit_def digit_val_def byte_of_def)

definition file_defaults :: entries where
  "file_defaults = [(''ConnectionType'', ''acceptor''), (''BeginString'', ''FIX.4.2''), (''SenderCompID'', ''ISLD''),
     (''NonStopSession'', ''Y''), (''SocketAcceptPort'', ''5001'')]"

definition file_sessions :: "entries list" where
  "file_sessions = [[(''TargetCompID'', ''TW'')], [(''TargetCompID'', ''PEER''), (''BeginString'', ''FIX.4.4'')]]"

theorem configuration_file_meaning_witness:
  "\<exists>c1 c2. ebind (settings_parse (settings_text file_defaults file_sessions)) session_configs = Inr [c1, c2]
     \<and> sid_begin_string (cfg_session_id c1) = ''FIX.4.2'' \<and> sid_begin_string (cfg_session_id c2) = ''FIX.4.4''
     \<and> sid_target_comp_id (cfg_session_id c2) = ''PEER''"
proof -
  have "list_all plain_entry file_defaults" "list_all (list_all plain_entry) file_sessions"
    by (simp_all add: file_defaults_def file_sessions_def plain_entry_def trimmed_def graphic_def byte_of_def)
  note m = configuration_file_meaning [OF this]
  obtain c1 where "from_map (rev (file_defaults @ [(''TargetCompID'', ''TW'')])) = Inr c1" "sid_begin_string (cfg_session_id c1) = ''FIX.4.2''"
    by (simp add: file_defaults_def config_simps sample_port)
  moreover obtain c2 where "from_map (rev (file_defaults @ [(''TargetCompID'', ''PEER''), (''BeginString'', ''FIX.4.4'')])) = Inr c2"
    "sid_begin_string (cfg_session_id c2) = ''FIX.4.4''" "sid_target_comp_id (cfg_session_id c2) = ''PEER''"
    by (simp add: file_defaults_def config_simps sample_port)
  ultimately show ?thesis unfolding m by (simp add: file_sessions_def)
qed

end
