(* ===== verification/Engine.thy ===== *)
theory Engine
  imports Connections Dictionary_Load Settings_Text
begin

text \<open>
  \<open>src/engine.rs\<close>: the engine builds a session for every configuration and starts its network
  activity. The result of \<open>start\<close> is modelled as what it sets up: the sessions by key with what
  each was given, the initiators to dial and the listeners with their registries. Reading and
  parsing a dictionary file, creating stores and logs, binding ports and, when the engine is built
  with the feature \<open>tls\<close>, the rustls crates are arguments.
\<close>

record ('st, 'lg) services =
  sv_load :: "bytes \<Rightarrow> (error, data_dictionary) res"
  sv_store :: "session_id \<Rightarrow> (error, 'st) res"
  sv_log :: "session_id \<Rightarrow> (error, 'lg) res"
  sv_tls :: "rustls option"
  sv_bind :: "nat \<Rightarrow> (error, unit) res"

fun lift_sum :: "'e + 'a \<Rightarrow> ('e, 'a) res" where
  "lift_sum (Inl e) = Err e"
| "lift_sum (Inr a) = Ok a"

lemma lift_sum_Ok_iff [simp]: "lift_sum r = Ok a \<longleftrightarrow> r = Inr a"
  by (cases r) auto

definition no_tls_feature :: error where
  "no_tls_feature = ConfigError ''SocketUseSSL=Y requires the 'tls' feature''"

text \<open>What \<open>Session::spawn\<close> is given.\<close>

record ('st, 'lg) spawned =
  sp_cfg :: session_config
  sp_store :: 'st
  sp_log :: 'lg
  sp_dictionary :: "data_dictionary option"
  sp_admin_dictionary :: "data_dictionary option"

definition key_of :: "session_id \<Rightarrow> session_key" where
  "key_of sid = (sid_begin_string sid, sid_sender_comp_id sid, sid_target_comp_id sid)"

definition client_tls :: "('st, 'lg) services \<Rightarrow> tls_settings \<Rightarrow> bytes \<Rightarrow> (error, tls) res" where
  "client_tls sv t host =
     (if \<not> tls_enabled t then Ok TlsNone
      else case sv_tls sv of
        Some rl \<Rightarrow> res_bind (lift_sum (build_connector rl t host)) (\<lambda>c. Ok (TlsClient c))
      | None \<Rightarrow> Err no_tls_feature)"

definition server_tls :: "('st, 'lg) services \<Rightarrow> tls_settings \<Rightarrow> (error, tls) res" where
  "server_tls sv t =
     (if \<not> tls_enabled t then Ok TlsNone
      else case sv_tls sv of
        Some rl \<Rightarrow> res_bind (lift_sum (build_acceptor rl t)) (\<lambda>a. Ok (TlsServer a))
      | None \<Rightarrow> Err no_tls_feature)"

section \<open>Dictionaries\<close>

type_synonym dictionary_cache = "(bytes \<times> data_dictionary) list"

definition merged_key :: "bytes \<Rightarrow> bytes \<Rightarrow> bytes" where
  "merged_key transport app = transport @ ''+'' @ app"

definition cached_load ::
  "('st, 'lg) services \<Rightarrow> dictionary_cache \<Rightarrow> bytes \<Rightarrow> (error, data_dictionary \<times> dictionary_cache) res" where
  "cached_load sv cache path =
     (case map_of cache path of
        Some dd \<Rightarrow> Ok (dd, cache)
      | None \<Rightarrow> res_bind (sv_load sv path) (\<lambda>dd. Ok (dd, hm_insert path dd cache)))"

definition cached_merge ::
  "('st, 'lg) services \<Rightarrow> dictionary_cache \<Rightarrow> bytes \<Rightarrow> bytes
     \<Rightarrow> (error, (data_dictionary \<times> data_dictionary) \<times> dictionary_cache) res" where
  "cached_merge sv cache transport app =
     (case (map_of cache (merged_key transport app), map_of cache transport) of
        (Some m, Some t) \<Rightarrow> Ok ((m, t), cache)
      | _ \<Rightarrow>
          res_bind (sv_load sv transport) (\<lambda>t.
          res_bind (sv_load sv app) (\<lambda>a.
            (let m = merged_with_app t a
             in Ok ((m, t), hm_insert transport t (hm_insert (merged_key transport app) m cache))))))"

text \<open>The dictionaries for application and for session messages.\<close>

definition dictionaries_for ::
  "('st, 'lg) services \<Rightarrow> dictionary_cache \<Rightarrow> session_config
     \<Rightarrow> (error, (data_dictionary option \<times> data_dictionary option) \<times> dictionary_cache) res" where
  "dictionaries_for sv cache cfg =
     (if \<not> cfg_use_data_dictionary cfg then Ok ((None, None), cache)
      else case (cfg_transport_data_dictionary cfg, cfg_app_data_dictionary cfg) of
        (Some transport, Some app) \<Rightarrow>
          res_bind (cached_merge sv cache transport app) (\<lambda>((m, t), cache'). Ok ((Some m, Some t), cache'))
      | _ \<Rightarrow>
          (case cfg_data_dictionary cfg of
             Some path \<Rightarrow> res_bind (cached_load sv cache path) (\<lambda>(dd, cache'). Ok ((Some dd, Some dd), cache'))
           | None \<Rightarrow> Ok ((None, None), cache)))"

section \<open>Starting\<close>

type_synonym ('st, 'lg) registry = "(session_key \<times> ('st, 'lg) spawned) list"

record ('st, 'lg) starting =
  su_handles :: "('st, 'lg) registry"
  su_initiators :: "(session_key \<times> tls) list"
  su_acceptors :: "(nat \<times> ('st, 'lg) registry \<times> tls_settings) list"
  su_cache :: dictionary_cache

definition add_acceptor ::
  "nat \<Rightarrow> tls_settings \<Rightarrow> session_key \<Rightarrow> ('st, 'lg) spawned
     \<Rightarrow> (nat \<times> ('st, 'lg) registry \<times> tls_settings) list \<Rightarrow> (nat \<times> ('st, 'lg) registry \<times> tls_settings) list" where
  "add_acceptor port t key h accs =
     (case map_of accs port of
        Some (reg, t0) \<Rightarrow> hm_insert port (hm_insert key h reg, t0) accs
      | None \<Rightarrow> hm_insert port (hm_insert key h [], t) accs)"

definition start_session ::
  "('st, 'lg) services \<Rightarrow> session_config \<Rightarrow> ('st, 'lg) starting
     \<Rightarrow> (error, ('st, 'lg) starting) res" where
  "start_session sv cfg su =
     res_bind (dictionaries_for sv (su_cache su) cfg) (\<lambda>((dd, add), cache).
       (let sid = cfg_session_id cfg; key = key_of sid in
        if map_of (su_handles su) key \<noteq> None then Err (ConfigError (''duplicate session '' @ session_id_display sid))
        else
          res_bind (sv_store sv sid) (\<lambda>store.
          res_bind (sv_log sv sid) (\<lambda>lg.
            (let h = \<lparr>sp_cfg = cfg, sp_store = store, sp_log = lg, sp_dictionary = dd, sp_admin_dictionary = add\<rparr>;
                 su' = su\<lparr>su_handles := hm_insert key h (su_handles su), su_cache := cache\<rparr>
             in case cfg_connection_type cfg of
                  Initiator \<Rightarrow>
                    res_bind (client_tls sv (cfg_tls cfg) (cfg_socket_connect_host cfg)) (\<lambda>t.
                      Ok (su'\<lparr>su_initiators := su_initiators su @ [(key, t)]\<rparr>))
                | Acceptor \<Rightarrow>
                    Ok (su'\<lparr>su_acceptors := add_acceptor (cfg_socket_accept_port cfg) (cfg_tls cfg) key h (su_acceptors su)\<rparr>))))))"

fun start_sessions ::
  "('st, 'lg) services \<Rightarrow> session_config list \<Rightarrow> ('st, 'lg) starting
     \<Rightarrow> (error, ('st, 'lg) starting) res" where
  "start_sessions sv [] su = Ok su"
| "start_sessions sv (cfg # cfgs) su = res_bind (start_session sv cfg su) (start_sessions sv cfgs)"

text \<open>The listeners, in the order in which the map of ports is walked.\<close>

fun start_listeners ::
  "('st, 'lg) services \<Rightarrow> (nat \<times> ('st, 'lg) registry \<times> tls_settings) list
     \<Rightarrow> (error, (nat \<times> ('st, 'lg) registry \<times> tls) list) res" where
  "start_listeners sv [] = Ok []"
| "start_listeners sv ((port, reg, t) # accs) =
     res_bind (server_tls sv t) (\<lambda>tls.
     res_bind (sv_bind sv port) (\<lambda>_.
     res_bind (start_listeners sv accs) (\<lambda>ls. Ok ((port, reg, tls) # ls))))"

record ('st, 'lg) engine =
  eng_handles :: "('st, 'lg) registry"
  eng_initiators :: "(session_key \<times> tls) list"
  eng_listeners :: "(nat \<times> ('st, 'lg) registry \<times> tls) list"

definition nothing_started :: "('st, 'lg) starting" where
  "nothing_started = \<lparr>su_handles = [], su_initiators = [], su_acceptors = [], su_cache = []\<rparr>"

definition engine_start ::
  "('st, 'lg) services \<Rightarrow> settings \<Rightarrow> (error, ('st, 'lg) engine) res" where
  "engine_start sv settings =
     res_bind (lift_sum (session_configs settings)) (\<lambda>configs.
       if configs = [] then Err (ConfigError ''no [SESSION] sections configured'')
       else
         res_bind (start_sessions sv configs nothing_started) (\<lambda>su.
         res_bind (start_listeners sv (su_acceptors su)) (\<lambda>ls.
           Ok \<lparr>eng_handles = su_handles su, eng_initiators = su_initiators su, eng_listeners = ls\<rparr>)))"

definition engine_session ::
  "('st, 'lg) engine \<Rightarrow> bytes \<Rightarrow> bytes \<Rightarrow> bytes \<Rightarrow> ('st, 'lg) spawned option" where
  "engine_session eng b s t = map_of (eng_handles eng) (b, s, t)"

text \<open>The sessions a stop is sent to.\<close>

definition engine_stop :: "('st, 'lg) engine \<Rightarrow> session_key list" where
  "engine_stop eng = map fst (eng_handles eng)"

section \<open>Every session is set up\<close>

text \<open>What is known about a session that was started: its handle, and its place on its port.\<close>

definition set_up ::
  "('st, 'lg) registry \<Rightarrow> (nat \<times> ('st, 'lg) registry \<times> 't) list \<Rightarrow> session_config \<Rightarrow> ('st, 'lg) spawned \<Rightarrow> bool" where
  "set_up handles accs cfg h \<longleftrightarrow>
     sp_cfg h = cfg \<and> map_of handles (key_of (cfg_session_id cfg)) = Some h
     \<and> (cfg_connection_type cfg = Acceptor \<longrightarrow>
          (\<exists>reg t. map_of accs (cfg_socket_accept_port cfg) = Some (reg, t)
             \<and> map_of reg (key_of (cfg_session_id cfg)) = Some h))"

lemma add_acceptor_new:
  "\<exists>reg t'. map_of (add_acceptor port t key h accs) port = Some (reg, t') \<and> map_of reg key = Some h"
  by (simp add: add_acceptor_def split: option.splits prod.splits)

lemma add_acceptor_old:
  assumes "map_of accs port' = Some (reg, t')" and "map_of reg key' = Some h'" and "key' \<noteq> key"
  shows "\<exists>reg. map_of (add_acceptor port t key h accs) port' = Some (reg, t') \<and> map_of reg key' = Some h'"
  using assms by (auto simp: add_acceptor_def split: option.splits prod.splits)

lemma start_session_cases:
  assumes "start_session sv cfg su = Ok su'"
  obtains dd add h where "dictionaries_for sv (su_cache su) cfg = Ok ((dd, add), su_cache su')"
    and "map_of (su_handles su) (key_of (cfg_session_id cfg)) = None"
    and "sp_cfg h = cfg" and "sp_dictionary h = dd" and "sp_admin_dictionary h = add"
    and "su_handles su' = hm_insert (key_of (cfg_session_id cfg)) h (su_handles su)"
    and "su_acceptors su' = (if cfg_connection_type cfg = Acceptor
           then add_acceptor (cfg_socket_accept_port cfg) (cfg_tls cfg) (key_of (cfg_session_id cfg)) h (su_acceptors su)
           else su_acceptors su)"
proof -
  obtain dd add cache where d: "dictionaries_for sv (su_cache su) cfg = Ok ((dd, add), cache)"
    using assms by (auto simp: start_session_def res_bind_Ok_iff)
  obtain store lg where n: "map_of (su_handles su) (key_of (cfg_session_id cfg)) = None"
    and st: "sv_store sv (cfg_session_id cfg) = Ok store" "sv_log sv (cfg_session_id cfg) = Ok lg"
    using assms d by (auto simp: start_session_def res_bind_Ok_iff Let_def split: if_splits)
  let ?h = "\<lparr>sp_cfg = cfg, sp_store = store, sp_log = lg, sp_dictionary = dd, sp_admin_dictionary = add\<rparr>"
  show ?thesis
  proof (cases "cfg_connection_type cfg")
    case Initiator
    then obtain t where "su' = su\<lparr>su_handles := hm_insert (key_of (cfg_session_id cfg)) ?h (su_handles su),
        su_cache := cache, su_initiators := su_initiators su @ [(key_of (cfg_session_id cfg), t)]\<rparr>"
      using assms d n st by (auto simp: start_session_def res_bind_Ok_iff Let_def)
    with d n Initiator show ?thesis by (intro that [of dd add ?h]) simp_all
  next
    case Acceptor
    then have "su' = su\<lparr>su_handles := hm_insert (key_of (cfg_session_id cfg)) ?h (su_handles su), su_cache := cache,
        su_acceptors := add_acceptor (cfg_socket_accept_port cfg) (cfg_tls cfg) (key_of (cfg_session_id cfg)) ?h (su_acceptors su)\<rparr>"
      using assms d n st by (auto simp: start_session_def res_bind_Ok_iff Let_def)
    with d n Acceptor show ?thesis by (intro that [of dd add ?h]) simp_all
  qed
qed

lemma start_session_keeps:
  assumes "start_session sv cfg su = Ok su'" and "set_up (su_handles su) (su_acceptors su) cfg' h'"
  shows "set_up (su_handles su') (su_acceptors su') cfg' h'"
proof -
  obtain h where new: "map_of (su_handles su) (key_of (cfg_session_id cfg)) = None"
    and su': "su_handles su' = hm_insert (key_of (cfg_session_id cfg)) h (su_handles su)"
      "su_acceptors su' = (if cfg_connection_type cfg = Acceptor
           then add_acceptor (cfg_socket_accept_port cfg) (cfg_tls cfg) (key_of (cfg_session_id cfg)) h (su_acceptors su)
           else su_acceptors su)"
    using start_session_cases [OF assms(1)] by metis
  have ne: "key_of (cfg_session_id cfg') \<noteq> key_of (cfg_session_id cfg)" using assms(2) new by (auto simp: set_up_def)
  then show ?thesis
    using assms(2) su' add_acceptor_old [OF _ _ ne]
    by (simp add: set_up_def) blast
qed

lemma start_session_sets_up:
  assumes "start_session sv cfg su = Ok su'"
  shows "\<exists>h. set_up (su_handles su') (su_acceptors su') cfg h"
proof -
  obtain h where "sp_cfg h = cfg" "su_handles su' = hm_insert (key_of (cfg_session_id cfg)) h (su_handles su)"
      "su_acceptors su' = (if cfg_connection_type cfg = Acceptor
           then add_acceptor (cfg_socket_accept_port cfg) (cfg_tls cfg) (key_of (cfg_session_id cfg)) h (su_acceptors su)
           else su_acceptors su)"
    using start_session_cases [OF assms] by metis
  then show ?thesis
    using add_acceptor_new [of "cfg_socket_accept_port cfg" "cfg_tls cfg" "key_of (cfg_session_id cfg)" h "su_acceptors su"]
    by (intro exI [of _ h]) (auto simp: set_up_def)
qed

lemma start_sessions_keep:
  "start_sessions sv cfgs su = Ok su' \<Longrightarrow> set_up (su_handles su) (su_acceptors su) cfg h \<Longrightarrow>
    set_up (su_handles su') (su_acceptors su') cfg h"
  by (induction cfgs arbitrary: su) (auto simp: res_bind_Ok_iff dest: start_session_keeps)

lemma start_sessions_set_up:
  "start_sessions sv cfgs su = Ok su' \<Longrightarrow> cfg \<in> set cfgs \<Longrightarrow> \<exists>h. set_up (su_handles su') (su_acceptors su') cfg h"
proof (induction cfgs arbitrary: su)
  case (Cons c cfgs)
  then obtain su1 where su1: "start_session sv c su = Ok su1" "start_sessions sv cfgs su1 = Ok su'"
    by (auto simp: res_bind_Ok_iff)
  then show ?case
    using Cons.IH [OF su1(2)] Cons.prems(2) start_session_sets_up [OF su1(1)] start_sessions_keep [OF su1(2)] by auto
qed simp

lemma start_listeners_keep:
  "start_listeners sv accs = Ok ls \<Longrightarrow> map_of accs port = Some (reg, t) \<Longrightarrow>
    \<exists>tls. map_of ls port = Some (reg, tls) \<and> server_tls sv t = Ok tls"
proof (induction accs arbitrary: ls)
  case (Cons a accs)
  obtain p r t0 where "a = (p, r, t0)" by (cases a)
  with Cons show ?case by (auto simp: res_bind_Ok_iff split: if_splits)
qed simp

lemma engine_start_cases:
  assumes "engine_start sv settings = Ok eng" and "session_configs settings = Inr cfgs"
  obtains su where "start_sessions sv cfgs nothing_started = Ok su" and "start_listeners sv (su_acceptors su) = Ok (eng_listeners eng)"
    and "eng_handles eng = su_handles su" and "eng_initiators eng = su_initiators su"
  using assms by (auto simp: engine_start_def res_bind_Ok_iff split: if_splits)

text \<open>
  C27. An engine that started routes connections to the right session: a connection to the port of
  a configured acceptor whose first frame carries the session's BeginString and its CompIDs the
  other way round - in the clear or inside the TLS of the listener - is handed, while the session
  is free, to the session built from that configuration, with all frames of the stream.
\<close>

theorem engine_routes_connections:
  assumes "engine_start sv settings = Ok eng" and "session_configs settings = Inr cfgs"
    and "cfg \<in> set cfgs" and "cfg_connection_type cfg = Acceptor"
    and "read_task [] reads = raw # raws" and "message_parse raw False = Ok m"
    and "connection_key m = Ok (key_of (cfg_session_id cfg))"
  shows "\<exists>reg tls h. map_of (eng_listeners eng) (cfg_socket_accept_port cfg) = Some (reg, tls) \<and> sp_cfg h = cfg
    \<and> (\<forall>wire. carries handshake tls wire reads \<longrightarrow>
          accept_connection handshake tls reg wire ending [Some False] = Ok (h, read_task [] reads))"
proof -
  obtain su where su: "start_sessions sv cfgs nothing_started = Ok su" "start_listeners sv (su_acceptors su) = Ok (eng_listeners eng)"
    using engine_start_cases [OF assms(1,2)] by metis
  obtain h reg t where h: "sp_cfg h = cfg" "map_of (su_acceptors su) (cfg_socket_accept_port cfg) = Some (reg, t)"
    "map_of reg (key_of (cfg_session_id cfg)) = Some h"
    using start_sessions_set_up [OF su(1) assms(3)] assms(4) by (auto simp: set_up_def)
  with start_listeners_keep [OF su(2) h(2)] routed [OF assms(5-7) h(3)] show ?thesis
    by (auto simp: accept_connection_carries)
qed

section \<open>TLS on a shared port\<close>

lemma add_acceptor_tls:
  "map_of accs port' = Some (reg, t') \<Longrightarrow> \<exists>reg. map_of (add_acceptor port t key h accs) port' = Some (reg, t')"
  by (auto simp: add_acceptor_def split: option.splits prod.splits)

lemma start_sessions_tls:
  "start_sessions sv cfgs su = Ok su' \<Longrightarrow> map_of (su_acceptors su) port = Some (reg, t) \<Longrightarrow>
    \<exists>reg'. map_of (su_acceptors su') port = Some (reg', t)"
proof (induction cfgs arbitrary: su reg)
  case (Cons c cfgs)
  then obtain su1 where su1: "start_session sv c su = Ok su1" "start_sessions sv cfgs su1 = Ok su'"
    by (auto simp: res_bind_Ok_iff)
  obtain h where "su_acceptors su1 = (if cfg_connection_type c = Acceptor
      then add_acceptor (cfg_socket_accept_port c) (cfg_tls c) (key_of (cfg_session_id c)) h (su_acceptors su)
      else su_acceptors su)"
    using start_session_cases [OF su1(1)] by metis
  then obtain reg1 where "map_of (su_acceptors su1) port = Some (reg1, t)"
    using add_acceptor_tls [OF Cons.prems(2), of "cfg_socket_accept_port c" "cfg_tls c" "key_of (cfg_session_id c)" h]
      Cons.prems(2) by (auto split: if_splits)
  then show ?case by (rule Cons.IH [OF su1(2)])
qed simp

text \<open>
  The first acceptor configured on a port decides whether the port uses TLS. When it does not,
  a later session on the same port that asks for TLS (SocketUseSSL=Y) is served in the clear: the
  engine starts, the listener has no TLS and the session is in its registry.
\<close>

lemma later_session_tls_ignored:
  assumes "engine_start sv settings = Ok eng" and "session_configs settings = Inr (first # cfgs)"
    and "cfg_connection_type first = Acceptor" and "\<not> tls_enabled (cfg_tls first)"
    and "cfg \<in> set cfgs" and "cfg_connection_type cfg = Acceptor" and "tls_enabled (cfg_tls cfg)"
    and "cfg_socket_accept_port cfg = cfg_socket_accept_port first"
  shows "\<exists>reg h. map_of (eng_listeners eng) (cfg_socket_accept_port cfg) = Some (reg, TlsNone)
    \<and> map_of reg (key_of (cfg_session_id cfg)) = Some h \<and> sp_cfg h = cfg"
proof -
  let ?port = "cfg_socket_accept_port first"
  obtain su where su: "start_sessions sv (first # cfgs) nothing_started = Ok su"
    "start_listeners sv (su_acceptors su) = Ok (eng_listeners eng)"
    using engine_start_cases [OF assms(1,2)] by metis
  then obtain su1 where su1: "start_session sv first nothing_started = Ok su1" "start_sessions sv cfgs su1 = Ok su"
    by (auto simp: res_bind_Ok_iff)
  obtain h1 where "su_acceptors su1 = add_acceptor ?port (cfg_tls first) (key_of (cfg_session_id first)) h1 []"
    using start_session_cases [OF su1(1)] assms(3) by (metis nothing_started_def starting.select_convs(3))
  then have "\<exists>reg. map_of (su_acceptors su1) ?port = Some (reg, cfg_tls first)" by (simp add: add_acceptor_def)
  then have t: "\<exists>reg. map_of (su_acceptors su) ?port = Some (reg, cfg_tls first)"
    using start_sessions_tls [OF su1(2)] by blast
  obtain h reg where h: "sp_cfg h = cfg" "map_of (su_acceptors su) ?port = Some (reg, cfg_tls first)"
    "map_of reg (key_of (cfg_session_id cfg)) = Some h"
    using start_sessions_set_up [OF su(1), of cfg] assms(5,6,8) t by (auto simp: set_up_def)
  from start_listeners_keep [OF su(2) h(2)] h assms(4,8) show ?thesis by (auto simp: server_tls_def)
qed

section \<open>Trust\<close>

definition acceptor_on :: "nat \<Rightarrow> session_config \<Rightarrow> bool" where
  "acceptor_on port cfg \<longleftrightarrow> cfg_connection_type cfg = Acceptor \<and> cfg_socket_accept_port cfg = port"

text \<open>
  The sessions started so far and what they have left: each port the settings of the first acceptor
  configured on it, each initiator its own.
\<close>

definition tls_from :: "('st, 'lg) services \<Rightarrow> session_config list \<Rightarrow> ('st, 'lg) starting \<Rightarrow> bool" where
  "tls_from sv cfgs su \<longleftrightarrow>
     distinct (map fst (su_acceptors su))
     \<and> (\<forall>port. map_option snd (map_of (su_acceptors su) port) = map_option cfg_tls (find (acceptor_on port) cfgs))
     \<and> (\<forall>(key, t) \<in> set (su_initiators su). \<exists>cfg \<in> set cfgs.
        cfg_connection_type cfg = Initiator \<and> key = key_of (cfg_session_id cfg)
        \<and> client_tls sv (cfg_tls cfg) (cfg_socket_connect_host cfg) = Ok t)"

lemma find_snoc: "find P (xs @ [x]) = (case find P xs of Some y \<Rightarrow> Some y | None \<Rightarrow> if P x then Some x else None)"
  by (induction xs) auto

lemma add_acceptor_tls_of:
  "map_option snd (map_of (add_acceptor port t key h accs) p) =
    (if p = port \<and> map_of accs port = None then Some t else map_option snd (map_of accs p))"
  by (auto simp: add_acceptor_def split: option.splits prod.splits)

lemma add_acceptor_distinct: "distinct (map fst accs) \<Longrightarrow> distinct (map fst (add_acceptor port t key h accs))"
  by (auto simp: add_acceptor_def intro!: distinct_hm_insert split: option.splits prod.splits)

lemma start_session_tls_from:
  assumes "start_session sv cfg su = Ok su'" and "tls_from sv cfgs su"
  shows "tls_from sv (cfgs @ [cfg]) su'"
proof (cases "cfg_connection_type cfg")
  case Initiator
  then obtain t where su': "su_acceptors su' = su_acceptors su"
    "su_initiators su' = su_initiators su @ [(key_of (cfg_session_id cfg), t)]"
    "client_tls sv (cfg_tls cfg) (cfg_socket_connect_host cfg) = Ok t"
    using assms(1) by (auto simp: start_session_def res_bind_Ok_iff Let_def split: if_splits)
  have "find (acceptor_on port) (cfgs @ [cfg]) = find (acceptor_on port) cfgs" for port
    using Initiator by (simp add: find_snoc acceptor_on_def split: option.split)
  with assms(2) Initiator su' show ?thesis by (fastforce simp: tls_from_def)
next
  case Acceptor
  then obtain h where su': "su_initiators su' = su_initiators su"
    "su_acceptors su' = add_acceptor (cfg_socket_accept_port cfg) (cfg_tls cfg) (key_of (cfg_session_id cfg)) h (su_acceptors su)"
    using assms(1) by (auto simp: start_session_def res_bind_Ok_iff Let_def split: if_splits)
  have "map_option snd (map_of (su_acceptors su') port) = map_option cfg_tls (find (acceptor_on port) (cfgs @ [cfg]))" for port
  proof -
    have "map_option snd (map_of (su_acceptors su) p) = map_option cfg_tls (find (acceptor_on p) cfgs)" for p
      using assms(2) by (simp add: tls_from_def)
    from this [of port] show ?thesis
      using Acceptor unfolding su'(2) add_acceptor_tls_of find_snoc
      by (auto simp: acceptor_on_def split: option.splits)
  qed
  moreover have "distinct (map fst (su_acceptors su'))"
    using assms(2) unfolding su'(2) by (intro add_acceptor_distinct) (simp add: tls_from_def)
  ultimately show ?thesis using assms(2) su'(1) by (fastforce simp: tls_from_def)
qed

lemma start_sessions_tls_from:
  "start_sessions sv cs su = Ok su' \<Longrightarrow> tls_from sv cfgs su \<Longrightarrow> tls_from sv (cfgs @ cs) su'"
proof (induction cs arbitrary: su cfgs)
  case (Cons c cs)
  then obtain su1 where "start_session sv c su = Ok su1" "start_sessions sv cs su1 = Ok su'"
    by (auto simp: res_bind_Ok_iff)
  with Cons.IH [of su1 "cfgs @ [c]"] Cons.prems(2) start_session_tls_from show ?case by fastforce
qed simp

lemma start_listeners_set:
  "start_listeners sv accs = Ok ls \<Longrightarrow> (port, reg, tls) \<in> set ls \<Longrightarrow>
    \<exists>t. (port, reg, t) \<in> set accs \<and> server_tls sv t = Ok tls"
  by (induction accs arbitrary: ls) (fastforce simp: res_bind_Ok_iff)+

lemma start_listeners_ports: "start_listeners sv accs = Ok ls \<Longrightarrow> map fst ls = map fst accs"
  by (induction accs arbitrary: ls) (auto simp: res_bind_Ok_iff)

text \<open>What TLS the listener and the initiator of a session may have been given.\<close>

definition listener_trust :: "('st, 'lg) services \<Rightarrow> tls_settings \<Rightarrow> tls \<Rightarrow> bool" where
  "listener_trust sv t tls \<longleftrightarrow>
     (case tls of
        TlsNone \<Rightarrow> \<not> tls_enabled t
      | TlsServer acc \<Rightarrow> tls_enabled t \<and> (\<exists>rl. sv_tls sv = Some rl \<and> acceptor_trust rl t acc)
      | TlsClient _ \<Rightarrow> False)"

definition initiator_trust :: "('st, 'lg) services \<Rightarrow> tls_settings \<Rightarrow> tls \<Rightarrow> bool" where
  "initiator_trust sv t tls \<longleftrightarrow>
     (case tls of
        TlsNone \<Rightarrow> \<not> tls_enabled t
      | TlsClient con \<Rightarrow> tls_enabled t \<and> (\<exists>rl. sv_tls sv = Some rl \<and> connector_trust rl t con)
      | TlsServer _ \<Rightarrow> False)"

lemma server_tls_trust: "server_tls sv t = Ok tls \<Longrightarrow> listener_trust sv t tls"
  by (auto simp: server_tls_def listener_trust_def res_bind_Ok_iff intro: build_acceptor_trust split: if_splits option.splits)

lemma client_tls_trust: "client_tls sv t host = Ok tls \<Longrightarrow> initiator_trust sv t tls"
  by (auto simp: client_tls_def initiator_trust_def res_bind_Ok_iff intro: build_connector_trust split: if_splits option.splits)

text \<open>
  C30. Whom an engine that started trusts. There is one listener for each port an acceptor is
  configured on, and its TLS is that of the first acceptor configured on the port, in the order of
  the configuration - the settings of further acceptors on the port are never looked at: none when
  SocketUseSSL is off there, otherwise a certificate of its own, and client certificates are asked
  for exactly when SocketCAFile is set, trusting exactly the certificates of that file, at least
  one. Every initiator has the TLS of its own configuration: it skips verification only when
  SocketInsecureSkipVerify asks for it, otherwise it trusts exactly the certificates of SocketCAFile
  - and no certificate at all, not the webpki roots of the documentation, when there is no such file.
\<close>

theorem engine_tls_trust:
  assumes "engine_start sv settings = Ok eng" and "session_configs settings = Inr cfgs"
  shows "distinct (map fst (eng_listeners eng))
    \<and> set (map fst (eng_listeners eng)) = {port. \<exists>cfg \<in> set cfgs. acceptor_on port cfg}
    \<and> (\<forall>(port, reg, t) \<in> set (eng_listeners eng). \<exists>cfg. find (acceptor_on port) cfgs = Some cfg
        \<and> listener_trust sv (cfg_tls cfg) t)
    \<and> (\<forall>(key, t) \<in> set (eng_initiators eng). \<exists>cfg \<in> set cfgs.
        cfg_connection_type cfg = Initiator \<and> key = key_of (cfg_session_id cfg) \<and> initiator_trust sv (cfg_tls cfg) t)"
proof -
  obtain su where su: "start_sessions sv cfgs nothing_started = Ok su"
    "start_listeners sv (su_acceptors su) = Ok (eng_listeners eng)" "eng_initiators eng = su_initiators su"
    using engine_start_cases [OF assms] by metis
  have from_cfgs: "tls_from sv cfgs su"
    using start_sessions_tls_from [OF su(1), of "[]"] by (simp add: nothing_started_def tls_from_def)
  then have d: "distinct (map fst (su_acceptors su))"
    and first: "map_option snd (map_of (su_acceptors su) port) = map_option cfg_tls (find (acceptor_on port) cfgs)" for port
    by (simp_all add: tls_from_def)
  have "set (map fst (su_acceptors su)) = {port. \<exists>cfg \<in> set cfgs. acceptor_on port cfg}"
  proof (intro set_eqI iffI)
    fix port
    have "port \<in> set (map fst (su_acceptors su)) \<longleftrightarrow> find (acceptor_on port) cfgs \<noteq> None"
      using first [of port] by (metis map_of_eq_None_iff option.map_disc_iff set_map)
    also have "\<dots> \<longleftrightarrow> port \<in> {port. \<exists>cfg \<in> set cfgs. acceptor_on port cfg}"
      by (auto simp: find_None_iff)
    finally show "port \<in> set (map fst (su_acceptors su)) \<Longrightarrow> port \<in> {port. \<exists>cfg \<in> set cfgs. acceptor_on port cfg}"
      "port \<in> {port. \<exists>cfg \<in> set cfgs. acceptor_on port cfg} \<Longrightarrow> port \<in> set (map fst (su_acceptors su))" by simp_all
  qed
  moreover have "\<forall>(port, reg, t) \<in> set (eng_listeners eng). \<exists>cfg. find (acceptor_on port) cfgs = Some cfg
        \<and> listener_trust sv (cfg_tls cfg) t"
  proof clarify
    fix port reg tls assume "(port, reg, tls) \<in> set (eng_listeners eng)"
    then obtain t where t: "(port, reg, t) \<in> set (su_acceptors su)" "server_tls sv t = Ok tls"
      using start_listeners_set [OF su(2)] by blast
    with d first [of port] have "map_option cfg_tls (find (acceptor_on port) cfgs) = Some t" by simp
    then obtain cfg where "find (acceptor_on port) cfgs = Some cfg" "cfg_tls cfg = t" by auto
    with t(2) show "\<exists>cfg. find (acceptor_on port) cfgs = Some cfg \<and> listener_trust sv (cfg_tls cfg) tls"
      by (auto dest: server_tls_trust)
  qed
  moreover have "\<forall>(key, t) \<in> set (eng_initiators eng). \<exists>cfg \<in> set cfgs.
        cfg_connection_type cfg = Initiator \<and> key = key_of (cfg_session_id cfg) \<and> initiator_trust sv (cfg_tls cfg) t"
    using from_cfgs su(3) by (fastforce simp: tls_from_def dest: client_tls_trust)
  ultimately show ?thesis using d start_listeners_ports [OF su(2)] by simp
qed

section \<open>The dictionary cache\<close>

text \<open>The dictionaries of a session, loaded for it alone.\<close>

definition own_dictionaries ::
  "('st, 'lg) services \<Rightarrow> session_config \<Rightarrow> (error, data_dictionary option \<times> data_dictionary option) res" where
  "own_dictionaries sv cfg =
     (if \<not> cfg_use_data_dictionary cfg then Ok (None, None)
      else case (cfg_transport_data_dictionary cfg, cfg_app_data_dictionary cfg) of
        (Some transport, Some app) \<Rightarrow>
          res_bind (sv_load sv transport) (\<lambda>t. res_bind (sv_load sv app) (\<lambda>a. Ok (Some (merged_with_app t a), Some t)))
      | _ \<Rightarrow>
          (case cfg_data_dictionary cfg of
             Some path \<Rightarrow> res_bind (sv_load sv path) (\<lambda>dd. Ok (Some dd, Some dd))
           | None \<Rightarrow> Ok (None, None)))"

definition plain_path :: "bytes option \<Rightarrow> bool" where
  "plain_path p \<longleftrightarrow> (case p of None \<Rightarrow> True | Some path \<Rightarrow> CHR ''+'' \<notin> set path)"

definition plain_paths :: "session_config \<Rightarrow> bool" where
  "plain_paths cfg \<longleftrightarrow> plain_path (cfg_data_dictionary cfg) \<and> plain_path (cfg_transport_data_dictionary cfg)
     \<and> plain_path (cfg_app_data_dictionary cfg)"

text \<open>An entry holds what its key names: the file loaded, or for a key with a plus sign the two files merged.\<close>

definition entry_ok :: "('st, 'lg) services \<Rightarrow> bytes \<Rightarrow> data_dictionary \<Rightarrow> bool" where
  "entry_ok sv k dd \<longleftrightarrow>
     (if CHR ''+'' \<notin> set k then sv_load sv k = Ok dd
      else \<forall>t a. k = merged_key t a \<longrightarrow> CHR ''+'' \<notin> set t \<longrightarrow>
             (\<exists>dt da. sv_load sv t = Ok dt \<and> sv_load sv a = Ok da \<and> dd = merged_with_app dt da))"

definition cache_ok :: "('st, 'lg) services \<Rightarrow> dictionary_cache \<Rightarrow> bool" where
  "cache_ok sv cache \<longleftrightarrow> (\<forall>k dd. map_of cache k = Some dd \<longrightarrow> entry_ok sv k dd)"

lemma cache_ok_entry: "cache_ok sv cache \<Longrightarrow> map_of cache k = Some dd \<Longrightarrow> entry_ok sv k dd"
  by (simp add: cache_ok_def)

lemma cache_ok_insert: "cache_ok sv cache \<Longrightarrow> entry_ok sv k dd \<Longrightarrow> cache_ok sv (hm_insert k dd cache)"
  by (simp add: cache_ok_def)

lemma entry_ok_plain: "CHR ''+'' \<notin> set k \<Longrightarrow> entry_ok sv k dd \<longleftrightarrow> sv_load sv k = Ok dd"
  by (simp add: entry_ok_def)

lemma merged_key_plus: "CHR ''+'' \<in> set (merged_key t a)"
  by (simp add: merged_key_def)

lemma merged_key_inject:
  "CHR ''+'' \<notin> set t \<Longrightarrow> CHR ''+'' \<notin> set t' \<Longrightarrow> merged_key t a = merged_key t' a' \<Longrightarrow> t = t' \<and> a = a'"
proof (induction t arbitrary: t')
  case Nil
  then show ?case by (cases t') (auto simp: merged_key_def)
next
  case (Cons c t)
  then show ?case by (cases t') (auto simp: merged_key_def)
qed

lemma entry_ok_merged:
  assumes "CHR ''+'' \<notin> set t"
  shows "entry_ok sv (merged_key t a) dd \<longleftrightarrow>
    (\<exists>dt da. sv_load sv t = Ok dt \<and> sv_load sv a = Ok da \<and> dd = merged_with_app dt da)"
    (is "?l \<longleftrightarrow> ?r")
proof
  assume ?l
  then show ?r using merged_key_plus [of t a] assms by (simp add: entry_ok_def)
next
  assume r: ?r
  have "t' = t \<and> a' = a" if "merged_key t a = merged_key t' a'" "CHR ''+'' \<notin> set t'" for t' a'
    using merged_key_inject [OF assms that(2,1)] by simp
  with r show ?l using merged_key_plus [of t a] unfolding entry_ok_def by (simp, metis)
qed

lemma cached_load_ok:
  assumes "cache_ok sv cache" and "CHR ''+'' \<notin> set path" and "cached_load sv cache path = Ok (dd, cache')"
  shows "sv_load sv path = Ok dd \<and> cache_ok sv cache'"
proof (cases "map_of cache path")
  case None
  with assms have "sv_load sv path = Ok dd" "cache' = hm_insert path dd cache"
    by (auto simp: cached_load_def res_bind_Ok_iff)
  with assms(1,2) show ?thesis by (simp add: cache_ok_insert entry_ok_plain)
next
  case (Some d)
  with assms show ?thesis using cache_ok_entry [OF assms(1) Some] by (simp add: cached_load_def entry_ok_plain)
qed

lemma cached_merge_ok:
  assumes "cache_ok sv cache" and "CHR ''+'' \<notin> set t" and "cached_merge sv cache t a = Ok ((m, dt), cache')"
  shows "\<exists>da. sv_load sv t = Ok dt \<and> sv_load sv a = Ok da \<and> m = merged_with_app dt da \<and> cache_ok sv cache'"
proof (cases "map_of cache (merged_key t a) \<noteq> None \<and> map_of cache t \<noteq> None")
  case True
  then obtain m' t' where c: "map_of cache (merged_key t a) = Some m'" "map_of cache t = Some t'" by auto
  with assms(3) have "m' = m" "t' = dt" "cache' = cache" by (simp_all add: cached_merge_def)
  with c cache_ok_entry [OF assms(1) c(1)] cache_ok_entry [OF assms(1) c(2)] assms(1,2)
  show ?thesis by (auto simp: entry_ok_merged entry_ok_plain)
next
  case False
  then obtain da where l: "sv_load sv t = Ok dt" "sv_load sv a = Ok da" "m = merged_with_app dt da"
    "cache' = hm_insert t dt (hm_insert (merged_key t a) m cache)"
    using assms(3) by (auto simp: cached_merge_def res_bind_Ok_iff Let_def split: option.splits)
  moreover have "cache_ok sv cache'"
    unfolding l(4) using assms(1,2) l(1-3) by (intro cache_ok_insert) (auto simp: entry_ok_merged entry_ok_plain)
  ultimately show ?thesis by blast
qed

lemma dictionaries_for_own:
  assumes "cache_ok sv cache" and "plain_paths cfg" and "dictionaries_for sv cache cfg = Ok (dds, cache')"
  shows "own_dictionaries sv cfg = Ok dds \<and> cache_ok sv cache'"
proof (cases "cfg_use_data_dictionary cfg")
  case True
  show ?thesis
  proof (cases "\<exists>t a. cfg_transport_data_dictionary cfg = Some t \<and> cfg_app_data_dictionary cfg = Some a")
    case both: True
    then obtain t a where ta: "cfg_transport_data_dictionary cfg = Some t" "cfg_app_data_dictionary cfg = Some a" by blast
    with True assms(3) obtain m dt where "cached_merge sv cache t a = Ok ((m, dt), cache')" "dds = (Some m, Some dt)"
      by (auto simp: dictionaries_for_def res_bind_Ok_iff)
    moreover have "CHR ''+'' \<notin> set t" using assms(2) ta by (simp add: plain_paths_def plain_path_def)
    ultimately obtain da where "sv_load sv t = Ok dt" "sv_load sv a = Ok da" "m = merged_with_app dt da"
      "cache_ok sv cache'" and "dds = (Some m, Some dt)"
      using cached_merge_ok [OF assms(1)] by blast
    with True ta show ?thesis by (simp add: own_dictionaries_def)
  next
    case False
    show ?thesis
    proof (cases "cfg_data_dictionary cfg")
      case None
      with True False assms show ?thesis
        by (auto simp: dictionaries_for_def own_dictionaries_def split: option.splits)
    next
      case (Some path)
      with True False assms(3) obtain dd where "cached_load sv cache path = Ok (dd, cache')" "dds = (Some dd, Some dd)"
        by (auto simp: dictionaries_for_def res_bind_Ok_iff split: option.splits)
      moreover have "CHR ''+'' \<notin> set path" using assms(2) Some by (simp add: plain_paths_def plain_path_def)
      ultimately show ?thesis
        using cached_load_ok [OF assms(1)] True False Some by (auto simp: own_dictionaries_def split: option.splits)
    qed
  qed
qed (use assms in \<open>simp add: dictionaries_for_def own_dictionaries_def\<close>)

definition own_handles :: "('st, 'lg) services \<Rightarrow> ('st, 'lg) registry \<Rightarrow> bool" where
  "own_handles sv handles \<longleftrightarrow>
     (\<forall>k h. map_of handles k = Some h \<longrightarrow> own_dictionaries sv (sp_cfg h) = Ok (sp_dictionary h, sp_admin_dictionary h))"

lemma start_sessions_own:
  "start_sessions sv cfgs su = Ok su' \<Longrightarrow> \<forall>cfg \<in> set cfgs. plain_paths cfg \<Longrightarrow> cache_ok sv (su_cache su) \<Longrightarrow>
     own_handles sv (su_handles su) \<Longrightarrow> own_handles sv (su_handles su')"
proof (induction cfgs arbitrary: su)
  case (Cons c cfgs)
  then obtain su1 where su1: "start_session sv c su = Ok su1" "start_sessions sv cfgs su1 = Ok su'"
    by (auto simp: res_bind_Ok_iff)
  obtain dd add h where d: "dictionaries_for sv (su_cache su) c = Ok ((dd, add), su_cache su1)"
    and h: "sp_cfg h = c" "sp_dictionary h = dd" "sp_admin_dictionary h = add"
      "su_handles su1 = hm_insert (key_of (cfg_session_id c)) h (su_handles su)"
    using start_session_cases [OF su1(1)] by metis
  have "own_dictionaries sv c = Ok (dd, add)" "cache_ok sv (su_cache su1)"
    using dictionaries_for_own [OF Cons.prems(3) _ d] Cons.prems(2) by simp_all
  with h Cons.prems show ?case by (intro Cons.IH [OF su1(2)]) (simp_all add: own_handles_def)
qed simp

text \<open>
  C29. Sharing dictionaries between sessions changes nothing: in an engine that started, every
  configured session is found under its identity and has exactly the dictionaries that loading
  the files for it alone gives - the merged one for application messages and the transport one for
  session messages under FIXT -, as long as no configured path contains a plus sign, which the
  cache uses in its own keys.
\<close>

theorem engine_dictionaries_as_configured:
  assumes "engine_start sv settings = Ok eng" and "session_configs settings = Inr cfgs"
    and "\<forall>cfg \<in> set cfgs. plain_paths cfg" and "cfg \<in> set cfgs"
  shows "\<exists>h. engine_session eng (sid_begin_string (cfg_session_id cfg)) (sid_sender_comp_id (cfg_session_id cfg))
        (sid_target_comp_id (cfg_session_id cfg)) = Some h
    \<and> sp_cfg h = cfg \<and> own_dictionaries sv cfg = Ok (sp_dictionary h, sp_admin_dictionary h)"
proof -
  obtain su where su: "start_sessions sv cfgs nothing_started = Ok su" "eng_handles eng = su_handles su"
    using engine_start_cases [OF assms(1,2)] by metis
  obtain h where h: "sp_cfg h = cfg" "map_of (su_handles su) (key_of (cfg_session_id cfg)) = Some h"
    using start_sessions_set_up [OF su(1) assms(4)] by (auto simp: set_up_def)
  have "own_handles sv (su_handles su)"
    using start_sessions_own [OF su(1) assms(3)] by (simp add: nothing_started_def cache_ok_def own_handles_def)
  with h su(2) show ?thesis by (auto simp: engine_session_def key_of_def own_handles_def)
qed



section \<open>A small engine\<close>

definition empty_dictionary :: data_dictionary where
  "empty_dictionary = \<lparr>dd_begin_string = ''FIX.4.2'', dd_fields_by_tag = [], dd_tags_by_name = [], dd_header_tags = [],
     dd_header_required = [], dd_trailer_tags = [], dd_trailer_required = [], dd_messages = []\<rparr>"

definition sample_services :: "(unit, unit) services" where
  "sample_services = \<lparr>sv_load = \<lambda>_. Ok empty_dictionary, sv_store = \<lambda>_. Ok (), sv_log = \<lambda>_. Ok (),
     sv_tls = None, sv_bind = \<lambda>_. Ok ()\<rparr>"

definition sample_settings :: settings where
  "sample_settings =
     \<lparr>st_defaults = [(''ConnectionType'', ''acceptor''), (''BeginString'', ''FIX.4.2''), (''SenderCompID'', ''ISLD''),
        (''NonStopSession'', ''Y''), (''SocketAcceptPort'', ''5001''), (''DataDictionary'', ''FIX42.xml'')],
      st_sessions = [[(''TargetCompID'', ''TW'')], [(''TargetCompID'', ''PEER''), (''SocketUseSSL'', ''Y'')]]\<rparr>"

definition sample_session :: "bytes \<Rightarrow> bool \<Rightarrow> session_config \<Rightarrow> bool" where
  "sample_session target use_ssl cfg \<longleftrightarrow>
     key_of (cfg_session_id cfg) = (''FIX.4.2'', ''ISLD'', target) \<and> cfg_connection_type cfg = Acceptor
     \<and> tls_enabled (cfg_tls cfg) = use_ssl \<and> cfg_socket_accept_port cfg = 5001 \<and> cfg_use_data_dictionary cfg
     \<and> cfg_data_dictionary cfg = Some ''FIX42.xml'' \<and> cfg_transport_data_dictionary cfg = None
     \<and> cfg_app_data_dictionary cfg = None"

lemma sample_sections:
  "\<exists>c. from_map (hm_insert ''TargetCompID'' ''TW'' (st_defaults sample_settings)) = Inr c \<and> sample_session ''TW'' False c"
  "\<exists>c. from_map (hm_insert ''SocketUseSSL'' ''Y'' (hm_insert ''TargetCompID'' ''PEER'' (st_defaults sample_settings))) = Inr c
      \<and> sample_session ''PEER'' True c"
  by (simp_all add: config_simps sample_port sample_session_def key_of_def sample_settings_def)

lemma sample_configs:
  obtains c1 c2 where "session_configs sample_settings = Inr [c1, c2]"
    and "sample_session ''TW'' False c1" and "sample_session ''PEER'' True c2"
proof -
  obtain c1 where c1: "from_map (hm_insert ''TargetCompID'' ''TW'' (st_defaults sample_settings)) = Inr c1"
    "sample_session ''TW'' False c1" using sample_sections(1) by blast
  obtain c2 where c2: "from_map (hm_insert ''SocketUseSSL'' ''Y'' (hm_insert ''TargetCompID'' ''PEER'' (st_defaults sample_settings))) = Inr c2"
    "sample_session ''PEER'' True c2" using sample_sections(2) by blast
  have "st_sessions sample_settings = [[(''TargetCompID'', ''TW'')], [(''TargetCompID'', ''PEER''), (''SocketUseSSL'', ''Y'')]]"
    by (simp add: sample_settings_def)
  with c1 c2 show ?thesis by (intro that) (simp_all add: session_configs_def)
qed

lemma sample_engine_starts:
  assumes "session_configs sample_settings = Inr [c1, c2]" and "sample_session ''TW'' False c1" and "sample_session ''PEER'' True c2"
  obtains eng where "engine_start sample_services sample_settings = Ok eng"
  using assms by (simp add: engine_start_def start_session_def dictionaries_for_def cached_load_def sample_session_def Let_def
     sample_services_def nothing_started_def add_acceptor_def server_tls_def hm_insert_def)

lemma sample_listener:
  assumes "session_configs sample_settings = Inr [c1, c2]" and "sample_session ''TW'' False c1" and "sample_session ''PEER'' True c2"
    and "engine_start sample_services sample_settings = Ok eng"
  shows "\<exists>reg. map_of (eng_listeners eng) 5001 = Some (reg, TlsNone)"
  using assms by (auto simp: engine_start_def start_session_def dictionaries_for_def cached_load_def sample_session_def Let_def
     sample_services_def nothing_started_def add_acceptor_def server_tls_def hm_insert_def)

theorem engine_routes_connections_witness:
  "\<exists>eng reg tls h. engine_start sample_services sample_settings = Ok eng
     \<and> map_of (eng_listeners eng) 5001 = Some (reg, tls) \<and> sample_session ''TW'' False (sp_cfg h)
     \<and> tls = TlsNone
     \<and> accept_connection (\<lambda>_. Inr) tls reg [to_bytes sample_message] ''timeout'' [Some False] = Ok (h, [to_bytes sample_message])"
proof -
  obtain c1 c2 where c: "session_configs sample_settings = Inr [c1, c2]"
    "sample_session ''TW'' False c1" "sample_session ''PEER'' True c2" by (rule sample_configs)
  obtain eng where eng: "engine_start sample_services sample_settings = Ok eng" by (rule sample_engine_starts [OF c])
  have c1: "cfg_connection_type c1 = Acceptor" "cfg_socket_accept_port c1 = 5001"
    "connection_key (wire_form sample_message) = Ok (key_of (cfg_session_id c1))"
    using c(2) by (simp_all add: sample_session_def sample_connection_key)
  obtain reg tls h where r: "map_of (eng_listeners eng) 5001 = Some (reg, tls)" "sp_cfg h = c1"
    "\<And>wire. carries (\<lambda>_. Inr) tls wire [to_bytes sample_message] \<Longrightarrow>
       accept_connection (\<lambda>_. Inr) tls reg wire ''timeout'' [Some False] = Ok (h, [to_bytes sample_message])"
    using engine_routes_connections [OF eng c(1) _ c1(1) sample_read parse_to_bytes [OF sample_message_wf] c1(3),
        of "\<lambda>_. Inr" "''timeout''"]
    unfolding sample_read c1(2) by auto
  moreover have "tls = TlsNone" using sample_listener [OF c eng] r(1) by simp
  ultimately have "accept_connection (\<lambda>_. Inr) tls reg [to_bytes sample_message] ''timeout'' [Some False] = Ok (h, [to_bytes sample_message])"
    by (simp add: carries_def)
  with eng c(2) r(1,2) \<open>tls = TlsNone\<close> show ?thesis by blast
qed

lemma later_session_tls_ignored_witness:
  "\<exists>eng reg h. engine_start sample_services sample_settings = Ok eng
     \<and> map_of (eng_listeners eng) 5001 = Some (reg, TlsNone)
     \<and> map_of reg (''FIX.4.2'', ''ISLD'', ''PEER'') = Some h \<and> tls_enabled (cfg_tls (sp_cfg h))"
proof -
  obtain c1 c2 where c: "session_configs sample_settings = Inr [c1, c2]"
    "sample_session ''TW'' False c1" "sample_session ''PEER'' True c2" by (rule sample_configs)
  obtain eng where eng: "engine_start sample_services sample_settings = Ok eng" by (rule sample_engine_starts [OF c])
  show ?thesis
    using later_session_tls_ignored [OF eng c(1), of c2] c(2,3) eng by (auto simp: sample_session_def)
qed

theorem engine_dictionaries_as_configured_witness:
  "\<exists>eng h. engine_start sample_services sample_settings = Ok eng
     \<and> engine_session eng ''FIX.4.2'' ''ISLD'' ''PEER'' = Some h \<and> sp_dictionary h = Some empty_dictionary"
proof -
  obtain c1 c2 where c: "session_configs sample_settings = Inr [c1, c2]"
    "sample_session ''TW'' False c1" "sample_session ''PEER'' True c2" by (rule sample_configs)
  obtain eng where eng: "engine_start sample_services sample_settings = Ok eng" by (rule sample_engine_starts [OF c])
  have "\<forall>cfg \<in> set [c1, c2]. plain_paths cfg"
    using c(2,3) by (simp add: sample_session_def plain_paths_def plain_path_def)
  then show ?thesis
    using engine_dictionaries_as_configured [OF eng c(1), of c2] c(3) eng
    by (auto simp: sample_session_def key_of_def own_dictionaries_def sample_services_def)
qed

text \<open>An engine that dials with TLS and without SocketCAFile.\<close>

definition sample_rustls :: rustls where
  "sample_rustls = \<lparr>rl_read = \<lambda>_. Inr [], rl_certs = \<lambda>_. Inr [''cert''], rl_private_key = \<lambda>_. Inr (Some ''key''),
     rl_add_root = \<lambda>_. Inr (), rl_versions = Inr (), rl_client_verifier = \<lambda>_. Inr (), rl_single_cert = \<lambda>_ _. Inr (),
     rl_client_auth_cert = \<lambda>_ _. Inr (), rl_server_name = Inr\<rparr>"

definition dial_settings :: settings where
  "dial_settings =
     \<lparr>st_defaults = [],
      st_sessions = [[(''ConnectionType'', ''initiator''), (''BeginString'', ''FIX.4.2''), (''SenderCompID'', ''TW''),
        (''TargetCompID'', ''ISLD''), (''NonStopSession'', ''Y''), (''HeartBtInt'', ''30''), (''SocketConnectHost'', ''host''),
        (''SocketConnectPort'', ''5001''), (''UseDataDictionary'', ''N''), (''SocketUseSSL'', ''Y'')]]\<rparr>"

lemma dial_heart_bt_int: "parse_u64 ''30'' = Some 30"
  by (simp add: parse_u64_def parse_unsigned_def strip_plus_def is_digit_def digit_val_def byte_of_def)

lemma dial_configs:
  "\<exists>c. session_configs dial_settings = Inr [c] \<and> cfg_connection_type c = Initiator \<and> \<not> cfg_use_data_dictionary c
     \<and> tls_enabled (cfg_tls c) \<and> \<not> tls_insecure_skip_verify (cfg_tls c) \<and> tls_ca_file (cfg_tls c) = None
     \<and> tls_certificate_file (cfg_tls c) = None"
  by (simp add: session_configs_def dial_settings_def config_simps sample_port dial_heart_bt_int)

theorem engine_tls_trust_witness:
  "\<exists>eng key con. engine_start (sample_services\<lparr>sv_tls := Some sample_rustls\<rparr>) dial_settings = Ok eng
     \<and> eng_initiators eng = [(key, TlsClient con)] \<and> ct_verification con = Roots []"
proof -
  let ?sv = "sample_services\<lparr>sv_tls := Some sample_rustls\<rparr>"
  obtain c where c: "session_configs dial_settings = Inr [c]" "cfg_connection_type c = Initiator" "\<not> cfg_use_data_dictionary c"
    "tls_enabled (cfg_tls c)" "\<not> tls_insecure_skip_verify (cfg_tls c)" "tls_ca_file (cfg_tls c) = None"
    "tls_certificate_file (cfg_tls c) = None"
    using dial_configs by blast
  obtain eng con where eng: "engine_start ?sv dial_settings = Ok eng"
    "eng_initiators eng = [(key_of (cfg_session_id c), TlsClient con)]"
    using c by (simp add: engine_start_def start_session_def dictionaries_for_def Let_def sample_services_def
        nothing_started_def client_tls_def build_connector_def sample_rustls_def)
  from engine_tls_trust [OF eng(1) c(1)] eng(2) c(5,6) have "ct_verification con = Roots []"
    by (auto simp: initiator_trust_def connector_trust_def split: server_verification.splits)
  with eng show ?thesis by blast
qed

end
