(* ===== verification/Module_Generator.thy ===== *)
theory Module_Generator
  imports Dictionary_Load
begin

text \<open>
  \<open>src/bin/generate-fix.rs\<close>: the program that writes the typed message modules from a dictionary. It
  is modelled as the text it writes. Looking a field up by its tag panics when the dictionary has no
  such field, so the texts that need fields are results.

  Names are ASCII in every case distinction of the code; a character outside ASCII is treated like
  its first byte, and its other bytes never count as letters or digits.
\<close>

section \<open>Text\<close>

definition writeln :: "bytes \<Rightarrow> bytes" where
  "writeln s = s @ [CHR 0x0A]"

definition text_lines :: "bytes list \<Rightarrow> bytes" where
  "text_lines ls = concat (map writeln ls)"

fun join :: "bytes \<Rightarrow> bytes list \<Rightarrow> bytes" where
  "join sep [] = []"
| "join sep [s] = s"
| "join sep (s # ss) = s @ sep @ join sep ss"

text \<open>Writing one text after the other, each of which may unwind.\<close>

primrec emit :: "('a \<Rightarrow> ('e, bytes) res) \<Rightarrow> 'a list \<Rightarrow> ('e, bytes) res" where
  "emit f [] = Ok []"
| "emit f (x # xs) = res_bind (f x) (\<lambda>a. res_bind (emit f xs) (\<lambda>b. Ok (a @ b)))"

lemma emit_cong [fundef_cong]: "xs = ys \<Longrightarrow> (\<And>x. x \<in> set ys \<Longrightarrow> f x = g x) \<Longrightarrow> emit f xs = emit g ys"
  by (induction ys arbitrary: xs) auto

definition ascii_uppercase :: "char \<Rightarrow> bool" where
  "ascii_uppercase c \<longleftrightarrow> 65 \<le> byte_of c \<and> byte_of c \<le> 90"

definition ascii_lowercase :: "char \<Rightarrow> bool" where
  "ascii_lowercase c \<longleftrightarrow> 97 \<le> byte_of c \<and> byte_of c \<le> 122"

definition ascii_alnum :: "char \<Rightarrow> bool" where
  "ascii_alnum c \<longleftrightarrow> ascii_uppercase c \<or> ascii_lowercase c \<or> is_digit c"

text \<open>A \<open>BTreeMap\<close> collected from an iteration: ascending keys, the last entry of a key stays.\<close>

fun tree_insert :: "('k :: linorder) \<Rightarrow> 'v \<Rightarrow> ('k \<times> 'v) list \<Rightarrow> ('k \<times> 'v) list" where
  "tree_insert k v [] = [(k, v)]"
| "tree_insert k v ((k', v') # m) =
     (if k < k' then (k, v) # (k', v') # m else if k = k' then (k, v) # m else (k', v') # tree_insert k v m)"

definition tree_collect :: "('k :: linorder \<times> 'v) list \<Rightarrow> ('k \<times> 'v) list" where
  "tree_collect kvs = foldl (\<lambda>m (k, v). tree_insert k v m) [] kvs"

section \<open>Types and names\<close>

definition HEADER_TEXT :: bytes where
  "HEADER_TEXT = text_lines
     [''//! GENERATED by `generate-fix` '' @ [CHR 0xE2, CHR 0x80, CHR 0x94] @ '' do not edit by hand.'',
      ''#![allow(clippy::all, unused_imports, unused_mut, dead_code, non_upper_case_globals)]'', '''']"

fun value_type :: "field_type \<Rightarrow> bytes" where
  "value_type FtInt = ''i64''"
| "value_type FtLength = ''i64''"
| "value_type FtSeqNum = ''i64''"
| "value_type FtNumInGroup = ''i64''"
| "value_type FtDayOfMonth = ''i64''"
| "value_type FtFloat = ''crate::Amount''"
| "value_type FtQty = ''crate::Amount''"
| "value_type FtPrice = ''crate::Amount''"
| "value_type FtPriceOffset = ''crate::Amount''"
| "value_type FtAmt = ''crate::Amount''"
| "value_type FtPercentage = ''crate::Amount''"
| "value_type FtChar = ''char''"
| "value_type FtBoolean = ''bool''"
| "value_type FtUtcTimestamp = ''crate::UtcTimestamp''"
| "value_type FtUtcDateOnly = ''crate::FixDate''"
| "value_type FtLocalMktDate = ''crate::FixDate''"
| "value_type FtData = ''Vec<u8>''"
| "value_type _ = ''String''"

definition param_style :: "field_type \<Rightarrow> bytes \<times> bytes" where
  "param_style ft =
     (if value_type ft = ''String'' then (''impl Into<String>'', ''.into()'')
      else if value_type ft = ''Vec<u8>'' then (''impl Into<Vec<u8>>'', ''.into()'')
      else (value_type ft, []))"

definition KEYWORDS :: "bytes list" where
  "KEYWORDS =
     [''as'', ''break'', ''const'', ''continue'', ''crate'', ''dyn'', ''else'', ''enum'', ''extern'', ''false'', ''fn'',
      ''for'', ''if'', ''impl'', ''in'', ''let'', ''loop'', ''match'', ''mod'', ''move'', ''mut'', ''pub'', ''ref'',
      ''return'', ''self'', ''static'', ''struct'', ''super'', ''trait'', ''true'', ''type'', ''unsafe'', ''use'',
      ''where'', ''while'', ''async'', ''await'', ''abstract'', ''become'', ''box'', ''do'', ''final'', ''macro'',
      ''override'', ''priv'', ''typeof'', ''unsized'', ''virtual'', ''yield'', ''try'', ''gen'']"

definition char_is :: "(char \<Rightarrow> bool) \<Rightarrow> bytes \<Rightarrow> nat \<Rightarrow> bool" where
  "char_is p cs i \<longleftrightarrow> i < length cs \<and> p (cs ! i)"

definition snake_char :: "bytes \<Rightarrow> nat \<Rightarrow> bytes" where
  "snake_char cs i =
     (if ascii_uppercase (cs ! i) then
        (let prev_lower = 0 < i \<and> (ascii_lowercase (cs ! (i - 1)) \<or> is_digit (cs ! (i - 1)));
             next_lower = char_is ascii_lowercase cs (i + 1);
             prev_upper = 0 < i \<and> ascii_uppercase (cs ! (i - 1));
             acronym_plural = char_is (\<lambda>c. c = CHR ''s'') cs (i + 1) \<and> \<not> char_is ascii_lowercase cs (i + 2)
         in (if prev_lower \<or> prev_upper \<and> next_lower \<and> \<not> acronym_plural then ''_'' else []) @ [ascii_lower (cs ! i)])
      else [cs ! i])"

definition snake :: "bytes \<Rightarrow> bytes" where
  "snake name =
     (let out = concat (map (snake_char name) [0..<length name])
      in if out \<in> set KEYWORDS then out @ ''_'' else out)"

definition trim_underscores :: "bytes \<Rightarrow> bytes" where
  "trim_underscores s = rev (dropWhile (\<lambda>c. c = CHR ''_'') (rev (dropWhile (\<lambda>c. c = CHR ''_'') s)))"

definition push_const_char :: "bytes \<Rightarrow> char \<Rightarrow> bytes" where
  "push_const_char out c =
     (if ascii_alnum c then out @ [ascii_upper c]
      else if out \<noteq> [] \<and> last out = CHR ''_'' then out else out @ ''_'')"

text \<open>\<open>str::replace\<close> of every character that is not a letter or digit: continuation bytes belong to the character before.\<close>

definition underscored :: "bytes \<Rightarrow> bytes" where
  "underscored s =
     map (\<lambda>c. if ascii_alnum c then c else CHR ''_'') (filter (\<lambda>c. byte_of c < 128 \<or> 192 \<le> byte_of c) s)"

definition const_name :: "bytes \<Rightarrow> bytes \<Rightarrow> bytes" where
  "const_name v description =
     (let base = (if description = [] then ''VALUE_'' @ v else description);
          out = trim_underscores (foldl push_const_char [] base)
      in if out = [] then ''VALUE_'' @ underscored v
         else if is_digit (hd out) then CHR ''_'' # out else out)"

section \<open>\<open>fields.rs\<close>\<close>

definition fields_sorted :: "data_dictionary \<Rightarrow> (tag \<times> field_def) list" where
  "fields_sorted dd = tree_collect (dd_fields_by_tag dd)"

definition const_line :: "bytes \<Rightarrow> bytes \<Rightarrow> bytes \<Rightarrow> bytes" where
  "const_line vt name v =
     writeln
      (if vt = ''char'' \<and> length v = 1
       then ''    pub const '' @ name @ '': char = '' @ [CHR 0x27]
            @ concat (map (\<lambda>c. if c = CHR 0x27 then [CHR 0x5C, CHR 0x27] else [c]) v) @ [CHR 0x27] @ '';''
       else if vt = ''i64'' \<and> parse_i64 v \<noteq> None then ''    pub const '' @ name @ '': i64 = '' @ v @ '';''
       else ''    pub const '' @ name @ '': &'static str = '' @ debug_str v @ '';'')"

text \<open>The constants of a field, without those whose name was seen before.\<close>

fun const_lines :: "bytes \<Rightarrow> bytes list \<Rightarrow> (bytes \<times> bytes) list \<Rightarrow> bytes" where
  "const_lines vt seen [] = []"
| "const_lines vt seen ((v, description) # vals) =
     (let name = const_name v description in
      if name \<in> set seen then const_lines vt seen vals
      else const_line vt name v @ const_lines vt (hs_insert name seen) vals)"

definition gen_field :: "tag \<times> field_def \<Rightarrow> bytes" where
  "gen_field tf =
     (let (t, f) = tf; vt = value_type (fd_type f) in
      text_lines [''/// '' @ fd_name f @ '' ('' @ dec_int t @ '').'', ''pub struct '' @ fd_name f @ '';'',
        ''impl Field for '' @ fd_name f @ '' { const TAG: Tag = '' @ dec_int t @ ''; type Value = '' @ vt @ ''; }'']
      @ (if fd_enum_values f \<noteq> [] \<and> vt \<in> set [''char'', ''String'', ''i64'']
         then writeln (''impl '' @ fd_name f @ '' {'') @ const_lines vt [] (fd_enum_values f) @ writeln ''}'' else [])
      @ writeln [])"

definition gen_fields :: "data_dictionary \<Rightarrow> bytes" where
  "gen_fields dd =
     HEADER_TEXT
     @ text_lines [''//! Typed field markers: `fields::ClOrdID::TAG` etc, with enum value'',
         ''//! constants attached (`fields::Side::BUY`).'', '''',
         ''use crate::field_map::Field;'', ''use crate::message::Tag;'', '''']
     @ concat (map gen_field (fields_sorted dd))"

section \<open>\<open>messages.rs\<close>\<close>

text \<open>\<open>&self.dd.fields_by_tag[&tag]\<close>.\<close>

definition field_of :: "data_dictionary \<Rightarrow> tag \<Rightarrow> (error, field_def) res" where
  "field_of dd t = (case map_of (dd_fields_by_tag dd) t of Some f \<Rightarrow> Ok f | None \<Rightarrow> Panic)"

definition gen_field_accessors :: "data_dictionary \<Rightarrow> bytes \<Rightarrow> tag \<Rightarrow> (error, bytes) res" where
  "gen_field_accessors dd fm t =
     res_bind (field_of dd t) (\<lambda>f.
       let method = snake (fd_name f); (pt, conv) = param_style (fd_type f) in
       Ok (text_lines
         [''        pub fn '' @ method @ ''(&self) -> Result<'' @ value_type (fd_type f)
            @ '', ConversionError> { '' @ fm @ ''.get_field::<fields::'' @ fd_name f @ ''>() }'',
          ''        pub fn set_'' @ method @ ''(&mut self, v: '' @ pt @ '') { '' @ fm @ ''.set_field::<fields::'' @ fd_name f
            @ ''>(v'' @ conv @ ''); }'',
          ''        pub fn has_'' @ method @ ''(&self) -> bool { '' @ fm @ ''.has_field::<fields::'' @ fd_name f @ ''>() }'']))"

text \<open>The two methods of a group, on the field map \<open>fm\<close>; they call the function that builds the template.\<close>

definition group_methods :: "bytes \<Rightarrow> bytes \<Rightarrow> bytes \<Rightarrow> bytes" where
  "group_methods fm method struct_name =
     text_lines
       [''        pub fn '' @ method @ ''(&self) -> Result<Vec<'' @ struct_name @ ''>, ConversionError> {'',
        ''            Ok('' @ fm @ ''.read_groups(&'' @ method @ ''_template())?.into_iter().map('' @ struct_name @ '').collect())'',
        ''        }'',
        ''        pub fn set_'' @ method @ ''(&mut self, groups: impl IntoIterator<Item = '' @ struct_name @ ''>) {'',
        ''            let maps: Vec<FieldMap> = groups.into_iter().map(|g| g.0).collect();'',
        ''            '' @ fm @ ''.write_groups(&'' @ method @ ''_template(), &maps);'',
        ''        }'']"

definition gen_group_accessors :: "data_dictionary \<Rightarrow> bytes \<Rightarrow> group_def \<Rightarrow> (error, bytes) res" where
  "gen_group_accessors dd fm g =
     res_bind (field_of dd (gd_counter g)) (\<lambda>f. Ok (group_methods fm (snake (fd_name f)) (fd_name f)))"

lemma group_size: "map_of gs t = Some g \<Longrightarrow> size g < Suc (size_list (size_prod (\<lambda>_. 0) size) gs)"
  using size_list_estimation' [of "(t, g)" gs "size g" "size_prod (\<lambda>_. 0) size"] by (auto dest: map_of_SomeD)

function flatten_members :: "group_def \<Rightarrow> tag list" where
  "flatten_members (GroupDef counter delim ts req gs order) =
     concat (map (\<lambda>t. t # (case map_of gs t of None \<Rightarrow> [] | Some nested \<Rightarrow> flatten_members nested)) order)"
  by pat_completeness auto
termination
  by (relation "measure size") (auto dest!: group_size)

text \<open>The function that builds the template of a group: the counter and all members, nested ones included.\<close>

definition template_fn :: "bytes \<Rightarrow> group_def \<Rightarrow> bytes" where
  "template_fn method g =
     text_lines
       [[], ''    pub(crate) fn '' @ method @ ''_template() -> crate::GroupTemplate {'',
        ''        crate::GroupTemplate::new('' @ dec_int (gd_counter g) @ '', vec!['' @ join '', '' (map dec_int (flatten_members g)) @ ''])'',
        ''    }'']"

definition group_struct :: "bytes \<Rightarrow> bytes \<Rightarrow> group_def \<Rightarrow> bytes" where
  "group_struct struct_name counter_name g =
     text_lines
       [''    /// Repeating group counted by '' @ counter_name @ '' ('' @ dec_int (gd_counter g) @ ''). Set the delimiter'',
        ''    /// field ('' @ dec_int (gd_delimiter g) @ '') first.'',
        ''    #[derive(Debug, Clone, Default)]'',
        ''    pub struct '' @ struct_name @ ''(pub FieldMap);'',
        ''    impl '' @ struct_name @ '' {'',
        ''        pub fn new() -> Self { Self(FieldMap::new()) }'']"

definition gen_group_member :: "data_dictionary \<Rightarrow> bytes \<Rightarrow> (tag \<times> group_def) list \<Rightarrow> tag \<Rightarrow> (error, bytes) res" where
  "gen_group_member dd counter_name gs t =
     (case map_of gs t of
        Some nested \<Rightarrow>
          res_bind (field_of dd (gd_counter nested)) (\<lambda>nf.
            let nested_struct = counter_name @ fd_name nf in
            Ok (group_methods ''self.0'' (snake nested_struct) nested_struct))
      | None \<Rightarrow> gen_field_accessors dd ''self.0'' t)"

function gen_group_struct :: "data_dictionary \<Rightarrow> bytes \<Rightarrow> group_def \<Rightarrow> (error, bytes) res" where
  "gen_group_struct dd pre (GroupDef counter delim ts req gs order) =
     (let g = GroupDef counter delim ts req gs order in
      res_bind (field_of dd counter) (\<lambda>f.
      res_bind (emit (gen_group_member dd (fd_name f) gs) order) (\<lambda>members.
      res_bind (emit (\<lambda>t. case map_of gs t of None \<Rightarrow> Ok [] | Some nested \<Rightarrow> gen_group_struct dd (fd_name f) nested) order) (\<lambda>nested.
        let struct_name = pre @ fd_name f in
        Ok (template_fn (snake struct_name) g @ group_struct struct_name (fd_name f) g
            @ members @ writeln ''    }'' @ nested)))))"
  by pat_completeness auto
termination
  by (relation "measure (\<lambda>(_, _, g). size g)") (auto dest!: group_size)

definition constructor_arg :: "data_dictionary \<Rightarrow> tag \<Rightarrow> (error, bytes) res" where
  "constructor_arg dd t =
     res_bind (field_of dd t) (\<lambda>f. Ok (snake (fd_name f) @ '': '' @ fst (param_style (fd_type f))))"

definition constructor_set :: "data_dictionary \<Rightarrow> tag \<Rightarrow> (error, bytes) res" where
  "constructor_set dd t =
     res_bind (field_of dd t) (\<lambda>f.
       Ok (writeln (''            m.body.set_field::<fields::'' @ fd_name f @ ''>('' @ snake (fd_name f)
            @ snd (param_style (fd_type f)) @ '');'')))"

primrec res_list :: "('a \<Rightarrow> ('e, 'b) res) \<Rightarrow> 'a list \<Rightarrow> ('e, 'b list) res" where
  "res_list f [] = Ok []"
| "res_list f (x # xs) = res_bind (f x) (\<lambda>a. res_bind (res_list f xs) (\<lambda>b. Ok (a # b)))"

text \<open>The constructor takes the required fields; groups are added afterwards.\<close>

definition gen_constructor :: "data_dictionary \<Rightarrow> message_def \<Rightarrow> (error, bytes) res" where
  "gen_constructor dd d =
     (let required = filter (\<lambda>t. map_of (md_groups d) t = None) (md_required d) in
      res_bind (res_list (constructor_arg dd) required) (\<lambda>args.
      res_bind (emit (constructor_set dd) required) (\<lambda>sets.
        Ok (text_lines
              [''        #[allow(clippy::too_many_arguments)]'',
               ''        pub fn new('' @ join '', '' args @ '') -> Self {'',
               ''            let mut m = crate::Message::with_type(Self::MSG_TYPE);'']
            @ sets @ text_lines [''            Self(m)'', ''        }'', []]))))"

definition from_message_fn :: "bytes \<Rightarrow> bytes" where
  "from_message_fn mt =
     text_lines
       [''        /// Wrap a generic message; fails unless 35='' @ debug_str mt @ ''.'',
        ''        pub fn from_message(msg: crate::Message) -> Result<Self, crate::Message> {'',
        ''            if msg.msg_type().ok().as_deref() == Some(Self::MSG_TYPE) { Ok(Self(msg)) } else { Err(msg) }'',
        ''        }'', []]"

definition deref_impls :: "bytes \<Rightarrow> bytes" where
  "deref_impls name =
     text_lines
       [''    impl std::ops::Deref for '' @ name @ '' {'', ''        type Target = crate::Message;'',
        ''        fn deref(&self) -> &crate::Message { &self.0 }'', ''    }'',
        ''    impl std::ops::DerefMut for '' @ name @ '' {'',
        ''        fn deref_mut(&mut self) -> &mut crate::Message { &mut self.0 }'', ''    }'',
        ''    impl From<'' @ name @ ''> for crate::Message {'',
        ''        fn from(m: '' @ name @ '') -> crate::Message { m.0 }'', ''    }'', []]"

definition gen_message_struct :: "data_dictionary \<Rightarrow> message_def \<Rightarrow> (error, bytes) res" where
  "gen_message_struct dd d =
     res_bind (gen_constructor dd d) (\<lambda>constructor.
     res_bind (emit (\<lambda>t. case map_of (md_groups d) t of
                 Some g \<Rightarrow> gen_group_accessors dd ''self.0.body'' g
               | None \<Rightarrow> gen_field_accessors dd ''self.0.body'' t) (md_field_order d)) (\<lambda>accessors.
       let name = md_name d in
       Ok (text_lines
             [''    /// '' @ name @ '' (35='' @ md_msg_type d @ '').'', ''    #[derive(Debug, Clone)]'',
              ''    pub struct '' @ name @ ''(pub crate::Message);'', ''    impl '' @ name @ '' {'',
              ''        pub const MSG_TYPE: &'static str = '' @ debug_str (md_msg_type d) @ '';'']
           @ constructor @ from_message_fn (md_msg_type d) @ accessors @ writeln ''    }'' @ deref_impls name)))"

definition messages_by_name :: "data_dictionary \<Rightarrow> message_def list" where
  "messages_by_name dd = map snd (tree_collect (map (\<lambda>(_, d). (md_name d, d)) (dd_messages dd)))"

definition gen_message_module :: "data_dictionary \<Rightarrow> message_def \<Rightarrow> (error, bytes) res" where
  "gen_message_module dd d =
     res_bind (gen_message_struct dd d) (\<lambda>struct.
     res_bind (emit (\<lambda>t. case map_of (md_groups d) t of None \<Rightarrow> Ok [] | Some g \<Rightarrow> gen_group_struct dd [] g)
                (md_field_order d)) (\<lambda>groups.
       Ok (text_lines
             [''pub mod '' @ snake (md_name d) @ '' {'', ''    use crate::field_map::{Field, FieldMap};'',
              ''    use crate::error::ConversionError;'', ''    use super::super::fields;'', []]
           @ struct @ groups @ writeln ''}''
           @ text_lines [''pub use '' @ snake (md_name d) @ ''::'' @ md_name d @ '';'', []])))"

definition gen_messages :: "data_dictionary \<Rightarrow> (error, bytes) res" where
  "gen_messages dd =
     res_bind (emit (gen_message_module dd) (messages_by_name dd)) (\<lambda>modules.
       Ok (HEADER_TEXT
           @ text_lines [''//! One module per message; structs wrap [`crate::Message`] and expose'',
               ''//! typed accessors. Constructors take the message's required fields.'', []]
           @ modules))"

section \<open>\<open>mod.rs\<close>\<close>

definition variant_line :: "message_def \<Rightarrow> bytes" where
  "variant_line d = writeln (''    '' @ md_name d @ ''(messages::'' @ snake (md_name d) @ ''::'' @ md_name d @ ''),'')"

definition classify_arm :: "message_def \<Rightarrow> bytes" where
  "classify_arm d =
     writeln (''        '' @ debug_str (md_msg_type d) @ '' => AnyMessage::'' @ md_name d @ ''(messages::''
       @ snake (md_name d) @ ''::'' @ md_name d @ ''(msg)),'')"

definition gen_mod :: "data_dictionary \<Rightarrow> bytes" where
  "gen_mod dd =
     HEADER_TEXT
     @ text_lines
         [''//! Typed messages for '' @ dd_begin_string dd @ '' '' @ [CHR 0xE2, CHR 0x80, CHR 0x94] @ '' generated from its spec XML.'', [],
          ''pub mod fields;'', ''pub mod messages;'', ''pub use messages::*;'', [],
          ''pub const BEGIN_STRING: &str = '' @ debug_str (dd_begin_string dd) @ '';'', [],
          ''/// Every message type of this FIX version, for typed dispatch.'', ''#[derive(Debug, Clone)]'', ''pub enum AnyMessage {'']
     @ concat (map variant_line (messages_by_name dd))
     @ text_lines
         [''    /// MsgType not defined by this dictionary.'', ''    Unknown(crate::Message),'', ''}'', [],
          ''/// Classify a generic message into its typed representation.'', ''pub fn classify(msg: crate::Message) -> AnyMessage {'',
          ''    match msg.msg_type().ok().as_deref().unwrap_or('' @ debug_str [] @ '') {'']
     @ concat (map classify_arm (messages_by_name dd))
     @ text_lines [''        _ => AnyMessage::Unknown(msg),'', ''    }'', ''}'']"

text \<open>
  \<open>main\<close>, from the text of the specification to the three files; errors of the file system and of the
  parser end the program.
\<close>

definition generate :: "data_dictionary \<Rightarrow> (error, bytes \<times> bytes \<times> bytes) res" where
  "generate dd = res_bind (gen_messages dd) (\<lambda>messages. Ok (gen_fields dd, messages, gen_mod dd))"

section \<open>Generating from a well-formed dictionary never unwinds\<close>

lemma emit_returns: "(\<And>x. x \<in> set xs \<Longrightarrow> \<exists>a. f x = Ok a) \<Longrightarrow> \<exists>a. emit f xs = Ok a"
proof (induction xs)
  case (Cons x xs)
  then obtain a b where "f x = Ok a" "emit f xs = Ok b" by fastforce
  then show ?case by simp
qed simp

lemma res_list_returns: "(\<And>x. x \<in> set xs \<Longrightarrow> \<exists>a. f x = Ok a) \<Longrightarrow> \<exists>a. res_list f xs = Ok a"
proof (induction xs)
  case (Cons x xs)
  then obtain a b where "f x = Ok a" "res_list f xs = Ok b" by fastforce
  then show ?case by simp
qed simp

lemma emit_piece:
  assumes "emit f xs = Ok out" and "x \<in> set xs"
  obtains a where "f x = Ok a" and "sublist a out"
proof -
  have "\<exists>a. f x = Ok a \<and> sublist a out"
    using assms
  proof (induction xs arbitrary: out)
    case (Cons y ys)
    then obtain a b where ab: "f y = Ok a" "emit f ys = Ok b" "out = a @ b" by (auto simp: res_bind_Ok_iff)
    show ?case
    proof (cases "x = y")
      case True
      then show ?thesis using ab by auto
    next
      case False
      then show ?thesis using Cons ab by (auto simp: sublist_append)
    qed
  qed simp
  then show thesis using that by blast
qed

definition known_tags :: "data_dictionary \<Rightarrow> tag set" where
  "known_tags dd = fst ` set (dd_fields_by_tag dd)"

lemma field_of_known: "t \<in> known_tags dd \<Longrightarrow> \<exists>f. field_of dd t = Ok f"
  by (cases "map_of (dd_fields_by_tag dd) t") (auto simp: known_tags_def field_of_def map_of_eq_None_iff)

lemma accessors_return:
  "t \<in> known_tags dd \<Longrightarrow> \<exists>a. gen_field_accessors dd fm t = Ok a"
  "gd_counter g \<in> known_tags dd \<Longrightarrow> \<exists>a. gen_group_accessors dd fm g = Ok a"
  "t \<in> known_tags dd \<Longrightarrow> \<exists>a. constructor_arg dd t = Ok a" "t \<in> known_tags dd \<Longrightarrow> \<exists>a. constructor_set dd t = Ok a"
  using field_of_known [of t dd] field_of_known [of "gd_counter g" dd]
  by (auto simp: gen_field_accessors_def gen_group_accessors_def constructor_arg_def constructor_set_def Let_def split: prod.splits)

text \<open>A nested group of a well-formed group with known tags is well-formed, with known tags.\<close>

definition group_known :: "data_dictionary \<Rightarrow> group_def \<Rightarrow> bool" where
  "group_known dd g \<longleftrightarrow> group_wf g \<and> gd_counter g \<in> known_tags dd \<and> set (gd_tags g) \<subseteq> known_tags dd"

lemma group_known_nested:
  assumes "group_known dd g" and "map_of (gd_groups g) t = Some n"
  shows "group_known dd n" "gd_counter n = t" "set (gd_tags n) \<subseteq> set (gd_tags g)"
proof -
  obtain c d ts r gs o' where g: "g = GroupDef c d ts r gs o'" by (cases g)
  have n: "(t, n) \<in> set gs" using map_of_SomeD [OF assms(2)] g by simp
  have w: "group_wf g" "set ts \<subseteq> known_tags dd" using assms(1) g by (simp_all add: group_known_def)
  from w(1) n have "gd_counter n = t \<and> t \<in> set o' \<and> set (gd_tags n) \<subseteq> set ts \<and> group_wf n \<and> set o' \<subseteq> set ts" unfolding g by fastforce
  with w(2) show "group_known dd n" "gd_counter n = t" "set (gd_tags n) \<subseteq> set (gd_tags g)"
    by (auto simp: group_known_def g)
qed

lemma group_known_member: "group_known dd g \<Longrightarrow> t \<in> set (gd_member_order g) \<Longrightarrow> t \<in> known_tags dd \<and> t \<in> set (gd_tags g)"
  by (cases g) (auto simp: group_known_def)

lemma gen_group_struct_returns: "group_known dd g \<Longrightarrow> \<exists>a. gen_group_struct dd pre g = Ok a"
proof (induction dd pre g rule: gen_group_struct.induct)
  case (1 dd pre counter delim ts req gs order)
  let ?g = "GroupDef counter delim ts req gs order"
  obtain f where f: "field_of dd counter = Ok f" using 1(2) field_of_known [of counter dd] by (auto simp: group_known_def)
  have "\<exists>a. gen_group_member dd (fd_name f) gs t = Ok a" if "t \<in> set order" for t
  proof (cases "map_of gs t")
    case None
    then show ?thesis using group_known_member [OF 1(2), of t] that accessors_return(1) by (simp add: gen_group_member_def)
  next
    case (Some n)
    then have "gd_counter n \<in> known_tags dd" using group_known_nested [OF 1(2), of t n] by (simp add: group_known_def)
    then show ?thesis using Some field_of_known by (fastforce simp: gen_group_member_def Let_def)
  qed
  then obtain ms where ms: "emit (gen_group_member dd (fd_name f) gs) order = Ok ms" using emit_returns by metis
  have "\<exists>a. (case map_of gs t of None \<Rightarrow> Ok [] | Some n \<Rightarrow> gen_group_struct dd (fd_name f) n) = Ok a" if "t \<in> set order" for t
    using 1(1) [OF refl that] group_known_nested(1) [OF 1(2), of t] by (auto split: option.splits)
  then obtain ns where "emit (\<lambda>t. case map_of gs t of None \<Rightarrow> Ok [] | Some n \<Rightarrow> gen_group_struct dd (fd_name f) n) order = Ok ns"
    using emit_returns by metis
  with f ms show ?case by (simp add: Let_def)
qed

definition message_known :: "data_dictionary \<Rightarrow> message_def \<Rightarrow> bool" where
  "message_known dd d \<longleftrightarrow> set (md_field_order d) \<subseteq> known_tags dd \<and> set (md_required d) \<subseteq> known_tags dd
     \<and> (\<forall>t g. map_of (md_groups d) t = Some g \<longrightarrow> group_known dd g)"

lemma wf_message_known:
  assumes "dictionary_wf dd" and "d \<in> snd ` set (dd_messages dd)"
  shows "message_known dd d"
proof -
  have m: "message_def_wf (known_tags dd) d"
    using assms by (auto simp: dictionary_wf_def known_tags_def Let_def)
  have "group_known dd g" if "map_of (md_groups d) t = Some g" for t g
    using m map_of_SomeD [OF that] unfolding message_def_wf_def groups_within_def group_known_def by fastforce
  with m show ?thesis by (auto simp: message_known_def message_def_wf_def)
qed

lemma gen_message_module_returns:
  assumes "message_known dd d"
  shows "\<exists>a. gen_message_module dd d = Ok a"
proof -
  note k = assms [unfolded message_known_def]
  let ?required = "filter (\<lambda>t. map_of (md_groups d) t = None) (md_required d)"
  have "\<exists>a. res_list (constructor_arg dd) ?required = Ok a" "\<exists>a. emit (constructor_set dd) ?required = Ok a"
    using k accessors_return(3,4) by (intro res_list_returns emit_returns; auto)+
  then obtain c where c: "gen_constructor dd d = Ok c" by (auto simp: gen_constructor_def Let_def)
  have "\<exists>a. emit (\<lambda>t. case map_of (md_groups d) t of
      Some g \<Rightarrow> gen_group_accessors dd ''self.0.body'' g | None \<Rightarrow> gen_field_accessors dd ''self.0.body'' t) (md_field_order d) = Ok a"
    using k accessors_return(1,2) by (intro emit_returns) (auto simp: group_known_def split: option.splits)
  with c obtain s where s: "gen_message_struct dd d = Ok s" by (auto simp: gen_message_struct_def Let_def)
  have "\<exists>a. emit (\<lambda>t. case map_of (md_groups d) t of None \<Rightarrow> Ok [] | Some g \<Rightarrow> gen_group_struct dd [] g) (md_field_order d) = Ok a"
    using k gen_group_struct_returns by (intro emit_returns) (auto split: option.splits)
  with s show ?thesis by (auto simp: gen_message_module_def)
qed

section \<open>Collecting into an ordered map\<close>

lemma set_tree_insert: "sorted (map fst m) \<Longrightarrow> distinct (map fst m) \<Longrightarrow> set (tree_insert k v m) = insert (k, v) {x \<in> set m. fst x \<noteq> k}"
  by (induction k v m rule: tree_insert.induct) force+

lemma tree_insert_sorted:
  "sorted (map fst m) \<Longrightarrow> distinct (map fst m) \<Longrightarrow> sorted (map fst (tree_insert k v m)) \<and> distinct (map fst (tree_insert k v m))"
proof (induction k v m rule: tree_insert.induct)
  case (2 k v k' v' m)
  have s: "fst ` set (tree_insert k v m) \<subseteq> insert k (fst ` set m)"
    using 2(2,3) by (auto simp: set_tree_insert)
  from 2 show ?case
  proof (cases "k < k'")
    case False
    show ?thesis
    proof (cases "k = k'")
      case False
      then have "k' < k" using \<open>\<not> k < k'\<close> by simp
      with 2 s show ?thesis by (auto 4 3 simp: image_iff)
    qed (use 2 in auto)
  qed force
qed simp

lemma tree_collect_sorted:
  "sorted (map fst (tree_collect kvs)) \<and> distinct (map fst (tree_collect kvs))
    \<and> (distinct (map fst kvs) \<longrightarrow> set (tree_collect kvs) = set kvs)"
proof (induction kvs rule: rev_induct)
  case (snoc kv kvs)
  obtain k v where "kv = (k, v)" by (cases kv)
  with snoc show ?case
    using tree_insert_sorted [of "tree_collect kvs" k v]
    by (auto simp: tree_collect_def set_tree_insert image_iff)
qed (simp add: tree_collect_def)

lemma tree_collect_order:
  assumes "set kvs = set kvs'" and "distinct (map fst kvs)" and "distinct (map fst kvs')"
  shows "tree_collect kvs = tree_collect kvs'"
proof -
  have "inj_on fst (set kvs)" using assms(2) by (simp add: distinct_map)
  then show ?thesis
    using tree_collect_sorted [of kvs] tree_collect_sorted [of kvs'] assms
    by (intro map_sorted_distinct_set_unique [of fst]) auto
qed

section \<open>Groups and their templates\<close>

text \<open>The groups a message's module has to serve, with the prefix of their struct's name.\<close>

inductive group_at :: "data_dictionary \<Rightarrow> message_def \<Rightarrow> bytes \<Rightarrow> group_def \<Rightarrow> bool" for dd d where
  top: "t \<in> set (md_field_order d) \<Longrightarrow> map_of (md_groups d) t = Some g \<Longrightarrow> group_at dd d [] g"
| nested: "group_at dd d pre g \<Longrightarrow> field_of dd (gd_counter g) = Ok f \<Longrightarrow> t \<in> set (gd_member_order g) \<Longrightarrow>
    map_of (gd_groups g) t = Some n \<Longrightarrow> group_at dd d (fd_name f) n"

text \<open>The methods of a group and the function they call, both in a text.\<close>

definition group_served :: "data_dictionary \<Rightarrow> bytes \<Rightarrow> group_def \<Rightarrow> bytes \<Rightarrow> bool" where
  "group_served dd pre g out \<longleftrightarrow>
     (case field_of dd (gd_counter g) of
        Ok f \<Rightarrow> (\<exists>fm. sublist (group_methods fm (snake (pre @ fd_name f)) (pre @ fd_name f)) out)
          \<and> sublist (template_fn (snake (pre @ fd_name f)) g) out
      | _ \<Rightarrow> False)"

lemma sublist_in: "sublist a b \<Longrightarrow> sublist b c \<Longrightarrow> sublist a c"
  by (metis append_assoc sublist_def)

lemma gen_group_struct_parts:
  assumes "gen_group_struct dd pre g = Ok a"
  obtains f ms ns where "field_of dd (gd_counter g) = Ok f"
    and "emit (gen_group_member dd (fd_name f) (gd_groups g)) (gd_member_order g) = Ok ms"
    and "emit (\<lambda>t. case map_of (gd_groups g) t of None \<Rightarrow> Ok [] | Some n \<Rightarrow> gen_group_struct dd (fd_name f) n) (gd_member_order g) = Ok ns"
    and "sublist (template_fn (snake (pre @ fd_name f)) g) a" and "sublist ms a" and "sublist ns a"
proof -
  obtain c d ts r gs o' where g: "g = GroupDef c d ts r gs o'" by (cases g)
  from assms obtain f ms ns where "field_of dd c = Ok f" "emit (gen_group_member dd (fd_name f) gs) o' = Ok ms"
    "emit (\<lambda>t. case map_of gs t of None \<Rightarrow> Ok [] | Some n \<Rightarrow> gen_group_struct dd (fd_name f) n) o' = Ok ns"
    "a = template_fn (snake (pre @ fd_name f)) g @ group_struct (pre @ fd_name f) (fd_name f) g @ ms @ writeln ''    }'' @ ns"
    unfolding g by (auto simp: res_bind_Ok_iff Let_def)
  then show ?thesis by (intro that [of f ms ns]) (auto simp: g sublist_append)
qed

lemma gen_message_module_parts:
  assumes "gen_message_module dd d = Ok m"
  obtains acc gs where
    "emit (\<lambda>t. case map_of (md_groups d) t of
       Some g \<Rightarrow> gen_group_accessors dd ''self.0.body'' g | None \<Rightarrow> gen_field_accessors dd ''self.0.body'' t) (md_field_order d) = Ok acc"
    and "emit (\<lambda>t. case map_of (md_groups d) t of None \<Rightarrow> Ok [] | Some g \<Rightarrow> gen_group_struct dd [] g) (md_field_order d) = Ok gs"
    and "sublist acc m" and "sublist gs m"
proof -
  from assms obtain s gs where s: "gen_message_struct dd d = Ok s"
    "emit (\<lambda>t. case map_of (md_groups d) t of None \<Rightarrow> Ok [] | Some g \<Rightarrow> gen_group_struct dd [] g) (md_field_order d) = Ok gs"
    "sublist s m" "sublist gs m"
    unfolding gen_message_module_def by (auto simp: res_bind_Ok_iff sublist_append)
  from s(1) obtain acc where
    "emit (\<lambda>t. case map_of (md_groups d) t of
       Some g \<Rightarrow> gen_group_accessors dd ''self.0.body'' g | None \<Rightarrow> gen_field_accessors dd ''self.0.body'' t) (md_field_order d) = Ok acc"
    "sublist acc s"
    unfolding gen_message_struct_def by (auto simp: res_bind_Ok_iff Let_def sublist_append)
  with s(2-4) show ?thesis using that sublist_in by metis
qed

lemma group_at_served:
  assumes "gen_message_module dd d = Ok m" and "group_at dd d pre g"
  shows "(\<exists>a. gen_group_struct dd pre g = Ok a \<and> sublist a m) \<and> group_served dd pre g m"
  using assms(2)
proof induction
  case (top t g)
  obtain acc gs where p:
    "emit (\<lambda>t. case map_of (md_groups d) t of
       Some g \<Rightarrow> gen_group_accessors dd ''self.0.body'' g | None \<Rightarrow> gen_field_accessors dd ''self.0.body'' t) (md_field_order d) = Ok acc"
    "emit (\<lambda>t. case map_of (md_groups d) t of None \<Rightarrow> Ok [] | Some g \<Rightarrow> gen_group_struct dd [] g) (md_field_order d) = Ok gs"
    "sublist acc m" "sublist gs m"
    by (rule gen_message_module_parts [OF assms(1)])
  obtain a where a: "gen_group_struct dd [] g = Ok a" "sublist a m"
    by (rule emit_piece [OF p(2) top(1)]) (use top(2) sublist_in [OF _ p(4)] in simp)
  obtain b where b: "gen_group_accessors dd ''self.0.body'' g = Ok b" "sublist b m"
    by (rule emit_piece [OF p(1) top(1)]) (use top(2) sublist_in [OF _ p(3)] in simp)
  obtain f where f: "field_of dd (gd_counter g) = Ok f" "sublist (template_fn (snake (fd_name f)) g) a"
    by (rule gen_group_struct_parts [OF a(1)]) simp
  have "sublist (group_methods ''self.0.body'' (snake (fd_name f)) (fd_name f)) m"
    using b f(1) by (simp add: gen_group_accessors_def)
  with f sublist_in [OF f(2) a(2)] a show ?case by (auto simp: group_served_def)
next
  case (nested pre g f t n)
  then obtain a where a: "gen_group_struct dd pre g = Ok a" "sublist a m" by blast
  obtain f' ms ns where f': "field_of dd (gd_counter g) = Ok f'"
    and p': "emit (gen_group_member dd (fd_name f') (gd_groups g)) (gd_member_order g) = Ok ms"
    "emit (\<lambda>t. case map_of (gd_groups g) t of None \<Rightarrow> Ok [] | Some n \<Rightarrow> gen_group_struct dd (fd_name f') n) (gd_member_order g) = Ok ns"
    "sublist ms a" "sublist ns a"
    by (rule gen_group_struct_parts [OF a(1)])
  have "f' = f" using f' nested(2) by simp
  note p = p' [unfolded this]
  obtain b where b: "gen_group_struct dd (fd_name f) n = Ok b" "sublist b m"
    by (rule emit_piece [OF p(2) nested(3)]) (use nested(4) sublist_in [OF _ sublist_in [OF p(4) a(2)]] in simp)
  obtain c where c: "gen_group_member dd (fd_name f) (gd_groups g) t = Ok c" "sublist c m"
    by (rule emit_piece [OF p(1) nested(3)]) (use sublist_in [OF _ sublist_in [OF p(3) a(2)]] in simp)
  obtain nf where nf: "field_of dd (gd_counter n) = Ok nf" "sublist (template_fn (snake (fd_name f @ fd_name nf)) n) b"
    by (rule gen_group_struct_parts [OF b(1)])
  have "sublist (group_methods ''self.0'' (snake (fd_name f @ fd_name nf)) (fd_name f @ fd_name nf)) m"
    using c nested(4) nf(1) by (simp add: gen_group_member_def Let_def)
  with nf sublist_in [OF nf(2) b(2)] b show ?case by (auto simp: group_served_def)
qed

lemma group_at_known: "message_known dd d \<Longrightarrow> group_at dd d pre g \<Longrightarrow> group_known dd g"
proof -
  assume m: "message_known dd d"
  assume "group_at dd d pre g"
  then show "group_known dd g"
  proof induction
    case (top t g)
    then show ?case using m by (auto simp: message_known_def)
  qed (use group_known_nested(1) in blast)
qed

lemma flatten_members_known: "group_known dd g \<Longrightarrow> flatten_members g \<noteq> [] \<and> hd (flatten_members g) = gd_delimiter g \<and> set (flatten_members g) \<subseteq> set (gd_tags g)"
proof (induction g rule: flatten_members.induct)
  case (1 counter delim ts req gs order)
  let ?g = "GroupDef counter delim ts req gs order"
  have o: "order \<noteq> []" "delim = hd order" "set order \<subseteq> set ts" using 1(2) by (auto simp: group_known_def)
  have "set (flatten_members n) \<subseteq> set ts" if "t \<in> set order" "map_of gs t = Some n" for t n
    using 1(1) [OF that] group_known_nested [OF 1(2), of t n] that by auto
  then have "set (t # (case map_of gs t of None \<Rightarrow> [] | Some n \<Rightarrow> flatten_members n)) \<subseteq> set ts" if "t \<in> set order" for t
    using that o(3) by (cases "map_of gs t") auto
  then have "set (flatten_members ?g) \<subseteq> set ts" by auto
  with o(1,2) show ?case by (cases order) simp_all
qed

lemma messages_by_name_known:
  assumes "dictionary_wf dd" and "d \<in> set (messages_by_name dd)"
  shows "message_known dd d"
proof -
  have "set (tree_collect kvs) \<subseteq> set kvs" for kvs :: "(bytes \<times> message_def) list"
  proof (induction kvs rule: rev_induct)
    case (snoc kv kvs)
    then show ?case using tree_collect_sorted [of kvs] by (cases kv) (auto simp: tree_collect_def set_tree_insert)
  qed (simp add: tree_collect_def)
  then have "d \<in> snd ` set (dd_messages dd)" using assms(2) by (force simp: messages_by_name_def)
  then show ?thesis by (rule wf_message_known [OF assms(1)])
qed

text \<open>
  C31. For every dictionary that loads, the generator finishes: no lookup of a field unwinds. In
  the module of every message, each repeating group, nested ones included, has its two methods and the
  function that builds the template these call; the template lists the delimiter first and
  only tags of the group.
\<close>

theorem generated_groups_complete:
  assumes "dictionary_parse depth evs = Some (Ok dd)"
  shows "\<exists>fields msgs md. generate dd = Ok (fields, msgs, md)
    \<and> (\<forall>d \<in> set (messages_by_name dd). \<exists>module. gen_message_module dd d = Ok module \<and> sublist module msgs
        \<and> (\<forall>pre g. group_at dd d pre g \<longrightarrow> group_served dd pre g module
              \<and> hd (flatten_members g) = gd_delimiter g \<and> set (flatten_members g) \<subseteq> set (gd_tags g)))"
proof -
  have wf: "dictionary_wf dd" using dictionary_parse_wf [OF assms] .
  have k: "message_known dd d" if "d \<in> set (messages_by_name dd)" for d using messages_by_name_known [OF wf that] .
  obtain ms where ms: "emit (gen_message_module dd) (messages_by_name dd) = Ok ms"
    using emit_returns [of "messages_by_name dd" "gen_message_module dd"] gen_message_module_returns k by blast
  then obtain msgs where msgs: "gen_messages dd = Ok msgs" "sublist ms msgs" by (simp add: gen_messages_def sublist_append)
  have "\<exists>module. gen_message_module dd d = Ok module \<and> sublist module msgs
      \<and> (\<forall>pre g. group_at dd d pre g \<longrightarrow> group_served dd pre g module
            \<and> hd (flatten_members g) = gd_delimiter g \<and> set (flatten_members g) \<subseteq> set (gd_tags g))"
    if d: "d \<in> set (messages_by_name dd)" for d
  proof -
    obtain module where m: "gen_message_module dd d = Ok module" "sublist module msgs"
      by (rule emit_piece [OF ms d]) (use sublist_in [OF _ msgs(2)] in blast)
    then show ?thesis using group_at_served [OF m(1)] flatten_members_known group_at_known [OF k [OF d]] by blast
  qed
  with msgs(1) show ?thesis by (simp add: generate_def)
qed

lemma pieces_fields:
  assumes "field_of dd = field_of dd'"
  shows "gen_field_accessors dd = gen_field_accessors dd'" "gen_group_accessors dd = gen_group_accessors dd'"
    "constructor_arg dd = constructor_arg dd'" "constructor_set dd = constructor_set dd'"
  by (intro ext, simp add: gen_field_accessors_def gen_group_accessors_def constructor_arg_def constructor_set_def assms)+

lemma gen_group_struct_fields: "field_of dd = field_of dd' \<Longrightarrow> gen_group_struct dd pre g = gen_group_struct dd' pre g"
proof (induction dd pre g rule: gen_group_struct.induct)
  case (1 dd pre counter delim ts req gs order)
  have m: "gen_group_member dd = gen_group_member dd'" by (intro ext) (simp add: gen_group_member_def pieces_fields [OF 1(2)] 1(2) split: option.split)
  have n: "emit (\<lambda>t. case map_of gs t of None \<Rightarrow> Ok [] | Some n \<Rightarrow> gen_group_struct dd (fd_name f) n) order
      = emit (\<lambda>t. case map_of gs t of None \<Rightarrow> Ok [] | Some n \<Rightarrow> gen_group_struct dd' (fd_name f) n) order" for f :: field_def
    by (rule emit_cong [OF refl]) (use 1(1) [OF refl _ _ 1(2)] in \<open>auto split: option.split\<close>)
  show ?case by (simp add: m n 1(2))
qed

text \<open>
  C32. What is generated does not depend on the order in which the hash maps of the dictionary
  are iterated, provided the messages have different names.
\<close>

theorem generation_deterministic:
  assumes "dd_begin_string dd = dd_begin_string dd'"
    and "set (dd_fields_by_tag dd) = set (dd_fields_by_tag dd')" and "set (dd_messages dd) = set (dd_messages dd')"
    and "distinct (map fst (dd_fields_by_tag dd))" and "distinct (map fst (dd_fields_by_tag dd'))"
    and "distinct (map (md_name \<circ> snd) (dd_messages dd))" and "distinct (map (md_name \<circ> snd) (dd_messages dd'))"
  shows "generate dd = generate dd'"
proof -
  have f: "field_of dd = field_of dd'"
    using map_of_inject_set [OF assms(4,5)] assms(2) by (intro ext) (simp add: field_of_def)
  note g = gen_group_struct_fields [OF f]
  have "gen_message_module dd = gen_message_module dd'"
    unfolding fun_eq_iff gen_message_module_def g gen_message_struct_def gen_constructor_def pieces_fields [OF f] by simp
  moreover have n: "messages_by_name dd = messages_by_name dd'"
    unfolding messages_by_name_def using assms(3,6,7)
    by (intro arg_cong [of _ _ "map snd"] tree_collect_order) (simp_all add: o_def case_prod_unfold)
  moreover have "fields_sorted dd = fields_sorted dd'"
    using tree_collect_order [OF assms(2,4,5)] by (simp add: fields_sorted_def)
  ultimately show ?thesis using assms(1) by (simp add: generate_def gen_messages_def gen_fields_def gen_mod_def)
qed

section \<open>Names\<close>

definition rust_identifier :: "bytes \<Rightarrow> bool" where
  "rust_identifier s \<longleftrightarrow> s \<noteq> [] \<and> \<not> is_digit (hd s) \<and> s \<noteq> ''_'' \<and> s \<notin> set KEYWORDS \<and> list_all (\<lambda>c. ascii_alnum c \<or> c = CHR ''_'') s"

lemma keywords_lower: "k \<in> set KEYWORDS \<Longrightarrow> ascii_lowercase (hd k) \<and> last k \<noteq> CHR ''_''"
proof -
  have "list_all (\<lambda>k. ascii_lowercase (hd k) \<and> last k \<noteq> CHR ''_'') KEYWORDS" by code_simp
  then show "k \<in> set KEYWORDS \<Longrightarrow> ascii_lowercase (hd k) \<and> last k \<noteq> CHR ''_''" by (simp add: list_all_iff)
qed

lemma snake_not_keyword: "snake name \<notin> set KEYWORDS"
  using keywords_lower [of "concat (map (snake_char name) [0..<length name]) @ ''_''"] by (auto simp: snake_def Let_def)

lemma byte_of_ascii_upper: "byte_of (ascii_upper c) = (if ascii_lowercase c then byte_of c - 32 else byte_of c)"
  by (auto simp: ascii_upper_def ascii_lowercase_def byte_of_def)

lemma ascii_upper_alnum: "ascii_alnum c \<Longrightarrow> ascii_alnum (ascii_upper c) \<and> \<not> ascii_lowercase (ascii_upper c) \<and> ascii_upper c \<noteq> CHR ''_''"
proof -
  assume "ascii_alnum c"
  then have b: "ascii_alnum (ascii_upper c) \<and> \<not> ascii_lowercase (ascii_upper c)" 
    by (auto simp: ascii_alnum_def ascii_uppercase_def ascii_lowercase_def is_digit_def byte_of_ascii_upper)
  then have "ascii_upper c \<noteq> CHR ''_''" by (auto simp: ascii_alnum_def ascii_uppercase_def ascii_lowercase_def is_digit_def byte_of_def)
  with b show ?thesis by blast
qed

definition const_char :: "char \<Rightarrow> bool" where
  "const_char c \<longleftrightarrow> ascii_alnum c \<and> \<not> ascii_lowercase c \<or> c = CHR ''_''"

lemma push_const_chars: "list_all const_char out \<Longrightarrow> list_all const_char (foldl push_const_char out cs)"
  by (induction cs arbitrary: out) (auto simp: push_const_char_def const_char_def ascii_upper_alnum)

lemma trim_underscores_chars:
  assumes "list_all const_char s"
  shows "list_all const_char (trim_underscores s)" "trim_underscores s \<noteq> [] \<Longrightarrow> hd (trim_underscores s) \<noteq> CHR ''_''"
proof -
  have "set (trim_underscores s) \<subseteq> set s" unfolding trim_underscores_def by (auto dest!: set_dropWhileD)
  then show "list_all const_char (trim_underscores s)" using assms by (auto simp: list_all_iff)
  let ?t = "dropWhile (\<lambda>c. c = CHR ''_'') s"
  assume n: "trim_underscores s \<noteq> []"
  then obtain x xs where t: "?t = x # xs" "x \<noteq> CHR ''_''"
    using hd_dropWhile [of "\<lambda>c. c = CHR ''_''" s] by (cases ?t) (auto simp: trim_underscores_def)
  have "hd (rev (dropWhile P (rev (x # xs)))) = x" if "\<not> P x" for P
    using that by (simp add: dropWhile_append)
  with t show "hd (trim_underscores s) \<noteq> CHR ''_''" by (simp add: trim_underscores_def)
qed

lemma const_name_identifier: "rust_identifier (const_name v description)"
proof -
  define out where "out = trim_underscores (foldl push_const_char [] (if description = [] then ''VALUE_'' @ v else description))"
  have o: "list_all const_char out" "out \<noteq> [] \<Longrightarrow> hd out \<noteq> CHR ''_''"
    using trim_underscores_chars [OF push_const_chars] by (simp_all add: out_def)
  have k: "rust_identifier s" if "list_all (\<lambda>c. ascii_alnum c \<or> c = CHR ''_'') s" "s \<noteq> []" "\<not> is_digit (hd s)" "s \<noteq> ''_''" "\<not> ascii_lowercase (hd s)" for s
    using that keywords_lower [of s] by (auto simp: rust_identifier_def)
  have c: "list_all (\<lambda>c. ascii_alnum c \<or> c = CHR ''_'') out" using o(1) by (auto simp: list_all_iff const_char_def)
  have h: "\<not> ascii_lowercase (hd out)" if "out \<noteq> []"
    using o(1) that by (cases out) (auto simp: const_char_def ascii_lowercase_def byte_of_def)
  consider "out = []" | "out \<noteq> []" "is_digit (hd out)" | "out \<noteq> []" "\<not> is_digit (hd out)" by blast
  then show ?thesis
  proof cases
    case 1
    have "list_all (\<lambda>c. ascii_alnum c \<or> c = CHR ''_'') (''VALUE_'' @ underscored v)"
      by (auto simp: list_all_iff underscored_def ascii_alnum_def ascii_uppercase_def byte_of_def)
    with 1 show ?thesis
      by (simp add: const_name_def out_def [symmetric] Let_def) (rule k; simp add: ascii_lowercase_def is_digit_def byte_of_def)
  next
    case 2
    with c show ?thesis
      by (simp add: const_name_def out_def [symmetric] Let_def) (rule k; simp add: ascii_lowercase_def is_digit_def byte_of_def)
  next
    case 3
    with c o(2) h show ?thesis by (simp add: const_name_def out_def [symmetric] Let_def) (rule k; auto)
  qed
qed

fun fresh_consts :: "bytes list \<Rightarrow> (bytes \<times> bytes) list \<Rightarrow> (bytes \<times> bytes) list" where
  "fresh_consts seen [] = []"
| "fresh_consts seen ((v, description) # vals) =
     (if const_name v description \<in> set seen then fresh_consts seen vals
      else (const_name v description, v) # fresh_consts (hs_insert (const_name v description) seen) vals)"

lemma const_lines_fresh: "const_lines vt seen vals = concat (map (\<lambda>(n, v). const_line vt n v) (fresh_consts seen vals))"
  by (induction vt seen vals rule: const_lines.induct) (simp_all add: Let_def)

lemma fresh_consts_names:
  "distinct (map fst (fresh_consts seen vals)) \<and> fst ` set (fresh_consts seen vals) = (\<lambda>(v, d). const_name v d) ` set vals - set seen"
  by (induction seen vals rule: fresh_consts.induct) auto

lemma fresh_consts_first:
  "(n, v) \<in> set (fresh_consts seen vals) \<Longrightarrow> \<exists>d before after. vals = before @ (v, d) # after \<and> n = const_name v d
    \<and> n \<notin> (\<lambda>(v, d). const_name v d) ` set before"
proof (induction seen vals rule: fresh_consts.induct)
  case (2 seen w e vals)
  show ?case
  proof (cases "(n, v) = (const_name w e, w) \<and> const_name w e \<notin> set seen")
    case True
    then show ?thesis by (intro exI [of _ e] exI [of _ "[]"] exI [of _ vals]) simp
  next
    case False
    let ?seen = "if const_name w e \<in> set seen then seen else hs_insert (const_name w e) seen"
    have m: "(n, v) \<in> set (fresh_consts ?seen vals)" "const_name w e \<in> set ?seen" using 2(3) False by (auto split: if_splits)
    then obtain d b a where "vals = b @ (v, d) # a" "n = const_name v d" "n \<notin> (\<lambda>(v, d). const_name v d) ` set b"
      using 2(1,2) by (auto split: if_splits)
    moreover have "n \<noteq> const_name w e" using m fresh_consts_names [of ?seen vals] by force
    ultimately show ?thesis by (intro exI [of _ d] exI [of _ "(w, e) # b"] exI [of _ a]) auto
  qed
qed simp

text \<open>
  C33. The constants generated for the values of a field: one per name, each name a valid
  identifier, every value's name among them, and each constant has the first value of its name.
\<close>

theorem generated_constants:
  "\<exists>consts. const_lines vt [] vals = concat (map (\<lambda>(n, v). const_line vt n v) consts)
    \<and> distinct (map fst consts) \<and> list_all rust_identifier (map fst consts)
    \<and> set (map fst consts) = (\<lambda>(v, d). const_name v d) ` set vals
    \<and> list_all (\<lambda>(n, v). \<exists>d before after. vals = before @ (v, d) # after \<and> n = const_name v d
         \<and> n \<notin> (\<lambda>(v, d). const_name v d) ` set before) consts"
proof -
  let ?cs = "fresh_consts [] vals"
  have f: "list_all (\<lambda>(n, v). \<exists>d before after. vals = before @ (v, d) # after \<and> n = const_name v d
      \<and> n \<notin> (\<lambda>(v, d). const_name v d) ` set before) ?cs"
    using fresh_consts_first [of _ _ "[]" vals] by (simp add: list_all_iff case_prod_unfold)
  then have "list_all rust_identifier (map fst ?cs)"
    using const_name_identifier by (auto simp: list_all_iff)
  then show ?thesis using f const_lines_fresh [of vt "[]" vals] fresh_consts_names [of "[]" vals] by (intro exI [of _ ?cs]) simp
qed

section \<open>A small module\<close>

definition party_ids :: group_def where
  "party_ids = GroupDef 453 448 [448] [448] [] [448]"

lemma small_dictionary:
  "\<exists>dd. dictionary_parse 2 small_document = Some (Ok dd)
    \<and> map md_name (messages_by_name dd) = [''Order''] \<and> map md_field_order (messages_by_name dd) = [[453]]
    \<and> map md_groups (messages_by_name dd) = [[(453, party_ids)]]"
  by (rule loaded_case) code_simp

theorem generated_groups_complete_witness:
  "\<exists>dd d fields msgs md module. dictionary_parse 2 small_document = Some (Ok dd) \<and> generate dd = Ok (fields, msgs, md)
    \<and> messages_by_name dd = [d] \<and> gen_message_module dd d = Ok module \<and> sublist module msgs \<and> group_served dd [] party_ids module"
proof -
  obtain dd where dd: "dictionary_parse 2 small_document = Some (Ok dd)"
    "map md_field_order (messages_by_name dd) = [[453]]" "map md_groups (messages_by_name dd) = [[(453, party_ids)]]"
    by (rule exE [OF small_dictionary], elim conjE)
  then obtain d where d: "messages_by_name dd = [d]" "md_field_order d = [453]" "md_groups d = [(453, party_ids)]" by auto
  have "group_at dd d [] party_ids" by (rule group_at.top [of 453]) (simp_all add: d)
  with generated_groups_complete [OF dd(1)] dd(1) d(1) show ?thesis by simp blast
qed

definition two_fields :: data_dictionary where
  "two_fields =
     \<lparr>dd_begin_string = ''FIX.4.4'',
      dd_fields_by_tag =
        [(55, \<lparr>fd_tag = 55, fd_name = ''Symbol'', fd_type = FtString, fd_values = [], fd_enum_values = []\<rparr>),
         (54, \<lparr>fd_tag = 54, fd_name = ''Side'', fd_type = FtChar, fd_values = [''1''], fd_enum_values = [(''1'', ''BUY'')]\<rparr>)],
      dd_tags_by_name = [], dd_header_tags = [], dd_header_required = [], dd_trailer_tags = [], dd_trailer_required = [],
      dd_messages = []\<rparr>"

theorem generation_deterministic_witness:
  "dd_fields_by_tag two_fields \<noteq> rev (dd_fields_by_tag two_fields)
    \<and> generate two_fields = generate (two_fields\<lparr>dd_fields_by_tag := rev (dd_fields_by_tag two_fields)\<rparr>)"
proof -
  have "dd_fields_by_tag two_fields \<noteq> rev (dd_fields_by_tag two_fields)" by (simp add: two_fields_def)
  moreover have "generate two_fields = generate (two_fields\<lparr>dd_fields_by_tag := rev (dd_fields_by_tag two_fields)\<rparr>)"
    by (rule generation_deterministic) (auto simp: two_fields_def)
  ultimately show ?thesis by blast
qed

end
