(* ===== verification/File_Store.thy ===== *)
theory File_Store
  imports Message_Store
begin

text \<open>
  The file store of \<open>src/store.rs\<close>: four files per session (the message bodies, an index of them,
  the two sequence numbers, the creation time) with a cache in memory.

  The files are byte strings. Reading and writing them succeeds, except that a body file does not
  grow past the largest file offset: such a write is refused whole. \<open>fsync\<close> changes no content and
  is not modelled, nor is the \<open>sync\<close> flag that turns it on. \<open>to_rfc3339\<close> and the parser of
  \<open>DateTime<Utc>\<close> belong to chrono and are the parameter \<open>rfc3339\<close>.
\<close>

section \<open>Files\<close>

record disk =
  dk_body :: bytes
  dk_header :: bytes
  dk_seqnums :: bytes
  dk_session :: "bytes option"

definition empty_disk :: disk where
  "empty_disk = \<lparr>dk_body = [], dk_header = [], dk_seqnums = [], dk_session = None\<rparr>"

record rfc3339 =
  rfc_print :: "time \<Rightarrow> bytes"
  rfc_parse :: "bytes \<Rightarrow> time option"

text \<open>
  \<open>fs_trail\<close> is not part of the program: it records what the files hold after each write, so that
  the states a crash can leave are those the code goes through.
\<close>

record file_store =
  fs_cache :: memory_store
  fs_disk :: disk
  fs_body_len :: u64
  fs_offsets :: "(u64 \<times> u64) btree"
  fs_trail :: "disk list"

text \<open>One write to one file. Every write below goes through it.\<close>

definition on_disk :: "(disk \<Rightarrow> disk) \<Rightarrow> file_store \<Rightarrow> file_store" where
  "on_disk w fs = fs\<lparr>fs_disk := w (fs_disk fs), fs_trail := fs_trail fs @ [w (fs_disk fs)]\<rparr>"

lemma on_disk_simps [simp]:
  "fs_disk (on_disk w fs) = w (fs_disk fs)" "fs_trail (on_disk w fs) = fs_trail fs @ [w (fs_disk fs)]"
  "fs_cache (on_disk w fs) = fs_cache fs" "fs_body_len (on_disk w fs) = fs_body_len fs"
  "fs_offsets (on_disk w fs) = fs_offsets fs"
  by (simp_all add: on_disk_def)

text \<open>Writing at the start of a file keeps what lies beyond the written bytes.\<close>

definition write_at_start :: "bytes \<Rightarrow> bytes \<Rightarrow> bytes" where
  "write_at_start s f = s @ drop (length s) f"

definition corrupt :: "bytes \<Rightarrow> error" where
  "corrupt which = StoreError (''corrupt '' @ which @ '' file'')"

definition not_utf8 :: error where
  "not_utf8 = IoError ''stream did not contain valid UTF-8''"

section \<open>Loading\<close>

definition load_seqnums :: "file_store \<Rightarrow> (error, unit) res \<times> file_store" where
  "load_seqnums fs =
     (let s = dk_seqnums (fs_disk fs) in
      if \<not> utf8_ok s then (Err not_utf8, fs)
      else case split_once '' : '' (trim s) of
        None \<Rightarrow> (Ok (), fs)
      | Some (a, b) \<Rightarrow>
          (case parse_u64 (trim a) of
             None \<Rightarrow> (Err (corrupt ''seqnums''), fs)
           | Some sender \<Rightarrow>
               (case parse_u64 (trim b) of
                  None \<Rightarrow> (Err (corrupt ''seqnums''), fs)
                | Some target \<Rightarrow>
                    (Ok (), fs\<lparr>fs_cache := (fs_cache fs)\<lparr>ms_next_sender := sender, ms_next_target := target\<rparr>\<rparr>))))"

definition parse_header_line :: "bytes \<Rightarrow> (u64 \<times> u64 \<times> u64) option" where
  "parse_header_line line =
     (case splitn 3 (CHR '','') line of
        [seq, off, len] \<Rightarrow>
          (case parse_u64 seq of None \<Rightarrow> None | Some s \<Rightarrow>
             (case parse_u64 off of None \<Rightarrow> None | Some ofs \<Rightarrow>
                (case parse_u64 len of None \<Rightarrow> None | Some l \<Rightarrow> Some (s, ofs, l))))
      | _ \<Rightarrow> None)"

fun load_offsets :: "bytes list \<Rightarrow> (u64 \<times> u64) btree \<Rightarrow> (error, unit) res \<times> (u64 \<times> u64) btree" where
  "load_offsets [] offs = (Ok (), offs)"
| "load_offsets (line # lines) offs =
     (case parse_header_line line of
        None \<Rightarrow> (Err (corrupt ''header''), offs)
      | Some (seq, off, len) \<Rightarrow> load_offsets lines (bt_insert seq (off, len) offs))"

definition load_header :: "file_store \<Rightarrow> (error, unit) res \<times> file_store" where
  "load_header fs =
     (let h = dk_header (fs_disk fs) in
      if \<not> utf8_ok h then (Err not_utf8, fs)
      else case load_offsets (str_lines h) (fs_offsets fs) of (r, offs) \<Rightarrow> (r, fs\<lparr>fs_offsets := offs\<rparr>))"

definition write_session :: "rfc3339 \<Rightarrow> time \<Rightarrow> file_store \<Rightarrow> file_store" where
  "write_session rfc now fs =
     on_disk (\<lambda>d. d\<lparr>dk_session := Some (rfc_print rfc now)\<rparr>)
       (fs\<lparr>fs_cache := (fs_cache fs)\<lparr>ms_creation_time := now\<rparr>\<rparr>)"

definition load_session :: "rfc3339 \<Rightarrow> time \<Rightarrow> file_store \<Rightarrow> (error, unit) res \<times> file_store" where
  "load_session rfc now fs =
     (case dk_session (fs_disk fs) of
        Some ts \<Rightarrow>
          if utf8_ok ts then
            (case rfc_parse rfc (trim ts) of
               None \<Rightarrow> (Err (corrupt ''session''), fs)
             | Some t \<Rightarrow> (Ok (), fs\<lparr>fs_cache := (fs_cache fs)\<lparr>ms_creation_time := t\<rparr>\<rparr>))
          else (Ok (), write_session rfc now fs)
      | None \<Rightarrow>
          (Ok (), write_session rfc now fs))"

definition and_then :: "(error, unit) res \<times> 's \<Rightarrow> ('s \<Rightarrow> (error, unit) res \<times> 's) \<Rightarrow> (error, unit) res \<times> 's" where
  "and_then r k = (case r of (Ok _, s) \<Rightarrow> k s | (Err e, s) \<Rightarrow> (Err e, s) | (Panic, s) \<Rightarrow> (Panic, s))"

definition fs_load :: "rfc3339 \<Rightarrow> time \<Rightarrow> file_store \<Rightarrow> (error, unit) res \<times> file_store" where
  "fs_load rfc now fs =
     and_then (load_seqnums fs) (\<lambda>fs. and_then (load_header fs) (\<lambda>fs.
       load_session rfc now (fs\<lparr>fs_body_len := length (dk_body (fs_disk fs))\<rparr>)))"

definition file_store_open :: "rfc3339 \<Rightarrow> time \<Rightarrow> disk \<Rightarrow> (error, unit) res \<times> file_store" where
  "file_store_open rfc now dk =
     fs_load rfc now \<lparr>fs_cache = memory_store_new now, fs_disk = dk, fs_body_len = 0, fs_offsets = [], fs_trail = []\<rparr>"

section \<open>Operations\<close>

definition seqnums_line :: "u64 \<Rightarrow> u64 \<Rightarrow> bytes" where
  "seqnums_line sender target = pad_zero 20 (dec_nat sender) @ '' : '' @ pad_zero 20 (dec_nat target)"

definition write_seqnums :: "file_store \<Rightarrow> file_store" where
  "write_seqnums fs =
     on_disk (\<lambda>d. d\<lparr>dk_seqnums :=
       write_at_start (seqnums_line (ms_next_sender (fs_cache fs)) (ms_next_target (fs_cache fs))) (dk_seqnums d)\<rparr>) fs"

definition fs_incr_sender :: "file_store \<Rightarrow> (error, unit) res \<times> file_store" where
  "fs_incr_sender fs =
     (Ok (), write_seqnums (fs\<lparr>fs_cache := (fs_cache fs)\<lparr>ms_next_sender := u64_add (ms_next_sender (fs_cache fs)) 1\<rparr>\<rparr>))"

definition fs_incr_target :: "file_store \<Rightarrow> (error, unit) res \<times> file_store" where
  "fs_incr_target fs =
     (Ok (), write_seqnums (fs\<lparr>fs_cache := (fs_cache fs)\<lparr>ms_next_target := u64_add (ms_next_target (fs_cache fs)) 1\<rparr>\<rparr>))"

definition fs_set_sender :: "u64 \<Rightarrow> file_store \<Rightarrow> (error, unit) res \<times> file_store" where
  "fs_set_sender n fs = (Ok (), write_seqnums (fs\<lparr>fs_cache := (fs_cache fs)\<lparr>ms_next_sender := n\<rparr>\<rparr>))"

definition fs_set_target :: "u64 \<Rightarrow> file_store \<Rightarrow> (error, unit) res \<times> file_store" where
  "fs_set_target n fs = (Ok (), write_seqnums (fs\<lparr>fs_cache := (fs_cache fs)\<lparr>ms_next_target := n\<rparr>\<rparr>))"

definition header_line :: "u64 \<Rightarrow> u64 \<Rightarrow> u64 \<Rightarrow> bytes" where
  "header_line seq off len = dec_nat seq @ '','' @ dec_nat off @ '','' @ dec_nat len"

definition max_file :: nat where
  "max_file = 2 ^ 63 - 1"

definition append_body :: "bytes \<Rightarrow> file_store \<Rightarrow> file_store" where
  "append_body raw fs =
     (on_disk (\<lambda>d. d\<lparr>dk_body := dk_body d @ raw\<rparr>) fs)\<lparr>fs_body_len := u64_add (fs_body_len fs) (length raw)\<rparr>"

definition append_header :: "u64 \<Rightarrow> u64 \<Rightarrow> u64 \<Rightarrow> file_store \<Rightarrow> file_store" where
  "append_header seq off len fs =
     (on_disk (\<lambda>d. d\<lparr>dk_header := dk_header d @ header_line seq off len @ [CHR 0x0A]\<rparr>) fs)
       \<lparr>fs_offsets := bt_insert seq (off, len) (fs_offsets fs)\<rparr>"

definition fs_save :: "u64 \<Rightarrow> bytes \<Rightarrow> file_store \<Rightarrow> (error, unit) res \<times> file_store" where
  "fs_save seq_num raw fs =
     (let offset = fs_body_len fs in
      if max_file < length (dk_body (fs_disk fs)) + length raw
      then (Err (IoError ''File too large''), fs)
      else (Ok (), append_header seq_num offset (length raw) (append_body raw fs)))"

text \<open>\<open>seek\<close> and \<open>read_exact\<close>: an entry that reaches past the end of the body is an error.\<close>

fun read_ranges :: "bytes \<Rightarrow> (u64 \<times> u64) btree \<Rightarrow> (error, (u64 \<times> bytes) list) res" where
  "read_ranges body [] = Ok []"
| "read_ranges body ((seq, off, len) # rs) =
     (if length (take len (drop off body)) < len then Err (IoError ''failed to fill whole buffer'')
      else res_bind (read_ranges body rs) (\<lambda>out. Ok ((seq, take len (drop off body)) # out)))"

definition fs_get :: "u64 \<Rightarrow> u64 \<Rightarrow> file_store \<Rightarrow> (error, (u64 \<times> bytes) list) res \<times> file_store" where
  "fs_get b e fs =
     (res_bind (bt_range b e (fs_offsets fs)) (\<lambda>ranges. read_ranges (dk_body (fs_disk fs)) ranges), fs)"

definition fs_refresh :: "rfc3339 \<Rightarrow> time \<Rightarrow> file_store \<Rightarrow> (error, unit) res \<times> file_store" where
  "fs_refresh rfc now fs = fs_load rfc now (fs\<lparr>fs_offsets := [], fs_cache := memory_store_new now\<rparr>)"

text \<open>The writes of \<open>reset\<close>, in their order.\<close>

definition wipe_files :: "rfc3339 \<Rightarrow> file_store \<Rightarrow> file_store" where
  "wipe_files rfc fs =
     (let fs1 = on_disk (\<lambda>d. d\<lparr>dk_body := []\<rparr>) fs;
          fs2 = on_disk (\<lambda>d. d\<lparr>dk_header := []\<rparr>) fs1;
          fs3 = on_disk (\<lambda>d. d\<lparr>dk_seqnums := []\<rparr>) fs2;
          fs4 = on_disk (\<lambda>d. d\<lparr>dk_session := Some (rfc_print rfc (ms_creation_time (fs_cache fs)))\<rparr>) fs3
      in write_seqnums fs4)"

definition fs_reset :: "rfc3339 \<Rightarrow> time \<Rightarrow> file_store \<Rightarrow> (error, unit) res \<times> file_store" where
  "fs_reset rfc now fs =
     (case ms_reset now (fs_cache fs) of
        (Ok _, cache) \<Rightarrow> (Ok (), wipe_files rfc (fs\<lparr>fs_cache := cache, fs_offsets := [], fs_body_len := 0\<rparr>))
      | (Err e, cache) \<Rightarrow> (Err e, fs\<lparr>fs_cache := cache\<rparr>)
      | (Panic, cache) \<Rightarrow> (Panic, fs\<lparr>fs_cache := cache\<rparr>))"

definition file_ops :: "rfc3339 \<Rightarrow> file_store store_ops" where
  "file_ops rfc =
     \<lparr>so_next_sender = (\<lambda>fs. ms_next_sender (fs_cache fs)),
      so_next_target = (\<lambda>fs. ms_next_target (fs_cache fs)),
      so_incr_sender = fs_incr_sender,
      so_incr_target = fs_incr_target,
      so_set_sender = fs_set_sender,
      so_set_target = fs_set_target,
      so_creation_time = (\<lambda>fs. ms_creation_time (fs_cache fs)),
      so_save = fs_save,
      so_get = fs_get,
      so_refresh = fs_refresh rfc,
      so_reset = fs_reset rfc\<rparr>"

section \<open>Reading back what was written\<close>

lemma digit_not_ws: "is_digit c \<Longrightarrow> \<not> ws_ascii c"
  by (auto simp: ws_ascii_def is_digit_def byte_of_def)

lemma digit_byte: "is_digit c \<Longrightarrow> byte_of c < 128"
  by (auto simp: is_digit_def byte_of_def)

lemma ws_multi_ends: "w \<in> set ws_multi \<Longrightarrow> w \<noteq> [] \<and> 128 \<le> byte_of (hd w) \<and> 128 \<le> byte_of (last w)"
  by (auto simp: ws_multi_def byte_of_def)

lemma trim_digits:
  assumes "s \<noteq> []" and "is_digit (hd s)" and "is_digit (last s)"
  shows "trim s = s"
proof -
  have "List.find (\<lambda>w. take (length w) s = w) ws_multi = None"
  proof (unfold find_None_iff, rule notI, elim exE conjE)
    fix w assume w: "w \<in> set ws_multi" and t: "take (length w) s = w"
    from ws_multi_ends [OF w] have "hd w = hd s" using t by (metis hd_take length_greater_0_conv)
    with ws_multi_ends [OF w] digit_byte [OF assms(2)] show False by simp
  qed
  then have "ws_head s = 0" using assms digit_not_ws by (auto simp: ws_head_def split: list.splits)
  moreover have "List.find (\<lambda>w. length w \<le> length s \<and> drop (length s - length w) s = w) ws_multi = None"
  proof (unfold find_None_iff, rule notI, elim exE conjE)
    fix w assume w: "w \<in> set ws_multi" and t: "length w \<le> length s" "drop (length s - length w) s = w"
    from ws_multi_ends [OF w] t assms(1) have "last w = last s"
      by (metis last_drop diff_less length_greater_0_conv)
    with ws_multi_ends [OF w] digit_byte [OF assms(3)] show False by simp
  qed
  then have "ws_last s = 0" using assms digit_not_ws by (simp add: ws_last_def)
  ultimately show ?thesis by (simp add: trim_def trim_start.simps [of s] trim_end.simps [of s])
qed

lemma digit_string:
  assumes "list_all is_digit s" and "s \<noteq> []"
  shows "is_digit (hd s)" "is_digit (last s)" "trim s = s"
  using assms by (auto simp: list_all_iff trim_digits)

lemma split_once_hit:
  "CHR '' '' \<notin> set a \<Longrightarrow> split_once '' : '' (a @ '' : '' @ b) = Some (a, b)"
  by (induction a) auto

lemma pad_digits: "list_all is_digit (pad_zero 20 (dec_nat n)) \<and> pad_zero 20 (dec_nat n) \<noteq> []"
proof
  show "list_all is_digit (pad_zero 20 (dec_nat n))" by (rule list_all_pad_zero [OF list_all_dec_nat])
qed (simp add: pad_zero_def)

lemma ascii_sep [simp]:
  "byte_of (CHR '' '') < 128" "byte_of (CHR '':'') < 128" "byte_of (CHR '','') < 128" "byte_of (CHR 0x0A) < 128"
  by (simp_all add: byte_of_def)

lemma length_seqnums_line:
  "a < 2 ^ 64 \<Longrightarrow> b < 2 ^ 64 \<Longrightarrow> length (seqnums_line a b) = 43"
  using length_dec_nat_bound [of a 20] length_dec_nat_bound [of b 20]
  by (simp add: seqnums_line_def pad_zero_length)

lemma parse_u64_pad: "n < 2 ^ 64 \<Longrightarrow> parse_u64 (pad_zero 20 (dec_nat n)) = Some n"
  by (simp add: parse_u64_def)

lemma load_seqnums_line:
  assumes "dk_seqnums (fs_disk fs) = seqnums_line a b" and "a < 2 ^ 64" and "b < 2 ^ 64"
  shows "load_seqnums fs =
    (Ok (), fs\<lparr>fs_cache := (fs_cache fs)\<lparr>ms_next_sender := a, ms_next_target := b\<rparr>\<rparr>)"
proof -
  let ?a = "pad_zero 20 (dec_nat a)" and ?b = "pad_zero 20 (dec_nat b)"
  have da: "list_all is_digit ?a" "?a \<noteq> []" and db: "list_all is_digit ?b" "?b \<noteq> []"
    using pad_digits by blast+
  have u: "utf8_ok (seqnums_line a b)"
    using da db by (intro utf8_ok_ascii) (auto simp: seqnums_line_def list_all_iff digit_byte)
  have t: "trim (seqnums_line a b) = seqnums_line a b"
    using digit_string [OF da] digit_string [OF db] da db
    by (intro trim_digits) (auto simp: seqnums_line_def)
  have "CHR '' '' \<notin> set ?a" using da(1) by (auto simp: list_all_iff)
  then have s: "split_once '' : '' (seqnums_line a b) = Some (?a, ?b)"
    unfolding seqnums_line_def by (rule split_once_hit)
  show ?thesis using u t s digit_string(3) [OF da] digit_string(3) [OF db] assms
    by (simp add: load_seqnums_def parse_u64_pad)
qed

lemma parse_header_line_of:
  assumes "n < 2 ^ 64" and "off < 2 ^ 64" and "len < 2 ^ 64"
  shows "parse_header_line (header_line n off len) = Some (n, off, len)"
proof -
  have c: "CHR '','' \<notin> set (dec_nat k)" for k using dec_nat_digits [of "CHR '',''" k] by auto
  have p: "position (\<lambda>c. c = CHR '','') (dec_nat k @ CHR '','' # r) = Some (length (dec_nat k))" for k r
    using c by (intro position_append_hit) auto
  have "splitn 3 (CHR '','') (header_line n off len) = [dec_nat n, dec_nat off, dec_nat len]"
    by (simp add: header_line_def numeral_3_eq_3 p)
  with assms show ?thesis by (simp add: parse_header_line_def)
qed

type_synonym header_recs = "(u64 \<times> u64 \<times> u64) list"

definition header_of :: "header_recs \<Rightarrow> bytes" where
  "header_of recs = concat (map (\<lambda>l. l @ [CHR 0x0A]) (map (\<lambda>(n, off, len). header_line n off len) recs))"

definition offsets_of :: "header_recs \<Rightarrow> (u64 \<times> u64) btree" where
  "offsets_of recs = foldl (\<lambda>m (n, off, len). bt_insert n (off, len) m) [] recs"

lemma header_of_snoc: "header_of (recs @ [(n, off, len)]) = header_of recs @ header_line n off len @ [CHR 0x0A]"
  by (simp add: header_of_def)

lemma offsets_of_snoc: "offsets_of (recs @ [(n, off, len)]) = bt_insert n (off, len) (offsets_of recs)"
  by (simp add: offsets_of_def)

lemma load_offsets_of:
  "list_all (\<lambda>(n, off, len). n < 2 ^ 64 \<and> off < 2 ^ 64 \<and> len < 2 ^ 64) recs \<Longrightarrow>
   load_offsets (map (\<lambda>(n, off, len). header_line n off len) recs) m
     = (Ok (), foldl (\<lambda>m (n, off, len). bt_insert n (off, len) m) m recs)"
  by (induction recs arbitrary: m) (auto simp: parse_header_line_of)

lemma not_digit_eol [simp]: "\<not> is_digit (CHR 0x0A)" "\<not> is_digit (CHR 0x0D)"
  by (simp_all add: is_digit_def byte_of_def)

lemma header_line_eol: "CHR 0x0A \<notin> set (header_line n off len) \<and> CHR 0x0D \<notin> set (header_line n off len)"
  using dec_nat_digits by (force simp: header_line_def)

lemma header_line_chars: "c \<in> set (header_line n off len) \<Longrightarrow> is_digit c \<or> c = CHR '',''"
  by (auto simp: header_line_def dest: dec_nat_digits)

lemma load_header_of:
  assumes "dk_header (fs_disk fs) = header_of recs" and "fs_offsets fs = []"
    and "list_all (\<lambda>(n, off, len). n < 2 ^ 64 \<and> off < 2 ^ 64 \<and> len < 2 ^ 64) recs"
  shows "load_header fs = (Ok (), fs\<lparr>fs_offsets := offsets_of recs\<rparr>)"
proof -
  let ?ls = "map (\<lambda>(n, off, len). header_line n off len) recs"
  have "list_all (\<lambda>l. CHR 0x0A \<notin> set l \<and> (l \<noteq> [] \<longrightarrow> last l \<noteq> CHR 0x0D)) ?ls"
    unfolding list_all_iff using header_line_eol by (auto, metis last_in_set)
  then have l: "str_lines (header_of recs) = ?ls" unfolding header_of_def by (rule str_lines_concat)
  have "byte_of c < 128" if "c \<in> set (header_of recs)" for c
    using that by (auto simp: header_of_def split: if_splits dest!: header_line_chars digit_byte)
  then have "utf8_ok (header_of recs)" by (intro utf8_ok_ascii) auto
  with l show ?thesis using assms load_offsets_of [OF assms(3), of "[]"]
    by (simp add: load_header_def offsets_of_def)
qed

section \<open>The invariant\<close>

text \<open>
  The files hold exactly the state: the sequence numbers are the 43 bytes of the current pair (or
  nothing yet, with both at one), the index lists every saved message, and the entries lie
  inside the body.
\<close>

definition recs_ok :: "nat \<Rightarrow> header_recs \<Rightarrow> bool" where
  "recs_ok blen recs \<longleftrightarrow> list_all (\<lambda>(n, off, len). n < 2 ^ 64 \<and> off + len \<le> blen) recs"

definition fs_recs_ok :: "file_store \<Rightarrow> header_recs \<Rightarrow> bool" where
  "fs_recs_ok fs recs \<longleftrightarrow>
     dk_header (fs_disk fs) = header_of recs \<and> fs_offsets fs = offsets_of recs
     \<and> recs_ok (length (dk_body (fs_disk fs))) recs"

definition fs_ok :: "file_store \<Rightarrow> bool" where
  "fs_ok fs \<longleftrightarrow>
     ms_next_sender (fs_cache fs) < 2 ^ 64 \<and> ms_next_target (fs_cache fs) < 2 ^ 64
     \<and> fs_body_len fs = length (dk_body (fs_disk fs)) \<and> length (dk_body (fs_disk fs)) \<le> max_file
     \<and> (dk_seqnums (fs_disk fs) = seqnums_line (ms_next_sender (fs_cache fs)) (ms_next_target (fs_cache fs))
        \<or> (dk_seqnums (fs_disk fs) = [] \<and> ms_next_sender (fs_cache fs) = 1 \<and> ms_next_target (fs_cache fs) = 1))
     \<and> (\<exists>recs. fs_recs_ok fs recs)"

definition body_slice :: "bytes \<Rightarrow> u64 \<times> u64 \<Rightarrow> bytes" where
  "body_slice body r = (case r of (off, len) \<Rightarrow> take len (drop off body))"

text \<open>The abstraction: the unbounded in-memory store with the same numbers and messages.\<close>

definition fs_abs :: "file_store \<Rightarrow> memory_store" where
  "fs_abs fs =
     \<lparr>ms_next_sender = ms_next_sender (fs_cache fs), ms_next_target = ms_next_target (fs_cache fs),
      ms_creation_time = ms_creation_time (fs_cache fs),
      ms_messages = map (\<lambda>(k, r). (k, body_slice (dk_body (fs_disk fs)) r)) (fs_offsets fs),
      ms_capacity = None\<rparr>"

lemma bt_ok_offsets_of: "bt_ok (offsets_of recs)"
proof -
  have "bt_ok m \<Longrightarrow> bt_ok (foldl (\<lambda>m (n, off, len). bt_insert n (off, len) m) m recs)" for m
    by (induction recs arbitrary: m) auto
  then show ?thesis by (simp add: offsets_of_def bt_ok_def)
qed

lemma set_bt_insert: "set (bt_insert k v m) \<subseteq> insert (k, v) (set m)"
  by (induction k v m rule: bt_insert.induct) auto

lemma offsets_of_ranges:
  assumes "recs_ok blen recs" and "(k, off, len) \<in> set (offsets_of recs)"
  shows "off + len \<le> blen"
proof -
  have "set (offsets_of recs) \<subseteq> set recs"
    by (induction recs rule: rev_induct)
       (use set_bt_insert in \<open>fastforce simp: offsets_of_snoc offsets_of_def\<close>)+
  with assms show ?thesis by (auto simp: recs_ok_def list_all_iff)
qed

lemma recs_ok_mono: "recs_ok b recs \<Longrightarrow> b \<le> b' \<Longrightarrow> recs_ok b' recs"
  by (fastforce simp: recs_ok_def list_all_iff)

lemma write_seqnums_simps [simp]:
  "fs_cache (write_seqnums fs) = fs_cache fs" "fs_body_len (write_seqnums fs) = fs_body_len fs"
  "fs_offsets (write_seqnums fs) = fs_offsets fs"
  "dk_body (fs_disk (write_seqnums fs)) = dk_body (fs_disk fs)"
  "dk_header (fs_disk (write_seqnums fs)) = dk_header (fs_disk fs)"
  "dk_session (fs_disk (write_seqnums fs)) = dk_session (fs_disk fs)"
  by (simp_all add: write_seqnums_def)

text \<open>
  The in-place rewrite never leaves the tail of an older, longer line behind: every line is as
  long as any other.
\<close>

lemma write_seqnums_line:
  assumes "ms_next_sender (fs_cache fs) < 2 ^ 64" and "ms_next_target (fs_cache fs) < 2 ^ 64"
    and "dk_seqnums (fs_disk fs) = [] \<or> (\<exists>a b. a < 2 ^ 64 \<and> b < 2 ^ 64 \<and> dk_seqnums (fs_disk fs) = seqnums_line a b)"
  shows "dk_seqnums (fs_disk (write_seqnums fs))
    = seqnums_line (ms_next_sender (fs_cache fs)) (ms_next_target (fs_cache fs))"
  using assms length_seqnums_line by (auto simp: write_seqnums_def write_at_start_def)

lemma fs_ok_counters:
  assumes "fs_ok fs" and "ms_next_sender c < 2 ^ 64" and "ms_next_target c < 2 ^ 64"
  shows "fs_ok (write_seqnums (fs\<lparr>fs_cache := c\<rparr>))"
proof -
  have "dk_seqnums (fs_disk (write_seqnums (fs\<lparr>fs_cache := c\<rparr>)))
      = seqnums_line (ms_next_sender c) (ms_next_target c)"
    using assms write_seqnums_line [of "fs\<lparr>fs_cache := c\<rparr>"] by (auto simp: fs_ok_def)
  with assms show ?thesis by (auto simp: fs_ok_def fs_recs_ok_def)
qed

lemma fs_abs_counters:
  "fs_abs (write_seqnums (fs\<lparr>fs_cache := c\<rparr>)) =
     (fs_abs fs)\<lparr>ms_next_sender := ms_next_sender c, ms_next_target := ms_next_target c,
       ms_creation_time := ms_creation_time c\<rparr>"
  by (simp add: fs_abs_def)

lemma map_bt_insert:
  "\<forall>(k, r)\<in>set m. f r = g r \<Longrightarrow> f v = w \<Longrightarrow>
   map (\<lambda>(k, r). (k, f r)) (bt_insert n v m) = bt_insert n w (map (\<lambda>(k, r). (k, g r)) m)"
  by (induction n v m rule: bt_insert.induct) auto

lemma fs_save_ok:
  assumes "fs_ok fs" and "n < 2 ^ 64" and "fs_save n raw fs = (Ok (), fs')"
  shows "fs_ok fs'" and "fs_abs fs' = snd (ms_save n raw (fs_abs fs))"
proof -
  let ?body = "dk_body (fs_disk fs)"
  from assms(3) have room: "length ?body + length raw \<le> max_file"
    and fs': "fs' = append_header n (fs_body_len fs) (length raw) (append_body raw fs)"
    by (auto simp: fs_save_def Let_def split: if_splits)
  from assms(1) obtain recs where recs: "fs_recs_ok fs recs" and bl: "fs_body_len fs = length ?body"
    by (auto simp: fs_ok_def)
  have add: "u64_add (length ?body) (length raw) = length ?body + length raw"
    using room by (simp add: u64_add_def max_file_def)
  have recs': "fs_recs_ok fs' (recs @ [(n, length ?body, length raw)])"
    using recs recs_ok_mono [of "length ?body" recs "length ?body + length raw"] assms(2)
    by (simp add: fs' fs_recs_ok_def append_header_def append_body_def bl header_of_snoc offsets_of_snoc)
       (simp add: recs_ok_def)
  show "fs_ok fs'"
    using assms(1) recs' room
    by (auto simp: fs_ok_def fs' append_header_def append_body_def bl add)
  have old: "body_slice (?body @ raw) r = body_slice ?body r" if "(k, r) \<in> set (fs_offsets fs)" for k r
    using that recs offsets_of_ranges [of "length ?body" recs k "fst r" "snd r"]
    by (auto simp: body_slice_def fs_recs_ok_def split: prod.splits)
  have ins: "map (\<lambda>(k, r). (k, body_slice (?body @ raw) r)) (bt_insert n (length ?body, length raw) (fs_offsets fs))
      = bt_insert n raw (map (\<lambda>(k, r). (k, body_slice ?body r)) (fs_offsets fs))"
    by (rule map_bt_insert) (auto simp: old, simp add: body_slice_def)
  show "fs_abs fs' = snd (ms_save n raw (fs_abs fs))"
    using ins by (simp add: fs_abs_def fs' append_header_def append_body_def bl ms_save_def ms_trim_def)
qed

lemma read_ranges_ok:
  "\<forall>(k, off, len)\<in>set rs. off + len \<le> length body \<Longrightarrow>
   read_ranges body rs = Ok (map (\<lambda>(k, r). (k, body_slice body r)) rs)"
  by (induction body rs rule: read_ranges.induct) (auto simp: body_slice_def)

lemma fs_get_abs:
  assumes "fs_ok fs"
  shows "fs_get b e fs = (fst (ms_get b e (fs_abs fs)), fs)"
proof -
  let ?body = "dk_body (fs_disk fs)"
  let ?sel = "filter (\<lambda>(k, _). b \<le> k \<and> k \<le> e) (fs_offsets fs)"
  from assms obtain recs where "fs_recs_ok fs recs" by (auto simp: fs_ok_def)
  then have "\<forall>(k, off, len)\<in>set ?sel. off + len \<le> length ?body"
    using offsets_of_ranges by (fastforce simp: fs_recs_ok_def)
  then have "read_ranges ?body ?sel = Ok (map (\<lambda>(k, r). (k, body_slice ?body r)) ?sel)"
    by (rule read_ranges_ok)
  then show ?thesis
    by (simp add: fs_get_def ms_get_def bt_range_def fs_abs_def filter_map o_def split_def)
qed


lemma bt_ok_fs_abs: "fs_ok fs \<Longrightarrow> ms_ok (fs_abs fs)"
  using bt_ok_offsets_of
  by (auto simp: fs_ok_def fs_recs_ok_def ms_ok_def fs_abs_def bt_ok_def o_def split_def)

definition fs_msgs :: "file_store \<Rightarrow> u64 \<rightharpoonup> bytes" where
  "fs_msgs fs = map_of (ms_messages (fs_abs fs))"

lemma wipe_files_simps [simp]:
  "fs_cache (wipe_files rfc fs) = fs_cache fs" "fs_offsets (wipe_files rfc fs) = fs_offsets fs"
  "fs_body_len (wipe_files rfc fs) = fs_body_len fs" "dk_body (fs_disk (wipe_files rfc fs)) = []"
  "dk_header (fs_disk (wipe_files rfc fs)) = []"
  "dk_session (fs_disk (wipe_files rfc fs)) = Some (rfc_print rfc (ms_creation_time (fs_cache fs)))"
  "dk_seqnums (fs_disk (wipe_files rfc fs)) = seqnums_line (ms_next_sender (fs_cache fs)) (ms_next_target (fs_cache fs))"
  by (simp_all add: wipe_files_def Let_def) (simp add: write_seqnums_def write_at_start_def)

lemma fs_ok_empty:
  assumes "c = (fs_cache fs)\<lparr>ms_next_sender := 1, ms_next_target := 1, ms_creation_time := now, ms_messages := []\<rparr>"
  shows "fs_ok (wipe_files rfc (fs\<lparr>fs_cache := c, fs_offsets := [], fs_body_len := 0\<rparr>))"
  using assms
  by (auto simp: fs_ok_def fs_recs_ok_def header_of_def offsets_of_def recs_ok_def intro!: exI [of _ "[]"])

text \<open>Loading the files of a consistent store into a fresh cache gives the store back.\<close>

lemma fs_load_files:
  assumes "fs_ok fs" and "dk_seqnums (fs_disk fs0) = dk_seqnums (fs_disk fs)"
    and "dk_header (fs_disk fs0) = dk_header (fs_disk fs)" and "fs_offsets fs0 = []"
    and "fs_cache fs0 = memory_store_new now"
  shows "fs_load rfc now fs0 = load_session rfc now
    (fs0\<lparr>fs_cache := (memory_store_new now)\<lparr>ms_next_sender := ms_next_sender (fs_cache fs),
            ms_next_target := ms_next_target (fs_cache fs)\<rparr>,
         fs_offsets := fs_offsets fs, fs_body_len := length (dk_body (fs_disk fs0))\<rparr>)"
proof -
  let ?c = "(memory_store_new now)\<lparr>ms_next_sender := ms_next_sender (fs_cache fs),
            ms_next_target := ms_next_target (fs_cache fs)\<rparr>"
  have s: "load_seqnums fs0 = (Ok (), fs0\<lparr>fs_cache := ?c\<rparr>)"
  proof (cases "dk_seqnums (fs_disk fs) = []")
    case True
    have "seqnums_line a b \<noteq> []" "[] \<noteq> seqnums_line a b" for a b by (simp_all add: seqnums_line_def)
    with True assms show ?thesis
      by (auto simp: fs_ok_def load_seqnums_def memory_store_new_def trim_def trim_start.simps trim_end.simps)
  next
    case False
    with assms load_seqnums_line [of fs0] show ?thesis by (auto simp: fs_ok_def)
  qed
  from assms(1) obtain recs where r: "fs_recs_ok fs recs" and b: "length (dk_body (fs_disk fs)) \<le> max_file"
    by (auto simp: fs_ok_def)
  have "list_all (\<lambda>(n, off, len). n < 2 ^ 64 \<and> off < 2 ^ 64 \<and> len < 2 ^ 64) recs"
    using r b by (fastforce simp: fs_recs_ok_def recs_ok_def list_all_iff max_file_def)
  then have h: "load_header (fs0\<lparr>fs_cache := ?c\<rparr>) = (Ok (), fs0\<lparr>fs_cache := ?c, fs_offsets := fs_offsets fs\<rparr>)"
    using r assms load_header_of [of "fs0\<lparr>fs_cache := ?c\<rparr>" recs] by (simp add: fs_recs_ok_def)
  show ?thesis by (simp add: fs_load_def and_then_def s h)
qed

text \<open>What the store relies on from chrono: a printed time is text that parses back.\<close>

definition rfc3339_ok :: "rfc3339 \<Rightarrow> bool" where
  "rfc3339_ok rfc \<longleftrightarrow> (\<forall>t. utf8_ok (rfc_print rfc t) \<and> rfc_parse rfc (trim (rfc_print rfc t)) = Some t)"

definition fs_time_ok :: "rfc3339 \<Rightarrow> file_store \<Rightarrow> bool" where
  "fs_time_ok rfc fs \<longleftrightarrow> dk_session (fs_disk fs) = Some (rfc_print rfc (ms_creation_time (fs_cache fs)))"

lemma fs_time_counters [simp]:
  "fs_time_ok rfc (write_seqnums fs) = fs_time_ok rfc fs"
  by (simp add: fs_time_ok_def)

text \<open>So do \<open>open\<close> and \<open>refresh\<close>.\<close>

lemma load_files:
  assumes "fs_ok fs" and "fs_time_ok rfc fs" and "rfc3339_ok rfc"
    and "fs_disk fs0 = fs_disk fs" and "fs_offsets fs0 = []" and "fs_cache fs0 = memory_store_new now"
  shows "\<exists>fs'. fs_load rfc now fs0 = (Ok (), fs') \<and> fs_ok fs' \<and> fs_time_ok rfc fs' \<and> fs_abs fs' = fs_abs fs"
proof -
  let ?fs = "fs0\<lparr>fs_cache := (memory_store_new now)\<lparr>ms_next_sender := ms_next_sender (fs_cache fs),
      ms_next_target := ms_next_target (fs_cache fs), ms_creation_time := ms_creation_time (fs_cache fs)\<rparr>,
      fs_offsets := fs_offsets fs, fs_body_len := fs_body_len fs\<rparr>"
  have "fs_load rfc now fs0 = (Ok (), ?fs)"
    using assms fs_load_files [of fs fs0 now rfc]
    by (simp add: load_session_def fs_time_ok_def rfc3339_ok_def fs_ok_def)
  moreover have "fs_ok ?fs" using assms(1,4) by (auto simp: fs_ok_def fs_recs_ok_def)
  moreover have "fs_time_ok rfc ?fs" using assms(2,4) by (simp add: fs_time_ok_def)
  moreover have "fs_abs ?fs = fs_abs fs" using assms(4) by (simp add: fs_abs_def)
  ultimately show ?thesis by blast
qed

definition fs_good :: "rfc3339 \<Rightarrow> file_store \<Rightarrow> bool" where
  "fs_good rfc fs \<longleftrightarrow> fs_ok fs \<and> fs_time_ok rfc fs \<and> rfc3339_ok rfc"

lemma fs_refresh_good:
  assumes "fs_good rfc fs"
  shows "\<exists>fs'. fs_refresh rfc now fs = (Ok (), fs') \<and> fs_good rfc fs' \<and> fs_abs fs' = fs_abs fs"
  using load_files [of fs rfc "fs\<lparr>fs_offsets := [], fs_cache := memory_store_new now\<rparr>" now] assms
  by (auto simp: fs_good_def fs_refresh_def)

section \<open>Refinement\<close>

text \<open>
  One store refines another when every operation that succeeds on it succeeds on the abstract store
  too and keeps the abstraction. The refining store then meets the contract of the trait as well.
\<close>

locale store_refinement = abstract: message_store aops aok amsgs
  for aops :: "'a store_ops" and aok amsgs +
  fixes cops :: "'c store_ops" and cok :: "'c \<Rightarrow> bool" and abs :: "'c \<Rightarrow> 'a"
  assumes abs_ok: "cok c \<Longrightarrow> aok (abs c)"
  and abs_sender: "so_next_sender cops c = so_next_sender aops (abs c)"
  and abs_target: "so_next_target cops c = so_next_target aops (abs c)"
  and abs_time: "so_creation_time cops c = so_creation_time aops (abs c)"
  and sim_incr_sender: "cok c \<Longrightarrow> so_incr_sender cops c = (Ok (), c') \<Longrightarrow>
        cok c' \<and> so_incr_sender aops (abs c) = (Ok (), abs c')"
  and sim_incr_target: "cok c \<Longrightarrow> so_incr_target cops c = (Ok (), c') \<Longrightarrow>
        cok c' \<and> so_incr_target aops (abs c) = (Ok (), abs c')"
  and sim_set_sender: "cok c \<Longrightarrow> n < 2 ^ 64 \<Longrightarrow> so_set_sender cops n c = (Ok (), c') \<Longrightarrow>
        cok c' \<and> so_set_sender aops n (abs c) = (Ok (), abs c')"
  and sim_set_target: "cok c \<Longrightarrow> n < 2 ^ 64 \<Longrightarrow> so_set_target cops n c = (Ok (), c') \<Longrightarrow>
        cok c' \<and> so_set_target aops n (abs c) = (Ok (), abs c')"
  and sim_save: "cok c \<Longrightarrow> n < 2 ^ 64 \<Longrightarrow> so_save cops n raw c = (Ok (), c') \<Longrightarrow>
        cok c' \<and> so_save aops n raw (abs c) = (Ok (), abs c')"
  and sim_get: "cok c \<Longrightarrow> so_get cops b e c = (Ok xs, c') \<Longrightarrow>
        c' = c \<and> so_get aops b e (abs c) = (Ok xs, abs c)"
  and sim_get_panic: "b \<le> e \<Longrightarrow> fst (so_get cops b e c) \<noteq> Panic"
  and sim_reset: "cok c \<Longrightarrow> so_reset cops now c = (Ok (), c') \<Longrightarrow>
        cok c' \<and> so_reset aops now (abs c) = (Ok (), abs c')"
  and sim_refresh: "cok c \<Longrightarrow> so_refresh cops now c = (Ok (), c') \<Longrightarrow>
        cok c' \<and> so_refresh aops now (abs c) = (Ok (), abs c')"

sublocale store_refinement \<subseteq> concrete: message_store cops cok "\<lambda>c. amsgs (abs c)"
proof unfold_locales
  fix st st' assume ok: "cok st"
  note aok = abs_ok [OF ok]
  { assume "so_incr_sender cops st = (Ok (), st')"
    from sim_incr_sender [OF ok this]
    show "cok st' \<and> so_next_sender cops st' = u64_add (so_next_sender cops st) 1
       \<and> so_next_target cops st' = so_next_target cops st \<and> amsgs (abs st') = amsgs (abs st)
       \<and> so_creation_time cops st' = so_creation_time cops st"
      using abstract.incr_sender [OF aok] by (simp add: abs_sender abs_target abs_time) }
  { assume "so_incr_target cops st = (Ok (), st')"
    from sim_incr_target [OF ok this]
    show "cok st' \<and> so_next_target cops st' = u64_add (so_next_target cops st) 1
       \<and> so_next_sender cops st' = so_next_sender cops st \<and> amsgs (abs st') = amsgs (abs st)
       \<and> so_creation_time cops st' = so_creation_time cops st"
      using abstract.incr_target [OF aok] by (simp add: abs_sender abs_target abs_time) }
  { fix n :: u64 assume n: "n < 2 ^ 64" and "so_set_sender cops n st = (Ok (), st')"
    from sim_set_sender [OF ok this]
    show "cok st' \<and> so_next_sender cops st' = n
       \<and> so_next_target cops st' = so_next_target cops st \<and> amsgs (abs st') = amsgs (abs st)
       \<and> so_creation_time cops st' = so_creation_time cops st"
      using abstract.set_sender [OF aok n] by (simp add: abs_sender abs_target abs_time) }
  { fix n :: u64 assume n: "n < 2 ^ 64" and "so_set_target cops n st = (Ok (), st')"
    from sim_set_target [OF ok this]
    show "cok st' \<and> so_next_target cops st' = n
       \<and> so_next_sender cops st' = so_next_sender cops st \<and> amsgs (abs st') = amsgs (abs st)
       \<and> so_creation_time cops st' = so_creation_time cops st"
      using abstract.set_target [OF aok n] by (simp add: abs_sender abs_target abs_time) }
  { fix n :: u64 and raw assume n: "n < 2 ^ 64" and "so_save cops n raw st = (Ok (), st')"
    from sim_save [OF ok this]
    show "cok st' \<and> so_next_sender cops st' = so_next_sender cops st
       \<and> so_next_target cops st' = so_next_target cops st
       \<and> amsgs (abs st') \<subseteq>\<^sub>m (amsgs (abs st))(n \<mapsto> raw)
       \<and> so_creation_time cops st' = so_creation_time cops st"
      using abstract.save [OF aok n, of raw "abs st'"] by (simp add: abs_sender abs_target abs_time) }
  { fix b e :: u64 and xs assume be: "b \<le> e" and "so_get cops b e st = (Ok xs, st')"
    from sim_get [OF ok this(2)]
    show "cok st' \<and> so_next_sender cops st' = so_next_sender cops st
       \<and> so_next_target cops st' = so_next_target cops st \<and> amsgs (abs st') = amsgs (abs st)
       \<and> so_creation_time cops st' = so_creation_time cops st
       \<and> bt_ok xs \<and> (\<forall>k. map_of xs k = (if b \<le> k \<and> k \<le> e then amsgs (abs st) k else None))"
      using abstract.get_ok [OF aok be] ok by simp }
  { fix now assume "so_reset cops now st = (Ok (), st')"
    from sim_reset [OF ok this]
    show "cok st' \<and> so_next_sender cops st' = 1 \<and> so_next_target cops st' = 1
       \<and> amsgs (abs st') = Map.empty \<and> so_creation_time cops st' = now"
      using abstract.reset [OF aok, of now "abs st'"] by (simp add: abs_sender abs_target abs_time) }
  { fix now assume "so_refresh cops now st = (Ok (), st')"
    with sim_refresh [OF ok] show "cok st'" by blast }
  show "so_next_sender cops st < 2 ^ 64" "so_next_target cops st < 2 ^ 64"
    using abstract.u64_sender [OF aok] abstract.u64_target [OF aok] by (simp_all add: abs_sender abs_target)
qed (rule sim_get_panic)

lemma read_ranges_no_panic: "read_ranges body rs \<noteq> Panic"
proof (induction body rs rule: read_ranges.induct)
  case (2 body seq off len rs)
  then show ?case by (cases "read_ranges body rs") auto
qed simp

lemma fs_counter_sim:
  assumes "fs_ok fs"
  shows "fs_ok (snd (fs_incr_sender fs))
     \<and> so_incr_sender memory_ops (fs_abs fs) = (Ok (), fs_abs (snd (fs_incr_sender fs)))"
   and "fs_ok (snd (fs_incr_target fs))
     \<and> so_incr_target memory_ops (fs_abs fs) = (Ok (), fs_abs (snd (fs_incr_target fs)))"
   and "n < 2 ^ 64 \<Longrightarrow> fs_ok (snd (fs_set_sender n fs))
     \<and> so_set_sender memory_ops n (fs_abs fs) = (Ok (), fs_abs (snd (fs_set_sender n fs)))"
   and "n < 2 ^ 64 \<Longrightarrow> fs_ok (snd (fs_set_target n fs))
     \<and> so_set_target memory_ops n (fs_abs fs) = (Ok (), fs_abs (snd (fs_set_target n fs)))"
proof -
  have lt: "ms_next_sender (fs_cache fs) < 2 ^ 64" "ms_next_target (fs_cache fs) < 2 ^ 64"
    using assms by (simp_all add: fs_ok_def)
  note ok = fs_ok_counters [OF assms]
  note defs = memory_ops_def fs_abs_counters fs_incr_sender_def fs_incr_target_def fs_set_sender_def fs_set_target_def
  show "fs_ok (snd (fs_incr_sender fs))
     \<and> so_incr_sender memory_ops (fs_abs fs) = (Ok (), fs_abs (snd (fs_incr_sender fs)))"
    using lt by (simp add: defs ok) (simp add: fs_abs_def)
  show "fs_ok (snd (fs_incr_target fs))
     \<and> so_incr_target memory_ops (fs_abs fs) = (Ok (), fs_abs (snd (fs_incr_target fs)))"
    using lt by (simp add: defs ok) (simp add: fs_abs_def)
  show "fs_ok (snd (fs_set_sender n fs))
     \<and> so_set_sender memory_ops n (fs_abs fs) = (Ok (), fs_abs (snd (fs_set_sender n fs)))" if "n < 2 ^ 64"
    using lt that by (simp add: defs ok) (simp add: fs_abs_def)
  show "fs_ok (snd (fs_set_target n fs))
     \<and> so_set_target memory_ops n (fs_abs fs) = (Ok (), fs_abs (snd (fs_set_target n fs)))" if "n < 2 ^ 64"
    using lt that by (simp add: defs ok) (simp add: fs_abs_def)
qed

lemma fs_reset_sim:
  "fs_ok (snd (fs_reset rfc now fs)) \<and> so_reset memory_ops now (fs_abs fs) = (Ok (), fs_abs (snd (fs_reset rfc now fs)))"
  using fs_ok_empty [where fs = fs and now = now]
  by (simp add: fs_reset_def ms_reset_def memory_ops_def) (simp add: fs_abs_def)

lemma fs_time_ops:
  assumes "fs_time_ok rfc fs"
  shows "fs_time_ok rfc (snd (fs_incr_sender fs))" "fs_time_ok rfc (snd (fs_incr_target fs))"
    "fs_time_ok rfc (snd (fs_set_sender n fs))" "fs_time_ok rfc (snd (fs_set_target n fs))"
    "fs_time_ok rfc (snd (fs_save n raw fs))"
  using assms
  by (simp_all add: fs_time_ok_def fs_incr_sender_def fs_incr_target_def fs_set_sender_def fs_set_target_def
      fs_save_def append_header_def append_body_def Let_def)

lemma fs_time_reset: "fs_time_ok rfc (snd (fs_reset rfc now fs))"
  by (simp add: fs_time_ok_def fs_reset_def ms_reset_def)

interpretation file_store: store_refinement memory_ops ms_ok "\<lambda>st. map_of (ms_messages st)"
  "file_ops rfc" "fs_good rfc" fs_abs for rfc
proof unfold_locales
  fix c c' :: file_store
  show "so_next_sender (file_ops rfc) c = so_next_sender memory_ops (fs_abs c)"
    "so_next_target (file_ops rfc) c = so_next_target memory_ops (fs_abs c)"
    "so_creation_time (file_ops rfc) c = so_creation_time memory_ops (fs_abs c)"
    by (simp_all add: file_ops_def memory_ops_def fs_abs_def)
  { fix b e :: u64 assume "b \<le> e"
    then show "fst (so_get (file_ops rfc) b e c) \<noteq> Panic"
      by (simp add: file_ops_def fs_get_def bt_range_def read_ranges_no_panic) }
  assume "fs_good rfc c"
  then have ok: "fs_ok c" and t: "fs_time_ok rfc c" and g: "fs_good rfc x \<longleftrightarrow> fs_ok x \<and> fs_time_ok rfc x" for x
    by (auto simp: fs_good_def)
  show "ms_ok (fs_abs c)" using ok by (rule bt_ok_fs_abs)
  { assume "so_incr_sender (file_ops rfc) c = (Ok (), c')"
    with fs_counter_sim(1) [OF ok] fs_time_ops(1) [OF t]
    show "fs_good rfc c' \<and> so_incr_sender memory_ops (fs_abs c) = (Ok (), fs_abs c')" by (simp add: file_ops_def g) }
  { assume "so_incr_target (file_ops rfc) c = (Ok (), c')"
    with fs_counter_sim(2) [OF ok] fs_time_ops(2) [OF t]
    show "fs_good rfc c' \<and> so_incr_target memory_ops (fs_abs c) = (Ok (), fs_abs c')" by (simp add: file_ops_def g) }
  { fix n :: u64 assume "n < 2 ^ 64" and "so_set_sender (file_ops rfc) n c = (Ok (), c')"
    with fs_counter_sim(3) [OF ok, of n] fs_time_ops(3) [OF t, of n]
    show "fs_good rfc c' \<and> so_set_sender memory_ops n (fs_abs c) = (Ok (), fs_abs c')" by (simp add: file_ops_def g) }
  { fix n :: u64 assume "n < 2 ^ 64" and "so_set_target (file_ops rfc) n c = (Ok (), c')"
    with fs_counter_sim(4) [OF ok, of n] fs_time_ops(4) [OF t, of n]
    show "fs_good rfc c' \<and> so_set_target memory_ops n (fs_abs c) = (Ok (), fs_abs c')" by (simp add: file_ops_def g) }
  { fix n :: u64 and raw assume "n < 2 ^ 64" and "so_save (file_ops rfc) n raw c = (Ok (), c')"
    with fs_save_ok [OF ok] fs_time_ops(5) [OF t, of n raw]
    show "fs_good rfc c' \<and> so_save memory_ops n raw (fs_abs c) = (Ok (), fs_abs c')"
      by (simp add: file_ops_def memory_ops_def g) (simp add: ms_save_def) }
  { fix b e :: u64 and xs assume "so_get (file_ops rfc) b e c = (Ok xs, c')"
    with fs_get_abs [OF ok] show "c' = c \<and> so_get memory_ops b e (fs_abs c) = (Ok xs, fs_abs c)"
      by (auto simp: file_ops_def memory_ops_def) (simp add: ms_get_def) }
  { fix now assume "so_reset (file_ops rfc) now c = (Ok (), c')"
    with fs_reset_sim [of rfc now c] fs_time_reset [of rfc now c]
    show "fs_good rfc c' \<and> so_reset memory_ops now (fs_abs c) = (Ok (), fs_abs c')" by (simp add: file_ops_def g) }
  { fix now assume "so_refresh (file_ops rfc) now c = (Ok (), c')"
    with fs_refresh_good [OF \<open>fs_good rfc c\<close>, of now]
    show "fs_good rfc c' \<and> so_refresh memory_ops now (fs_abs c) = (Ok (), fs_abs c')"
      by (auto simp: file_ops_def memory_ops_def) }
qed

section \<open>Sequences of operations, reopening and crashes\<close>

datatype store_op =
    OpIncrSender
  | OpIncrTarget
  | OpSetSender u64
  | OpSetTarget u64
  | OpSave u64 bytes
  | OpSaveIncr u64 bytes
  | OpGet u64 u64
  | OpRefresh time
  | OpReset time

fun run_op :: "'st store_ops \<Rightarrow> store_op \<Rightarrow> 'st \<Rightarrow> (error, unit) res \<times> 'st" where
  "run_op ops OpIncrSender st = so_incr_sender ops st"
| "run_op ops OpIncrTarget st = so_incr_target ops st"
| "run_op ops (OpSetSender n) st = so_set_sender ops n st"
| "run_op ops (OpSetTarget n) st = so_set_target ops n st"
| "run_op ops (OpSave n raw) st = so_save ops n raw st"
| "run_op ops (OpSaveIncr n raw) st = save_message_and_incr ops n raw st"
| "run_op ops (OpGet b e) st = (case so_get ops b e st of (r, st') \<Rightarrow> (res_bind r (\<lambda>_. Ok ()), st'))"
| "run_op ops (OpRefresh now) st = so_refresh ops now st"
| "run_op ops (OpReset now) st = so_reset ops now st"

fun run_ops :: "'st store_ops \<Rightarrow> store_op list \<Rightarrow> 'st \<Rightarrow> (error, unit) res \<times> 'st" where
  "run_ops ops [] st = (Ok (), st)"
| "run_ops ops (x # xs) st = and_then (run_op ops x st) (run_ops ops xs)"

fun op_u64 :: "store_op \<Rightarrow> bool" where
  "op_u64 (OpSetSender n) \<longleftrightarrow> n < 2 ^ 64"
| "op_u64 (OpSetTarget n) \<longleftrightarrow> n < 2 ^ 64"
| "op_u64 (OpSave n raw) \<longleftrightarrow> n < 2 ^ 64"
| "op_u64 (OpSaveIncr n raw) \<longleftrightarrow> n < 2 ^ 64"
| "op_u64 _ \<longleftrightarrow> True"

context store_refinement
begin

lemma run_op_refines:
  assumes "cok c" and "op_u64 x" and "run_op cops x c = (Ok (), c')"
  shows "cok c' \<and> run_op aops x (abs c) = (Ok (), abs c')"
proof (cases x)
  case OpIncrSender
  with assms(3) sim_incr_sender [OF assms(1)] show ?thesis by simp
next
  case OpIncrTarget
  with assms(3) sim_incr_target [OF assms(1)] show ?thesis by simp
next
  case (OpSetSender n)
  with assms(2,3) sim_set_sender [OF assms(1), of n c'] show ?thesis by simp
next
  case (OpSetTarget n)
  with assms(2,3) sim_set_target [OF assms(1), of n c'] show ?thesis by simp
next
  case (OpSave n raw)
  with assms(2,3) sim_save [OF assms(1), of n raw c'] show ?thesis by simp
next
  case (OpSaveIncr n raw)
  with assms(3) obtain c1 where c1: "so_save cops n raw c = (Ok (), c1)" "so_incr_sender cops c1 = (Ok (), c')"
    by (auto simp: save_message_and_incr_def split: prod.splits res.splits)
  with sim_save [OF assms(1) _ c1(1)] assms(2) OpSaveIncr sim_incr_sender [of c1 c']
  show ?thesis by (simp add: save_message_and_incr_def)
next
  case (OpGet b e)
  with assms(3) obtain xs where "so_get cops b e c = (Ok xs, c')" by (auto simp: res_bind_Ok_iff split: prod.splits)
  with sim_get [OF assms(1) this] assms(1) OpGet show ?thesis by simp
next
  case (OpRefresh now)
  with assms(3) sim_refresh [OF assms(1)] show ?thesis by simp
next
  case (OpReset now)
  with assms(3) sim_reset [OF assms(1)] show ?thesis by simp
qed

lemma run_ops_refines:
  "cok c \<Longrightarrow> list_all op_u64 xs \<Longrightarrow> run_ops cops xs c = (Ok (), c') \<Longrightarrow>
   cok c' \<and> run_ops aops xs (abs c) = (Ok (), abs c')"
proof (induction xs arbitrary: c)
  case (Cons x xs)
  then obtain c1 where "run_op cops x c = (Ok (), c1)" "run_ops cops xs c1 = (Ok (), c')"
    by (auto simp: and_then_def split: prod.splits res.splits)
  with Cons.prems run_op_refines [of c x c1] Cons.IH [of c1] show ?case by (simp add: and_then_def)
qed simp

end

text \<open>
  C17. The file store implements the in-memory store: any sequence of operations of the trait (counters,
  saves, reads, refreshes, resets) that succeeds on the files succeeds on the unbounded in-memory store
  with the same numbers, creation time and messages, and leaves the files answering every resend request
  exactly as the in-memory store does. In particular a refresh, which drops the cache and reads the files
  again, changes nothing.
\<close>

theorem file_store_refines_memory:
  assumes "fs_good rfc fs" and "list_all op_u64 xs" and "run_ops (file_ops rfc) xs fs = (Ok (), fs')"
  shows "run_ops memory_ops xs (fs_abs fs) = (Ok (), fs_abs fs')
    \<and> fst (so_get (file_ops rfc) b e fs') = fst (so_get memory_ops b e (fs_abs fs'))"
  using file_store.run_ops_refines [OF assms] fs_get_abs [of fs' b e]
  by (simp add: file_ops_def [of rfc] memory_ops_def fs_good_def)

lemma open_files:
  assumes "fs_good rfc fs"
  shows "\<exists>fs'. file_store_open rfc now (fs_disk fs) = (Ok (), fs') \<and> fs_good rfc fs' \<and> fs_abs fs' = fs_abs fs"
  using load_files [of fs rfc "\<lparr>fs_cache = memory_store_new now, fs_disk = fs_disk fs, fs_body_len = 0, fs_offsets = [], fs_trail = []\<rparr>" now]
    assms
  by (auto simp: fs_good_def file_store_open_def)

lemma open_empty:
  "rfc3339_ok rfc \<Longrightarrow> file_store_open rfc now empty_disk = (Ok (), fs) \<Longrightarrow> fs_good rfc fs \<and> fs_abs fs = memory_store_new now"
  by (auto simp: file_store_open_def fs_load_def load_seqnums_def empty_disk_def and_then_def load_header_def
      load_session_def write_session_def trim_def trim_start.simps trim_end.simps str_lines.simps fs_ok_def fs_recs_ok_def
      memory_store_new_def fs_time_ok_def fs_abs_def max_file_def recs_ok_def header_of_def offsets_of_def fs_good_def
      intro!: exI [of _ "[]"])

text \<open>
  C20. The store is durable: after any sequence of operations on a store created in an empty
  directory, opening the files again, at any later time, succeeds and gives back the same
  sequence numbers, the same creation time and the same messages.
\<close>

theorem file_store_reopen:
  assumes "rfc3339_ok rfc" and "file_store_open rfc now0 empty_disk = (Ok (), fs0)"
    and "list_all op_u64 xs" and "run_ops (file_ops rfc) xs fs0 = (Ok (), fs)"
  shows "\<exists>fs'. file_store_open rfc now (fs_disk fs) = (Ok (), fs') \<and> fs_abs fs' = fs_abs fs
    \<and> run_ops memory_ops xs (memory_store_new now0) = (Ok (), fs_abs fs')"
proof -
  from open_empty [OF assms(1,2)] have ok0: "fs_good rfc fs0" "fs_abs fs0 = memory_store_new now0" by auto
  from file_store.run_ops_refines [OF ok0(1) assms(3,4)] ok0(2)
  have ok: "fs_good rfc fs" and r: "run_ops memory_ops xs (memory_store_new now0) = (Ok (), fs_abs fs)" by auto
  from open_files [OF ok, of now] r show ?thesis by auto
qed

section \<open>Crashes\<close>

text \<open>
  What the files can hold when the process dies during an operation that leads from \<open>fs\<close> to \<open>fs'\<close>: what they
  held before, or after one of its writes.
\<close>

definition crash_states :: "file_store \<Rightarrow> file_store \<Rightarrow> disk list" where
  "crash_states fs fs' = fs_disk fs # drop (length (fs_trail fs)) (fs_trail fs')"

lemma append_body_ok:
  assumes "fs_ok fs" and "length (dk_body (fs_disk fs)) + length raw \<le> max_file"
  shows "fs_ok (append_body raw fs)" and "fs_abs (append_body raw fs) = fs_abs fs"
proof -
  let ?body = "dk_body (fs_disk fs)"
  from assms(1) obtain recs where recs: "fs_recs_ok fs recs" and bl: "fs_body_len fs = length ?body"
    by (auto simp: fs_ok_def)
  have "u64_add (length ?body) (length raw) = length ?body + length raw"
    using assms(2) by (simp add: u64_add_def max_file_def)
  moreover have "fs_recs_ok (append_body raw fs) recs"
    using recs recs_ok_mono [of "length ?body" recs "length ?body + length raw"]
    by (simp add: fs_recs_ok_def append_body_def)
  ultimately show "fs_ok (append_body raw fs)"
    using assms by (auto simp: fs_ok_def append_body_def bl)
  have "body_slice (?body @ raw) r = body_slice ?body r" if "(k, r) \<in> set (fs_offsets fs)" for k r
    using that recs offsets_of_ranges [of "length ?body" recs k "fst r" "snd r"]
    by (auto simp: body_slice_def fs_recs_ok_def split: prod.splits)
  then show "fs_abs (append_body raw fs) = fs_abs fs"
    by (auto simp: fs_abs_def append_body_def)
qed

lemma fs_abs_save_msgs:
  assumes "fs_ok fs" and "n < 2 ^ 64" and "fs_save n raw fs = (Ok (), fs')"
  shows "fs_msgs fs' = (fs_msgs fs)(n \<mapsto> raw)" and "ms_next_sender (fs_abs fs') = ms_next_sender (fs_abs fs)"
proof -
  have "bt_ok (ms_messages (fs_abs fs))" using bt_ok_fs_abs [OF assms(1)] by (simp add: ms_ok_def)
  then show "fs_msgs fs' = (fs_msgs fs)(n \<mapsto> raw)"
    using fs_save_ok(2) [OF assms]
    by (simp add: fs_msgs_def ms_save_def ms_trim_def map_of_bt_insert fs_abs_def [of fs])
  show "ms_next_sender (fs_abs fs') = ms_next_sender (fs_abs fs)"
    using fs_save_ok(2) [OF assms] by (simp add: ms_save_def)
qed

text \<open>The states that \<open>save_message_and_incr\<close> goes through, read off its writes.\<close>

lemma save_and_incr_trail:
  assumes "save_message_and_incr (file_ops rfc) n raw fs = (r, fs')"
  obtains "crash_states fs fs' = [fs_disk fs]"
  | fs2 where "fs_save n raw fs = (Ok (), fs2)"
    and "crash_states fs fs' = map fs_disk [fs, append_body raw fs, fs2, snd (fs_incr_sender fs2)]"
proof (cases "fs_save n raw fs")
  case (Pair q fs2)
  show ?thesis
  proof (cases q)
    case (Ok u)
    moreover have "fs' = snd (fs_incr_sender fs2)"
      using assms Pair Ok by (auto simp: save_message_and_incr_def file_ops_def)
    ultimately show ?thesis
      using Pair by (intro that(2) [of fs2])
        (auto simp: crash_states_def fs_save_def Let_def fs_incr_sender_def write_seqnums_def append_header_def
          append_body_def split: if_splits)
  qed (use assms Pair in \<open>auto simp: save_message_and_incr_def file_ops_def fs_save_def Let_def crash_states_def
        intro!: that(1) split: if_splits\<close>)
qed

text \<open>Each of them is the disk of a good store, with all messages but perhaps the new one.\<close>

lemma crashed_store:
  assumes "fs_good rfc fs" and "n < 2 ^ 64"
    and "save_message_and_incr (file_ops rfc) n raw fs = (res, fs')" and "d \<in> set (crash_states fs fs')"
  obtains c where "d = fs_disk c" and "fs_good rfc c"
    and "\<forall>k. fs_msgs c k = fs_msgs fs k \<or> (k = n \<and> fs_msgs c k = Some raw)"
    and "ms_next_sender (fs_abs c) = ms_next_sender (fs_abs fs)
       \<or> (ms_next_sender (fs_abs c) = u64_add (ms_next_sender (fs_abs fs)) 1 \<and> fs_msgs c n = Some raw)"
proof -
  have ok: "fs_ok fs" using assms(1) by (simp add: fs_good_def)
  show ?thesis
    using assms(3)
  proof (cases rule: save_and_incr_trail)
    case 1
    with assms(1,4) show ?thesis by (intro that [of fs]) auto
  next
    case (2 fs2)
    from 2(1) have room: "length (dk_body (fs_disk fs)) + length raw \<le> max_file"
      by (auto simp: fs_save_def Let_def split: if_splits)
    note b = append_body_ok [OF ok room] and s = fs_save_ok(1) [OF ok assms(2) 2(1)]
    note m = fs_abs_save_msgs [OF ok assms(2) 2(1)] and i = fs_counter_sim(1) [OF s]
    have t: "fs_time_ok rfc (append_body raw fs)" "fs_time_ok rfc fs2" "fs_time_ok rfc (snd (fs_incr_sender fs2))"
      using assms(1) fs_time_ops(5) [of rfc fs n raw] fs_time_ops(1) [of rfc fs2] 2(1)
      by (auto simp: fs_good_def fs_time_ok_def append_body_def)
    have i': "fs_msgs (snd (fs_incr_sender fs2)) = fs_msgs fs2"
      "ms_next_sender (fs_abs (snd (fs_incr_sender fs2))) = u64_add (ms_next_sender (fs_abs fs2)) 1"
      by (simp_all add: fs_msgs_def fs_incr_sender_def fs_abs_def)
    consider "d = fs_disk fs" | "d = fs_disk (append_body raw fs)" | "d = fs_disk fs2" | "d = fs_disk (snd (fs_incr_sender fs2))"
      using assms(4) 2(2) by auto
    then show ?thesis
    proof cases
      case 1
      with assms(1) show ?thesis by (intro that [of fs]) auto
    next
      case 2
      with assms(1) b t show ?thesis by (intro that [of "append_body raw fs"]) (auto simp: fs_good_def fs_msgs_def)
    next
      case 3
      with assms(1) s m t show ?thesis by (intro that [of fs2]) (auto simp: fs_good_def)
    next
      case 4
      with assms(1) i i' m t show ?thesis by (intro that [of "snd (fs_incr_sender fs2)"]) (auto simp: fs_good_def)
    qed
  qed
qed

text \<open>
  C18. A crash of \<open>save_message_and_incr\<close> before, between or after its writes to the files, in the order in
  which the code performs them, loses nothing: the files open again, every resend request can be answered,
  every other message is still there, and the sender number has advanced only if the message it was used
  for is in the store.
\<close>

theorem save_and_incr_crash_safe:
  assumes "fs_good rfc fs" and "n < 2 ^ 64"
    and "save_message_and_incr (file_ops rfc) n raw fs = (res, fs')" and "d \<in> set (crash_states fs fs')"
  shows "\<exists>r. file_store_open rfc now d = (Ok (), r)
    \<and> (\<forall>b e. b \<le> e \<longrightarrow> (\<exists>xs. fst (so_get (file_ops rfc) b e r) = Ok xs))
    \<and> (\<forall>k. fs_msgs r k = fs_msgs fs k \<or> (k = n \<and> fs_msgs r k = Some raw))
    \<and> (ms_next_sender (fs_abs r) = ms_next_sender (fs_abs fs)
       \<or> (ms_next_sender (fs_abs r) = u64_add (ms_next_sender (fs_abs fs)) 1 \<and> fs_msgs r n = Some raw))"
proof -
  obtain c where c: "d = fs_disk c" "fs_good rfc c"
    "\<forall>k. fs_msgs c k = fs_msgs fs k \<or> (k = n \<and> fs_msgs c k = Some raw)"
    "ms_next_sender (fs_abs c) = ms_next_sender (fs_abs fs)
       \<or> (ms_next_sender (fs_abs c) = u64_add (ms_next_sender (fs_abs fs)) 1 \<and> fs_msgs c n = Some raw)"
    using crashed_store [OF assms] by metis
  from open_files [OF c(2), of now] obtain r where r: "file_store_open rfc now (fs_disk c) = (Ok (), r)" "fs_good rfc r"
    "fs_abs r = fs_abs c" by blast
  then have "fst (so_get (file_ops rfc) b e r) = bt_range b e (ms_messages (fs_abs r))" for b e
    using fs_get_abs [of r b e] by (simp add: file_ops_def fs_good_def ms_get_def)
  then have "\<exists>xs. fst (so_get (file_ops rfc) b e r) = Ok xs" if "b \<le> e" for b e
    using that by (simp add: bt_range_def)
  moreover have "fs_msgs r = fs_msgs c" by (simp add: fs_msgs_def r)
  ultimately show ?thesis using c r by metis
qed

lemma bt_single:
  assumes "bt_ok m" and "map_of m n = Some v"
  shows "filter (\<lambda>(k, _). n \<le> k \<and> k \<le> n) m = [(n, v)]"
  using assms
proof (induction m)
  case (Cons kv m)
  then have "\<forall>k' \<in> fst ` set m. fst kv < k'" and "bt_ok m" by (auto simp: bt_ok_def)
  then show ?case
    using Cons by (cases "fst kv = n") (auto simp: filter_empty_conv dest: map_of_SomeD)
qed simp

text \<open>
  C19. A reset, in contrast, is not safe against a crash. When the process dies after the body file was
  emptied and before the index was, the store opens again without an error, with the old sequence
  numbers, and from then on every resend request for a message that had been stored fails.
\<close>

theorem reset_crash_unreadable:
  assumes "fs_good rfc fs" and "fs_msgs fs n = Some raw" and "raw \<noteq> []" and "fs_reset rfc t fs = (Ok (), fs')"
  shows "\<exists>d \<in> set (crash_states fs fs'). \<exists>r. file_store_open rfc now d = (Ok (), r)
    \<and> ms_next_sender (fs_abs r) = ms_next_sender (fs_abs fs)
    \<and> fst (so_get (file_ops rfc) n n r) = Err (IoError ''failed to fill whole buffer'')"
proof
  let ?d = "(fs_disk fs)\<lparr>dk_body := []\<rparr>"
  show "?d \<in> set (crash_states fs fs')"
    using assms(4) by (auto simp: crash_states_def fs_reset_def ms_reset_def wipe_files_def Let_def write_seqnums_def)
  let ?fs0 = "\<lparr>fs_cache = memory_store_new now, fs_disk = ?d, fs_body_len = 0, fs_offsets = [], fs_trail = []\<rparr>"
  have ok: "fs_ok fs" and t: "fs_time_ok rfc fs" "rfc3339_ok rfc" using assms(1) by (simp_all add: fs_good_def)
  have "\<exists>r. file_store_open rfc now ?d = (Ok (), r) \<and> fs_offsets r = fs_offsets fs \<and> dk_body (fs_disk r) = []
      \<and> ms_next_sender (fs_cache r) = ms_next_sender (fs_cache fs)"
    using fs_load_files [OF ok, of ?fs0 now rfc] t
    by (simp add: file_store_open_def load_session_def fs_time_ok_def rfc3339_ok_def)
  then obtain r where r: "file_store_open rfc now ?d = (Ok (), r)" "fs_offsets r = fs_offsets fs" "dk_body (fs_disk r) = []"
    "ms_next_sender (fs_cache r) = ms_next_sender (fs_cache fs)" by blast
  obtain recs where recs: "fs_recs_ok fs recs" using ok by (auto simp: fs_ok_def)
  obtain off len where e: "map_of (fs_offsets fs) n = Some (off, len)" "raw = body_slice (dk_body (fs_disk fs)) (off, len)"
    using assms(2) by (auto simp: fs_msgs_def fs_abs_def map_of_map)
  with assms(3) have "0 < len" by (cases len) (auto simp: body_slice_def)
  moreover have "filter (\<lambda>(k, _). n \<le> k \<and> k \<le> n) (fs_offsets fs) = [(n, off, len)]"
    using e(1) bt_ok_offsets_of [of recs] recs by (intro bt_single) (simp_all add: fs_recs_ok_def)
  ultimately have "fst (fs_get n n r) = Err (IoError ''failed to fill whole buffer'')"
    using r(2,3) by (simp add: fs_get_def bt_range_def)
  then show "\<exists>r. file_store_open rfc now ?d = (Ok (), r) \<and> ms_next_sender (fs_abs r) = ms_next_sender (fs_abs fs)
      \<and> fst (so_get (file_ops rfc) n n r) = Err (IoError ''failed to fill whole buffer'')"
    using r by (auto simp: file_ops_def fs_abs_def)
qed

section \<open>A concrete run\<close>

text \<open>An instance of the time format: a sign digit and a tally.\<close>

definition tally_rfc :: rfc3339 where
  "tally_rfc =
     \<lparr>rfc_print = (\<lambda>t. (if t < 0 then CHR ''1'' else CHR ''0'') # replicate (nat \<bar>t\<bar>) (CHR ''7'')),
      rfc_parse = (\<lambda>s. case s of [] \<Rightarrow> None
         | c # r \<Rightarrow> Some (if c = CHR ''1'' then - int (length r) else int (length r)))\<rparr>"

lemma is_digit_tally: "is_digit (CHR ''7'')" "is_digit (CHR ''1'')" "is_digit (CHR ''0'')"
  by (simp_all add: is_digit_def byte_of_def)

lemma tally_rfc_ok: "rfc3339_ok tally_rfc"
proof -
  have dig: "list_all is_digit (rfc_print tally_rfc t)" for t
    by (simp add: tally_rfc_def list_all_iff is_digit_tally)
  have "rfc_print tally_rfc t \<noteq> []" for t by (simp add: tally_rfc_def)
  with dig have tr: "trim (rfc_print tally_rfc t) = rfc_print tally_rfc t" for t by (simp add: digit_string(3))
  have "utf8_ok (rfc_print tally_rfc t)" for t
    using dig [of t] by (intro utf8_ok_ascii) (auto simp: list_all_iff digit_byte)
  with tr show ?thesis by (simp add: rfc3339_ok_def) (simp add: tally_rfc_def)
qed

definition fresh_store :: file_store where
  "fresh_store = snd (file_store_open tally_rfc 0 empty_disk)"

lemma fresh_store_open: "file_store_open tally_rfc 0 empty_disk = (Ok (), fresh_store)"
  by (simp add: fresh_store_def file_store_open_def fs_load_def load_seqnums_def empty_disk_def and_then_def
      load_header_def load_session_def write_session_def trim_def trim_start.simps trim_end.simps str_lines.simps)

lemmas fresh_store_ok = open_empty [OF tally_rfc_ok fresh_store_open]

lemma fresh_store_save:
  "fs_save 1 ''8=FIX'' fresh_store = (Ok (), append_header 1 (fs_body_len fresh_store) (length ''8=FIX'') (append_body ''8=FIX'' fresh_store))"
proof -
  have "dk_body (fs_disk fresh_store) = []"
    by (simp add: fresh_store_def file_store_open_def fs_load_def load_seqnums_def empty_disk_def and_then_def
      load_header_def load_session_def write_session_def trim_def trim_start.simps trim_end.simps str_lines.simps)
  then show ?thesis by (simp add: fs_save_def max_file_def)
qed

definition run_store :: file_store where
  "run_store = snd (fs_incr_sender (append_header 1 (fs_body_len fresh_store) (length ''8=FIX'') (append_body ''8=FIX'' fresh_store)))"

lemma run_store_ops:
  "run_ops (file_ops tally_rfc) [OpSave 1 ''8=FIX'', OpIncrSender] fresh_store = (Ok (), run_store)"
  using fresh_store_save by (simp add: file_ops_def and_then_def run_store_def fs_incr_sender_def)

theorem file_store_refines_memory_witness:
  "run_ops memory_ops [OpSave 1 ''8=FIX'', OpIncrSender] (fs_abs fresh_store) = (Ok (), fs_abs run_store)
    \<and> fst (so_get (file_ops tally_rfc) 1 1 run_store) = Ok [(1, ''8=FIX'')]"
proof -
  have r: "run_ops memory_ops [OpSave 1 ''8=FIX'', OpIncrSender] (fs_abs fresh_store) = (Ok (), fs_abs run_store)
    \<and> fst (so_get (file_ops tally_rfc) 1 1 run_store) = fst (so_get memory_ops 1 1 (fs_abs run_store))"
    using fresh_store_ok run_store_ops by (intro file_store_refines_memory) auto
  then have "fs_abs run_store = (memory_store_new 0)\<lparr>ms_messages := [(1, ''8=FIX'')], ms_next_sender := u64_add 1 1\<rparr>"
    using fresh_store_ok
    by (simp add: and_then_def memory_ops_def ms_save_def ms_trim_def memory_store_new_def)
  with r show ?thesis by (simp add: memory_ops_def ms_get_def bt_range_def)
qed

theorem file_store_reopen_witness:
  "\<exists>fs'. file_store_open tally_rfc 9 (fs_disk run_store) = (Ok (), fs') \<and> fs_abs fs' = fs_abs run_store
    \<and> run_ops memory_ops [OpSave 1 ''8=FIX'', OpIncrSender] (memory_store_new 0) = (Ok (), fs_abs fs')"
  by (rule file_store_reopen [OF tally_rfc_ok fresh_store_open _ run_store_ops]) simp

theorem save_and_incr_crash_safe_witness:
  "\<exists>r. file_store_open tally_rfc 9 (fs_disk (append_body ''8=FIX'' fresh_store)) = (Ok (), r)
    \<and> (\<forall>k. fs_msgs r k = fs_msgs fresh_store k \<or> (k = 1 \<and> fs_msgs r k = Some ''8=FIX''))
    \<and> (ms_next_sender (fs_abs r) = ms_next_sender (fs_abs fresh_store)
       \<or> (ms_next_sender (fs_abs r) = u64_add (ms_next_sender (fs_abs fresh_store)) 1 \<and> fs_msgs r 1 = Some ''8=FIX''))"
proof -
  have s: "save_message_and_incr (file_ops tally_rfc) 1 ''8=FIX'' fresh_store = (Ok (), run_store)"
    using fresh_store_save by (simp add: save_message_and_incr_def file_ops_def run_store_def fs_incr_sender_def)
  have "fs_disk (append_body ''8=FIX'' fresh_store) \<in> set (crash_states fresh_store run_store)"
    by (simp add: crash_states_def run_store_def fs_incr_sender_def write_seqnums_def append_header_def append_body_def)
  from save_and_incr_crash_safe [OF _ _ s this, of 9] fresh_store_ok show ?thesis by auto
qed

theorem reset_crash_unreadable_witness:
  "\<exists>d \<in> set (crash_states run_store (snd (fs_reset tally_rfc 5 run_store))). \<exists>r. file_store_open tally_rfc 9 d = (Ok (), r)
    \<and> fst (so_get (file_ops tally_rfc) 1 1 r) = Err (IoError ''failed to fill whole buffer'')"
proof -
  have g: "fs_good tally_rfc run_store"
    using file_store.run_ops_refines [OF conjunct1 [OF fresh_store_ok] _ run_store_ops] by simp
  have "fs_msgs run_store 1 = Some ''8=FIX''"
    using fresh_store_ok file_store.run_ops_refines [OF conjunct1 [OF fresh_store_ok] _ run_store_ops]
    by (auto simp: fs_msgs_def and_then_def memory_ops_def ms_save_def ms_trim_def memory_store_new_def dest: sym)
  moreover have "fs_reset tally_rfc 5 run_store = (Ok (), snd (fs_reset tally_rfc 5 run_store))"
    by (simp add: fs_reset_def ms_reset_def)
  ultimately show ?thesis using reset_crash_unreadable [OF g, of 1 "''8=FIX''" 5 _ 9] by fastforce
qed

end
