(* ===== verification/File_Log.thy ===== *)
theory File_Log
  imports Session_Id Field_Map "HOL-Library.Sublist"
begin

text \<open>
  \<open>src/log.rs\<close>: the log sinks. A log is what a session calls with the traffic and its events; the
  null log drops them, the tracing log prints them, and the file log appends lines to two files
  that rotate by size. A rotating file is modelled with the files it owns: number 0 is the current
  file, number \<open>n\<close> the backup \<open>.n\<close> (without backups the code also removes a file \<open>.0\<close>, which is none
  of these). Renaming and opening are taken to succeed; the clock's text is an argument.
\<close>

section \<open>Log sinks\<close>

datatype log_call = OnIncoming bytes | OnOutgoing bytes | OnEvent bytes

definition printable :: "bytes \<Rightarrow> bytes" where
  "printable raw = map (\<lambda>c. if c = SOH then CHR ''|'' else c) (from_utf8_lossy raw)"

text \<open>The lines the tracing log emits, without level and session.\<close>

fun tracing_line :: "log_call \<Rightarrow> bytes" where
  "tracing_line (OnIncoming raw) = ''<- '' @ printable raw"
| "tracing_line (OnOutgoing raw) = ''-> '' @ printable raw"
| "tracing_line (OnEvent event) = event"

section \<open>Rotating files\<close>

record rotation =
  rot_max_size :: u64
  rot_max_backups :: nat

definition rotation_none :: rotation where
  "rotation_none = \<lparr>rot_max_size = 0, rot_max_backups = 0\<rparr>"

record rotating_file =
  rf_files :: "nat \<Rightarrow> bytes option"
  rf_size :: u64
  rf_rotation :: rotation

text \<open>Opening appends to what is there.\<close>

definition rf_open :: "(nat \<Rightarrow> bytes option) \<Rightarrow> rotation \<Rightarrow> rotating_file" where
  "rf_open files rot =
     (let cur = (case files 0 of Some c \<Rightarrow> c | None \<Rightarrow> [])
      in \<lparr>rf_files = files(0 \<mapsto> cur), rf_size = length cur, rf_rotation = rot\<rparr>)"

definition rename_file :: "nat \<Rightarrow> nat \<Rightarrow> (nat \<Rightarrow> bytes option) \<Rightarrow> (nat \<Rightarrow> bytes option)" where
  "rename_file a b files = (files(b := files a))(a := None)"

text \<open>The shift of the backups: from the next to oldest down to the first, those that exist.\<close>

fun shift_backups :: "nat \<Rightarrow> (nat \<Rightarrow> bytes option) \<Rightarrow> (nat \<Rightarrow> bytes option)" where
  "shift_backups 0 files = files"
| "shift_backups (Suc n) files =
     shift_backups n (if files (Suc n) \<noteq> None then rename_file (Suc n) (Suc (Suc n)) files else files)"

definition rotate_files :: "nat \<Rightarrow> (nat \<Rightarrow> bytes option) \<Rightarrow> (nat \<Rightarrow> bytes option)" where
  "rotate_files max_backups files =
     (let f1 = (if max_backups = 0 then files else files(max_backups := None));
          f2 = shift_backups (max_backups - 1) f1;
          f3 = (if 0 < max_backups then rename_file 0 1 f2 else f2(0 := None))
      in f3(0 \<mapsto> []))"

definition rf_rotate :: "rotating_file \<Rightarrow> rotating_file" where
  "rf_rotate rf = rf\<lparr>rf_files := rotate_files (rot_max_backups (rf_rotation rf)) (rf_files rf), rf_size := 0\<rparr>"

definition append_line :: "bytes \<Rightarrow> rotating_file \<Rightarrow> rotating_file" where
  "append_line line rf =
     rf\<lparr>rf_files := (rf_files rf)(0 \<mapsto> (case rf_files rf 0 of Some c \<Rightarrow> c | None \<Rightarrow> []) @ line @ [CHR 0x0A]),
        rf_size := rf_size rf + (length line + 1)\<rparr>"

definition write_line :: "rotating_file \<Rightarrow> bytes \<Rightarrow> rotating_file" where
  "write_line rf line =
     append_line line
       (if 0 < rot_max_size (rf_rotation rf) \<and> 0 < rf_size rf
           \<and> rot_max_size (rf_rotation rf) < rf_size rf + (length line + 1)
        then rf_rotate rf else rf)"

text \<open>The file log: traffic and events in two rotating files; each line starts with the time.\<close>

record file_log =
  fl_messages :: rotating_file
  fl_events :: rotating_file

fun file_log_call :: "bytes \<Rightarrow> log_call \<Rightarrow> file_log \<Rightarrow> file_log" where
  "file_log_call now (OnIncoming raw) fl = fl\<lparr>fl_messages := write_line (fl_messages fl) (now @ '' <- '' @ printable raw)\<rparr>"
| "file_log_call now (OnOutgoing raw) fl = fl\<lparr>fl_messages := write_line (fl_messages fl) (now @ '' -> '' @ printable raw)\<rparr>"
| "file_log_call now (OnEvent event) fl = fl\<lparr>fl_events := write_line (fl_events fl) (now @ '' '' @ event)\<rparr>"

definition file_log_paths :: "bytes \<Rightarrow> session_id \<Rightarrow> bytes \<times> bytes" where
  "file_log_paths dir sid = (session_path dir sid ''messages.log'', session_path dir sid ''event.log'')"

definition file_log_open :: "(bytes \<Rightarrow> nat \<Rightarrow> bytes option) \<Rightarrow> bytes \<Rightarrow> rotation \<Rightarrow> session_id \<Rightarrow> file_log" where
  "file_log_open disk dir rot sid =
     \<lparr>fl_messages = rf_open (disk (fst (file_log_paths dir sid))) rot,
      fl_events = rf_open (disk (snd (file_log_paths dir sid))) rot\<rparr>"

section \<open>What a rotation does\<close>

lemma shift_backups_shifts:
  "files (Suc k) = None \<Longrightarrow>
    shift_backups k files = (\<lambda>i. if i = 0 \<or> Suc k < i then files i else if i = 1 then None else files (i - 1))"
proof (induction k arbitrary: files)
  case 0
  then show ?case by (auto simp: fun_eq_iff less_Suc_eq_0_disj not_less_eq)
next
  case (Suc k)
  let ?f = "if files (Suc k) \<noteq> None then rename_file (Suc k) (Suc (Suc k)) files else files"
  have f: "?f (Suc k) = None" "?f (Suc (Suc k)) = files (Suc k)" "\<And>i. i \<noteq> Suc k \<Longrightarrow> i \<noteq> Suc (Suc k) \<Longrightarrow> ?f i = files i"
    using Suc.prems by (auto simp: rename_file_def)
  show ?case
    unfolding shift_backups.simps Suc.IH [of ?f, OF f(1)]
  proof
    fix i
    consider "i = 0 \<or> Suc (Suc k) < i" | "i = Suc (Suc k)" | "i = 1" "i \<noteq> Suc (Suc k)" | "1 < i" "i \<le> Suc k" by linarith
    then show "(if i = 0 \<or> Suc k < i then ?f i else if i = 1 then None else ?f (i - 1)) =
      (if i = 0 \<or> Suc (Suc k) < i then files i else if i = 1 then None else files (i - 1))"
      using f(2) f(3) [of i] f(3) [of "i - 1"] by cases auto
  qed
qed

lemma rotate_files_shifts:
  "0 < max_backups \<Longrightarrow>
    rotate_files max_backups files n =
      (if n = 0 then Some [] else if n \<le> max_backups then files (n - 1) else files n)"
  using shift_backups_shifts [of "files(max_backups := None)" "max_backups - 1"]
  by (auto simp: rotate_files_def rename_file_def)

lemma rotate_files_none: "rotate_files 0 files = files(0 \<mapsto> [])"
  by (simp add: rotate_files_def)

section \<open>What a rotating file keeps\<close>

definition file_text :: "rotating_file \<Rightarrow> nat \<Rightarrow> bytes" where
  "file_text rf n = (case rf_files rf n of Some c \<Rightarrow> c | None \<Rightarrow> [])"

text \<open>Everything that is kept, from the oldest backup to the current file.\<close>

definition kept :: "rotating_file \<Rightarrow> bytes" where
  "kept rf = concat (map (file_text rf) (rev [0..<Suc (rot_max_backups (rf_rotation rf))]))"

definition line_text :: "bytes \<Rightarrow> bytes" where
  "line_text line = line @ [CHR 0x0A]"

lemma kept_split: "kept rf = concat (map (file_text rf) (rev [1..<Suc (rot_max_backups (rf_rotation rf))])) @ file_text rf 0"
  by (simp add: kept_def upt_conv_Cons del: upt_Suc)

lemma kept_append: "kept (append_line line rf) = kept rf @ line_text line"
proof -
  have "file_text (append_line line rf) 0 = file_text rf 0 @ line_text line"
    by (simp add: append_line_def line_text_def file_text_def split: option.splits)
  moreover have "map (file_text (append_line line rf)) (rev [1..<m]) = map (file_text rf) (rev [1..<m])" for m
    by (auto simp: file_text_def append_line_def)
  moreover have "rf_rotation (append_line line rf) = rf_rotation rf" by (simp add: append_line_def)
  ultimately show ?thesis unfolding kept_split by (simp del: upt_Suc map_eq_conv)
qed

lemma kept_rotate: "suffix (kept (rf_rotate rf)) (kept rf)"
proof (cases "rot_max_backups (rf_rotation rf)")
  case 0
  then show ?thesis by (simp add: kept_def file_text_def rf_rotate_def rotate_files_none)
next
  case (Suc m)
  have t: "file_text (rf_rotate rf) 0 = []" "\<And>n. 0 < n \<Longrightarrow> n \<le> Suc m \<Longrightarrow> file_text (rf_rotate rf) n = file_text rf (n - 1)"
    using Suc by (simp_all add: file_text_def rf_rotate_def rotate_files_shifts)
  have "map (file_text (rf_rotate rf)) [1..<Suc (Suc m)] = map (file_text rf) [0..<Suc m]"
    by (rule nth_equalityI) (simp_all del: upt_Suc add: t)
  then have "map (file_text (rf_rotate rf)) (rev [1..<Suc (Suc m)]) = map (file_text rf) (rev [0..<Suc m])"
    by (metis rev_map)
  then have "kept (rf_rotate rf) = concat (map (file_text rf) (rev [0..<Suc m]))"
    unfolding kept_split using Suc t by (simp add: rf_rotate_def)
  then show ?thesis using Suc by (simp add: kept_def suffix_def)
qed

definition rf_ok :: "nat \<Rightarrow> rotating_file \<Rightarrow> bool" where
  "rf_ok bound rf \<longleftrightarrow>
     rf_size rf = length (file_text rf 0)
     \<and> (\<forall>n > rot_max_backups (rf_rotation rf). rf_files rf n = None \<or> n = 0)
     \<and> (0 < rot_max_size (rf_rotation rf) \<longrightarrow> (\<forall>n. length (file_text rf n) \<le> bound))"

lemma rf_ok_rotate: "rf_ok bound rf \<Longrightarrow> rf_ok bound (rf_rotate rf) \<and> file_text (rf_rotate rf) 0 = []"
proof (cases "rot_max_backups (rf_rotation rf)")
  case (Suc m)
  moreover assume "rf_ok bound rf"
  ultimately show ?thesis
    by (auto simp: rf_ok_def file_text_def rf_rotate_def rotate_files_shifts) 
qed (auto simp: rf_ok_def file_text_def rf_rotate_def rotate_files_none)

lemma rf_ok_append:
  "rf_ok bound rf \<Longrightarrow> (0 < rot_max_size (rf_rotation rf) \<longrightarrow> rf_size rf + (length line + 1) \<le> bound) \<Longrightarrow>
    rf_ok bound (append_line line rf)"
  by (auto simp: rf_ok_def file_text_def append_line_def split: option.splits)

lemma rotation_kept [simp]: "rf_rotation (rf_rotate rf) = rf_rotation rf" "rf_rotation (append_line line rf) = rf_rotation rf"
  "rf_rotation (write_line rf line) = rf_rotation rf"
  by (simp_all add: rf_rotate_def append_line_def write_line_def)

lemma write_line_ok:
  assumes "rf_ok bound rf" and "rot_max_size (rf_rotation rf) \<le> bound" and "length line + 1 \<le> bound"
  shows "rf_ok bound (write_line rf line)"
  using assms rf_ok_rotate [OF assms(1)]
  by (auto simp: write_line_def rf_ok_def [of _ "rf_rotate rf"] intro!: rf_ok_append)

lemma write_line_kept: "\<exists>t. suffix t (kept rf) \<and> kept (write_line rf line) = t @ line_text line"
  using kept_rotate by (auto simp: write_line_def kept_append)

text \<open>
  C38. A rotating log started on no files keeps, whatever is written, a suffix of the history: the
  backups from the oldest to the newest followed by the current file are the last lines written,
  complete and in order. There are never more than \<open>max_backups\<close> backups, and with a size limit no file
  is larger than the limit or, when a single line is, than that line.
\<close>

theorem rotating_log_keeps_recent:
  assumes "rot_max_size rot \<le> bound" and "\<forall>line \<in> set lines. length line + 1 \<le> bound"
  defines "rf \<equiv> foldl write_line (rf_open (\<lambda>_. None) rot) lines"
  shows "suffix (kept rf) (concat (map line_text lines))
    \<and> (\<forall>n > rot_max_backups rot. rf_files rf n = None)
    \<and> (0 < rot_max_size rot \<longrightarrow> length (kept rf) \<le> (rot_max_backups rot + 1) * bound)"
proof -
  have ok: "rf_ok bound rf \<and> rf_rotation rf = rot \<and> suffix (kept rf) (concat (map line_text lines))"
    unfolding rf_def using assms(2)
  proof (induction lines rule: rev_induct)
    case Nil
    then show ?case
      by (auto simp: rf_open_def rf_ok_def file_text_def kept_def concat_eq_Nil_conv)
  next
    case (snoc line lines)
    let ?rf = "foldl write_line (rf_open (\<lambda>_. None) rot) lines"
    obtain t where t: "suffix t (kept ?rf)" "kept (write_line ?rf line) = t @ line_text line"
      using write_line_kept [of ?rf line] by blast
    have ok: "rf_ok bound ?rf" "rf_rotation ?rf = rot" "suffix (kept ?rf) (concat (map line_text lines))"
      using snoc by simp_all
    have "rf_ok bound (write_line ?rf line)"
      using snoc.prems ok assms(1) by (intro write_line_ok) simp_all
    moreover have "suffix (t @ line_text line) (concat (map line_text lines) @ line_text line)"
      using suffix_order.trans [OF t(1) ok(3)] by (auto simp: suffix_def)
    ultimately show ?case using t ok by simp
  qed
  have "length (concat (map (file_text rf) ns)) \<le> length ns * bound" if "0 < rot_max_size rot" for ns
    using ok that by (induction ns) (auto simp: rf_ok_def add_mono)
  from this [of "rev [0..<Suc (rot_max_backups rot)]"] ok show ?thesis
    by (auto simp: kept_def rf_ok_def)
qed

theorem rotating_log_keeps_recent_witness:
  "kept (foldl write_line (rf_open (\<lambda>_. None) \<lparr>rot_max_size = 5, rot_max_backups = 1\<rparr>) [''ab'', ''cd'', ''ef'', ''gh''])
     = ''ef'' @ [CHR 0x0A] @ ''gh'' @ [CHR 0x0A]
   \<and> suffix (kept (foldl write_line (rf_open (\<lambda>_. None) \<lparr>rot_max_size = 5, rot_max_backups = 1\<rparr>) [''ab'', ''cd'', ''ef'', ''gh'']))
       (concat (map line_text [''ab'', ''cd'', ''ef'', ''gh'']))"
proof
  show "kept (foldl write_line (rf_open (\<lambda>_. None) \<lparr>rot_max_size = 5, rot_max_backups = 1\<rparr>) [''ab'', ''cd'', ''ef'', ''gh''])
     = ''ef'' @ [CHR 0x0A] @ ''gh'' @ [CHR 0x0A]"
    by code_simp
  show "suffix (kept (foldl write_line (rf_open (\<lambda>_. None) \<lparr>rot_max_size = 5, rot_max_backups = 1\<rparr>) [''ab'', ''cd'', ''ef'', ''gh'']))
       (concat (map line_text [''ab'', ''cd'', ''ef'', ''gh'']))"
    by (rule conjunct1 [OF rotating_log_keeps_recent [where bound = 5]]) simp_all
qed

end
