(* ===== verification/Session_Outbound.thy ===== *)
theory Session_Outbound
  imports Session_State
begin

text \<open>
  \<open>src/session.rs\<close>, second part: everything a session sends. \<open>send_message\<close> is the one path that
  assigns a sequence number, runs the application's callback, persists and transmits; gap fills and
  resent messages bypass it.
\<close>

section \<open>Disconnecting and transmitting\<close>

definition disconnect_state :: "('st, 'ap) session \<Rightarrow> ('st, 'ap) session" where
  "disconnect_state s =
     s\<lparr>se_inbound := False, se_outbound := None, se_disconnected_tx := False,
       se_received_logon := False, se_sent_logon := False, se_sent_logout := False,
       se_sent_reset := False, se_received_reset := False, se_test_request_counter := 0,
       se_resend_range := None, se_stash := []\<rparr>"

definition call_on_logout :: "('st, 'ap) env \<Rightarrow> (('st, 'ap) session, 'e, unit) cmd" where
  "call_on_logout e =
     modify (\<lambda>s. s\<lparr>se_app := ap_on_logout (en_application e) (the_sid e) (se_app s)\<rparr>)"

definition disconnect :: "('st, 'ap) env \<Rightarrow> bytes \<Rightarrow> (('st, 'ap) session, 'e, unit) cmd" where
  "disconnect e reason =
     bnd (gets (\<lambda>s. is_connected s \<or> se_inbound s)) (\<lambda>attached.
     whenM attached
       (thn (event (''Disconnecting: '' @ reason))
       (bnd (gets (\<lambda>s. se_received_logon s \<or> se_sent_logon s)) (\<lambda>was_logged_on.
        thn (modify disconnect_state)
       (thn (whenM (cfg_reset_on_disconnect (en_cfg e)) (discard (store_reset e)))
            (whenM was_logged_on (call_on_logout e)))))))"

definition push_out :: "bytes \<Rightarrow> nat \<Rightarrow> ('st, 'ap) session \<Rightarrow> ('st, 'ap) session" where
  "push_out raw now s =
     s\<lparr>se_outbound := map_option (\<lambda>out. out\<lparr>out_sent := out_sent out @ [raw]\<rparr>) (se_outbound s),
       se_last_sent := now\<rparr>"

definition transmit :: "('st, 'ap) env \<Rightarrow> bytes \<Rightarrow> (('st, 'ap) session, 'e, unit) cmd" where
  "transmit e raw =
     thn (modify (\<lambda>s. s\<lparr>se_log := se_log s @ [LogOutgoing raw]\<rparr>))
    (bnd (gets se_outbound) (\<lambda>o'.
       case o' of
         None \<Rightarrow> ret ()
       | Some out \<Rightarrow>
           if out_closed out then disconnect e ''write side closed''
           else modify (push_out raw (en_now e))))"

section \<open>The normal send path\<close>

definition set_unless_empty :: "tag \<Rightarrow> bytes \<Rightarrow> message \<Rightarrow> message" where
  "set_unless_empty t v m = (if v = [] then m else set_header t v m)"

definition now_stamp :: "('st, 'ap) env \<Rightarrow> utc_timestamp" where
  "now_stamp e = \<lparr>ts_time = en_utc e, ts_precision = cfg_timestamp_precision (en_cfg e)\<rparr>"

definition fill_header :: "('st, 'ap) env \<Rightarrow> ('st, 'ap) session \<Rightarrow> message \<Rightarrow> message" where
  "fill_header e s m =
     (let sid = the_sid e;
          m1 = set_header TARGET_COMP_ID (sid_target_comp_id sid)
                 (set_header SENDER_COMP_ID (sid_sender_comp_id sid)
                   (set_header BEGIN_STRING (sid_begin_string sid) m));
          m2 = set_unless_empty TARGET_LOCATION_ID (sid_target_location_id sid)
                 (set_unless_empty TARGET_SUB_ID (sid_target_sub_id sid)
                   (set_unless_empty SENDER_LOCATION_ID (sid_sender_location_id sid)
                     (set_unless_empty SENDER_SUB_ID (sid_sender_sub_id sid) m1)));
          m3 = set_header MSG_SEQ_NUM (encode_u64 (next_sender e s)) m2;
          m4 = (if cfg_enable_last_msg_seq_num_processed (en_cfg e)
                then set_header LAST_MSG_SEQ_NUM_PROCESSED (encode_u64 (se_last_received_seq s)) m3 else m3)
      in stamp_sending_time (en_chrono e) (now_stamp e) m4)"

definition drop_header :: "tag \<Rightarrow> message \<Rightarrow> message" where
  "drop_header t m = m\<lparr>header := fst (fm_remove t (header m))\<rparr>"

definition type_or_empty :: "message \<Rightarrow> bytes" where
  "type_or_empty m = (case msg_type m of Inr t \<Rightarrow> t | Inl _ \<Rightarrow> [])"

text \<open>The application's callback on an outgoing message.\<close>

definition call_to_admin :: "('st, 'ap) env \<Rightarrow> message \<Rightarrow> (('st, 'ap) session, 'e, message) cmd" where
  "call_to_admin e m s =
     (case ap_to_admin (en_application e) m (the_sid e) (se_app s) of
        (m', ap') \<Rightarrow> (Done m', s\<lparr>se_app := ap'\<rparr>))"

definition call_to_app :: "('st, 'ap) env \<Rightarrow> message \<Rightarrow> (('st, 'ap) session, 'e, message option) cmd" where
  "call_to_app e m s =
     (case ap_to_app (en_application e) m (the_sid e) (se_app s) of
        (m', ap') \<Rightarrow> (Done m', s\<lparr>se_app := ap'\<rparr>))"

definition run_to_callback :: "('st, 'ap) env \<Rightarrow> message \<Rightarrow> (('st, 'ap) session, error, message) cmd" where
  "run_to_callback e m =
     (if is_admin m then call_to_admin e m
      else bnd (call_to_app e m) (\<lambda>r. case r of None \<Rightarrow> raise DoNotSend | Some m' \<Rightarrow> ret m'))"

definition canonical :: "('st, 'ap) env \<Rightarrow> message \<Rightarrow> message" where
  "canonical e m = (case en_dictionary e of Some dd \<Rightarrow> canonicalize_body dd m | None \<Rightarrow> m)"

definition always_sent :: "bytes \<Rightarrow> bool" where
  "always_sent mt \<longleftrightarrow> mt \<in> set [MT_LOGON, MT_LOGOUT, MT_RESEND_REQUEST, MT_SEQUENCE_RESET]"

definition persist :: "('st, 'ap) env \<Rightarrow> u64 \<Rightarrow> bytes \<Rightarrow> (('st, 'ap) session, error, unit) cmd" where
  "persist e seq raw =
     (if cfg_persist_messages (en_cfg e) then on_store (save_message_and_incr (en_ops e) seq raw)
      else on_store (so_incr_sender (en_ops e)))"

definition prepare :: "('st, 'ap) env \<Rightarrow> ('st, 'ap) session \<Rightarrow> message \<Rightarrow> message" where
  "prepare e s m = fill_header e s (drop_header ORIG_SENDING_TIME (drop_header POSS_DUP_FLAG m))"

definition send_message :: "('st, 'ap) env \<Rightarrow> message \<Rightarrow> (('st, 'ap) session, error, unit) cmd" where
  "send_message e m0 =
     bnd (gets (\<lambda>s. prepare e s m0)) (\<lambda>m.
     bnd (run_to_callback e m) (\<lambda>m1.
     (let m2 = canonical e m1 in
      case seq_num m2 of
        Inl ce \<Rightarrow> raise (Conversion ce)
      | Inr seq \<Rightarrow>
          (let raw = to_bytes m2 in
           thn (persist e seq raw)
          (bnd (gets (\<lambda>s. is_logged_on s \<or> always_sent (type_or_empty m) \<or> se_sent_logon s)) (\<lambda>go.
             whenM go (transmit e raw)))))))"

section \<open>Session messages\<close>

definition appl_ver_id_enum :: "bytes \<Rightarrow> bytes" where
  "appl_ver_id_enum v =
     (if v = ''FIX.2.7'' then ''0''
      else if v = ''FIX.3.0'' then ''1''
      else if v = ''FIX.4.0'' then ''2''
      else if v = ''FIX.4.1'' then ''3''
      else if v = ''FIX.4.2'' then ''4''
      else if v = ''FIX.4.3'' then ''5''
      else if v = ''FIX.4.4'' then ''6''
      else if v = ''FIX.5.0'' then ''7''
      else if v = ''FIX.5.0SP1'' then ''8''
      else if v = ''FIX.5.0SP2'' then ''9''
      else v)"

definition set_appl_ver :: "('st, 'ap) env \<Rightarrow> message \<Rightarrow> message" where
  "set_appl_ver e m =
     (case cfg_default_appl_ver_id (en_cfg e) of
        Some v \<Rightarrow> set_body DEFAULT_APPL_VER_ID (appl_ver_id_enum v) m | None \<Rightarrow> m)"

definition should_reset :: "('st, 'ap) env \<Rightarrow> ('st, 'ap) session \<Rightarrow> bool" where
  "should_reset e s \<longleftrightarrow>
     cfg_send_reset_seq_num_flag (en_cfg e)
     \<or> (''FIX.4.1'' \<le> the_begin e \<and> cfg_reset_on_logon (en_cfg e) \<and> next_sender e s = 1 \<and> next_target e s = 1)"

definition logon_message :: "('st, 'ap) env \<Rightarrow> ('st, 'ap) session \<Rightarrow> message" where
  "logon_message e s =
     (let m1 = set_body HEART_BT_INT (encode_u64 (as_secs (se_heart_bt_int s)))
                 (set_body ENCRYPT_METHOD (encode_int 0) (with_type MT_LOGON));
          m2 = (if should_reset e s then set_body RESET_SEQ_NUM_FLAG (encode_bool True) m1 else m1);
          m3 = set_appl_ver e m2
      in if cfg_send_next_expected_msg_seq_num (en_cfg e)
         then set_body NEXT_EXPECTED_MSG_SEQ_NUM (encode_u64 (next_target e s)) m3 else m3)"

definition send_logon :: "('st, 'ap) env \<Rightarrow> (('st, 'ap) session, bytes, unit) cmd" where
  "send_logon e =
     bnd (gets (\<lambda>s. (logon_message e s, should_reset e s))) (\<lambda>(logon, reset).
     thn (modify (\<lambda>s. s\<lparr>se_sent_reset := se_sent_reset s \<or> reset, se_sent_logon := True\<rparr>))
    (thn (event ''Initiated logon request'')
         (map_err (\<lambda>er. ''failed to send logon: '' @ error_display er) (send_message e logon))))"

definition adopt_heart_bt_int :: "('st, 'ap) env \<Rightarrow> u64 option \<Rightarrow> ('st, 'ap) session \<Rightarrow> ('st, 'ap) session" where
  "adopt_heart_bt_int e peer_hbi s =
     (case peer_hbi of
        None \<Rightarrow> s
      | Some n \<Rightarrow> s\<lparr>se_heart_bt_int :=
          (case cfg_heart_bt_int_override (en_cfg e) of Some d \<Rightarrow> d | None \<Rightarrow> secs n)\<rparr>)"

definition logon_reply_message :: "('st, 'ap) env \<Rightarrow> ('st, 'ap) session \<Rightarrow> message" where
  "logon_reply_message e s =
     (let m1 = set_body HEART_BT_INT (encode_u64 (as_secs (se_heart_bt_int s)))
                 (set_body ENCRYPT_METHOD (encode_int 0) (with_type MT_LOGON));
          m2 = (if se_received_reset s \<and> cfg_send_next_expected_msg_seq_num (en_cfg e)
                then set_body RESET_SEQ_NUM_FLAG (encode_bool True) m1 else m1);
          m3 = set_appl_ver e m2
      in if cfg_send_next_expected_msg_seq_num (en_cfg e)
         then set_body NEXT_EXPECTED_MSG_SEQ_NUM (encode_u64 (u64_add (next_target e s) 1)) m3 else m3)"

definition send_logon_reply :: "('st, 'ap) env \<Rightarrow> u64 option \<Rightarrow> (('st, 'ap) session, error, unit) cmd" where
  "send_logon_reply e peer_hbi =
     thn (modify (adopt_heart_bt_int e peer_hbi))
    (bnd (gets (logon_reply_message e)) (\<lambda>logon.
     thn (modify (\<lambda>s. s\<lparr>se_sent_reset := se_sent_reset s \<or> se_received_reset s, se_sent_logon := True\<rparr>))
    (thn (event ''Responding to logon request'')
         (send_message e logon))))"

definition logout_message :: "bytes \<Rightarrow> message" where
  "logout_message reason =
     (if reason = [] then with_type MT_LOGOUT else set_body TEXT reason (with_type MT_LOGOUT))"

definition initiate_logout :: "('st, 'ap) env \<Rightarrow> bytes \<Rightarrow> (('st, 'ap) session, error, unit) cmd" where
  "initiate_logout e reason =
     thn (event (if reason = [] then ''Initiated logout request'' else ''Initiated logout: '' @ reason))
    (thn (modify (\<lambda>s. s\<lparr>se_sent_logout := True\<rparr>))
         (send_message e (logout_message reason)))"

text \<open>Routing fields go back reversed; empty ones and, before FIX 4.1, the location ids are left out.\<close>

definition route_pairs :: "(tag \<times> tag) list" where
  "route_pairs =
     [(ON_BEHALF_OF_COMP_ID, DELIVER_TO_COMP_ID), (ON_BEHALF_OF_SUB_ID, DELIVER_TO_SUB_ID),
      (ON_BEHALF_OF_LOCATION_ID, DELIVER_TO_LOCATION_ID), (DELIVER_TO_COMP_ID, ON_BEHALF_OF_COMP_ID),
      (DELIVER_TO_SUB_ID, ON_BEHALF_OF_SUB_ID), (DELIVER_TO_LOCATION_ID, ON_BEHALF_OF_LOCATION_ID)]"

definition route_field :: "message \<Rightarrow> bytes \<Rightarrow> message \<Rightarrow> tag \<times> tag \<Rightarrow> message" where
  "route_field offender begin_string reply p =
     (case p of (src, dst) \<Rightarrow>
        if \<not> ''FIX.4.1'' \<le> begin_string \<and> src \<in> set [ON_BEHALF_OF_LOCATION_ID, DELIVER_TO_LOCATION_ID]
        then reply
        else case get_raw src (header offender) of
          None \<Rightarrow> reply
        | Some v \<Rightarrow> if v = [] then reply else set_header dst v reply)"

definition reverse_route :: "message \<Rightarrow> message \<Rightarrow> bytes \<Rightarrow> message" where
  "reverse_route offender reply begin_string = foldl (route_field offender begin_string) reply route_pairs"

definition fix42_plus :: "('st, 'ap) env \<Rightarrow> bool" where
  "fix42_plus e \<longleftrightarrow> ''FIX.4.2'' \<le> the_begin e \<or> is_fixt (the_sid e)"

definition set_ref_seq :: "message \<Rightarrow> message \<Rightarrow> message" where
  "set_ref_seq offender m =
     (case seq_num offender of Inr seq \<Rightarrow> set_body REF_SEQ_NUM (encode_u64 seq) m | Inl _ \<Rightarrow> m)"

definition set_ref_type :: "message \<Rightarrow> message \<Rightarrow> message" where
  "set_ref_type offender m =
     (case msg_type offender of Inr t \<Rightarrow> set_body REF_MSG_TYPE t m | Inl _ \<Rightarrow> m)"

definition reject_text :: "('st, 'ap) env \<Rightarrow> reject_error \<Rightarrow> bytes" where
  "reject_text e rej =
     (case rej_ref_tag rej of
        Some t \<Rightarrow> if \<not> fix42_plus e \<and> rej_text rej = None
                  then reject_display rej @ '' ('' @ dec_int t @ '')'' else reject_display rej
      | None \<Rightarrow> reject_display rej)"

definition reject_message :: "('st, 'ap) env \<Rightarrow> message \<Rightarrow> reject_error \<Rightarrow> message" where
  "reject_message e offender rej =
     (let m1 = set_body TEXT (reject_text e rej)
                 (set_ref_seq offender (reverse_route offender (with_type MT_REJECT) (the_begin e)))
      in if \<not> fix42_plus e then m1
         else (let m2 = (case rej_ref_tag rej of Some t \<Rightarrow> set_body REF_TAG_ID (encode_int t) m1 | None \<Rightarrow> m1);
                   m3 = set_ref_type offender m2;
                   code = reason_code (rej_reason rej)
               in if code \<le> 11 \<or> ''FIX.4.2'' < the_begin e
                  then set_body SESSION_REJECT_REASON (encode_u64 code) m3 else m3))"

definition send_reject :: "('st, 'ap) env \<Rightarrow> message \<Rightarrow> reject_error \<Rightarrow> (('st, 'ap) session, error, unit) cmd" where
  "send_reject e offender rej =
     bnd (gets (\<lambda>s. type_or_empty offender \<noteq> MT_LOGON \<and> type_or_empty offender \<noteq> MT_SEQUENCE_RESET
                    \<and> seq_num offender = Inr (next_target e s))) (\<lambda>consume.
     thn (whenM consume (incr_target_op e))
    (thn (event (''Message rejected: '' @ reject_display rej))
         (send_message e (reject_message e offender rej))))"

definition business_reject_message :: "('st, 'ap) env \<Rightarrow> message \<Rightarrow> message" where
  "business_reject_message e offender =
     (let m0 = (if fix42_plus e then with_type MT_BUSINESS_MESSAGE_REJECT else with_type MT_REJECT);
          txt = (if fix42_plus e then ''Unsupported Message Type'' else ''Unsupported message type'');
          m1 = set_body TEXT txt (set_ref_seq offender (reverse_route offender m0 (the_begin e)))
      in if fix42_plus e
         then set_body BUSINESS_REJECT_REASON (encode_u64 3) (set_ref_type offender m1) else m1)"

definition send_business_reject :: "('st, 'ap) env \<Rightarrow> message \<Rightarrow> (('st, 'ap) session, error, unit) cmd" where
  "send_business_reject e offender =
     thn (incr_target_op e) (send_message e (business_reject_message e offender))"

section \<open>Asking for and filling gaps\<close>

definition resend_chunk_end :: "('st, 'ap) env \<Rightarrow> u64 \<Rightarrow> u64 \<Rightarrow> u64" where
  "resend_chunk_end e begin full_end =
     (let mx = cfg_max_messages_in_resend_request (en_cfg e)
      in if mx = 0 then full_end else min full_end (u64_sub (u64_add begin mx) 1))"

definition resend_end_field :: "('st, 'ap) env \<Rightarrow> u64 \<Rightarrow> u64" where
  "resend_end_field e chunk_end =
     (if cfg_max_messages_in_resend_request (en_cfg e) = 0
      then (if fix42_plus e then 0 else 999999) else chunk_end)"

definition resend_request_message :: "('st, 'ap) env \<Rightarrow> u64 \<Rightarrow> u64 \<Rightarrow> message" where
  "resend_request_message e begin chunk_end =
     set_body END_SEQ_NO (encode_u64 (resend_end_field e chunk_end))
       (set_body BEGIN_SEQ_NO (encode_u64 begin) (with_type MT_RESEND_REQUEST))"

definition send_resend_request :: "('st, 'ap) env \<Rightarrow> u64 \<Rightarrow> u64 \<Rightarrow> (('st, 'ap) session, error, unit) cmd" where
  "send_resend_request e begin received =
     (let full_end = u64_sub received 1;
          chunk_end = resend_chunk_end e begin full_end
      in thn (modify (\<lambda>s. s\<lparr>se_resend_range := Some (begin, full_end, chunk_end)\<rparr>))
        (thn (event (''Sent ResendRequest FROM: '' @ dec_nat begin @ '' TO: '' @ dec_nat chunk_end))
             (send_message e (resend_request_message e begin chunk_end))))"

definition check_resend_chunks :: "('st, 'ap) env \<Rightarrow> (('st, 'ap) session, 'e, unit) cmd" where
  "check_resend_chunks e =
     bnd (gets (\<lambda>s. (se_resend_range s, next_target e s))) (\<lambda>(rng, expected).
       case rng of
         None \<Rightarrow> ret ()
       | Some (_, full_end, chunk_end) \<Rightarrow>
           if expected \<le> chunk_end then ret ()
           else if expected \<le> full_end
           then discard (send_resend_request e expected (u64_add full_end 1))
           else thn (event (''ResendRequest for messages FROM ... TO '' @ dec_nat full_end @ '' has been satisfied''))
                    (modify (\<lambda>s. s\<lparr>se_resend_range := None\<rparr>)))"

definition gap_fill_message :: "('st, 'ap) env \<Rightarrow> ('st, 'ap) session \<Rightarrow> u64 \<Rightarrow> u64 \<Rightarrow> message" where
  "gap_fill_message e s begin new_seq =
     (let m1 = fill_header e s (with_type MT_SEQUENCE_RESET);
          m2 = set_header POSS_DUP_FLAG (encode_bool True) (set_header MSG_SEQ_NUM (encode_u64 begin) m1);
          m3 = set_header ORIG_SENDING_TIME (encode_timestamp (en_chrono e) (now_stamp e)) m2
      in set_body GAP_FILL_FLAG (encode_bool True) (set_body NEW_SEQ_NO (encode_u64 new_seq) m3))"

definition send_gap_fill :: "('st, 'ap) env \<Rightarrow> u64 \<Rightarrow> u64 \<Rightarrow> (('st, 'ap) session, 'e, unit) cmd" where
  "send_gap_fill e begin new_seq =
     bnd (gets (\<lambda>s. gap_fill_message e s begin new_seq)) (\<lambda>m0.
     bnd (call_to_admin e m0) (\<lambda>m.
     thn (event (''Sent SequenceReset (GapFill) '' @ dec_nat begin @ '' -> '' @ dec_nat new_seq))
         (transmit e (to_bytes m))))"

section \<open>Answering a resend request\<close>

definition resent :: "('st, 'ap) env \<Rightarrow> message \<Rightarrow> message" where
  "resent e m =
     (let m1 = set_header POSS_DUP_FLAG (encode_bool True) m;
          m2 = (case get_raw SENDING_TIME (header m1) of
                  Some orig \<Rightarrow> set_header ORIG_SENDING_TIME orig m1 | None \<Rightarrow> m1)
      in stamp_sending_time (en_chrono e) (now_stamp e) m2)"

definition get_or_insert_gap :: "u64 option \<Rightarrow> u64 \<Rightarrow> u64 option" where
  "get_or_insert_gap g seq = (case g of None \<Rightarrow> Some seq | Some b \<Rightarrow> Some b)"

definition close_gap :: "('st, 'ap) env \<Rightarrow> u64 option \<Rightarrow> u64 \<Rightarrow> (('st, 'ap) session, 'e, unit) cmd" where
  "close_gap e g new_seq = (case g of None \<Rightarrow> ret () | Some b \<Rightarrow> send_gap_fill e b new_seq)"

text \<open>What the loop finds for a number: nothing to resend, a message, or a parser that unwinds.\<close>

definition stored_message :: "(u64 \<times> bytes) list \<Rightarrow> u64 \<Rightarrow> ('e, message option) res" where
  "stored_message stored seq =
     (case map_of stored seq of
        None \<Rightarrow> Ok None
      | Some raw \<Rightarrow>
          (case message_parse raw False of
             Ok m \<Rightarrow> Ok (if is_admin m then None else Some m)
           | Err _ \<Rightarrow> Ok None
           | Panic \<Rightarrow> Panic))"

fun retransmit_loop ::
  "('st, 'ap) env \<Rightarrow> (u64 \<times> bytes) list \<Rightarrow> u64 option \<Rightarrow> u64 list \<Rightarrow> (('st, 'ap) session, 'e, u64 option) cmd" where
  "retransmit_loop e stored g [] = ret g"
| "retransmit_loop e stored g (seq # seqs) =
     (case (stored_message stored seq :: (unit, message option) res) of
        Ok (Some m) \<Rightarrow>
          bnd (call_to_app e (resent e m)) (\<lambda>r.
            case r of
              None \<Rightarrow> retransmit_loop e stored (get_or_insert_gap g seq) seqs
            | Some m' \<Rightarrow>
                thn (close_gap e g seq)
               (thn (event (''Resending message '' @ dec_nat seq))
               (thn (transmit e (to_bytes m'))
                    (retransmit_loop e stored None seqs))))
      | Ok None \<Rightarrow> retransmit_loop e stored (get_or_insert_gap g seq) seqs
      | Err _ \<Rightarrow> retransmit_loop e stored (get_or_insert_gap g seq) seqs
      | Panic \<Rightarrow> (\<lambda>s. (Unwind, s)))"

definition retransmit :: "('st, 'ap) env \<Rightarrow> u64 \<Rightarrow> u64 \<Rightarrow> (('st, 'ap) session, 'e, unit) cmd" where
  "retransmit e begin en =
     bnd (attempt (on_store (so_get (en_ops e) begin en))) (\<lambda>r.
       case r of
         Inl er \<Rightarrow> event (''Store error during resend: '' @ error_display er)
       | Inr stored \<Rightarrow>
           bnd (retransmit_loop e stored None [begin..<en + 1]) (\<lambda>g. close_gap e g (u64_add en 1)))"

definition answer_resend :: "('st, 'ap) env \<Rightarrow> u64 \<Rightarrow> u64 \<Rightarrow> (('st, 'ap) session, 'e, unit) cmd" where
  "answer_resend e begin en =
     (if en < begin then ret ()
      else if cfg_persist_messages (en_cfg e) then retransmit e begin en
      else send_gap_fill e begin (u64_add en 1))"

end
