(* ===== verification/Session_Inbound.thy ===== *)
theory Session_Inbound
  imports Session_Outbound
begin

text \<open>
  \<open>src/session.rs\<close>, third part: what a session does with a received frame. \<open>verify\<close> is the pipeline of
  checks every handler starts with; \<open>process\<close> dispatches on the message type; \<open>drain_stash\<close> replays the
  messages that had arrived too early.

  The replay loop takes fuel, one unit per stashed message it replays.
\<close>

section \<open>Checks\<close>

datatype flow = Continue | StopFlow

definition valid_logon_state :: "('st, 'ap) session \<Rightarrow> bytes \<Rightarrow> bool" where
  "valid_logon_state s mt \<longleftrightarrow>
     (mt = MT_LOGON \<and> (se_sent_reset s \<or> se_received_reset s))
     \<or> (mt = MT_LOGON \<and> \<not> se_received_logon s)
     \<or> (mt \<noteq> MT_LOGON \<and> se_received_logon s)
     \<or> (mt = MT_LOGOUT \<and> se_sent_logon s)
     \<or> (mt \<noteq> MT_LOGOUT \<and> se_sent_logout s)
     \<or> mt = MT_SEQUENCE_RESET
     \<or> mt = MT_REJECT"

definition incr_target :: "('st, 'ap) env \<Rightarrow> (('st, 'ap) session, bytes, unit) cmd" where
  "incr_target e = map_err (\<lambda>er. ''store error: '' @ error_display er) (incr_target_op e)"

definition on_target_too_high ::
  "('st, 'ap) env \<Rightarrow> message \<Rightarrow> u64 \<Rightarrow> u64 \<Rightarrow> (('st, 'ap) session, bytes, unit) cmd" where
  "on_target_too_high e m seq expected =
     thn (event (''MsgSeqNum too high, expecting '' @ dec_nat expected @ '' but received '' @ dec_nat seq))
    (thn (modify (\<lambda>s. s\<lparr>se_stash := bt_insert seq (to_bytes m) (se_stash s)\<rparr>))
    (bnd (gets (\<lambda>s. se_resend_range s \<noteq> None \<and> \<not> cfg_send_redundant_resend_requests (en_cfg e))) (\<lambda>suppress.
     whenM (\<not> suppress)
       (map_err (\<lambda>er. ''failed to send ResendRequest: '' @ error_display er)
          (send_resend_request e expected seq)))))"

definition get_time :: "('st, 'ap) env \<Rightarrow> tag \<Rightarrow> message \<Rightarrow> utc_timestamp option" where
  "get_time e t m = get_ok (decode_timestamp (en_chrono e)) t (header m)"

definition on_target_too_low ::
  "('st, 'ap) env \<Rightarrow> message \<Rightarrow> u64 \<Rightarrow> u64 \<Rightarrow> (('st, 'ap) session, bytes, flow) cmd" where
  "on_target_too_low e m seq expected =
     (if \<not> poss_dup m then
        (let reason = ''MsgSeqNum too low, expecting '' @ dec_nat expected @ '' but received '' @ dec_nat seq
         in thn (discard (initiate_logout e reason)) (raise reason))
      else
        (let ignore = thn (event (''Already received message '' @ dec_nat seq @ '', ignoring PossDup'')) (ret StopFlow)
         in if type_or_empty m \<noteq> MT_SEQUENCE_RESET \<and> cfg_requires_orig_sending_time (en_cfg e) then
              (case get_time e ORIG_SENDING_TIME m of
                 None \<Rightarrow>
                   thn (discard (send_reject e m (reject_with_tag RequiredTagMissing ORIG_SENDING_TIME)))
                       (ret StopFlow)
               | Some orig \<Rightarrow>
                   (case get_time e SENDING_TIME m of
                      None \<Rightarrow> ignore
                    | Some st \<Rightarrow>
                        if ts_time st < ts_time orig then
                          thn (discard (send_reject e m (reject_new SendingTimeAccuracyProblem)))
                         (thn (discard (initiate_logout e [])) (ret StopFlow))
                        else ignore))
            else ignore))"

definition too_late :: "('st, 'ap) env \<Rightarrow> utc_timestamp \<Rightarrow> bool" where
  "too_late e st \<longleftrightarrow> as_secs (cfg_max_latency (en_cfg e)) < nat (\<bar>en_utc e - ts_time st\<bar> div 10 ^ 9)"

definition comp_ids_ok :: "('st, 'ap) env \<Rightarrow> message \<Rightarrow> bool" where
  "comp_ids_ok e m \<longleftrightarrow>
     (let raw = (\<lambda>t. case get_raw t (header m) of Some v \<Rightarrow> v | None \<Rightarrow> [])
      in raw SENDER_COMP_ID = sid_target_comp_id (the_sid e)
         \<and> raw TARGET_COMP_ID = sid_sender_comp_id (the_sid e))"

text \<open>The sequence checks, \<open>None\<close> when the message may go on.\<close>

definition verify_seq ::
  "('st, 'ap) env \<Rightarrow> message \<Rightarrow> bool \<Rightarrow> bool \<Rightarrow> (('st, 'ap) session, bytes, flow option) cmd" where
  "verify_seq e m check_too_high check_too_low =
     (if \<not> (check_too_high \<or> check_too_low) then ret None
      else case seq_num m of
        Inl _ \<Rightarrow>
          thn (discard (send_reject e m (reject_with_tag RequiredTagMissing MSG_SEQ_NUM))) (ret (Some StopFlow))
      | Inr seq \<Rightarrow>
          bnd (gets (\<lambda>s. (next_target e s, se_last_processed_was_queued s))) (\<lambda>(expected, queued).
            if check_too_high \<and> expected < seq then
              thn (on_target_too_high e m seq expected) (ret (Some StopFlow))
            else if check_too_low \<and> seq < expected then
              (if queued \<and> type_or_empty m = MT_SEQUENCE_RESET \<and> get_raw GAP_FILL_FLAG (body m) = Some ''Y''
               then thn (event (''SequenceReset-GapFill '' @ dec_nat seq @ '' is too low (expected ''
                           @ dec_nat expected @ ''), obeying it anyway'')) (ret None)
               else bnd (on_target_too_low e m seq expected) (\<lambda>fl. ret (Some fl)))
            else ret None))"

definition call_from :: "('st, 'ap) env \<Rightarrow> message \<Rightarrow> (('st, 'ap) session, 'e, application_error option) cmd" where
  "call_from e m s =
     (case (if is_admin m then ap_from_admin (en_application e) m (the_sid e) (se_app s)
            else ap_from_app (en_application e) m (the_sid e) (se_app s)) of
        (r, ap') \<Rightarrow> (Done r, s\<lparr>se_app := ap'\<rparr>))"

definition run_from_callback :: "('st, 'ap) env \<Rightarrow> message \<Rightarrow> (('st, 'ap) session, bytes, flow) cmd" where
  "run_from_callback e m =
     bnd (call_from e m) (\<lambda>cb.
       case cb of
         None \<Rightarrow> ret Continue
       | Some (RejectLogon reason) \<Rightarrow>
           thn (discard (incr_target_op e))
          (thn (discard (initiate_logout e reason))
               (raise (''logon rejected by application: '' @ reason)))
       | Some (AppReject rej) \<Rightarrow> thn (discard (send_reject e m rej)) (ret StopFlow)
       | Some UnsupportedMessageType \<Rightarrow> thn (discard (send_business_reject e m)) (ret StopFlow))"

definition verify ::
  "('st, 'ap) env \<Rightarrow> message \<Rightarrow> bool \<Rightarrow> bool \<Rightarrow> (('st, 'ap) session, bytes, flow) cmd" where
  "verify e m check_too_high check_too_low =
     bnd (gets (\<lambda>s. valid_logon_state s (type_or_empty m))) (\<lambda>state_ok.
     if \<not> state_ok then raise (''logon state invalid for message type '' @ type_or_empty m)
     else case get_time e SENDING_TIME m of
       None \<Rightarrow>
         thn (discard (send_reject e m (reject_with_tag RequiredTagMissing SENDING_TIME))) (ret StopFlow)
     | Some st \<Rightarrow>
         if cfg_check_latency (en_cfg e) \<and> too_late e st then
           thn (discard (send_reject e m (reject_new SendingTimeAccuracyProblem)))
          (thn (discard (initiate_logout e [])) (ret StopFlow))
         else if cfg_check_comp_id (en_cfg e) \<and> \<not> comp_ids_ok e m then
           thn (discard (send_reject e m (reject_new CompIDProblem)))
          (thn (discard (initiate_logout e [])) (ret StopFlow))
         else
           bnd (verify_seq e m check_too_high check_too_low) (\<lambda>r.
             case r of
               Some fl \<Rightarrow> ret fl
             | None \<Rightarrow>
                 thn (modify (\<lambda>s. s\<lparr>se_last_received := en_now e, se_test_request_counter := 0\<rparr>))
                     (run_from_callback e m)))"

section \<open>Handlers\<close>

text \<open>The shape most handlers share: verify, and go on only when the checks passed.\<close>

definition if_continue :: "('s, 'e, flow) cmd \<Rightarrow> ('s, 'e, unit) cmd \<Rightarrow> ('s, 'e, unit) cmd" where
  "if_continue v k = bnd v (\<lambda>fl. case fl of Continue \<Rightarrow> k | StopFlow \<Rightarrow> ret ())"

definition handle_plain_admin :: "('st, 'ap) env \<Rightarrow> message \<Rightarrow> (('st, 'ap) session, bytes, unit) cmd" where
  "handle_plain_admin e m = if_continue (verify e m True True) (incr_target e)"

definition handle_app_message :: "('st, 'ap) env \<Rightarrow> message \<Rightarrow> (('st, 'ap) session, bytes, unit) cmd" where
  "handle_app_message e m = if_continue (verify e m True True) (incr_target e)"

definition heartbeat_reply :: "message \<Rightarrow> message" where
  "heartbeat_reply m =
     (case get_raw TEST_REQ_ID (body m) of
        Some v \<Rightarrow> set_body TEST_REQ_ID v (with_type MT_HEARTBEAT) | None \<Rightarrow> with_type MT_HEARTBEAT)"

definition handle_test_request :: "('st, 'ap) env \<Rightarrow> message \<Rightarrow> (('st, 'ap) session, bytes, unit) cmd" where
  "handle_test_request e m =
     if_continue (verify e m True True)
       (thn (discard (send_message e (heartbeat_reply m))) (incr_target e))"

definition resend_bounds :: "message \<Rightarrow> u64 \<Rightarrow> u64 \<times> u64" where
  "resend_bounds m nxt =
     (let begin = (case get_ok decode_u64 BEGIN_SEQ_NO (body m) of Some n \<Rightarrow> n | None \<Rightarrow> 1);
          en = (case get_ok decode_u64 END_SEQ_NO (body m) of Some n \<Rightarrow> n | None \<Rightarrow> 0)
      in (begin, if en = 0 \<or> en = 999999 \<or> nxt \<le> en then u64_sub nxt 1 else en))"

definition handle_resend_request :: "('st, 'ap) env \<Rightarrow> message \<Rightarrow> (('st, 'ap) session, bytes, unit) cmd" where
  "handle_resend_request e m =
     if_continue (verify e m False False)
       (bnd (gets (\<lambda>s. resend_bounds m (next_sender e s))) (\<lambda>(begin, en).
        thn (event (''Received ResendRequest FROM: '' @ dec_nat begin @ '' TO: '' @ dec_nat en))
       (thn (answer_resend e begin en)
       (bnd (gets (\<lambda>s. seq_num m = Inr (next_target e s))) (\<lambda>in_sequence.
        whenM in_sequence (incr_target e))))))"

definition handle_sequence_reset :: "('st, 'ap) env \<Rightarrow> message \<Rightarrow> (('st, 'ap) session, bytes, unit) cmd" where
  "handle_sequence_reset e m =
     (let gap_fill = (get_raw GAP_FILL_FLAG (body m) = Some ''Y'') in
      if_continue (verify e m gap_fill gap_fill)
        (case get_ok decode_u64 NEW_SEQ_NO (body m) of
           None \<Rightarrow> ret ()
         | Some new_seq \<Rightarrow>
             bnd (gets (next_target e)) (\<lambda>expected.
             thn (event (''Received SequenceReset (GapFill='' @ (if gap_fill then ''Y'' else ''N'')
                         @ '') NewSeqNo='' @ dec_nat new_seq))
                 (if expected < new_seq then
                    thn (map_err (\<lambda>er. ''store error: '' @ error_display er)
                           (on_store (so_set_target (en_ops e) new_seq)))
                        (modify (\<lambda>s. s\<lparr>se_stash := filter (\<lambda>(k, _). new_seq \<le> k) (se_stash s)\<rparr>))
                  else if new_seq < expected then discard (send_reject e m (reject_new ValueIsIncorrect))
                  else ret ()))))"

definition handle_logout :: "('st, 'ap) env \<Rightarrow> message \<Rightarrow> (('st, 'ap) session, bytes, unit) cmd" where
  "handle_logout e m =
     if_continue (verify e m False False)
       (bnd (gets se_sent_logout) (\<lambda>already.
        thn (if already then event ''Received logout response''
             else thn (event ''Received logout request'') (discard (initiate_logout e [])))
       (thn (incr_target e)
       (thn (whenM (cfg_reset_on_logout (en_cfg e)) (discard (store_reset e)))
            (raise ''logout complete'')))))"

section \<open>Logon\<close>

definition has_reset_flag :: "message \<Rightarrow> bool" where
  "has_reset_flag m \<longleftrightarrow> get_raw RESET_SEQ_NUM_FLAG (body m) = Some ''Y''"

definition logon_time_ok :: "('st, 'ap) env \<Rightarrow> message \<Rightarrow> bool" where
  "logon_time_ok e m \<longleftrightarrow>
     \<not> cfg_check_latency (en_cfg e)
     \<or> (case get_time e SENDING_TIME m of None \<Rightarrow> False | Some st \<Rightarrow> \<not> too_late e st)"

definition logon_reset :: "('st, 'ap) env \<Rightarrow> message \<Rightarrow> (('st, 'ap) session, bytes, unit) cmd" where
  "logon_reset e m =
     whenM (has_reset_flag m)
       (thn (modify (\<lambda>s. s\<lparr>se_received_reset := True\<rparr>))
       (bnd (gets se_sent_reset) (\<lambda>sent.
        whenM (\<not> sent)
          (thn (event ''Logon contains ResetSeqNumFlag=Y, resetting sequence numbers to 1'')
               (map_err (\<lambda>er. ''store reset failed: '' @ error_display er) (store_reset e))))))"

definition acceptor_prepare :: "('st, 'ap) env \<Rightarrow> (('st, 'ap) session, bytes, unit) cmd" where
  "acceptor_prepare e =
     whenM (\<not> is_initiator e)
       (thn (whenM (cfg_refresh_on_logon (en_cfg e)) (discard (store_refresh e)))
       (bnd (gets se_received_reset) (\<lambda>rr.
        whenM (cfg_reset_on_logon (en_cfg e) \<and> \<not> rr) (discard (store_reset e)))))"

text \<open>NextExpectedMsgSeqNum: where to retransmit from, or the end of the connection.\<close>

definition read_next_expected :: "('st, 'ap) env \<Rightarrow> message \<Rightarrow> (('st, 'ap) session, bytes, u64 option) cmd" where
  "read_next_expected e m =
     (if \<not> cfg_send_next_expected_msg_seq_num (en_cfg e) then ret None
      else case get_ok decode_u64 NEXT_EXPECTED_MSG_SEQ_NUM (body m) of
        None \<Rightarrow> ret None
      | Some peer \<Rightarrow>
          bnd (gets (next_sender e)) (\<lambda>nxt.
            if nxt < peer then
              (let reason = ''Tag 789 (NextExpectedMsgSeqNum) is higher than expected. Expected ''
                              @ dec_nat nxt @ '', Received '' @ dec_nat peer
               in thn (discard (initiate_logout e reason)) (raise reason))
            else ret (if peer < nxt then Some peer else None)))"

definition reply_to_logon :: "('st, 'ap) env \<Rightarrow> message \<Rightarrow> (('st, 'ap) session, bytes, unit) cmd" where
  "reply_to_logon e m =
     (if is_initiator e then event ''Received logon response''
      else map_err (\<lambda>er. ''failed to send logon reply: '' @ error_display er)
             (send_logon_reply e (get_ok decode_u64 HEART_BT_INT (body m))))"

definition logon_sequence :: "('st, 'ap) env \<Rightarrow> message \<Rightarrow> (('st, 'ap) session, bytes, unit) cmd" where
  "logon_sequence e m =
     (case seq_num m of
        Inl _ \<Rightarrow> raise ''logon missing MsgSeqNum''
      | Inr seq \<Rightarrow>
          bnd (gets (next_target e)) (\<lambda>expected.
            if expected < seq then
              (if cfg_send_next_expected_msg_seq_num (en_cfg e) \<and> \<not> has_reset_flag m then
                 thn (event (''Expecting retransmits FROM: '' @ dec_nat expected @ '' TO: '' @ dec_nat (u64_sub seq 1)))
                     (modify (\<lambda>s. s\<lparr>se_stash := bt_insert seq (to_bytes m) (se_stash s),
                        se_resend_range := Some (expected, u64_sub seq 1, u64_sub seq 1)\<rparr>))
               else on_target_too_high e m seq expected)
            else incr_target e))"

definition call_on_logon :: "('st, 'ap) env \<Rightarrow> (('st, 'ap) session, 'e, unit) cmd" where
  "call_on_logon e =
     modify (\<lambda>s. s\<lparr>se_app := ap_on_logon (en_application e) (the_sid e) (se_app s)\<rparr>)"

definition finish_logon :: "('st, 'ap) env \<Rightarrow> u64 option \<Rightarrow> (('st, 'ap) session, bytes, unit) cmd" where
  "finish_logon e retransmit_from =
     bnd (gets is_logged_on) (\<lambda>on.
     thn (whenM on (thn (event ''Logon successful'') (call_on_logon e)))
         (case retransmit_from of
            None \<Rightarrow> ret ()
          | Some begin \<Rightarrow>
              bnd (gets (\<lambda>s. u64_sub (next_sender e s) 1)) (\<lambda>en.
              thn (event (''Sending retransmits due to received NextExpectedMsgSeqNum too low. FROM: ''
                          @ dec_nat begin @ '' TO: '' @ dec_nat en))
                  (answer_resend e begin en))))"

definition accept_logon :: "('st, 'ap) env \<Rightarrow> message \<Rightarrow> (('st, 'ap) session, bytes, unit) cmd" where
  "accept_logon e m =
     thn (modify (\<lambda>s. s\<lparr>se_received_logon := True\<rparr>))
    (bnd (read_next_expected e m) (\<lambda>retransmit_from.
     thn (reply_to_logon e m)
    (thn (modify (\<lambda>s. s\<lparr>se_sent_reset := False, se_received_reset := False\<rparr>))
    (thn (logon_sequence e m)
         (finish_logon e retransmit_from)))))"

definition handle_logon :: "('st, 'ap) env \<Rightarrow> message \<Rightarrow> (('st, 'ap) session, bytes, unit) cmd" where
  "handle_logon e m =
     (if \<not> logon_time_ok e m then raise ''logon has bad sending time''
      else thn (logon_reset e m)
          (bnd (gets (\<lambda>s. is_initiator e \<and> \<not> se_sent_logon s)) (\<lambda>unasked.
           if unasked then raise ''received logon response before sending request''
           else thn (acceptor_prepare e)
                    (if_continue (verify e m False True) (accept_logon e m)))))"

section \<open>Dispatch\<close>

definition dispatch :: "('st, 'ap) env \<Rightarrow> bytes \<Rightarrow> message \<Rightarrow> (('st, 'ap) session, bytes, unit) cmd" where
  "dispatch e mt m =
     (if mt = MT_LOGON then handle_logon e m
      else if mt = MT_HEARTBEAT \<or> mt = MT_REJECT then handle_plain_admin e m
      else if mt = MT_TEST_REQUEST then handle_test_request e m
      else if mt = MT_RESEND_REQUEST then handle_resend_request e m
      else if mt = MT_SEQUENCE_RESET then handle_sequence_reset e m
      else if mt = MT_LOGOUT then handle_logout e m
      else handle_app_message e m)"

definition dictionary_reject :: "('st, 'ap) env \<Rightarrow> message \<Rightarrow> reject_error option" where
  "dictionary_reject e m =
     (case (if is_admin m then en_admin_dictionary e else en_dictionary e) of
        None \<Rightarrow> None
      | Some dd \<Rightarrow> validate (en_chrono e) dd m (cfg_validation (en_cfg e)))"

definition process :: "('st, 'ap) env \<Rightarrow> message \<Rightarrow> (('st, 'ap) session, bytes, unit) cmd" where
  "process e m =
     (case msg_type m of
        Inl _ \<Rightarrow> event ''Message without MsgType ignored''
      | Inr mt \<Rightarrow>
          if get_raw BEGIN_STRING (header m) \<noteq> Some (the_begin e) then
            (let got = (case get_raw BEGIN_STRING (header m) of Some v \<Rightarrow> from_utf8_lossy v | None \<Rightarrow> [])
             in thn (discard (incr_target_op e))
               (thn (discard (initiate_logout e (''Incorrect BeginString ('' @ got @ '')'')))
                    (raise ''incorrect BeginString'')))
          else case dictionary_reject e m of
            Some rej \<Rightarrow> discard (send_reject e m rej)
          | None \<Rightarrow> dispatch e mt m)"

definition contains_field :: "bytes \<Rightarrow> bytes \<Rightarrow> bool" where
  "contains_field raw field \<longleftrightarrow> prefix field raw \<or> find_bytes (SOH # field) raw \<noteq> None"

definition bt_remove :: "u64 \<Rightarrow> 'v btree \<Rightarrow> 'v btree" where
  "bt_remove k m = filter (\<lambda>(k', _). k' \<noteq> k) m"

definition replay :: "('st, 'ap) env \<Rightarrow> u64 \<Rightarrow> bytes \<Rightarrow> (('st, 'ap) session, bytes, unit) cmd" where
  "replay e expected raw =
     thn (modify (\<lambda>s. s\<lparr>se_stash := bt_remove expected (se_stash s)\<rparr>))
    (thn (event (''Processing queued message: '' @ dec_nat expected))
    (thn (modify (\<lambda>s. s\<lparr>se_last_processed_was_queued := True\<rparr>))
         (if contains_field raw ''35=A'' \<or> contains_field raw ''35=2'' then incr_target e
          else case message_parse raw False of
            Ok m \<Rightarrow> process e m
          | Err _ \<Rightarrow> incr_target e
          | Panic \<Rightarrow> (\<lambda>s. (Unwind, s)))))"

primrec drain_stash :: "('st, 'ap) env \<Rightarrow> nat \<Rightarrow> (('st, 'ap) session, bytes, unit) cmd" where
  "drain_stash e 0 = look (\<lambda>s.
     case map_of (se_stash s) (next_target e s) of None \<Rightarrow> ret () | Some raw \<Rightarrow> (\<lambda>s. (OutOfFuel, s)))"
| "drain_stash e (Suc n) = look (\<lambda>s.
     case map_of (se_stash s) (next_target e s) of
       None \<Rightarrow> ret ()
     | Some raw \<Rightarrow> thn (replay e (next_target e s) raw) (drain_stash e n))"

text \<open>\<open>if let Err(Disconnect(reason)) = ...\<close>: end the connection and stop, or go on.\<close>

definition or_disconnect ::
  "('st, 'ap) env \<Rightarrow> (('st, 'ap) session, bytes, unit) cmd \<Rightarrow> (('st, 'ap) session, 'e, unit) cmd
     \<Rightarrow> (('st, 'ap) session, 'e, unit) cmd" where
  "or_disconnect e m k =
     bnd (attempt m) (\<lambda>r. case r of Inl reason \<Rightarrow> disconnect e reason | Inr _ \<Rightarrow> k)"

definition on_garbled :: "('st, 'ap) env \<Rightarrow> bytes \<Rightarrow> error \<Rightarrow> (('st, 'ap) session, 'e, unit) cmd" where
  "on_garbled e raw er =
     thn (event (''Invalid message: '' @ error_display er))
    (bnd (gets se_received_logon) (\<lambda>logged_on.
     whenM (\<not> logged_on \<and> contains_field raw ''35=A'') (disconnect e ''garbled logon'')))"

definition on_inbound :: "('st, 'ap) env \<Rightarrow> nat \<Rightarrow> bytes \<Rightarrow> (('st, 'ap) session, 'e, unit) cmd" where
  "on_inbound e fuel raw =
     thn (modify (\<lambda>s. s\<lparr>se_log := se_log s @ [LogIncoming raw]\<rparr>))
         (case message_parse raw (cfg_validate_length_checksum (en_cfg e)) of
            Panic \<Rightarrow> (\<lambda>s. (Unwind, s))
          | Err er \<Rightarrow> on_garbled e raw er
          | Ok m \<Rightarrow>
              thn (case seq_num m of Inr seq \<Rightarrow> modify (\<lambda>s. s\<lparr>se_last_received_seq := seq\<rparr>) | Inl _ \<Rightarrow> ret ())
                  (or_disconnect e (process e m)
                    (thn (modify (\<lambda>s. s\<lparr>se_last_processed_was_queued := False\<rparr>))
                         (or_disconnect e (drain_stash e fuel) (check_resend_chunks e)))))"

end
