(* ===== verification/Session_Run.thy ===== *)
theory Session_Run
  imports Session_Inbound
begin

text \<open>
  \<open>src/session.rs\<close>, fourth part: the timers, the commands of a session's handle and the run loop,
  as a step relation. A step is one iteration of the \<open>select!\<close>: a command, a frame, the end of the
  inbound channel, the schedule tick or the protocol timer.

  An \<open>Instant\<close> is a number of nanoseconds on the monotonic clock; adding a duration to it panics
  past the largest instant. \<open>mul\<close> multiplies through floating point; the model multiplies exactly
  (tenths), which is what the factors 2.4 and 1.2 stand for, and panics as \<open>from_secs_f64\<close> does when the
  product is no duration.
\<close>

section \<open>Timers\<close>

definition max_instant :: nat where
  "max_instant = secs (2 ^ 63)"

definition max_duration :: nat where
  "max_duration = secs (2 ^ 64)"

definition instant_add :: "nat \<Rightarrow> nat \<Rightarrow> (unit, nat) res" where
  "instant_add t d = (if t + d < max_instant then Ok (t + d) else Panic)"

definition mul_tenths :: "nat \<Rightarrow> nat \<Rightarrow> (unit, nat) res" where
  "mul_tenths d k = (if d * k div 10 < max_duration then Ok (d * k div 10) else Panic)"

definition test_factor :: "('st, 'ap) session \<Rightarrow> nat" where
  "test_factor s = 12 * ((se_test_request_counter s + 1) mod 2 ^ 32)"

definition next_protocol_deadline :: "('st, 'ap) env \<Rightarrow> ('st, 'ap) session \<Rightarrow> (unit, nat option) res" where
  "next_protocol_deadline e s =
     (if \<not> is_connected s then Ok None
      else if se_sent_logout s then
        res_bind (instant_add (se_last_sent s) (cfg_logout_timeout (en_cfg e))) (\<lambda>t. Ok (Some t))
      else if \<not> se_received_logon s then
        res_bind (instant_add (se_last_received s) (cfg_logon_timeout (en_cfg e))) (\<lambda>t. Ok (Some t))
      else if se_heart_bt_int s = 0 then Ok None
      else
        res_bind (mul_tenths (se_heart_bt_int s) 24) (\<lambda>d1.
        res_bind (instant_add (se_last_received s) d1) (\<lambda>t1.
        res_bind (mul_tenths (se_heart_bt_int s) (test_factor s)) (\<lambda>d2.
        res_bind (instant_add (se_last_received s) d2) (\<lambda>t2.
          if se_test_request_counter s = 0 then
            res_bind (instant_add (se_last_sent s) (se_heart_bt_int s)) (\<lambda>t3. Ok (Some (min (min t1 t2) t3)))
          else Ok (Some (min t1 t2)))))))"

definition test_request_message :: message where
  "test_request_message = set_body TEST_REQ_ID ''TEST'' (with_type MT_TEST_REQUEST)"

definition lift_res :: "(unit, 'a) res \<Rightarrow> ('s, 'e, 'a) cmd" where
  "lift_res r s = (case r of Ok a \<Rightarrow> (Done a, s) | Err _ \<Rightarrow> (Unwind, s) | Panic \<Rightarrow> (Unwind, s))"

definition bump_test_counter :: "('st, 'ap) session \<Rightarrow> ('st, 'ap) session" where
  "bump_test_counter s = s\<lparr>se_test_request_counter := (se_test_request_counter s + 1) mod 2 ^ 32\<rparr>"

definition heartbeat_timers :: "('st, 'ap) env \<Rightarrow> (('st, 'ap) session, 'e, unit) cmd" where
  "heartbeat_timers e = look (\<lambda>s.
     let since_sent = en_now e - se_last_sent s;
         since_recv = en_now e - se_last_received s;
         hbi = se_heart_bt_int s
     in if hbi = 0 then ret ()
        else bnd (lift_res (mul_tenths hbi 24)) (\<lambda>d1.
          if d1 \<le> since_recv then
            thn (whenM (cfg_send_logout_before_disconnect_from_timeout (en_cfg e))
                   (discard (initiate_logout e [])))
                (disconnect e ''Timed out waiting for heartbeat'')
          else bnd (lift_res (mul_tenths hbi (test_factor s))) (\<lambda>d2.
            if d2 \<le> since_recv then
              thn (modify bump_test_counter) (discard (send_message e test_request_message))
            else if hbi \<le> since_sent \<and> se_test_request_counter s = 0 then
              discard (send_message e (with_type MT_HEARTBEAT))
            else ret ())))"

definition on_protocol_deadline :: "('st, 'ap) env \<Rightarrow> (('st, 'ap) session, 'e, unit) cmd" where
  "on_protocol_deadline e = look (\<lambda>s.
     if \<not> is_connected s then ret ()
     else if se_sent_logout s then
       whenM (cfg_logout_timeout (en_cfg e) \<le> en_now e - se_last_sent s)
         (disconnect e ''Timed out waiting for logout response'')
     else if \<not> se_received_logon s then
       whenM (cfg_logon_timeout (en_cfg e) \<le> en_now e - se_last_received s)
         (disconnect e ''Timed out waiting for logon'')
     else heartbeat_timers e)"

section \<open>The schedule tick\<close>

definition logout_and_disconnect :: "('st, 'ap) env \<Rightarrow> bytes \<Rightarrow> (('st, 'ap) session, 'e, unit) cmd" where
  "logout_and_disconnect e reason =
     bnd (gets is_connected) (\<lambda>conn.
     whenM conn
       (bnd (gets (\<lambda>s. is_logged_on s \<and> \<not> se_sent_logout s)) (\<lambda>on.
        thn (whenM on (discard (initiate_logout e [])))
            (disconnect e reason))))"

definition send_logon_or_disconnect :: "('st, 'ap) env \<Rightarrow> (('st, 'ap) session, 'e, unit) cmd" where
  "send_logon_or_disconnect e = or_disconnect e (send_logon e) (ret ())"

definition logon_window_closed :: "('st, 'ap) env \<Rightarrow> (('st, 'ap) session, 'e, unit) cmd" where
  "logon_window_closed e =
     bnd (gets (\<lambda>s. is_connected s \<and> is_logged_on s \<and> \<not> se_sent_logout s
                    \<and> \<not> is_in_range (en_cals e) (cfg_logon_schedule (en_cfg e)) (en_utc e))) (\<lambda>expired.
     whenM expired
       (thn (event ''Logon time expired, initiating logout'') (discard (initiate_logout e []))))"

definition deferred_logon :: "('st, 'ap) env \<Rightarrow> (('st, 'ap) session, 'e, unit) cmd" where
  "deferred_logon e =
     bnd (gets (\<lambda>s. se_pending_logon s \<and> is_connected s \<and> \<not> se_sent_logon s
                    \<and> is_in_range (en_cals e) (cfg_logon_schedule (en_cfg e)) (en_utc e))) (\<lambda>due.
     whenM due
       (thn (modify (\<lambda>s. s\<lparr>se_pending_logon := False\<rparr>)) (send_logon_or_disconnect e)))"

definition on_schedule_tick :: "('st, 'ap) env \<Rightarrow> (('st, 'ap) session, 'e, unit) cmd" where
  "on_schedule_tick e =
     (if sch_non_stop (cfg_schedule (en_cfg e)) then ret ()
      else if \<not> is_in_range (en_cals e) (cfg_schedule (en_cfg e)) (en_utc e)
      then logout_and_disconnect e ''Outside session time''
      else bnd (gets (\<lambda>s. is_in_same_range (en_cals e) (cfg_schedule (en_cfg e)) (en_utc e)
                            (so_creation_time (en_ops e) (se_store s)))) (\<lambda>same.
        if \<not> same then
          thn (event ''New session instance; resetting sequence numbers'')
         (thn (logout_and_disconnect e ''Session time boundary crossed'')
              (discard (store_reset e)))
        else thn (logon_window_closed e) (deferred_logon e)))"

section \<open>Attaching a connection\<close>

definition attach_state :: "('st, 'ap) env \<Rightarrow> bool \<Rightarrow> bool \<Rightarrow> ('st, 'ap) session \<Rightarrow> ('st, 'ap) session" where
  "attach_state e closed signal s =
     s\<lparr>se_inbound := True, se_outbound := Some \<lparr>out_sent = [], out_closed = closed\<rparr>,
       se_disconnected_tx := signal, se_last_sent := en_now e, se_last_received := en_now e,
       se_test_request_counter := 0\<rparr>"

definition initiator_logon :: "('st, 'ap) env \<Rightarrow> (('st, 'ap) session, 'e, unit) cmd" where
  "initiator_logon e =
     thn (whenM (cfg_reset_on_logon (en_cfg e)) (discard (store_reset e)))
    (thn (whenM (cfg_refresh_on_logon (en_cfg e)) (discard (store_refresh e)))
         (if is_in_range (en_cals e) (cfg_logon_schedule (en_cfg e)) (en_utc e)
          then send_logon_or_disconnect e
          else thn (modify (\<lambda>s. s\<lparr>se_pending_logon := True\<rparr>))
                   (event ''Connected outside logon time; deferring logon'')))"

definition on_attach :: "('st, 'ap) env \<Rightarrow> bool \<Rightarrow> bool \<Rightarrow> (('st, 'ap) session, 'e, unit) cmd" where
  "on_attach e closed signal =
     bnd (gets is_connected) (\<lambda>conn.
       if conn then event ''Rejecting connection attempt: session already connected''
       else thn (modify (attach_state e closed signal))
           (thn (event ''Connection established'')
                (whenM (is_initiator e) (initiator_logon e))))"

section \<open>Commands and the run loop\<close>

datatype command =
    CmdSend message
  | CmdAttach bool bool
  | CmdLogout
  | CmdStatus
  | CmdSetSeqNums "u64 option" "u64 option"
  | CmdStop "bytes list"
  | CmdDropped

record session_status =
  ss_connected :: bool
  ss_logged_on :: bool
  ss_next_sender :: u64
  ss_next_target :: u64

datatype reply = NoReply | ReplyResult "error + unit" | ReplyStatus session_status | ReplyStopped

definition status_of :: "('st, 'ap) env \<Rightarrow> ('st, 'ap) session \<Rightarrow> session_status" where
  "status_of e s =
     \<lparr>ss_connected = is_connected s, ss_logged_on = is_logged_on s,
      ss_next_sender = next_sender e s, ss_next_target = next_target e s\<rparr>"

definition opt_set ::
  "(u64 \<Rightarrow> 'st \<Rightarrow> (error, unit) res \<times> 'st) \<Rightarrow> u64 option \<Rightarrow> (('st, 'ap) session, 'e, error + unit) cmd" where
  "opt_set op n = (case n of None \<Rightarrow> ret (Inr ()) | Some k \<Rightarrow> attempt (on_store (op k)))"

definition set_seq_nums ::
  "('st, 'ap) env \<Rightarrow> u64 option \<Rightarrow> u64 option \<Rightarrow> (('st, 'ap) session, 'e, error + unit) cmd" where
  "set_seq_nums e sender target =
     bnd (opt_set (so_set_sender (en_ops e)) sender) (\<lambda>r1.
     bnd (opt_set (so_set_target (en_ops e)) target) (\<lambda>r2.
       ret (case r1 of Inl er \<Rightarrow> Inl er | Inr _ \<Rightarrow> r2)))"

text \<open>
  After the logout of a stop, the frames that still arrive before the deadline are handled while
  the session is connected; the list is what the channel delivers in that time.
\<close>

fun stop_loop :: "('st, 'ap) env \<Rightarrow> nat \<Rightarrow> bytes list \<Rightarrow> (('st, 'ap) session, 'e, unit) cmd" where
  "stop_loop e fuel [] = ret ()"
| "stop_loop e fuel (raw # raws) =
     bnd (gets is_connected) (\<lambda>conn.
     whenM conn (thn (on_inbound e fuel raw) (stop_loop e fuel raws)))"

definition on_stop :: "('st, 'ap) env \<Rightarrow> nat \<Rightarrow> bytes list \<Rightarrow> (('st, 'ap) session, 'e, unit) cmd" where
  "on_stop e fuel raws =
     bnd (gets is_logged_on) (\<lambda>on.
     thn (whenM on (thn (discard (initiate_logout e [])) (stop_loop e fuel raws)))
         (disconnect e ''session stopped''))"

fun run_command :: "('st, 'ap) env \<Rightarrow> nat \<Rightarrow> command \<Rightarrow> (('st, 'ap) session, 'e, reply) cmd" where
  "run_command e fuel (CmdSend m) = bnd (attempt (send_message e m)) (\<lambda>r. ret (ReplyResult r))"
| "run_command e fuel (CmdAttach closed signal) = thn (on_attach e closed signal) (ret NoReply)"
| "run_command e fuel CmdLogout =
     bnd (gets is_logged_on) (\<lambda>on.
     thn (whenM on (discard (initiate_logout e []))) (ret NoReply))"
| "run_command e fuel CmdStatus = bnd (gets (status_of e)) (\<lambda>st. ret (ReplyStatus st))"
| "run_command e fuel (CmdSetSeqNums sender target) =
     bnd (set_seq_nums e sender target) (\<lambda>r. ret (ReplyResult r))"
| "run_command e fuel (CmdStop raws) = thn (on_stop e fuel raws) (ret ReplyStopped)"
| "run_command e fuel CmdDropped = thn (disconnect e ''engine dropped'') (ret ReplyStopped)"

datatype input =
    InCommand command
  | InFrame bytes
  | InClosed
  | InScheduleTick
  | InProtocolTimer

text \<open>Which branches of the \<open>select!\<close> can be taken.\<close>

fun enabled :: "('st, 'ap) env \<Rightarrow> ('st, 'ap) session \<Rightarrow> input \<Rightarrow> bool" where
  "enabled e s (InFrame raw) \<longleftrightarrow> se_inbound s"
| "enabled e s InClosed \<longleftrightarrow> se_inbound s"
| "enabled e s InProtocolTimer \<longleftrightarrow>
     (case next_protocol_deadline e s of Ok (Some t) \<Rightarrow> t \<le> en_now e | _ \<Rightarrow> False)"
| "enabled e s _ \<longleftrightarrow> True"

fun run_input :: "('st, 'ap) env \<Rightarrow> nat \<Rightarrow> input \<Rightarrow> (('st, 'ap) session, 'e, reply) cmd" where
  "run_input e fuel (InCommand c) = run_command e fuel c"
| "run_input e fuel (InFrame raw) = thn (on_inbound e fuel raw) (ret NoReply)"
| "run_input e fuel InClosed = thn (disconnect e ''connection closed by peer'') (ret NoReply)"
| "run_input e fuel InScheduleTick = thn (on_schedule_tick e) (ret NoReply)"
| "run_input e fuel InProtocolTimer = thn (on_protocol_deadline e) (ret NoReply)"

definition at_time :: "nat \<Rightarrow> time \<Rightarrow> ('st, 'ap) env \<Rightarrow> ('st, 'ap) env" where
  "at_time now utc e = e\<lparr>en_now := now, en_utc := utc\<rparr>"

text \<open>
  The states a session goes through: spawned, then one enabled input after another, each at its own
  time. The deadline is computed at the top of every iteration, so an iteration in which that
  unwinds does not happen.
\<close>

inductive reachable :: "('st, 'ap) env \<Rightarrow> 'st \<Rightarrow> 'ap \<Rightarrow> ('st, 'ap) session \<Rightarrow> bool"
  for e :: "('st, 'ap) env" and store :: 'st and app :: 'ap
where
  spawn: "reachable e store app (session_spawn (at_time now utc e) store app)"
| step: "reachable e store app s \<Longrightarrow>
     next_protocol_deadline (at_time now utc e) s \<noteq> Panic \<Longrightarrow>
     enabled (at_time now utc e) s inp \<Longrightarrow>
     (run_input (at_time now utc e) fuel inp :: (('st, 'ap) session, unit, reply) cmd) s = (Done r, s') \<Longrightarrow>
     reachable e store app s'"

inductive_cases reachable_cases: "reachable e store app s"

end
