(* ===== verification/Session_Steps.thy ===== *)
theory Session_Steps
  imports Session_Run
begin

text \<open>
  Relations between states that every handler keeps. A handler is built from a few primitive
  steps: updates of single fields, operations of the store and callbacks of the application. A
  relation kept by the primitives is kept by the handlers: by everything that sends (locale
  \<open>transmit_relation\<close>, and with rejects \<open>sending_relation\<close>), by everything that receives (\<open>receiving_relation\<close>), and by the whole run loop
  (\<open>session_relation\<close>), where the handling of application messages is a step of its own, for
  relations that are about deliveries. A relation that does not care about deliveries gets that
  from the callback (\<open>uniform_relation\<close>).
\<close>

lemma msg_type_admin:
  assumes "msg_type m = Inr mt"
  shows "is_admin m = is_admin_type mt" "type_or_empty m = mt"
  using assms
  by (auto simp: msg_type_def get_string_def fm_get_def is_admin_def decode_string_def type_or_empty_def
      split: option.splits if_splits)

text \<open>What a command can return, whatever state it starts in.\<close>

definition yields :: "('a \<Rightarrow> bool) \<Rightarrow> ('s, 'e, 'a) cmd \<Rightarrow> bool" where
  "yields P m \<longleftrightarrow> (\<forall>s a. fst (m s) = Done a \<longrightarrow> P a)"

lemma yieldsD: "yields P m \<Longrightarrow> m s = (Done a, t) \<Longrightarrow> P a"
  by (metis fst_conv yields_def)

lemma yields_ret: "P a \<Longrightarrow> yields P (ret a)"
  by (simp add: yields_def ret_def)

lemma yields_raise: "yields P (raise x)"
  by (simp add: yields_def raise_def)

lemma yields_bnd: "(\<And>a. yields P (f a)) \<Longrightarrow> yields P (bnd m f)"
  by (auto simp: yields_def bnd_def split: prod.splits outcome.splits)

lemma yields_thn: "yields P k \<Longrightarrow> yields P (thn m k)"
  unfolding thn_def by (rule yields_bnd)

lemma yields_bnd_of: "yields Q m \<Longrightarrow> (\<And>a. Q a \<Longrightarrow> yields P (f a)) \<Longrightarrow> yields P (bnd m f)"
  by (auto simp: yields_def bnd_def split: prod.splits outcome.splits) (metis fst_conv)

lemmas yields_intros = yields_ret yields_raise yields_thn

lemma too_low_stops: "yields (\<lambda>fl. fl = StopFlow) (on_target_too_low e m seq expected)"
  unfolding on_target_too_low_def Let_def by (auto intro!: yields_intros split: option.splits)

lemma verify_seq_stops: "yields (\<lambda>r. r = None \<or> r = Some StopFlow) (verify_seq e m h l)"
proof -
  have low: "yields (\<lambda>r. r = None \<or> r = Some StopFlow) (bnd (on_target_too_low e m n x) (\<lambda>fl. ret (Some fl)))" for n x
    by (rule yields_bnd_of [OF too_low_stops]) (simp add: yields_ret)
  show ?thesis
    unfolding verify_seq_def
    by (auto intro!: yields_intros yields_bnd low split: sum.splits)
qed

lemma seq_num_bound: "seq_num m = Inr n \<Longrightarrow> n < 2 ^ 64"
  by (auto simp: seq_num_def fm_get_def split: option.splits dest: decode_u64_bound)

section \<open>Sending\<close>

locale transmit_relation = step_relation R
  for R :: "('st, 'ap) session \<Rightarrow> ('st, 'ap) session \<Rightarrow> bool" +
  fixes e :: "('st, 'ap) env"
  assumes up_log: "R s (s\<lparr>se_log := se_log s @ [l]\<rparr>)"
    and up_push: "R s (push_out raw (en_now e) s)"
    and up_disconnect: "R s (disconnect_state s)"
    and up_sent_logon: "R s (s\<lparr>se_sent_reset := b, se_sent_logon := True\<rparr>)"
    and up_sent_logout: "R s (s\<lparr>se_sent_logout := True\<rparr>)"
    and up_heart_bt_int: "R s (s\<lparr>se_heart_bt_int := n\<rparr>)"
    and up_range: "R s (s\<lparr>se_resend_range := Some (begin', n, resend_chunk_end e begin' n)\<rparr>)"
    and up_range_done: "R s (s\<lparr>se_resend_range := None\<rparr>)"
    and st_save: "R s (s\<lparr>se_store := snd (save_message_and_incr (en_ops e) n raw (se_store s))\<rparr>)"
    and st_incr_sender: "R s (s\<lparr>se_store := snd (so_incr_sender (en_ops e) (se_store s))\<rparr>)"
    and st_get: "R s (s\<lparr>se_store := snd (so_get (en_ops e) b' n (se_store s))\<rparr>)"
    and st_reset: "R s (s\<lparr>se_store := snd (so_reset (en_ops e) (en_utc e) (se_store s))\<rparr>)"
    and ap_logout: "R s (s\<lparr>se_app := ap_on_logout (en_application e) (the_sid e) (se_app s)\<rparr>)"
    and ap_admin: "R s (s\<lparr>se_app := snd (ap_to_admin (en_application e) m (the_sid e) (se_app s))\<rparr>)"
    and ap_app: "R s (s\<lparr>se_app := snd (ap_to_app (en_application e) m (the_sid e) (se_app s))\<rparr>)"
begin

lemma keepsD: "keeps R m \<Longrightarrow> R s (snd (m s))"
  by (simp add: keeps_def)

lemma keeps_store: "(\<And>s. R s (s\<lparr>se_store := snd (op (se_store s))\<rparr>)) \<Longrightarrow> keeps R (on_store op)"
  by (auto simp: keeps_def on_store_def split: prod.splits) (metis snd_conv)

lemma keeps_updates:
  "keeps R (event t)" "keeps R (modify (\<lambda>s. s\<lparr>se_log := se_log s @ [l]\<rparr>))"
  "keeps R (modify (push_out raw (en_now e)))" "keeps R (modify disconnect_state)"
  "keeps R (modify (\<lambda>s. s\<lparr>se_sent_reset := f s, se_sent_logon := True\<rparr>))"
  "keeps R (modify (\<lambda>s. s\<lparr>se_sent_logout := True\<rparr>))"
  "keeps R (modify (\<lambda>s. s\<lparr>se_resend_range := Some (begin', n, resend_chunk_end e begin' n)\<rparr>))"
  "keeps R (modify (\<lambda>s. s\<lparr>se_resend_range := None\<rparr>))"
  unfolding event_def
  by (intro keeps_modify up_log up_push up_disconnect up_sent_logon up_sent_logout up_range up_range_done)+

lemma keeps_adopt_heart_bt_int: "keeps R (modify (adopt_heart_bt_int e h))"
  by (intro keeps_modify) (simp add: adopt_heart_bt_int_def up_heart_bt_int refl split: option.splits)

lemma keeps_stores:
  "keeps R (persist e n raw)" "keeps R (on_store (so_get (en_ops e) b n))"
  "keeps R (store_reset e)"
  unfolding persist_def store_reset_def
  by (intro keeps_store keeps_if st_save st_incr_sender st_get st_reset)+

lemma keeps_calls:
  "keeps R (call_on_logout e)" "keeps R (call_to_admin e m)" "keeps R (call_to_app e m)"
  using ap_logout ap_admin [of _ m] ap_app [of _ m]
  by (auto simp: keeps_def call_on_logout_def call_to_admin_def call_to_app_def modify_def
      split: prod.splits) (metis snd_conv)+

lemma keeps_unwind: "keeps R (\<lambda>s. (Unwind, s))" "keeps R (\<lambda>s. (OutOfFuel, s))" "keeps R (lift_res r)"
  by (simp_all add: keeps_def refl lift_res_def split: res.splits)

lemmas keeps_rules = keeps_intros keeps_updates keeps_adopt_heart_bt_int keeps_stores keeps_calls keeps_unwind

lemma keeps_disconnect: "keeps R (disconnect e reason)"
  unfolding disconnect_def by (intro keeps_rules)

lemma keeps_transmit: "keeps R (transmit e raw)"
  unfolding transmit_def by (auto intro!: keeps_rules keeps_disconnect split: option.splits)

lemma keeps_send_message: "keeps R (send_message e m)"
  unfolding send_message_def run_to_callback_def Let_def
  by (auto intro!: keeps_rules keeps_transmit split: sum.splits option.splits)

lemmas keeps_sending = keeps_rules keeps_disconnect keeps_transmit keeps_send_message

lemma keeps_replies:
  "keeps R (initiate_logout e reason)" "keeps R (send_resend_request e b r)"
  "keeps R (send_gap_fill e b n)" "keeps R (send_logon_reply e h)" "keeps R (send_logon e)"
  unfolding initiate_logout_def send_resend_request_def send_gap_fill_def send_logon_reply_def send_logon_def Let_def
  by (auto intro!: keeps_sending)

lemma keeps_check_resend_chunks: "keeps R (check_resend_chunks e)"
  unfolding check_resend_chunks_def
  by (auto intro!: keeps_sending keeps_replies split: option.splits)

lemma keeps_close_gap: "keeps R (close_gap e g n)"
  unfolding close_gap_def by (auto intro!: keeps_rules keeps_replies split: option.splits)

lemma keeps_retransmit_loop: "keeps R (retransmit_loop e stored g seqs)"
proof (induction seqs arbitrary: g)
  case (Cons seq seqs)
  then show ?case by (auto intro!: keeps_sending keeps_close_gap split: res.splits option.splits)
qed (auto intro!: keeps_rules)

lemma keeps_answer_resend: "keeps R (answer_resend e b n)"
  unfolding answer_resend_def retransmit_def
  by (auto intro!: keeps_sending keeps_replies keeps_retransmit_loop keeps_close_gap split: sum.splits)

lemma keeps_if_continue: "keeps R v \<Longrightarrow> keeps R k \<Longrightarrow> keeps R (if_continue v k)"
  unfolding if_continue_def by (auto intro!: keeps_rules split: flow.splits)

lemma keeps_or_disconnect: "keeps R m \<Longrightarrow> keeps R k \<Longrightarrow> keeps R (or_disconnect e m k)"
  unfolding or_disconnect_def by (auto intro!: keeps_rules keeps_disconnect split: sum.splits)

end

text \<open>Rejects also consume the number of the message they reject.\<close>

locale sending_relation = transmit_relation R e
  for R :: "('st, 'ap) session \<Rightarrow> ('st, 'ap) session \<Rightarrow> bool" and e :: "('st, 'ap) env" +
  assumes st_incr_target: "R s (s\<lparr>se_store := snd (so_incr_target (en_ops e) (se_store s))\<rparr>)"
begin

lemma keeps_incr_target: "keeps R (incr_target_op e)"
  unfolding incr_target_op_def by (intro keeps_store st_incr_target)

lemma keeps_rejects:
  "keeps R (send_reject e m rej)" "keeps R (send_business_reject e m)"
  unfolding send_reject_def send_business_reject_def Let_def
  by (auto intro!: keeps_sending keeps_incr_target)

lemmas keeps_sends = keeps_replies keeps_rejects keeps_incr_target

lemma keeps_on_target_too_low: "keeps R (on_target_too_low e m seq expected)"
  unfolding on_target_too_low_def Let_def
  by (auto intro!: keeps_sending keeps_sends split: option.splits)

end

section \<open>Receiving\<close>

locale receiving_relation = sending_relation R e
  for R :: "('st, 'ap) session \<Rightarrow> ('st, 'ap) session \<Rightarrow> bool" and e :: "('st, 'ap) env" +
  assumes up_stash: "R s (s\<lparr>se_stash := bt_insert seq raw (se_stash s)\<rparr>)"
    and up_stash_range: "R s (s\<lparr>se_stash := bt_insert seq raw (se_stash s), se_resend_range := Some (b', n', n')\<rparr>)"
    and up_stash_filter: "R s (s\<lparr>se_stash := filter (\<lambda>(k, _). P k) (se_stash s)\<rparr>)"
    and up_received_logon: "R s (s\<lparr>se_received_logon := True\<rparr>)"
    and up_received_reset: "R s (s\<lparr>se_received_reset := True\<rparr>)"
    and up_resets_clear: "R s (s\<lparr>se_sent_reset := False, se_received_reset := False\<rparr>)"
    and up_pending: "R s (s\<lparr>se_pending_logon := b\<rparr>)"
    and up_queued: "R s (s\<lparr>se_last_processed_was_queued := b\<rparr>)"
    and up_heard: "R s (s\<lparr>se_last_received := n, se_test_request_counter := 0\<rparr>)"
    and up_bump: "R s (bump_test_counter s)"
    and up_last_seq: "n < 2 ^ 64 \<Longrightarrow> R s (s\<lparr>se_last_received_seq := n\<rparr>)"
    and up_attach: "R s (attach_state e closed signal s)"
    and st_refresh: "R s (s\<lparr>se_store := snd (so_refresh (en_ops e) (en_utc e) (se_store s))\<rparr>)"
    and st_advance: "next_target e s < n \<Longrightarrow> R s (s\<lparr>se_store := snd (so_set_target (en_ops e) n (se_store s))\<rparr>)"
    and ap_logon: "R s (s\<lparr>se_app := ap_on_logon (en_application e) (the_sid e) (se_app s)\<rparr>)"
    and ap_from: "is_admin m \<Longrightarrow>
      R s (s\<lparr>se_app := snd (ap_from_admin (en_application e) m (the_sid e) (se_app s))\<rparr>)"
begin

lemma keeps_receiving_updates:
  "keeps R (modify (\<lambda>s. s\<lparr>se_stash := bt_insert seq raw (se_stash s)\<rparr>))"
  "keeps R (modify (\<lambda>s. s\<lparr>se_stash := bt_insert seq raw (se_stash s), se_resend_range := Some (b', n', n')\<rparr>))"
  "keeps R (modify (\<lambda>s. s\<lparr>se_stash := filter (\<lambda>(k, _). P k) (se_stash s)\<rparr>))"
  "keeps R (modify (\<lambda>s. s\<lparr>se_stash := bt_remove k' (se_stash s)\<rparr>))"
  "keeps R (modify (\<lambda>s. s\<lparr>se_received_logon := True\<rparr>))"
  "keeps R (modify (\<lambda>s. s\<lparr>se_received_reset := True\<rparr>))"
  "keeps R (modify (\<lambda>s. s\<lparr>se_sent_reset := False, se_received_reset := False\<rparr>))"
  "keeps R (modify (\<lambda>s. s\<lparr>se_pending_logon := b\<rparr>))"
  "keeps R (modify (\<lambda>s. s\<lparr>se_last_processed_was_queued := b\<rparr>))"
  "keeps R (modify (\<lambda>s. s\<lparr>se_last_received := n, se_test_request_counter := 0\<rparr>))"
  "keeps R (modify bump_test_counter)" "keeps R (modify (attach_state e closed signal))"
  "keeps R (call_on_logon e)" "keeps R (store_refresh e)"
  unfolding bt_remove_def call_on_logon_def store_refresh_def
  by (intro keeps_modify keeps_store up_stash up_stash_range up_stash_filter up_received_logon up_received_reset
      up_resets_clear up_pending up_queued up_heard up_bump up_attach ap_logon st_refresh)+

lemmas keeps_receiving = keeps_sending keeps_sends keeps_receiving_updates

lemma keeps_gets_state: "(\<And>s. R s (snd (k (f s) s))) \<Longrightarrow> keeps R (bnd (gets f) k)"
  by (simp add: keeps_def bnd_def gets_def)

lemma keeps_on_target_too_high: "keeps R (on_target_too_high e m seq expected)"
  unfolding on_target_too_high_def by (auto intro!: keeps_receiving)

lemma keeps_verify_seq: "keeps R (verify_seq e m h l)"
  unfolding verify_seq_def
  by (auto intro!: keeps_sending keeps_sends keeps_on_target_too_high keeps_on_target_too_low split: sum.splits)

lemma keeps_call_from: "is_admin m \<Longrightarrow> keeps R (call_from e m)"
  using ap_from [of m] by (auto simp: keeps_def call_from_def split: prod.splits) (metis snd_conv)

lemma keeps_verify_from:
  "keeps R (call_from e m :: (('st, 'ap) session, bytes, application_error option) cmd) \<Longrightarrow>
     keeps R (verify e m h l)"
  unfolding verify_def run_from_callback_def
  by (auto intro!: keeps_receiving keeps_verify_seq split: option.splits application_error.splits)

lemma keeps_verify: "is_admin m \<Longrightarrow> keeps R (verify e m h l)"
  by (intro keeps_verify_from keeps_call_from)

lemmas keeps_handling = keeps_receiving keeps_verify keeps_if_continue keeps_answer_resend

lemma keeps_plain_handlers:
  "is_admin m \<Longrightarrow> keeps R (handle_plain_admin e m)"
  "is_admin m \<Longrightarrow> keeps R (handle_test_request e m)"
  "is_admin m \<Longrightarrow> keeps R (handle_resend_request e m)"
  "is_admin m \<Longrightarrow> keeps R (handle_logout e m)"
  "is_admin m \<Longrightarrow> keeps R (handle_app_message e m)"
  unfolding handle_plain_admin_def handle_app_message_def handle_test_request_def handle_resend_request_def handle_logout_def incr_target_def
  by (auto intro!: keeps_handling)

lemma keeps_set_target:
  assumes "next_target e s < n"
  shows "R s (snd (map_err h (on_store (so_set_target (en_ops e) n)) s))"
  using st_advance [OF assms] by (auto simp: map_err_def on_store_def split: prod.splits res.splits)

text \<open>The part of a sequence reset that moves the expected number, and only forward.\<close>

lemma keeps_new_seq:
  fixes n :: u64 and k :: "(('st, 'ap) session, bytes, unit) cmd"
  assumes "keeps R k" and "\<And>x. keeps R (other x)"
  shows "keeps R (bnd (gets (next_target e)) (\<lambda>expected.
     thn (event msg) (if expected < n then thn (map_err h (on_store (so_set_target (en_ops e) n))) k else other expected)))"
  (is "keeps R (bnd _ ?body)")
proof (rule keeps_gets_state)
  fix s :: "('st, 'ap) session"
  let ?t = "s\<lparr>se_log := se_log s @ [LogEvent msg]\<rparr>"
  let ?set = "map_err h (on_store (so_set_target (en_ops e) n)) :: (('st, 'ap) session, bytes, unit) cmd"
  have t: "R s ?t" "next_target e ?t = next_target e s" by (simp_all add: up_log next_target_def)
  show "R s (snd (?body (next_target e s) s))"
  proof (cases "next_target e s < n")
    case True
    obtain r u where u: "?set ?t = (r, u)" by (cases "?set ?t")
    have "R s u" using t keeps_set_target [of ?t n h] True u by (metis snd_conv trans)
    moreover have "R u (snd (k u))" by (rule keepsD [OF assms(1)])
    ultimately show ?thesis using True u
      by (auto simp: thn_def bnd_def event_def modify_def split: outcome.splits intro: trans)
  next
    case False
    have "keeps R (thn (event msg) (other (next_target e s)))"
      by (intro keeps_rules assms(2))
    from keepsD [OF this, of s] False show ?thesis by simp
  qed
qed

lemma keeps_handle_sequence_reset:
  assumes "is_admin m"
  shows "keeps R (handle_sequence_reset e m)"
  unfolding handle_sequence_reset_def Let_def
  by (intro keeps_if_continue keeps_verify assms)
     (auto intro!: keeps_receiving keeps_new_seq split: option.splits)

lemma keeps_accept_logon: "keeps R (accept_logon e m)"
  unfolding accept_logon_def read_next_expected_def reply_to_logon_def logon_sequence_def finish_logon_def
    incr_target_def Let_def
  by (auto intro!: keeps_handling keeps_on_target_too_high split: option.splits sum.splits)

lemma keeps_handle_logon: "is_admin m \<Longrightarrow> keeps R (handle_logon e m)"
  unfolding handle_logon_def logon_reset_def acceptor_prepare_def
  by (auto intro!: keeps_handling keeps_accept_logon)

lemma verify_seq_in_order:
  assumes "verify_seq e m True True s = (Done None, t)" and "type_or_empty m \<noteq> MT_SEQUENCE_RESET"
  shows "t = s \<and> seq_num m = Inr (next_target e s)"
proof (cases "seq_num m")
  case (Inl c)
  then have "yields (\<lambda>r. r \<noteq> None) (verify_seq e m True True)"
    by (simp add: verify_seq_def yields_thn yields_ret)
  from yieldsD [OF this assms(1)] show ?thesis by simp
next
  case (Inr n)
  have no: "yields (\<lambda>r. r \<noteq> None) (thn (on_target_too_high e m n x) (ret (Some StopFlow)))"
    "yields (\<lambda>r. r \<noteq> None) (bnd (on_target_too_low e m n x) (\<lambda>fl. ret (Some fl)))" for x
    by (auto intro!: yields_intros yields_bnd)
  consider "next_target e s < n" | "n < next_target e s" | "n = next_target e s" by linarith
  then show ?thesis
  proof cases
    case 1
    with Inr assms(1) have "thn (on_target_too_high e m n (next_target e s)) (ret (Some StopFlow)) s = (Done None, t)"
      by (simp add: verify_seq_def bnd_def [of "gets _"] gets_def)
    from yieldsD [OF no(1) this] show ?thesis by simp
  next
    case 2
    with Inr assms have "bnd (on_target_too_low e m n (next_target e s)) (\<lambda>fl. ret (Some fl)) s = (Done None, t)"
      by (simp add: verify_seq_def bnd_def [of "gets _"] gets_def)
    from yieldsD [OF no(2) this] show ?thesis by simp
  next
    case 3
    with Inr assms show ?thesis by (simp add: verify_seq_def bnd_def gets_def ret_def)
  qed
qed

lemma stop_after:
  assumes "keeps R c"
  shows "fst (thn c (ret StopFlow) s) \<noteq> Done Continue \<and> R s (snd (thn c (ret StopFlow) s))"
  using keepsD [OF assms, of s] by (auto simp: thn_def bnd_def ret_def split: prod.splits outcome.splits)

lemma thn_assoc: "thn c (thn d k) = thn (thn c d) k"
  by (auto simp: thn_def bnd_def fun_eq_iff split: prod.splits outcome.splits)

text \<open>
  A message that passes the checks reaches the callback in a state in which its number is the
  expected one, when both sequence checks are on.
\<close>

lemma verify_callback:
  "(fst (verify e m h l s) \<noteq> Done Continue \<and> R s (snd (verify e m h l s)))
    \<or> (\<exists>s1. R s s1 \<and> verify e m h l s = run_from_callback e m s1
         \<and> (h \<longrightarrow> l \<longrightarrow> type_or_empty m \<noteq> MT_SEQUENCE_RESET \<longrightarrow> seq_num m = Inr (next_target e s1)))"
proof -
  have rej: "keeps R (discard (send_reject e m r))"
    "keeps R (thn (discard (send_reject e m r)) (discard (initiate_logout e [])))" for r
    by (intro keeps_rules keeps_sends)+
  consider (state) "\<not> valid_logon_state s (type_or_empty m)"
    | (time) "valid_logon_state s (type_or_empty m)" "get_time e SENDING_TIME m = None"
    | (late) st where "valid_logon_state s (type_or_empty m)" "get_time e SENDING_TIME m = Some st"
        "cfg_check_latency (en_cfg e) \<and> too_late e st"
    | (ids) st where "valid_logon_state s (type_or_empty m)" "get_time e SENDING_TIME m = Some st"
        "\<not> (cfg_check_latency (en_cfg e) \<and> too_late e st)" "cfg_check_comp_id (en_cfg e) \<and> \<not> comp_ids_ok e m"
    | (seq) st where "valid_logon_state s (type_or_empty m)" "get_time e SENDING_TIME m = Some st"
        "\<not> (cfg_check_latency (en_cfg e) \<and> too_late e st)" "\<not> (cfg_check_comp_id (en_cfg e) \<and> \<not> comp_ids_ok e m)"
    by (cases "get_time e SENDING_TIME m") blast+
  then show ?thesis
  proof cases
    case state
    then show ?thesis by (simp add: verify_def bnd_def gets_def raise_def refl)
  next
    case time
    then show ?thesis using stop_after [OF rej(1)] by (intro disjI1) (simp add: verify_def bnd_def gets_def)
  next
    case late
    then show ?thesis using stop_after [OF rej(2)] by (intro disjI1) (simp add: verify_def bnd_def gets_def thn_assoc)
  next
    case ids
    then show ?thesis using stop_after [OF rej(2)] by (intro disjI1) (auto simp: verify_def bnd_def gets_def thn_assoc)
  next
    case seq
    obtain r t where vs: "verify_seq e m h l s = (r, t)" by (cases "verify_seq e m h l s")
    have st: "R s t" using keepsD [OF keeps_verify_seq, of s m h l] vs by simp
    let ?t = "t\<lparr>se_last_received := en_now e, se_test_request_counter := 0\<rparr>"
    have v: "verify e m h l s = (case r of Done None \<Rightarrow> run_from_callback e m ?t | Done (Some fl) \<Rightarrow> (Done fl, t)
        | Fail er \<Rightarrow> (Fail er, t) | Unwind \<Rightarrow> (Unwind, t) | OutOfFuel \<Rightarrow> (OutOfFuel, t))"
      using seq vs by (auto simp: verify_def bnd_def gets_def thn_def ret_def modify_def split: outcome.splits option.splits)
    show ?thesis
    proof (cases "r = Done None")
      case True
      have "R s ?t" using st by (rule trans) (simp add: up_heard)
      moreover have "next_target e ?t = next_target e t" by (simp add: next_target_def)
      ultimately show ?thesis
        using v True vs verify_seq_in_order [of m s t] by (intro disjI2 exI [of _ ?t]) auto
    next
      case False
      then have "r \<noteq> Done (Some Continue)" using yieldsD [OF verify_seq_stops, of e m h l s] vs by auto
      with False v st show ?thesis by (intro disjI1) (cases r; auto split: option.splits)
    qed
  qed
qed

end

section \<open>Dispatch\<close>

text \<open>With the handling of application messages added, the relation is kept by the whole run loop.\<close>

locale session_relation = receiving_relation R e
  for R :: "('st, 'ap) session \<Rightarrow> ('st, 'ap) session \<Rightarrow> bool" and e :: "('st, 'ap) env" +
  assumes app_message: "\<not> is_admin m \<Longrightarrow> type_or_empty m \<noteq> MT_SEQUENCE_RESET \<Longrightarrow> R s (snd (handle_app_message e m s))"
begin

lemma keeps_app_message: "\<not> is_admin m \<Longrightarrow> type_or_empty m \<noteq> MT_SEQUENCE_RESET \<Longrightarrow> keeps R (handle_app_message e m)"
  by (simp add: keeps_def app_message)

lemma keeps_dispatch:
  assumes "msg_type m = Inr mt"
  shows "keeps R (dispatch e mt m)"
proof (cases "is_admin_type mt")
  case True
  then have "is_admin m" using msg_type_admin [OF assms] by simp
  with True show ?thesis
    unfolding dispatch_def
    by (intro keeps_if keeps_handle_logon keeps_plain_handlers keeps_handle_sequence_reset)
next
  case False
  then have "keeps R (handle_app_message e m)"
    using msg_type_admin [OF assms] by (intro keeps_app_message) (auto simp: is_admin_type_def)
  with False show ?thesis by (simp add: dispatch_def is_admin_type_def)
qed

lemma keeps_process: "keeps R (process e m)"
  unfolding process_def Let_def
  by (auto intro!: keeps_sending keeps_sends keeps_dispatch split: option.splits sum.splits)

lemma keeps_replay: "keeps R (replay e expected raw)"
  unfolding replay_def incr_target_def
  by (auto intro!: keeps_receiving keeps_process split: res.splits)

lemma keeps_drain_stash: "keeps R (drain_stash e fuel)"
  by (induction fuel) (auto intro!: keeps_rules keeps_replay split: option.splits)

lemma keeps_last_seq:
  "keeps R (case seq_num m of Inr seq \<Rightarrow> modify (\<lambda>s. s\<lparr>se_last_received_seq := seq\<rparr>) | Inl _ \<Rightarrow> ret ())"
proof (cases "seq_num m")
  case (Inr n)
  then show ?thesis using up_last_seq [OF seq_num_bound [OF Inr]] by (simp add: keeps_modify)
qed (simp add: keeps_ret)

lemma keeps_on_inbound: "keeps R (on_inbound e fuel raw)"
  unfolding on_inbound_def on_garbled_def
  by (auto intro!: keeps_receiving keeps_or_disconnect keeps_process keeps_drain_stash keeps_check_resend_chunks
      keeps_last_seq split: res.splits)

section \<open>Timers and commands\<close>

lemma keeps_on_protocol_deadline: "keeps R (on_protocol_deadline e)"
  unfolding on_protocol_deadline_def heartbeat_timers_def Let_def
  by (auto intro!: keeps_receiving)

lemma keeps_on_schedule_tick: "keeps R (on_schedule_tick e)"
  unfolding on_schedule_tick_def logout_and_disconnect_def logon_window_closed_def deferred_logon_def
    send_logon_or_disconnect_def
  by (auto intro!: keeps_receiving keeps_or_disconnect)

lemma keeps_on_attach: "keeps R (on_attach e closed signal)"
  unfolding on_attach_def initiator_logon_def send_logon_or_disconnect_def
  by (auto intro!: keeps_receiving keeps_or_disconnect)

lemma keeps_stop_loop: "keeps R (stop_loop e fuel raws)"
  by (induction raws) (auto intro!: keeps_rules keeps_on_inbound)

lemma keeps_run_input:
  assumes "\<And>sender target. inp \<noteq> InCommand (CmdSetSeqNums sender target)"
  shows "keeps R (run_input e fuel inp)"
proof (cases inp)
  case (InCommand c)
  with assms show ?thesis
    by (cases c) (auto intro!: keeps_sending keeps_sends keeps_on_attach keeps_stop_loop simp: on_stop_def)
qed (auto intro!: keeps_sending keeps_on_inbound keeps_on_schedule_tick keeps_on_protocol_deadline)

end

section \<open>Relations that ignore deliveries\<close>

locale uniform_relation = receiving_relation R e
  for R :: "('st, 'ap) session \<Rightarrow> ('st, 'ap) session \<Rightarrow> bool" and e :: "('st, 'ap) env" +
  assumes ap_from_app: "R s (s\<lparr>se_app := snd (ap_from_app (en_application e) m (the_sid e) (se_app s))\<rparr>)"
    and st_set_sender: "R s (s\<lparr>se_store := snd (so_set_sender (en_ops e) n (se_store s))\<rparr>)"
    and st_set_target: "R s (s\<lparr>se_store := snd (so_set_target (en_ops e) n (se_store s))\<rparr>)"
begin

lemma keeps_call_from_app: "keeps R (call_from e m)"
  using ap_from_app [of _ m] ap_from [of m]
  by (auto simp: keeps_def call_from_def split: prod.splits) (metis snd_conv)+

lemma uniform_app_message: "keeps R (handle_app_message e m)"
  unfolding handle_app_message_def incr_target_def
  by (auto intro!: keeps_handling keeps_verify_from keeps_call_from_app)

end

sublocale uniform_relation \<subseteq> session_relation
  by unfold_locales (rule keepsD [OF uniform_app_message])

context uniform_relation
begin

lemma keeps_set_seq_nums: "keeps R (set_seq_nums e sender target)"
  unfolding set_seq_nums_def opt_set_def
  by (auto intro!: keeps_rules keeps_store st_set_sender st_set_target split: option.splits)

lemma keeps_every_input: "keeps R (run_input e fuel inp)"
proof (cases "\<exists>sender target. inp = InCommand (CmdSetSeqNums sender target)")
  case True
  then show ?thesis by (auto intro!: keeps_rules keeps_set_seq_nums)
next
  case False
  then show ?thesis by (intro keeps_run_input) blast
qed

end

end
