(* ===== verification/Session_Sample.thy ===== *)
theory Session_Sample
  imports Session_Run
begin

text \<open>
  A concrete session for the examples: the acceptor side of \<open>FIX.4.4:SRV->CLI\<close> with the default
  settings, the in-memory store, the channel application, no dictionary, and a clock that stands
  still at the epoch.
\<close>

definition sample_chrono :: chrono where
  "sample_chrono =
     \<lparr>ch_format = (\<lambda>_ _. ''19700101-00:00:00.000''), ch_parse = (\<lambda>_ _. Some 0), ch_date_ok = (\<lambda>_ _. True)\<rparr>"

definition sample_cfg :: session_config where
  "sample_cfg =
     \<lparr>cfg_session_id = session_id_new ''FIX.4.4'' ''SRV'' ''CLI'', cfg_connection_type = Acceptor,
      cfg_heart_bt_int = secs 30, cfg_heart_bt_int_override = None, cfg_socket_connect_host = [],
      cfg_socket_connect_port = 0, cfg_socket_accept_port = 5001, cfg_reconnect_interval = secs 30,
      cfg_logon_timeout = secs 10, cfg_logout_timeout = secs 2, cfg_reset_on_logon = False,
      cfg_reset_on_logout = False, cfg_reset_on_disconnect = False, cfg_refresh_on_logon = False,
      cfg_send_reset_seq_num_flag = False, cfg_persist_messages = True, cfg_check_comp_id = True,
      cfg_check_latency = True, cfg_max_latency = secs 120, cfg_send_redundant_resend_requests = False,
      cfg_timestamp_precision = Millis, cfg_validate_length_checksum = True,
      cfg_use_data_dictionary = False, cfg_data_dictionary = None, cfg_transport_data_dictionary = None,
      cfg_app_data_dictionary = None, cfg_validation = validation_default,
      cfg_enable_last_msg_seq_num_processed = False, cfg_max_messages_in_resend_request = 0,
      cfg_send_logout_before_disconnect_from_timeout = False, cfg_requires_orig_sending_time = True,
      cfg_send_next_expected_msg_seq_num = False,
      cfg_tls = \<lparr>tls_enabled = False, tls_certificate_file = None, tls_private_key_file = None,
         tls_ca_file = None, tls_insecure_skip_verify = False, tls_server_name = None\<rparr>,
      cfg_schedule = schedule_non_stop, cfg_logon_schedule = schedule_non_stop,
      cfg_file_store_path = None, cfg_file_log_path = None, cfg_default_appl_ver_id = None\<rparr>"

definition sample_env :: "(memory_store, session_event list) env" where
  "sample_env =
     \<lparr>en_cfg = sample_cfg, en_ops = memory_ops, en_application = channel_application,
      en_dictionary = None, en_admin_dictionary = None, en_chrono = sample_chrono,
      en_cals = utc_only, en_now = 0, en_utc = 0\<rparr>"

definition fresh_session :: "(memory_store, session_event list) session" where
  "fresh_session = session_spawn sample_env (memory_store_new 0) []"

definition attached_session :: "(memory_store, session_event list) session" where
  "attached_session = snd (on_attach sample_env False True fresh_session :: (unit, unit) outcome \<times> _)"

lemma sample_simps [simp]:
  "en_ops sample_env = memory_ops" "en_application sample_env = channel_application"
  "en_chrono sample_env = sample_chrono" "en_dictionary sample_env = None"
  "en_admin_dictionary sample_env = None" "en_cfg sample_env = sample_cfg"
  "en_now sample_env = 0" "en_utc sample_env = 0"
  by (simp_all add: sample_env_def)

lemma at_time_sample: "at_time 0 0 sample_env = sample_env"
  by (simp add: at_time_def sample_env_def)

text \<open>The rules that evaluate a handler on a concrete state.\<close>

lemmas cmd_defs = ret_def raise_def bnd_def thn_def modify_def gets_def look_def discard_def map_err_def
  attempt_def whenM_def on_store_def event_def incr_target_op_def store_reset_def store_refresh_def

lemma attached_session_eq:
  "attached_session = fresh_session\<lparr>se_inbound := True, se_outbound := Some \<lparr>out_sent = [], out_closed = False\<rparr>,
     se_disconnected_tx := True, se_log := [LogEvent ''Connection established'']\<rparr>"
  by (simp add: attached_session_def on_attach_def cmd_defs is_connected_def is_initiator_def attach_state_def
      fresh_session_def session_spawn_def sample_cfg_def)

lemma attached_reachable: "reachable sample_env (memory_store_new 0) [] attached_session"
proof -
  have s0: "reachable sample_env (memory_store_new 0) [] fresh_session"
    using reachable.spawn [of sample_env "memory_store_new 0" "[]" 0 0]
    by (simp add: fresh_session_def at_time_sample)
  have "next_protocol_deadline sample_env fresh_session \<noteq> Panic"
    by (simp add: next_protocol_deadline_def is_connected_def fresh_session_def session_spawn_def)
  moreover have "(run_input sample_env 0 (InCommand (CmdAttach False True)) fresh_session
      :: (unit, reply) outcome \<times> _) = (Done NoReply, attached_session)"
    by (simp add: attached_session_def on_attach_def cmd_defs is_connected_def is_initiator_def
        fresh_session_def session_spawn_def sample_cfg_def)
  ultimately show ?thesis
    using reachable.step [OF s0, of 0 0 "InCommand (CmdAttach False True)" 0 NoReply attached_session]
    by (simp add: at_time_sample)
qed

end
