(* ===== verification/Session_Invariant.thy ===== *)
theory Session_Invariant
  imports Session_Steps Session_Sample
begin

text \<open>
  The invariant of every state a session can reach, for any store, application, dictionaries,
  configuration and interleaving of inputs. It is proved once per primitive step of the
  handlers, as an interpretation of \<open>uniform_relation\<close>.
\<close>

section \<open>The invariant\<close>

definition session_inv :: "('st, 'ap) session \<Rightarrow> bool" where
  "session_inv s \<longleftrightarrow>
     (se_inbound s \<longleftrightarrow> is_connected s)
     \<and> bt_ok (se_stash s)
     \<and> se_test_request_counter s < 2 ^ 32
     \<and> se_last_received_seq s < 2 ^ 64
     \<and> (case se_resend_range s of None \<Rightarrow> True | Some (b, full_end, chunk_end) \<Rightarrow> chunk_end \<le> full_end)"

definition inv_step :: "('st, 'ap) session \<Rightarrow> ('st, 'ap) session \<Rightarrow> bool" where
  "inv_step s s' \<longleftrightarrow> (session_inv s \<longrightarrow> session_inv s')"

lemma resend_chunk_end_le: "resend_chunk_end e b full_end \<le> full_end"
  by (simp add: resend_chunk_end_def Let_def)

text \<open>
  Every primitive step keeps the invariant: most do not touch what it is about, and the others
  are the updates of the connection, the stash, the resend range and the counters.
\<close>

lemma bt_ok_Nil: "bt_ok []"
  by (simp add: bt_ok_def)

interpretation inv: uniform_relation "inv_step :: ('st, 'ap) session \<Rightarrow> ('st, 'ap) session \<Rightarrow> bool" e
  for e :: "('st, 'ap) env"
  by unfold_locales (simp_all add: inv_step_def session_inv_def is_connected_def bt_ok_filter bump_test_counter_def
      push_out_def disconnect_state_def attach_state_def resend_chunk_end_le bt_ok_Nil split: option.splits)

section \<open>Reachable states\<close>

lemma session_inv_spawn: "session_inv (session_spawn e store app)"
  by (simp add: session_inv_def session_spawn_def is_connected_def bt_ok_def)

text \<open>
  C3. In every state a session can reach, for any store, application, dictionaries and any order
  of commands, frames, ticks and timers: the inbound and the outbound half of the connection are
  attached together, the stash is ordered without duplicates, the counters are within their
  widths, and a resend range in progress has its current chunk inside the full range.
\<close>

theorem reachable_session_inv:
  assumes "reachable e store app s"
  shows "session_inv s"
  using assms
proof (induction rule: reachable.induct)
  case (spawn now utc)
  show ?case by (rule session_inv_spawn)
next
  case (step s now utc inp fuel r s')
  have "inv_step s (snd (run_input (at_time now utc e) fuel inp s :: (unit, reply) outcome \<times> _))"
    by (rule inv.keepsD [OF inv.keeps_every_input])
  with step.hyps(4) step.IH show ?case by (simp add: inv_step_def)
qed

theorem reachable_session_inv_witness: "session_inv attached_session"
  by (rule reachable_session_inv [OF attached_reachable])

end
