(* ===== verification/Session_Send.thy ===== *)
theory Session_Send
  imports Session_Invariant
begin

text \<open>
  What \<open>send_message\<close> guarantees: numbering, persistence before transmission, and what an error
  leaves behind. The laws of the store come from \<open>message_store\<close>; the contract of an application
  that lets outgoing messages pass is the locale \<open>passive_application\<close>.
\<close>

section \<open>Applications that let messages pass\<close>

locale passive_application =
  fixes ap :: "'ap application"
  assumes to_admin: "ap_to_admin ap m sid a = (m, a)"
    and to_app: "ap_to_app ap m sid a = (Some m, a)"
begin

lemma callback:
  "en_application e = ap \<Longrightarrow> run_to_callback e m s = (Done m, s)"
  by (simp add: run_to_callback_def call_to_admin_def call_to_app_def to_admin to_app bnd_def ret_def)

end

interpretation default_app: passive_application default_application
  by unfold_locales (simp_all add: default_application_def)

interpretation channel_app: passive_application channel_application
  by unfold_locales (simp_all add: channel_application_def default_application_def)

section \<open>The header of a sent message\<close>

lemma get_raw_set_header [simp]:
  "get_raw u (header (set_header t v m)) = (if u = t then Some v else get_raw u (header m))"
  by (simp add: set_header_def)

lemma set_header_body [simp]: "body (set_header t v m) = body m" "trailer (set_header t v m) = trailer m"
  by (simp_all add: set_header_def)

lemma set_body_header [simp]: "header (set_body t v m) = header m"
  by (simp add: set_body_def)

lemma get_raw_set_body [simp]:
  "get_raw u (body (set_body t v m)) = (if u = t then Some v else get_raw u (body m))"
  by (simp add: set_body_def)

lemma get_raw_drop_header [simp]:
  "get_raw u (header (drop_header t m)) = (if u = t then None else get_raw u (header m))"
  by (simp add: drop_header_def)

lemma drop_header_body [simp]: "body (drop_header t m) = body m"
  by (simp add: drop_header_def)

lemma canonical_header [simp]: "header (canonical e m) = header m"
  by (simp add: canonical_def canonicalize_body_def split: option.splits sum.splits)

lemma set_unless_empty_header [simp]:
  "get_raw u (header (set_unless_empty t v m)) = (if u = t \<and> v \<noteq> [] then Some v else get_raw u (header m))"
  by (simp add: set_unless_empty_def)

lemma set_unless_empty_body [simp]: "body (set_unless_empty t v m) = body m"
  by (simp add: set_unless_empty_def)

lemmas header_tag_defs = BEGIN_STRING_def SENDER_COMP_ID_def TARGET_COMP_ID_def SENDER_SUB_ID_def
  SENDER_LOCATION_ID_def TARGET_SUB_ID_def TARGET_LOCATION_ID_def MSG_SEQ_NUM_def SENDING_TIME_def
  LAST_MSG_SEQ_NUM_PROCESSED_def POSS_DUP_FLAG_def ORIG_SENDING_TIME_def MSG_TYPE_def

lemma fill_header_get:
  "get_raw MSG_SEQ_NUM (header (fill_header e s m)) = Some (encode_u64 (next_sender e s))"
  "get_raw MSG_TYPE (header (fill_header e s m)) = get_raw MSG_TYPE (header m)"
  "get_raw POSS_DUP_FLAG (header (fill_header e s m)) = get_raw POSS_DUP_FLAG (header m)"
  "get_raw ORIG_SENDING_TIME (header (fill_header e s m)) = get_raw ORIG_SENDING_TIME (header m)"
  "get_raw BEGIN_STRING (header (fill_header e s m)) = Some (the_begin e)"
  "get_raw SENDER_COMP_ID (header (fill_header e s m)) = Some (sid_sender_comp_id (the_sid e))"
  "get_raw TARGET_COMP_ID (header (fill_header e s m)) = Some (sid_target_comp_id (the_sid e))"
  "get_raw SENDING_TIME (header (fill_header e s m)) = Some (encode_timestamp (en_chrono e) (now_stamp e))"
  "body (fill_header e s m) = body m"
  by (simp_all add: fill_header_def Let_def stamp_sending_time_def header_tag_defs)

lemmas fill_header_num [simp] = fill_header_get [unfolded header_tag_defs]

lemma prepare_get:
  "get_raw MSG_SEQ_NUM (header (prepare e s m)) = Some (encode_u64 (next_sender e s))"
  "get_raw MSG_TYPE (header (prepare e s m)) = get_raw MSG_TYPE (header m)"
  "get_raw POSS_DUP_FLAG (header (prepare e s m)) = None"
  "get_raw ORIG_SENDING_TIME (header (prepare e s m)) = None"
  "get_raw BEGIN_STRING (header (prepare e s m)) = Some (the_begin e)"
  "get_raw SENDER_COMP_ID (header (prepare e s m)) = Some (sid_sender_comp_id (the_sid e))"
  "get_raw TARGET_COMP_ID (header (prepare e s m)) = Some (sid_target_comp_id (the_sid e))"
  "get_raw SENDING_TIME (header (prepare e s m)) = Some (encode_timestamp (en_chrono e) (now_stamp e))"
  "body (prepare e s m) = body m"
  by (simp_all add: prepare_def header_tag_defs)

lemmas prepare_num [simp] = prepare_get [unfolded header_tag_defs]

lemma seq_num_get:
  "get_raw MSG_SEQ_NUM (header m) = Some (encode_u64 n) \<Longrightarrow> n < 2 ^ 63 \<Longrightarrow> seq_num m = Inr n"
  by (simp add: seq_num_def fm_get_def decode_u64_encode)

lemma type_or_empty_cong:
  "get_raw MSG_TYPE (header m) = get_raw MSG_TYPE (header m') \<Longrightarrow> type_or_empty m = type_or_empty m'"
  by (simp add: type_or_empty_def msg_type_def get_string_def fm_get_def)

section \<open>One message\<close>

text \<open>The frame a message becomes when nothing interferes.\<close>

definition outgoing :: "('st, 'ap) env \<Rightarrow> ('st, 'ap) session \<Rightarrow> message \<Rightarrow> message" where
  "outgoing e s m = canonical e (prepare e s m)"

definition can_transmit :: "('st, 'ap) session \<Rightarrow> bool" where
  "can_transmit s \<longleftrightarrow>
     se_sent_logon s \<and> (case se_outbound s of Some out \<Rightarrow> \<not> out_closed out | None \<Rightarrow> False)"

definition after_transmit :: "('st, 'ap) env \<Rightarrow> bytes \<Rightarrow> ('st, 'ap) session \<Rightarrow> ('st, 'ap) session" where
  "after_transmit e raw s = push_out raw (en_now e) (s\<lparr>se_log := se_log s @ [LogOutgoing raw]\<rparr>)"

lemma transmit_open:
  "se_outbound s = Some out \<Longrightarrow> \<not> out_closed out \<Longrightarrow>
    transmit e raw s = (Done (), after_transmit e raw s)"
  by (simp add: transmit_def after_transmit_def cmd_defs)

definition persist_op :: "('st, 'ap) env \<Rightarrow> u64 \<Rightarrow> bytes \<Rightarrow> 'st \<Rightarrow> (error, unit) res \<times> 'st" where
  "persist_op e seq raw =
     (if cfg_persist_messages (en_cfg e) then save_message_and_incr (en_ops e) seq raw
      else so_incr_sender (en_ops e))"

lemma persist_eq: "persist e seq raw = on_store (persist_op e seq raw)"
  by (simp add: persist_def persist_op_def)

lemma outgoing_seq: "next_sender e s < 2 ^ 63 \<Longrightarrow> seq_num (outgoing e s m) = Inr (next_sender e s)"
  by (rule seq_num_get) (simp_all add: outgoing_def)

lemma send_message_done:
  assumes "passive_application (en_application e)" and "next_sender e s < 2 ^ 63" and "can_transmit s"
    and "persist_op e (next_sender e s) (to_bytes (outgoing e s m)) (se_store s) = (Ok (), st)"
  shows "send_message e m s = (Done (), after_transmit e (to_bytes (outgoing e s m)) (s\<lparr>se_store := st\<rparr>))"
proof -
  from assms(3) obtain out where out: "se_outbound s = Some out" "\<not> out_closed out" "se_sent_logon s"
    by (auto simp: can_transmit_def split: option.splits)
  show ?thesis
    using passive_application.callback [OF assms(1) refl, of "prepare e s m" s] outgoing_seq [OF assms(2), of m]
      assms(4) out transmit_open [of "s\<lparr>se_store := st\<rparr>" out e "to_bytes (outgoing e s m)"]
    by (simp add: send_message_def outgoing_def persist_eq bnd_def thn_def gets_def on_store_def whenM_def Let_def)
qed

lemma send_message_fails:
  assumes "passive_application (en_application e)" and "next_sender e s < 2 ^ 63"
    and "persist_op e (next_sender e s) (to_bytes (outgoing e s m)) (se_store s) = (Err er, st)"
  shows "send_message e m s = (Fail er, s\<lparr>se_store := st\<rparr>)"
  using passive_application.callback [OF assms(1) refl, of "prepare e s m" s] outgoing_seq [OF assms(2), of m] assms(3)
  by (simp add: send_message_def outgoing_def persist_eq bnd_def thn_def gets_def on_store_def Let_def)


lemma mset_canonical: "mset (body (canonical e m)) = mset (body m)"
  by (simp add: canonical_def canonicalize_body_def mset_concat_sort_key segments_concat
      split: option.splits sum.splits)

lemma outgoing_fresh: "\<not> poss_dup (outgoing e s m)" "mset (body (outgoing e s m)) = mset (body m)"
  by (simp_all add: poss_dup_def outgoing_def mset_canonical)

definition sent_frames :: "('st, 'ap) session \<Rightarrow> bytes list" where
  "sent_frames s = (case se_outbound s of None \<Rightarrow> [] | Some out \<Rightarrow> out_sent out)"

lemma after_transmit_simps [simp]:
  "se_store (after_transmit e raw s) = se_store s" "se_app (after_transmit e raw s) = se_app s"
  "se_stash (after_transmit e raw s) = se_stash s" "se_resend_range (after_transmit e raw s) = se_resend_range s"
  "se_sent_logon (after_transmit e raw s) = se_sent_logon s"
  "se_received_logon (after_transmit e raw s) = se_received_logon s"
  "se_sent_logout (after_transmit e raw s) = se_sent_logout s"
  "se_last_received_seq (after_transmit e raw s) = se_last_received_seq s"
  "se_last_received (after_transmit e raw s) = se_last_received s"
  "se_last_sent (after_transmit e raw s) = en_now e"
  "se_heart_bt_int (after_transmit e raw s) = se_heart_bt_int s"
  "se_test_request_counter (after_transmit e raw s) = se_test_request_counter s"
  by (simp_all add: after_transmit_def push_out_def)

lemma can_transmit_after [simp]:
  "can_transmit (after_transmit e raw s) = can_transmit s"
  "can_transmit (s\<lparr>se_store := st\<rparr>) = can_transmit s"
  by (auto simp: can_transmit_def after_transmit_def push_out_def split: option.splits)

lemma sent_frames_after:
  "can_transmit s \<Longrightarrow> sent_frames (after_transmit e raw s) = sent_frames s @ [raw]"
  by (auto simp: sent_frames_def can_transmit_def after_transmit_def push_out_def split: option.splits)

lemma sent_frames_store [simp]: "sent_frames (s\<lparr>se_store := st\<rparr>) = sent_frames s"
  by (simp add: sent_frames_def)

text \<open>The outcome of a send is decided by the store.\<close>

lemma send_message_cases:
  assumes "passive_application (en_application e)" and "next_sender e s < 2 ^ 63" and "can_transmit s"
    and "send_message e m s = (Done (), s')"
  obtains st where "persist_op e (next_sender e s) (to_bytes (outgoing e s m)) (se_store s) = (Ok (), st)"
    and "s' = after_transmit e (to_bytes (outgoing e s m)) (s\<lparr>se_store := st\<rparr>)"
proof -
  obtain r st where p: "persist_op e (next_sender e s) (to_bytes (outgoing e s m)) (se_store s) = (r, st)"
    by (cases "persist_op e (next_sender e s) (to_bytes (outgoing e s m)) (se_store s)")
  show thesis
  proof (cases r)
    case (Ok a)
    with p send_message_done [OF assms(1-3), of m st] assms(4) that show ?thesis by simp
  next
    case (Err er)
    with p send_message_fails [OF assms(1,2), of m er st] assms(4) show ?thesis by simp
  next
    case Panic
    with p assms(4) passive_application.callback [OF assms(1) refl, of "prepare e s m" s] outgoing_seq [OF assms(2), of m]
    show ?thesis
      by (simp add: send_message_def outgoing_def persist_eq bnd_def thn_def gets_def on_store_def Let_def)
  qed
qed

lemma persist_op_laws:
  assumes "message_store (en_ops e) sok msgs" and "sok st" and "n < 2 ^ 64"
    and "persist_op e n raw st = (Ok (), st')"
  shows "sok st' \<and> so_next_sender (en_ops e) st' = u64_add (so_next_sender (en_ops e) st) 1
    \<and> so_next_target (en_ops e) st' = so_next_target (en_ops e) st
    \<and> (if cfg_persist_messages (en_cfg e) then msgs st' \<subseteq>\<^sub>m (msgs st)(n \<mapsto> raw) else msgs st' = msgs st)"
proof (cases "cfg_persist_messages (en_cfg e)")
  case True
  with assms(4) message_store.save_and_incr [OF assms(1-3), of raw st'] show ?thesis
    by (simp add: persist_op_def)
next
  case False
  with assms(4) message_store.incr_sender [OF assms(1,2), of st'] show ?thesis
    by (simp add: persist_op_def)
qed

text \<open>
  C16. A successful send on an open, logged-on connection, for any store that meets its contract:
  the message goes out as one frame under the session's next number, not marked as a possible
  duplicate and with the caller's body fields; the sender number advances by exactly one and the
  expected number not at all; and the store can give back under that number nothing but the frame
  that was sent.
\<close>

theorem send_message_numbered:
  assumes "message_store (en_ops e) sok msgs" and "passive_application (en_application e)"
    and "sok (se_store s)" and "can_transmit s" and "next_sender e s < 2 ^ 63"
    and "cfg_persist_messages (en_cfg e)" and "send_message e m s = (Done (), s')"
  shows "\<exists>wm. sent_frames s' = sent_frames s @ [to_bytes wm]
    \<and> seq_num wm = Inr (next_sender e s) \<and> \<not> poss_dup wm \<and> mset (body wm) = mset (body m)
    \<and> next_sender e s' = next_sender e s + 1 \<and> next_target e s' = next_target e s
    \<and> sok (se_store s')
    \<and> msgs (se_store s') \<subseteq>\<^sub>m (msgs (se_store s))(next_sender e s \<mapsto> to_bytes wm)"
proof -
  let ?wm = "outgoing e s m"
  obtain st where p: "persist_op e (next_sender e s) (to_bytes ?wm) (se_store s) = (Ok (), st)"
    and s': "s' = after_transmit e (to_bytes ?wm) (s\<lparr>se_store := st\<rparr>)"
    by (rule send_message_cases [OF assms(2,5,4,7)])
  have "next_sender e s < 2 ^ 64" using assms(5) by simp
  from persist_op_laws [OF assms(1,3) this p] assms(6)
  have "sok st \<and> so_next_sender (en_ops e) st = u64_add (next_sender e s) 1
      \<and> so_next_target (en_ops e) st = next_target e s
      \<and> msgs st \<subseteq>\<^sub>m (msgs (se_store s))(next_sender e s \<mapsto> to_bytes ?wm)"
    by (simp add: next_sender_def next_target_def)
  moreover have "u64_add (next_sender e s) 1 = next_sender e s + 1" using assms(5) by (simp add: u64_simps)
  ultimately show ?thesis
    using s' outgoing_seq [OF assms(5), of m] outgoing_fresh [of e s m] assms(4)
    by (intro exI [of _ ?wm]) (simp add: sent_frames_after next_sender_def next_target_def)
qed


text \<open>A logged-on session over the in-memory store, used by the examples below.\<close>

definition online_session :: "(memory_store, session_event list) session" where
  "online_session = attached_session\<lparr>se_received_logon := True, se_sent_logon := True\<rparr>"

lemma online_can_transmit: "can_transmit online_session"
  by (simp add: online_session_def attached_session_eq can_transmit_def)

lemma online_frames: "sent_frames online_session = []"
  by (simp add: online_session_def attached_session_eq sent_frames_def)

lemma online_store: "se_store online_session = memory_store_new 0"
  by (simp add: online_session_def attached_session_eq fresh_session_def session_spawn_def)

lemma online_next_sender: "next_sender sample_env online_session = 1"
  by (simp add: next_sender_def online_store memory_ops_def memory_store_new_def)

lemma ms_ok_new: "ms_ok (memory_store_new now)"
  using ms_ok_create [of None now] by (simp add: memory_store_create_def)

lemma memory_persist:
  "en_ops e = memory_ops \<Longrightarrow> cfg_persist_messages (en_cfg e) \<Longrightarrow>
    persist_op e n raw st = (Ok (), (snd (ms_save n raw st))\<lparr>ms_next_sender := u64_add (ms_next_sender st) 1\<rparr>)"
  by (simp add: persist_op_def save_message_and_incr_def memory_ops_def ms_save_def)

lemma online_send:
  "send_message sample_env (with_type ''D'') online_session =
     (Done (), snd (send_message sample_env (with_type ''D'') online_session))"
  using send_message_done [OF _ _ online_can_transmit, of sample_env "with_type ''D''"]
  by (simp add: memory_persist sample_cfg_def online_next_sender channel_app.passive_application_axioms)

theorem send_message_numbered_witness:
  "\<exists>wm. sent_frames (snd (send_message sample_env (with_type ''D'') online_session)) = [to_bytes wm]
     \<and> seq_num wm = Inr 1"
  using send_message_numbered [OF memory.message_store_axioms [folded sample_simps(1)]
      channel_app.passive_application_axioms [folded sample_simps(2)] _ online_can_transmit _ _ online_send]
  by (auto simp: online_store ms_ok_new online_next_sender sample_cfg_def online_frames)

section \<open>Errors\<close>

lemma run_to_callback_frame:
  "run_to_callback e m s = (r, s') \<Longrightarrow> \<exists>ap. s' = s\<lparr>se_app := ap\<rparr>"
  by (auto simp: run_to_callback_def call_to_admin_def call_to_app_def bnd_def ret_def raise_def
      split: if_splits prod.splits option.splits)

lemma transmit_no_fail: "fst (transmit e raw s) \<noteq> Fail er"
proof -
  have "fst (disconnect e r t) \<noteq> Fail er" for r and t
    by (auto simp: disconnect_def call_on_logout_def cmd_defs split: prod.splits res.splits)
  then show ?thesis
    by (auto simp: transmit_def cmd_defs split: option.splits)
qed

text \<open>
  A send that returns an error, for any store and any application, has transmitted nothing and
  touched nothing but the store and the application's own state: the connection, the logon
  flags, the timers, the stash and the resend range are as before.
\<close>

lemma send_message_error_sends_nothing:
  assumes "send_message e m s = (Fail er, s')"
  shows "\<exists>st ap. s' = s\<lparr>se_store := st, se_app := ap\<rparr>"
proof -
  obtain r s1 where cb: "run_to_callback e (prepare e s m) s = (r, s1)"
    by (cases "run_to_callback e (prepare e s m) s")
  from run_to_callback_frame [OF cb] obtain ap where s1: "s1 = s\<lparr>se_app := ap\<rparr>" by blast
  show ?thesis
  proof (cases r)
    case (Done m1)
    show ?thesis
    proof (cases "seq_num (canonical e m1)")
      case (Inl ce)
      with assms cb Done s1 show ?thesis
        by (auto simp: send_message_def bnd_def gets_def raise_def Let_def intro!: exI [of _ "se_store s"] exI [of _ ap])
    next
      case (Inr n)
      let ?raw = "to_bytes (canonical e m1)"
      obtain pr st where p: "persist_op e n ?raw (se_store s) = (pr, st)"
        by (cases "persist_op e n ?raw (se_store s)")
      show ?thesis
        using assms cb Done s1 Inr p transmit_no_fail [of e ?raw "s1\<lparr>se_store := st\<rparr>" er]
        by (cases pr)
          (auto simp: send_message_def bnd_def thn_def gets_def on_store_def persist_eq whenM_def ret_def Let_def
            intro!: exI [of _ st] exI [of _ ap] split: if_splits)
    qed
  qed (use assms cb s1 in \<open>auto simp: send_message_def bnd_def gets_def
        intro!: exI [of _ "se_store s"] exI [of _ ap]\<close>)
qed

text \<open>An application that vetoes every message it is shown.\<close>

definition vetoing_env :: "(memory_store, session_event list) env" where
  "vetoing_env = sample_env\<lparr>en_application := channel_application\<lparr>ap_to_app := (\<lambda>m sid q. (None, q))\<rparr>\<rparr>"

lemma vetoed_send: "send_message vetoing_env (with_type ''D'') online_session = (Fail DoNotSend, online_session)"
proof -
  have "\<not> is_admin (prepare vetoing_env online_session (with_type ''D''))"
    by (simp add: is_admin_def with_type_def is_admin_type_def)
  then have "run_to_callback vetoing_env (prepare vetoing_env online_session (with_type ''D'')) online_session
      = (Fail DoNotSend, online_session)"
    by (simp add: run_to_callback_def call_to_app_def bnd_def raise_def vetoing_env_def)
  then show ?thesis by (simp add: send_message_def bnd_def gets_def)
qed

lemma send_message_error_sends_nothing_witness:
  "\<exists>st ap. online_session = online_session\<lparr>se_store := st, se_app := ap\<rparr>"
  by (rule send_message_error_sends_nothing [OF vetoed_send])


section \<open>A run of messages\<close>

fun send_all :: "('st, 'ap) env \<Rightarrow> message list \<Rightarrow> (('st, 'ap) session, error, unit) cmd" where
  "send_all e [] = ret ()"
| "send_all e (m # ms) = thn (send_message e m) (send_all e ms)"

lemma ms_save_unbounded:
  "ms_capacity st = None \<Longrightarrow> ms_save n raw st = (Ok (), st\<lparr>ms_messages := bt_insert n raw (ms_messages st)\<rparr>)"
  by (simp add: ms_save_def ms_trim_def)

text \<open>What a run of \<open>k\<close> sends does to the store and the connection.\<close>

definition sent_run :: "(memory_store, 'ap) session \<Rightarrow> bytes list \<Rightarrow> (memory_store, 'ap) session \<Rightarrow> bool" where
  "sent_run s raws s' \<longleftrightarrow>
     sent_frames s' = sent_frames s @ raws
     \<and> ms_next_sender (se_store s') = ms_next_sender (se_store s) + length raws
     \<and> ms_next_target (se_store s') = ms_next_target (se_store s)
     \<and> (\<forall>k. map_of (ms_messages (se_store s')) k =
          (if ms_next_sender (se_store s) \<le> k \<and> k < ms_next_sender (se_store s) + length raws
           then Some (raws ! (k - ms_next_sender (se_store s)))
           else map_of (ms_messages (se_store s)) k))"

lemma send_all_run:
  assumes "en_ops e = memory_ops" and "passive_application (en_application e)"
    and "cfg_persist_messages (en_cfg e)"
    and "can_transmit s" and "bt_ok (ms_messages (se_store s))" and "ms_capacity (se_store s) = None"
    and "ms_next_sender (se_store s) + length ms < 2 ^ 63"
  shows "\<exists>wms s'. send_all e ms s = (Done (), s') \<and> length wms = length ms
    \<and> sent_run s (map to_bytes wms) s'
    \<and> (\<forall>i < length ms. seq_num (wms ! i) = Inr (ms_next_sender (se_store s) + i)
         \<and> \<not> poss_dup (wms ! i) \<and> mset (body (wms ! i)) = mset (body (ms ! i)))"
  using assms(4-7)
proof (induction ms arbitrary: s)
  case Nil
  show ?case by (auto simp: ret_def sent_run_def)
next
  case (Cons m ms)
  let ?n = "ms_next_sender (se_store s)" and ?wm = "outgoing e s m"
  have ns: "next_sender e s = ?n" using assms(1) by (simp add: next_sender_def memory_ops_def)
  have small: "next_sender e s < 2 ^ 63" using Cons.prems(4) ns by simp
  let ?st = "(se_store s)\<lparr>ms_messages := bt_insert ?n (to_bytes ?wm) (ms_messages (se_store s)),
                ms_next_sender := ?n + 1\<rparr>"
  let ?s1 = "after_transmit e (to_bytes ?wm) (s\<lparr>se_store := ?st\<rparr>)"
  have p: "persist_op e (next_sender e s) (to_bytes ?wm) (se_store s) = (Ok (), ?st)"
    using memory_persist [OF assms(1,3)] Cons.prems(3,4) ns by (simp add: ms_save_unbounded u64_simps)
  have send: "send_message e m s = (Done (), ?s1)"
    by (rule send_message_done [OF assms(2) small Cons.prems(1) p])
  obtain wms s' where IH: "send_all e ms ?s1 = (Done (), s')" "length wms = length ms"
    "sent_run ?s1 (map to_bytes wms) s'"
    "\<forall>i < length ms. seq_num (wms ! i) = Inr (?n + 1 + i)
         \<and> \<not> poss_dup (wms ! i) \<and> mset (body (wms ! i)) = mset (body (ms ! i))"
    using Cons.IH [of ?s1] Cons.prems by auto
  have "sent_run s (map to_bytes (?wm # wms)) s'"
    using IH(2,3) Cons.prems(1,2) unfolding sent_run_def
    by (auto simp: sent_frames_after map_of_bt_insert nth_Cons' Suc_le_eq)
  moreover have "\<forall>i < length (m # ms). seq_num ((?wm # wms) ! i) = Inr (?n + i)
       \<and> \<not> poss_dup ((?wm # wms) ! i) \<and> mset (body ((?wm # wms) ! i)) = mset (body ((m # ms) ! i))"
    using IH(4) outgoing_seq [OF small, of m] outgoing_fresh [of e s m] ns
    by (auto simp: nth_Cons' less_Suc_eq_0_disj)
  ultimately show ?case
    using send IH(1,2) by (intro exI [of _ "?wm # wms"] exI [of _ s']) (simp add: thn_def bnd_def)
qed

text \<open>
  Sending is gap-free and everything sent can be resent: on an open connection over an
  unbounded in-memory store, any run of sends succeeds, the frames carry consecutive numbers from the
  session's next one, and afterwards the store holds under each of these numbers exactly the
  frame that went out, all other messages unchanged.
\<close>

lemma sends_are_consecutive_and_stored:
  assumes "en_ops e = memory_ops" and "passive_application (en_application e)"
    and "cfg_persist_messages (en_cfg e)"
    and "can_transmit s" and "ms_ok (se_store s)" and "ms_capacity (se_store s) = None"
    and "ms_next_sender (se_store s) + length ms < 2 ^ 63"
  shows "\<exists>wms s'. send_all e ms s = (Done (), s') \<and> length wms = length ms
    \<and> sent_run s (map to_bytes wms) s'
    \<and> (\<forall>i < length ms. seq_num (wms ! i) = Inr (ms_next_sender (se_store s) + i)
         \<and> \<not> poss_dup (wms ! i) \<and> mset (body (wms ! i)) = mset (body (ms ! i)))"
  using send_all_run [OF assms(1-4) _ assms(6,7)] assms(5) by (simp add: ms_ok_def)

lemma sends_are_consecutive_and_stored_witness:
  "\<exists>wms s'. send_all sample_env [with_type ''D'', with_type ''F''] online_session = (Done (), s')
     \<and> sent_run online_session (map to_bytes wms) s' \<and> length wms = length [with_type ''D'', with_type ''F'']"
  using sends_are_consecutive_and_stored [of sample_env online_session "[with_type ''D'', with_type ''F'']"]
    online_can_transmit channel_app.passive_application_axioms ms_ok_new [of 0]
  by (auto simp: online_store memory_store_new_def sample_cfg_def)

end
