(* ===== verification/Session_Resend.thy ===== *)
theory Session_Resend
  imports Session_Send
begin

text \<open>
  Answering a resend request: the frames sent for a range \<open>[begin, end]\<close> tile it. Every number of
  the range is either replayed, marked as a possible duplicate, or lies in exactly one gap
  fill, and the pieces follow each other without a hole or an overlap.
\<close>

section \<open>The specification\<close>

datatype resend_item =
    GapFill u64 u64
  | Replayed u64 message

fun tiles :: "u64 \<Rightarrow> u64 \<Rightarrow> resend_item list \<Rightarrow> bool" where
  "tiles a b [] \<longleftrightarrow> a = b"
| "tiles a b (GapFill x y # items) \<longleftrightarrow> x = a \<and> x < y \<and> tiles y b items"
| "tiles a b (Replayed n m # items) \<longleftrightarrow> n = a \<and> tiles (n + 1) b items"

lemma tiles_bounds: "tiles a b items \<Longrightarrow> a \<le> b \<and> (\<forall>x y. GapFill x y \<in> set items \<longrightarrow> a \<le> x \<and> x < y \<and> y \<le> b)"
  by (induction a b items rule: tiles.induct) fastforce+

lemma tiles_append: "tiles a b xs \<Longrightarrow> tiles b c ys \<Longrightarrow> tiles a c (xs @ ys)"
  by (induction a b xs rule: tiles.induct) auto

fun item_message :: "('st, 'ap) env \<Rightarrow> ('st, 'ap) session \<Rightarrow> resend_item \<Rightarrow> message" where
  "item_message e s (GapFill x y) = gap_fill_message e s x y"
| "item_message e s (Replayed n m) = m"

text \<open>
  Why a number is replayed or not, for stored frames \<open>stored\<close>: a replayed message is the stored
  application message as the application let it pass; a number that is not replayed has no
  stored application message, or the application vetoed it.
\<close>

definition replay_of :: "('st, 'ap) env \<Rightarrow> (u64 \<rightharpoonup> bytes) \<Rightarrow> u64 \<Rightarrow> message option" where
  "replay_of e stored n =
     (case stored n of
        None \<Rightarrow> None
      | Some raw \<Rightarrow>
          (case message_parse raw False of
             Ok m \<Rightarrow> if is_admin m then None else Some (resent e m)
           | Err _ \<Rightarrow> None | Panic \<Rightarrow> None))"

definition replay_justified :: "('st, 'ap) env \<Rightarrow> (u64 \<rightharpoonup> bytes) \<Rightarrow> u64 \<Rightarrow> u64 \<Rightarrow> resend_item list \<Rightarrow> bool" where
  "replay_justified e stored b c items \<longleftrightarrow>
     (\<forall>n m'. Replayed n m' \<in> set items \<longrightarrow>
        b \<le> n \<and> n < c \<and> (\<exists>m a. replay_of e stored n = Some m
          \<and> fst (ap_to_app (en_application e) m (the_sid e) a) = Some m'))
     \<and> (\<forall>n. b \<le> n \<and> n < c \<and> (\<forall>m'. Replayed n m' \<notin> set items) \<longrightarrow>
          replay_of e stored n = None
          \<or> (\<exists>m a. replay_of e stored n = Some m \<and> fst (ap_to_app (en_application e) m (the_sid e) a) = None))"

lemma replay_justified_cong:
  assumes "\<And>n. b \<le> n \<Longrightarrow> n < c \<Longrightarrow> stored n = stored' n" and "replay_justified e stored b c items"
  shows "replay_justified e stored' b c items"
proof -
  have "replay_of e stored n = replay_of e stored' n" if "b \<le> n" "n < c" for n
    using assms(1) [OF that] by (simp add: replay_of_def)
  with assms(2) show ?thesis unfolding replay_justified_def by (metis (no_types, lifting))
qed

section \<open>The fields of gap fills and replayed messages\<close>

lemma gap_fill_fields:
  assumes "x < 2 ^ 63" and "y < 2 ^ 63"
  shows "seq_num (gap_fill_message e s x y) = Inr x" and "poss_dup (gap_fill_message e s x y)"
    "get_ok decode_u64 NEW_SEQ_NO (body (gap_fill_message e s x y)) = Some y"
    "get_raw GAP_FILL_FLAG (body (gap_fill_message e s x y)) = Some ''Y''"
    "get_raw MSG_TYPE (header (gap_fill_message e s x y)) = Some MT_SEQUENCE_RESET"
  using assms
  by (simp_all add: gap_fill_message_def Let_def seq_num_def fm_get_def decode_u64_encode poss_dup_def
      encode_bool_def get_ok_def fm_get_opt_def with_type_def message_new_def)

lemma resent_fields:
  "poss_dup (resent e m)" "seq_num (resent e m) = seq_num m" "body (resent e m) = body m"
  "get_raw MSG_TYPE (header (resent e m)) = get_raw MSG_TYPE (header m)"
  by (simp_all add: resent_def Let_def poss_dup_def seq_num_def fm_get_def stamp_sending_time_def encode_bool_def
      split: option.splits)

lemma gap_fill_message_cong:
  "se_store s = se_store s' \<Longrightarrow> se_last_received_seq s = se_last_received_seq s' \<Longrightarrow>
    gap_fill_message e s x y = gap_fill_message e s' x y"
  by (simp add: gap_fill_message_def fill_header_def next_sender_def Let_def)

section \<open>Steps that only send\<close>

definition is_open :: "('st, 'ap) session \<Rightarrow> bool" where
  "is_open s \<longleftrightarrow> (case se_outbound s of Some out \<Rightarrow> \<not> out_closed out | None \<Rightarrow> False)"

definition push_raws :: "bytes list \<Rightarrow> outbound \<Rightarrow> outbound" where
  "push_raws raws out = out\<lparr>out_sent := out_sent out @ raws\<rparr>"

definition only_sent :: "bytes list \<Rightarrow> ('st, 'ap) session \<Rightarrow> ('st, 'ap) session \<Rightarrow> bool" where
  "only_sent raws s s' \<longleftrightarrow>
     s' = s\<lparr>se_log := se_log s', se_app := se_app s', se_last_sent := se_last_sent s',
            se_outbound := map_option (push_raws raws) (se_outbound s)\<rparr>"

lemma push_raws_Nil [simp]: "map_option (push_raws []) x = x"
  by (cases x) (simp_all add: push_raws_def)

lemma push_raws_append [simp]: "push_raws ys (push_raws xs out) = push_raws (xs @ ys) out"
  by (simp add: push_raws_def)

lemma only_sentI:
  "s' = s\<lparr>se_log := l, se_app := a, se_last_sent := t, se_outbound := map_option (push_raws raws) (se_outbound s)\<rparr> \<Longrightarrow>
    only_sent raws s s'"
  by (simp add: only_sent_def)

lemma only_sent_nothing:
  "only_sent [] s s" "only_sent [] s (s\<lparr>se_log := l\<rparr>)" "only_sent [] s (s\<lparr>se_app := a\<rparr>)"
  by (simp_all add: only_sent_def)

lemma only_sent_trans:
  assumes "only_sent xs s t" and "only_sent ys t u"
  shows "only_sent (xs @ ys) s u"
proof -
  from assms(1) obtain l a r
    where t: "t = s\<lparr>se_log := l, se_app := a, se_last_sent := r, se_outbound := map_option (push_raws xs) (se_outbound s)\<rparr>"
    unfolding only_sent_def by blast
  from assms(2) obtain l' a' r'
    where u: "u = t\<lparr>se_log := l', se_app := a', se_last_sent := r', se_outbound := map_option (push_raws ys) (se_outbound t)\<rparr>"
    unfolding only_sent_def by blast
  from t u show ?thesis
    by (intro only_sentI [where l = l' and a = a' and t = r']) (simp add: option.map_comp comp_def)
qed

lemma only_sent_simps:
  assumes "only_sent raws s s'"
  shows "se_store s' = se_store s" "se_last_received_seq s' = se_last_received_seq s"
    "se_stash s' = se_stash s" "se_resend_range s' = se_resend_range s"
    "is_open s \<Longrightarrow> sent_frames s' = sent_frames s @ raws" "is_open s \<Longrightarrow> is_open s'"
    "next_sender e s' = next_sender e s" "next_target e s' = next_target e s"
proof -
  from assms obtain l a r
    where "s' = s\<lparr>se_log := l, se_app := a, se_last_sent := r, se_outbound := map_option (push_raws raws) (se_outbound s)\<rparr>"
    unfolding only_sent_def by blast
  then show "se_store s' = se_store s" "se_last_received_seq s' = se_last_received_seq s"
    "se_stash s' = se_stash s" "se_resend_range s' = se_resend_range s"
    "is_open s \<Longrightarrow> sent_frames s' = sent_frames s @ raws" "is_open s \<Longrightarrow> is_open s'"
    "next_sender e s' = next_sender e s" "next_target e s' = next_target e s"
    by (auto simp: sent_frames_def is_open_def next_sender_def next_target_def push_raws_def split: option.splits)
qed

lemma transmit_only_sent:
  assumes "is_open s"
  obtains s' where "(transmit e raw s :: ('e, unit) outcome \<times> _) = (Done (), s')" and "only_sent [raw] s s'"
proof -
  from assms obtain out where o': "se_outbound s = Some out" "\<not> out_closed out"
    by (auto simp: is_open_def split: option.splits)
  have "only_sent [raw] s (after_transmit e raw s)"
    using o' by (intro only_sentI [where l = "se_log s @ [LogOutgoing raw]" and a = "se_app s" and t = "en_now e"])
      (simp add: after_transmit_def push_out_def push_raws_def)
  with transmit_open [OF o'] show thesis by (rule that)
qed

definition admin_passive :: "('st, 'ap) env \<Rightarrow> bool" where
  "admin_passive e \<longleftrightarrow> (\<forall>m sid a. fst (ap_to_admin (en_application e) m sid a) = m)"

lemma send_gap_fill_only_sent:
  assumes "is_open s" and "admin_passive e"
  obtains s' where "(send_gap_fill e x y s :: ('e, unit) outcome \<times> _) = (Done (), s')"
    and "only_sent [to_bytes (gap_fill_message e s x y)] s s'"
proof -
  let ?m = "gap_fill_message e s x y"
  obtain a where a: "ap_to_admin (en_application e) ?m (the_sid e) (se_app s) = (?m, a)"
    using assms(2) by (metis admin_passive_def prod.collapse)
  let ?l = "se_log s @ [LogEvent (''Sent SequenceReset (GapFill) '' @ dec_nat x @ '' -> '' @ dec_nat y)]"
  let ?s1 = "s\<lparr>se_app := a\<rparr>" and ?s2 = "s\<lparr>se_app := a, se_log := ?l\<rparr>"
  have o2: "is_open ?s2" using assms(1) by (simp add: is_open_def)
  obtain s' where t: "(transmit e (to_bytes ?m) ?s2 :: ('e, unit) outcome \<times> _) = (Done (), s')"
    and os: "only_sent [to_bytes ?m] ?s2 s'"
    by (rule transmit_only_sent [OF o2])
  have "(send_gap_fill e x y s :: ('e, unit) outcome \<times> _) = (Done (), s')"
    using t by (simp add: send_gap_fill_def call_to_admin_def a bnd_def thn_def gets_def event_def modify_def)
  moreover have "only_sent [to_bytes ?m] s s'"
    using only_sent_trans [OF only_sent_trans [OF only_sent_nothing(3) [of s a] only_sent_nothing(2) [of ?s1 ?l]] os]
    by simp
  ultimately show thesis by (rule that)
qed


section \<open>The loop\<close>

definition gap_start :: "u64 option \<Rightarrow> u64 \<Rightarrow> u64" where
  "gap_start g n = (case g of Some x \<Rightarrow> x | None \<Rightarrow> n)"

lemma gap_start_simps [simp]: "gap_start None n = n" "gap_start (Some x) n = x"
  by (simp_all add: gap_start_def)

lemma close_gap_only_sent:
  assumes "is_open s" and "admin_passive e" and "gap_start g n \<le> n"
    and "g \<noteq> None \<longrightarrow> gap_start g n < n"
  obtains s' items where "(close_gap e g n s :: ('e, unit) outcome \<times> _) = (Done (), s')"
    and "only_sent (map (to_bytes \<circ> item_message e s) items) s s'"
    and "tiles (gap_start g n) n items" and "\<forall>k m. Replayed k m \<notin> set items"
proof (cases g)
  case None
  then show thesis
    using that [of s "[]"] only_sent_nothing(1) [of s] by (simp add: close_gap_def ret_def)
next
  case (Some x)
  obtain s' where "(send_gap_fill e x n s :: ('e, unit) outcome \<times> _) = (Done (), s')"
    and "only_sent [to_bytes (gap_fill_message e s x n)] s s'"
    by (rule send_gap_fill_only_sent [OF assms(1,2)])
  then show thesis
    using that [of s' "[GapFill x n]"] Some assms(4) by (simp add: close_gap_def)
qed

text \<open>What the look-up in the loop finds, in terms of the specification.\<close>

lemma stored_message_cases:
  fixes stored :: "(u64 \<times> bytes) list"
  assumes "(stored_message stored n :: (unit, message option) res) \<noteq> Panic"
  obtains "(stored_message stored n :: (unit, message option) res) = Ok None" "replay_of e (map_of stored) n = None"
  | m where "(stored_message stored n :: (unit, message option) res) = Ok (Some m)"
      "replay_of e (map_of stored) n = Some (resent e m)"
proof (cases "replay_of e (map_of stored) n")
  case None
  with assms have "(stored_message stored n :: (unit, message option) res) = Ok None"
    by (auto simp: stored_message_def replay_of_def split: option.splits res.splits if_splits)
  with None that(1) show ?thesis by blast
next
  case (Some r)
  then obtain m where "(stored_message stored n :: (unit, message option) res) = Ok (Some m)" "r = resent e m"
    by (auto simp: stored_message_def replay_of_def split: option.splits res.splits if_splits)
  with Some that(2) show ?thesis by blast
qed

text \<open>Adding the verdict on the first number of a range to the verdicts on the rest.\<close>

lemma justified_skip:
  assumes "replay_justified e stored (Suc b) c items"
    and "replay_of e stored b = None
      \<or> (\<exists>m a. replay_of e stored b = Some m \<and> fst (ap_to_app (en_application e) m (the_sid e) a) = None)"
  shows "replay_justified e stored b c items"
  unfolding replay_justified_def
proof (intro conjI allI impI)
  fix n assume n: "b \<le> n \<and> n < c \<and> (\<forall>m'. Replayed n m' \<notin> set items)"
  show "replay_of e stored n = None
      \<or> (\<exists>m a. replay_of e stored n = Some m \<and> fst (ap_to_app (en_application e) m (the_sid e) a) = None)"
    using assms n by (cases "n = b") (auto simp: replay_justified_def Suc_le_eq)
qed (use assms(1) in \<open>auto simp: replay_justified_def dest!: spec\<close>)

lemma justified_replay:
  assumes "replay_justified e stored (Suc b) c items" and "b < c"
    and "replay_of e stored b = Some m" and "fst (ap_to_app (en_application e) m (the_sid e) a) = Some m'"
    and "\<forall>k m. Replayed k m \<notin> set gap"
  shows "replay_justified e stored b c (gap @ Replayed b m' # items)"
  unfolding replay_justified_def
proof (intro conjI allI impI)
  fix n mm assume "Replayed n mm \<in> set (gap @ Replayed b m' # items)"
  then show "b \<le> n" "n < c"
    "\<exists>m a. replay_of e stored n = Some m \<and> fst (ap_to_app (en_application e) m (the_sid e) a) = Some mm"
    using assms by (auto simp: replay_justified_def Suc_le_eq less_imp_le)
next
  fix n assume n: "b \<le> n \<and> n < c \<and> (\<forall>mm. Replayed n mm \<notin> set (gap @ Replayed b m' # items))"
  then have "n \<noteq> b" by auto
  with n assms(1) show "replay_of e stored n = None
      \<or> (\<exists>m a. replay_of e stored n = Some m \<and> fst (ap_to_app (en_application e) m (the_sid e) a) = None)"
    by (auto simp: replay_justified_def Suc_le_eq)
qed


text \<open>
  The invariant of the loop: with an open gap \<open>g\<close> before \<open>b\<close>, the frames sent up to \<open>c\<close> and the gap
  left open at the end tile the range from the start of \<open>g\<close>.
\<close>

definition loop_ok ::
  "('st, 'ap) env \<Rightarrow> (u64 \<rightharpoonup> bytes) \<Rightarrow> u64 option \<Rightarrow> u64 \<Rightarrow> u64 \<Rightarrow> ('st, 'ap) session
     \<Rightarrow> ('e, u64 option) outcome \<times> ('st, 'ap) session \<Rightarrow> bool" where
  "loop_ok e stored g b c s r \<longleftrightarrow>
     (\<exists>s' g' items. r = (Done g', s')
        \<and> only_sent (map (to_bytes \<circ> item_message e s) items) s s'
        \<and> tiles (gap_start g b) (gap_start g' c) items \<and> (g' \<noteq> None \<longrightarrow> gap_start g' c < c)
        \<and> replay_justified e stored b c items)"

lemma item_message_cong: "only_sent raws s s' \<Longrightarrow> item_message e s' = item_message e s"
  using only_sent_simps(1,2) [of raws s s']
  by (intro ext) (metis gap_fill_message_cong item_message.elims item_message.simps)

lemma loop_ok_skip:
  assumes "loop_ok e stored (get_or_insert_gap g b) (Suc b) c s1 r" and "only_sent [] s s1"
    and "replay_of e stored b = None
      \<or> (\<exists>m a. replay_of e stored b = Some m \<and> fst (ap_to_app (en_application e) m (the_sid e) a) = None)"
  shows "loop_ok e stored g b c s r"
proof -
  have g: "gap_start (get_or_insert_gap g b) (Suc b) = gap_start g b"
    by (simp add: get_or_insert_gap_def gap_start_def split: option.splits)
  from assms(1) obtain s' g' items where "r = (Done g', s')"
    and os: "only_sent (map (to_bytes \<circ> item_message e s1) items) s1 s'"
    and "tiles (gap_start g b) (gap_start g' c) items" "g' \<noteq> None \<longrightarrow> gap_start g' c < c"
    and "replay_justified e stored (Suc b) c items"
    unfolding loop_ok_def g by blast
  with only_sent_trans [OF assms(2) os] justified_skip [OF _ assms(3)] item_message_cong [OF assms(2)]
  show ?thesis unfolding loop_ok_def by (intro exI [of _ s'] exI [of _ g'] exI [of _ items]) simp
qed

lemma loop_ok_replay:
  assumes "loop_ok e stored None (Suc b) c s1 r"
    and "only_sent (map (to_bytes \<circ> item_message e s) gap @ [to_bytes m']) s s1"
    and "tiles (gap_start g b) b gap" and "\<forall>k m. Replayed k m \<notin> set gap" and "b < c"
    and "replay_of e stored b = Some m" and "fst (ap_to_app (en_application e) m (the_sid e) a) = Some m'"
  shows "loop_ok e stored g b c s r"
proof -
  from assms(1) obtain s' g' items where "r = (Done g', s')"
    and os: "only_sent (map (to_bytes \<circ> item_message e s1) items) s1 s'"
    and ti: "tiles (Suc b) (gap_start g' c) items" and "g' \<noteq> None \<longrightarrow> gap_start g' c < c"
    and "replay_justified e stored (Suc b) c items"
    unfolding loop_ok_def by auto
  moreover have "tiles (gap_start g b) (gap_start g' c) (gap @ Replayed b m' # items)"
    using assms(3) ti by (auto intro: tiles_append)
  ultimately show ?thesis
    using only_sent_trans [OF assms(2) os] justified_replay [OF _ assms(5-7,4)] item_message_cong [OF assms(2)]
    unfolding loop_ok_def
    by (intro exI [of _ s'] exI [of _ g'] exI [of _ "gap @ Replayed b m' # items"]) (simp add: comp_def)
qed

text \<open>One round of the loop that replays a message, the gap before it closed first.\<close>

lemma retransmit_replay_step:
  fixes s :: "('st, 'ap) session"
  assumes "admin_passive e" and "is_open s" and "gap_start g b \<le> b" and "g \<noteq> None \<longrightarrow> gap_start g b < b"
    and "(stored_message stored b :: (unit, message option) res) = Ok (Some m)"
    and v: "ap_to_app (en_application e) (resent e m) (the_sid e) (se_app s) = (Some m', a)"
  obtains s' gap where
    "(retransmit_loop e stored g (b # ns) s :: ('e, u64 option) outcome \<times> _) = retransmit_loop e stored None ns s'"
    and "only_sent (map (to_bytes \<circ> item_message e s) gap @ [to_bytes m']) s s'"
    and "tiles (gap_start g b) b gap" and "\<forall>k m. Replayed k m \<notin> set gap"
proof -
  let ?s1 = "s\<lparr>se_app := a\<rparr>"
  have o1: "is_open ?s1" using assms(2) by (simp add: is_open_def)
  obtain s2 gap where c: "(close_gap e g b ?s1 :: ('e, unit) outcome \<times> _) = (Done (), s2)"
    and os2: "only_sent (map (to_bytes \<circ> item_message e ?s1) gap) ?s1 s2"
    and gap: "tiles (gap_start g b) b gap" "\<forall>k m. Replayed k m \<notin> set gap"
    by (rule close_gap_only_sent [OF o1 assms(1,3,4)])
  let ?s3 = "s2\<lparr>se_log := se_log s2 @ [LogEvent (''Resending message '' @ dec_nat b)]\<rparr>"
  have o3: "is_open ?s3" using only_sent_simps(6) [OF os2 o1] by (simp add: is_open_def)
  obtain s4 where t4: "(transmit e (to_bytes m') ?s3 :: ('e, unit) outcome \<times> _) = (Done (), s4)"
    and os4: "only_sent [to_bytes m'] ?s3 s4"
    by (rule transmit_only_sent [OF o3])
  have "only_sent (map (to_bytes \<circ> item_message e s) gap @ [to_bytes m']) s s4"
    using only_sent_trans [OF only_sent_trans [OF only_sent_nothing(3) [of s a] os2]
        only_sent_trans [OF only_sent_nothing(2) os4]]
      item_message_cong [OF only_sent_nothing(3) [of s a]] by simp
  moreover have "(retransmit_loop e stored g (b # ns) s :: ('e, u64 option) outcome \<times> _)
      = retransmit_loop e stored None ns s4"
    using assms(5) v c t4 by (simp add: bnd_def thn_def call_to_app_def event_def modify_def)
  ultimately show thesis using that gap by blast
qed

lemma retransmit_loop_tiles:
  fixes stored :: "(u64 \<times> bytes) list"
  assumes "admin_passive e" and "is_open s" and "b \<le> c" and "g \<noteq> None \<longrightarrow> gap_start g b < b"
    and "\<forall>n. b \<le> n \<and> n < c \<longrightarrow> (stored_message stored n :: (unit, message option) res) \<noteq> Panic"
  shows "loop_ok e (map_of stored) g b c s (retransmit_loop e stored g [b..<c] s :: ('e, u64 option) outcome \<times> _)"
  using assms(2-5)
proof (induction "c - b" arbitrary: b g s)
  case 0
  then show ?case unfolding loop_ok_def
    by (intro exI [of _ s] exI [of _ g] exI [of _ "[]"])
      (auto simp: ret_def only_sent_nothing replay_justified_def gap_start_def split: option.splits)
next
  case (Suc k)
  then have bc: "b < c" and upt: "[b..<c] = b # [Suc b..<c]" by (auto simp: upt_conv_Cons)
  have IH: "loop_ok e (map_of stored) g' (Suc b) c s' (retransmit_loop e stored g' [Suc b..<c] s' :: ('e, u64 option) outcome \<times> _)"
    if "is_open s'" "g' \<noteq> None \<longrightarrow> gap_start g' (Suc b) < Suc b" for g' s'
    using Suc.hyps(2) Suc.prems(4) bc that by (intro Suc.hyps(1)) auto
  have g0: "gap_start g b \<le> b" "get_or_insert_gap g b \<noteq> None \<longrightarrow> gap_start (get_or_insert_gap g b) (Suc b) < Suc b"
    using Suc.prems(3) by (auto simp: get_or_insert_gap_def gap_start_def split: option.splits)
  have "(stored_message stored b :: (unit, message option) res) \<noteq> Panic" using Suc.prems(4) bc by blast
  then show ?case
  proof (cases rule: stored_message_cases [where e = e])
    case 1
    then show ?thesis
      using loop_ok_skip [OF IH [OF Suc.prems(1) g0(2)] only_sent_nothing(1)] by (simp add: upt)
  next
    case (2 m)
    obtain v a where v: "ap_to_app (en_application e) (resent e m) (the_sid e) (se_app s) = (v, a)"
      by (cases "ap_to_app (en_application e) (resent e m) (the_sid e) (se_app s)")
    show ?thesis
    proof (cases v)
      case None
      have "is_open (s\<lparr>se_app := a\<rparr>)" using Suc.prems(1) by (simp add: is_open_def)
      from loop_ok_skip [OF IH [OF this g0(2)] only_sent_nothing(3)] None 2 v show ?thesis
        by (simp add: upt bnd_def call_to_app_def) (metis fst_conv)
    next
      case (Some m')
      obtain s' gap where "(retransmit_loop e stored g (b # [Suc b..<c]) s :: ('e, u64 option) outcome \<times> _)
          = retransmit_loop e stored None [Suc b..<c] s'"
        and os: "only_sent (map (to_bytes \<circ> item_message e s) gap @ [to_bytes m']) s s'"
        and gap: "tiles (gap_start g b) b gap" "\<forall>k m. Replayed k m \<notin> set gap"
        by (rule retransmit_replay_step [OF assms(1) Suc.prems(1) g0(1) Suc.prems(3) 2(1) v [unfolded Some]])
      with loop_ok_replay [OF IH [OF only_sent_simps(6) [OF os Suc.prems(1)]] os gap bc 2(2), of "se_app s"] v Some
      show ?thesis unfolding upt by simp
    qed
  qed
qed

lemma answer_resend_items:
  assumes "message_store (en_ops e) sok msgs" and "sok (se_store s)"
    and "admin_passive e" and "is_open s" and "cfg_persist_messages (en_cfg e)"
    and "b \<le> n" and "n + 1 < 2 ^ 63"
    and "so_get (en_ops e) b n (se_store s) = (Ok stored, se_store s)"
    and "\<forall>k. b \<le> k \<and> k \<le> n \<longrightarrow> (stored_message stored k :: (unit, message option) res) \<noteq> Panic"
  obtains s' items where "(answer_resend e b n s :: ('e, unit) outcome \<times> _) = (Done (), s')"
    and "only_sent (map (to_bytes \<circ> item_message e s) items) s s'"
    and "tiles b (n + 1) items" and "replay_justified e (msgs (se_store s)) b (n + 1) items"
proof -
  from message_store.get_ok [OF assms(1,2,6,8)]
  have get: "\<And>k. map_of stored k = (if b \<le> k \<and> k \<le> n then msgs (se_store s) k else None)" by blast
  have "loop_ok e (map_of stored) None b (n + 1) s (retransmit_loop e stored None [b..<n + 1] s :: ('e, u64 option) outcome \<times> _)"
    using assms(6,9) by (intro retransmit_loop_tiles [OF assms(3,4)]) (auto simp: less_Suc_eq_le)
  then obtain s1 g items1 where loop: "(retransmit_loop e stored None [b..<n + 1] s :: ('e, u64 option) outcome \<times> _) = (Done g, s1)"
    and os1: "only_sent (map (to_bytes \<circ> item_message e s) items1) s s1"
    and t1: "tiles b (gap_start g (n + 1)) items1" and g: "g \<noteq> None \<longrightarrow> gap_start g (n + 1) < n + 1"
    and j1: "replay_justified e (map_of stored) b (n + 1) items1"
    unfolding loop_ok_def by auto
  have g': "gap_start g (n + 1) \<le> n + 1" using g by (cases g) auto
  obtain s' gap where c: "(close_gap e g (n + 1) s1 :: ('e, unit) outcome \<times> _) = (Done (), s')"
    and os2: "only_sent (map (to_bytes \<circ> item_message e s1) gap) s1 s'"
    and t2: "tiles (gap_start g (n + 1)) (n + 1) gap" and no: "\<forall>k m. Replayed k m \<notin> set gap"
    by (rule close_gap_only_sent [OF only_sent_simps(6) [OF os1 assms(4)] assms(3) g' g])
  have os: "only_sent (map (to_bytes \<circ> item_message e s) (items1 @ gap)) s s'"
    using only_sent_trans [OF os1 os2] item_message_cong [OF os1] by simp
  have run: "(answer_resend e b n s :: ('e, unit) outcome \<times> _) = (Done (), s')"
    using assms(5-8) loop c
    by (simp add: answer_resend_def retransmit_def attempt_def on_store_def bnd_def u64_add_exact)
  have ti: "tiles b (n + 1) (items1 @ gap)" by (rule tiles_append [OF t1 t2])
  have "replay_justified e (map_of stored) b (n + 1) (items1 @ gap)"
    using j1 no by (simp add: replay_justified_def)
  then have ju: "replay_justified e (msgs (se_store s)) b (n + 1) (items1 @ gap)"
    by (rule replay_justified_cong [rotated]) (simp add: get)
  from run os ti ju show ?thesis by (rule that)
qed

text \<open>
  C6. The answer to a resend request for \<open>[b, n]\<close>, for any store that meets its contract and any
  application that leaves gap fills alone: the handler returns, and the frames it sends tile the
  range from \<open>b\<close> to \<open>n + 1\<close> in order, without a hole or an overlap. A number is replayed only
  with the stored application message, and is gap-filled only when there is none or the
  application vetoed it; gap fills carry their first number as MsgSeqNum, the next expected one as
  NewSeqNo, and the flags GapFill and PossDup. The sequence numbers of the session do not move.
\<close>

theorem answer_resend_tiles_range:
  assumes "message_store (en_ops e) sok msgs" and "sok (se_store s)"
    and "admin_passive e" and "is_open s" and "cfg_persist_messages (en_cfg e)"
    and "b \<le> n" and "n + 1 < 2 ^ 63"
    and "so_get (en_ops e) b n (se_store s) = (Ok stored, se_store s)"
    and "\<forall>k. b \<le> k \<and> k \<le> n \<longrightarrow> (stored_message stored k :: (unit, message option) res) \<noteq> Panic"
  shows "\<exists>s' items. (answer_resend e b n s :: ('e, unit) outcome \<times> _) = (Done (), s')
    \<and> sent_frames s' = sent_frames s @ map (to_bytes \<circ> item_message e s) items
    \<and> tiles b (n + 1) items \<and> replay_justified e (msgs (se_store s)) b (n + 1) items
    \<and> (\<forall>x y. GapFill x y \<in> set items \<longrightarrow>
         seq_num (item_message e s (GapFill x y)) = Inr x
         \<and> get_ok decode_u64 NEW_SEQ_NO (body (item_message e s (GapFill x y))) = Some y
         \<and> poss_dup (item_message e s (GapFill x y)))
    \<and> next_sender e s' = next_sender e s \<and> next_target e s' = next_target e s"
proof -
  obtain s' items where run: "(answer_resend e b n s :: ('e, unit) outcome \<times> _) = (Done (), s')"
    and os: "only_sent (map (to_bytes \<circ> item_message e s) items) s s'"
    and ti: "tiles b (n + 1) items" and ju: "replay_justified e (msgs (se_store s)) b (n + 1) items"
    by (rule answer_resend_items [OF assms])
  have gf: "\<forall>x y. GapFill x y \<in> set items \<longrightarrow> x < 2 ^ 63 \<and> y < 2 ^ 63"
    using tiles_bounds [OF ti] assms(7) by fastforce
  show ?thesis
    using run ti ju gf only_sent_simps(5) [OF os assms(4)] only_sent_simps(7,8) [OF os, of e]
    by (intro exI [of _ s'] exI [of _ items]) (simp add: gap_fill_fields gap_fill_fields(3) [unfolded NEW_SEQ_NO_def])
qed

text \<open>A session that has an (empty) application message stored under 1 and nothing under 2.\<close>

definition resend_session :: "(memory_store, session_event list) session" where
  "resend_session = online_session\<lparr>se_store := (memory_store_new 0)\<lparr>ms_next_sender := 3, ms_messages := [(1, [])]\<rparr>\<rparr>"

lemma admin_passive_sample: "admin_passive sample_env"
  by (simp add: admin_passive_def channel_app.to_admin)

theorem answer_resend_tiles_range_witness:
  "\<exists>s' items. (answer_resend sample_env 1 2 resend_session :: (unit, unit) outcome \<times> _) = (Done (), s')
     \<and> tiles 1 3 items"
proof -
  have "is_open resend_session"
    by (simp add: resend_session_def online_session_def attached_session_eq is_open_def)
  moreover have "ms_ok (se_store resend_session)"
    by (simp add: resend_session_def ms_ok_def memory_store_new_def bt_ok_def)
  moreover have "so_get (en_ops sample_env) 1 2 (se_store resend_session) = (Ok [(1, [])], se_store resend_session)"
    by (simp add: memory_ops_def ms_get_def bt_range_def resend_session_def)
  moreover have "(stored_message [(1, [])] k :: (unit, message option) res) \<noteq> Panic" for k
    by (simp add: stored_message_def message_parse_def parse_loop.simps parse_init_def)
  ultimately show ?thesis
    using answer_resend_tiles_range [OF memory.message_store_axioms [folded sample_simps(1)] _ admin_passive_sample,
        of resend_session 1 2 "[(1, [])]"]
    by (simp add: sample_cfg_def) blast
qed

end
