(* ===== verification/Session_Delivery.thy ===== *)
theory Session_Delivery
  imports Session_Resend
begin

text \<open>
  In-order, exactly-once delivery. The engine is run with its in-memory store and its channel
  application; what the application has been handed is the list of events in the channel. Whatever
  the peer sends, the numbers of the application messages delivered follow the expected number of
  the session: each message is delivered when its number is the expected one, which then advances,
  so that nothing is delivered twice or out of order until the expected number is restarted. A counter
  beside the store counts these restarts; the store itself is the in-memory one.
\<close>

section \<open>The specification\<close>

text \<open>
  \<open>in_order t runs t'\<close>: the numbers delivered while the expected number goes from \<open>t\<close> to \<open>t'\<close>, in
  maximal runs between which the expected number was restarted. Each run is strictly increasing;
  the first starts no lower than \<open>t\<close> and the last stays below \<open>t'\<close>.
\<close>

fun in_order :: "u64 \<Rightarrow> u64 list list \<Rightarrow> u64 \<Rightarrow> bool" where
  "in_order t [] t' \<longleftrightarrow> False"
| "in_order t [ds] t' \<longleftrightarrow> t \<le> t' \<and> sorted_wrt (<) ds \<and> (\<forall>d\<in>set ds. t \<le> d \<and> d < t')"
| "in_order t (ds # es # runs) t' \<longleftrightarrow>
     sorted_wrt (<) ds \<and> (\<forall>d\<in>set ds. t \<le> d) \<and> in_order 0 (es # runs) t'"

text \<open>Two histories one after the other: the last run of the first goes on into the second.\<close>

lemma in_order_extend:
  assumes "in_order u runs v" and "t \<le> u" and "sorted_wrt (<) ds" and "\<forall>d\<in>set ds. t \<le> d \<and> d < u"
  shows "in_order t ((ds @ hd runs) # tl runs) v"
  using assms
  by (induction u runs v rule: in_order.induct) (fastforce simp: sorted_wrt_append)+

lemma in_order_join:
  assumes "in_order t runs u" and "in_order u runs' v"
  shows "\<exists>all. in_order t all v \<and> concat all = concat runs @ concat runs' \<and> length all + 1 = length runs + length runs'"
  using assms
proof (induction t runs u rule: in_order.induct)
  case (2 t ds u)
  then have "runs' \<noteq> []" by auto
  with 2 in_order_extend [OF 2(2), of t ds] show ?case
    by (intro exI [of _ "(ds @ hd runs') # tl runs'"]) (cases runs'; simp)
next
  case (3 t ds es runs u)
  then obtain all where all: "in_order 0 all v" "concat all = concat (es # runs) @ concat runs'"
    "length all + 1 = length (es # runs) + length runs'" by auto
  then have "in_order t (ds # all) v" using 3(2) by (cases all) auto
  with all show ?case by (intro exI [of _ "ds # all"]) simp
qed simp

fun event_seq :: "session_event \<Rightarrow> u64 option list" where
  "event_seq (AppMsg m sid) = [case seq_num m of Inr n \<Rightarrow> Some n | Inl _ \<Rightarrow> None]"
| "event_seq _ = []"

definition delivered :: "session_event list \<Rightarrow> u64 option list" where
  "delivered evs = concat (map event_seq evs)"

text \<open>
  The in-memory store with a count, which the session cannot see, of the restarts of the expected
  number: the resets, and the increments that wrap at the width of the counter.
\<close>

definition uncounted :: "('st \<Rightarrow> 'a \<times> 'st) \<Rightarrow> 'st \<times> nat \<Rightarrow> 'a \<times> 'st \<times> nat" where
  "uncounted f = (\<lambda>(st, k). case f st of (r, st') \<Rightarrow> (r, st', k))"

definition audited_ops :: "(memory_store \<times> nat) store_ops" where
  "audited_ops =
     \<lparr>so_next_sender = (\<lambda>(st, _). so_next_sender memory_ops st),
      so_next_target = (\<lambda>(st, _). so_next_target memory_ops st),
      so_incr_sender = uncounted (so_incr_sender memory_ops),
      so_incr_target = (\<lambda>(st, k). case so_incr_target memory_ops st of (r, st') \<Rightarrow>
         (r, st', if so_next_target memory_ops st < so_next_target memory_ops st' then k else Suc k)),
      so_set_sender = (\<lambda>n. uncounted (so_set_sender memory_ops n)),
      so_set_target = (\<lambda>n. uncounted (so_set_target memory_ops n)),
      so_creation_time = (\<lambda>(st, _). so_creation_time memory_ops st),
      so_save = (\<lambda>n raw. uncounted (so_save memory_ops n raw)),
      so_get = (\<lambda>b n. uncounted (so_get memory_ops b n)),
      so_refresh = (\<lambda>now. uncounted (so_refresh memory_ops now)),
      so_reset = (\<lambda>now (st, k). case so_reset memory_ops now st of (r, st') \<Rightarrow> (r, st', Suc k))\<rparr>"

definition restarts :: "(memory_store \<times> nat, 'ap) session \<Rightarrow> nat" where
  "restarts s = snd (se_store s)"

definition expected_number :: "(memory_store \<times> nat, 'ap) session \<Rightarrow> u64" where
  "expected_number s = ms_next_target (fst (se_store s))"

definition delivery_step ::
  "(memory_store \<times> nat, session_event list) session \<Rightarrow> (memory_store \<times> nat, session_event list) session \<Rightarrow> bool" where
  "delivery_step s s' \<longleftrightarrow>
     (\<exists>runs. delivered (se_app s') = delivered (se_app s) @ map Some (concat runs)
        \<and> restarts s' + 1 = restarts s + length runs \<and> in_order (expected_number s) runs (expected_number s'))"

text \<open>The engine with its channel application, with the in-memory store plain and counted, for any other parameters.\<close>

definition channel_system ::
  "session_config \<Rightarrow> data_dictionary option \<Rightarrow> data_dictionary option \<Rightarrow> chrono \<Rightarrow> calendars \<Rightarrow> nat \<Rightarrow> time
     \<Rightarrow> (memory_store, session_event list) env" where
  "channel_system cfg dd add ch cals now utc =
     \<lparr>en_cfg = cfg, en_ops = memory_ops, en_application = channel_application, en_dictionary = dd,
      en_admin_dictionary = add, en_chrono = ch, en_cals = cals, en_now = now, en_utc = utc\<rparr>"

definition audited_system ::
  "session_config \<Rightarrow> data_dictionary option \<Rightarrow> data_dictionary option \<Rightarrow> chrono \<Rightarrow> calendars \<Rightarrow> nat \<Rightarrow> time
     \<Rightarrow> (memory_store \<times> nat, session_event list) env" where
  "audited_system cfg dd add ch cals now utc =
     \<lparr>en_cfg = cfg, en_ops = audited_ops, en_application = channel_application, en_dictionary = dd,
      en_admin_dictionary = add, en_chrono = ch, en_cals = cals, en_now = now, en_utc = utc\<rparr>"

lemma channel_system_simps [simp]:
  "en_ops (channel_system cfg dd add ch cals now utc) = memory_ops"
  "en_application (channel_system cfg dd add ch cals now utc) = channel_application"
  "en_cfg (channel_system cfg dd add ch cals now utc) = cfg"
  "at_time now' utc' (channel_system cfg dd add ch cals now utc) = channel_system cfg dd add ch cals now' utc'"
  by (simp_all add: channel_system_def at_time_def)

lemma audited_system_simps [simp]:
  "en_ops (audited_system cfg dd add ch cals now utc) = audited_ops"
  "en_application (audited_system cfg dd add ch cals now utc) = channel_application"
  "en_cfg (audited_system cfg dd add ch cals now utc) = cfg"
  "at_time now' utc' (audited_system cfg dd add ch cals now utc) = audited_system cfg dd add ch cals now' utc'"
  by (simp_all add: audited_system_def at_time_def)

section \<open>Every primitive step keeps the order\<close>

lemma delivered_snoc: "delivered (evs @ [ev]) = delivered evs @ event_seq ev"
  by (simp add: delivered_def)

lemma delivery_same:
  "delivered (se_app s') = delivered (se_app s) \<Longrightarrow> restarts s' = restarts s \<Longrightarrow>
    expected_number s \<le> expected_number s' \<Longrightarrow> delivery_step s s'"
  unfolding delivery_step_def by (intro exI [of _ "[[]]"]) simp

lemma delivery_restart:
  "delivered (se_app s') = delivered (se_app s) \<Longrightarrow> restarts s' = Suc (restarts s) \<Longrightarrow> delivery_step s s'"
  unfolding delivery_step_def by (intro exI [of _ "[[], []]"]) simp

lemma audited_ops_target:
  "ms_next_target (fst (snd (save_message_and_incr audited_ops n raw st))) = ms_next_target (fst st)"
  "snd (snd (save_message_and_incr audited_ops n raw st)) = snd st"
  "ms_next_target (fst (snd (so_incr_sender audited_ops st))) = ms_next_target (fst st)"
  "snd (snd (so_incr_sender audited_ops st)) = snd st"
  "ms_next_target (fst (snd (so_get audited_ops b n' st))) = ms_next_target (fst st)"
  "snd (snd (so_get audited_ops b n' st)) = snd st"
  "snd (so_refresh audited_ops now' st) = st"
  by (simp_all add: save_message_and_incr_def memory_ops_def ms_save_def ms_get_def audited_ops_def uncounted_def
     split: prod.splits)

lemma audited_restarts:
  "snd (snd (so_reset audited_ops utc' st)) = Suc (snd st)"
  "fst (so_incr_target audited_ops st) = Ok ()"
  "ms_next_target (fst (snd (so_incr_target audited_ops st))) = u64_add (ms_next_target (fst st)) 1"
  "snd (snd (so_incr_target audited_ops st)) =
    (if ms_next_target (fst st) < u64_add (ms_next_target (fst st)) 1 then snd st else Suc (snd st))"
  "ms_next_target (fst (snd (so_set_target audited_ops n st))) = n"
  "snd (snd (so_set_target audited_ops n st)) = snd st"
  "so_next_target audited_ops st = ms_next_target (fst st)"
  by (simp_all add: memory_ops_def ms_reset_def audited_ops_def uncounted_def split: prod.splits)

lemma channel_calls:
  "delivered (ap_on_logon channel_application sid evs) = delivered evs"
  "delivered (ap_on_logout channel_application sid evs) = delivered evs"
  "snd (ap_to_admin channel_application m sid evs) = evs"
  "snd (ap_to_app channel_application m sid evs) = evs"
  "delivered (snd (ap_from_admin channel_application m sid evs)) = delivered evs"
  "ap_from_app channel_application m sid evs = (None, evs @ [AppMsg m sid])"
  by (simp_all add: channel_application_def default_application_def delivered_snoc)

lemma delivery_frame:
  "se_app s' = se_app s \<Longrightarrow> se_store s' = se_store s \<Longrightarrow> delivery_step s s'"
  by (rule delivery_same) (simp_all add: restarts_def expected_number_def)

lemma delivery_trans:
  assumes "delivery_step s t" and "delivery_step t u"
  shows "delivery_step s u"
proof -
  obtain runs where r: "delivered (se_app t) = delivered (se_app s) @ map Some (concat runs)"
    "restarts t + 1 = restarts s + length runs" "in_order (expected_number s) runs (expected_number t)"
    using assms(1) by (auto simp: delivery_step_def)
  obtain runs' where r': "delivered (se_app u) = delivered (se_app t) @ map Some (concat runs')"
    "restarts u + 1 = restarts t + length runs'" "in_order (expected_number t) runs' (expected_number u)"
    using assms(2) by (auto simp: delivery_step_def)
  obtain all where "in_order (expected_number s) all (expected_number u)"
    "concat all = concat runs @ concat runs'" "length all + 1 = length runs + length runs'"
    using in_order_join [OF r(3) r'(3)] by blast
  with r(1,2) r'(1,2) show ?thesis unfolding delivery_step_def by (intro exI [of _ all]) simp
qed

lemma frame_updates:
  "se_app (push_out raw now s) = se_app s" "se_store (push_out raw now s) = se_store s"
  "se_app (disconnect_state s) = se_app s" "se_store (disconnect_state s) = se_store s"
  "se_app (bump_test_counter s) = se_app s" "se_store (bump_test_counter s) = se_store s"
  "se_app (attach_state e closed signal s) = se_app s" "se_store (attach_state e closed signal s) = se_store s"
  by (simp_all add: push_out_def disconnect_state_def bump_test_counter_def attach_state_def split: option.splits)

interpretation delivery: receiving_relation delivery_step "audited_system cfg dd add ch cals now utc"
  for cfg dd add ch cals now utc
proof unfold_locales
  fix s t u
  show "delivery_step s s" by (rule delivery_frame) simp_all
  assume "delivery_step s t" and "delivery_step t u"
  then show "delivery_step s u" by (rule delivery_trans)
next
  fix s
  let ?e = "audited_system cfg dd add ch cals now utc"
  show "delivery_step s (s\<lparr>se_store := snd (so_incr_target (en_ops ?e) (se_store s))\<rparr>)"
    using delivery_same [of "s\<lparr>se_store := snd (so_incr_target (en_ops ?e) (se_store s))\<rparr>" s]
      delivery_restart [of "s\<lparr>se_store := snd (so_incr_target (en_ops ?e) (se_store s))\<rparr>" s]
    by (cases "ms_next_target (fst (se_store s)) < u64_add (ms_next_target (fst (se_store s))) 1")
      (simp_all add: restarts_def expected_number_def audited_restarts)
  show "delivery_step s (s\<lparr>se_store := snd (so_reset (en_ops ?e) (en_utc ?e) (se_store s))\<rparr>)"
    by (rule delivery_restart) (simp_all add: restarts_def audited_restarts)
next
  fix s n
  let ?e = "audited_system cfg dd add ch cals now utc"
  assume "next_target ?e s < n"
  then show "delivery_step s (s\<lparr>se_store := snd (so_set_target (en_ops ?e) n (se_store s))\<rparr>)"
    by (intro delivery_same) (simp_all add: next_target_def restarts_def expected_number_def audited_restarts)
qed (auto intro!: delivery_same simp: audited_ops_target channel_calls frame_updates restarts_def expected_number_def)

lemma channel_callback:
  assumes "en_application e = channel_application" and "\<not> is_admin m"
  shows "run_from_callback e m s = (Done Continue, s\<lparr>se_app := se_app s @ [AppMsg m (the_sid e)]\<rparr>)"
  using assms by (simp add: run_from_callback_def call_from_def bnd_def ret_def channel_calls)

lemma memory_incr_target:
  "en_ops e = memory_ops \<Longrightarrow> incr_target e s = (Done (), s\<lparr>se_store := (se_store s)\<lparr>ms_next_target := u64_add (ms_next_target (se_store s)) 1\<rparr>\<rparr>)"
  by (simp add: incr_target_def incr_target_op_def map_err_def on_store_def memory_ops_def)

lemma audited_incr_target:
  "en_ops e = audited_ops \<Longrightarrow> incr_target e s = (Done (), s\<lparr>se_store := snd (so_incr_target audited_ops (se_store s))\<rparr>)"
  using audited_restarts(2) [of "se_store s"]
  by (cases "so_incr_target audited_ops (se_store s)") (simp add: incr_target_def incr_target_op_def map_err_def on_store_def)

text \<open>A message handed over with the expected number, which is then advanced.\<close>

lemma deliver_expected:
  assumes "seq_num m = Inr (expected_number s)"
  shows "delivery_step s (s\<lparr>se_app := se_app s @ [AppMsg m sid],
    se_store := snd (so_incr_target audited_ops (se_store s))\<rparr>)"
proof -
  let ?t = "expected_number s"
  show ?thesis
  proof (cases "?t < u64_add ?t 1")
    case True
    then show ?thesis
      unfolding delivery_step_def using assms
      by (intro exI [of _ "[[?t]]"]) (simp add: delivered_snoc restarts_def expected_number_def audited_restarts)
  next
    case False
    then show ?thesis
      unfolding delivery_step_def using assms
      by (intro exI [of _ "[[?t], []]"]) (simp add: delivered_snoc restarts_def expected_number_def audited_restarts)
  qed
qed

lemma handle_app_message_delivers:
  assumes "\<not> is_admin m" and "type_or_empty m \<noteq> MT_SEQUENCE_RESET"
  shows "delivery_step s (snd (handle_app_message (audited_system cfg dd add ch cals now utc) m s))"
proof -
  let ?e = "audited_system cfg dd add ch cals now utc"
  consider (stop) "fst (verify ?e m True True s) \<noteq> Done Continue" "delivery_step s (snd (verify ?e m True True s))"
    | (go) s1 where "delivery_step s s1" "verify ?e m True True s = run_from_callback ?e m s1"
        "seq_num m = Inr (next_target ?e s1)"
    using delivery.verify_callback [of cfg dd add ch cals now utc m True True s] assms(2) by blast
  then show ?thesis
  proof cases
    case stop
    then show ?thesis
      by (auto simp: handle_app_message_def if_continue_def bnd_def ret_def split: prod.splits outcome.splits flow.splits)
  next
    case go
    let ?s2 = "s1\<lparr>se_app := se_app s1 @ [AppMsg m (cfg_session_id cfg)],
                   se_store := snd (so_incr_target audited_ops (se_store s1))\<rparr>"
    have "handle_app_message ?e m s = (Done (), ?s2)"
      using go(2) channel_callback [of ?e, OF _ assms(1)]
      by (simp add: handle_app_message_def if_continue_def bnd_def audited_incr_target)
    moreover have "delivery_step s1 ?s2"
      using go(3) by (intro deliver_expected) (simp add: next_target_def expected_number_def audited_restarts)
    ultimately show ?thesis using delivery_trans [OF go(1)] by simp
  qed
qed

interpretation delivery_loop: session_relation delivery_step "audited_system cfg dd add ch cals now utc"
  for cfg dd add ch cals now utc
  by unfold_locales (rule handle_app_message_delivers)

section \<open>Runs\<close>

text \<open>A run of the session's loop: each input at its own time, in any order that is enabled.\<close>

inductive session_run ::
  "('st, 'ap) env \<Rightarrow> ('st, 'ap) session \<Rightarrow> input list \<Rightarrow> ('st, 'ap) session \<Rightarrow> bool" for e where
  idle: "session_run e s [] s"
| input: "enabled (at_time now utc e) s inp \<Longrightarrow>
     (run_input (at_time now utc e) fuel inp :: (('st, 'ap) session, unit, reply) cmd) s = (Done r, s1) \<Longrightarrow>
     session_run e s1 inps s' \<Longrightarrow> session_run e s (inp # inps) s'"

inductive_cases session_run_idleE: "session_run e s [] s'"
inductive_cases session_run_inputE: "session_run e s (inp # inps) s'"

fun sets_seq_nums :: "input \<Rightarrow> bool" where
  "sets_seq_nums (InCommand (CmdSetSeqNums sender target)) = True"
| "sets_seq_nums _ = False"

lemma session_run_delivery:
  assumes "session_run (audited_system cfg dd add ch cals now utc) s inps s'" and "\<not> list_ex sets_seq_nums inps"
  shows "delivery_step s s'"
  using assms
proof (induction rule: session_run.induct)
  case (idle s)
  show ?case by (rule delivery.refl)
next
  case (input now' utc' s inp fuel r s1 inps s')
  have "inp \<noteq> InCommand (CmdSetSeqNums sender target)" for sender target using input.prems by auto
  then have "delivery_step s (snd (run_input (audited_system cfg dd add ch cals now' utc') fuel inp s :: (unit, reply) outcome \<times> _))"
    by (intro delivery.keepsD delivery_loop.keeps_run_input) blast
  then have "delivery_step s s1" using input.hyps(2) by simp
  with input.IH input.prems show ?case by (auto intro: delivery.trans)
qed

text \<open>
  C4. In-order, exactly-once delivery: over any run of a session with the in-memory store and the
  channel application - any frames from the peer, connections, timers and commands in any order,
  any configuration and dictionaries, operator changes of the sequence numbers apart - every
  application message handed over carries a number, and the numbers fall into as many strictly
  increasing runs as the expected number was restarted (by a reset of the store or the wrap of
  the counter), and one: without a restart nothing is delivered twice or out of order. The first
  run starts no lower than the number expected at the start and the last stays below the number
  expected at the end, so a later run of the session does not deliver them again.
\<close>

theorem app_messages_delivered_in_order:
  assumes "session_run (audited_system cfg dd add ch cals now utc) s inps s'" and "\<not> list_ex sets_seq_nums inps"
  shows "\<exists>runs. delivered (se_app s') = delivered (se_app s) @ map Some (concat runs)
    \<and> restarts s' + 1 = restarts s + length runs
    \<and> in_order (expected_number s) runs (expected_number s')"
  using session_run_delivery [OF assms] by (simp add: delivery_step_def)


section \<open>A message in sequence is delivered\<close>

text \<open>The checks of \<open>verify\<close> that do not concern the sequence number.\<close>

definition acceptable :: "('st, 'ap) env \<Rightarrow> ('st, 'ap) session \<Rightarrow> message \<Rightarrow> bool" where
  "acceptable e s m \<longleftrightarrow>
     valid_logon_state s (type_or_empty m)
     \<and> (case get_time e SENDING_TIME m of None \<Rightarrow> False
        | Some st \<Rightarrow> cfg_check_latency (en_cfg e) \<longrightarrow> \<not> too_late e st)
     \<and> (cfg_check_comp_id (en_cfg e) \<longrightarrow> comp_ids_ok e m)"

definition heard :: "('st, 'ap) env \<Rightarrow> ('st, 'ap) session \<Rightarrow> ('st, 'ap) session" where
  "heard e s = s\<lparr>se_last_received := en_now e, se_test_request_counter := 0\<rparr>"

lemma verify_acceptable:
  assumes "acceptable e s m"
  shows "verify e m h l s = bnd (verify_seq e m h l) (\<lambda>r. case r of Some fl \<Rightarrow> ret fl
    | None \<Rightarrow> thn (modify (heard e)) (run_from_callback e m)) s"
proof -
  obtain st where st: "get_time e SENDING_TIME m = Some st" "\<not> (cfg_check_latency (en_cfg e) \<and> too_late e st)"
    using assms by (auto simp: acceptable_def split: option.splits)
  have "valid_logon_state s (type_or_empty m)" "\<not> (cfg_check_comp_id (en_cfg e) \<and> \<not> comp_ids_ok e m)"
    using assms by (auto simp: acceptable_def)
  with st show ?thesis
    unfolding verify_def heard_def by (auto simp: bnd_def [of "gets _"] gets_def)
qed

lemma verify_in_sequence:
  assumes "acceptable e s m" and "seq_num m = Inr (next_target e s)"
  shows "verify e m h l s = run_from_callback e m (heard e s)"
proof -
  have "verify_seq e m h l s = (Done None, s)"
    using assms(2) by (simp add: verify_seq_def bnd_def gets_def ret_def)
  then show ?thesis
    by (simp add: verify_acceptable [OF assms(1)] bnd_def thn_def modify_def)
qed

lemma process_app_message:
  assumes "msg_type m = Inr mt" and "\<not> is_admin_type mt"
    and "get_raw BEGIN_STRING (header m) = Some (the_begin e)" and "dictionary_reject e m = None"
  shows "process e m = handle_app_message e m"
  using assms by (simp add: process_def dispatch_def is_admin_type_def)

lemma on_inbound_done:
  assumes "message_parse raw (cfg_validate_length_checksum (en_cfg e)) = Ok m" and "seq_num m = Inr n"
    and "process e m (s\<lparr>se_log := se_log s @ [LogIncoming raw], se_last_received_seq := n\<rparr>) = (Done (), s1)"
    and "drain_stash e fuel (s1\<lparr>se_last_processed_was_queued := False\<rparr>) = (Done (), s2)"
    and "(check_resend_chunks e s2 :: ('e, unit) outcome \<times> _) = (Done (), s3)"
  shows "(on_inbound e fuel raw s :: ('e, unit) outcome \<times> _) = (Done (), s3)"
  using assms by (simp add: on_inbound_def or_disconnect_def thn_def bnd_def modify_def attempt_def)

text \<open>The state after an application message in sequence was handed to the channel.\<close>

definition after_delivery :: "(memory_store, session_event list) env \<Rightarrow> message
    \<Rightarrow> (memory_store, session_event list) session \<Rightarrow> (memory_store, session_event list) session" where
  "after_delivery e m s =
     (heard e s)\<lparr>se_app := se_app s @ [AppMsg m (the_sid e)],
        se_store := (se_store s)\<lparr>ms_next_target := u64_add (ms_next_target (se_store s)) 1\<rparr>\<rparr>"

lemma handle_app_in_sequence:
  fixes cfg dd add ch cals now utc
  defines "e \<equiv> channel_system cfg dd add ch cals now utc"
  assumes "\<not> is_admin m" and "acceptable e s m" and "seq_num m = Inr (next_target e s)"
  shows "handle_app_message e m s = (Done (), after_delivery e m s)"
  using verify_in_sequence [OF assms(3,4), of True True] channel_callback [of e, OF _ assms(2)]
  by (simp add: e_def handle_app_message_def if_continue_def bnd_def memory_incr_target after_delivery_def heard_def)

definition after_frame :: "(memory_store, session_event list) env \<Rightarrow> bytes \<Rightarrow> message
    \<Rightarrow> (memory_store, session_event list) session \<Rightarrow> (memory_store, session_event list) session" where
  "after_frame e raw m s =
     (after_delivery e m (s\<lparr>se_log := se_log s @ [LogIncoming raw], se_last_received_seq := next_target e s\<rparr>))
       \<lparr>se_last_processed_was_queued := False\<rparr>"

text \<open>A frame that is an application message in sequence, in a state without an open gap.\<close>

definition deliverable :: "('st, 'ap) env \<Rightarrow> ('st, 'ap) session \<Rightarrow> bytes \<Rightarrow> message \<Rightarrow> bool" where
  "deliverable e s raw m \<longleftrightarrow>
     message_parse raw (cfg_validate_length_checksum (en_cfg e)) = Ok m
     \<and> (\<exists>mt. msg_type m = Inr mt \<and> \<not> is_admin_type mt)
     \<and> get_raw BEGIN_STRING (header m) = Some (the_begin e) \<and> dictionary_reject e m = None
     \<and> acceptable e s m \<and> seq_num m = Inr (next_target e s)
     \<and> se_stash s = [] \<and> se_resend_range s = None"

lemma app_frame_inbound:
  assumes "deliverable e s raw m"
    and "acceptable e (s\<lparr>se_log := se_log s @ [LogIncoming raw], se_last_received_seq := next_target e s\<rparr>) m \<Longrightarrow>
      handle_app_message e m (s\<lparr>se_log := se_log s @ [LogIncoming raw], se_last_received_seq := next_target e s\<rparr>)
        = (Done (), s2)"
    and "se_stash s2 = []" and "se_resend_range s2 = None"
  shows "(on_inbound e fuel raw s :: ('e, unit) outcome \<times> _) = (Done (), s2\<lparr>se_last_processed_was_queued := False\<rparr>)"
proof -
  obtain mt where mt: "msg_type m = Inr mt" "\<not> is_admin_type mt"
    and parse: "message_parse raw (cfg_validate_length_checksum (en_cfg e)) = Ok m"
    and bs: "get_raw BEGIN_STRING (header m) = Some (the_begin e)" and dr: "dictionary_reject e m = None"
    and acc: "acceptable e s m" and seq: "seq_num m = Inr (next_target e s)"
    using assms(1) unfolding deliverable_def by blast
  let ?s1 = "s\<lparr>se_log := se_log s @ [LogIncoming raw], se_last_received_seq := next_target e s\<rparr>"
  let ?s2 = "s2\<lparr>se_last_processed_was_queued := False\<rparr>"
  have "acceptable e ?s1 m" using acc by (simp add: acceptable_def valid_logon_state_def)
  then have p: "process e m ?s1 = (Done (), s2)"
    using assms(2) process_app_message [OF mt bs dr] by simp
  have d: "drain_stash e fuel ?s2 = (Done (), ?s2)"
    using assms(3) by (cases fuel) (simp_all add: look_def ret_def)
  have c: "(check_resend_chunks e ?s2 :: ('e, unit) outcome \<times> _) = (Done (), ?s2)"
    using assms(4) by (simp add: check_resend_chunks_def bnd_def gets_def ret_def)
  show ?thesis by (rule on_inbound_done [OF parse seq p d c])
qed

lemma deliverable_inbound:
  fixes cfg dd add ch cals now utc
  defines "e \<equiv> channel_system cfg dd add ch cals now utc"
  assumes "deliverable e s raw m"
  shows "(on_inbound e fuel raw s :: ('e, unit) outcome \<times> _) = (Done (), after_frame e raw m s)"
proof -
  let ?s1 = "s\<lparr>se_log := se_log s @ [LogIncoming raw], se_last_received_seq := next_target e s\<rparr>"
  have d: "\<not> is_admin m" "seq_num m = Inr (next_target e ?s1)" "se_stash s = []" "se_resend_range s = None"
    using assms(2) msg_type_admin(1) by (fastforce simp: deliverable_def next_target_def)+
  have "(on_inbound e fuel raw s :: ('e, unit) outcome \<times> _)
      = (Done (), (after_delivery e m ?s1)\<lparr>se_last_processed_was_queued := False\<rparr>)"
    using d handle_app_in_sequence [OF d(1), of cfg dd add ch cals now utc ?s1]
    by (intro app_frame_inbound [OF assms(2)]) (simp_all add: e_def after_delivery_def heard_def)
  then show ?thesis by (simp add: after_frame_def)
qed

text \<open>
  C5. A valid application message that arrives in sequence on a session with no gap open is handed
  to the application, exactly once and as the last event, the expected number advances by one,
  and nothing is sent in return: for any frame that parses, has the session's BeginString, passes
  the dictionary and the checks on time, CompIDs and logon state.
\<close>

theorem in_sequence_frame_delivered:
  fixes cfg dd add ch cals now utc
  defines "e \<equiv> channel_system cfg dd add ch cals now utc"
  assumes "deliverable e s raw m" and "next_target e s < 2 ^ 64 - 1"
  shows "\<exists>s'. (on_inbound e fuel raw s :: ('e, unit) outcome \<times> _) = (Done (), s')
    \<and> se_app s' = se_app s @ [AppMsg m (the_sid e)]
    \<and> next_target e s' = next_target e s + 1 \<and> next_sender e s' = next_sender e s
    \<and> se_outbound s' = se_outbound s \<and> se_stash s' = [] \<and> se_resend_range s' = None"
proof -
  have "u64_add (next_target e s) 1 = next_target e s + 1" using assms(3) by (simp add: u64_add_exact)
  then show ?thesis
    using deliverable_inbound [OF assms(2) [unfolded e_def]] assms(2)
    by (intro exI [of _ "after_frame e raw m s"])
       (simp add: after_frame_def after_delivery_def heard_def next_target_def next_sender_def e_def memory_ops_def
         deliverable_def)
qed

section \<open>A concrete delivery\<close>

text \<open>An order from the peer of the sample session, its first message after logon.\<close>

definition order_message :: message where
  "order_message =
     \<lparr>header = [tv 35 ''D'', tv 8 ''FIX.4.4'', tv 34 ''1'', tv 49 ''CLI'', tv 52 ''19700101-00:00:00.000'', tv 56 ''SRV''],
      body = [tv 11 ''id''], trailer = [], structure_error = None\<rparr>"

lemma sample_env_system: "sample_env = channel_system sample_cfg None None sample_chrono utc_only 0 0"
  by (simp add: sample_env_def channel_system_def)

lemma order_wire_fields:
  "wire_fields order_message =
     [tv 35 ''D'', tv 34 ''1'', tv 49 ''CLI'', tv 52 ''19700101-00:00:00.000'', tv 56 ''SRV'', tv 11 ''id'']"
  by (simp add: wire_fields_def order_message_def msg_type_field_def header_rest_def trailer_rest_def)

lemma order_message_wf: "message_wf order_message"
proof -
  have w: "wire_ok None (wire_fields order_message)"
    unfolding order_wire_fields
    by (simp add: value_ok_def tag_in_range_def next_pending_def data_tag_for_length_tag_def
        data_tag_table_def bytes_simps)
  have "length (to_bytes_inner order_message) < 2 ^ 20"
    unfolding to_bytes_inner_eq order_wire_fields by (simp add: bytes_simps)
  then have l: "length (to_bytes order_message) < 2 ^ 64"
    by (rule length_to_bytes_bound) (simp add: begin_string_of_def order_message_def)
  from w l show ?thesis
    by (simp add: message_wf_def begin_string_of_def)
       (simp add: order_message_def body_tag_def is_header_tag_def header_tags_def is_trailer_tag_def)
qed

lemma order_fields:
  "get_raw 35 (header (wire_form order_message)) = Some ''D''"
  "get_raw 34 (header (wire_form order_message)) = Some ''1''"
  "get_raw 49 (header (wire_form order_message)) = Some ''CLI''"
  "get_raw 52 (header (wire_form order_message)) = Some ''19700101-00:00:00.000''"
  "get_raw 56 (header (wire_form order_message)) = Some ''SRV''"
  "get_raw 8 (header (wire_form order_message)) = Some ''FIX.4.4''"
  using get_raw_wire_form [of _ order_message] begin_wire_form [of order_message]
  by (simp_all add: order_message_def begin_string_of_def)

lemma order_type: "msg_type (wire_form order_message) = Inr ''D''" "type_or_empty (wire_form order_message) = ''D''"
  by (simp_all add: msg_type_def type_or_empty_def get_string_def fm_get_def order_fields decode_string_def
      utf8_ok_ascii byte_of_def)

lemma order_time: "get_time sample_env 52 (wire_form order_message) = Some \<lparr>ts_time = 0, ts_precision = Millis\<rparr>"
  by (simp add: get_time_def get_ok_def fm_get_opt_def order_fields decode_timestamp_def utf8_ok_ascii byte_of_def
      precision_of_length_def sample_chrono_def)

lemma order_acceptable: "acceptable sample_env online_session (wire_form order_message)"
  by (simp add: acceptable_def order_time order_type valid_logon_state_def online_session_def too_late_def
      comp_ids_ok_def order_fields sample_cfg_def session_id_new_def)

lemma order_seq: "seq_num (wire_form order_message) = Inr 1"
  by (simp add: seq_num_def fm_get_def order_fields decode_u64_def bytes_simps)

lemma online_next_target: "next_target sample_env online_session = 1"
  by (simp add: next_target_def online_store memory_ops_def memory_store_new_def)

lemma order_parses: "message_parse (to_bytes order_message) b = Ok (wire_form order_message)"
  by (rule parse_to_bytes [OF order_message_wf])

lemma order_checks:
  "\<not> is_admin_type ''D''" "dictionary_reject sample_env (wire_form order_message) = None"
  "get_raw BEGIN_STRING (header (wire_form order_message)) = Some (the_begin sample_env)"
  "se_stash online_session = []" "se_resend_range online_session = None"
  by (simp_all add: is_admin_type_def dictionary_reject_def order_fields sample_cfg_def session_id_new_def
      online_session_def attached_session_eq fresh_session_def session_spawn_def)

lemma order_deliverable: "deliverable sample_env online_session (to_bytes order_message) (wire_form order_message)"
  unfolding deliverable_def
  using order_parses order_type(1) order_checks order_acceptable order_seq online_next_target by auto

theorem in_sequence_frame_delivered_witness:
  "\<exists>s'. (on_inbound sample_env 0 (to_bytes order_message) online_session :: (unit, unit) outcome \<times> _) = (Done (), s')
     \<and> se_app s' = se_app online_session @ [AppMsg (wire_form order_message) (the_sid sample_env)]"
  using in_sequence_frame_delivered [of sample_cfg None None sample_chrono utc_only 0 0,
      folded sample_env_system, OF order_deliverable, of 0] online_next_target
  by auto

section \<open>A concrete run\<close>

text \<open>The sample session on the counted store: one frame is delivered as number 1, without a restart.\<close>

definition audited_env :: "(memory_store \<times> nat, session_event list) env" where
  "audited_env = audited_system sample_cfg None None sample_chrono utc_only 0 0"

definition audited_session :: "(memory_store \<times> nat, session_event list) session" where
  "audited_session = (session_spawn audited_env (memory_store_new 0, 0) [])
     \<lparr>se_inbound := True, se_outbound := Some \<lparr>out_sent = [], out_closed = False\<rparr>,
      se_received_logon := True, se_sent_logon := True\<rparr>"

definition audited_after :: "(memory_store \<times> nat, session_event list) session" where
  "audited_after = (heard audited_env (audited_session\<lparr>se_log := [LogIncoming (to_bytes order_message)], se_last_received_seq := 1\<rparr>))
     \<lparr>se_app := [Created (the_sid audited_env), AppMsg (wire_form order_message) (the_sid audited_env)],
      se_store := snd (so_incr_target audited_ops (memory_store_new 0, 0)), se_last_processed_was_queued := False\<rparr>"

lemma audited_env_simps:
  "en_cfg audited_env = sample_cfg" "en_ops audited_env = audited_ops" "en_chrono audited_env = sample_chrono"
  "en_application audited_env = channel_application" "en_dictionary audited_env = None"
  "en_admin_dictionary audited_env = None" "en_utc audited_env = 0" "en_now audited_env = 0"
  by (simp_all add: audited_env_def audited_system_def)

lemma audited_session_simps:
  "se_log audited_session = []" "se_app audited_session = [Created (the_sid audited_env)]" "se_stash audited_session = []"
  "se_resend_range audited_session = None" "se_store audited_session = (memory_store_new 0, 0)"
  "se_inbound audited_session" "se_received_logon audited_session" "se_sent_logon audited_session"
  "se_outbound audited_session = Some \<lparr>out_sent = [], out_closed = False\<rparr>"
  "se_sent_logout audited_session = False" "se_received_reset audited_session = False"
  "se_sent_reset audited_session = False" "se_test_request_counter audited_session = 0"
  by (simp_all add: audited_session_def session_spawn_def audited_env_simps channel_application_def default_application_def)

lemma audited_deliverable: "deliverable audited_env audited_session (to_bytes order_message) (wire_form order_message)"
proof -
  have "get_time audited_env SENDING_TIME (wire_form order_message) = Some \<lparr>ts_time = 0, ts_precision = Millis\<rparr>"
    using order_time by (simp add: get_time_def audited_env_simps)
  then have "acceptable audited_env audited_session (wire_form order_message)"
    by (simp add: acceptable_def order_type valid_logon_state_def audited_session_simps too_late_def
        comp_ids_ok_def order_fields sample_cfg_def session_id_new_def audited_env_simps)
  moreover have "next_target audited_env audited_session = 1"
    by (simp add: next_target_def audited_env_simps audited_session_simps audited_restarts memory_store_new_def)
  moreover have "dictionary_reject audited_env (wire_form order_message) = None"
    using order_checks(2) by (simp add: dictionary_reject_def audited_env_simps)
  ultimately show ?thesis
    unfolding deliverable_def using order_parses order_type(1) order_checks(1,3) order_seq
    by (simp add: audited_env_simps audited_session_simps)
qed

lemma audited_frame:
  "(on_inbound audited_env 0 (to_bytes order_message) audited_session :: (unit, unit) outcome \<times> _) = (Done (), audited_after)"
proof -
  let ?m = "wire_form order_message"
  have t: "next_target audited_env audited_session = 1"
    by (simp add: next_target_def audited_env_simps audited_session_simps audited_restarts memory_store_new_def)
  let ?s1 = "audited_session\<lparr>se_log := se_log audited_session @ [LogIncoming (to_bytes order_message)],
    se_last_received_seq := next_target audited_env audited_session\<rparr>"
  have na: "\<not> is_admin ?m" using msg_type_admin(1) [OF order_type(1)] order_checks(1) by simp
  let ?s2 = "(heard audited_env ?s1)\<lparr>se_app := [Created (the_sid audited_env), AppMsg ?m (the_sid audited_env)],
    se_store := snd (so_incr_target audited_ops (memory_store_new 0, 0))\<rparr>"
  have "next_target audited_env ?s1 = 1" using t by (simp add: next_target_def)
  then have "handle_app_message audited_env ?m ?s1 = (Done (), ?s2)" if "acceptable audited_env ?s1 ?m"
    using verify_in_sequence [OF that, of True True] order_seq
      channel_callback [of audited_env, OF audited_env_simps(4) na]
    by (simp add: handle_app_message_def if_continue_def bnd_def audited_incr_target audited_env_simps heard_def
        audited_session_simps)
  then have "(on_inbound audited_env 0 (to_bytes order_message) audited_session :: (unit, unit) outcome \<times> _)
      = (Done (), ?s2\<lparr>se_last_processed_was_queued := False\<rparr>)"
    by (rule app_frame_inbound [OF audited_deliverable]) (simp_all add: heard_def audited_session_simps)
  then show ?thesis by (simp add: audited_after_def t audited_session_simps)
qed

lemma audited_run: "session_run audited_env audited_session [InFrame (to_bytes order_message)] audited_after"
proof (rule session_run.input [where now = 0 and utc = 0 and fuel = 0, OF _ _ session_run.idle])
  have at: "at_time 0 0 audited_env = audited_env" by (simp add: audited_env_def)
  show "enabled (at_time 0 0 audited_env) audited_session (InFrame (to_bytes order_message))"
    by (simp add: audited_session_simps)
  show "(run_input (at_time 0 0 audited_env) 0 (InFrame (to_bytes order_message)) audited_session :: (unit, reply) outcome \<times> _)
      = (Done NoReply, audited_after)"
    using audited_frame by (simp add: at thn_def bnd_def ret_def)
qed

theorem app_messages_delivered_in_order_witness:
  "\<exists>runs. delivered (se_app audited_after) = delivered (se_app audited_session) @ map Some (concat runs)
    \<and> length runs = 1 \<and> delivered (se_app audited_after) = [Some 1]
    \<and> in_order (expected_number audited_session) runs (expected_number audited_after)"
proof -
  have "delivered (se_app audited_after) = [Some 1]"
    by (simp add: audited_after_def delivered_def order_seq)
  moreover have "restarts audited_after = restarts audited_session"
    by (simp add: audited_after_def restarts_def audited_session_simps audited_restarts memory_store_new_def u64_add_def)
  ultimately show ?thesis
    using app_messages_delivered_in_order [of sample_cfg None None sample_chrono utc_only 0 0,
      folded audited_env_def, OF audited_run] by auto
qed

end
