(* ===== verification/Session_Stash.thy ===== *)
theory Session_Stash
  imports Session_Delivery
begin

text \<open>
  The stash of messages that arrived too early. Replaying it always ends: a replayed message is
  removed from the stash first, and what processing it may put back has a number that is not the
  one looked up next, unless a Logon reset the numbers in between, which can happen only once.
  The number of rounds is bounded by the size of the stash, so the fuel of \<open>drain_stash\<close> is not a
  restriction. Also here: what the textual test for a queued Logon loses.
\<close>

section \<open>Commands that never run out of fuel\<close>

definition returns :: "('s, 'e, 'a) cmd \<Rightarrow> bool" where
  "returns m \<longleftrightarrow> (\<forall>s. fst (m s) \<noteq> OutOfFuel)"

lemma returnsD: "returns m \<Longrightarrow> fst (m s) \<noteq> OutOfFuel"
  by (simp add: returns_def)

lemma returns_basic:
  "returns (ret a)" "returns (raise x)" "returns (gets f)" "returns (modify g)" "returns (event t)"
  "returns (on_store op)" "returns (\<lambda>s. (Unwind, s))" "returns (lift_res r)"
  by (simp_all add: returns_def ret_def raise_def gets_def modify_def event_def on_store_def lift_res_def
      split: prod.splits res.splits)

lemma returns_bnd: "returns m \<Longrightarrow> (\<And>a. returns (f a)) \<Longrightarrow> returns (bnd m f)"
  by (auto simp: returns_def bnd_def split: prod.splits outcome.splits) (metis fst_conv)+

lemma returns_thn: "returns m \<Longrightarrow> returns k \<Longrightarrow> returns (thn m k)"
  unfolding thn_def by (rule returns_bnd)

lemma returns_wrapped:
  "returns m \<Longrightarrow> returns (discard m)" "returns m \<Longrightarrow> returns (map_err h m)" "returns m \<Longrightarrow> returns (attempt m)"
  by (auto simp: returns_def discard_def map_err_def attempt_def split: prod.splits outcome.splits) (metis fst_conv)+

lemma returns_control:
  "returns m \<Longrightarrow> returns (whenM b m)" "returns m \<Longrightarrow> returns k \<Longrightarrow> returns (if b then m else k)"
  "(\<And>s. returns (g s)) \<Longrightarrow> returns (look g)"
  by (simp_all add: returns_def whenM_def ret_def look_def)

lemma returns_calls:
  "returns (call_on_logout e)" "returns (call_on_logon e)" "returns (call_to_admin e m)" "returns (call_to_app e m)"
  "returns (call_from e m)"
  by (simp_all add: returns_def call_on_logout_def call_on_logon_def modify_def call_to_admin_def call_to_app_def
      call_from_def split: prod.splits)

lemmas returns_rules = returns_basic returns_bnd returns_thn returns_wrapped returns_control returns_calls

lemma returns_stores:
  "returns (persist e n raw)" "returns (incr_target_op e)" "returns (incr_target e)" "returns (store_reset e)"
  "returns (store_refresh e)" "returns (disconnect e reason)"
  unfolding persist_def incr_target_def incr_target_op_def store_reset_def store_refresh_def disconnect_def
  by (auto intro!: returns_rules)

lemma returns_send_message: "returns (transmit e raw)" "returns (send_message e m)"
  unfolding send_message_def run_to_callback_def transmit_def Let_def
  by (auto intro!: returns_rules returns_stores split: option.splits sum.splits)

lemma returns_sends:
  "returns (initiate_logout e reason)" "returns (send_resend_request e b r)" "returns (send_gap_fill e b n)"
  "returns (send_logon_reply e h)" "returns (send_logon e)" "returns (send_reject e m rej)"
  "returns (send_business_reject e m)"
  unfolding initiate_logout_def send_resend_request_def send_gap_fill_def send_logon_reply_def send_logon_def
    send_reject_def send_business_reject_def Let_def
  by (auto intro!: returns_rules returns_stores returns_send_message)

lemmas returns_sending = returns_rules returns_stores returns_send_message returns_sends

lemma returns_close_gap: "returns (close_gap e g n)"
  unfolding close_gap_def by (auto intro!: returns_sending split: option.splits)

lemma returns_retransmit_loop: "returns (retransmit_loop e stored g seqs)"
proof (induction seqs arbitrary: g)
  case (Cons seq seqs)
  then show ?case by (auto intro!: returns_sending returns_close_gap split: res.splits option.splits)
qed (auto intro!: returns_rules)

lemma returns_answer_resend: "returns (answer_resend e b n)"
  unfolding answer_resend_def retransmit_def
  by (auto intro!: returns_sending returns_retransmit_loop returns_close_gap split: sum.splits)

lemma returns_checks:
  "returns (on_target_too_high e m n x)" "returns (on_target_too_low e m n x)"
  unfolding on_target_too_high_def on_target_too_low_def Let_def
  by (auto intro!: returns_sending split: option.splits)

lemma returns_verify_seq: "returns (verify_seq e m h l)"
  unfolding verify_seq_def by (auto intro!: returns_sending returns_checks split: sum.splits)

lemma returns_run_from_callback: "returns (run_from_callback e m)"
  unfolding run_from_callback_def by (auto intro!: returns_sending split: option.splits application_error.splits)

lemma returns_verify: "returns (verify e m h l)"
  unfolding verify_def
  by (auto intro!: returns_sending returns_verify_seq returns_run_from_callback split: option.splits)

lemma returns_if_continue: "returns v \<Longrightarrow> returns k \<Longrightarrow> returns (if_continue v k)"
  unfolding if_continue_def by (auto intro!: returns_rules split: flow.splits)

lemmas returns_handling = returns_sending returns_if_continue returns_verify returns_answer_resend returns_checks

lemma returns_accept_logon: "returns (accept_logon e m)"
  unfolding accept_logon_def read_next_expected_def reply_to_logon_def logon_sequence_def finish_logon_def Let_def
  by (auto intro!: returns_handling split: option.splits sum.splits)

lemma returns_handle_logon: "returns (handle_logon e m)"
  unfolding handle_logon_def logon_reset_def acceptor_prepare_def
  by (auto intro!: returns_handling returns_accept_logon)

lemma returns_handlers:
  "returns (handle_plain_admin e m)" "returns (handle_app_message e m)" "returns (handle_test_request e m)"
  "returns (handle_resend_request e m)" "returns (handle_logout e m)" "returns (handle_sequence_reset e m)"
  unfolding handle_plain_admin_def handle_app_message_def handle_test_request_def handle_resend_request_def
    handle_logout_def handle_sequence_reset_def Let_def
  by (auto intro!: returns_handling split: option.splits)

lemma returns_dispatch: "returns (dispatch e mt m)"
  unfolding dispatch_def by (intro returns_control returns_handle_logon returns_handlers)

lemma returns_process: "returns (process e m)"
  unfolding process_def Let_def
  by (auto intro!: returns_sending returns_dispatch split: option.splits sum.splits)

lemma returns_replay: "returns (replay e n raw)"
  unfolding replay_def by (auto intro!: returns_sending returns_process split: res.splits)

section \<open>What a command does to the stash\<close>

abbreviation stash_keys :: "('st, 'ap) session \<Rightarrow> u64 set" where
  "stash_keys s \<equiv> fst ` set (se_stash s)"

text \<open>Nothing is added; or the stash is left alone or dropped, and the expected number left alone or reset.\<close>

definition thins :: "('st, 'ap) session \<Rightarrow> ('st, 'ap) session \<Rightarrow> bool" where
  "thins s s' \<longleftrightarrow> stash_keys s' \<subseteq> stash_keys s \<and> length (se_stash s') \<le> length (se_stash s)"

definition calm :: "('st, 'ap) env \<Rightarrow> ('st, 'ap) session \<Rightarrow> ('st, 'ap) session \<Rightarrow> bool" where
  "calm e s s' \<longleftrightarrow>
     (se_stash s' = se_stash s \<or> se_stash s' = []) \<and> (next_target e s' = next_target e s \<or> next_target e s' = 1)"

text \<open>One message was added, under a number above the expected one.\<close>

definition grown :: "('st, 'ap) env \<Rightarrow> ('st, 'ap) session \<Rightarrow> ('st, 'ap) session \<Rightarrow> bool" where
  "grown e s s' \<longleftrightarrow>
     (\<exists>n raw st. se_stash s' = bt_insert n raw st \<and> (st = se_stash s \<or> st = [])
        \<and> (next_target e s' = next_target e s \<or> next_target e s' = 1)
        \<and> (next_target e s' < n \<or> next_target e s = 0 \<and> n = 1))"

definition settled :: "('st, 'ap) env \<Rightarrow> ('st, 'ap) session \<Rightarrow> ('st, 'ap) session \<Rightarrow> bool" where
  "settled e s s' \<longleftrightarrow> thins s s' \<or> grown e s s'"

lemma thins_refl: "thins s s"
  by (simp add: thins_def)

lemma thins_trans: "thins s t \<Longrightarrow> thins t u \<Longrightarrow> thins s u"
  unfolding thins_def by (meson order_trans)

lemma calm_thins: "calm e s s' \<Longrightarrow> thins s s'"
  by (auto simp: calm_def thins_def)

lemma grownI:
  assumes "se_stash s' = bt_insert n raw st" and "st = se_stash s \<or> st = []"
    and "next_target e s' = next_target e s \<or> next_target e s' = 1"
    and "next_target e s' < n \<or> next_target e s = 0 \<and> n = 1"
  shows "grown e s s'"
  using assms unfolding grown_def by blast

lemma calm_settled:
  assumes "calm e s t" and "settled e t u"
  shows "settled e s u"
proof (cases "thins t u")
  case True
  then show ?thesis using thins_trans [OF calm_thins [OF assms(1)]] by (simp add: settled_def)
next
  case False
  then obtain n raw st where "se_stash u = bt_insert n raw st" "st = se_stash t \<or> st = []"
    "next_target e u = next_target e t \<or> next_target e u = 1"
    "next_target e u < n \<or> next_target e t = 0 \<and> n = 1"
    using assms(2) unfolding settled_def grown_def by blast
  then have "grown e s u" using assms(1) by (intro grownI [of u n raw st]) (auto simp: calm_def)
  then show ?thesis by (simp add: settled_def)
qed

lemma settled_calm:
  assumes "settled e s t" and "calm e t u"
  shows "settled e s u"
proof (cases "thins s t \<or> se_stash u = []")
  case True
  then show ?thesis using thins_trans [OF _ calm_thins [OF assms(2)]] by (auto simp: settled_def thins_def)
next
  case False
  then obtain n raw st where g: "se_stash t = bt_insert n raw st" "st = se_stash s \<or> st = []"
    "next_target e t = next_target e s \<or> next_target e t = 1"
    "next_target e t < n \<or> next_target e s = 0 \<and> n = 1"
    using assms(1) unfolding settled_def grown_def by blast
  have u: "se_stash u = se_stash t" "next_target e u = next_target e t \<or> next_target e u = 1"
    using assms(2) False by (auto simp: calm_def)
  have "next_target e u < n \<or> next_target e s = 0 \<and> n = 1" using g(3,4) u(2) by arith
  with g u have "grown e s u" by (intro grownI [of u n raw st]) auto
  then show ?thesis by (simp add: settled_def)
qed

interpretation thin: sending_relation thins e for e
  by unfold_locales (simp_all add: thins_refl thins_trans, simp_all add: thins_def push_out_def disconnect_state_def)

text \<open>
  Sessions whose store moves the expected number only when asked to: saving, reading back and
  refreshing leave it alone, and a reset makes it 1.
\<close>

locale numbered_session =
  fixes e :: "('st, 'ap) env"
  assumes save_target: "so_next_target (en_ops e) (snd (save_message_and_incr (en_ops e) n raw st)) = so_next_target (en_ops e) st"
    and sender_target: "so_next_target (en_ops e) (snd (so_incr_sender (en_ops e) st)) = so_next_target (en_ops e) st"
    and get_target: "so_next_target (en_ops e) (snd (so_get (en_ops e) b n st)) = so_next_target (en_ops e) st"
    and refresh_target: "so_next_target (en_ops e) (snd (so_refresh (en_ops e) utc st)) = so_next_target (en_ops e) st"
    and reset_target: "so_next_target (en_ops e) (snd (so_reset (en_ops e) utc st)) = 1"

sublocale numbered_session \<subseteq> calm: transmit_relation "calm e" e
  by unfold_locales
     (auto simp: calm_def next_target_def push_out_def disconnect_state_def save_target sender_target get_target reset_target)


section \<open>Every handler settles\<close>

definition settles :: "('st, 'ap) env \<Rightarrow> (('st, 'ap) session, 'e, 'a) cmd \<Rightarrow> bool" where
  "settles e m \<longleftrightarrow> (\<forall>s. settled e s (snd (m s)))"

text \<open>A check: whatever it does settles, and when it lets the handler go on it was calm.\<close>

definition guards :: "('st, 'ap) env \<Rightarrow> ('a \<Rightarrow> bool) \<Rightarrow> (('st, 'ap) session, 'e, 'a) cmd \<Rightarrow> bool" where
  "guards e go m \<longleftrightarrow>
     (\<forall>s. settled e s (snd (m s)) \<and> (\<forall>a. fst (m s) = Done a \<longrightarrow> go a \<longrightarrow> calm e s (snd (m s))))"

lemma settles_thin: "keeps thins m \<Longrightarrow> settles e m"
  by (simp add: settles_def settled_def keeps_def)

lemma settles_after_calm:
  assumes "keeps (calm e) m" and "\<And>a. settles e (f a)"
  shows "settles e (bnd m f)"
  unfolding settles_def
proof
  fix s
  obtain r t where m: "m s = (r, t)" by (cases "m s")
  have st: "calm e s t" using assms(1) m by (metis keeps_def snd_conv)
  show "settled e s (snd (bnd m f s))"
  proof (cases r)
    case (Done a)
    then show ?thesis using m calm_settled [OF st] assms(2) [of a, unfolded settles_def, rule_format, of t]
      by (simp add: bnd_def)
  qed (use m calm_thins [OF st] in \<open>simp_all add: bnd_def settled_def\<close>)
qed

lemma settles_then_calm:
  assumes "settles e m" and "\<And>a. keeps (calm e) (f a)"
  shows "settles e (bnd m f)"
  unfolding settles_def
proof
  fix s
  obtain r t where m: "m s = (r, t)" by (cases "m s")
  have st: "settled e s t" using assms(1) m by (metis settles_def snd_conv)
  show "settled e s (snd (bnd m f s))"
  proof (cases r)
    case (Done a)
    then show ?thesis using m settled_calm [OF st] assms(2) [of a, unfolded keeps_def, rule_format, of t]
      by (simp add: bnd_def)
  qed (use m st in \<open>simp_all add: bnd_def\<close>)
qed

lemma guards_bnd:
  assumes "guards e go m" and "yields Q m" and "\<And>a. go a \<Longrightarrow> guards e go' (f a)"
    and "\<And>a. \<not> go a \<Longrightarrow> Q a \<Longrightarrow> keeps (calm e) (f a) \<and> yields (\<lambda>b. \<not> go' b) (f a)"
  shows "guards e go' (bnd m f)"
  unfolding guards_def
proof
  fix s
  obtain r t where m: "m s = (r, t)" by (cases "m s")
  have st: "settled e s t" "\<And>a. r = Done a \<Longrightarrow> go a \<Longrightarrow> calm e s t" using assms(1) m by (auto simp: guards_def dest: spec [of _ s])
  show "settled e s (snd (bnd m f s)) \<and> (\<forall>b. fst (bnd m f s) = Done b \<longrightarrow> go' b \<longrightarrow> calm e s (snd (bnd m f s)))"
  proof (cases r)
    case (Done a)
    obtain r' u where u: "f a t = (r', u)" by (cases "f a t")
    show ?thesis
    proof (cases "go a")
      case True
      have "settled e t u" "\<And>b. r' = Done b \<Longrightarrow> go' b \<Longrightarrow> calm e t u"
        using assms(3) [OF True] u by (auto simp: guards_def dest: spec [of _ t])
      then show ?thesis
        using m Done u calm_settled [OF st(2) [OF Done True]] st(2) [OF Done True] by (auto simp: bnd_def calm_def)
    next
      case False
      have "calm e t u" "\<And>b. r' = Done b \<Longrightarrow> \<not> go' b"
        using assms(4) [OF False yieldsD [OF assms(2)]] m Done u
        by (metis keeps_def snd_conv, metis yieldsD)
      then show ?thesis using m Done u settled_calm [OF st(1)] by (auto simp: bnd_def)
    qed
  qed (use m st in \<open>simp_all add: bnd_def\<close>)
qed

lemma guards_stop: "keeps thins m \<Longrightarrow> yields (\<lambda>a. \<not> go a) m \<Longrightarrow> guards e go m"
  by (auto simp: guards_def keeps_def settled_def yields_def)

lemma guards_calm: "keeps (calm e) m \<Longrightarrow> guards e go m"
  using calm_thins by (auto simp: guards_def keeps_def settled_def)

lemma guards_ret: "guards e go (ret a)"
  by (rule guards_calm) (simp add: keeps_def ret_def calm_def)

lemma guards_after_calm: "keeps (calm e) m \<Longrightarrow> (\<And>a. guards e go (f a)) \<Longrightarrow> guards e go (bnd m f)"
  by (rule guards_bnd [where go = "\<lambda>_. True" and Q = "\<lambda>_. True", OF guards_calm]) (simp_all add: yields_def)

lemma guards_settles: "guards e go m \<Longrightarrow> settles e m"
  by (simp add: guards_def settles_def)

lemma settles_if_continue:
  assumes "guards e (\<lambda>fl. fl = Continue) v" and "settles e k"
  shows "settles e (if_continue v k)"
  unfolding settles_def
proof
  fix s
  obtain r t where v: "v s = (r, t)" by (cases "v s")
  have st: "settled e s t" "r = Done Continue \<Longrightarrow> calm e s t" using assms(1) v by (auto simp: guards_def dest: spec [of _ s])
  show "settled e s (snd (if_continue v k s))"
    using v st calm_settled [OF st(2)] assms(2) [unfolded settles_def, rule_format, of t]
    by (cases r) (auto simp: if_continue_def bnd_def ret_def split: flow.splits)
qed

lemma thin_call_from: "keeps thins (call_from e m)"
  by (auto simp: keeps_def call_from_def thins_def split: prod.splits)

context numbered_session
begin

lemma too_high_settled:
  assumes "next_target e s < n"
  shows "settled e s (snd (on_target_too_high e m n x s))"
proof -
  let ?t = "s\<lparr>se_log := se_log s @ [LogEvent (''MsgSeqNum too high, expecting '' @ dec_nat x @ '' but received '' @ dec_nat n)],
     se_stash := bt_insert n (to_bytes m) (se_stash s)\<rparr>"
  have "grown e s ?t" using assms by (intro grownI [of ?t n "to_bytes m" "se_stash s"]) (simp_all add: next_target_def)
  moreover have "calm e ?t (snd (bnd (gets (\<lambda>s. se_resend_range s \<noteq> None \<and> \<not> cfg_send_redundant_resend_requests (en_cfg e))) (\<lambda>suppress.
     whenM (\<not> suppress)
       (map_err (\<lambda>er. ''failed to send ResendRequest: '' @ error_display er)
          (send_resend_request e x n))) ?t :: (bytes, unit) outcome \<times> _))"
    by (intro calm.keepsD calm.keeps_rules calm.keeps_replies)
  ultimately show ?thesis
    using settled_calm [of e s ?t]
    by (simp add: on_target_too_high_def settled_def thn_def bnd_def [of "event _"] bnd_def [of "modify _"] event_def modify_def)
qed

lemma guards_verify_seq: "guards e (\<lambda>r. r = None) (verify_seq e m h l)"
proof (cases "seq_num m")
  case (Inl c)
  then show ?thesis
    unfolding verify_seq_def
    by (auto intro!: guards_ret guards_stop thin.keeps_sending thin.keeps_sends yields_intros)
next
  case (Inr n)
  let ?body = "\<lambda>(expected, queued). (if h \<and> expected < n then
              thn (on_target_too_high e m n expected) (ret (Some StopFlow))
            else if l \<and> n < expected then
              (if queued \<and> type_or_empty m = MT_SEQUENCE_RESET \<and> get_raw GAP_FILL_FLAG (body m) = Some ''Y''
               then thn (event (''SequenceReset-GapFill '' @ dec_nat n @ '' is too low (expected ''
                           @ dec_nat expected @ ''), obeying it anyway'')) (ret None)
               else bnd (on_target_too_low e m n expected) (\<lambda>fl. ret (Some fl)))
            else ret None) :: (('st, 'ap) session, bytes, flow option) cmd"
  have b: "settled e s (snd (?body p s)) \<and> (fst (?body p s) = Done None \<longrightarrow> calm e s (snd (?body p s)))"
    if "p = (next_target e s, se_last_processed_was_queued s)" for s p
  proof (cases "h \<and> next_target e s < n")
    case True
    obtain r t where o: "on_target_too_high e m n (next_target e s) s = (r, t)"
      by (cases "on_target_too_high e m n (next_target e s) s")
    have "settled e s t" using too_high_settled [of s n m "next_target e s"] True o by simp
    with True o that show ?thesis by (cases r) (simp_all add: thn_def bnd_def ret_def)
  next
    case False
    have "guards e (\<lambda>r. r = None) (thn (event t) (ret None))" for t
      by (intro guards_calm calm.keeps_rules)
    moreover have "guards e (\<lambda>r. r = None) (bnd (on_target_too_low e m n x) (\<lambda>fl. ret (Some fl)))" for x
      by (intro guards_stop thin.keeps_rules thin.keeps_on_target_too_low yields_bnd yields_ret) simp
    ultimately have "guards e (\<lambda>r. r = None) (?body p)" using False that by (auto intro!: guards_ret)
    then show ?thesis by (auto simp: guards_def)
  qed
  show ?thesis
  proof (cases "h \<or> l")
    case True
    then have "verify_seq e m h l s = ?body (next_target e s, se_last_processed_was_queued s) s" for s
      using Inr by (simp add: verify_seq_def bnd_def gets_def)
    with b show ?thesis by (auto simp: guards_def)
  qed (simp add: verify_seq_def guards_calm calm.keeps_ret)
qed

lemma guards_run_from_callback: "guards e (\<lambda>fl. fl = Continue) (run_from_callback e m)"
proof -
  have c: "keeps (calm e) (call_from e m :: (('st, 'ap) session, bytes, application_error option) cmd)"
    by (auto simp: keeps_def call_from_def calm_def next_target_def split: prod.splits)
  show ?thesis
    unfolding run_from_callback_def
    by (rule guards_after_calm [OF c])
       (auto split: option.splits application_error.splits
         intro!: guards_ret guards_stop thin.keeps_sending thin.keeps_sends yields_intros)
qed

lemma guards_verify: "guards e (\<lambda>fl. fl = Continue) (verify e m h l)"
proof -
  have seq: "guards e (\<lambda>fl. fl = Continue) (bnd (verify_seq e m h l) (\<lambda>r. case r of Some fl \<Rightarrow> ret fl
      | None \<Rightarrow> thn (modify (\<lambda>s. s\<lparr>se_last_received := en_now e, se_test_request_counter := 0\<rparr>)) (run_from_callback e m)))"
  proof (rule guards_bnd [OF guards_verify_seq verify_seq_stops])
    have "keeps (calm e) (modify (\<lambda>s. s\<lparr>se_last_received := en_now e, se_test_request_counter := 0\<rparr>) :: (('st, 'ap) session, bytes, unit) cmd)"
      by (intro calm.keeps_modify) (simp add: calm_def next_target_def)
    then show "guards e (\<lambda>fl. fl = Continue) (case r of Some fl \<Rightarrow> ret fl
      | None \<Rightarrow> thn (modify (\<lambda>s. s\<lparr>se_last_received := en_now e, se_test_request_counter := 0\<rparr>)) (run_from_callback e m))"
      if "r = None" for r
      using that unfolding thn_def
      by (auto intro!: guards_after_calm guards_run_from_callback)
  qed (auto intro!: calm.keeps_ret yields_ret)
  show ?thesis
    unfolding verify_def
    by (rule guards_after_calm [OF calm.keeps_gets])
       (auto split: option.splits intro!: seq guards_stop thin.keeps_sending thin.keeps_sends yields_intros)
qed

end

context numbered_session
begin

lemma settles_handlers:
  "settles e (handle_plain_admin e m)" "settles e (handle_app_message e m)" "settles e (handle_test_request e m)"
  "settles e (handle_resend_request e m)" "settles e (handle_logout e m)"
  unfolding handle_plain_admin_def handle_app_message_def handle_test_request_def handle_resend_request_def
    handle_logout_def incr_target_def
  by (rule settles_if_continue [OF guards_verify], rule settles_thin,
      (auto intro!: thin.keeps_sending thin.keeps_sends thin.keeps_answer_resend) [1])+

lemma settles_handle_sequence_reset: "settles e (handle_sequence_reset e m)"
proof -
  have "keeps thins (modify (\<lambda>s. s\<lparr>se_stash := filter (\<lambda>(k, _). n \<le> k) (se_stash s)\<rparr>) :: (('st, 'ap) session, bytes, unit) cmd)"
    "keeps thins (on_store (so_set_target (en_ops e) n))" for n
    by (auto intro!: thin.keeps_modify thin.keeps_store simp: thins_def)
  then show ?thesis
    unfolding handle_sequence_reset_def Let_def
    by (intro settles_if_continue [OF guards_verify])
       (auto intro!: settles_thin thin.keeps_sending thin.keeps_sends split: option.splits)
qed

lemma calm_flags:
  "keeps (calm e) (modify (\<lambda>s. s\<lparr>se_received_logon := True\<rparr>))"
  "keeps (calm e) (modify (\<lambda>s. s\<lparr>se_received_reset := True\<rparr>))"
  "keeps (calm e) (modify (\<lambda>s. s\<lparr>se_sent_reset := False, se_received_reset := False\<rparr>))"
  "keeps (calm e) (call_on_logon e)" "keeps (calm e) (store_refresh e)"
  unfolding call_on_logon_def store_refresh_def
  by (intro calm.keeps_modify calm.keeps_store; simp add: calm_def next_target_def refresh_target)+

lemmas calm_rules = calm.keeps_sending calm.keeps_replies calm.keeps_answer_resend calm_flags

lemma stash_range_settled:
  assumes "next_target e s < n"
  shows "settled e s (snd (thn (event t)
    (modify (\<lambda>s. s\<lparr>se_stash := bt_insert n raw (se_stash s), se_resend_range := r\<rparr>)) s :: ('e, unit) outcome \<times> _))"
  using assms grownI [of "s\<lparr>se_log := se_log s @ [LogEvent t], se_stash := bt_insert n raw (se_stash s), se_resend_range := r\<rparr>"
      n raw "se_stash s" s e]
  by (simp add: thn_def bnd_def event_def modify_def settled_def next_target_def)

lemma settles_logon_sequence: "settles e (logon_sequence e m)"
  unfolding settles_def
proof
  fix s
  have low: "settled e s (snd (incr_target e s))" unfolding incr_target_def
    by (rule settles_thin [unfolded settles_def, rule_format]) (intro thin.keeps_rules thin.keeps_incr_target)
  show "settled e s (snd (logon_sequence e m s))"
  proof (cases "seq_num m")
    case (Inr n)
    then show ?thesis
      using low too_high_settled [of s n m "next_target e s"]
      unfolding logon_sequence_def by (simp add: bnd_def [of "gets _"] gets_def stash_range_settled)
  qed (simp add: logon_sequence_def raise_def settled_def thins_refl)
qed

lemma settles_accept_logon: "settles e (accept_logon e m)"
proof -
  have "keeps (calm e) (finish_logon e rf)" for rf
    unfolding finish_logon_def by (auto intro!: calm_rules split: option.splits)
  moreover have "keeps (calm e) (reply_to_logon e m)" "keeps (calm e) (read_next_expected e m)"
    unfolding reply_to_logon_def read_next_expected_def Let_def by (auto intro!: calm_rules split: option.splits)
  ultimately show ?thesis
    unfolding accept_logon_def thn_def
    by (intro settles_after_calm calm_flags settles_then_calm [OF settles_logon_sequence])
qed

lemma settles_handle_logon: "settles e (handle_logon e m)"
proof -
  have "keeps (calm e) (logon_reset e m)" "keeps (calm e) (acceptor_prepare e)"
    unfolding logon_reset_def acceptor_prepare_def by (auto intro!: calm_rules)
  moreover have "settles e (raise x :: (('st, 'ap) session, bytes, unit) cmd)" for x
    by (intro settles_thin thin.keeps_raise)
  moreover have "settles e (if_continue (verify e m False True) (accept_logon e m))"
    by (rule settles_if_continue [OF guards_verify settles_accept_logon])
  ultimately show ?thesis
    unfolding handle_logon_def thn_def
    by (auto intro!: settles_after_calm calm.keeps_gets)
qed

lemma settles_process: "settles e (process e m)"
  unfolding process_def dispatch_def Let_def
  by (auto intro!: settles_handlers settles_handle_logon settles_handle_sequence_reset settles_thin
      thin.keeps_sending thin.keeps_sends split: option.splits sum.splits)

text \<open>A round of the replay: the stash gets smaller, or there is nothing to replay next, or the numbers were reset.\<close>

lemma replay_settled:
  assumes "replay e k raw s = (r, s')" and "k \<in> stash_keys s"
  shows "\<exists>t. se_stash t = bt_remove k (se_stash s) \<and> next_target e t = next_target e s \<and> settled e t s'"
proof -
  let ?t = "s\<lparr>se_stash := bt_remove k (se_stash s),
     se_log := se_log s @ [LogEvent (''Processing queued message: '' @ dec_nat k)], se_last_processed_was_queued := True\<rparr>"
  let ?c = "if contains_field raw ''35=A'' \<or> contains_field raw ''35=2'' then incr_target e
          else case message_parse raw False of
            Ok m \<Rightarrow> process e m
          | Err _ \<Rightarrow> incr_target e
          | Panic \<Rightarrow> (\<lambda>s. (Unwind, s))"
  have "settles e ?c"
    unfolding incr_target_def
    by (auto intro!: settles_process settles_thin [OF thin.keeps_map_err [OF thin.keeps_incr_target]]
        settles_thin [OF thin.keeps_unwind(1)] split: res.splits)
  then have "settled e ?t (snd (?c ?t))" by (simp add: settles_def)
  moreover have "replay e k raw s = ?c ?t"
    by (simp add: replay_def thn_def bnd_def modify_def event_def)
  ultimately have "settled e ?t s'" using assms(1) by (metis snd_conv)
  then show ?thesis by (intro exI [of _ ?t]) (simp add: next_target_def)
qed

end

section \<open>The replay ends\<close>

lemma length_bt_insert: "length (bt_insert k v m) \<le> Suc (length m)"
  by (induction k v m rule: bt_insert.induct) simp_all

lemma bt_remove_keys: "fst ` set (bt_remove k m) = fst ` set m - {k}"
  by (auto simp: bt_remove_def image_iff)

lemma length_bt_remove: "k \<in> fst ` set m \<Longrightarrow> length (bt_remove k m) < length m"
  unfolding bt_remove_def by (auto intro!: length_filter_less)

text \<open>
  Enough rounds: one for each stashed message, twice that when the number 1 is stashed, for a Logon
  may reset the expected number to 1 and be stashed again; and one more when the number 0 is.
\<close>

definition rounds :: "('st, 'ap) session \<Rightarrow> nat" where
  "rounds s = length (se_stash s) + (if 0 \<in> stash_keys s then 1 else 0)"

definition enough :: "('st, 'ap) env \<Rightarrow> ('st, 'ap) session \<Rightarrow> nat \<Rightarrow> bool" where
  "enough e s fuel \<longleftrightarrow>
     next_target e s \<notin> stash_keys s
     \<or> rounds s + (if 1 \<in> stash_keys s \<and> next_target e s \<noteq> 1 then length (se_stash s) else 0) \<le> fuel"

lemma enough_bound: "2 * length (se_stash s) + 1 \<le> fuel \<Longrightarrow> enough e s fuel"
  by (simp add: enough_def rounds_def)

lemma rounds_mono: "thins s s' \<Longrightarrow> rounds s' \<le> rounds s"
  by (auto simp: thins_def rounds_def)

lemma reset_round:
  fixes t n m :: nat
  assumes "t = n \<or> t = 1" and "t < m \<or> n = 0 \<and> m = 1" and "t = m \<or> p \<and> t \<noteq> n" and "z' \<Longrightarrow> 0 = m \<or> z \<and> 0 \<noteq> n"
  shows "t = 1 \<and> n \<noteq> 1 \<and> (n = 0 \<or> p) \<and> (\<not> z' \<or> n \<noteq> 0 \<and> z)"
  using assms by auto

lemma enough_step:
  assumes "enough e s (Suc fuel)" and "next_target e s \<in> stash_keys s"
    and "se_stash t = bt_remove (next_target e s) (se_stash s)" and "next_target e t = next_target e s"
    and "settled e t s'"
  shows "enough e s' fuel"
proof -
  let ?n = "next_target e s"
  have k: "stash_keys t = stash_keys s - {?n}" "length (se_stash t) < length (se_stash s)"
    using assms(2,3) by (simp_all add: bt_remove_keys length_bt_remove)
  show ?thesis
  proof (cases "thins t s'")
    case True
    then have "stash_keys s' \<subseteq> stash_keys s - {?n}" "length (se_stash s') < length (se_stash s)"
      using k by (auto simp: thins_def)
    then show ?thesis using assms(1,2) by (auto simp: enough_def rounds_def split: if_splits)
  next
    case False
    then obtain m raw st where g: "se_stash s' = bt_insert m raw st" "st = se_stash t \<or> st = []"
      "next_target e s' = ?n \<or> next_target e s' = 1" "next_target e s' < m \<or> ?n = 0 \<and> m = 1"
      using assms(4,5) unfolding settled_def grown_def by auto
    have keys: "stash_keys s' \<subseteq> insert m (stash_keys s - {?n})" and len: "length (se_stash s') \<le> length (se_stash s)"
      using g(1,2) k length_bt_insert [of m raw st] by (auto simp: bt_insert_keys)
    show ?thesis
    proof (cases "next_target e s' \<in> stash_keys s'")
      case True
      then have "next_target e s' = m \<or> next_target e s' \<in> stash_keys s \<and> next_target e s' \<noteq> ?n" using keys by blast
      moreover have "0 \<in> stash_keys s' \<Longrightarrow> 0 = m \<or> 0 \<in> stash_keys s \<and> 0 \<noteq> ?n" using keys by blast
      ultimately have "next_target e s' = 1 \<and> ?n \<noteq> 1 \<and> (?n = 0 \<or> next_target e s' \<in> stash_keys s)
        \<and> (0 \<notin> stash_keys s' \<or> ?n \<noteq> 0 \<and> 0 \<in> stash_keys s)"
        by (rule reset_round [OF g(3,4)])
      moreover have "0 < length (se_stash s)" using assms(2) by auto
      ultimately show ?thesis using assms(1,2) len by (auto simp: enough_def rounds_def simp del: length_greater_0_conv split: if_splits)
    qed (simp add: enough_def)
  qed
qed

lemma map_of_key: "k \<in> fst ` set m \<longleftrightarrow> map_of m k \<noteq> None"
  by (simp add: map_of_eq_None_iff)

lemma thn_runs_out: "fst (m s) \<noteq> OutOfFuel \<Longrightarrow> fst (thn m k s) = OutOfFuel \<Longrightarrow> fst (k (snd (m s))) = OutOfFuel"
  by (auto simp: thn_def bnd_def split: prod.splits outcome.splits)

context numbered_session
begin

lemma drain_stash_enough:
  assumes "enough e s fuel"
  shows "fst (drain_stash e fuel s) \<noteq> OutOfFuel"
  using assms
proof (induction fuel arbitrary: s)
  case 0
  then have "next_target e s \<notin> stash_keys s" by (auto simp: enough_def rounds_def)
  then show ?case by (simp add: map_of_key look_def ret_def)
next
  case (Suc fuel)
  show ?case
  proof (cases "map_of (se_stash s) (next_target e s)")
    case (Some raw)
    obtain r s' where rp: "replay e (next_target e s) raw s = (r, s')" by (cases "replay e (next_target e s) raw s")
    have key: "next_target e s \<in> stash_keys s" using Some by (simp add: map_of_key)
    obtain t where "se_stash t = bt_remove (next_target e s) (se_stash s)" "next_target e t = next_target e s" "settled e t s'"
      using replay_settled [OF rp key] by blast
    then have "enough e s' fuel" by (rule enough_step [OF Suc.prems key])
    then have "fst (drain_stash e fuel s') \<noteq> OutOfFuel" by (rule Suc.IH)
    moreover have "fst (replay e (next_target e s) raw s) \<noteq> OutOfFuel" by (rule returnsD [OF returns_replay])
    ultimately show ?thesis
      using thn_runs_out [of "replay e (next_target e s) raw" s "drain_stash e fuel"] Some rp by (auto simp: look_def)
  qed (simp add: look_def ret_def)
qed

lemma process_stash_bound: "length (se_stash (snd (process e m s))) \<le> Suc (length (se_stash s))"
proof -
  have "settled e s (snd (process e m s))" using settles_process by (simp add: settles_def)
  then consider "thins s (snd (process e m s))"
    | n raw st where "se_stash (snd (process e m s)) = bt_insert n raw st" "st = se_stash s \<or> st = []"
    unfolding settled_def grown_def by blast
  then show ?thesis
  proof cases
    case 2
    then show ?thesis using length_bt_insert [of n raw st] by auto
  qed (simp add: thins_def)
qed

lemma on_inbound_enough:
  assumes "2 * length (se_stash s) + 3 \<le> fuel"
  shows "fst (on_inbound e fuel raw s :: ('e, unit) outcome \<times> _) \<noteq> OutOfFuel"
proof (cases "message_parse raw (cfg_validate_length_checksum (en_cfg e))")
  case (Ok m)
  let ?set = "(case seq_num m of Inr seq \<Rightarrow> modify (\<lambda>s. s\<lparr>se_last_received_seq := seq\<rparr>) | Inl _ \<Rightarrow> ret ())
    :: (('st, 'ap) session, 'e, unit) cmd"
  obtain s1 where s1: "?set (s\<lparr>se_log := se_log s @ [LogIncoming raw]\<rparr>) = (Done (), s1)" "se_stash s1 = se_stash s"
    by (cases "seq_num m") (simp_all add: modify_def ret_def)
  obtain r s2 where p: "process e m s1 = (r, s2)" by (cases "process e m s1")
  let ?s3 = "s2\<lparr>se_last_processed_was_queued := False\<rparr>"
  have "length (se_stash s2) \<le> Suc (length (se_stash s))" using process_stash_bound [of m s1] p s1 by simp
  then have "fst (drain_stash e fuel ?s3) \<noteq> OutOfFuel"
    using assms by (intro drain_stash_enough enough_bound) simp
  moreover have "r \<noteq> OutOfFuel" using returnsD [OF returns_process, of e m s1] p by simp
  moreover have "fst (disconnect e reason t :: ('e, unit) outcome \<times> _) \<noteq> OutOfFuel"
    "fst (check_resend_chunks e t :: ('e, unit) outcome \<times> _) \<noteq> OutOfFuel" for reason t
    by (intro returnsD returns_stores, rule returnsD)
       (auto intro!: returns_sending simp: check_resend_chunks_def split: option.splits)
  ultimately show ?thesis
    using Ok s1(1) p
    by (cases r) (auto simp: on_inbound_def or_disconnect_def thn_def bnd_def modify_def attempt_def
        split: prod.splits outcome.splits)
next
  case (Err er)
  have "returns (on_garbled e raw er :: (('st, 'ap) session, 'e, unit) cmd)"
    unfolding on_garbled_def by (auto intro!: returns_sending)
  then show ?thesis using Err by (simp add: on_inbound_def thn_def bnd_def modify_def returns_def)
qed (simp add: on_inbound_def thn_def bnd_def modify_def)

end

lemma memory_numbered: "en_ops e = memory_ops \<Longrightarrow> numbered_session e"
  by unfold_locales (simp_all add: memory_ops_def save_message_and_incr_def ms_save_def ms_trim_def ms_get_def ms_reset_def
      split: option.splits)

interpretation channel: numbered_session "channel_system cfg dd add ch cals now utc" for cfg dd add ch cals now utc
  by (rule memory_numbered) simp

text \<open>
  C9. Handling a received frame ends: with the in-memory store, for any application, configuration,
  dictionaries and state, \<open>on_inbound\<close> returns within a number of replayed messages bounded by the
  size of the stash, whatever the frame makes it send, reset or stash. In particular replaying
  cannot go round in circles, even though a replayed message may be put back.
\<close>

theorem on_inbound_terminates:
  assumes "en_ops e = memory_ops" and "2 * length (se_stash s) + 3 \<le> fuel"
  shows "fst (on_inbound e fuel raw s :: ('e, unit) outcome \<times> _) \<noteq> OutOfFuel"
  by (rule numbered_session.on_inbound_enough [OF memory_numbered [OF assms(1)] assms(2)])

theorem on_inbound_terminates_witness:
  "fst (on_inbound sample_env 3 (to_bytes order_message) online_session :: (unit, unit) outcome \<times> _) \<noteq> OutOfFuel"
  by (rule on_inbound_terminates) (simp_all add: order_checks)

section \<open>Queued messages whose type starts with A\<close>

lemma find_bytes_infix: "n \<noteq> [] \<Longrightarrow> find_bytes n (xs @ n @ ys) \<noteq> None"
  by (induction xs) (auto simp: find_bytes_at)

lemma to_bytes_contains_type:
  assumes "get_raw MSG_TYPE (header m) = Some (p @ mt)"
  shows "contains_field (to_bytes m) (''35='' @ p)"
proof -
  have "dec_int 35 = ''35''" by (simp add: bytes_simps)
  then obtain rest where "to_bytes_inner m = (''35='' @ p) @ rest"
    using assms by (auto simp: to_bytes_inner_def msg_type_field_def write_to_def write_tag_value_def)
  then have "\<exists>xs ys. to_bytes m = xs @ (SOH # ''35='' @ p) @ ys"
    by (intro exI [of _ "''8='' @ begin_string_of m @ SOH # ''9='' @ dec_nat (length (to_bytes_inner m))"] exI)
       (simp add: to_bytes_split)
  then obtain xs ys where "to_bytes m = xs @ (SOH # ''35='' @ p) @ ys" by blast
  then show ?thesis
    using find_bytes_infix [of "SOH # ''35='' @ p" xs ys] by (simp add: contains_field_def)
qed

text \<open>
  C10. A queued application message whose MsgType begins with A (AE, AK, AR, ...) is lost. When its
  turn comes, the test for a queued Logon looks for the text 35=A, which is also the start of
  35=AE; the message is taken out of the stash and its number consumed, but it is never handed to the
  application and nothing is reported to the peer.
\<close>

theorem queued_message_lost:
  assumes "en_ops e = memory_ops" and "get_raw MSG_TYPE (header m) = Some (CHR ''A'' # mt)" and "mt \<noteq> []"
    and "se_stash s = [(next_target e s, to_bytes m)]" and "next_target e s < 2 ^ 64 - 1"
  shows "\<not> is_admin m
    \<and> (\<exists>s'. drain_stash e 1 s = (Done (), s') \<and> se_app s' = se_app s \<and> se_outbound s' = se_outbound s
         \<and> se_stash s' = [] \<and> next_target e s' = next_target e s + 1)"
proof -
  have "contains_field (to_bytes m) ''35=A''" using to_bytes_contains_type [of m "''A''" mt] assms(2) by simp
  then show ?thesis
    using assms
    by (simp add: look_def thn_def bnd_def replay_def modify_def event_def memory_incr_target bt_remove_def
        ret_def next_target_def memory_ops_def u64_add_exact is_admin_def is_admin_type_def)
qed

text \<open>A trade capture report that had arrived one number early.\<close>

definition report_message :: message where
  "report_message = set_header MSG_TYPE ''AE'' order_message"

theorem queued_message_lost_witness:
  "\<exists>s'. drain_stash sample_env 1 (online_session\<lparr>se_stash := [(1, to_bytes report_message)]\<rparr>) = (Done (), s')
     \<and> se_app s' = se_app online_session"
proof -
  have "get_raw MSG_TYPE (header report_message) = Some (CHR ''A'' # ''E'')"
    by (simp add: report_message_def order_message_def)
  moreover have "next_target sample_env (online_session\<lparr>se_stash := x\<rparr>) = 1" for x
    using online_next_target by (simp add: next_target_def)
  ultimately show ?thesis
    using queued_message_lost [of sample_env report_message "''E''" "online_session\<lparr>se_stash := [(1, to_bytes report_message)]\<rparr>"]
    by auto
qed


end
