(* ===== verification/Session_Recovery.thy ===== *)
theory Session_Recovery
  imports Session_Resend Session_Delivery
begin

text \<open>
  Recovery of a gap between two sessions: one answers a resend request, the other receives the
  frames of the answer. The receiver hands every stored application message of the gap to its
  application, once and in order, then those that had arrived early and were waiting in its stash;
  the copies of these that the answer also holds are ignored.
\<close>

section \<open>What the receiver does with a frame of the answer\<close>

text \<open>The checks that depend on neither the sequence number nor the state of the session.\<close>

definition receivable :: "('st, 'ap) env \<Rightarrow> message \<Rightarrow> bool" where
  "receivable e m \<longleftrightarrow>
     (case get_time e SENDING_TIME m of None \<Rightarrow> False | Some st \<Rightarrow> cfg_check_latency (en_cfg e) \<longrightarrow> \<not> too_late e st)
     \<and> (cfg_check_comp_id (en_cfg e) \<longrightarrow> comp_ids_ok e m)
     \<and> get_raw BEGIN_STRING (header m) = Some (the_begin e) \<and> dictionary_reject e m = None"

definition app_frame :: "('st, 'ap) env \<Rightarrow> u64 \<Rightarrow> message \<Rightarrow> bool" where
  "app_frame e n m \<longleftrightarrow> receivable e m \<and> seq_num m = Inr n \<and> (\<exists>mt. msg_type m = Inr mt \<and> \<not> is_admin_type mt)"

definition gap_frame :: "('st, 'ap) env \<Rightarrow> u64 \<Rightarrow> u64 \<Rightarrow> message \<Rightarrow> bool" where
  "gap_frame e x y m \<longleftrightarrow> receivable e m \<and> seq_num m = Inr x \<and> msg_type m = Inr MT_SEQUENCE_RESET
     \<and> get_raw GAP_FILL_FLAG (body m) = Some ''Y'' \<and> get_ok decode_u64 NEW_SEQ_NO (body m) = Some y"

text \<open>A possible duplicate whose OrigSendingTime is not after its SendingTime.\<close>

definition genuine_dup :: "('st, 'ap) env \<Rightarrow> message \<Rightarrow> bool" where
  "genuine_dup e m \<longleftrightarrow> poss_dup m
     \<and> (type_or_empty m \<noteq> MT_SEQUENCE_RESET \<and> cfg_requires_orig_sending_time (en_cfg e) \<longrightarrow>
          (case (get_time e ORIG_SENDING_TIME m, get_time e SENDING_TIME m) of
             (Some orig, Some st) \<Rightarrow> ts_time orig \<le> ts_time st | _ \<Rightarrow> False))"

lemma receivable_acceptable:
  "receivable e m \<Longrightarrow> se_received_logon s \<Longrightarrow> type_or_empty m \<noteq> MT_LOGON \<Longrightarrow> acceptable e s m"
  by (simp add: receivable_def acceptable_def valid_logon_state_def)

lemma app_frame_type: "app_frame e n m \<Longrightarrow> \<not> is_admin m \<and> type_or_empty m \<noteq> MT_LOGON \<and> type_or_empty m \<noteq> MT_SEQUENCE_RESET"
  by (auto simp: app_frame_def msg_type_admin is_admin_type_def)

lemma gap_frame_type: "gap_frame e x y m \<Longrightarrow> is_admin m \<and> type_or_empty m = MT_SEQUENCE_RESET"
  by (auto simp: gap_frame_def msg_type_admin is_admin_type_def)

lemma process_app_frame:
  fixes cfg dd add ch cals now utc
  defines "e \<equiv> channel_system cfg dd add ch cals now utc"
  assumes "app_frame e (next_target e s) m" and "se_received_logon s"
  shows "process e m s = (Done (), after_delivery e m s)"
proof -
  obtain mt where "msg_type m = Inr mt" "\<not> is_admin_type mt" "receivable e m" "seq_num m = Inr (next_target e s)"
    using assms(2) by (auto simp: app_frame_def)
  then show ?thesis
    using process_app_message [of m mt e] handle_app_in_sequence [of m cfg dd add ch cals now utc s, folded e_def]
      app_frame_type [OF assms(2)] receivable_acceptable [OF _ assms(3)] by (auto simp: receivable_def)
qed

definition after_gap_fill :: "(memory_store, session_event list) env \<Rightarrow> message \<Rightarrow> u64
    \<Rightarrow> (memory_store, session_event list) session \<Rightarrow> (memory_store, session_event list) session" where
  "after_gap_fill e m y s =
     (heard e s)\<lparr>se_app := se_app s @ [AdminMsg m (the_sid e)],
        se_log := se_log s @ [LogEvent (''Received SequenceReset (GapFill=Y) NewSeqNo='' @ dec_nat y)],
        se_store := (se_store s)\<lparr>ms_next_target := y\<rparr>,
        se_stash := filter (\<lambda>(k, _). y \<le> k) (se_stash s)\<rparr>"

lemma process_gap_frame:
  fixes cfg dd add ch cals now utc
  defines "e \<equiv> channel_system cfg dd add ch cals now utc"
  assumes "gap_frame e (next_target e s) y m" and "se_received_logon s" and "next_target e s < y"
  shows "process e m s = (Done (), after_gap_fill e m y s)"
proof -
  note t = gap_frame_type [OF assms(2)]
  have a: "acceptable e s m"
    using assms(2) t by (intro receivable_acceptable [OF _ assms(3)]) (simp_all add: gap_frame_def)
  have v: "verify e m True True s = (Done Continue, (heard e s)\<lparr>se_app := se_app s @ [AdminMsg m (the_sid e)]\<rparr>)"
    using verify_in_sequence [OF a, of True True] assms(2) t
    by (simp add: gap_frame_def run_from_callback_def call_from_def bnd_def ret_def e_def channel_application_def heard_def)
  have "process e m = handle_sequence_reset e m"
    using assms(2) by (simp add: gap_frame_def receivable_def process_def dispatch_def)
  then show ?thesis
    using assms(2,4) v
    by (simp add: handle_sequence_reset_def gap_frame_def if_continue_def bnd_def thn_def gets_def event_def modify_def
        map_err_def on_store_def e_def memory_ops_def next_target_def after_gap_fill_def heard_def)
qed

definition ignored :: "u64 \<Rightarrow> ('st, 'ap) session \<Rightarrow> ('st, 'ap) session" where
  "ignored n s = s\<lparr>se_log := se_log s @ [LogEvent (''Already received message '' @ dec_nat n @ '', ignoring PossDup'')]\<rparr>"

lemma verify_duplicate:
  assumes "acceptable e s m" and "seq_num m = Inr n" and "n < next_target e s" and "genuine_dup e m"
    and "type_or_empty m \<noteq> MT_SEQUENCE_RESET"
  shows "verify e m True True s = (Done StopFlow, ignored n s)"
proof -
  have "(on_target_too_low e m n (next_target e s) s :: _ \<times> _) = (Done StopFlow, ignored n s)"
    using assms(4) by (auto simp: on_target_too_low_def genuine_dup_def thn_def bnd_def event_def modify_def ret_def Let_def ignored_def
        split: option.splits)
  then have "verify_seq e m True True s = (Done (Some StopFlow), ignored n s)"
    using assms(2,3,5) by (simp add: verify_seq_def bnd_def gets_def ret_def)
  then show ?thesis by (simp add: verify_acceptable [OF assms(1)] bnd_def ret_def)
qed

lemma process_duplicate:
  assumes "app_frame e n m" and "se_received_logon s" and "n < next_target e s" and "genuine_dup e m"
  shows "process e m s = (Done (), ignored n s)"
proof -
  obtain mt where "msg_type m = Inr mt" "\<not> is_admin_type mt" "receivable e m" "seq_num m = Inr n"
    using assms(1) by (auto simp: app_frame_def)
  moreover have "acceptable e s m" "type_or_empty m \<noteq> MT_SEQUENCE_RESET"
    using receivable_acceptable [of e m s] app_frame_type [OF assms(1)] assms(2) calculation(3) by simp_all
  ultimately show ?thesis
    using process_app_message [of m mt e] verify_duplicate [OF _ _ assms(3,4)]
    by (simp add: receivable_def handle_app_message_def if_continue_def bnd_def ret_def)
qed

section \<open>The stash\<close>

definition queued_frame :: "('st, 'ap) env \<Rightarrow> u64 \<Rightarrow> message \<Rightarrow> bytes \<Rightarrow> bool" where
  "queued_frame e n m raw \<longleftrightarrow> message_parse raw False = Ok m \<and> app_frame e n m
     \<and> \<not> contains_field raw ''35=A'' \<and> \<not> contains_field raw ''35=2''"

text \<open>The stash holds the application messages \<open>q\<close> under the numbers from \<open>k\<close> to before \<open>c\<close>, and nothing else.\<close>

definition early :: "('st, 'ap) env \<Rightarrow> u64 \<Rightarrow> u64 \<Rightarrow> (u64 \<Rightarrow> message) \<Rightarrow> bytes btree \<Rightarrow> bool" where
  "early e k c q stash \<longleftrightarrow> fst ` set stash \<subseteq> {k..<c}
     \<and> (\<forall>n \<in> {k..<c}. case map_of stash n of None \<Rightarrow> False | Some raw \<Rightarrow> queued_frame e n (q n) raw)"

lemma early_below: "early e k c q stash \<Longrightarrow> n < k \<Longrightarrow> map_of stash n = None"
  by (force simp: early_def map_of_eq_None_iff)

lemma early_remove: "early e k c q stash \<Longrightarrow> early e (Suc k) c q (bt_remove k stash)"
proof -
  assume e: "early e k c q stash"
  have "map_of (bt_remove k stash) n = map_of stash n" if "n \<noteq> k" for n
    using that by (induction stash) (auto simp: bt_remove_def)
  moreover have "fst ` set (bt_remove k stash) \<subseteq> {Suc k..<c}"
    using e by (force simp: early_def bt_remove_def)
  ultimately show ?thesis using e by (auto simp: early_def)
qed

lemma early_end: "early e c c q stash \<Longrightarrow> stash = []"
  by (simp add: early_def)

definition app_event :: "('st, 'ap) env \<Rightarrow> message \<Rightarrow> session_event" where
  "app_event e m = AppMsg m (the_sid e)"

text \<open>Steps that hand events to the application and send nothing.\<close>

definition handed :: "(memory_store, session_event list) env \<Rightarrow> session_event list
    \<Rightarrow> (memory_store, session_event list) session \<Rightarrow> (memory_store, session_event list) session \<Rightarrow> bool" where
  "handed e evs s s' \<longleftrightarrow> se_app s' = se_app s @ evs \<and> se_received_logon s' = se_received_logon s
     \<and> se_outbound s' = se_outbound s \<and> next_sender e s' = next_sender e s"

lemma handed_refl: "handed e [] s s"
  by (simp add: handed_def)

lemma handed_trans: "handed e evs s t \<Longrightarrow> handed e evs' t u \<Longrightarrow> handed e (evs @ evs') s u"
  by (simp add: handed_def)

lemma handed_delivery: "en_ops e = memory_ops \<Longrightarrow> handed e [app_event e m] s (after_delivery e m s)"
  by (simp add: handed_def after_delivery_def heard_def app_event_def next_sender_def memory_ops_def)

lemma after_delivery_simps:
  "se_stash (after_delivery e m s) = se_stash s" "se_resend_range (after_delivery e m s) = se_resend_range s"
  "en_ops e = memory_ops \<Longrightarrow> next_target e s < 2 ^ 64 - 1 \<Longrightarrow> next_target e (after_delivery e m s) = Suc (next_target e s)"
  by (simp_all add: after_delivery_def heard_def next_target_def memory_ops_def u64_add_exact)

lemma drain_early:
  fixes cfg dd add ch cals now utc
  defines "e \<equiv> channel_system cfg dd add ch cals now utc"
  shows "early e k c q (se_stash s) \<Longrightarrow> next_target e s = k \<Longrightarrow> se_received_logon s \<Longrightarrow> k \<le> c \<Longrightarrow> c < 2 ^ 64 \<Longrightarrow> c - k \<le> fuel \<Longrightarrow>
    \<exists>s'. drain_stash e fuel s = (Done (), s') \<and> handed e (map (\<lambda>n. app_event e (q n)) [k..<c]) s s'
      \<and> next_target e s' = c \<and> se_stash s' = [] \<and> se_resend_range s' = se_resend_range s"
proof (induction "c - k" arbitrary: k s fuel)
  case 0
  then have "se_stash s = []" "k = c" using early_end [of e c q] by auto
  then show ?case using 0 by (cases fuel) (auto simp: look_def ret_def handed_refl)
next
  case (Suc d)
  then obtain f where f: "fuel = Suc f" by (cases fuel) auto
  have k: "k < c" using Suc.hyps(2) by simp
  then obtain raw where raw: "map_of (se_stash s) k = Some raw" "queued_frame e k (q k) raw"
    using Suc.prems(1) by (force simp: early_def split: option.splits)
  let ?s1 = "s\<lparr>se_stash := bt_remove k (se_stash s), se_log := se_log s @ [LogEvent (''Processing queued message: '' @ dec_nat k)],
    se_last_processed_was_queued := True\<rparr>"
  let ?s2 = "after_delivery e (q k) ?s1"
  have n1: "next_target e ?s1 = k" using Suc.prems(2) by (simp add: next_target_def)
  have "process e (q k) ?s1 = (Done (), ?s2)"
    using process_app_frame [of cfg dd add ch cals now utc ?s1 "q k", folded e_def] raw(2) n1 Suc.prems(3)
    by (simp add: queued_frame_def)
  then have r: "replay e k raw s = (Done (), ?s2)"
    using raw(2) by (simp add: replay_def queued_frame_def thn_def bnd_def modify_def event_def)
  have h: "handed e [app_event e (q k)] s ?s2"
    using handed_delivery [of e "q k" ?s1] by (simp add: handed_def e_def next_sender_def)
  have "early e (Suc k) c q (se_stash ?s2)" "next_target e ?s2 = Suc k" "se_received_logon ?s2" "Suc k \<le> c" "c - Suc k \<le> f" "d = c - Suc k"
    using Suc.prems Suc.hyps(2) k n1 f early_remove h
    by (simp_all add: after_delivery_simps, simp_all add: e_def after_delivery_simps handed_def)
  from Suc.hyps(1) [OF this(6,1-4) Suc.prems(5) this(5)] obtain s' where s': "drain_stash e f ?s2 = (Done (), s')"
    "handed e (map (\<lambda>n. app_event e (q n)) [Suc k..<c]) ?s2 s'" "next_target e s' = c" "se_stash s' = []"
    "se_resend_range s' = se_resend_range ?s2" by blast
  have "drain_stash e fuel s = (Done (), s')"
    using f raw(1) r s'(1) Suc.prems(2) by (simp add: look_def thn_def bnd_def)
  moreover have "handed e (map (\<lambda>n. app_event e (q n)) [k..<c]) s s'"
    using handed_trans [OF h s'(2)] k by (simp add: upt_rec [of k])
  ultimately show ?case using s'(3-5) by (auto simp: after_delivery_simps)
qed

section \<open>Receiving the answer\<close>

text \<open>
  The numbers from \<open>a\<close> to before \<open>k\<close> are missing and asked for, those from \<open>k\<close> to before \<open>c\<close> are in the stash;
  or the gap is closed and \<open>c\<close> is expected.
\<close>

definition gap_open ::
  "('st, 'ap) env \<Rightarrow> u64 \<Rightarrow> u64 \<Rightarrow> u64 \<Rightarrow> (u64 \<Rightarrow> message) \<Rightarrow> ('st, 'ap) session \<Rightarrow> bool" where
  "gap_open e a k c q s \<longleftrightarrow> se_received_logon s \<and> next_target e s = a \<and> a < k \<and> k \<le> c \<and> early e k c q (se_stash s)
     \<and> (case se_resend_range s of None \<Rightarrow> False | Some (_, full_end, chunk_end) \<Rightarrow> full_end = k - 1 \<and> chunk_end = k - 1)"

definition gap_closed :: "('st, 'ap) env \<Rightarrow> u64 \<Rightarrow> ('st, 'ap) session \<Rightarrow> bool" where
  "gap_closed e c s \<longleftrightarrow> se_received_logon s \<and> next_target e s = c \<and> se_stash s = [] \<and> se_resend_range s = None"

primrec receive :: "('st, 'ap) env \<Rightarrow> nat \<Rightarrow> bytes list \<Rightarrow> (('st, 'ap) session, 'e, unit) cmd" where
  "receive e fuel [] = ret ()"
| "receive e fuel (raw # raws) = thn (on_inbound e fuel raw) (receive e fuel raws)"

fun item_end :: "resend_item \<Rightarrow> u64" where
  "item_end (GapFill x y) = y"
| "item_end (Replayed n m) = Suc n"

fun item_frame :: "('st, 'ap) env \<Rightarrow> resend_item \<Rightarrow> message \<Rightarrow> bool" where
  "item_frame e (GapFill x y) m \<longleftrightarrow> gap_frame e x y m"
| "item_frame e (Replayed n _) m \<longleftrightarrow> app_frame e n m \<and> genuine_dup e m"

fun item_event :: "('st, 'ap) env \<Rightarrow> resend_item \<Rightarrow> message \<Rightarrow> session_event" where
  "item_event e (GapFill x y) m = AdminMsg m (the_sid e)"
| "item_event e (Replayed n _) m = app_event e m"

fun item_stash :: "resend_item \<Rightarrow> bytes btree \<Rightarrow> bytes btree" where
  "item_stash (GapFill x y) stash = filter (\<lambda>(k, _). y \<le> k) stash"
| "item_stash (Replayed _ _) stash = stash"

lemma tiles_step: "tiles a c (item # items) \<Longrightarrow> a < item_end item \<and> item_end item \<le> c \<and> tiles (item_end item) c items"
  using tiles_bounds [of "item_end item" c items] by (cases item) auto

lemma process_item:
  fixes cfg dd add ch cals now utc
  defines "e \<equiv> channel_system cfg dd add ch cals now utc"
  assumes "item_frame e item m" and "tiles (next_target e s) c (item # items)" and "se_received_logon s"
    and "next_target e s < 2 ^ 64 - 1"
  shows "\<exists>s'. process e m s = (Done (), s') \<and> handed e [item_event e item m] s s' \<and> next_target e s' = item_end item
    \<and> se_stash s' = item_stash item (se_stash s)
    \<and> se_resend_range s' = se_resend_range s"
proof (cases item)
  case (GapFill x y)
  then show ?thesis
    using process_gap_frame [of cfg dd add ch cals now utc s y m, folded e_def] assms
    by (auto simp: after_gap_fill_def handed_def heard_def next_target_def next_sender_def memory_ops_def)
next
  case (Replayed n m0)
  then show ?thesis
    using process_app_frame [of cfg dd add ch cals now utc s m, folded e_def] assms handed_delivery [of e m s]
    by (auto simp: after_delivery_simps)
qed

lemma check_chunks_open:
  "se_resend_range s = Some (b0, k - 1, k - 1) \<Longrightarrow> next_target e s < k \<Longrightarrow> check_resend_chunks e s = (Done (), s)"
proof -
  assume r: "se_resend_range s = Some (b0, k - 1, k - 1)" and "next_target e s < k"
  then have "next_target e s \<le> k - 1" by simp
  with r show ?thesis by (simp add: check_resend_chunks_def bnd_def gets_def ret_def)
qed

lemma check_chunks_done:
  assumes "se_resend_range s = Some (b0, k - 1, k - 1)" and "k \<le> next_target e s" and "0 < k"
  obtains s' where "check_resend_chunks e s = (Done (), s')" and "handed e [] s s'" and "se_resend_range s' = None"
    and "next_target e s' = next_target e s" and "se_stash s' = se_stash s"
proof -
  let ?s' = "s\<lparr>se_log := se_log s @ [LogEvent (''ResendRequest for messages FROM ... TO '' @ dec_nat (k - 1) @ '' has been satisfied'')],
    se_resend_range := None\<rparr>"
  have "check_resend_chunks e s = (Done (), ?s')"
    using assms by (auto simp: check_resend_chunks_def bnd_def gets_def thn_def event_def modify_def)
  then show ?thesis by (rule that) (simp_all add: handed_def next_target_def next_sender_def)
qed

lemma on_inbound_item:
  fixes cfg dd add ch cals now utc
  defines "e \<equiv> channel_system cfg dd add ch cals now utc"
  assumes "gap_open e a k c q s" and "tiles a k (item # items)" and "c < 2 ^ 64" and "c - k \<le> fuel"
    and "message_parse raw (cfg_validate_length_checksum (en_cfg e)) = Ok m" and "item_frame e item m"
  shows "\<exists>s'. (on_inbound e fuel raw s :: ('e, unit) outcome \<times> _) = (Done (), s')
    \<and> (if item_end item < k then gap_open e (item_end item) k c q s' \<and> handed e [item_event e item m] s s'
       else gap_closed e c s' \<and> handed e (item_event e item m # map (\<lambda>n. app_event e (q n)) [k..<c]) s s')"
proof -
  obtain b0 where o: "se_received_logon s" "next_target e s = a" "a < k" "k \<le> c" "early e k c q (se_stash s)"
    "se_resend_range s = Some (b0, k - 1, k - 1)"
    using assms(2) by (auto simp: gap_open_def split: option.splits)
  let ?n = "item_end item"
  note t = tiles_step [OF assms(3)]
  have seq: "seq_num m = Inr a" using assms(3,7) by (cases item) (auto simp: gap_frame_def app_frame_def)
  let ?s0 = "s\<lparr>se_log := se_log s @ [LogIncoming raw], se_last_received_seq := a\<rparr>"
  have s0: "se_received_logon ?s0" "next_target e ?s0 = a" "handed e [] s ?s0" "se_stash ?s0 = se_stash s" "se_resend_range ?s0 = se_resend_range s"
    using o by (simp_all add: next_target_def next_sender_def handed_def)
  obtain s1 where s1: "process e m ?s0 = (Done (), s1)" "handed e [item_event e item m] ?s0 s1" "next_target e s1 = ?n"
    "se_stash s1 = item_stash item (se_stash s)"
    "se_resend_range s1 = Some (b0, k - 1, k - 1)"
    using process_item [of cfg dd add ch cals now utc item m ?s0 k items, folded e_def] assms(3,4,7) s0 o by auto
  have "filter (\<lambda>(n, _). ?n \<le> n) (se_stash s) = se_stash s"
    using o(5) t by (auto simp: early_def filter_id_conv)
  then have st: "se_stash s1 = se_stash s" using s1(4) by (cases item) simp_all
  let ?s2 = "s1\<lparr>se_last_processed_was_queued := False\<rparr>"
  have h2: "handed e [item_event e item m] s ?s2"
    using handed_trans [OF s0(3) s1(2)] by (simp add: handed_def next_sender_def)
  have s2: "se_received_logon ?s2" "next_target e ?s2 = ?n" "early e k c q (se_stash ?s2)" "se_resend_range ?s2 = Some (b0, k - 1, k - 1)"
    using h2 o(1,5) s1(3,5) st by (simp_all add: handed_def next_target_def)
  show ?thesis
  proof (cases "?n < k")
    case True
    then have "drain_stash e fuel ?s2 = (Done (), ?s2)"
      using s2 early_below [OF s2(3)] by (cases fuel) (simp_all add: look_def ret_def)
    from on_inbound_done [OF assms(6) seq s1(1) this check_chunks_open [OF s2(4)]] True s2 o(4) h2 show ?thesis
      by (auto simp: gap_open_def)
  next
    case False
    then have n: "?n = k" using t by simp
    obtain s3 where s3: "drain_stash e fuel ?s2 = (Done (), s3)" "handed e (map (\<lambda>n. app_event e (q n)) [k..<c]) ?s2 s3"
      "next_target e s3 = c" "se_stash s3 = []" "se_resend_range s3 = Some (b0, k - 1, k - 1)"
      using drain_early [of cfg dd add ch cals now utc k c q ?s2 fuel, folded e_def] s2 n o(4) assms(4,5) by auto
    obtain s4 where s4: "(check_resend_chunks e s3 :: ('e, unit) outcome \<times> _) = (Done (), s4)" "handed e [] s3 s4"
      "se_resend_range s4 = None" "next_target e s4 = next_target e s3" "se_stash s4 = se_stash s3"
      using check_chunks_done [OF s3(5), of e] s3(3) o(3,4) by auto
    have "handed e (item_event e item m # map (\<lambda>n. app_event e (q n)) [k..<c]) s s4"
      using handed_trans [OF h2 handed_trans [OF s3(2) s4(2)]] by simp
    with on_inbound_done [OF assms(6) seq s1(1) s3(1) s4(1)] False s3 s4 o(1) show ?thesis
      by (auto simp: gap_closed_def handed_def)
  qed
qed

lemma tiles_empty: "tiles k k items \<Longrightarrow> items = []"
  by (cases items) (auto dest: tiles_step)

lemma tiles_split:
  "tiles a c items \<Longrightarrow> a \<le> k \<Longrightarrow> k \<le> c \<Longrightarrow> \<forall>x y. GapFill x y \<in> set items \<longrightarrow> k \<le> x \<or> y \<le> k \<Longrightarrow>
    \<exists>xs ys. items = xs @ ys \<and> tiles a k xs \<and> tiles k c ys"
proof (induction items arbitrary: a)
  case (Cons item items)
  show ?case
  proof (cases "a = k")
    case True
    then show ?thesis using Cons.prems(1) by (intro exI [of _ "[]"] exI [of _ "item # items"]) simp
  next
    case False
    then have "item_end item \<le> k" using Cons.prems by (cases item) auto
    then obtain xs ys where "items = xs @ ys" "tiles (item_end item) k xs" "tiles k c ys"
      using Cons.IH [of "item_end item"] tiles_step [OF Cons.prems(1)] Cons.prems by auto
    with Cons.prems(1) show ?thesis by (intro exI [of _ "item # xs"] exI [of _ ys]) (cases item; simp)
  qed
qed (intro exI [of _ "[]"], simp)

lemma receive_append:
  "(receive e fuel xs s :: ('e, unit) outcome \<times> _) = (Done (), t) \<Longrightarrow> (receive e fuel ys t :: ('e, unit) outcome \<times> _) = (Done (), u)
    \<Longrightarrow> (receive e fuel (xs @ ys) s :: ('e, unit) outcome \<times> _) = (Done (), u)"
  by (induction xs arbitrary: s) (auto simp: thn_def bnd_def ret_def split: prod.splits outcome.splits)

definition readable :: "('st, 'ap) env \<Rightarrow> (resend_item \<Rightarrow> message) \<Rightarrow> resend_item \<Rightarrow> bytes \<Rightarrow> bool" where
  "readable e P item raw \<longleftrightarrow>
     message_parse raw (cfg_validate_length_checksum (en_cfg e)) = Ok (P item) \<and> item_frame e item (P item)"

lemma receive_open:
  fixes cfg dd add ch cals now utc
  defines "e \<equiv> channel_system cfg dd add ch cals now utc"
  assumes "c < 2 ^ 64" and "c - k \<le> fuel"
  shows "gap_open e a k c q s \<Longrightarrow> tiles a k items \<Longrightarrow> \<forall>item \<in> set items. readable e P item (F item) \<Longrightarrow>
    \<exists>s'. (receive e fuel (map F items) s :: ('e, unit) outcome \<times> _) = (Done (), s') \<and> gap_closed e c s'
      \<and> handed e (map (\<lambda>item. item_event e item (P item)) items @ map (\<lambda>n. app_event e (q n)) [k..<c]) s s'"
proof (induction items arbitrary: a s)
  case Nil
  then show ?case by (simp add: gap_open_def)
next
  case (Cons item items)
  note step = on_inbound_item [of cfg dd add ch cals now utc a k c q s item items fuel "F item" "P item",
      folded e_def, OF Cons.prems(1,2) assms(2,3), where ?'e = 'e]
  obtain s1 where s1: "(on_inbound e fuel (F item) s :: ('e, unit) outcome \<times> _) = (Done (), s1)"
    and step: "if item_end item < k then gap_open e (item_end item) k c q s1 \<and> handed e [item_event e item (P item)] s s1
       else gap_closed e c s1 \<and> handed e (item_event e item (P item) # map (\<lambda>n. app_event e (q n)) [k..<c]) s s1"
    using step Cons.prems(3) by (auto simp: readable_def)
  note t = tiles_step [OF Cons.prems(2)]
  show ?case
  proof (cases "item_end item < k")
    case True
    then obtain s' where "(receive e fuel (map F items) s1 :: ('e, unit) outcome \<times> _) = (Done (), s')" "gap_closed e c s'"
      "handed e (map (\<lambda>item. item_event e item (P item)) items @ map (\<lambda>n. app_event e (q n)) [k..<c]) s1 s'"
      using Cons.IH [of "item_end item" s1] step t Cons.prems(3) by auto
    moreover have "handed e [item_event e item (P item)] s s1" using step True by simp
    ultimately show ?thesis using s1 handed_trans [of e "[item_event e item (P item)]" s s1] by (auto simp: thn_def bnd_def)
  next
    case False
    then have "items = []" using t tiles_empty [of k items] by (metis antisym not_less)
    then show ?thesis using s1 step False by (simp add: thn_def bnd_def ret_def)
  qed
qed

lemma receive_closed:
  assumes "\<forall>item \<in> set items. readable e P item (F item) \<and> (\<exists>n m. item = Replayed n m \<and> n < c)"
  shows "gap_closed e c s \<Longrightarrow> \<exists>s'. (receive e fuel (map F items) s :: ('e, unit) outcome \<times> _) = (Done (), s')
    \<and> gap_closed e c s' \<and> handed e [] s s'"
  using assms
proof (induction items arbitrary: s)
  case Nil
  then show ?case by (simp add: ret_def handed_refl)
next
  case (Cons item items)
  obtain n m0 where i: "item = Replayed n m0" "n < c" using Cons.prems(2) by auto
  let ?m = "P item" and ?s0 = "s\<lparr>se_log := se_log s @ [LogIncoming (F item)], se_last_received_seq := n\<rparr>"
  let ?s1 = "(ignored n ?s0)\<lparr>se_last_processed_was_queued := False\<rparr>"
  have m: "message_parse (F item) (cfg_validate_length_checksum (en_cfg e)) = Ok ?m" "app_frame e n ?m" "genuine_dup e ?m"
    using Cons.prems(2) i by (simp_all add: readable_def)
  have c: "se_received_logon ?s0" "next_target e ?s0 = c" "gap_closed e c ?s1" "handed e [] s ?s1"
    using Cons.prems(1) by (simp_all add: gap_closed_def ignored_def handed_def next_target_def next_sender_def)
  have p: "process e ?m ?s0 = (Done (), ignored n ?s0)" by (rule process_duplicate [OF m(2) c(1) _ m(3)]) (simp add: c(2) i(2))
  have "drain_stash e fuel ?s1 = (Done (), ?s1)" using c(3) by (cases fuel) (simp_all add: gap_closed_def look_def ret_def)
  moreover have "(check_resend_chunks e ?s1 :: ('e, unit) outcome \<times> _) = (Done (), ?s1)"
    using c(3) by (simp add: gap_closed_def check_resend_chunks_def bnd_def gets_def ret_def)
  ultimately have o: "(on_inbound e fuel (F item) s :: ('e, unit) outcome \<times> _) = (Done (), ?s1)"
    using m(2) by (intro on_inbound_done [OF m(1) _ p]) (simp_all add: app_frame_def)
  obtain s' where "(receive e fuel (map F items) ?s1 :: ('e, unit) outcome \<times> _) = (Done (), s')" "gap_closed e c s'" "handed e [] ?s1 s'"
    using Cons.IH [OF c(3)] Cons.prems(2) by auto
  with o handed_trans [OF c(4)] show ?case by (auto simp: thn_def bnd_def)
qed

section \<open>What the answer holds\<close>

text \<open>The items of an answer are determined by what is replayed, when nothing is vetoed.\<close>

fun exact :: "(u64 \<rightharpoonup> message) \<Rightarrow> resend_item list \<Rightarrow> bool" where
  "exact R [] \<longleftrightarrow> True"
| "exact R (GapFill x y # items) \<longleftrightarrow> (\<forall>n \<in> {x..<y}. R n = None) \<and> exact R items"
| "exact R (Replayed n m # items) \<longleftrightarrow> R n = Some m \<and> exact R items"

lemma tiles_replayed: "tiles a c items \<Longrightarrow> Replayed n m \<in> set items \<Longrightarrow> a \<le> n \<and> n < c"
  by (induction a c items rule: tiles.induct) (use tiles_bounds in fastforce)+

lemma tiles_only_replayed:
  assumes "tiles k c items" and "\<forall>x y. GapFill x y \<in> set items \<longrightarrow> y \<le> k"
  shows "\<forall>item \<in> set items. \<exists>n m. item = Replayed n m \<and> n < c"
proof
  fix item
  assume i: "item \<in> set items"
  show "\<exists>n m. item = Replayed n m \<and> n < c"
  proof (cases item)
    case (GapFill x y)
    then have "k \<le> x" "x < y" "y \<le> k" using tiles_bounds [OF assms(1)] assms(2) i by blast+
    then show ?thesis by simp
  next
    case (Replayed n m)
    then show ?thesis using tiles_replayed [OF assms(1)] i by blast
  qed
qed

lemma exact_tiles:
  "tiles a c items \<Longrightarrow> \<forall>n m. Replayed n m \<in> set items \<longrightarrow> R n = Some m \<Longrightarrow>
    \<forall>n \<in> {a..<c}. (\<forall>m. Replayed n m \<notin> set items) \<longrightarrow> R n = None \<Longrightarrow> exact R items"
proof (induction a c items rule: tiles.induct)
  case (2 a b x y items)
  have "R n = None" if "n \<in> {x..<y}" for n
    using that 2 tiles_bounds [of y b items] tiles_replayed [of y b items n] by fastforce
  with 2 show ?case by (auto dest: tiles_bounds)
next
  case (3 a b n m items)
  then show ?case by auto
qed simp

definition replayed_messages :: "resend_item list \<Rightarrow> message list" where
  "replayed_messages items = concat (map (\<lambda>item. case item of Replayed n m \<Rightarrow> [m] | GapFill _ _ \<Rightarrow> []) items)"

lemma exact_messages:
  "tiles a c items \<Longrightarrow> exact R items \<Longrightarrow> replayed_messages items = List.map_filter R [a..<c]"
proof (induction a c items rule: tiles.induct)
  case (2 a b x y items)
  have "List.map_filter R [x..<y] = []" using 2 by (auto simp: map_filter_def filter_empty_conv)
  moreover have "[a..<b] = [a..<y] @ [y..<b]" using 2 tiles_bounds [of y b items] upt_add_eq_append [of a y "b - y"] by auto
  ultimately show ?case using 2 by (simp add: replayed_messages_def map_filter_def)
next
  case (3 a b n m items)
  then have "n < b" using tiles_bounds [of "n + 1" b items] by auto
  with 3 show ?case by (auto simp: replayed_messages_def map_filter_def upt_conv_Cons [of a b])
qed (simp add: replayed_messages_def map_filter_def)

lemma exact_append [simp]: "exact R (xs @ ys) \<longleftrightarrow> exact R xs \<and> exact R ys"
  by (induction R xs rule: exact.induct) auto

lemma exact_gap: "exact R items \<Longrightarrow> GapFill x y \<in> set items \<Longrightarrow> x \<le> n \<Longrightarrow> n < y \<Longrightarrow> R n = None"
  by (induction R items rule: exact.induct) auto

lemma exact_replayed: "exact R items \<Longrightarrow> Replayed n m \<in> set items \<Longrightarrow> R n = Some m"
  by (induction R items rule: exact.induct) auto

section \<open>Two sessions\<close>

lemma channel_answer_exact:
  fixes cfg dd add ch cals now utc
  defines "e \<equiv> channel_system cfg dd add ch cals now utc"
  assumes "ms_ok (se_store s)" and "is_open s" and "cfg_persist_messages cfg" and "b < c" and "c < 2 ^ 63"
    and "\<forall>n raw. b \<le> n \<and> n < c \<and> map_of (ms_messages (se_store s)) n = Some raw \<longrightarrow> message_parse raw False \<noteq> Panic"
  obtains s' items where "(answer_resend e b (c - 1) s :: ('e, unit) outcome \<times> _) = (Done (), s')"
    and "only_sent (map (to_bytes \<circ> item_message e s) items) s s'"
    and "tiles b c items" and "exact (replay_of e (map_of (ms_messages (se_store s)))) items"
proof -
  let ?R = "replay_of e (map_of (ms_messages (se_store s)))"
  have g: "so_get memory_ops b (c - 1) (se_store s) = (Ok (filter (\<lambda>(k, _). b \<le> k \<and> k \<le> c - 1) (ms_messages (se_store s))), se_store s)"
    using assms(5) by (simp add: memory_ops_def ms_get_def bt_range_def)
  let ?stored = "filter (\<lambda>(k, _). b \<le> k \<and> k \<le> c - 1) (ms_messages (se_store s))"
  from memory.get_ok [OF assms(2) _ g] assms(5)
  have m: "map_of ?stored n = (if b \<le> n \<and> n \<le> c - 1 then map_of (ms_messages (se_store s)) n else None)" for n by auto
  have "(stored_message ?stored n :: (unit, message option) res) \<noteq> Panic" if "b \<le> n" "n \<le> c - 1" for n
  proof -
    have "n < c" using that assms(5) by simp
    then have "\<forall>raw. map_of ?stored n = Some raw \<longrightarrow> message_parse raw False \<noteq> Panic"
      unfolding m using assms(7) that(1) by auto
    then show ?thesis by (auto simp: stored_message_def split: option.splits res.splits)
  qed
  then have np: "\<forall>n. b \<le> n \<and> n \<le> c - 1 \<longrightarrow> (stored_message ?stored n :: (unit, message option) res) \<noteq> Panic" by blast
  have ap: "admin_passive e" by (simp add: admin_passive_def e_def channel_application_def default_application_def)
  have o: "message_store (en_ops e) ms_ok (\<lambda>st. map_of (ms_messages st))" "so_get (en_ops e) b (c - 1) (se_store s) = (Ok ?stored, se_store s)"
    "cfg_persist_messages (en_cfg e)" "b \<le> c - 1" "c - 1 + 1 < 2 ^ 63" "c - 1 + 1 = c"
    using memory.message_store_axioms g assms(4-6) by (simp_all add: e_def)
  obtain s' items where run: "(answer_resend e b (c - 1) s :: ('e, unit) outcome \<times> _) = (Done (), s')"
    and os: "only_sent (map (to_bytes \<circ> item_message e s) items) s s'" and t: "tiles b c items"
    and j: "replay_justified e (map_of (ms_messages (se_store s))) b c items"
    using answer_resend_items [OF o(1) assms(2) ap assms(3) o(3-5,2) np, unfolded o(6)] by metis
  have "exact ?R items"
    using j by (intro exact_tiles [OF t]) (auto simp: replay_justified_def e_def channel_application_def default_application_def)
  with run os t show ?thesis by (rule that)
qed

lemma wire_form_reads:
  "seq_num (wire_form m) = seq_num m" "poss_dup (wire_form m) = poss_dup m" "body (wire_form m) = body m"
  "msg_type (wire_form m) = msg_type m"
proof -
  show "body (wire_form m) = body m" by (simp add: wire_form_def)
qed (simp_all add: seq_num_def poss_dup_def fm_get_def get_raw_wire_form msg_type_def get_string_def)

text \<open>
  What the two sides must agree on: the receiver, apart from the sequence numbers, accepts the
  messages that the sender holds for the range, and the gap fills it may send.
\<close>

definition stored_replay :: "(memory_store, session_event list) env \<Rightarrow> (memory_store, session_event list) session \<Rightarrow> u64 \<rightharpoonup> message" where
  "stored_replay e s = replay_of e (map_of (ms_messages (se_store s)))"

definition peers_agree ::
  "(memory_store, session_event list) env \<Rightarrow> (memory_store, session_event list) session \<Rightarrow> ('st, 'ap) env \<Rightarrow> u64 \<Rightarrow> u64 \<Rightarrow> u64 \<Rightarrow> bool" where
  "peers_agree es s er b k c \<longleftrightarrow>
     (\<forall>n m. b \<le> n \<and> n < c \<and> stored_replay es s n = Some m \<longrightarrow>
        message_wf m \<and> app_frame er n (wire_form m) \<and> genuine_dup er (wire_form m))
     \<and> (\<forall>x y. b \<le> x \<and> x < y \<and> y \<le> k \<longrightarrow>
        message_wf (gap_fill_message es s x y) \<and> receivable er (wire_form (gap_fill_message es s x y)))"

lemma gap_fill_readable:
  assumes "message_wf (gap_fill_message es s x y)" and "receivable er (wire_form (gap_fill_message es s x y))"
    and "x < 2 ^ 63" and "y < 2 ^ 63"
  shows "readable er (wire_form \<circ> item_message es s) (GapFill x y) (to_bytes (gap_fill_message es s x y))"
proof -
  note f = gap_fill_fields [OF assms(3,4), of es s]
  have "msg_type (gap_fill_message es s x y) = Inr MT_SEQUENCE_RESET"
    using f(5) by (simp add: msg_type_def get_string_def fm_get_def decode_string_def utf8_ok_ascii byte_of_def)
  with f assms(1,2) show ?thesis
    by (simp add: readable_def parse_to_bytes gap_frame_def wire_form_reads)
qed

lemma replayed_readable:
  "message_wf m \<Longrightarrow> app_frame er n (wire_form m) \<Longrightarrow> genuine_dup er (wire_form m) \<Longrightarrow>
    readable er (wire_form \<circ> item_message es s) (Replayed n m) (to_bytes m)"
  by (simp add: readable_def parse_to_bytes)

lemma answer_readable:
  assumes "peers_agree es s er b k c" and "tiles b c items" and "exact (stored_replay es s) items"
    and "\<forall>n. k \<le> n \<and> n < c \<longrightarrow> stored_replay es s n \<noteq> None" and "k \<le> c" and "c < 2 ^ 63" and "item \<in> set items"
  shows "readable er (wire_form \<circ> item_message es s) item ((to_bytes \<circ> item_message es s) item)"
    and "\<And>x y. item = GapFill x y \<Longrightarrow> y \<le> k"
proof -
  have g: "y \<le> k \<and> b \<le> x \<and> x < y" if "item = GapFill x y" for x y
  proof -
    have xy: "b \<le> x" "x < y" "y \<le> c" using tiles_bounds [OF assms(2)] assms(7) that by auto
    have "\<not> k < y" using exact_gap [OF assms(3) assms(7) [unfolded that], of "max x k"] assms(4) xy by force
    with xy show ?thesis by simp
  qed
  then show "\<And>x y. item = GapFill x y \<Longrightarrow> y \<le> k" by blast
  show "readable er (wire_form \<circ> item_message es s) item ((to_bytes \<circ> item_message es s) item)"
  proof (cases item)
    case (GapFill x y)
    then show ?thesis using gap_fill_readable [of es s x y er] g [OF GapFill] assms(1,5,6) by (simp add: peers_agree_def)
  next
    case (Replayed n m)
    then have "stored_replay es s n = Some m" "b \<le> n" "n < c"
      using exact_replayed [OF assms(3)] tiles_replayed [OF assms(2)] assms(7) by blast+
    with Replayed assms(1) show ?thesis using replayed_readable [of m er n es s] by (simp add: peers_agree_def)
  qed
qed

definition app_messages :: "session_event list \<Rightarrow> message list" where
  "app_messages evs = concat (map (\<lambda>ev. case ev of AppMsg m _ \<Rightarrow> [m] | _ \<Rightarrow> []) evs)"

lemma app_messages_append [simp]: "app_messages (xs @ ys) = app_messages xs @ app_messages ys"
  by (simp add: app_messages_def)

lemma app_messages_items:
  "app_messages (map (\<lambda>item. item_event e item ((wire_form \<circ> item_message es s) item)) items) = map wire_form (replayed_messages items)"
proof (induction items)
  case (Cons item items)
  then show ?case by (cases item) (simp_all add: app_messages_def replayed_messages_def app_event_def)
qed (simp add: app_messages_def replayed_messages_def)

lemma app_messages_stash: "app_messages (map (\<lambda>n. app_event e (q n)) ns) = map q ns"
  by (induction ns) (simp_all add: app_messages_def app_event_def)

lemma gap_recovery:
  fixes cfg dd add ch cals now utc cfg' dd' add' ch' cals' now' utc'
  defines "es \<equiv> channel_system cfg dd add ch cals now utc" and "er \<equiv> channel_system cfg' dd' add' ch' cals' now' utc'"
  assumes "ms_ok (se_store s)" and "is_open s" and "cfg_persist_messages cfg" and "c < 2 ^ 63"
    and "\<forall>n raw. b \<le> n \<and> n < c \<and> map_of (ms_messages (se_store s)) n = Some raw \<longrightarrow> message_parse raw False \<noteq> Panic"
    and "\<forall>n. k \<le> n \<and> n < c \<longrightarrow> stored_replay es s n \<noteq> None"
    and "gap_open er b k c q r" and "peers_agree es s er b k c" and "c - k \<le> fuel"
  shows "\<exists>s' frames r'. (answer_resend es b (c - 1) s :: ('e, unit) outcome \<times> _) = (Done (), s')
    \<and> only_sent frames s s'
    \<and> (receive er fuel frames r :: ('f, unit) outcome \<times> _) = (Done (), r')
    \<and> app_messages (se_app r') = app_messages (se_app r)
        @ map wire_form (List.map_filter (stored_replay es s) [b..<k]) @ map q [k..<c]
    \<and> next_target er r' = c \<and> se_stash r' = [] \<and> se_resend_range r' = None \<and> se_outbound r' = se_outbound r"
proof -
  have k: "b < k" "k \<le> c" using assms(9) by (simp_all add: gap_open_def)
  obtain s' items where a: "(answer_resend es b (c - 1) s :: ('e, unit) outcome \<times> _) = (Done (), s')"
    "only_sent (map (to_bytes \<circ> item_message es s) items) s s'" "tiles b c items" "exact (stored_replay es s) items"
    unfolding es_def stored_replay_def
    by (rule channel_answer_exact [OF assms(3-5), of b c dd add ch cals now utc]) (use k assms(6,7) in auto)
  note readable = answer_readable [OF assms(10) a(3,4) assms(8) k(2) assms(6)]
  have "\<forall>x y. GapFill x y \<in> set items \<longrightarrow> k \<le> x \<or> y \<le> k" using readable(2) by blast
  then obtain xs ys where split: "items = xs @ ys" "tiles b k xs" "tiles k c ys"
    using tiles_split [OF a(3) less_imp_le [OF k(1)] k(2)] by blast
  let ?F = "to_bytes \<circ> item_message es s" and ?P = "wire_form \<circ> item_message es s"
  obtain r1 where r1: "(receive er fuel (map ?F xs) r :: ('f, unit) outcome \<times> _) = (Done (), r1)" "gap_closed er c r1"
    "handed er (map (\<lambda>item. item_event er item (?P item)) xs @ map (\<lambda>n. app_event er (q n)) [k..<c]) r r1"
    using receive_open [of c k fuel cfg' dd' add' ch' cals' now' utc' b q r xs ?P ?F, folded er_def, where ?'e = 'f]
      assms(6,9,11) split readable(1) by auto
  have "\<forall>item \<in> set ys. \<exists>n m. item = Replayed n m \<and> n < c"
    using readable(2) split(1) by (intro tiles_only_replayed [OF split(3)]) auto
  then obtain r' where r': "(receive er fuel (map ?F ys) r1 :: ('f, unit) outcome \<times> _) = (Done (), r')" "gap_closed er c r'" "handed er [] r1 r'"
    using receive_closed [of ys er ?P ?F c r1 fuel, where ?'e = 'f] r1(2) split readable(1) by auto
  have "(receive er fuel (map ?F items) r :: ('f, unit) outcome \<times> _) = (Done (), r')"
    unfolding split(1) map_append using receive_append r1(1) r'(1) by blast
  moreover have "replayed_messages xs = List.map_filter (stored_replay es s) [b..<k]"
    using exact_messages [OF split(2)] a(4) split(1) by simp
  ultimately show ?thesis
    using a(1,2) r1(3) r'(2,3)
    by (intro exI [of _ s'] exI [of _ "map ?F items"] exI [of _ r'])
       (simp add: gap_closed_def handed_def app_messages_items app_messages_stash del: o_apply)
qed

text \<open>
  C8. A gap between two sessions is recovered. The receiver misses the numbers from \<open>b\<close> to before \<open>k\<close> and
  holds those from \<open>k\<close> to before \<open>c\<close>, which had arrived too early, in its stash; the sender answers
  for the whole range from \<open>b\<close> to before \<open>c\<close>. When the frames of the answer are received, the application
  gets exactly the application messages that the sender has stored for the missing numbers, in
  order and marked as possible duplicates, followed by the early ones, each once: the copies of
  those in the answer are ignored. Then \<open>c\<close> is expected, the stash is empty, the request is
  done and the receiver has sent nothing.
\<close>

theorem gap_recovered:
  fixes cfg dd add ch cals now utc cfg' dd' add' ch' cals' now' utc'
  defines "es \<equiv> channel_system cfg dd add ch cals now utc" and "er \<equiv> channel_system cfg' dd' add' ch' cals' now' utc'"
  assumes "ms_ok (se_store s)" and "is_open s" and "cfg_persist_messages cfg" and "c < 2 ^ 63"
    and "\<forall>n raw. b \<le> n \<and> n < c \<and> map_of (ms_messages (se_store s)) n = Some raw \<longrightarrow> message_parse raw False \<noteq> Panic"
    and "\<forall>n. k \<le> n \<and> n < c \<longrightarrow> stored_replay es s n \<noteq> None"
    and "gap_open er b k c q r" and "peers_agree es s er b k c" and "c - k \<le> fuel"
  shows "\<exists>s' frames r'. (answer_resend es b (c - 1) s :: ('e, unit) outcome \<times> _) = (Done (), s')
    \<and> sent_frames s' = sent_frames s @ frames
    \<and> (receive er fuel frames r :: ('f, unit) outcome \<times> _) = (Done (), r')
    \<and> app_messages (se_app r') = app_messages (se_app r)
        @ map wire_form (List.map_filter (stored_replay es s) [b..<k]) @ map q [k..<c]
    \<and> next_target er r' = c \<and> se_stash r' = [] \<and> se_resend_range r' = None \<and> se_outbound r' = se_outbound r"
  using gap_recovery [OF assms(3-7) assms(8-10) [unfolded es_def er_def] assms(11), where ?'e = 'e and ?'f = 'f] only_sent_simps(5) [OF _ assms(4)]
  unfolding es_def er_def by blast

section \<open>A recovery\<close>

text \<open>
  The client of the sample session has sent two orders. The first was lost; the second arrived and
  waits in the stash.
\<close>

definition client_env :: "(memory_store, session_event list) env" where
  "client_env = channel_system (sample_cfg\<lparr>cfg_session_id := session_id_new ''FIX.4.4'' ''CLI'' ''SRV''\<rparr>) None None sample_chrono utc_only 0 0"

definition order_no :: "bytes \<Rightarrow> message" where
  "order_no n = order_message\<lparr>header := set_raw MSG_SEQ_NUM n (header order_message)\<rparr>"

definition client_session :: "(memory_store, session_event list) session" where
  "client_session = online_session\<lparr>se_store := (memory_store_new 0)\<lparr>ms_next_sender := 3,
     ms_messages := [(1, to_bytes (order_no ''1'')), (2, to_bytes (order_no ''2''))]\<rparr>\<rparr>"

definition server_session :: "(memory_store, session_event list) session" where
  "server_session = online_session\<lparr>se_stash := [(2, to_bytes (order_no ''2''))], se_resend_range := Some (1, 1, 1)\<rparr>"

lemma small_message_wf:
  assumes "get_raw MSG_TYPE (header m) \<noteq> None" and "begin_string_of m \<in> {''FIX.4.4'', ''FIXT.1.1''}"
    and "list_all (\<lambda>f. is_header_tag (tv_tag f)) (header m)" and "list_all (\<lambda>f. body_tag (tv_tag f)) (body m)"
    and "list_all (\<lambda>f. is_trailer_tag (tv_tag f)) (trailer m)"
    and "wire_ok None (wire_fields m)" and "length (write_to (wire_fields m)) < 2 ^ 20"
  shows "message_wf m"
proof -
  have "length (to_bytes m) < 2 ^ 64"
    by (rule length_to_bytes_bound) (use assms(2,7) in \<open>auto simp: to_bytes_inner_eq\<close>)
  with assms show ?thesis by (auto simp: message_wf_def)
qed

lemmas small_wire = value_ok_def tag_in_range_def next_pending_def data_tag_for_length_tag_def data_tag_table_def bytes_simps
  body_tag_def is_header_tag_def header_tags_def is_trailer_tag_def

lemma order_no_header:
  "header (order_no n) = [tv 35 ''D'', tv 8 ''FIX.4.4'', tv 34 n, tv 49 ''CLI'', tv 52 ''19700101-00:00:00.000'', tv 56 ''SRV'']"
  "body (order_no n) = [tv 11 ''id'']" "trailer (order_no n) = []" "structure_error (order_no n) = None"
  by (simp_all add: order_no_def order_message_def)

lemma order_no_wf:
  assumes "n = ''1'' \<or> n = ''2''"
  shows "message_wf (order_no n)"
proof (rule small_message_wf)
  have f: "wire_fields (order_no n) =
     [tv 35 ''D'', tv 34 n, tv 49 ''CLI'', tv 52 ''19700101-00:00:00.000'', tv 56 ''SRV'', tv 11 ''id'']"
    by (simp add: wire_fields_def order_no_header msg_type_field_def header_rest_def trailer_rest_def)
  show "wire_ok None (wire_fields (order_no n))" "length (write_to (wire_fields (order_no n))) < 2 ^ 20"
    unfolding f using assms by (auto simp: small_wire)
qed (simp_all add: order_no_header begin_string_of_def small_wire)

lemma resent_order:
  defines "m \<equiv> \<lambda>n. resent client_env (wire_form (order_no n))"
  assumes "n = ''1'' \<or> n = ''2''"
  shows "header (m n) = [tv 8 ''FIX.4.4'', tv 9 (dec_nat (length (to_bytes_inner (order_no n)))), tv 35 ''D'', tv 34 n, tv 49 ''CLI'',
      tv 52 ''19700101-00:00:00.000'', tv 56 ''SRV'', tv 43 ''Y'', tv 122 ''19700101-00:00:00.000'']"
    "body (m n) = [tv 11 ''id'']" "list_all (\<lambda>f. tv_tag f = 10) (trailer (m n))"
  by (simp_all add: m_def resent_def wire_form_def order_no_header begin_string_of_def msg_type_field_def header_rest_def
      trailer_rest_def encode_bool_def stamp_sending_time_def client_env_def channel_system_def encode_timestamp_def sample_chrono_def
      now_stamp_def Let_def set_header_def)

lemma resent_order_wf:
  assumes "n = ''1'' \<or> n = ''2''"
  shows "message_wf (resent client_env (wire_form (order_no n)))"
proof (rule small_message_wf)
  let ?m = "resent client_env (wire_form (order_no n))"
  note h = resent_order [OF assms]
  have "trailer_rest (trailer ?m) = []" using h(3) by (simp add: trailer_rest_def filter_empty_conv list_all_iff)
  then have f: "wire_fields ?m = [tv 35 ''D'', tv 34 n, tv 43 ''Y'', tv 49 ''CLI'', tv 52 ''19700101-00:00:00.000'', tv 56 ''SRV'',
      tv 122 ''19700101-00:00:00.000'', tv 11 ''id'']"
    by (simp add: wire_fields_def h msg_type_field_def header_rest_def)
  show "wire_ok None (wire_fields ?m)" "length (write_to (wire_fields ?m)) < 2 ^ 20"
    unfolding f using assms by (auto simp: small_wire)
  show "list_all (\<lambda>f. is_trailer_tag (tv_tag f)) (trailer ?m)"
    using h(3) by (auto simp: list_all_iff is_trailer_tag_def)
qed (simp_all add: resent_order [OF assms] begin_string_of_def small_wire)

lemma sample_receives:
  assumes "get_raw BEGIN_STRING (header m) = Some ''FIX.4.4''" and "get_raw 49 (header m) = Some ''CLI''" and "get_raw 56 (header m) = Some ''SRV''"
    and "get_raw 52 (header m) = Some ''19700101-00:00:00.000''"
  shows "receivable sample_env m"
  using assms
  by (simp add: receivable_def get_time_def get_ok_def fm_get_opt_def decode_timestamp_def utf8_ok_ascii byte_of_def
      precision_of_length_def sample_chrono_def too_late_def comp_ids_ok_def sample_cfg_def session_id_new_def dictionary_reject_def)

lemma order_no_frame:
  assumes "n = ''1'' \<or> n = ''2''" and "m = order_no n \<or> m = resent client_env (wire_form (order_no n))"
  shows "app_frame sample_env (if n = ''1'' then 1 else 2) (wire_form m)"
proof -
  have h: "get_raw 35 (header m) = Some ''D''" "get_raw 34 (header m) = Some n" "begin_string_of m = ''FIX.4.4''"
    "get_raw 49 (header m) = Some ''CLI''" "get_raw 56 (header m) = Some ''SRV''" "get_raw 52 (header m) = Some ''19700101-00:00:00.000''"
    using assms(2) by (auto simp: order_no_header resent_order [OF assms(1)] begin_string_of_def)
  have "receivable sample_env (wire_form m)"
    using h by (intro sample_receives) (simp_all add: get_raw_wire_form begin_wire_form [simplified])
  moreover have "seq_num (wire_form m) = Inr (if n = ''1'' then 1 else 2)"
    unfolding wire_form_reads using h(2) assms(1) by (auto simp: seq_num_def fm_get_def decode_u64_def bytes_simps)
  moreover have "msg_type (wire_form m) = Inr ''D''"
    unfolding wire_form_reads using h(1) by (simp add: msg_type_def get_string_def fm_get_def decode_string_def utf8_ok_ascii byte_of_def)
  ultimately show ?thesis by (simp add: app_frame_def is_admin_type_def)
qed

lemma resent_order_dup:
  assumes "n = ''1'' \<or> n = ''2''"
  shows "genuine_dup sample_env (wire_form (resent client_env (wire_form (order_no n))))"
proof -
  let ?m = "resent client_env (wire_form (order_no n))"
  have "get_raw 122 (header ?m) = Some ''19700101-00:00:00.000''" "get_raw 52 (header ?m) = Some ''19700101-00:00:00.000''"
    by (simp_all add: resent_order [OF assms])
  then show ?thesis
    by (simp add: genuine_dup_def wire_form_reads resent_fields get_time_def get_ok_def fm_get_opt_def get_raw_wire_form
        decode_timestamp_def utf8_ok_ascii byte_of_def precision_of_length_def sample_chrono_def)
qed

definition client_fill :: message where
  "client_fill = gap_fill_message client_env client_session 1 2"

lemma client_gap_fill:
  "header client_fill =
     [tv 35 ''4'', tv 8 ''FIX.4.4'', tv 49 ''CLI'', tv 56 ''SRV'', tv 34 ''1'', tv 52 ''19700101-00:00:00.000'', tv 43 ''Y'',
      tv 122 ''19700101-00:00:00.000'']"
  "body client_fill = [tv 36 ''2'', tv 123 ''Y'']"
  "trailer client_fill = []"
  by (simp_all add: client_fill_def gap_fill_message_def fill_header_def with_type_def message_new_def set_header_def set_body_def set_unless_empty_def
      client_env_def channel_system_def encode_timestamp_def sample_chrono_def sample_cfg_def session_id_new_def now_stamp_def
      stamp_sending_time_def encode_bool_def encode_u64_def as_i64_def bytes_simps Let_def)

lemma client_gap_fill_wf: "message_wf client_fill"
proof (rule small_message_wf)
  have f: "wire_fields client_fill =
    [tv 35 ''4'', tv 34 ''1'', tv 43 ''Y'', tv 49 ''CLI'', tv 52 ''19700101-00:00:00.000'', tv 56 ''SRV'',
     tv 122 ''19700101-00:00:00.000'', tv 36 ''2'', tv 123 ''Y'']"
    by (simp add: wire_fields_def client_gap_fill msg_type_field_def header_rest_def trailer_rest_def)
  show "wire_ok None (wire_fields client_fill)"
    "length (write_to (wire_fields client_fill)) < 2 ^ 20"
    unfolding f by (simp_all add: small_wire)
qed (simp_all add: client_gap_fill begin_string_of_def small_wire)

lemma client_replays:
  "stored_replay client_env client_session 1 = Some (resent client_env (wire_form (order_no ''1'')))"
  "stored_replay client_env client_session 2 = Some (resent client_env (wire_form (order_no ''2'')))"
proof -
  have "\<not> is_admin (wire_form (order_no n))" for n
    by (simp add: is_admin_def get_raw_wire_form order_no_header is_admin_type_def)
  then show "stored_replay client_env client_session 1 = Some (resent client_env (wire_form (order_no ''1'')))"
    "stored_replay client_env client_session 2 = Some (resent client_env (wire_form (order_no ''2'')))"
    by (simp_all add: stored_replay_def replay_of_def client_session_def parse_to_bytes order_no_wf)
qed

lemma client_fill_receivable: "receivable sample_env (wire_form client_fill)"
  by (intro sample_receives) (simp_all add: get_raw_wire_form begin_wire_form [simplified] client_gap_fill begin_string_of_def)

lemma sample_peers_agree: "peers_agree client_env client_session sample_env 1 2 3"
  unfolding peers_agree_def
proof (intro conjI allI impI; elim conjE)
  fix n m
  assume nm: "1 \<le> n" "n < 3" "stored_replay client_env client_session n = Some m"
  have o: "message_wf (resent client_env (wire_form (order_no v))) \<and> genuine_dup sample_env (wire_form (resent client_env (wire_form (order_no v))))
      \<and> app_frame sample_env (if v = ''1'' then 1 else 2) (wire_form (resent client_env (wire_form (order_no v))))"
    if "v = ''1'' \<or> v = ''2''" for v
    using resent_order_wf [OF that] resent_order_dup [OF that] order_no_frame [OF that] by blast
  have "n = 1 \<or> n = 2" using nm by auto
  then show "message_wf m" "app_frame sample_env n (wire_form m)" "genuine_dup sample_env (wire_form m)"
    using nm(3) client_replays o [of "''1''"] o [of "''2''"] by auto
next
  fix x y :: u64
  assume xy: "1 \<le> x" "x < y" "y \<le> 2"
  then have "x = 1" "y = 2" by auto
  then have f: "gap_fill_message client_env client_session x y = client_fill" by (simp add: client_fill_def)
  show "message_wf (gap_fill_message client_env client_session x y)"
    "receivable sample_env (wire_form (gap_fill_message client_env client_session x y))"
    unfolding f using client_gap_fill_wf client_fill_receivable by simp_all
qed

lemma sample_gap_open: "gap_open sample_env 1 2 3 (\<lambda>_. wire_form (order_no ''2'')) server_session"
proof -
  have "app_frame sample_env 2 (wire_form (order_no ''2''))" using order_no_frame [of "''2''" "order_no ''2''"] by simp
  moreover have "\<not> contains_field (to_bytes (order_no ''2'')) ''35=A''" by code_simp
  moreover have "\<not> contains_field (to_bytes (order_no ''2'')) ''35=2''" by code_simp
  ultimately have "queued_frame sample_env 2 (wire_form (order_no ''2'')) (to_bytes (order_no ''2''))"
    by (simp add: queued_frame_def parse_to_bytes order_no_wf)
  then have "early sample_env 2 3 (\<lambda>_. wire_form (order_no ''2'')) [(2, to_bytes (order_no ''2''))]"
    by (simp add: early_def atLeastLessThan_nat_numeral)
  then show ?thesis
    using online_next_target by (simp add: gap_open_def server_session_def next_target_def) (simp add: online_session_def)
qed

theorem gap_recovered_witness:
  "\<exists>s' frames r'. (answer_resend client_env 1 2 client_session :: (unit, unit) outcome \<times> _) = (Done (), s')
     \<and> sent_frames s' = sent_frames client_session @ frames
     \<and> (receive sample_env 1 frames server_session :: (unit, unit) outcome \<times> _) = (Done (), r')
     \<and> app_messages (se_app r') = app_messages (se_app server_session)
          @ [wire_form (resent client_env (wire_form (order_no ''1''))), wire_form (order_no ''2'')]
     \<and> next_target sample_env r' = 3"
proof -
  have s: "ms_ok (se_store client_session)" "is_open client_session"
    by (simp_all add: client_session_def ms_ok_def memory_store_new_def bt_ok_def is_open_def online_session_def attached_session_eq)
  have p: "\<forall>n raw. 1 \<le> n \<and> n < 3 \<and> map_of (ms_messages (se_store client_session)) n = Some raw \<longrightarrow> message_parse raw False \<noteq> Panic"
    by (auto simp: client_session_def parse_to_bytes order_no_wf split: if_splits)
  have e: "\<forall>n. 2 \<le> n \<and> n < 3 \<longrightarrow> stored_replay client_env client_session n \<noteq> None"
  proof (intro allI impI)
    fix n :: u64
    assume "2 \<le> n \<and> n < 3"
    then have "n = 2" by simp
    then show "stored_replay client_env client_session n \<noteq> None" by (simp add: client_replays)
  qed
  have m: "List.map_filter (stored_replay client_env client_session) [1..<2] = [resent client_env (wire_form (order_no ''1''))]"
    "[2..<3] = [2::u64]" "(3::u64) - 1 = 2"
    using client_replays(1) by (simp_all add: map_filter_def upt_rec)
  show ?thesis
    using gap_recovered [of client_session "sample_cfg\<lparr>cfg_session_id := session_id_new ''FIX.4.4'' ''CLI'' ''SRV''\<rparr>" 3 1 2
        None None sample_chrono utc_only 0 0 sample_cfg None None sample_chrono utc_only 0 0 "\<lambda>_. wire_form (order_no ''2'')" server_session 1,
        folded client_env_def sample_env_system, OF s _ _ p e sample_gap_open sample_peers_agree, where ?'e = unit and ?'f = unit]
    unfolding m by (simp add: sample_cfg_def) blast
qed

end
