(* ===== verification/Typed_Field.thy ===== *)
theory Typed_Field
  imports Fix_Message "HOL-Library.Multiset"
begin

text \<open>
  \<open>src/field_map.rs\<close>, the typed accessors: the trait \<open>Field\<close>, a marker type with a tag and a value
  type, as a record of the tag and of the value type's encoder and decoder; \<open>get_field\<close>,
  \<open>get_field_opt\<close>, \<open>set_field\<close> and \<open>has_field\<close>. What a client of a marker relies on is the locale
  \<open>typed_field\<close>, interpreted below for every value type the generated markers use.
\<close>

section \<open>Markers\<close>

record 'a marker =
  mk_tag :: tag
  mk_encode :: "'a \<Rightarrow> bytes"
  mk_decode :: "'a decoder"

definition get_field :: "'a marker \<Rightarrow> field_map \<Rightarrow> conversion_error + 'a" where
  "get_field F fm = fm_get (mk_decode F) (mk_tag F) fm"

definition get_field_opt :: "'a marker \<Rightarrow> field_map \<Rightarrow> conversion_error + 'a option" where
  "get_field_opt F fm = fm_get_opt (mk_decode F) (mk_tag F) fm"

definition set_field :: "'a marker \<Rightarrow> 'a \<Rightarrow> field_map \<Rightarrow> field_map" where
  "set_field F v fm = set_raw (mk_tag F) (mk_encode F v) fm"

definition has_field :: "'a marker \<Rightarrow> field_map \<Rightarrow> bool" where
  "has_field F fm \<longleftrightarrow> contains (mk_tag F) fm"

text \<open>\<open>m.body.set_field::<F>(v)\<close>, the shape in which the generated messages use it.\<close>

definition typed_set :: "'a marker \<Rightarrow> 'a \<Rightarrow> message \<Rightarrow> message" where
  "typed_set F v m = m\<lparr>body := set_field F v (body m)\<rparr>"

section \<open>The value types\<close>

definition i64_field :: "tag \<Rightarrow> int marker" where
  "i64_field t = \<lparr>mk_tag = t, mk_encode = encode_int, mk_decode = decode_i64\<rparr>"

definition bool_field :: "tag \<Rightarrow> bool marker" where
  "bool_field t = \<lparr>mk_tag = t, mk_encode = encode_bool, mk_decode = decode_bool\<rparr>"

definition string_field :: "tag \<Rightarrow> bytes marker" where
  "string_field t = \<lparr>mk_tag = t, mk_encode = encode_str, mk_decode = decode_string\<rparr>"

definition char_field :: "tag \<Rightarrow> bytes marker" where
  "char_field t = \<lparr>mk_tag = t, mk_encode = encode_char, mk_decode = decode_char\<rparr>"

definition bytes_field :: "tag \<Rightarrow> bytes marker" where
  "bytes_field t = \<lparr>mk_tag = t, mk_encode = encode_bytes, mk_decode = decode_bytes\<rparr>"

definition timestamp_field :: "chrono \<Rightarrow> tag \<Rightarrow> utc_timestamp marker" where
  "timestamp_field ch t = \<lparr>mk_tag = t, mk_encode = encode_timestamp ch, mk_decode = decode_timestamp ch\<rparr>"

lemmas field_kinds = i64_field_def bool_field_def string_field_def char_field_def bytes_field_def timestamp_field_def

section \<open>The laws of a marker\<close>

lemma get_set_other:
  "mk_tag F \<noteq> mk_tag G \<Longrightarrow> get_field G (set_field F v fm) = get_field G fm"
  "mk_tag F \<noteq> mk_tag G \<Longrightarrow> get_field_opt G (set_field F v fm) = get_field_opt G fm"
  by (simp_all add: get_field_def get_field_opt_def set_field_def fm_get_def fm_get_opt_def)

lemma has_set_field: "has_field G (set_field F v fm) \<longleftrightarrow> mk_tag G = mk_tag F \<or> has_field G fm"
  by (cases "mk_tag F = mk_tag G") (auto simp: has_field_def set_field_def contains_get_raw)

lemma get_field_absent: "\<not> has_field F fm \<Longrightarrow> get_field F fm = Inl (FieldNotFound (mk_tag F)) \<and> get_field_opt F fm = Inr None"
  by (simp add: has_field_def contains_get_raw get_field_def get_field_opt_def fm_get_def fm_get_opt_def)

lemma set_raw_set_raw [simp]: "set_raw t v (set_raw t u fm) = set_raw t v fm"
  by (induction fm) auto

locale typed_field =
  fixes F :: "'a marker" and valid :: "'a \<Rightarrow> bool"
  assumes decode_encode: "valid v \<Longrightarrow> mk_decode F t (mk_encode F v) = Inr v"
begin

lemma get_set: "valid v \<Longrightarrow> get_field F (set_field F v fm) = Inr v"
  by (simp add: get_field_def set_field_def fm_get_set_raw decode_encode)

lemma get_opt_set: "valid v \<Longrightarrow> get_field_opt F (set_field F v fm) = Inr (Some v)"
  by (simp add: get_field_opt_def set_field_def fm_get_opt_def decode_encode)

lemma set_set: "set_field F w (set_field F v fm) = set_field F w fm"
  by (simp add: set_field_def)

lemma set_inject: "valid v \<Longrightarrow> valid w \<Longrightarrow> set_field F v fm = set_field F w fm \<longleftrightarrow> v = w"
  by (metis get_set sum.inject(2))

end

definition i64_ok :: "int \<Rightarrow> bool" where
  "i64_ok i \<longleftrightarrow> - (2 ^ 63) \<le> i \<and> i < 2 ^ 63"

text \<open>What a timestamp field needs of \<open>chrono\<close>: the printed form has the length of its precision and parses back.\<close>

definition prints_back :: "chrono \<Rightarrow> utc_timestamp \<Rightarrow> bool" where
  "prints_back ch ts \<longleftrightarrow>
     utf8_ok (encode_timestamp ch ts) \<and> precision_of_length (length (encode_timestamp ch ts)) = Some (ts_precision ts)
     \<and> ch_parse ch (ts_format (ts_precision ts)) (encode_timestamp ch ts) = Some (ts_time ts)"

interpretation i64: typed_field "i64_field t" i64_ok for t
  by unfold_locales (simp add: field_kinds i64_ok_def encode_int_def decode_i64_def)

interpretation boolean: typed_field "bool_field t" "\<lambda>_. True" for t
  by unfold_locales (simp add: field_kinds)

interpretation str: typed_field "string_field t" utf8_ok for t
  by unfold_locales (simp add: field_kinds encode_str_def decode_string_def)

interpretation character: typed_field "char_field t" one_char for t
  by unfold_locales (simp add: field_kinds decode_char_encode)

interpretation data: typed_field "bytes_field t" "\<lambda>_. True" for t
  by unfold_locales (simp add: field_kinds encode_bytes_def decode_bytes_def)

interpretation timestamp: typed_field "timestamp_field ch t" "prints_back ch" for ch t
  by unfold_locales (simp add: field_kinds prints_back_def decode_timestamp_def)

section \<open>Sequences of fields\<close>

text \<open>A typed read does not depend on the order of the fields when no tag is repeated.\<close>

lemma get_raw_perm:
  assumes "mset fs = mset gs" and "distinct (map tv_tag fs)"
  shows "get_raw t gs = get_raw t fs"
proof -
  have r: "get_raw t hs = map_of (map (\<lambda>f. (tv_tag f, tv_value f)) hs) t" for hs
    by (induction hs) auto
  have "mset (map tv_tag gs) = mset (map tv_tag fs)" using assms(1) by simp
  then have "distinct (map tv_tag gs)" using assms(2) mset_eq_imp_distinct_iff by blast
  then have "map_of (map (\<lambda>f. (tv_tag f, tv_value f)) gs) = map_of (map (\<lambda>f. (tv_tag f, tv_value f)) fs)"
    using assms(2) mset_eq_setD [OF assms(1)] by (intro map_of_inject_set [THEN iffD2]) (simp_all add: o_def)
  then show ?thesis by (simp add: r)
qed

lemma distinct_set_raw:
  "distinct (map tv_tag fm) \<Longrightarrow> distinct (map tv_tag (set_raw t v fm))"
proof (induction fm)
  case (Cons f fs)
  then show ?case using tags_set_raw [of t v fs] by auto
qed simp

lemma get_field_perm:
  "mset fs = mset gs \<Longrightarrow> distinct (map tv_tag fs) \<Longrightarrow> get_field F gs = get_field F fs"
  using get_raw_perm [of fs gs "mk_tag F"] by (simp add: get_field_def fm_get_def)

end
