(* ===== verification/Session_Timers.thy ===== *)
theory Session_Timers
  imports Session_Send
begin

text \<open>
  The protocol timer. \<open>next_protocol_deadline\<close> says when the run loop wakes up and
  \<open>on_protocol_deadline\<close> what it does then; the two compute the same conditions. Before the deadline
  the handler does nothing; at the deadline it acts, and afterwards the connection is gone or the
  next deadline lies in the future, so that the loop sleeps again. Two ways in which this fails are
  stated as well: a store that rejects a heartbeat, and a heartbeat interval the peer chose too large.
\<close>

section \<open>The deadline of a logged on session\<close>

text \<open>The three instants of the heartbeat protocol: give up, probe, beat.\<close>

definition give_up_at :: "('st, 'ap) session \<Rightarrow> nat" where
  "give_up_at s = se_last_received s + se_heart_bt_int s * 24 div 10"

definition probe_at :: "('st, 'ap) session \<Rightarrow> nat" where
  "probe_at s = se_last_received s + se_heart_bt_int s * test_factor s div 10"

definition beat_at :: "('st, 'ap) session \<Rightarrow> nat" where
  "beat_at s = se_last_sent s + se_heart_bt_int s"

definition beating :: "('st, 'ap) session \<Rightarrow> bool" where
  "beating s \<longleftrightarrow> is_connected s \<and> se_received_logon s \<and> \<not> se_sent_logout s \<and> 0 < se_heart_bt_int s"

lemma beating_deadline:
  assumes "beating s" and "next_protocol_deadline e s = Ok (Some t)"
  shows "t = (if se_test_request_counter s = 0 then min (min (give_up_at s) (probe_at s)) (beat_at s)
              else min (give_up_at s) (probe_at s))"
    and "give_up_at s < max_instant" and "probe_at s < max_instant"
  using assms
  by (auto simp: beating_def next_protocol_deadline_def instant_add_def mul_tenths_def give_up_at_def probe_at_def
      beat_at_def split: if_splits)

lemma beating_durations:
  assumes "beating s" and "next_protocol_deadline e s = Ok (Some t)"
  shows "mul_tenths (se_heart_bt_int s) 24 = Ok (se_heart_bt_int s * 24 div 10)"
    and "mul_tenths (se_heart_bt_int s) (test_factor s) = Ok (se_heart_bt_int s * test_factor s div 10)"
  using assms
  by (auto simp: beating_def next_protocol_deadline_def instant_add_def mul_tenths_def split: if_splits)

lemma beating_handler:
  assumes "beating s" and "next_protocol_deadline e s = Ok (Some t)"
    and "se_last_sent s \<le> en_now e" and "se_last_received s \<le> en_now e"
  shows "(on_protocol_deadline e s :: ('e, unit) outcome \<times> _) =
    (if give_up_at s \<le> en_now e then
       thn (whenM (cfg_send_logout_before_disconnect_from_timeout (en_cfg e)) (discard (initiate_logout e [])))
           (disconnect e ''Timed out waiting for heartbeat'') s
     else if probe_at s \<le> en_now e then thn (modify bump_test_counter) (discard (send_message e test_request_message)) s
     else if beat_at s \<le> en_now e \<and> se_test_request_counter s = 0 then discard (send_message e (with_type MT_HEARTBEAT)) s
     else (Done (), s))"
  using assms(1,3,4) beating_durations [OF assms(1,2)]
  by (simp add: on_protocol_deadline_def heartbeat_timers_def beating_def look_def lift_res_def bnd_def [of "lift_res _"]
      give_up_at_def probe_at_def beat_at_def ret_def le_diff_conv2 add.commute Let_def)

section \<open>Before the deadline\<close>

text \<open>
  The timer handler does nothing before the deadline the run loop computed: the two functions
  agree on when something is due, in every phase of a connection.
\<close>

lemma timer_idle_before_deadline:
  assumes "next_protocol_deadline e s = Ok (Some t)" and "en_now e < t"
    and "se_last_sent s \<le> en_now e" and "se_last_received s \<le> en_now e"
  shows "(on_protocol_deadline e s :: ('e, unit) outcome \<times> _) = (Done (), s)"
proof (cases "beating s")
  case True
  then show ?thesis
    using beating_handler [OF True assms(1,3,4)] beating_deadline(1) [OF True assms(1)] assms(2)
    by (auto split: if_splits)
next
  case False
  then show ?thesis using assms
    by (auto simp: on_protocol_deadline_def look_def ret_def whenM_def next_protocol_deadline_def beating_def
        instant_add_def split: if_splits)
qed

text \<open>The sample session one second after its logon: nothing is due for another 29 seconds.\<close>

lemma online_deadline: "en_cfg e = sample_cfg \<Longrightarrow> next_protocol_deadline e online_session = Ok (Some (secs 30))"
  by (simp add: next_protocol_deadline_def online_session_def attached_session_eq fresh_session_def session_spawn_def
      is_connected_def sample_cfg_def mul_tenths_def instant_add_def max_duration_def max_instant_def secs_def test_factor_def)

lemma online_times: "se_last_sent online_session = 0" "se_last_received online_session = 0"
  by (simp_all add: online_session_def attached_session_eq fresh_session_def session_spawn_def)

lemma timer_idle_before_deadline_witness:
  "(on_protocol_deadline (sample_env\<lparr>en_now := secs 1\<rparr>) online_session :: (unit, unit) outcome \<times> _)
     = (Done (), online_session)"
  by (rule timer_idle_before_deadline [OF online_deadline]) (simp_all add: secs_def online_times)

section \<open>At the deadline\<close>

lemma disconnect_drops: "\<not> is_connected (snd (disconnect e reason s))"
  by (auto simp: disconnect_def cmd_defs is_connected_def call_on_logout_def disconnect_state_def
      split: prod.splits res.splits)

lemma thn_snd: "m s = (Done (), t) \<Longrightarrow> thn m k s = k t"
  by (simp add: thn_def bnd_def)

text \<open>
  Deadlines after a probe or a heartbeat was sent at \<open>now\<close>. With the counter at 0 a probe is due only
  before the session gives up, so the next deadline is to give up.
\<close>

lemma probe_counter:
  assumes "0 < se_heart_bt_int s" and "Suc (se_test_request_counter s) < 2 ^ 32"
    and "probe_at s \<le> now" and "now < give_up_at s"
  shows "se_test_request_counter s = 0"
proof (rule ccontr)
  assume "se_test_request_counter s \<noteq> 0"
  then have "24 \<le> test_factor s" using assms(2) by (simp add: test_factor_def)
  then have "se_heart_bt_int s * 24 div 10 \<le> se_heart_bt_int s * test_factor s div 10"
    by (intro div_le_mono mult_le_mono2)
  with assms(3,4) show False by (simp add: probe_at_def give_up_at_def)
qed

lemma deadline_after_probe:
  assumes "beating s" and "next_protocol_deadline e s = Ok (Some t)" and "en_now e < give_up_at s"
    and "beating s'" and "se_heart_bt_int s' = se_heart_bt_int s" and "se_last_received s' = se_last_received s"
    and "se_test_request_counter s' = 1"
  shows "next_protocol_deadline e s' = Ok (Some (give_up_at s))"
proof -
  have "test_factor s' = 24" using assms(7) by (simp add: test_factor_def)
  then show ?thesis
    using assms(4-7) beating_durations(1) [OF assms(1,2)] beating_deadline(2) [OF assms(1,2)]
    by (simp add: next_protocol_deadline_def beating_def instant_add_def give_up_at_def)
qed

lemma deadline_after_beat:
  assumes "beating s" and "next_protocol_deadline e s = Ok (Some t)" and "en_now e < probe_at s"
    and "beating s'" and "se_heart_bt_int s' = se_heart_bt_int s" and "se_last_received s' = se_last_received s"
    and "se_test_request_counter s = 0" and "se_test_request_counter s' = 0" and "se_last_sent s' = en_now e"
    and "en_now e < give_up_at s"
  shows "\<exists>t'. next_protocol_deadline e s' = Ok (Some t') \<and> en_now e < t'"
proof -
  let ?h = "se_heart_bt_int s"
  have f: "test_factor s' = 12" "test_factor s = 12" using assms(7,8) by (simp_all add: test_factor_def)
  have "?h * 12 div 10 + ?h \<le> ?h * 24 div 10" by simp
  then have "en_now e + ?h < max_instant"
    using assms(3) f beating_deadline(2) [OF assms(1,2)] by (simp add: probe_at_def give_up_at_def)
  then show ?thesis
    using assms f beating_durations [OF assms(1,2)] beating_deadline(2,3) [OF assms(1,2)]
    by (simp add: next_protocol_deadline_def beating_def instant_add_def give_up_at_def probe_at_def)
qed

lemma memory_persist_ok: "en_ops e = memory_ops \<Longrightarrow> \<exists>st'. persist_op e n raw st = (Ok (), st')"
  by (simp add: persist_op_def save_message_and_incr_def memory_ops_def ms_save_def)

lemma memory_disconnect_done:
  "en_ops e = memory_ops \<Longrightarrow> \<exists>s'. (disconnect e reason s :: ('e, unit) outcome \<times> _) = (Done (), s') \<and> \<not> is_connected s'"
  using disconnect_drops [of e reason s]
  by (auto simp: disconnect_def cmd_defs call_on_logout_def memory_ops_def ms_reset_def is_connected_def disconnect_state_def)

lemma memory_send_done:
  assumes "en_ops e = memory_ops" and "passive_application (en_application e)" and "next_sender e s < 2 ^ 63"
    and "can_transmit s"
  obtains raw st where "(discard (send_message e m) s :: ('e, unit) outcome \<times> _) = (Done (), after_transmit e raw (s\<lparr>se_store := st\<rparr>))"
proof -
  obtain st where "persist_op e (next_sender e s) (to_bytes (outgoing e s m)) (se_store s) = (Ok (), st)"
    using memory_persist_ok [OF assms(1)] by blast
  from send_message_done [OF assms(2-4) this] show ?thesis by (intro that) (simp add: discard_def)
qed

lemma memory_logout_done:
  assumes "en_ops e = memory_ops" and "passive_application (en_application e)" and "next_sender e s < 2 ^ 63"
    and "can_transmit s"
  shows "\<exists>s'. (discard (initiate_logout e reason) s :: ('e, unit) outcome \<times> _) = (Done (), s')"
proof -
  let ?s = "s\<lparr>se_log := se_log s @ [LogEvent (if reason = [] then ''Initiated logout request'' else ''Initiated logout: '' @ reason)],
    se_sent_logout := True\<rparr>"
  have "can_transmit ?s" "next_sender e ?s = next_sender e s" using assms(4) by (simp_all add: can_transmit_def next_sender_def)
  then obtain s' where "(discard (send_message e (logout_message reason)) ?s :: ('e, unit) outcome \<times> _) = (Done (), s')"
    using memory_send_done [OF assms(1,2), of ?s "logout_message reason"] assms(3) by metis
  then show ?thesis by (auto simp: initiate_logout_def discard_def thn_def bnd_def event_def modify_def)
qed

lemma beating_kept:
  "beating (after_transmit e raw (s\<lparr>se_store := st\<rparr>)) = beating s" "beating (bump_test_counter s) = beating s"
  "next_sender e (bump_test_counter s) = next_sender e s" "can_transmit (bump_test_counter s) = can_transmit s"
  "sent_frames (bump_test_counter s) = sent_frames s"
  by (auto simp: beating_def after_transmit_def push_out_def is_connected_def bump_test_counter_def next_sender_def
      can_transmit_def sent_frames_def split: option.splits)

text \<open>Either the connection is gone, or one message was sent and the next deadline is in the future.\<close>

definition progressed :: "('st, 'ap) env \<Rightarrow> ('st, 'ap) session \<Rightarrow> ('st, 'ap) session \<Rightarrow> bool" where
  "progressed e s s' \<longleftrightarrow> \<not> is_connected s'
     \<or> (\<exists>t' raw. next_protocol_deadline e s' = Ok (Some t') \<and> en_now e < t' \<and> sent_frames s' = sent_frames s @ [raw])"

lemma closed_progress:
  assumes "en_ops e = memory_ops"
    and "\<exists>reason s1. (on_protocol_deadline e s :: ('e, unit) outcome \<times> _) = disconnect e reason s1"
  shows "\<exists>s'. (on_protocol_deadline e s :: ('e, unit) outcome \<times> _) = (Done (), s') \<and> progressed e s s'"
  using memory_disconnect_done [OF assms(1)] assms(2) unfolding progressed_def by metis

lemma give_up_progress:
  assumes "en_ops e = memory_ops" and "passive_application (en_application e)" and "next_sender e s < 2 ^ 63"
    and "can_transmit s" and "beating s" and "next_protocol_deadline e s = Ok (Some t)"
    and "se_last_sent s \<le> en_now e" and "se_last_received s \<le> en_now e" and "give_up_at s \<le> en_now e"
  shows "\<exists>s'. (on_protocol_deadline e s :: ('e, unit) outcome \<times> _) = (Done (), s') \<and> progressed e s s'"
proof -
  let ?lo = "whenM (cfg_send_logout_before_disconnect_from_timeout (en_cfg e)) (discard (initiate_logout e []))"
  obtain s1 where "(?lo s :: ('e, unit) outcome \<times> _) = (Done (), s1)"
    using memory_logout_done [OF assms(1-4), of "[]", where ?'e = 'e]
    by (cases "cfg_send_logout_before_disconnect_from_timeout (en_cfg e)") (auto simp: whenM_def ret_def)
  then have "(on_protocol_deadline e s :: ('e, unit) outcome \<times> _) = disconnect e ''Timed out waiting for heartbeat'' s1"
    using beating_handler [OF assms(5-8), where ?'e = 'e] assms(9) by (simp add: thn_def bnd_def)
  then show ?thesis by (intro closed_progress [OF assms(1)]) blast
qed

lemma probe_progress:
  assumes "en_ops e = memory_ops" and "passive_application (en_application e)" and "next_sender e s < 2 ^ 63"
    and "can_transmit s" and "beating s" and "next_protocol_deadline e s = Ok (Some t)"
    and "se_last_sent s \<le> en_now e" and "se_last_received s \<le> en_now e"
    and "Suc (se_test_request_counter s) < 2 ^ 32" and "en_now e < give_up_at s" and "probe_at s \<le> en_now e"
  shows "\<exists>s'. (on_protocol_deadline e s :: ('e, unit) outcome \<times> _) = (Done (), s') \<and> progressed e s s'"
proof -
  have "0 < se_heart_bt_int s" using assms(5) by (simp add: beating_def)
  then have c: "se_test_request_counter s = 0" by (rule probe_counter [OF _ assms(9,11,10)])
  obtain raw st where sent: "(discard (send_message e test_request_message) (bump_test_counter s) :: ('e, unit) outcome \<times> _)
      = (Done (), after_transmit e raw ((bump_test_counter s)\<lparr>se_store := st\<rparr>))"
    by (rule memory_send_done [OF assms(1,2), of "bump_test_counter s" test_request_message])
       (use assms(3,4) in \<open>simp_all add: beating_kept\<close>)
  let ?s' = "after_transmit e raw ((bump_test_counter s)\<lparr>se_store := st\<rparr>)"
  have "next_protocol_deadline e ?s' = Ok (Some (give_up_at s))"
    by (rule deadline_after_probe [OF assms(5,6,10)])
       (simp_all add: beating_kept assms(5), simp_all add: after_transmit_def push_out_def bump_test_counter_def c)
  moreover have "sent_frames ?s' = sent_frames s @ [raw]"
    using sent_frames_after [of "(bump_test_counter s)\<lparr>se_store := st\<rparr>"] assms(4) by (simp add: beating_kept)
  ultimately show ?thesis
    using beating_handler [OF assms(5-8), where ?'e = 'e] sent assms(10,11)
    by (auto simp: thn_def bnd_def modify_def progressed_def)
qed

lemma beat_progress:
  assumes "en_ops e = memory_ops" and "passive_application (en_application e)" and "next_sender e s < 2 ^ 63"
    and "can_transmit s" and "beating s" and "next_protocol_deadline e s = Ok (Some t)"
    and "se_last_sent s \<le> en_now e" and "se_last_received s \<le> en_now e"
    and "en_now e < give_up_at s" and "en_now e < probe_at s" and "beat_at s \<le> en_now e" and "se_test_request_counter s = 0"
  shows "\<exists>s'. (on_protocol_deadline e s :: ('e, unit) outcome \<times> _) = (Done (), s') \<and> progressed e s s'"
proof -
  obtain raw st where sent: "(discard (send_message e (with_type MT_HEARTBEAT)) s :: ('e, unit) outcome \<times> _)
      = (Done (), after_transmit e raw (s\<lparr>se_store := st\<rparr>))"
    by (rule memory_send_done [OF assms(1-4)])
  let ?s' = "after_transmit e raw (s\<lparr>se_store := st\<rparr>)"
  have "\<exists>t'. next_protocol_deadline e ?s' = Ok (Some t') \<and> en_now e < t'"
    by (rule deadline_after_beat [OF assms(5,6,10)]) (use assms(5,9,12) in \<open>simp_all add: beating_kept\<close>)
  moreover have "sent_frames ?s' = sent_frames s @ [raw]"
    using sent_frames_after [of "s\<lparr>se_store := st\<rparr>"] assms(4) by simp
  ultimately show ?thesis
    using beating_handler [OF assms(5-8), where ?'e = 'e] sent assms(9-12)
    by (auto simp: progressed_def simp del: after_transmit_simps)
qed

text \<open>
  C11. At its deadline the timer makes progress: with the in-memory store, an application that lets
  session messages pass and an open connection, the handler returns, and either the connection
  is closed or exactly one message was sent and the next deadline is in the future. So the
  timer branch of the run loop never spins, and a silent peer is given up on.
\<close>

theorem timer_progress_at_deadline:
  assumes "en_ops e = memory_ops" and "passive_application (en_application e)" and "next_sender e s < 2 ^ 63"
    and "beating s \<longrightarrow> can_transmit s" and "Suc (se_test_request_counter s) < 2 ^ 32"
    and "next_protocol_deadline e s = Ok (Some t)" and "t \<le> en_now e"
    and "se_last_sent s \<le> en_now e" and "se_last_received s \<le> en_now e"
  shows "\<exists>s'. (on_protocol_deadline e s :: ('e, unit) outcome \<times> _) = (Done (), s')
    \<and> (\<not> is_connected s'
       \<or> (\<exists>t' raw. next_protocol_deadline e s' = Ok (Some t') \<and> en_now e < t' \<and> sent_frames s' = sent_frames s @ [raw]))"
  unfolding progressed_def [symmetric]
proof (cases "beating s")
  case True
  have ct: "can_transmit s" using True assms(4) by simp
  consider (give_up) "give_up_at s \<le> en_now e"
    | (probe) "en_now e < give_up_at s" "probe_at s \<le> en_now e"
    | (beat) "en_now e < give_up_at s" "en_now e < probe_at s" "beat_at s \<le> en_now e" "se_test_request_counter s = 0"
    using beating_deadline(1) [OF True assms(6)] assms(7)
    by (cases "give_up_at s \<le> en_now e"; cases "probe_at s \<le> en_now e") (auto simp: min_def split: if_splits)
  then show "\<exists>s'. (on_protocol_deadline e s :: ('e, unit) outcome \<times> _) = (Done (), s') \<and> progressed e s s'"
  proof cases
    case give_up
    then show ?thesis by (rule give_up_progress [OF assms(1-3) ct True assms(6,8,9)])
  next
    case probe
    then show ?thesis by (rule probe_progress [OF assms(1-3) ct True assms(6,8,9,5)])
  next
    case beat
    then show ?thesis by (rule beat_progress [OF assms(1-3) ct True assms(6,8,9)])
  qed
next
  case False
  have "\<exists>reason. (on_protocol_deadline e s :: ('e, unit) outcome \<times> _) = disconnect e reason s"
    using False assms(6-9)
    by (auto simp: on_protocol_deadline_def look_def whenM_def next_protocol_deadline_def beating_def instant_add_def
        split: if_splits)
  then show "\<exists>s'. (on_protocol_deadline e s :: ('e, unit) outcome \<times> _) = (Done (), s') \<and> progressed e s s'"
    by (intro closed_progress [OF assms(1)]) blast
qed

theorem timer_progress_at_deadline_witness:
  "\<exists>s'. (on_protocol_deadline (sample_env\<lparr>en_now := secs 30\<rparr>) online_session :: (unit, unit) outcome \<times> _) = (Done (), s')
     \<and> (\<not> is_connected s' \<or> (\<exists>t' raw. next_protocol_deadline (sample_env\<lparr>en_now := secs 30\<rparr>) s' = Ok (Some t')
          \<and> secs 30 < t' \<and> sent_frames s' = sent_frames online_session @ [raw]))"
proof -
  have "next_sender (sample_env\<lparr>en_now := secs 30\<rparr>) online_session = 1"
    using online_next_sender by (simp add: next_sender_def)
  moreover have "se_test_request_counter online_session = 0"
    by (simp add: online_session_def attached_session_eq fresh_session_def session_spawn_def)
  ultimately show ?thesis
    using timer_progress_at_deadline [of "sample_env\<lparr>en_now := secs 30\<rparr>" online_session "secs 30", OF _ _ _ _ _ online_deadline, where ?'e = unit]
    by (simp add: channel_app.passive_application_axioms online_can_transmit online_times)
qed

section \<open>A store that rejects the heartbeat\<close>

lemma deadline_store: "next_protocol_deadline e (s\<lparr>se_store := st\<rparr>) = next_protocol_deadline e s"
  by (simp add: next_protocol_deadline_def is_connected_def test_factor_def cong: if_cong)

text \<open>
  When a heartbeat is due and the store does not accept it, the timer handler leaves the state
  such that the same deadline is due again at once: the error is dropped and \<open>last_sent\<close>, from which
  the deadline is computed, does not move. Until the peer's silence makes a probe due the run loop
  goes round without sleeping.
\<close>

lemma failing_heartbeat_spins:
  assumes "passive_application (en_application e)" and "next_sender e s < 2 ^ 63" and "beating s"
    and "next_protocol_deadline e s = Ok (Some t)" and "t \<le> en_now e"
    and "en_now e < probe_at s" and "en_now e < give_up_at s"
    and "se_last_sent s \<le> en_now e" and "se_last_received s \<le> en_now e"
    and "persist_op e (next_sender e s) (to_bytes (outgoing e s (with_type MT_HEARTBEAT))) (se_store s) = (Err er, st)"
  shows "\<exists>s'. (on_protocol_deadline e s :: ('e, unit) outcome \<times> _) = (Done (), s') \<and> sent_frames s' = sent_frames s
    \<and> next_protocol_deadline e s' = Ok (Some t) \<and> enabled e s' InProtocolTimer"
proof -
  have "beat_at s \<le> en_now e \<and> se_test_request_counter s = 0"
    using beating_deadline(1) [OF assms(3,4)] assms(5-7) by (auto simp: min_def split: if_splits)
  moreover have "send_message e (with_type MT_HEARTBEAT) s = (Fail er, s\<lparr>se_store := st\<rparr>)"
    by (rule send_message_fails [OF assms(1,2,10)])
  ultimately have "(on_protocol_deadline e s :: ('e, unit) outcome \<times> _) = (Done (), s\<lparr>se_store := st\<rparr>)"
    using beating_handler [OF assms(3,4,8,9)] assms(6,7) by (simp add: discard_def)
  moreover have "next_protocol_deadline e (s\<lparr>se_store := st\<rparr>) = Ok (Some t)"
    using assms(4) by (simp only: deadline_store)
  ultimately show ?thesis using assms(5) by simp
qed

text \<open>A store whose disk is full.\<close>

definition full_ops :: "memory_store store_ops" where
  "full_ops = memory_ops\<lparr>so_save := (\<lambda>n raw st. (Err (IoError ''No space left on device''), st))\<rparr>"

definition full_env :: "(memory_store, session_event list) env" where
  "full_env = sample_env\<lparr>en_ops := full_ops, en_now := secs 30\<rparr>"

lemma failing_heartbeat_spins_witness:
  "\<exists>s'. (on_protocol_deadline full_env online_session :: (unit, unit) outcome \<times> _) = (Done (), s')
     \<and> sent_frames s' = [] \<and> enabled full_env s' InProtocolTimer"
proof -
  have hb: "se_heart_bt_int online_session = secs 30" "se_test_request_counter online_session = 0"
    by (simp_all add: online_session_def attached_session_eq fresh_session_def session_spawn_def sample_cfg_def)
  have "next_protocol_deadline full_env online_session = Ok (Some (secs 30))"
    by (rule online_deadline) (simp add: full_env_def)
  moreover have "beating online_session"
    by (simp add: beating_def hb secs_def is_connected_def) (simp add: online_session_def attached_session_eq fresh_session_def
        session_spawn_def)
  moreover have "next_sender full_env online_session = 1"
    using online_next_sender by (simp add: next_sender_def full_env_def full_ops_def memory_ops_def)
  moreover have "persist_op full_env n raw st = (Err (IoError ''No space left on device''), st)" for n raw st
    by (simp add: persist_op_def full_env_def full_ops_def save_message_and_incr_def sample_cfg_def)
  moreover have "secs 30 < probe_at online_session" "secs 30 < give_up_at online_session"
    by (simp_all add: probe_at_def give_up_at_def online_times hb test_factor_def secs_def)
  moreover have "passive_application (en_application full_env)"
    by (simp add: full_env_def channel_app.passive_application_axioms)
  moreover have "en_now full_env = secs 30" by (simp add: full_env_def)
  ultimately show ?thesis
    using failing_heartbeat_spins [of full_env online_session "secs 30"] by (simp add: online_times online_frames) blast
qed

section \<open>A heartbeat interval that is too large\<close>

text \<open>
  C40. An acceptor without an override adopts the HeartBtInt of the peer's Logon unchecked. From
  \<open>2 ^ 62\<close> seconds on, computing the next deadline of the logged on session overflows the clock and
  unwinds: the session task ends.
\<close>

theorem huge_heart_bt_int_unwinds:
  assumes "cfg_heart_bt_int_override (en_cfg e) = None" and "2 ^ 62 \<le> n"
    and "is_connected s" and "se_received_logon s" and "\<not> se_sent_logout s"
  shows "next_protocol_deadline e (adopt_heart_bt_int e (Some n) s) = Panic"
proof -
  have "2 ^ 63 * 10 ^ 9 \<le> secs n * 24 div 10" using assms(2) by (simp add: secs_def)
  then show ?thesis
    using assms
    by (auto simp: next_protocol_deadline_def adopt_heart_bt_int_def is_connected_def mul_tenths_def instant_add_def
        max_instant_def secs_def)
qed

theorem huge_heart_bt_int_unwinds_witness:
  "next_protocol_deadline sample_env (adopt_heart_bt_int sample_env (Some (2 ^ 62)) online_session) = Panic"
  by (rule huge_heart_bt_int_unwinds)
     (simp_all add: sample_cfg_def is_connected_def online_session_def attached_session_eq fresh_session_def session_spawn_def)

end
