(* ===== verification/Session_Exchange.thy ===== *)
theory Session_Exchange
  imports Session_Recovery Typed_Field Session_Timers
begin

text \<open>
  The whole exchange that recovers lost messages: a message arrives whose number is too high, the
  receiver asks for the missing ones, the sender answers, and the receiver catches up.
\<close>

section \<open>A message that arrives too early\<close>

text \<open>The request sent for the numbers before \<open>k\<close>.\<close>

definition request_for :: "('st, 'ap) env \<Rightarrow> u64 \<Rightarrow> ('st, 'ap) session \<Rightarrow> message" where
  "request_for e k s = outgoing e (s\<lparr>se_last_received_seq := k\<rparr>) (resend_request_message e (next_target e s) (k - 1))"

lemma outgoing_cong:
  "se_store s = se_store s' \<Longrightarrow> se_last_received_seq s = se_last_received_seq s' \<Longrightarrow> outgoing e s m = outgoing e s' m"
  by (simp add: outgoing_def prepare_def fill_header_def next_sender_def Let_def)

lemma request_for_store: "se_store s = se_store s' \<Longrightarrow> request_for e k s = request_for e k s'"
  using outgoing_cong [of "s\<lparr>se_last_received_seq := k\<rparr>" "s'\<lparr>se_last_received_seq := k\<rparr>"] by (simp add: request_for_def next_target_def)

lemma resend_request_body:
  "body (resend_request_message e b n) = [tv BEGIN_SEQ_NO (encode_u64 b), tv END_SEQ_NO (encode_u64 (resend_end_field e n))]"
  by (simp add: resend_request_message_def set_body_def with_type_def message_new_def set_header_def)

lemma request_fields:
  assumes "next_sender e s < 2 ^ 63" and "next_target e s < 2 ^ 63" and "cfg_max_messages_in_resend_request (en_cfg e) = 0"
  shows "seq_num (request_for e k s) = Inr (next_sender e s)" "msg_type (request_for e k s) = Inr MT_RESEND_REQUEST"
    "get_ok decode_u64 BEGIN_SEQ_NO (body (request_for e k s)) = Some (next_target e s)"
    "get_ok decode_u64 END_SEQ_NO (body (request_for e k s)) = Some (if fix42_plus e then 0 else 999999)"
proof -
  let ?rr = "resend_request_message e (next_target e s) (k - 1)"
  have "get_raw t (body (request_for e k s)) = get_raw t (body ?rr)" for t
    unfolding request_for_def by (rule get_raw_perm) (simp_all add: outgoing_fresh resend_request_body)
  then show "get_ok decode_u64 BEGIN_SEQ_NO (body (request_for e k s)) = Some (next_target e s)"
    "get_ok decode_u64 END_SEQ_NO (body (request_for e k s)) = Some (if fix42_plus e then 0 else 999999)"
    using assms(2,3) by (simp_all add: get_ok_def fm_get_opt_def resend_request_body decode_u64_encode resend_end_field_def)
  show "seq_num (request_for e k s) = Inr (next_sender e s)"
    using outgoing_seq [of e "s\<lparr>se_last_received_seq := k\<rparr>"] assms(1) by (simp add: request_for_def next_sender_def)
  have "get_raw MSG_TYPE (header ?rr) = Some MT_RESEND_REQUEST"
    by (simp add: resend_request_message_def with_type_def message_new_def)
  then show "msg_type (request_for e k s) = Inr MT_RESEND_REQUEST"
    by (simp add: msg_type_def get_string_def fm_get_def request_for_def outgoing_def decode_string_def utf8_ok_ascii byte_of_def)
qed

text \<open>The state after a message was stashed and the missing ones were asked for.\<close>

definition after_request ::
  "(memory_store, 'ap) env \<Rightarrow> message \<Rightarrow> u64 \<Rightarrow> (memory_store, 'ap) session \<Rightarrow> (memory_store, 'ap) session \<Rightarrow> bool" where
  "after_request e m k s s' \<longleftrightarrow>
     se_app s' = se_app s \<and> se_received_logon s' = se_received_logon s \<and> next_target e s' = next_target e s
     \<and> se_stash s' = bt_insert k (to_bytes m) (se_stash s) \<and> se_resend_range s' = Some (next_target e s, k - 1, k - 1)
     \<and> sent_frames s' = sent_frames s @ [to_bytes (request_for e k s)]
     \<and> next_sender e s' = u64_add (next_sender e s) 1"

lemma memory_persist_counts:
  "en_ops e = memory_ops \<Longrightarrow> \<exists>st'. persist_op e n raw st = (Ok (), st') \<and> ms_next_target st' = ms_next_target st
    \<and> ms_next_sender st' = u64_add (ms_next_sender st) 1"
  by (simp add: persist_op_def save_message_and_incr_def memory_ops_def ms_save_def)

lemma too_high_asks:
  assumes "en_ops e = memory_ops" and "passive_application (en_application e)" and "cfg_max_messages_in_resend_request (en_cfg e) = 0"
    and "se_resend_range s = None" and "can_transmit s" and "next_sender e s < 2 ^ 63" and "0 < k" and "k < 2 ^ 64"
    and "se_last_received_seq s = k"
  shows "\<exists>s'. on_target_too_high e m k (next_target e s) s = (Done (), s') \<and> after_request e m k s s'"
proof -
  let ?n = "next_target e s"
  have k: "u64_sub k 1 = k - 1" using assms(7,8) by (simp add: u64_sub_exact)
  define s1 where "s1 = s\<lparr>se_stash := bt_insert k (to_bytes m) (se_stash s), se_resend_range := Some (?n, k - 1, k - 1),
    se_log := se_log s @ [LogEvent (''MsgSeqNum too high, expecting '' @ dec_nat ?n @ '' but received '' @ dec_nat k),
      LogEvent (''Sent ResendRequest FROM: '' @ dec_nat ?n @ '' TO: '' @ dec_nat (k - 1))]\<rparr>"
  have s1: "can_transmit s1" "next_sender e s1 = next_sender e s"
    using assms(5) by (simp_all add: s1_def can_transmit_def next_sender_def)
  have o: "outgoing e s1 (resend_request_message e ?n (k - 1)) = request_for e k s"
    unfolding request_for_def using assms(9) by (intro outgoing_cong) (simp_all add: s1_def)
  obtain st where st: "persist_op e (next_sender e s1) (to_bytes (request_for e k s)) (se_store s1) = (Ok (), st)"
    "ms_next_target st = ms_next_target (se_store s1)" "ms_next_sender st = u64_add (ms_next_sender (se_store s1)) 1"
    using memory_persist_counts [OF assms(1)] by blast
  let ?s' = "after_transmit e (to_bytes (request_for e k s)) (s1\<lparr>se_store := st\<rparr>)"
  have "send_message e (resend_request_message e ?n (k - 1)) s1 = (Done (), ?s')"
    using send_message_done [OF assms(2) _ s1(1), of "resend_request_message e ?n (k - 1)" st] assms(6) s1(2) st(1) o by simp
  moreover have "on_target_too_high e m k ?n s =
      map_err (\<lambda>er. ''failed to send ResendRequest: '' @ error_display er) (send_message e (resend_request_message e ?n (k - 1))) s1"
    using assms(3,4) k
    by (simp add: on_target_too_high_def send_resend_request_def resend_chunk_end_def thn_def bnd_def event_def modify_def gets_def
        whenM_def map_err_def s1_def Let_def)
  ultimately have "on_target_too_high e m k ?n s = (Done (), ?s')" by (simp add: map_err_def)
  moreover have "after_request e m k s ?s'"
    using sent_frames_after [of "s1\<lparr>se_store := st\<rparr>" e "to_bytes (request_for e k s)"] s1(1) st(2,3) assms(1)
    by (simp add: after_request_def s1_def next_target_def next_sender_def memory_ops_def can_transmit_def sent_frames_def)
  ultimately show ?thesis by blast
qed

lemma process_too_high:
  assumes "app_frame e k m" and "next_target e s < k" and "se_received_logon s"
    and "on_target_too_high e m k (next_target e s) s = (Done (), s')"
  shows "process e m s = (Done (), s')"
proof -
  obtain mt where mt: "msg_type m = Inr mt" "\<not> is_admin_type mt" "receivable e m" "seq_num m = Inr k"
    using assms(1) by (auto simp: app_frame_def)
  have "acceptable e s m" using receivable_acceptable [OF mt(3) assms(3)] app_frame_type [OF assms(1)] by simp
  then have "verify e m True True s = (Done StopFlow, s')"
    using assms(2,4) mt(4) by (simp add: verify_acceptable verify_seq_def bnd_def thn_def gets_def ret_def)
  then show ?thesis
    using process_app_message [of m mt e] mt by (simp add: receivable_def handle_app_message_def if_continue_def bnd_def ret_def)
qed

lemma early_inbound:
  fixes cfg dd add ch cals now utc
  defines "e \<equiv> channel_system cfg dd add ch cals now utc"
  assumes "message_parse raw (cfg_validate_length_checksum cfg) = Ok m" and "app_frame e k m"
    and "next_target e s < k" and "k < 2 ^ 63" and "se_received_logon s" and "se_stash s = []" and "se_resend_range s = None"
    and "can_transmit s" and "next_sender e s < 2 ^ 63 - 1" and "cfg_max_messages_in_resend_request cfg = 0"
  shows "\<exists>s'. (on_inbound e fuel raw s :: ('e, unit) outcome \<times> _) = (Done (), s')
    \<and> sent_frames s' = sent_frames s @ [to_bytes (request_for e k s)] \<and> se_received_logon s'
    \<and> se_app s' = se_app s \<and> se_stash s' = [(k, to_bytes m)] \<and> next_target e s' = next_target e s
    \<and> next_sender e s' = next_sender e s + 1 \<and> se_resend_range s' = Some (next_target e s, k - 1, k - 1)"
proof -
  let ?s0 = "s\<lparr>se_log := se_log s @ [LogIncoming raw], se_last_received_seq := k\<rparr>"
  have req: "request_for e k ?s0 = request_for e k s" by (rule request_for_store) simp
  have s0: "next_target e ?s0 = next_target e s" "next_sender e ?s0 = next_sender e s" "can_transmit ?s0" "se_received_logon ?s0"
    "sent_frames ?s0 = sent_frames s" "se_app ?s0 = se_app s" "se_stash ?s0 = []" "se_resend_range ?s0 = None" "se_last_received_seq ?s0 = k"
    using assms(6-9) by (simp_all add: next_target_def next_sender_def can_transmit_def sent_frames_def)
  have e: "en_ops e = memory_ops" "en_cfg e = cfg" "passive_application (en_application e)"
    by (simp_all add: e_def channel_app.passive_application_axioms)
  obtain s1 where s1: "on_target_too_high e m k (next_target e ?s0) ?s0 = (Done (), s1)" "after_request e m k ?s0 s1"
    using too_high_asks [OF e(1,3) _ s0(8,3) _ _ _ s0(9)] s0(2) assms(4,5,10,11) e(2) by auto
  let ?s2 = "s1\<lparr>se_last_processed_was_queued := False\<rparr>"
  have s2: "next_target e ?s2 = next_target e s" "next_sender e ?s2 = next_sender e s + 1" "sent_frames ?s2 = sent_frames s @ [to_bytes (request_for e k s)]"
    "se_app ?s2 = se_app s" "se_stash ?s2 = [(k, to_bytes m)]" "se_resend_range ?s2 = Some (next_target e s, k - 1, k - 1)"
    "se_received_logon ?s2"
    using s1(2) s0 assms(10) req by (simp_all add: after_request_def next_target_def next_sender_def sent_frames_def u64_add_exact)
  have seq: "seq_num m = Inr k" using assms(3) by (simp add: app_frame_def)
  have p: "process e m ?s0 = (Done (), s1)" using process_too_high [OF assms(3) _ s0(4) s1(1)] assms(4) s0(1) by simp
  have d: "drain_stash e fuel ?s2 = (Done (), ?s2)"
    using s2(1,5) assms(4) by (cases fuel) (simp_all add: look_def ret_def)
  have c: "(check_resend_chunks e ?s2 :: ('e, unit) outcome \<times> _) = (Done (), ?s2)"
    by (rule check_chunks_open [OF s2(6)]) (simp only: s2(1) assms(4))
  have "(on_inbound e fuel raw s :: ('e, unit) outcome \<times> _) = (Done (), ?s2)"
    using on_inbound_done [OF _ seq p d c] assms(2) e(2) by simp
  with s2 show ?thesis by blast
qed

text \<open>
  An application message that arrives too early - its number is higher than expected, on a
  session with no gap open - is not delivered and not lost: it is kept in the stash, the expected
  number stays, and exactly one message is sent, a resend request under the session's next number
  that asks for everything from the expected number on.
\<close>

lemma early_message_stashed_and_requested:
  fixes cfg dd add ch cals now utc
  defines "e \<equiv> channel_system cfg dd add ch cals now utc"
  assumes "message_parse raw (cfg_validate_length_checksum cfg) = Ok m" and "app_frame e k m"
    and "next_target e s < k" and "k < 2 ^ 63" and "se_received_logon s" and "se_stash s = []" and "se_resend_range s = None"
    and "can_transmit s" and "next_sender e s < 2 ^ 63 - 1" and "cfg_max_messages_in_resend_request cfg = 0"
  shows "\<exists>s' req. (on_inbound e fuel raw s :: ('e, unit) outcome \<times> _) = (Done (), s')
    \<and> sent_frames s' = sent_frames s @ [to_bytes req]
    \<and> seq_num req = Inr (next_sender e s) \<and> msg_type req = Inr MT_RESEND_REQUEST
    \<and> get_ok decode_u64 BEGIN_SEQ_NO (body req) = Some (next_target e s)
    \<and> get_ok decode_u64 END_SEQ_NO (body req) = Some (if fix42_plus e then 0 else 999999)
    \<and> se_app s' = se_app s \<and> se_stash s' = [(k, to_bytes m)] \<and> next_target e s' = next_target e s
    \<and> next_sender e s' = next_sender e s + 1 \<and> se_resend_range s' = Some (next_target e s, k - 1, k - 1)"
proof -
  have "en_cfg e = cfg" by (simp add: e_def)
  then show ?thesis
    using early_inbound [OF assms(2) assms(3,4) [unfolded e_def] assms(5-9) assms(10) [unfolded e_def] assms(11), folded e_def, of fuel, where ?'e = 'e]
      request_fields [of e s k] assms(4,5,10,11) by auto
qed

lemma early_message_stashed_and_requested_witness:
  "\<exists>s' req. (on_inbound sample_env 1 (to_bytes (order_no ''2'')) online_session :: (unit, unit) outcome \<times> _) = (Done (), s')
    \<and> sent_frames s' = sent_frames online_session @ [to_bytes req]
    \<and> msg_type req = Inr MT_RESEND_REQUEST \<and> get_ok decode_u64 BEGIN_SEQ_NO (body req) = Some 1
    \<and> se_app s' = se_app online_session \<and> se_stash s' = [(2, to_bytes (wire_form (order_no ''2'')))]
    \<and> se_resend_range s' = Some (1, 1, 1)"
proof -
  have p: "message_parse (to_bytes (order_no ''2'')) (cfg_validate_length_checksum sample_cfg) = Ok (wire_form (order_no ''2''))"
    by (simp add: parse_to_bytes order_no_wf)
  have a: "app_frame sample_env 2 (wire_form (order_no ''2''))" using order_no_frame [of "''2''" "order_no ''2''"] by simp
  have s: "se_received_logon online_session" "se_stash online_session = []" "se_resend_range online_session = None"
    by (simp_all add: online_session_def attached_session_eq fresh_session_def session_spawn_def)
  have c: "cfg_max_messages_in_resend_request sample_cfg = 0" by (simp add: sample_cfg_def)
  show ?thesis
    using early_message_stashed_and_requested [OF p a [unfolded sample_env_system] _ _ s online_can_transmit _ c, of 1,
        folded sample_env_system, where ?'e = unit] online_next_target online_next_sender
    by auto
qed

section \<open>The request reaches the sender\<close>

text \<open>The state in which a session that got the request \<open>m\<close> in sequence starts its answer.\<close>

definition asked :: "(memory_store, session_event list) env \<Rightarrow> bytes \<Rightarrow> message \<Rightarrow> u64 \<Rightarrow> u64
    \<Rightarrow> (memory_store, session_event list) session \<Rightarrow> (memory_store, session_event list) session" where
  "asked e raw m b c s =
     s\<lparr>se_last_received_seq := next_target e s, se_last_received := en_now e, se_test_request_counter := 0,
       se_app := se_app s @ [AdminMsg m (the_sid e)],
       se_log := se_log s @ [LogIncoming raw, LogEvent (''Received ResendRequest FROM: '' @ dec_nat b @ '' TO: '' @ dec_nat (c - 1))]\<rparr>"

definition resend_request_frame :: "('st, 'ap) env \<Rightarrow> u64 \<Rightarrow> u64 \<Rightarrow> message \<Rightarrow> bool" where
  "resend_request_frame e n b m \<longleftrightarrow> receivable e m \<and> seq_num m = Inr n \<and> msg_type m = Inr MT_RESEND_REQUEST
     \<and> get_ok decode_u64 BEGIN_SEQ_NO (body m) = Some b \<and> get_ok decode_u64 END_SEQ_NO (body m) \<in> {Some 0, Some 999999}"

lemma process_resend_request:
  fixes cfg dd add ch cals now utc
  defines "e \<equiv> channel_system cfg dd add ch cals now utc"
  assumes "resend_request_frame e (next_target e s) b m" and "se_received_logon s" and "next_sender e s = c" and "0 < c" and "c < 2 ^ 64"
    and "(answer_resend e b (c - 1) (asked e raw m b c s) :: (bytes, unit) outcome \<times> _) = (Done (), s')" and "next_target e s' = next_target e s"
  shows "process e m (s\<lparr>se_log := se_log s @ [LogIncoming raw], se_last_received_seq := next_target e s\<rparr>) =
    (Done (), s'\<lparr>se_store := (se_store s')\<lparr>ms_next_target := u64_add (ms_next_target (se_store s')) 1\<rparr>\<rparr>)"
proof -
  let ?s0 = "s\<lparr>se_log := se_log s @ [LogIncoming raw], se_last_received_seq := next_target e s\<rparr>"
  let ?s1 = "(heard e ?s0)\<lparr>se_app := se_app s @ [AdminMsg m (the_sid e)]\<rparr>"
  have m: "receivable e m" "seq_num m = Inr (next_target e ?s0)" "msg_type m = Inr MT_RESEND_REQUEST"
    using assms(2) by (simp_all add: resend_request_frame_def next_target_def)
  have t: "is_admin m" "type_or_empty m = MT_RESEND_REQUEST" using m(3) by (auto simp: msg_type_admin is_admin_type_def)
  have "acceptable e ?s0 m" using m(1) t(2) assms(3) by (intro receivable_acceptable) simp_all
  from verify_in_sequence [OF this m(2), of False False] t(1)
  have v: "verify e m False False ?s0 = (Done Continue, ?s1)"
    by (simp add: run_from_callback_def call_from_def bnd_def ret_def e_def channel_application_def heard_def)
  have b: "resend_bounds m (next_sender e ?s1) = (b, c - 1)"
    using assms(2,4-6) by (auto simp: resend_request_frame_def resend_bounds_def next_sender_def heard_def u64_sub_exact Let_def)
  have a: "?s1\<lparr>se_log := se_log ?s1 @ [LogEvent (''Received ResendRequest FROM: '' @ dec_nat b @ '' TO: '' @ dec_nat (c - 1))]\<rparr>
      = asked e raw m b c s"
    by (simp add: asked_def heard_def)
  have "process e m = handle_resend_request e m"
    using m(1,3) by (simp add: receivable_def process_def dispatch_def)
  moreover have "handle_resend_request e m ?s0 = (Done (), s'\<lparr>se_store := (se_store s')\<lparr>ms_next_target := u64_add (ms_next_target (se_store s')) 1\<rparr>\<rparr>)"
    using v b a assms(7,8) m(2) memory_incr_target [of e s']
    by (simp add: handle_resend_request_def if_continue_def bnd_def thn_def gets_def event_def modify_def whenM_def e_def next_target_def)
  ultimately show ?thesis by simp
qed

lemma on_inbound_resend_request:
  fixes cfg dd add ch cals now utc
  defines "e \<equiv> channel_system cfg dd add ch cals now utc"
  assumes "message_parse raw (cfg_validate_length_checksum cfg) = Ok m" and "resend_request_frame e (next_target e s) b m"
    and "se_received_logon s" and "next_sender e s = c" and "0 < c" and "c < 2 ^ 64" and "is_open s"
    and "se_stash s = []" and "se_resend_range s = None"
    and "(answer_resend e b (c - 1) (asked e raw m b c s) :: (bytes, unit) outcome \<times> _) = (Done (), s')" and "only_sent frames (asked e raw m b c s) s'"
  shows "\<exists>s''. (on_inbound e fuel raw s :: ('e, unit) outcome \<times> _) = (Done (), s'') \<and> sent_frames s'' = sent_frames s @ frames"
proof -
  let ?s1 = "s'\<lparr>se_store := (se_store s')\<lparr>ms_next_target := u64_add (ms_next_target (se_store s')) 1\<rparr>, se_last_processed_was_queued := False\<rparr>"
  note o = only_sent_simps [OF assms(12)]
  have s1: "se_stash ?s1 = []" "se_resend_range ?s1 = None" "sent_frames ?s1 = sent_frames s @ frames" "next_target e s' = next_target e s"
    using o(3-5) o(8) [of e] assms(8-10) by (simp_all add: asked_def sent_frames_def is_open_def next_target_def)
  have seq: "seq_num m = Inr (next_target e s)" using assms(3) by (simp add: resend_request_frame_def)
  have p: "process e m (s\<lparr>se_log := se_log s @ [LogIncoming raw], se_last_received_seq := next_target e s\<rparr>) =
    (Done (), s'\<lparr>se_store := (se_store s')\<lparr>ms_next_target := u64_add (ms_next_target (se_store s')) 1\<rparr>\<rparr>)"
    using process_resend_request [of cfg dd add ch cals now utc s b m c raw s', folded e_def] assms(3-7,11) s1(4) by simp
  have d: "drain_stash e fuel ?s1 = (Done (), ?s1)" using s1(1) by (cases fuel) (simp_all add: look_def ret_def)
  have c: "(check_resend_chunks e ?s1 :: ('e, unit) outcome \<times> _) = (Done (), ?s1)"
    using s1(2) by (simp add: check_resend_chunks_def bnd_def gets_def ret_def)
  have "message_parse raw (cfg_validate_length_checksum (en_cfg e)) = Ok m" using assms(2) by (simp add: e_def)
  from on_inbound_done [OF this seq p _ c, of fuel] d s1(3) show ?thesis by simp
qed

section \<open>The whole exchange\<close>

text \<open>A session that is logged on both ways, with no gap open.\<close>

definition quiet :: "('st, 'ap) session \<Rightarrow> bool" where
  "quiet s \<longleftrightarrow> se_received_logon s \<and> can_transmit s \<and> se_stash s = [] \<and> se_resend_range s = None"

lemma peers_agree_cong:
  assumes "se_store s = se_store s'" and "se_last_received_seq s = se_last_received_seq s'"
  shows "peers_agree es s er b k c \<longleftrightarrow> peers_agree es s' er b k c"
proof -
  have "gap_fill_message es s x y = gap_fill_message es s' x y" for x y
    using assms by (simp add: gap_fill_message_def fill_header_def next_sender_def Let_def)
  then show ?thesis using assms(1) by (simp add: peers_agree_def stored_replay_def)
qed

lemma request_frame:
  assumes "next_sender er r < 2 ^ 63" and "next_target er r < 2 ^ 63" and "cfg_max_messages_in_resend_request (en_cfg er) = 0"
    and "receivable es (wire_form (request_for er k r))"
  shows "resend_request_frame es (next_sender er r) (next_target er r) (wire_form (request_for er k r))"
  using request_fields [OF assms(1-3)] assms(4) by (simp add: resend_request_frame_def wire_form_reads)

lemma early_singleton: "queued_frame e k m (to_bytes m) \<Longrightarrow> early e k (k + 1) (\<lambda>_. m) [(k, to_bytes m)]"
  by (simp add: early_def)

text \<open>The request, once it reaches the sender, closes the gap.\<close>

lemma request_closes_gap:
  fixes cfg dd add ch cals now utc cfg' dd' add' ch' cals' now' utc'
  defines "es \<equiv> channel_system cfg dd add ch cals now utc" and "er \<equiv> channel_system cfg' dd' add' ch' cals' now' utc'"
  assumes sender: "quiet s" "ms_ok (se_store s)" "cfg_persist_messages cfg" "next_sender es s = k + 1" "stored_replay es s k \<noteq> None"
      "\<forall>n raw. map_of (ms_messages (se_store s)) n = Some raw \<longrightarrow> message_parse raw False \<noteq> Panic"
    and request: "message_wf req" "resend_request_frame es (next_target es s) b (wire_form req)"
    and receiver: "gap_open er b k (k + 1) q r" "peers_agree es (s\<lparr>se_last_received_seq := next_target es s\<rparr>) er b k (k + 1)"
      "1 \<le> fuel" "k < 2 ^ 63 - 1"
  shows "\<exists>s' frames r'. (on_inbound es fuel' (to_bytes req) s :: ('f, unit) outcome \<times> _) = (Done (), s')
    \<and> sent_frames s' = sent_frames s @ frames
    \<and> (receive er fuel frames r :: ('e, unit) outcome \<times> _) = (Done (), r')
    \<and> app_messages (se_app r') = app_messages (se_app r) @ map wire_form (List.map_filter (stored_replay es s) [b..<k]) @ [q k]
    \<and> next_target er r' = k + 1 \<and> se_stash r' = [] \<and> se_resend_range r' = None \<and> se_outbound r' = se_outbound r"
proof -
  let ?c = "k + 1"
  let ?s1 = "asked es (to_bytes req) (wire_form req) b ?c s"
  have sq: "se_received_logon s" "se_stash s = []" "se_resend_range s = None" "is_open s"
    using sender(1) by (simp_all add: quiet_def can_transmit_def is_open_def)
  have s1: "se_store ?s1 = se_store s" "is_open ?s1" "se_last_received_seq ?s1 = next_target es s" "stored_replay es ?s1 = stored_replay es s"
    using sq(4) by (simp_all add: asked_def is_open_def stored_replay_def)
  have pa: "peers_agree es ?s1 er b k ?c"
    using receiver(2) peers_agree_cong [of ?s1 "s\<lparr>se_last_received_seq := next_target es s\<rparr>" es er b k ?c] s1 by simp
  have rep: "\<forall>n. k \<le> n \<and> n < ?c \<longrightarrow> stored_replay es ?s1 n \<noteq> None"
    using sender(5) s1(4) by (metis Suc_eq_plus1 le_antisym less_Suc_eq_le)
  have ok: "ms_ok (se_store ?s1)" "?c < 2 ^ 63" "?c - k \<le> fuel"
    "\<forall>n raw. b \<le> n \<and> n < ?c \<and> map_of (ms_messages (se_store ?s1)) n = Some raw \<longrightarrow> message_parse raw False \<noteq> Panic"
    using sender(2,6) s1(1) receiver(3,4) by auto
  obtain s2 frames r' where a: "(answer_resend es b (?c - 1) ?s1 :: (bytes, unit) outcome \<times> _) = (Done (), s2)" "only_sent frames ?s1 s2"
    and r': "(receive er fuel frames r :: ('e, unit) outcome \<times> _) = (Done (), r')"
    "app_messages (se_app r') = app_messages (se_app r) @ map wire_form (List.map_filter (stored_replay es ?s1) [b..<k]) @ map q [k..<?c]"
    "next_target er r' = ?c" "se_stash r' = []" "se_resend_range r' = None" "se_outbound r' = se_outbound r"
    using gap_recovery [of ?s1 cfg ?c b k dd add ch cals now utc cfg' dd' add' ch' cals' now' utc' q r fuel,
        folded es_def er_def, OF ok(1) s1(2) sender(3) ok(2,4) rep receiver(1) pa ok(3), where ?'e = bytes and ?'f = 'e] by blast
  have p: "message_parse (to_bytes req) (cfg_validate_length_checksum cfg) = Ok (wire_form req)" using request(1) by (simp add: parse_to_bytes)
  obtain s' where "(on_inbound es fuel' (to_bytes req) s :: ('f, unit) outcome \<times> _) = (Done (), s')" "sent_frames s' = sent_frames s @ frames"
    using on_inbound_resend_request [OF p, of dd add ch cals now utc s b ?c s2 frames fuel', folded es_def,
        OF request(2) sq(1) sender(4) _ _ sq(4,2,3) a, where ?'e = 'f] ok(2) by auto
  with r' s1(4) show ?thesis by (intro exI [of _ s'] exI [of _ frames] exI [of _ r']) simp
qed

text \<open>
  C7. Lost messages are recovered by the two sessions on their own. The sender has sent everything
  up to the number \<open>k\<close>; the messages from \<open>b\<close>, the number the receiver expects, to before \<open>k\<close> were lost,
  and the one numbered \<open>k\<close> arrives. Then the receiver sends one frame, a resend request; the sender,
  given that frame, answers with some frames; and the receiver, given those, has handed to
  its application exactly the application messages that the sender had stored for the lost
  numbers, in order, and then the one that had come early, once. It expects \<open>k + 1\<close>, its stash is
  empty, no request is open and it has sent nothing but the request.
\<close>

theorem lost_messages_recovered:
  fixes cfg dd add ch cals now utc cfg' dd' add' ch' cals' now' utc'
  defines "es \<equiv> channel_system cfg dd add ch cals now utc" and "er \<equiv> channel_system cfg' dd' add' ch' cals' now' utc'"
  assumes receiver: "quiet r" "next_target er r < k" "next_sender er r < 2 ^ 63 - 1" "cfg_max_messages_in_resend_request cfg' = 0" "1 \<le> fuel"
    and arrival: "message_parse raw (cfg_validate_length_checksum cfg') = Ok m" "queued_frame er k m (to_bytes m)" "k < 2 ^ 63 - 1"
    and sender: "quiet s" "ms_ok (se_store s)" "cfg_persist_messages cfg" "next_sender es s = k + 1" "next_target es s = next_sender er r"
      "stored_replay es s k \<noteq> None"
      "\<forall>n raw. map_of (ms_messages (se_store s)) n = Some raw \<longrightarrow> message_parse raw False \<noteq> Panic"
    and agree: "message_wf (request_for er k r)" "receivable es (wire_form (request_for er k r))"
      "peers_agree es (s\<lparr>se_last_received_seq := next_sender er r\<rparr>) er (next_target er r) k (k + 1)"
  shows "\<exists>r1 s' frames r2.
      (on_inbound er fuel raw r :: ('e, unit) outcome \<times> _) = (Done (), r1)
    \<and> sent_frames r1 = sent_frames r @ [to_bytes (request_for er k r)]
    \<and> (on_inbound es fuel' (to_bytes (request_for er k r)) s :: ('f, unit) outcome \<times> _) = (Done (), s')
    \<and> sent_frames s' = sent_frames s @ frames
    \<and> (receive er fuel frames r1 :: ('e, unit) outcome \<times> _) = (Done (), r2)
    \<and> app_messages (se_app r2) = app_messages (se_app r)
        @ map wire_form (List.map_filter (stored_replay es s) [next_target er r..<k]) @ [m]
    \<and> next_target er r2 = k + 1 \<and> se_stash r2 = [] \<and> se_resend_range r2 = None \<and> sent_frames r2 = sent_frames r1"
proof -
  let ?b = "next_target er r" and ?req = "request_for er k r"
  have f: "app_frame er k m" using arrival(2) by (simp add: queued_frame_def)
  have rq: "se_received_logon r" "se_stash r = []" "se_resend_range r = None" "can_transmit r"
    using receiver(1) by (simp_all add: quiet_def)
  have k: "k < 2 ^ 63" using arrival(3) by simp
  obtain r1 where r1: "(on_inbound er fuel raw r :: ('e, unit) outcome \<times> _) = (Done (), r1)"
    "sent_frames r1 = sent_frames r @ [to_bytes ?req]" "se_received_logon r1" "se_app r1 = se_app r" "se_stash r1 = [(k, to_bytes m)]"
    "next_target er r1 = ?b" "se_resend_range r1 = Some (?b, k - 1, k - 1)"
    using early_inbound [OF arrival(1) f [unfolded er_def] receiver(2) [unfolded er_def] k rq receiver(3) [unfolded er_def] receiver(4),
        folded er_def, of fuel, where ?'e = 'e] by blast
  have opened: "gap_open er ?b k (k + 1) (\<lambda>_. m) r1"
    using r1 receiver(2) early_singleton [OF arrival(2)] by (simp add: gap_open_def)
  have rf: "resend_request_frame es (next_target es s) ?b (wire_form ?req)"
    using request_frame [of er r es k] receiver(2-4) k agree(2) sender(5) by (simp add: er_def)
  obtain s' frames r2 where "(on_inbound es fuel' (to_bytes ?req) s :: ('f, unit) outcome \<times> _) = (Done (), s')"
    "sent_frames s' = sent_frames s @ frames" "(receive er fuel frames r1 :: ('e, unit) outcome \<times> _) = (Done (), r2)"
    "app_messages (se_app r2) = app_messages (se_app r1) @ map wire_form (List.map_filter (stored_replay es s) [?b..<k]) @ [m]"
    "next_target er r2 = k + 1" "se_stash r2 = []" "se_resend_range r2 = None" "se_outbound r2 = se_outbound r1"
    using request_closes_gap [of s cfg dd add ch cals now utc k ?req ?b cfg' dd' add' ch' cals' now' utc' "\<lambda>_. m" r1 fuel fuel',
        folded es_def er_def, OF sender(1-4,6,7) agree(1) rf opened agree(3) [folded sender(5)] receiver(5) arrival(3),
        where ?'e = 'e and ?'f = 'f] by blast
  moreover from this(8) have "sent_frames r2 = sent_frames r1" by (simp add: sent_frames_def)
  ultimately show ?thesis using r1(1,2,4) by (intro exI [of _ r1] exI [of _ s'] exI [of _ frames] exI [of _ r2]) simp
qed

text \<open>The first of two orders is lost; the second arrives.\<close>

definition sample_request :: message where
  "sample_request = request_for sample_env 2 online_session"

lemma sample_request_fields:
  "header sample_request =
     [tv 35 ''2'', tv 8 ''FIX.4.4'', tv 49 ''SRV'', tv 56 ''CLI'', tv 34 ''1'', tv 52 ''19700101-00:00:00.000'']"
  "body sample_request = [tv 7 ''1'', tv 16 ''0'']" "trailer sample_request = []"
  using online_next_target
  by (simp_all add: sample_request_def request_for_def outgoing_def canonical_def prepare_def fill_header_def resend_request_message_def
      with_type_def message_new_def set_header_def set_body_def set_unless_empty_def drop_header_def fm_remove_def resend_end_field_def fix42_plus_def
      sample_simps sample_cfg_def session_id_new_def encode_timestamp_def sample_chrono_def now_stamp_def stamp_sending_time_def
      next_sender_def online_store memory_store_new_def memory_ops_def encode_u64_def as_i64_def bytes_simps Let_def)

lemma sample_request_wf: "message_wf sample_request"
proof (rule small_message_wf)
  have f: "wire_fields sample_request =
    [tv 35 ''2'', tv 34 ''1'', tv 49 ''SRV'', tv 52 ''19700101-00:00:00.000'', tv 56 ''CLI'', tv 7 ''1'', tv 16 ''0'']"
    by (simp add: wire_fields_def sample_request_fields msg_type_field_def header_rest_def trailer_rest_def)
  show "wire_ok None (wire_fields sample_request)" "length (write_to (wire_fields sample_request)) < 2 ^ 20"
    unfolding f by (simp_all add: small_wire)
qed (simp_all add: sample_request_fields begin_string_of_def small_wire)

lemma sample_request_receivable: "receivable client_env (wire_form sample_request)"
  by (simp add: receivable_def get_time_def get_ok_def fm_get_opt_def get_raw_wire_form begin_wire_form [simplified] begin_string_of_def
      sample_request_fields decode_timestamp_def utf8_ok_ascii byte_of_def precision_of_length_def sample_chrono_def too_late_def
      comp_ids_ok_def sample_cfg_def session_id_new_def dictionary_reject_def client_env_def channel_system_def)

lemma client_peers_agree: "peers_agree client_env (client_session\<lparr>se_last_received_seq := 1\<rparr>) sample_env 1 2 3"
proof -
  have "gap_fill_message client_env (client_session\<lparr>se_last_received_seq := 1\<rparr>) x y = gap_fill_message client_env client_session x y" for x y
    by (simp add: gap_fill_message_def fill_header_def next_sender_def Let_def client_env_def sample_cfg_def)
  then show ?thesis using sample_peers_agree by (simp add: peers_agree_def stored_replay_def)
qed

lemma order_two_queued: "queued_frame sample_env 2 (wire_form (order_no ''2'')) (to_bytes (wire_form (order_no ''2'')))"
proof -
  have "app_frame sample_env 2 (wire_form (order_no ''2''))" using order_no_frame [of "''2''" "order_no ''2''"] by simp
  moreover have "\<not> contains_field (to_bytes (order_no ''2'')) ''35=A''" by code_simp
  moreover have "\<not> contains_field (to_bytes (order_no ''2'')) ''35=2''" by code_simp
  ultimately show ?thesis by (simp add: queued_frame_def to_bytes_wire_form parse_to_bytes order_no_wf)
qed

lemma sample_quiet: "quiet online_session" "quiet client_session"
  using online_can_transmit
  by (simp_all add: quiet_def client_session_def can_transmit_def online_session_def attached_session_eq fresh_session_def session_spawn_def)

theorem lost_messages_recovered_witness:
  "\<exists>r1 s' frames r2.
      (on_inbound sample_env 1 (to_bytes (order_no ''2'')) online_session :: (unit, unit) outcome \<times> _) = (Done (), r1)
    \<and> sent_frames r1 = [to_bytes sample_request]
    \<and> (on_inbound client_env 0 (to_bytes sample_request) client_session :: (unit, unit) outcome \<times> _) = (Done (), s')
    \<and> sent_frames s' = sent_frames client_session @ frames
    \<and> (receive sample_env 1 frames r1 :: (unit, unit) outcome \<times> _) = (Done (), r2)
    \<and> app_messages (se_app r2) = app_messages (se_app online_session)
        @ [wire_form (resent client_env (wire_form (order_no ''1''))), wire_form (order_no ''2'')]
    \<and> next_target sample_env r2 = 3"
proof -
  let ?ccfg = "sample_cfg\<lparr>cfg_session_id := session_id_new ''FIX.4.4'' ''CLI'' ''SRV''\<rparr>"
  have c: "ms_ok (se_store client_session)" "next_sender client_env client_session = 2 + 1" "cfg_persist_messages ?ccfg"
    "next_target client_env client_session = next_sender sample_env online_session" "stored_replay client_env client_session 2 \<noteq> None"
    "\<forall>n raw. map_of (ms_messages (se_store client_session)) n = Some raw \<longrightarrow> message_parse raw False \<noteq> Panic"
    using online_next_sender client_replays(2)
    by (simp_all add: client_session_def ms_ok_def memory_store_new_def bt_ok_def next_sender_def next_target_def memory_ops_def client_env_def
        parse_to_bytes order_no_wf online_store sample_cfg_def)
  have p: "message_parse (to_bytes (order_no ''2'')) (cfg_validate_length_checksum sample_cfg) = Ok (wire_form (order_no ''2''))"
    by (simp add: parse_to_bytes order_no_wf)
  have n: "next_target sample_env online_session < 2" "next_sender sample_env online_session < 2 ^ 63 - 1"
    "cfg_max_messages_in_resend_request sample_cfg = 0" "1 \<le> (1::nat)" "(2::u64) < 2 ^ 63 - 1"
    using online_next_target online_next_sender by (simp_all add: sample_cfg_def)
  have a: "peers_agree client_env (client_session\<lparr>se_last_received_seq := next_sender sample_env online_session\<rparr>) sample_env
      (next_target sample_env online_session) 2 (2 + 1)"
    using client_peers_agree online_next_target online_next_sender by simp
  have m: "List.map_filter (stored_replay client_env client_session) [1..<2] = [resent client_env (wire_form (order_no ''1''))]"
    using client_replays(1) by (simp add: map_filter_def upt_rec)
  show ?thesis
    using lost_messages_recovered [of online_session sample_cfg None None sample_chrono utc_only 0 0 2 1 "to_bytes (order_no ''2'')"
        "wire_form (order_no ''2'')" client_session ?ccfg None None sample_chrono utc_only 0 0,
        folded client_env_def sample_env_system, OF sample_quiet(1) n(1-4) p order_two_queued n(5) sample_quiet(2) c(1,3,2,4-6)
          sample_request_wf [unfolded sample_request_def] sample_request_receivable [unfolded sample_request_def] a, of 0,
        where ?'e = unit and ?'f = unit, folded sample_request_def] m online_next_target online_frames
    by auto
qed

end
