(* ===== verification/Session_Handle.thy ===== *)
theory Session_Handle
  imports Session_Recovery
begin

text \<open>
  \<open>src/session.rs\<close>, the handle: the asynchronous calls an application makes on a running session.
  A call puts a command into the channel of the session's task and waits for the reply; when the
  task has ended, before or while it handles the command, the channel is closed and the call
  answers \<open>UnknownSession\<close>. The task is its session state as the run loop left it, or ended. The calls
  below are what the caller sees of one command; the commands of the loop itself are in
  \<open>Session_Run\<close>.
\<close>

section \<open>The calls\<close>

datatype ('st, 'ap) task = Running "('st, 'ap) session" | Ended

definition handle_error :: "('st, 'ap) env \<Rightarrow> error" where
  "handle_error e = UnknownSession (session_id_display (the_sid e))"

definition task_after :: "(unit, reply) outcome \<times> ('st, 'ap) session \<Rightarrow> reply option \<times> ('st, 'ap) task" where
  "task_after r =
     (case r of
        (Done ReplyStopped, s) \<Rightarrow> (Some ReplyStopped, Ended)
      | (Done a, s) \<Rightarrow> (Some a, Running s)
      | (_, s) \<Rightarrow> (None, Ended))"

fun submit :: "('st, 'ap) env \<Rightarrow> command \<Rightarrow> ('st, 'ap) task \<Rightarrow> reply option \<times> ('st, 'ap) task" where
  "submit e c Ended = (None, Ended)"
| "submit e c (Running s) = task_after (run_command e 0 c s)"

fun result_reply :: "error \<Rightarrow> reply option \<Rightarrow> error + unit" where
  "result_reply er (Some (ReplyResult r)) = r"
| "result_reply er _ = Inl er"

fun status_reply :: "error \<Rightarrow> reply option \<Rightarrow> error + session_status" where
  "status_reply er (Some (ReplyStatus st)) = Inr st"
| "status_reply er _ = Inl er"

definition handle_send :: "('st, 'ap) env \<Rightarrow> message \<Rightarrow> ('st, 'ap) task \<Rightarrow> (error + unit) \<times> ('st, 'ap) task" where
  "handle_send e m t = apfst (result_reply (handle_error e)) (submit e (CmdSend m) t)"

text \<open>\<open>logout\<close> only waits until its command is in the channel.\<close>

definition handle_call_logout :: "('st, 'ap) env \<Rightarrow> ('st, 'ap) task \<Rightarrow> (error + unit) \<times> ('st, 'ap) task" where
  "handle_call_logout e t =
     (if t = Ended then (Inl (handle_error e), Ended) else (Inr (), snd (submit e CmdLogout t)))"

definition handle_status :: "('st, 'ap) env \<Rightarrow> ('st, 'ap) task \<Rightarrow> (error + session_status) \<times> ('st, 'ap) task" where
  "handle_status e t = apfst (status_reply (handle_error e)) (submit e CmdStatus t)"

definition handle_is_logged_on :: "('st, 'ap) env \<Rightarrow> ('st, 'ap) task \<Rightarrow> bool \<times> ('st, 'ap) task" where
  "handle_is_logged_on e t =
     apfst (\<lambda>r. case r of Inr st \<Rightarrow> ss_logged_on st | Inl _ \<Rightarrow> False) (handle_status e t)"

definition handle_set_seq_nums ::
  "('st, 'ap) env \<Rightarrow> u64 option \<Rightarrow> u64 option \<Rightarrow> ('st, 'ap) task \<Rightarrow> (error + unit) \<times> ('st, 'ap) task" where
  "handle_set_seq_nums e sender target t =
     apfst (result_reply (handle_error e)) (submit e (CmdSetSeqNums sender target) t)"

definition handle_set_next_sender_seq_num ::
  "('st, 'ap) env \<Rightarrow> u64 \<Rightarrow> ('st, 'ap) task \<Rightarrow> (error + unit) \<times> ('st, 'ap) task" where
  "handle_set_next_sender_seq_num e n = handle_set_seq_nums e (Some n) None"

definition handle_set_next_target_seq_num ::
  "('st, 'ap) env \<Rightarrow> u64 \<Rightarrow> ('st, 'ap) task \<Rightarrow> (error + unit) \<times> ('st, 'ap) task" where
  "handle_set_next_target_seq_num e n = handle_set_seq_nums e None (Some n)"

lemmas handle_defs = handle_send_def handle_call_logout_def handle_status_def handle_is_logged_on_def
  handle_set_seq_nums_def handle_set_next_sender_seq_num_def handle_set_next_target_seq_num_def

text \<open>A caller that sends one message after another, each once the one before was accepted.\<close>

fun handle_send_all :: "('st, 'ap) env \<Rightarrow> message list \<Rightarrow> ('st, 'ap) task \<Rightarrow> (error + unit) list \<times> ('st, 'ap) task" where
  "handle_send_all e [] t = ([], t)"
| "handle_send_all e (m # ms) t =
     (let (r, t1) = handle_send e m t; (rs, t2) = handle_send_all e ms t1 in (r # rs, t2))"

section \<open>A session that has ended\<close>

text \<open>No call on an ended session does anything, and each says which session is gone.\<close>

lemma ended_calls [simp]:
  "handle_send e m Ended = (Inl (handle_error e), Ended)" "handle_call_logout e Ended = (Inl (handle_error e), Ended)"
  "handle_status e Ended = (Inl (handle_error e), Ended)" "handle_is_logged_on e Ended = (False, Ended)"
  "handle_set_seq_nums e so ta Ended = (Inl (handle_error e), Ended)"
  by (simp_all add: handle_defs)

lemma stopped_task_ends:
  assumes "(run_command e fuel c s :: (unit, reply) outcome \<times> _) = (Done ReplyStopped, s')"
  shows "task_after (run_command e fuel c s) = (Some ReplyStopped, Ended)"
  by (simp add: assms task_after_def)

section \<open>Running sessions\<close>

lemma handle_status_running [simp]: "handle_status e (Running s) = (Inr (status_of e s), Running s)"
  by (simp add: handle_status_def cmd_defs task_after_def)

lemma handle_is_logged_on_running [simp]:
  "handle_is_logged_on e (Running s) = (is_logged_on s, Running s)"
  by (simp add: handle_is_logged_on_def status_of_def)

lemma handle_send_done:
  "send_message e m s = (Done (), s') \<Longrightarrow> handle_send e m (Running s) = (Inr (), Running s')"
  by (simp add: handle_send_def cmd_defs task_after_def)

lemma handle_send_running:
  "handle_send e m (Running s) = (Inr (), t) \<Longrightarrow> \<exists>s'. send_message e m s = (Done (), s') \<and> t = Running s'"
  by (cases "send_message e m s"; cases "fst (send_message e m s)")
     (auto simp: handle_send_def cmd_defs task_after_def)

lemma set_sender_done:
  assumes "handle_set_next_sender_seq_num e n (Running s) = (Inr (), t)"
  obtains st where "so_set_sender (en_ops e) n (se_store s) = (Ok (), st)" and "t = Running (s\<lparr>se_store := st\<rparr>)"
  using assms
  by (auto simp: handle_set_next_sender_seq_num_def handle_set_seq_nums_def set_seq_nums_def opt_set_def cmd_defs
      task_after_def split: prod.splits res.splits)

lemma set_target_done:
  assumes "handle_set_next_target_seq_num e n (Running s) = (Inr (), t)"
  obtains st where "so_set_target (en_ops e) n (se_store s) = (Ok (), st)" and "t = Running (s\<lparr>se_store := st\<rparr>)"
  using assms
  by (auto simp: handle_set_next_target_seq_num_def handle_set_seq_nums_def set_seq_nums_def opt_set_def cmd_defs
      task_after_def split: prod.splits res.splits)

section \<open>Setting the sequence numbers\<close>

lemma status_after_transmit:
  assumes "can_transmit s"
  shows "status_of e (after_transmit e raw (s\<lparr>se_store := st\<rparr>)) = (status_of e s)
    \<lparr>ss_next_sender := so_next_sender (en_ops e) st, ss_next_target := so_next_target (en_ops e) st\<rparr>"
  using assms
  by (auto simp: status_of_def is_connected_def is_logged_on_def next_sender_def next_target_def after_transmit_def
      push_out_def can_transmit_def split: option.splits)

lemma sent_after_setting:
  assumes "message_store (en_ops e) sok msgs" and "passive_application (en_application e)"
    and "sok st" and "so_next_sender (en_ops e) st = n" and "n < 2 ^ 63" and "can_transmit s"
    and "handle_send e m (Running (s\<lparr>se_store := st\<rparr>)) = (Inr (), t)"
  shows "\<exists>wm s3. t = Running s3 \<and> sent_frames s3 = sent_frames s @ [to_bytes wm] \<and> seq_num wm = Inr n
    \<and> mset (body wm) = mset (body m)
    \<and> status_of e s3 = (status_of e s)\<lparr>ss_next_sender := n + 1, ss_next_target := so_next_target (en_ops e) st\<rparr>"
proof -
  let ?s = "s\<lparr>se_store := st\<rparr>"
  let ?wm = "outgoing e ?s m"
  have small: "next_sender e ?s < 2 ^ 63" and tr: "can_transmit ?s" and n64: "n < 2 ^ 64"
    using assms(4-6) by (simp_all add: next_sender_def)
  obtain s3 where s3: "send_message e m ?s = (Done (), s3)" "t = Running s3"
    using handle_send_running [OF assms(7)] by blast
  obtain st3 where p: "persist_op e (next_sender e ?s) (to_bytes ?wm) (se_store ?s) = (Ok (), st3)"
    and a: "s3 = after_transmit e (to_bytes ?wm) (?s\<lparr>se_store := st3\<rparr>)"
    by (rule send_message_cases [OF assms(2) small tr s3(1)])
  have "so_next_sender (en_ops e) st3 = n + 1 \<and> so_next_target (en_ops e) st3 = so_next_target (en_ops e) st"
    using persist_op_laws [OF assms(1,3) n64, of "to_bytes ?wm" st3] p assms(4,5)
    by (simp add: next_sender_def u64_simps)
  then show ?thesis
    using s3(2) a outgoing_seq [OF small, of m] outgoing_fresh(2) [of e ?s m] assms(4,6)
      sent_frames_after [of "s\<lparr>se_store := st3\<rparr>" e "to_bytes ?wm"]
    by (intro exI [of _ ?wm] exI [of _ s3]) (simp add: status_after_transmit next_sender_def)
qed

text \<open>
  An operator sets both sequence numbers through the handle, for any store that meets its
  contract: the session's status shows the two numbers and is otherwise unchanged, nothing has
  been sent, no stored message was touched, and the next message sent on an open connection goes out
  under the number that was set, after which the status shows its successor.
\<close>

lemma handle_seq_nums_take_effect:
  assumes "message_store (en_ops e) sok msgs" and "passive_application (en_application e)"
    and "sok (se_store s)" and "n < 2 ^ 63" and "k < 2 ^ 64"
    and "handle_set_next_sender_seq_num e n (Running s) = (Inr (), t1)"
    and "handle_set_next_target_seq_num e k t1 = (Inr (), t2)"
  shows "\<exists>s2. t2 = Running s2 \<and> sent_frames s2 = sent_frames s \<and> msgs (se_store s2) = msgs (se_store s)
    \<and> handle_status e t2 = (Inr ((status_of e s)\<lparr>ss_next_sender := n, ss_next_target := k\<rparr>), t2)
    \<and> (can_transmit s \<and> handle_send e m t2 = (Inr (), t3) \<longrightarrow>
        (\<exists>wm s3. t3 = Running s3 \<and> sent_frames s3 = sent_frames s @ [to_bytes wm] \<and> seq_num wm = Inr n
          \<and> mset (body wm) = mset (body m)
          \<and> handle_status e t3 = (Inr ((status_of e s)\<lparr>ss_next_sender := n + 1, ss_next_target := k\<rparr>), t3)))"
proof -
  obtain st1 where st1: "so_set_sender (en_ops e) n (se_store s) = (Ok (), st1)" "t1 = Running (s\<lparr>se_store := st1\<rparr>)"
    by (rule set_sender_done [OF assms(6)])
  obtain st2 where st2: "so_set_target (en_ops e) k st1 = (Ok (), st2)" "t2 = Running (s\<lparr>se_store := st2\<rparr>)"
    using assms(7) st1(2) by (auto elim: set_target_done)
  have "sok st1 \<and> so_next_sender (en_ops e) st1 = n \<and> msgs st1 = msgs (se_store s)"
    using message_store.set_sender [OF assms(1,3) _ st1(1)] assms(4) by simp
  then have st: "sok st2" "so_next_sender (en_ops e) st2 = n" "so_next_target (en_ops e) st2 = k" "msgs st2 = msgs (se_store s)"
    using message_store.set_target [OF assms(1) _ assms(5) st2(1)] by auto
  have sent: "\<exists>wm s3. t3 = Running s3 \<and> sent_frames s3 = sent_frames s @ [to_bytes wm] \<and> seq_num wm = Inr n
      \<and> mset (body wm) = mset (body m)
      \<and> handle_status e t3 = (Inr ((status_of e s)\<lparr>ss_next_sender := n + 1, ss_next_target := k\<rparr>), t3)"
    if "can_transmit s" and "handle_send e m t2 = (Inr (), t3)"
    using sent_after_setting [OF assms(1,2) st(1,2) assms(4) that(1) that(2) [unfolded st2(2)]] st(3) by auto
  then show ?thesis
    using st st2(2) by (auto simp: status_of_def next_sender_def next_target_def is_connected_def is_logged_on_def)
qed

lemma memory_set_calls:
  assumes "en_ops e = memory_ops"
  shows "handle_set_next_sender_seq_num e n (Running s) =
      (Inr (), Running (s\<lparr>se_store := (se_store s)\<lparr>ms_next_sender := n\<rparr>\<rparr>))"
    and "handle_set_next_target_seq_num e n (Running s) =
      (Inr (), Running (s\<lparr>se_store := (se_store s)\<lparr>ms_next_target := n\<rparr>\<rparr>))"
  using assms
  by (simp_all add: handle_set_next_sender_seq_num_def handle_set_next_target_seq_num_def handle_set_seq_nums_def
      set_seq_nums_def opt_set_def cmd_defs task_after_def memory_ops_def)

lemma handle_seq_nums_take_effect_witness:
  "\<exists>t1 t2 t3 wm s3. handle_set_next_sender_seq_num sample_env 7 (Running online_session) = (Inr (), t1)
     \<and> handle_set_next_target_seq_num sample_env 9 t1 = (Inr (), t2)
     \<and> handle_send sample_env (with_type ''D'') t2 = (Inr (), t3) \<and> t3 = Running s3
     \<and> sent_frames s3 = [to_bytes wm] \<and> seq_num wm = Inr 7"
proof -
  let ?st = "(memory_store_new 0)\<lparr>ms_next_sender := 7, ms_next_target := 9\<rparr>"
  let ?s = "online_session\<lparr>se_store := ?st\<rparr>"
  have calls: "handle_set_next_sender_seq_num sample_env 7 (Running online_session) =
      (Inr (), Running (online_session\<lparr>se_store := (memory_store_new 0)\<lparr>ms_next_sender := 7\<rparr>\<rparr>))"
    "handle_set_next_target_seq_num sample_env 9
       (Running (online_session\<lparr>se_store := (memory_store_new 0)\<lparr>ms_next_sender := 7\<rparr>\<rparr>)) = (Inr (), Running ?s)"
    using online_store by (simp_all add: memory_set_calls)
  obtain s3 where "send_message sample_env (with_type ''D'') ?s = (Done (), s3)"
    using send_message_done [of sample_env ?s "with_type ''D''"] online_can_transmit channel_app.passive_application_axioms
    by (simp add: memory_persist sample_cfg_def next_sender_def memory_ops_def memory_store_new_def)
  then have send: "handle_send sample_env (with_type ''D'') (Running ?s) = (Inr (), Running s3)"
    by (rule handle_send_done)
  show ?thesis
    using handle_seq_nums_take_effect [OF memory.message_store_axioms [folded sample_simps(1)]
        channel_app.passive_application_axioms [folded sample_simps(2)] _ _ _ calls, of "with_type ''D''" "Running s3"]
      calls send online_store ms_ok_new [of 0] online_can_transmit online_frames by auto
qed

section \<open>Sending while offline\<close>

definition offline :: "('st, 'ap) session \<Rightarrow> bool" where
  "offline s \<longleftrightarrow> \<not> se_sent_logon s"

lemma offline_store [simp]: "offline (s\<lparr>se_store := st\<rparr>) = offline s"
  by (simp add: offline_def)

lemma send_message_offline:
  assumes "passive_application (en_application e)" and "next_sender e s < 2 ^ 63" and "offline s"
    and "\<not> always_sent (type_or_empty m)"
    and "persist_op e (next_sender e s) (to_bytes (outgoing e s m)) (se_store s) = (Ok (), st)"
  shows "send_message e m s = (Done (), s\<lparr>se_store := st\<rparr>)"
proof -
  have "type_or_empty (prepare e s m) = type_or_empty m" by (rule type_or_empty_cong) simp
  with assms show ?thesis
    using passive_application.callback [OF assms(1) refl, of "prepare e s m" s] outgoing_seq [OF assms(2), of m]
    by (simp add: send_message_def outgoing_def persist_eq bnd_def thn_def gets_def on_store_def whenM_def ret_def
        offline_def is_logged_on_def Let_def)
qed

text \<open>What a run of offline sends leaves: the frames in the store, under consecutive numbers.\<close>

definition kept_run :: "(memory_store, 'ap) session \<Rightarrow> bytes list \<Rightarrow> memory_store \<Rightarrow> bool" where
  "kept_run s raws st \<longleftrightarrow>
     ms_next_sender st = ms_next_sender (se_store s) + length raws
     \<and> ms_next_target st = ms_next_target (se_store s)
     \<and> (\<forall>k. map_of (ms_messages st) k =
          (if ms_next_sender (se_store s) \<le> k \<and> k < ms_next_sender (se_store s) + length raws
           then Some (raws ! (k - ms_next_sender (se_store s)))
           else map_of (ms_messages (se_store s)) k))"

text \<open>The messages of the run as they are stored: each under the number after the one before.\<close>

fun numbered :: "(memory_store, 'ap) env \<Rightarrow> (memory_store, 'ap) session \<Rightarrow> message list \<Rightarrow> message list" where
  "numbered e s [] = []"
| "numbered e s (m # ms) =
     outgoing e s m # numbered e (s\<lparr>se_store := (se_store s)\<lparr>ms_next_sender := ms_next_sender (se_store s) + 1\<rparr>\<rparr>) ms"

lemma length_numbered [simp]: "length (numbered e s ms) = length ms"
  by (induction ms arbitrary: s) auto

lemma numbered_cong:
  assumes "en_ops e = memory_ops" and "ms_next_sender st = ms_next_sender st'"
  shows "numbered e (s\<lparr>se_store := st\<rparr>) ms = numbered e (s\<lparr>se_store := st'\<rparr>) ms"
  using assms(2)
proof (induction ms arbitrary: st st')
  case (Cons m ms)
  have "outgoing e (s\<lparr>se_store := st\<rparr>) m = outgoing e (s\<lparr>se_store := st'\<rparr>) m"
    using assms(1) Cons.prems
    by (simp add: outgoing_def prepare_def fill_header_def next_sender_def memory_ops_def Let_def)
  with Cons show ?case by simp
qed simp

lemma offline_run:
  assumes "en_ops e = memory_ops" and "passive_application (en_application e)" and "cfg_persist_messages (en_cfg e)"
    and "offline s" and "ms_ok (se_store s)" and "ms_capacity (se_store s) = None"
    and "ms_next_sender (se_store s) + length ms < 2 ^ 63" and "\<forall>m\<in>set ms. \<not> always_sent (type_or_empty m)"
  shows "\<exists>st. handle_send_all e ms (Running s) = (replicate (length ms) (Inr ()), Running (s\<lparr>se_store := st\<rparr>))
    \<and> ms_ok st \<and> ms_capacity st = None \<and> kept_run s (map to_bytes (numbered e s ms)) st
    \<and> (\<forall>i < length ms. seq_num (numbered e s ms ! i) = Inr (ms_next_sender (se_store s) + i)
         \<and> get_raw MSG_TYPE (header (numbered e s ms ! i)) = get_raw MSG_TYPE (header (ms ! i))
         \<and> mset (body (numbered e s ms ! i)) = mset (body (ms ! i)))"
  using assms(4-8)
proof (induction ms arbitrary: s)
  case Nil
  then show ?case by (auto simp: kept_run_def intro!: exI [of _ "se_store s"])
next
  case (Cons m ms)
  let ?n = "ms_next_sender (se_store s)" and ?wm = "outgoing e s m"
  have ns: "next_sender e s = ?n" using assms(1) by (simp add: next_sender_def memory_ops_def)
  have small: "next_sender e s < 2 ^ 63" using Cons.prems(4) ns by simp
  let ?st = "(se_store s)\<lparr>ms_messages := bt_insert ?n (to_bytes ?wm) (ms_messages (se_store s)), ms_next_sender := ?n + 1\<rparr>"
  let ?s1 = "s\<lparr>se_store := ?st\<rparr>"
  let ?rest = "numbered e ?s1 ms"
  have p: "persist_op e (next_sender e s) (to_bytes ?wm) (se_store s) = (Ok (), ?st)"
    using memory_persist [OF assms(1,3)] Cons.prems(3,4) ns by (simp add: ms_save_unbounded u64_simps)
  have send: "handle_send e m (Running s) = (Inr (), Running ?s1)"
    using send_message_offline [OF assms(2) small Cons.prems(1) _ p] Cons.prems(5) by (simp add: handle_send_done)
  have nb: "numbered e s (m # ms) = ?wm # ?rest"
    using numbered_cong [OF assms(1), of "(se_store s)\<lparr>ms_next_sender := ?n + 1\<rparr>" ?st s ms] by simp
  obtain st where IH: "handle_send_all e ms (Running ?s1) = (replicate (length ms) (Inr ()), Running (?s1\<lparr>se_store := st\<rparr>))"
    "ms_ok st" "ms_capacity st = None" "kept_run ?s1 (map to_bytes ?rest) st"
    "\<forall>i < length ms. seq_num (?rest ! i) = Inr (?n + 1 + i)
         \<and> get_raw MSG_TYPE (header (?rest ! i)) = get_raw MSG_TYPE (header (ms ! i)) \<and> mset (body (?rest ! i)) = mset (body (ms ! i))"
    using Cons.IH [of ?s1] Cons.prems by (auto simp: ms_ok_def)
  have "kept_run s (map to_bytes (numbered e s (m # ms))) st"
    using IH(4) Cons.prems(2) unfolding kept_run_def nb
    by (auto simp: map_of_bt_insert nth_Cons' Suc_le_eq ms_ok_def)
  moreover have "get_raw MSG_TYPE (header ?wm) = get_raw MSG_TYPE (header m)" by (simp add: outgoing_def)
  then have "\<forall>i < length (m # ms). seq_num (numbered e s (m # ms) ! i) = Inr (?n + i)
       \<and> get_raw MSG_TYPE (header (numbered e s (m # ms) ! i)) = get_raw MSG_TYPE (header ((m # ms) ! i))
       \<and> mset (body (numbered e s (m # ms) ! i)) = mset (body ((m # ms) ! i))"
    unfolding nb using IH(5) outgoing_seq [OF small, of m] outgoing_fresh(2) [of e s m] ns
    by (auto simp: nth_Cons' less_Suc_eq_0_disj)
  ultimately show ?case using send IH(1-3) by (intro exI [of _ st]) simp
qed

lemma not_admin_not_always: "\<not> is_admin m \<Longrightarrow> \<not> always_sent (type_or_empty m)"
  by (auto simp: is_admin_def is_admin_type_def always_sent_def type_or_empty_def msg_type_def get_string_def fm_get_def
      MT_LOGON_def MT_LOGOUT_def MT_RESEND_REQUEST_def MT_SEQUENCE_RESET_def decode_string_def
      split: option.splits sum.splits if_splits)

lemma all_replayed:
  "tiles a c items \<Longrightarrow> exact R items \<Longrightarrow> \<forall>n \<in> {a..<c}. R n \<noteq> None \<Longrightarrow>
    items = map (\<lambda>n. Replayed n (the (R n))) [a..<c]"
proof (induction a c items rule: tiles.induct)
  case (2 a b x y items)
  have "y \<le> b" "x = a" "x < y" using 2(2) tiles_bounds [of y b items] by auto
  then have "R x \<noteq> None" "R x = None" using 2(3,4) by simp_all
  then show ?case by simp
next
  case (3 a b n m items)
  have n: "n = a" "n < b" "tiles (n + 1) b items" using 3(2) tiles_bounds [of "n + 1" b items] by auto
  moreover have "items = map (\<lambda>n. Replayed n (the (R n))) [n + 1..<b]"
    using 3(3,4) n by (intro 3(1)) auto
  moreover have "[a..<b] = n # [n + 1..<b]" using upt_conv_Cons n by simp
  ultimately show ?case using 3(3) by simp
qed simp

text \<open>A store that has the frames under consecutive numbers, whatever else it holds and counts.\<close>

definition holds_frames :: "u64 \<Rightarrow> bytes list \<Rightarrow> memory_store \<Rightarrow> bool" where
  "holds_frames b raws st \<longleftrightarrow> (\<forall>i < length raws. map_of (ms_messages st) (b + i) = Some (raws ! i))"

lemma kept_run_holds: "kept_run s raws st \<Longrightarrow> holds_frames (ms_next_sender (se_store s)) raws st"
  by (simp add: kept_run_def holds_frames_def)

text \<open>Storing further messages under later numbers, as the Logon exchange of a reconnect does, keeps them.\<close>

lemma save_keeps_frames:
  assumes "holds_frames b raws st" and "ms_ok st" and "ms_capacity st = None" and "b + length raws \<le> n"
  shows "holds_frames b raws (snd (so_save memory_ops n raw st))"
  using assms by (simp add: holds_frames_def memory_ops_def ms_save_unbounded map_of_bt_insert ms_ok_def)

lemma kept_replay:
  assumes "holds_frames b (map to_bytes wms) st" and "i < length wms" and "message_wf (wms ! i)" and "\<not> is_admin (wms ! i)"
  shows "replay_of e (map_of (ms_messages st)) (b + i) = Some (resent e (wire_form (wms ! i)))"
  using assms
  by (simp add: holds_frames_def replay_of_def parse_to_bytes is_admin_def get_raw_wire_form)

lemma kept_answered:
  fixes cfg dd add ch cals now utc
  defines "e \<equiv> channel_system cfg dd add ch cals now utc"
  assumes "cfg_persist_messages cfg" and "is_open s2" and "ms_ok (se_store s2)" and "holds_frames b (map to_bytes wms) (se_store s2)"
    and "b + length wms < 2 ^ 63" and "wms \<noteq> []"
    and "\<forall>i < length wms. \<not> is_admin (wms ! i)" and "\<forall>wm\<in>set wms. message_wf wm"
  shows "\<exists>s3. (answer_resend e b (b + length wms - 1) s2
        :: ('e, unit) outcome \<times> _) = (Done (), s3)
    \<and> sent_frames s3 = sent_frames s2 @ map (\<lambda>wm. to_bytes (resent e (wire_form wm))) wms"
proof -
  let ?R = "replay_of e (map_of (ms_messages (se_store s2)))"
  let ?b = b and ?c = "b + length wms"
  have R: "?R (?b + i) = Some (resent e (wire_form (wms ! i)))" if "i < length wms" for i
    using kept_replay [OF assms(5) that, of e] that assms(8,9) by simp
  have np: "\<forall>n raw. ?b \<le> n \<and> n < ?c \<and> map_of (ms_messages (se_store s2)) n = Some raw \<longrightarrow> message_parse raw False \<noteq> Panic"
  proof (intro allI impI)
    fix n raw assume n: "?b \<le> n \<and> n < ?c \<and> map_of (ms_messages (se_store s2)) n = Some raw"
    then have "raw = to_bytes (wms ! (n - b))" "n - b < length wms"
      using assms(5) by (auto simp: holds_frames_def dest: spec [of _ "n - b"])
    with assms(9) show "message_parse raw False \<noteq> Panic" by (simp add: parse_to_bytes)
  qed
  have bc: "?b < ?c" using assms(7) by simp
  obtain s3 items where a: "(answer_resend e ?b (?c - 1) s2 :: ('e, unit) outcome \<times> _) = (Done (), s3)"
    "only_sent (map (to_bytes \<circ> item_message e s2) items) s2 s3" "tiles ?b ?c items" "exact ?R items"
    by (rule channel_answer_exact [OF assms(4,3,2) bc assms(6) np, of dd add ch cals now utc, folded e_def, where ?'e = 'e])
  have "\<forall>n \<in> {?b..<?c}. ?R n \<noteq> None"
  proof
    fix n assume "n \<in> {?b..<?c}"
    then show "?R n \<noteq> None" using R [of "n - ?b"] by auto
  qed
  then have "items = map (\<lambda>n. Replayed n (the (?R n))) [?b..<?c]" by (rule all_replayed [OF a(3,4)])
  then have "map (to_bytes \<circ> item_message e s2) items = map (\<lambda>wm. to_bytes (resent e (wire_form wm))) wms"
    using R by (intro nth_equalityI) simp_all
  with a(1) only_sent_simps(5) [OF a(2) assms(3)] show ?thesis by auto
qed

text \<open>
  C12. Application messages sent through the handle while the session is offline are not lost. With
  an in-memory store every call succeeds, nothing is transmitted and nothing but the store
  changes: the messages are numbered consecutively from the session's next number and stored. Once
  the connection is back, at any later time and in any state whose store still has these messages
  under their numbers - whatever it has stored, counted and forgotten since, the Logons of the
  reconnect included - a resend request for these numbers is answered by exactly these messages, in
  order, each marked as a possible duplicate.
\<close>

theorem offline_sends_resent:
  fixes cfg dd add ch cals now utc now' utc'
  defines "e \<equiv> channel_system cfg dd add ch cals now utc" and "e' \<equiv> channel_system cfg dd add ch cals now' utc'"
  assumes "cfg_persist_messages cfg" and "offline s" and "ms_ok (se_store s)" and "ms_capacity (se_store s) = None"
    and "ms_next_sender (se_store s) + length ms < 2 ^ 63" and "ms \<noteq> []" and "\<forall>m\<in>set ms. \<not> is_admin m"
    and "\<forall>wm\<in>set (numbered e s ms). message_wf wm"
  shows "\<exists>st. handle_send_all e ms (Running s) = (replicate (length ms) (Inr ()), Running (s\<lparr>se_store := st\<rparr>))
    \<and> kept_run s (map to_bytes (numbered e s ms)) st \<and> ms_ok st \<and> ms_capacity st = None
    \<and> (\<forall>i < length ms. seq_num (numbered e s ms ! i) = Inr (ms_next_sender (se_store s) + i)
         \<and> mset (body (numbered e s ms ! i)) = mset (body (ms ! i)))
    \<and> (\<forall>s2. is_open s2 \<and> ms_ok (se_store s2)
          \<and> holds_frames (ms_next_sender (se_store s)) (map to_bytes (numbered e s ms)) (se_store s2) \<longrightarrow>
        (\<exists>s3. (answer_resend e' (ms_next_sender (se_store s)) (ms_next_sender (se_store s) + length ms - 1) s2
              :: ('e, unit) outcome \<times> _) = (Done (), s3)
          \<and> sent_frames s3 = sent_frames s2 @ map (\<lambda>wm. to_bytes (resent e' (wire_form wm))) (numbered e s ms)))"
proof -
  let ?b = "ms_next_sender (se_store s)" and ?c = "ms_next_sender (se_store s) + length ms" and ?wms = "numbered e s ms"
  have na: "\<forall>m\<in>set ms. \<not> always_sent (type_or_empty m)" using assms(9) not_admin_not_always by blast
  have sys: "en_ops e = memory_ops" "passive_application (en_application e)" "cfg_persist_messages (en_cfg e)"
    using assms(3) channel_app.passive_application_axioms by (simp_all add: e_def)
  obtain st where run: "handle_send_all e ms (Running s) = (replicate (length ms) (Inr ()), Running (s\<lparr>se_store := st\<rparr>))"
    and ok: "ms_ok st" "ms_capacity st = None" and kept: "kept_run s (map to_bytes ?wms) st"
    and wm: "\<forall>i < length ms. seq_num (?wms ! i) = Inr (?b + i)
         \<and> get_raw MSG_TYPE (header (?wms ! i)) = get_raw MSG_TYPE (header (ms ! i)) \<and> mset (body (?wms ! i)) = mset (body (ms ! i))"
    using offline_run [OF sys assms(4-7) na] by blast
  have ne: "?wms \<noteq> []" using assms(8) length_numbered [of e s ms] by force
  have adm: "\<forall>i < length ms. \<not> is_admin (?wms ! i)" using wm assms(9) by (simp add: is_admin_def)
  have "\<exists>s3. (answer_resend e' ?b (?c - 1) s2 :: ('e, unit) outcome \<times> _) = (Done (), s3)
      \<and> sent_frames s3 = sent_frames s2 @ map (\<lambda>wm. to_bytes (resent e' (wire_form wm))) ?wms"
    if s2: "is_open s2" "ms_ok (se_store s2)" "holds_frames ?b (map to_bytes ?wms) (se_store s2)" for s2
    using kept_answered [OF assms(3) s2, of dd add ch cals now' utc', folded e'_def, unfolded length_numbered,
        OF assms(7) ne adm assms(10), where ?'e = 'e] .
  then show ?thesis using run kept ok wm by blast
qed

text \<open>One order sent before anybody has connected.\<close>

definition offline_order :: message where
  "offline_order = set_body 11 ''id'' (with_type ''D'')"

definition sample_offline :: message where
  "sample_offline = outgoing sample_env fresh_session offline_order"

lemma sample_offline_fields:
  "header sample_offline =
     [tv 35 ''D'', tv 8 ''FIX.4.4'', tv 49 ''SRV'', tv 56 ''CLI'', tv 34 ''1'', tv 52 ''19700101-00:00:00.000'']"
  "body sample_offline = [tv 11 ''id'']" "trailer sample_offline = []"
  by (simp_all add: sample_offline_def offline_order_def outgoing_def canonical_def prepare_def fill_header_def
      with_type_def message_new_def set_header_def set_body_def set_unless_empty_def drop_header_def fm_remove_def
      sample_simps sample_cfg_def session_id_new_def encode_timestamp_def sample_chrono_def now_stamp_def stamp_sending_time_def
      next_sender_def fresh_session_def session_spawn_def memory_store_new_def memory_ops_def encode_u64_def as_i64_def
      bytes_simps Let_def)

lemma sample_offline_wf: "message_wf sample_offline"
proof (rule small_message_wf)
  have f: "wire_fields sample_offline =
    [tv 35 ''D'', tv 34 ''1'', tv 49 ''SRV'', tv 52 ''19700101-00:00:00.000'', tv 56 ''CLI'', tv 11 ''id'']"
    by (simp add: wire_fields_def sample_offline_fields msg_type_field_def header_rest_def trailer_rest_def)
  show "wire_ok None (wire_fields sample_offline)" "length (write_to (wire_fields sample_offline)) < 2 ^ 20"
    unfolding f by (simp_all add: small_wire)
qed (simp_all add: sample_offline_fields begin_string_of_def small_wire)

text \<open>The store when the client has connected: the session's Logon is stored under the next number.\<close>

definition reconnected :: "memory_store \<Rightarrow> bytes \<Rightarrow> (memory_store, session_event list) session" where
  "reconnected st raw = online_session
     \<lparr>se_store := snd (so_incr_target memory_ops (snd (save_message_and_incr memory_ops (ms_next_sender st) raw st)))\<rparr>"

lemma reconnected_store:
  assumes "ms_ok st" and "ms_capacity st = None" and "holds_frames b raws st" and "b + length raws \<le> ms_next_sender st"
    and "ms_next_sender st < 2 ^ 63" and "ms_next_target st < 2 ^ 63"
  shows "ms_ok (se_store (reconnected st l))" and "holds_frames b raws (se_store (reconnected st l))"
    and "ms_next_sender (se_store (reconnected st l)) = ms_next_sender st + 1"
  using assms save_keeps_frames [OF assms(3,1,2,4), of l]
  by (simp_all add: reconnected_def save_message_and_incr_def memory_ops_def ms_save_unbounded u64_simps ms_ok_def
      bt_ok_insert holds_frames_def)

theorem offline_sends_resent_witness:
  "\<exists>st. handle_send_all sample_env [offline_order] (Running fresh_session) = ([Inr ()], Running (fresh_session\<lparr>se_store := st\<rparr>))
     \<and> ms_next_sender (se_store (reconnected st ''logon'')) = 3
     \<and> (\<exists>s3. (answer_resend sample_env 1 1 (reconnected st ''logon'') :: (unit, unit) outcome \<times> _) = (Done (), s3)
          \<and> sent_frames s3 = [to_bytes (resent sample_env (wire_form sample_offline))])"
proof -
  have s: "se_store fresh_session = memory_store_new 0" "offline fresh_session"
    by (simp_all add: fresh_session_def session_spawn_def offline_def)
  have o: "is_open (reconnected st raw)" "sent_frames (reconnected st raw) = []" for st raw
    by (simp_all add: reconnected_def online_session_def attached_session_eq is_open_def sent_frames_def)
  have a: "\<not> is_admin offline_order"
    by (simp add: offline_order_def with_type_def message_new_def set_body_def is_admin_def is_admin_type_def set_header_def)
  let ?b = "ms_next_sender (se_store fresh_session)"
  obtain st where st: "handle_send_all sample_env [offline_order] (Running fresh_session) = ([Inr ()], Running (fresh_session\<lparr>se_store := st\<rparr>))"
    "kept_run fresh_session [to_bytes sample_offline] st" "ms_ok st" "ms_capacity st = None"
    and later: "\<forall>s2. is_open s2 \<and> ms_ok (se_store s2) \<and> holds_frames 1 [to_bytes sample_offline] (se_store s2) \<longrightarrow>
        (\<exists>s3. (answer_resend sample_env 1 1 s2 :: (unit, unit) outcome \<times> _) = (Done (), s3)
          \<and> sent_frames s3 = sent_frames s2 @ [to_bytes (resent sample_env (wire_form sample_offline))])"
    using offline_sends_resent [of sample_cfg fresh_session "[offline_order]" None None sample_chrono utc_only 0 0 0 0,
        folded sample_env_system, where ?'e = unit] sample_offline_wf s a ms_ok_new [of 0]
    by (auto simp: sample_cfg_def memory_store_new_def sample_offline_def)
  have n: "ms_next_sender st = 2" "ms_next_target st = 1" "holds_frames 1 [to_bytes sample_offline] st"
    using st(2) kept_run_holds [OF st(2)] s(1) by (simp_all add: kept_run_def memory_store_new_def)
  note r = reconnected_store [OF st(3,4) n(3), of "''logon''", unfolded n(1,2)]
  have "is_open (reconnected st ''logon'') \<and> ms_ok (se_store (reconnected st ''logon''))
      \<and> holds_frames 1 [to_bytes sample_offline] (se_store (reconnected st ''logon''))"
    using r(1,2) o(1) by simp
  from later [rule_format, OF this] show ?thesis
    using st(1) o(2) r(3) by (intro exI [of _ st] conjI) simp_all
qed

end
