(* ===== verification/Fixt11.thy ===== *)
theory Fixt11
  imports Typed_Field
begin

text \<open>
  \<open>src/fixt11\<close>: the typed messages of FIXT.1.1, which the code generator wrote from its dictionary. The
  markers of \<open>fields.rs\<close> with their tags, value types and named constants; the seven messages of
  \<open>messages.rs\<close> with their constructors and accessors, one definition per method (a setter takes the
  value and the message and returns the message it leaves); the repeating group of the logon; and
  the typed dispatch of \<open>mod.rs\<close>. A struct that wraps a message is a datatype with one
  constructor, and its conversion into a message is the selector. Timestamps need \<open>chrono\<close>.
\<close>

section \<open>Fields\<close>

definition BeginSeqNo :: "int marker" where "BeginSeqNo = i64_field 7"
definition BeginString :: "bytes marker" where "BeginString = string_field 8"
definition BodyLength :: "int marker" where "BodyLength = i64_field 9"
definition CheckSum :: "bytes marker" where "CheckSum = string_field 10"
definition EndSeqNo :: "int marker" where "EndSeqNo = i64_field 16"
definition MsgSeqNum :: "int marker" where "MsgSeqNum = i64_field 34"
definition MsgType :: "bytes marker" where "MsgType = string_field 35"

definition MsgType_consts :: "(string \<times> bytes) list" where
  "MsgType_consts =
     [(''HEARTBEAT'', ''0''), (''TEST_REQUEST'', ''1''), (''RESEND_REQUEST'', ''2''), (''REJECT'', ''3''),
      (''SEQUENCE_RESET'', ''4''), (''LOGOUT'', ''5''), (''INDICATION_OF_INTEREST'', ''6''),
      (''ADVERTISEMENT'', ''7''), (''EXECUTION_REPORT'', ''8''), (''ORDER_CANCEL_REJECT'', ''9''), (''LOGON'', ''A''),
      (''NEWS'', ''B''), (''EMAIL'', ''C''), (''ORDER_SINGLE'', ''D''), (''ORDER_LIST'', ''E''),
      (''ORDER_CANCEL_REQUEST'', ''F''), (''ORDER_CANCEL_REPLACE_REQUEST'', ''G''), (''ORDER_STATUS_REQUEST'', ''H''),
      (''ALLOCATION_INSTRUCTION'', ''J''), (''LIST_CANCEL_REQUEST'', ''K''), (''LIST_EXECUTE'', ''L''),
      (''LIST_STATUS_REQUEST'', ''M''), (''LIST_STATUS'', ''N''), (''ALLOCATION_INSTRUCTION_ACK'', ''P''),
      (''DONT_KNOW_TRADE'', ''Q''), (''QUOTE_REQUEST'', ''R''), (''QUOTE'', ''S''),
      (''SETTLEMENT_INSTRUCTIONS'', ''T''), (''MARKET_DATA_REQUEST'', ''V''),
      (''MARKET_DATA_SNAPSHOT_FULL_REFRESH'', ''W''), (''MARKET_DATA_INCREMENTAL_REFRESH'', ''X''),
      (''MARKET_DATA_REQUEST_REJECT'', ''Y''), (''QUOTE_CANCEL'', ''Z''), (''QUOTE_STATUS_REQUEST'', ''a''),
      (''MASS_QUOTE_ACKNOWLEDGEMENT'', ''b''), (''SECURITY_DEFINITION_REQUEST'', ''c''),
      (''SECURITY_DEFINITION'', ''d''), (''SECURITY_STATUS_REQUEST'', ''e''), (''SECURITY_STATUS'', ''f''),
      (''TRADING_SESSION_STATUS_REQUEST'', ''g''), (''TRADING_SESSION_STATUS'', ''h''), (''MASS_QUOTE'', ''i''),
      (''BUSINESS_MESSAGE_REJECT'', ''j''), (''BID_REQUEST'', ''k''), (''BID_RESPONSE'', ''l''),
      (''LIST_STRIKE_PRICE'', ''m''), (''XML_MESSAGE'', ''n''), (''REGISTRATION_INSTRUCTIONS'', ''o''),
      (''REGISTRATION_INSTRUCTIONS_RESPONSE'', ''p''), (''ORDER_MASS_CANCEL_REQUEST'', ''q''),
      (''ORDER_MASS_CANCEL_REPORT'', ''r''), (''NEW_ORDER_CROSS'', ''s''),
      (''CROSS_ORDER_CANCEL_REPLACE_REQUEST'', ''t''), (''CROSS_ORDER_CANCEL_REQUEST'', ''u''),
      (''SECURITY_TYPE_REQUEST'', ''v''), (''SECURITY_TYPES'', ''w''), (''SECURITY_LIST_REQUEST'', ''x''),
      (''SECURITY_LIST'', ''y''), (''DERIVATIVE_SECURITY_LIST_REQUEST'', ''z''),
      (''DERIVATIVE_SECURITY_LIST'', ''AA''), (''NEW_ORDER_MULTILEG'', ''AB''),
      (''MULTILEG_ORDER_CANCEL_REPLACE'', ''AC''), (''TRADE_CAPTURE_REPORT_REQUEST'', ''AD''),
      (''TRADE_CAPTURE_REPORT'', ''AE''), (''ORDER_MASS_STATUS_REQUEST'', ''AF''), (''QUOTE_REQUEST_REJECT'', ''AG''),
      (''RFQ_REQUEST'', ''AH''), (''QUOTE_STATUS_REPORT'', ''AI''), (''QUOTE_RESPONSE'', ''AJ''),
      (''CONFIRMATION'', ''AK''), (''POSITION_MAINTENANCE_REQUEST'', ''AL''),
      (''POSITION_MAINTENANCE_REPORT'', ''AM''), (''REQUEST_FOR_POSITIONS'', ''AN''),
      (''REQUEST_FOR_POSITIONS_ACK'', ''AO''), (''POSITION_REPORT'', ''AP''),
      (''TRADE_CAPTURE_REPORT_REQUEST_ACK'', ''AQ''), (''TRADE_CAPTURE_REPORT_ACK'', ''AR''),
      (''ALLOCATION_REPORT'', ''AS''), (''ALLOCATION_REPORT_ACK'', ''AT''), (''CONFIRMATION_ACK'', ''AU''),
      (''SETTLEMENT_INSTRUCTION_REQUEST'', ''AV''), (''ASSIGNMENT_REPORT'', ''AW''), (''COLLATERAL_REQUEST'', ''AX''),
      (''COLLATERAL_ASSIGNMENT'', ''AY''), (''COLLATERAL_RESPONSE'', ''AZ''), (''COLLATERAL_REPORT'', ''BA''),
      (''COLLATERAL_INQUIRY'', ''BB''), (''NETWORK_STATUS_REQUEST'', ''BC''), (''NETWORK_STATUS_RESPONSE'', ''BD''),
      (''USER_REQUEST'', ''BE''), (''USER_RESPONSE'', ''BF''), (''COLLATERAL_INQUIRY_ACK'', ''BG''),
      (''CONFIRMATION_REQUEST'', ''BH''), (''TRADING_SESSION_LIST_REQUEST'', ''BI''),
      (''TRADING_SESSION_LIST'', ''BJ''), (''SECURITY_LIST_UPDATE_REPORT'', ''BK''),
      (''ADJUSTED_POSITION_REPORT'', ''BL''), (''ALLOCATION_INSTRUCTION_ALERT'', ''BM''),
      (''EXECUTION_ACKNOWLEDGEMENT'', ''BN''), (''CONTRARY_INTENTION_REPORT'', ''BO''),
      (''SECURITY_DEFINITION_UPDATE_REPORT'', ''BP'')]"

definition NewSeqNo :: "int marker" where "NewSeqNo = i64_field 36"
definition PossDupFlag :: "bool marker" where "PossDupFlag = bool_field 43"
definition RefSeqNum :: "int marker" where "RefSeqNum = i64_field 45"
definition SenderCompID :: "bytes marker" where "SenderCompID = string_field 49"
definition SenderSubID :: "bytes marker" where "SenderSubID = string_field 50"
definition SendingTime :: "chrono \<Rightarrow> utc_timestamp marker" where "SendingTime ch = timestamp_field ch 52"
definition TargetCompID :: "bytes marker" where "TargetCompID = string_field 56"
definition TargetSubID :: "bytes marker" where "TargetSubID = string_field 57"
definition Text :: "bytes marker" where "Text = string_field 58"
definition Signature :: "bytes marker" where "Signature = bytes_field 89"
definition SecureDataLen :: "int marker" where "SecureDataLen = i64_field 90"
definition SecureData :: "bytes marker" where "SecureData = bytes_field 91"
definition SignatureLength :: "int marker" where "SignatureLength = i64_field 93"
definition RawDataLength :: "int marker" where "RawDataLength = i64_field 95"
definition RawData :: "bytes marker" where "RawData = bytes_field 96"
definition PossResend :: "bool marker" where "PossResend = bool_field 97"
definition EncryptMethod :: "int marker" where "EncryptMethod = i64_field 98"

definition EncryptMethod_consts :: "(string \<times> int) list" where
  "EncryptMethod_consts =
     [(''NONE_OTHER'', 0), (''PKCS'', 1), (''DES'', 2), (''PKCS_DES'', 3), (''PGP_DES'', 4), (''PGP_DES_MD5'', 5),
      (''PEM_DES_MD5'', 6)]"

definition HeartBtInt :: "int marker" where "HeartBtInt = i64_field 108"
definition TestReqID :: "bytes marker" where "TestReqID = string_field 112"
definition OnBehalfOfCompID :: "bytes marker" where "OnBehalfOfCompID = string_field 115"
definition OnBehalfOfSubID :: "bytes marker" where "OnBehalfOfSubID = string_field 116"
definition OrigSendingTime :: "chrono \<Rightarrow> utc_timestamp marker" where "OrigSendingTime ch = timestamp_field ch 122"
definition GapFillFlag :: "bool marker" where "GapFillFlag = bool_field 123"
definition DeliverToCompID :: "bytes marker" where "DeliverToCompID = string_field 128"
definition DeliverToSubID :: "bytes marker" where "DeliverToSubID = string_field 129"
definition ResetSeqNumFlag :: "bool marker" where "ResetSeqNumFlag = bool_field 141"
definition SenderLocationID :: "bytes marker" where "SenderLocationID = string_field 142"
definition TargetLocationID :: "bytes marker" where "TargetLocationID = string_field 143"
definition OnBehalfOfLocationID :: "bytes marker" where "OnBehalfOfLocationID = string_field 144"
definition DeliverToLocationID :: "bytes marker" where "DeliverToLocationID = string_field 145"
definition XmlDataLen :: "int marker" where "XmlDataLen = i64_field 212"
definition XmlData :: "bytes marker" where "XmlData = bytes_field 213"
definition MessageEncoding :: "bytes marker" where "MessageEncoding = string_field 347"

definition MessageEncoding_consts :: "(string \<times> bytes) list" where
  "MessageEncoding_consts =
     [(''ISO_2022_JP'', ''ISO-2022-JP''), (''EUC_JP'', ''EUC-JP''), (''SHIFT_JIS'', ''SHIFT_JIS''),
      (''UTF_8'', ''UTF-8'')]"

definition EncodedTextLen :: "int marker" where "EncodedTextLen = i64_field 354"
definition EncodedText :: "bytes marker" where "EncodedText = bytes_field 355"
definition LastMsgSeqNumProcessed :: "int marker" where "LastMsgSeqNumProcessed = i64_field 369"
definition RefTagID :: "int marker" where "RefTagID = i64_field 371"
definition RefMsgType :: "bytes marker" where "RefMsgType = string_field 372"
definition SessionRejectReason :: "int marker" where "SessionRejectReason = i64_field 373"

definition SessionRejectReason_consts :: "(string \<times> int) list" where
  "SessionRejectReason_consts =
     [(''INVALID_TAG_NUMBER'', 0), (''REQUIRED_TAG_MISSING'', 1), (''SENDINGTIME_ACCURACY_PROBLEM'', 10),
      (''INVALID_MSGTYPE'', 11), (''XML_VALIDATION_ERROR'', 12), (''TAG_APPEARS_MORE_THAN_ONCE'', 13),
      (''TAG_SPECIFIED_OUT_OF_REQUIRED_ORDER'', 14), (''REPEATING_GROUP_FIELDS_OUT_OF_ORDER'', 15),
      (''INCORRECT_NUMINGROUP_COUNT_FOR_REPEATING_GROUP'', 16), (''NON_DATA_VALUE_INCLUDES_FIELD_DELIMITER'', 17),
      (''TAG_NOT_DEFINED_FOR_THIS_MESSAGE_TYPE'', 2), (''UNDEFINED_TAG'', 3), (''TAG_SPECIFIED_WITHOUT_A_VALUE'', 4),
      (''VALUE_IS_INCORRECT'', 5), (''INCORRECT_DATA_FORMAT_FOR_VALUE'', 6), (''DECRYPTION_PROBLEM'', 7),
      (''SIGNATURE_PROBLEM'', 8), (''COMPID_PROBLEM'', 9), (''OTHER'', 99)]"

definition MaxMessageSize :: "int marker" where "MaxMessageSize = i64_field 383"
definition NoMsgTypes :: "int marker" where "NoMsgTypes = i64_field 384"
definition MsgDirection :: "bytes marker" where "MsgDirection = char_field 385"

definition MsgDirection_consts :: "(string \<times> bytes) list" where
  "MsgDirection_consts =
     [(''RECEIVE'', ''R''), (''SEND'', ''S'')]"

definition TestMessageIndicator :: "bool marker" where "TestMessageIndicator = bool_field 464"
definition Username :: "bytes marker" where "Username = string_field 553"
definition Password :: "bytes marker" where "Password = string_field 554"
definition NoHops :: "int marker" where "NoHops = i64_field 627"
definition HopCompID :: "bytes marker" where "HopCompID = string_field 628"
definition HopSendingTime :: "chrono \<Rightarrow> utc_timestamp marker" where "HopSendingTime ch = timestamp_field ch 629"
definition HopRefID :: "int marker" where "HopRefID = i64_field 630"
definition NextExpectedMsgSeqNum :: "int marker" where "NextExpectedMsgSeqNum = i64_field 789"
definition ApplVerID :: "bytes marker" where "ApplVerID = string_field 1128"

definition ApplVerID_consts :: "(string \<times> bytes) list" where
  "ApplVerID_consts =
     [(''FIX27'', ''0''), (''FIX30'', ''1''), (''FIX40'', ''2''), (''FIX41'', ''3''), (''FIX42'', ''4''),
      (''FIX43'', ''5''), (''FIX44'', ''6''), (''FIX50'', ''7''), (''FIX50SP1'', ''8''), (''FIX50SP2'', ''9'')]"

definition CstmApplVerID :: "bytes marker" where "CstmApplVerID = string_field 1129"
definition RefApplVerID :: "bytes marker" where "RefApplVerID = string_field 1130"
definition RefCstmApplVerID :: "bytes marker" where "RefCstmApplVerID = string_field 1131"
definition DefaultApplVerID :: "bytes marker" where "DefaultApplVerID = string_field 1137"

section \<open>Messages\<close>

subsection \<open>Heartbeat\<close>

datatype Heartbeat = Heartbeat_msg (Heartbeat_inner: message)

definition Heartbeat_MSG_TYPE :: bytes where "Heartbeat_MSG_TYPE = ''0''"

definition Heartbeat_new :: "Heartbeat" where
  "Heartbeat_new = Heartbeat_msg (with_type Heartbeat_MSG_TYPE)"

definition Heartbeat_from_message :: "message \<Rightarrow> message + Heartbeat" where
  "Heartbeat_from_message m =
     (if msg_type m = Inr Heartbeat_MSG_TYPE then Inr (Heartbeat_msg m) else Inl m)"

definition Heartbeat_test_req_id :: "Heartbeat \<Rightarrow> conversion_error + bytes" where
  "Heartbeat_test_req_id m = get_field TestReqID (body (Heartbeat_inner m))"

definition Heartbeat_set_test_req_id :: "bytes \<Rightarrow> Heartbeat \<Rightarrow> Heartbeat" where
  "Heartbeat_set_test_req_id v m = Heartbeat_msg (typed_set TestReqID v (Heartbeat_inner m))"

definition Heartbeat_has_test_req_id :: "Heartbeat \<Rightarrow> bool" where
  "Heartbeat_has_test_req_id m = has_field TestReqID (body (Heartbeat_inner m))"

subsection \<open>Logon\<close>

datatype Logon = Logon_msg (Logon_inner: message)

definition Logon_MSG_TYPE :: bytes where "Logon_MSG_TYPE = ''A''"

definition Logon_new :: "int \<Rightarrow> int \<Rightarrow> bytes \<Rightarrow> Logon" where
  "Logon_new encrypt_method heart_bt_int default_appl_ver_id = Logon_msg
       (typed_set DefaultApplVerID default_appl_ver_id
       (typed_set HeartBtInt heart_bt_int
       (typed_set EncryptMethod encrypt_method
       (with_type Logon_MSG_TYPE))))"

definition Logon_from_message :: "message \<Rightarrow> message + Logon" where
  "Logon_from_message m =
     (if msg_type m = Inr Logon_MSG_TYPE then Inr (Logon_msg m) else Inl m)"

definition Logon_encrypt_method :: "Logon \<Rightarrow> conversion_error + int" where
  "Logon_encrypt_method m = get_field EncryptMethod (body (Logon_inner m))"

definition Logon_set_encrypt_method :: "int \<Rightarrow> Logon \<Rightarrow> Logon" where
  "Logon_set_encrypt_method v m = Logon_msg (typed_set EncryptMethod v (Logon_inner m))"

definition Logon_has_encrypt_method :: "Logon \<Rightarrow> bool" where
  "Logon_has_encrypt_method m = has_field EncryptMethod (body (Logon_inner m))"

definition Logon_heart_bt_int :: "Logon \<Rightarrow> conversion_error + int" where
  "Logon_heart_bt_int m = get_field HeartBtInt (body (Logon_inner m))"

definition Logon_set_heart_bt_int :: "int \<Rightarrow> Logon \<Rightarrow> Logon" where
  "Logon_set_heart_bt_int v m = Logon_msg (typed_set HeartBtInt v (Logon_inner m))"

definition Logon_has_heart_bt_int :: "Logon \<Rightarrow> bool" where
  "Logon_has_heart_bt_int m = has_field HeartBtInt (body (Logon_inner m))"

definition Logon_raw_data_length :: "Logon \<Rightarrow> conversion_error + int" where
  "Logon_raw_data_length m = get_field RawDataLength (body (Logon_inner m))"

definition Logon_set_raw_data_length :: "int \<Rightarrow> Logon \<Rightarrow> Logon" where
  "Logon_set_raw_data_length v m = Logon_msg (typed_set RawDataLength v (Logon_inner m))"

definition Logon_has_raw_data_length :: "Logon \<Rightarrow> bool" where
  "Logon_has_raw_data_length m = has_field RawDataLength (body (Logon_inner m))"

definition Logon_raw_data :: "Logon \<Rightarrow> conversion_error + bytes" where
  "Logon_raw_data m = get_field RawData (body (Logon_inner m))"

definition Logon_set_raw_data :: "bytes \<Rightarrow> Logon \<Rightarrow> Logon" where
  "Logon_set_raw_data v m = Logon_msg (typed_set RawData v (Logon_inner m))"

definition Logon_has_raw_data :: "Logon \<Rightarrow> bool" where
  "Logon_has_raw_data m = has_field RawData (body (Logon_inner m))"

definition Logon_reset_seq_num_flag :: "Logon \<Rightarrow> conversion_error + bool" where
  "Logon_reset_seq_num_flag m = get_field ResetSeqNumFlag (body (Logon_inner m))"

definition Logon_set_reset_seq_num_flag :: "bool \<Rightarrow> Logon \<Rightarrow> Logon" where
  "Logon_set_reset_seq_num_flag v m = Logon_msg (typed_set ResetSeqNumFlag v (Logon_inner m))"

definition Logon_has_reset_seq_num_flag :: "Logon \<Rightarrow> bool" where
  "Logon_has_reset_seq_num_flag m = has_field ResetSeqNumFlag (body (Logon_inner m))"

definition Logon_next_expected_msg_seq_num :: "Logon \<Rightarrow> conversion_error + int" where
  "Logon_next_expected_msg_seq_num m = get_field NextExpectedMsgSeqNum (body (Logon_inner m))"

definition Logon_set_next_expected_msg_seq_num :: "int \<Rightarrow> Logon \<Rightarrow> Logon" where
  "Logon_set_next_expected_msg_seq_num v m = Logon_msg (typed_set NextExpectedMsgSeqNum v (Logon_inner m))"

definition Logon_has_next_expected_msg_seq_num :: "Logon \<Rightarrow> bool" where
  "Logon_has_next_expected_msg_seq_num m = has_field NextExpectedMsgSeqNum (body (Logon_inner m))"

definition Logon_max_message_size :: "Logon \<Rightarrow> conversion_error + int" where
  "Logon_max_message_size m = get_field MaxMessageSize (body (Logon_inner m))"

definition Logon_set_max_message_size :: "int \<Rightarrow> Logon \<Rightarrow> Logon" where
  "Logon_set_max_message_size v m = Logon_msg (typed_set MaxMessageSize v (Logon_inner m))"

definition Logon_has_max_message_size :: "Logon \<Rightarrow> bool" where
  "Logon_has_max_message_size m = has_field MaxMessageSize (body (Logon_inner m))"

definition Logon_test_message_indicator :: "Logon \<Rightarrow> conversion_error + bool" where
  "Logon_test_message_indicator m = get_field TestMessageIndicator (body (Logon_inner m))"

definition Logon_set_test_message_indicator :: "bool \<Rightarrow> Logon \<Rightarrow> Logon" where
  "Logon_set_test_message_indicator v m = Logon_msg (typed_set TestMessageIndicator v (Logon_inner m))"

definition Logon_has_test_message_indicator :: "Logon \<Rightarrow> bool" where
  "Logon_has_test_message_indicator m = has_field TestMessageIndicator (body (Logon_inner m))"

definition Logon_username :: "Logon \<Rightarrow> conversion_error + bytes" where
  "Logon_username m = get_field Username (body (Logon_inner m))"

definition Logon_set_username :: "bytes \<Rightarrow> Logon \<Rightarrow> Logon" where
  "Logon_set_username v m = Logon_msg (typed_set Username v (Logon_inner m))"

definition Logon_has_username :: "Logon \<Rightarrow> bool" where
  "Logon_has_username m = has_field Username (body (Logon_inner m))"

definition Logon_password :: "Logon \<Rightarrow> conversion_error + bytes" where
  "Logon_password m = get_field Password (body (Logon_inner m))"

definition Logon_set_password :: "bytes \<Rightarrow> Logon \<Rightarrow> Logon" where
  "Logon_set_password v m = Logon_msg (typed_set Password v (Logon_inner m))"

definition Logon_has_password :: "Logon \<Rightarrow> bool" where
  "Logon_has_password m = has_field Password (body (Logon_inner m))"

definition Logon_default_appl_ver_id :: "Logon \<Rightarrow> conversion_error + bytes" where
  "Logon_default_appl_ver_id m = get_field DefaultApplVerID (body (Logon_inner m))"

definition Logon_set_default_appl_ver_id :: "bytes \<Rightarrow> Logon \<Rightarrow> Logon" where
  "Logon_set_default_appl_ver_id v m = Logon_msg (typed_set DefaultApplVerID v (Logon_inner m))"

definition Logon_has_default_appl_ver_id :: "Logon \<Rightarrow> bool" where
  "Logon_has_default_appl_ver_id m = has_field DefaultApplVerID (body (Logon_inner m))"

subsection \<open>The group NoMsgTypes\<close>

definition no_msg_types_template :: group_template where
  "no_msg_types_template = \<lparr>gt_num_tag = 384, gt_member_tags = [372, 385, 1130, 1131]\<rparr>"

datatype NoMsgTypes_group = NoMsgTypes_group (NoMsgTypes_fields: field_map)

definition NoMsgTypes_new :: "NoMsgTypes_group" where "NoMsgTypes_new = NoMsgTypes_group []"

definition NoMsgTypes_ref_msg_type :: "NoMsgTypes_group \<Rightarrow> conversion_error + bytes" where
  "NoMsgTypes_ref_msg_type g = get_field RefMsgType (NoMsgTypes_fields g)"

definition NoMsgTypes_set_ref_msg_type :: "bytes \<Rightarrow> NoMsgTypes_group \<Rightarrow> NoMsgTypes_group" where
  "NoMsgTypes_set_ref_msg_type v g = NoMsgTypes_group (set_field RefMsgType v (NoMsgTypes_fields g))"

definition NoMsgTypes_has_ref_msg_type :: "NoMsgTypes_group \<Rightarrow> bool" where
  "NoMsgTypes_has_ref_msg_type g = has_field RefMsgType (NoMsgTypes_fields g)"

definition NoMsgTypes_msg_direction :: "NoMsgTypes_group \<Rightarrow> conversion_error + bytes" where
  "NoMsgTypes_msg_direction g = get_field MsgDirection (NoMsgTypes_fields g)"

definition NoMsgTypes_set_msg_direction :: "bytes \<Rightarrow> NoMsgTypes_group \<Rightarrow> NoMsgTypes_group" where
  "NoMsgTypes_set_msg_direction v g = NoMsgTypes_group (set_field MsgDirection v (NoMsgTypes_fields g))"

definition NoMsgTypes_has_msg_direction :: "NoMsgTypes_group \<Rightarrow> bool" where
  "NoMsgTypes_has_msg_direction g = has_field MsgDirection (NoMsgTypes_fields g)"

definition NoMsgTypes_ref_appl_ver_id :: "NoMsgTypes_group \<Rightarrow> conversion_error + bytes" where
  "NoMsgTypes_ref_appl_ver_id g = get_field RefApplVerID (NoMsgTypes_fields g)"

definition NoMsgTypes_set_ref_appl_ver_id :: "bytes \<Rightarrow> NoMsgTypes_group \<Rightarrow> NoMsgTypes_group" where
  "NoMsgTypes_set_ref_appl_ver_id v g = NoMsgTypes_group (set_field RefApplVerID v (NoMsgTypes_fields g))"

definition NoMsgTypes_has_ref_appl_ver_id :: "NoMsgTypes_group \<Rightarrow> bool" where
  "NoMsgTypes_has_ref_appl_ver_id g = has_field RefApplVerID (NoMsgTypes_fields g)"

definition NoMsgTypes_ref_cstm_appl_ver_id :: "NoMsgTypes_group \<Rightarrow> conversion_error + bytes" where
  "NoMsgTypes_ref_cstm_appl_ver_id g = get_field RefCstmApplVerID (NoMsgTypes_fields g)"

definition NoMsgTypes_set_ref_cstm_appl_ver_id :: "bytes \<Rightarrow> NoMsgTypes_group \<Rightarrow> NoMsgTypes_group" where
  "NoMsgTypes_set_ref_cstm_appl_ver_id v g = NoMsgTypes_group (set_field RefCstmApplVerID v (NoMsgTypes_fields g))"

definition NoMsgTypes_has_ref_cstm_appl_ver_id :: "NoMsgTypes_group \<Rightarrow> bool" where
  "NoMsgTypes_has_ref_cstm_appl_ver_id g = has_field RefCstmApplVerID (NoMsgTypes_fields g)"

text \<open>The accessors of the group in the logon.\<close>

definition Logon_no_msg_types :: "Logon \<Rightarrow> conversion_error + NoMsgTypes_group list" where
  "Logon_no_msg_types m =
     map_sum id (map NoMsgTypes_group) (read_groups no_msg_types_template (body (Logon_inner m)))"

definition Logon_set_no_msg_types :: "NoMsgTypes_group list \<Rightarrow> Logon \<Rightarrow> Logon" where
  "Logon_set_no_msg_types groups m = Logon_msg ((Logon_inner m)
     \<lparr>body := write_groups no_msg_types_template (map NoMsgTypes_fields groups) (body (Logon_inner m))\<rparr>)"

subsection \<open>Logout\<close>

datatype Logout = Logout_msg (Logout_inner: message)

definition Logout_MSG_TYPE :: bytes where "Logout_MSG_TYPE = ''5''"

definition Logout_new :: "Logout" where
  "Logout_new = Logout_msg (with_type Logout_MSG_TYPE)"

definition Logout_from_message :: "message \<Rightarrow> message + Logout" where
  "Logout_from_message m =
     (if msg_type m = Inr Logout_MSG_TYPE then Inr (Logout_msg m) else Inl m)"

definition Logout_text :: "Logout \<Rightarrow> conversion_error + bytes" where
  "Logout_text m = get_field Text (body (Logout_inner m))"

definition Logout_set_text :: "bytes \<Rightarrow> Logout \<Rightarrow> Logout" where
  "Logout_set_text v m = Logout_msg (typed_set Text v (Logout_inner m))"

definition Logout_has_text :: "Logout \<Rightarrow> bool" where
  "Logout_has_text m = has_field Text (body (Logout_inner m))"

definition Logout_encoded_text_len :: "Logout \<Rightarrow> conversion_error + int" where
  "Logout_encoded_text_len m = get_field EncodedTextLen (body (Logout_inner m))"

definition Logout_set_encoded_text_len :: "int \<Rightarrow> Logout \<Rightarrow> Logout" where
  "Logout_set_encoded_text_len v m = Logout_msg (typed_set EncodedTextLen v (Logout_inner m))"

definition Logout_has_encoded_text_len :: "Logout \<Rightarrow> bool" where
  "Logout_has_encoded_text_len m = has_field EncodedTextLen (body (Logout_inner m))"

definition Logout_encoded_text :: "Logout \<Rightarrow> conversion_error + bytes" where
  "Logout_encoded_text m = get_field EncodedText (body (Logout_inner m))"

definition Logout_set_encoded_text :: "bytes \<Rightarrow> Logout \<Rightarrow> Logout" where
  "Logout_set_encoded_text v m = Logout_msg (typed_set EncodedText v (Logout_inner m))"

definition Logout_has_encoded_text :: "Logout \<Rightarrow> bool" where
  "Logout_has_encoded_text m = has_field EncodedText (body (Logout_inner m))"

subsection \<open>Reject\<close>

datatype Reject = Reject_msg (Reject_inner: message)

definition Reject_MSG_TYPE :: bytes where "Reject_MSG_TYPE = ''3''"

definition Reject_new :: "int \<Rightarrow> Reject" where
  "Reject_new ref_seq_num = Reject_msg (typed_set RefSeqNum ref_seq_num (with_type Reject_MSG_TYPE))"

definition Reject_from_message :: "message \<Rightarrow> message + Reject" where
  "Reject_from_message m =
     (if msg_type m = Inr Reject_MSG_TYPE then Inr (Reject_msg m) else Inl m)"

definition Reject_ref_seq_num :: "Reject \<Rightarrow> conversion_error + int" where
  "Reject_ref_seq_num m = get_field RefSeqNum (body (Reject_inner m))"

definition Reject_set_ref_seq_num :: "int \<Rightarrow> Reject \<Rightarrow> Reject" where
  "Reject_set_ref_seq_num v m = Reject_msg (typed_set RefSeqNum v (Reject_inner m))"

definition Reject_has_ref_seq_num :: "Reject \<Rightarrow> bool" where
  "Reject_has_ref_seq_num m = has_field RefSeqNum (body (Reject_inner m))"

definition Reject_ref_tag_id :: "Reject \<Rightarrow> conversion_error + int" where
  "Reject_ref_tag_id m = get_field RefTagID (body (Reject_inner m))"

definition Reject_set_ref_tag_id :: "int \<Rightarrow> Reject \<Rightarrow> Reject" where
  "Reject_set_ref_tag_id v m = Reject_msg (typed_set RefTagID v (Reject_inner m))"

definition Reject_has_ref_tag_id :: "Reject \<Rightarrow> bool" where
  "Reject_has_ref_tag_id m = has_field RefTagID (body (Reject_inner m))"

definition Reject_ref_msg_type :: "Reject \<Rightarrow> conversion_error + bytes" where
  "Reject_ref_msg_type m = get_field RefMsgType (body (Reject_inner m))"

definition Reject_set_ref_msg_type :: "bytes \<Rightarrow> Reject \<Rightarrow> Reject" where
  "Reject_set_ref_msg_type v m = Reject_msg (typed_set RefMsgType v (Reject_inner m))"

definition Reject_has_ref_msg_type :: "Reject \<Rightarrow> bool" where
  "Reject_has_ref_msg_type m = has_field RefMsgType (body (Reject_inner m))"

definition Reject_session_reject_reason :: "Reject \<Rightarrow> conversion_error + int" where
  "Reject_session_reject_reason m = get_field SessionRejectReason (body (Reject_inner m))"

definition Reject_set_session_reject_reason :: "int \<Rightarrow> Reject \<Rightarrow> Reject" where
  "Reject_set_session_reject_reason v m = Reject_msg (typed_set SessionRejectReason v (Reject_inner m))"

definition Reject_has_session_reject_reason :: "Reject \<Rightarrow> bool" where
  "Reject_has_session_reject_reason m = has_field SessionRejectReason (body (Reject_inner m))"

definition Reject_text :: "Reject \<Rightarrow> conversion_error + bytes" where
  "Reject_text m = get_field Text (body (Reject_inner m))"

definition Reject_set_text :: "bytes \<Rightarrow> Reject \<Rightarrow> Reject" where
  "Reject_set_text v m = Reject_msg (typed_set Text v (Reject_inner m))"

definition Reject_has_text :: "Reject \<Rightarrow> bool" where
  "Reject_has_text m = has_field Text (body (Reject_inner m))"

definition Reject_encoded_text_len :: "Reject \<Rightarrow> conversion_error + int" where
  "Reject_encoded_text_len m = get_field EncodedTextLen (body (Reject_inner m))"

definition Reject_set_encoded_text_len :: "int \<Rightarrow> Reject \<Rightarrow> Reject" where
  "Reject_set_encoded_text_len v m = Reject_msg (typed_set EncodedTextLen v (Reject_inner m))"

definition Reject_has_encoded_text_len :: "Reject \<Rightarrow> bool" where
  "Reject_has_encoded_text_len m = has_field EncodedTextLen (body (Reject_inner m))"

definition Reject_encoded_text :: "Reject \<Rightarrow> conversion_error + bytes" where
  "Reject_encoded_text m = get_field EncodedText (body (Reject_inner m))"

definition Reject_set_encoded_text :: "bytes \<Rightarrow> Reject \<Rightarrow> Reject" where
  "Reject_set_encoded_text v m = Reject_msg (typed_set EncodedText v (Reject_inner m))"

definition Reject_has_encoded_text :: "Reject \<Rightarrow> bool" where
  "Reject_has_encoded_text m = has_field EncodedText (body (Reject_inner m))"

subsection \<open>ResendRequest\<close>

datatype ResendRequest = ResendRequest_msg (ResendRequest_inner: message)

definition ResendRequest_MSG_TYPE :: bytes where "ResendRequest_MSG_TYPE = ''2''"

definition ResendRequest_new :: "int \<Rightarrow> int \<Rightarrow> ResendRequest" where
  "ResendRequest_new begin_seq_no end_seq_no = ResendRequest_msg
       (typed_set EndSeqNo end_seq_no
       (typed_set BeginSeqNo begin_seq_no
       (with_type ResendRequest_MSG_TYPE)))"

definition ResendRequest_from_message :: "message \<Rightarrow> message + ResendRequest" where
  "ResendRequest_from_message m =
     (if msg_type m = Inr ResendRequest_MSG_TYPE then Inr (ResendRequest_msg m) else Inl m)"

definition ResendRequest_begin_seq_no :: "ResendRequest \<Rightarrow> conversion_error + int" where
  "ResendRequest_begin_seq_no m = get_field BeginSeqNo (body (ResendRequest_inner m))"

definition ResendRequest_set_begin_seq_no :: "int \<Rightarrow> ResendRequest \<Rightarrow> ResendRequest" where
  "ResendRequest_set_begin_seq_no v m = ResendRequest_msg (typed_set BeginSeqNo v (ResendRequest_inner m))"

definition ResendRequest_has_begin_seq_no :: "ResendRequest \<Rightarrow> bool" where
  "ResendRequest_has_begin_seq_no m = has_field BeginSeqNo (body (ResendRequest_inner m))"

definition ResendRequest_end_seq_no :: "ResendRequest \<Rightarrow> conversion_error + int" where
  "ResendRequest_end_seq_no m = get_field EndSeqNo (body (ResendRequest_inner m))"

definition ResendRequest_set_end_seq_no :: "int \<Rightarrow> ResendRequest \<Rightarrow> ResendRequest" where
  "ResendRequest_set_end_seq_no v m = ResendRequest_msg (typed_set EndSeqNo v (ResendRequest_inner m))"

definition ResendRequest_has_end_seq_no :: "ResendRequest \<Rightarrow> bool" where
  "ResendRequest_has_end_seq_no m = has_field EndSeqNo (body (ResendRequest_inner m))"

subsection \<open>SequenceReset\<close>

datatype SequenceReset = SequenceReset_msg (SequenceReset_inner: message)

definition SequenceReset_MSG_TYPE :: bytes where "SequenceReset_MSG_TYPE = ''4''"

definition SequenceReset_new :: "int \<Rightarrow> SequenceReset" where
  "SequenceReset_new new_seq_no = SequenceReset_msg (typed_set NewSeqNo new_seq_no (with_type SequenceReset_MSG_TYPE))"

definition SequenceReset_from_message :: "message \<Rightarrow> message + SequenceReset" where
  "SequenceReset_from_message m =
     (if msg_type m = Inr SequenceReset_MSG_TYPE then Inr (SequenceReset_msg m) else Inl m)"

definition SequenceReset_gap_fill_flag :: "SequenceReset \<Rightarrow> conversion_error + bool" where
  "SequenceReset_gap_fill_flag m = get_field GapFillFlag (body (SequenceReset_inner m))"

definition SequenceReset_set_gap_fill_flag :: "bool \<Rightarrow> SequenceReset \<Rightarrow> SequenceReset" where
  "SequenceReset_set_gap_fill_flag v m = SequenceReset_msg (typed_set GapFillFlag v (SequenceReset_inner m))"

definition SequenceReset_has_gap_fill_flag :: "SequenceReset \<Rightarrow> bool" where
  "SequenceReset_has_gap_fill_flag m = has_field GapFillFlag (body (SequenceReset_inner m))"

definition SequenceReset_new_seq_no :: "SequenceReset \<Rightarrow> conversion_error + int" where
  "SequenceReset_new_seq_no m = get_field NewSeqNo (body (SequenceReset_inner m))"

definition SequenceReset_set_new_seq_no :: "int \<Rightarrow> SequenceReset \<Rightarrow> SequenceReset" where
  "SequenceReset_set_new_seq_no v m = SequenceReset_msg (typed_set NewSeqNo v (SequenceReset_inner m))"

definition SequenceReset_has_new_seq_no :: "SequenceReset \<Rightarrow> bool" where
  "SequenceReset_has_new_seq_no m = has_field NewSeqNo (body (SequenceReset_inner m))"

subsection \<open>TestRequest\<close>

datatype TestRequest = TestRequest_msg (TestRequest_inner: message)

definition TestRequest_MSG_TYPE :: bytes where "TestRequest_MSG_TYPE = ''1''"

definition TestRequest_new :: "bytes \<Rightarrow> TestRequest" where
  "TestRequest_new test_req_id = TestRequest_msg (typed_set TestReqID test_req_id (with_type TestRequest_MSG_TYPE))"

definition TestRequest_from_message :: "message \<Rightarrow> message + TestRequest" where
  "TestRequest_from_message m =
     (if msg_type m = Inr TestRequest_MSG_TYPE then Inr (TestRequest_msg m) else Inl m)"

definition TestRequest_test_req_id :: "TestRequest \<Rightarrow> conversion_error + bytes" where
  "TestRequest_test_req_id m = get_field TestReqID (body (TestRequest_inner m))"

definition TestRequest_set_test_req_id :: "bytes \<Rightarrow> TestRequest \<Rightarrow> TestRequest" where
  "TestRequest_set_test_req_id v m = TestRequest_msg (typed_set TestReqID v (TestRequest_inner m))"

definition TestRequest_has_test_req_id :: "TestRequest \<Rightarrow> bool" where
  "TestRequest_has_test_req_id m = has_field TestReqID (body (TestRequest_inner m))"

section \<open>Typed dispatch\<close>

datatype AnyMessage =
    Any_Heartbeat Heartbeat
  | Any_Logon Logon
  | Any_Logout Logout
  | Any_Reject Reject
  | Any_ResendRequest ResendRequest
  | Any_SequenceReset SequenceReset
  | Any_TestRequest TestRequest
  | Any_Unknown message

definition classify :: "message \<Rightarrow> AnyMessage" where
  "classify m =
     (let mt = (case msg_type m of Inr t \<Rightarrow> t | Inl _ \<Rightarrow> []) in
      if mt = ''0'' then Any_Heartbeat (Heartbeat_msg m)
      else if mt = ''A'' then Any_Logon (Logon_msg m)
      else if mt = ''5'' then Any_Logout (Logout_msg m)
      else if mt = ''3'' then Any_Reject (Reject_msg m)
      else if mt = ''2'' then Any_ResendRequest (ResendRequest_msg m)
      else if mt = ''4'' then Any_SequenceReset (SequenceReset_msg m)
      else if mt = ''1'' then Any_TestRequest (TestRequest_msg m)
      else Any_Unknown m)"

text \<open>The same variant around another message.\<close>

fun with_inner :: "message \<Rightarrow> AnyMessage \<Rightarrow> AnyMessage" where
  "with_inner m (Any_Heartbeat _) = Any_Heartbeat (Heartbeat_msg m)"
| "with_inner m (Any_Logon _) = Any_Logon (Logon_msg m)"
| "with_inner m (Any_Logout _) = Any_Logout (Logout_msg m)"
| "with_inner m (Any_Reject _) = Any_Reject (Reject_msg m)"
| "with_inner m (Any_ResendRequest _) = Any_ResendRequest (ResendRequest_msg m)"
| "with_inner m (Any_SequenceReset _) = Any_SequenceReset (SequenceReset_msg m)"
| "with_inner m (Any_TestRequest _) = Any_TestRequest (TestRequest_msg m)"
| "with_inner m (Any_Unknown _) = Any_Unknown m"

lemmas fixt11_types = Heartbeat_MSG_TYPE_def Logon_MSG_TYPE_def Logout_MSG_TYPE_def Reject_MSG_TYPE_def
  ResendRequest_MSG_TYPE_def SequenceReset_MSG_TYPE_def TestRequest_MSG_TYPE_def

lemmas fixt11_wraps = Heartbeat_from_message_def Logon_from_message_def Logout_from_message_def Reject_from_message_def
  ResendRequest_from_message_def SequenceReset_from_message_def TestRequest_from_message_def

section \<open>Dispatch\<close>

text \<open>The dispatch depends on the type alone, and agrees with the wrapping functions of the seven messages.\<close>

lemma classify_cong: "msg_type m' = msg_type m \<Longrightarrow> classify m' = with_inner m' (classify m)"
  by (simp add: classify_def Let_def)

lemma classify_iff:
  "classify m = Any_Heartbeat h \<longleftrightarrow> Heartbeat_from_message m = Inr h"
  "classify m = Any_Logon l \<longleftrightarrow> Logon_from_message m = Inr l"
  "classify m = Any_Logout lo \<longleftrightarrow> Logout_from_message m = Inr lo"
  "classify m = Any_Reject rj \<longleftrightarrow> Reject_from_message m = Inr rj"
  "classify m = Any_ResendRequest rr \<longleftrightarrow> ResendRequest_from_message m = Inr rr"
  "classify m = Any_SequenceReset sr \<longleftrightarrow> SequenceReset_from_message m = Inr sr"
  "classify m = Any_TestRequest tr \<longleftrightarrow> TestRequest_from_message m = Inr tr"
  by (auto simp: classify_def Let_def fixt11_types fixt11_wraps split: sum.splits)

text \<open>
  What has no variant: the messages that are not administrative, and of the administrative ones only
  the XML message (and a type that is not UTF-8).
\<close>

lemma admin_type_utf8: "is_admin_type t \<Longrightarrow> utf8_ok t"
  by (auto simp: is_admin_type_def utf8_ok_ascii byte_of_def)

lemma classify_unknown:
  assumes "get_raw MSG_TYPE (header m) = Some t"
  shows "classify m = Any_Unknown m \<longleftrightarrow> \<not> is_admin m \<or> t = ''n''"
proof -
  let ?mt = "if utf8_ok t then t else []"
  have mt: "(case msg_type m of Inr t \<Rightarrow> t | Inl _ \<Rightarrow> []) = ?mt"
    using assms by (simp add: msg_type_def get_string_def fm_get_def decode_string_def)
  have "classify m = Any_Unknown m \<longleftrightarrow> ?mt \<notin> set [''0'', ''A'', ''5'', ''3'', ''2'', ''4'', ''1'']"
    unfolding classify_def Let_def mt by simp
  also have "\<dots> \<longleftrightarrow> \<not> is_admin_type t \<or> t = ''n''"
    using admin_type_utf8 [of t] by (auto simp: is_admin_type_def)
  finally show ?thesis using assms by (simp add: is_admin_def)
qed

lemma msg_type_with_type: "utf8_ok t \<Longrightarrow> msg_type (with_type t) = Inr t"
  by (simp add: msg_type_def get_string_def fm_get_def with_type_def set_header_def decode_string_def)

lemma msg_type_typed_set [simp]: "msg_type (typed_set F v m) = msg_type m" "header (typed_set F v m) = header m"
  "trailer (typed_set F v m) = trailer m" "structure_error (typed_set F v m) = structure_error m"
  by (simp_all add: msg_type_def typed_set_def)

lemma body_typed_set [simp]: "body (typed_set F v m) = set_field F v (body m)"
  by (simp add: typed_set_def)

section \<open>Constructors and accessors\<close>

lemmas fixt11_markers = BeginSeqNo_def EndSeqNo_def NewSeqNo_def RefSeqNum_def Text_def RawDataLength_def RawData_def
  EncryptMethod_def HeartBtInt_def TestReqID_def GapFillFlag_def ResetSeqNumFlag_def EncodedTextLen_def EncodedText_def
  RefTagID_def RefMsgType_def SessionRejectReason_def MaxMessageSize_def MsgDirection_def TestMessageIndicator_def
  Username_def Password_def NextExpectedMsgSeqNum_def RefApplVerID_def RefCstmApplVerID_def DefaultApplVerID_def

lemmas fixt11_new = Heartbeat_new_def Logon_new_def Logout_new_def Reject_new_def ResendRequest_new_def SequenceReset_new_def
  TestRequest_new_def

lemma kind_tags [simp]:
  "mk_tag (i64_field t) = t" "mk_tag (bool_field t) = t" "mk_tag (string_field t) = t" "mk_tag (char_field t) = t"
  "mk_tag (bytes_field t) = t" "mk_tag (timestamp_field ch t) = t"
  by (simp_all add: field_kinds)

lemmas typed_reads = get_set_other i64.get_set boolean.get_set str.get_set character.get_set data.get_set

text \<open>
  A message that was built by its constructor is dispatched to its own variant, and the accessors
  read the arguments back.
\<close>

lemma constructors_dispatch:
  "classify (Heartbeat_inner Heartbeat_new) = Any_Heartbeat Heartbeat_new"
  "classify (Logon_inner (Logon_new em hb av)) = Any_Logon (Logon_new em hb av)"
  "classify (Logout_inner Logout_new) = Any_Logout Logout_new"
  "classify (Reject_inner (Reject_new n)) = Any_Reject (Reject_new n)"
  "classify (ResendRequest_inner (ResendRequest_new b n)) = Any_ResendRequest (ResendRequest_new b n)"
  "classify (SequenceReset_inner (SequenceReset_new n)) = Any_SequenceReset (SequenceReset_new n)"
  "classify (TestRequest_inner (TestRequest_new s)) = Any_TestRequest (TestRequest_new s)"
  by (simp_all add: classify_def fixt11_new fixt11_types msg_type_with_type utf8_ok_ascii byte_of_def)

lemma constructors_read:
  "i64_ok em \<Longrightarrow> Logon_encrypt_method (Logon_new em hb av) = Inr em"
  "i64_ok hb \<Longrightarrow> Logon_heart_bt_int (Logon_new em hb av) = Inr hb"
  "utf8_ok av \<Longrightarrow> Logon_default_appl_ver_id (Logon_new em hb av) = Inr av"
  "i64_ok n \<Longrightarrow> Reject_ref_seq_num (Reject_new n) = Inr n"
  "i64_ok b \<Longrightarrow> ResendRequest_begin_seq_no (ResendRequest_new b n) = Inr b"
  "i64_ok n \<Longrightarrow> ResendRequest_end_seq_no (ResendRequest_new b n) = Inr n"
  "i64_ok n \<Longrightarrow> SequenceReset_new_seq_no (SequenceReset_new n) = Inr n"
  "utf8_ok s \<Longrightarrow> TestRequest_test_req_id (TestRequest_new s) = Inr s"
  by (simp_all add: fixt11_new Logon_encrypt_method_def Logon_heart_bt_int_def Logon_default_appl_ver_id_def
      Reject_ref_seq_num_def ResendRequest_begin_seq_no_def ResendRequest_end_seq_no_def SequenceReset_new_seq_no_def
      TestRequest_test_req_id_def fixt11_markers typed_reads)

section \<open>The group of the logon\<close>

lemma no_msg_types_template_ok:
  "group_template_new 384 [372, 385, 1130, 1131] = Ok no_msg_types_template"
  by (simp add: group_template_new_def no_msg_types_template_def)

text \<open>
  An instance whose delimiter, RefMsgType, was set first is one the group can be read back from,
  whatever else is set in it afterwards.
\<close>

definition started :: "NoMsgTypes_group \<Rightarrow> bool" where
  "started g \<longleftrightarrow> group_instance no_msg_types_template (NoMsgTypes_fields g)"

lemma set_raw_started:
  assumes "group_instance tpl fm" and "is_member tpl t"
  shows "group_instance tpl (set_raw t v fm)"
proof -
  obtain f fs where fm: "fm = f # fs" "tv_tag f = delimiter tpl"
    "list_all (\<lambda>h. tv_tag h \<noteq> delimiter tpl \<and> is_member tpl (tv_tag h)) fs"
    using assms(1) by (auto simp: group_instance_def split: list.splits)
  have "list_all (\<lambda>h. tv_tag h \<noteq> delimiter tpl \<and> is_member tpl (tv_tag h)) (set_raw t v fs)" if "t \<noteq> delimiter tpl"
    using fm(3) that assms(2) by (induction fs) auto
  with fm show ?thesis by (auto simp: group_instance_def)
qed

lemma started_sets:
  "started (NoMsgTypes_set_ref_msg_type s NoMsgTypes_new)"
  "started g \<Longrightarrow> started (NoMsgTypes_set_ref_msg_type s g)"
  "started g \<Longrightarrow> started (NoMsgTypes_set_msg_direction s g)"
  "started g \<Longrightarrow> started (NoMsgTypes_set_ref_appl_ver_id s g)"
  "started g \<Longrightarrow> started (NoMsgTypes_set_ref_cstm_appl_ver_id s g)"
  unfolding started_def NoMsgTypes_new_def NoMsgTypes_set_ref_msg_type_def NoMsgTypes_set_msg_direction_def
    NoMsgTypes_set_ref_appl_ver_id_def NoMsgTypes_set_ref_cstm_appl_ver_id_def set_field_def fixt11_markers NoMsgTypes_group.sel
  by (simp add: group_instance_def delimiter_def no_msg_types_template_def,
      (erule set_raw_started, simp add: is_member_def no_msg_types_template_def)+)

lemma wrap_groups [simp]: "map (NoMsgTypes_group \<circ> NoMsgTypes_fields) gs = gs"
  by (induction gs) auto

lemma logon_groups_read_back:
  assumes "\<not> has_field NoMsgTypes (body (Logon_inner l))" and "list_all started gs" and "length gs < 2 ^ 63"
  shows "Logon_no_msg_types (Logon_set_no_msg_types gs l) = Inr gs"
proof -
  have "list_all (group_instance no_msg_types_template) (map NoMsgTypes_fields gs)"
    using assms(2) by (simp add: list_all_iff started_def)
  then have "read_groups no_msg_types_template (write_groups no_msg_types_template (map NoMsgTypes_fields gs) (body (Logon_inner l)))
      = Inr (map NoMsgTypes_fields gs)"
    using assms(1,3)
    by (intro read_write_groups [where rest = "[]", simplified]) (simp_all add: has_field_def contains_iff NoMsgTypes_def no_msg_types_template_def)
  then show ?thesis
    by (simp add: Logon_no_msg_types_def Logon_set_no_msg_types_def)
qed

end
