(* ===== verification/Session_Veto.thy ===== *)
theory Session_Veto
  imports Session_Exchange
begin

text \<open>
  Messages that the application refuses, and messages that arrive before anybody has logged on. A
  Logon that \<open>from_admin\<close> refuses ends the connection; an application message that \<open>from_app\<close> rejects
  is answered and consumed; a SequenceReset is obeyed although nobody has logged on, so the
  verdict of the application on the Logon does not protect the sequence numbers.
\<close>

section \<open>Sending the logout of a refusal\<close>

text \<open>The frames that were handed to the transport, as the session's log has them.\<close>

definition outgoing_log :: "('st, 'ap) session \<Rightarrow> bytes list" where
  "outgoing_log s = List.map_filter (\<lambda>l. case l of LogOutgoing raw \<Rightarrow> Some raw | _ \<Rightarrow> None) (se_log s)"

definition logged :: "log_entry \<Rightarrow> ('st, 'ap) session \<Rightarrow> ('st, 'ap) session" where
  "logged l s = s\<lparr>se_log := se_log s @ [l]\<rparr>"

lemma logged_simps [simp]:
  "se_store (logged l s) = se_store s" "se_app (logged l s) = se_app s" "se_outbound (logged l s) = se_outbound s"
  "se_received_logon (logged l s) = se_received_logon s" "se_sent_logon (logged l s) = se_sent_logon s"
  "se_stash (logged l s) = se_stash s" "se_last_received_seq (logged l s) = se_last_received_seq s"
  "next_sender e (logged l s) = next_sender e s" "next_target e (logged l s) = next_target e s"
  by (simp_all add: logged_def next_sender_def next_target_def)

lemma event_eq: "event r s = (Done (), logged (LogEvent r) s)"
  by (simp add: event_def modify_def logged_def)

text \<open>Messages of the logon and logout kind are transmitted in any connected state.\<close>

lemma send_message_always:
  assumes "passive_application (en_application e)" and "next_sender e s < 2 ^ 63"
    and "se_outbound s = Some out" "\<not> out_closed out" and "always_sent (type_or_empty m)"
    and "persist_op e (next_sender e s) (to_bytes (outgoing e s m)) (se_store s) = (Ok (), st)"
  shows "send_message e m s = (Done (), after_transmit e (to_bytes (outgoing e s m)) (s\<lparr>se_store := st\<rparr>))"
proof -
  have "type_or_empty (prepare e s m) = type_or_empty m" by (rule type_or_empty_cong) simp
  then show ?thesis
    using assms passive_application.callback [OF assms(1) refl, of "prepare e s m" s] outgoing_seq [OF assms(2), of m]
      transmit_open [of "s\<lparr>se_store := st\<rparr>" out e "to_bytes (outgoing e s m)"]
    by (simp add: send_message_def outgoing_def persist_eq bnd_def thn_def gets_def on_store_def whenM_def Let_def)
qed

text \<open>A session over the in-memory store, with an application that lets outgoing messages pass.\<close>

definition plain_system :: "(memory_store, 'ap) env \<Rightarrow> bool" where
  "plain_system e \<longleftrightarrow> en_ops e = memory_ops \<and> passive_application (en_application e)
     \<and> cfg_persist_messages (en_cfg e) \<and> \<not> cfg_reset_on_disconnect (en_cfg e)"

definition stored_as :: "bytes \<Rightarrow> memory_store \<Rightarrow> memory_store" where
  "stored_as raw st = (snd (ms_save (ms_next_sender st) raw st))\<lparr>ms_next_sender := u64_add (ms_next_sender st) 1\<rparr>"

definition logged_out :: "(memory_store, 'ap) env \<Rightarrow> bytes \<Rightarrow> (memory_store, 'ap) session \<Rightarrow> (memory_store, 'ap) session" where
  "logged_out e reason s =
     (let t = logged (LogEvent (if reason = [] then ''Initiated logout request'' else ''Initiated logout: '' @ reason)) s;
          raw = to_bytes (outgoing e s (logout_message reason))
      in after_transmit e raw (t\<lparr>se_sent_logout := True, se_store := stored_as raw (se_store s)\<rparr>))"

lemma type_logout: "type_or_empty (logout_message reason) = MT_LOGOUT"
  by (simp add: logout_message_def type_or_empty_def msg_type_def get_string_def fm_get_def with_type_def
      message_new_def set_header_def decode_string_def utf8_ok_ascii byte_of_def MT_LOGOUT_def)

lemma initiate_logout_open:
  assumes "plain_system e" and "se_outbound s = Some out" "\<not> out_closed out" and "next_sender e s < 2 ^ 63"
  shows "initiate_logout e reason s = (Done (), logged_out e reason s)"
proof -
  let ?t = "(logged (LogEvent (if reason = [] then ''Initiated logout request'' else ''Initiated logout: '' @ reason)) s)
    \<lparr>se_sent_logout := True\<rparr>"
  let ?raw = "to_bytes (outgoing e s (logout_message reason))"
  have og: "outgoing e ?t m = outgoing e s m" for m by (rule outgoing_cong) simp_all
  have ns: "next_sender e ?t = next_sender e s" "next_sender e s = ms_next_sender (se_store s)" "se_store ?t = se_store s"
    using assms(1) by (simp_all add: next_sender_def plain_system_def memory_ops_def)
  have p: "persist_op e (next_sender e ?t) (to_bytes (outgoing e ?t (logout_message reason))) (se_store ?t) =
      (Ok (), stored_as ?raw (se_store s))"
    unfolding og ns using assms(1) memory_persist [of e] by (simp add: plain_system_def stored_as_def)
  have "send_message e (logout_message reason) ?t = (Done (), logged_out e reason s)"
    using send_message_always [OF _ _ _ assms(3) _ p] assms(1,2,4) unfolding og ns
    by (simp add: plain_system_def type_logout always_sent_def logged_out_def Let_def)
  then show ?thesis
    by (simp add: initiate_logout_def thn_def bnd_def event_eq modify_def)
qed

lemma logged_out_facts:
  assumes "plain_system e"
  shows "se_outbound (logged_out e reason s) = map_option (\<lambda>out. out\<lparr>out_sent := out_sent out @
        [to_bytes (outgoing e s (logout_message reason))]\<rparr>) (se_outbound s)"
    and "se_app (logged_out e reason s) = se_app s"
    and "se_received_logon (logged_out e reason s) = se_received_logon s"
    and "se_sent_logon (logged_out e reason s) = se_sent_logon s"
    and "next_target e (logged_out e reason s) = next_target e s"
    and "next_sender e s < 2 ^ 63 \<Longrightarrow> next_sender e (logged_out e reason s) = next_sender e s + 1"
    and "outgoing_log (logged_out e reason s) = outgoing_log s @ [to_bytes (outgoing e s (logout_message reason))]"
  using assms
  by (simp_all add: logged_out_def Let_def after_transmit_def push_out_def plain_system_def logged_def next_target_def next_sender_def
      memory_ops_def stored_as_def ms_save_def u64_add_exact outgoing_log_def map_filter_def)

section \<open>Closing the connection\<close>

lemma disconnect_open:
  assumes "plain_system e" and "se_outbound s \<noteq> None"
  shows "(disconnect e reason s :: ('e, unit) outcome \<times> _) = (Done (),
    (if se_received_logon s \<or> se_sent_logon s
     then (\<lambda>t. t\<lparr>se_app := ap_on_logout (en_application e) (the_sid e) (se_app t)\<rparr>) else id)
      (disconnect_state (logged (LogEvent (''Disconnecting: '' @ reason)) s)))"
  using assms
  by (auto simp: disconnect_def cmd_defs is_connected_def plain_system_def call_on_logout_def logged_def)

lemma on_inbound_refused:
  assumes "message_parse raw (cfg_validate_length_checksum (en_cfg e)) = Ok m" and "seq_num m = Inr n"
    and "process e m (s\<lparr>se_log := se_log s @ [LogIncoming raw], se_last_received_seq := n\<rparr>) = (Fail reason, s1)"
  shows "(on_inbound e fuel raw s :: ('e, unit) outcome \<times> _) = disconnect e reason s1"
  using assms by (simp add: on_inbound_def or_disconnect_def thn_def bnd_def modify_def attempt_def)

lemma disconnect_state_facts [simp]:
  "\<not> is_connected (disconnect_state s)" "\<not> is_logged_on (disconnect_state s)" "se_stash (disconnect_state s) = []"
  "se_app (disconnect_state s) = se_app s" "next_sender e (disconnect_state s) = next_sender e s"
  "next_target e (disconnect_state s) = next_target e s"
  by (simp_all add: disconnect_state_def is_connected_def is_logged_on_def next_sender_def next_target_def)

lemma map_filter_append: "List.map_filter f (xs @ ys) = List.map_filter f xs @ List.map_filter f ys"
  by (simp add: map_filter_def)

lemma outgoing_log_simps [simp]:
  "outgoing_log (logged (LogEvent r) s) = outgoing_log s" "outgoing_log (disconnect_state s) = outgoing_log s"
  by (simp_all add: outgoing_log_def logged_def map_filter_append map_filter_simps disconnect_state_def)

text \<open>
  A logout followed by the end of the connection, the way a message is refused: one frame goes out,
  the sender number advances, and the session is as before it was connected.
\<close>

lemma refuse_and_close:
  assumes "plain_system e" and "is_open s" and "next_sender e s < 2 ^ 63" and "\<not> se_received_logon s" and "\<not> se_sent_logon s"
    and "message_parse raw (cfg_validate_length_checksum (en_cfg e)) = Ok m" and "seq_num m = Inr n"
    and "process e m (s0\<lparr>se_log := se_log s0 @ [LogIncoming raw], se_last_received_seq := n\<rparr>) = (Fail r, logged_out e reason s)"
  shows "\<exists>s'. (on_inbound e fuel raw s0 :: ('e, unit) outcome \<times> _) = (Done (), s')
    \<and> outgoing_log s' = outgoing_log s @ [to_bytes (outgoing e s (logout_message reason))]
    \<and> next_sender e s' = next_sender e s + 1 \<and> next_target e s' = next_target e s \<and> se_app s' = se_app s
    \<and> \<not> is_connected s' \<and> \<not> is_logged_on s' \<and> se_stash s' = []"
proof -
  let ?t = "logged_out e reason s"
  obtain out where out: "se_outbound s = Some out" using assms(2) by (auto simp: is_open_def split: option.splits)
  note f = logged_out_facts [OF assms(1), where reason = reason and s = s]
  have o: "se_outbound ?t \<noteq> None" using f(1) out by simp
  have "(on_inbound e fuel raw s0 :: ('e, unit) outcome \<times> _) =
      (Done (), disconnect_state (logged (LogEvent (''Disconnecting: '' @ r)) ?t))"
    using on_inbound_refused [OF assms(6-8), of fuel, where ?'e = 'e] disconnect_open [OF assms(1) o, where reason = r and ?'e = 'e] f(3,4) assms(4,5) by simp
  then show ?thesis
    using f(2,5-7) assms(3)
    by (intro exI [of _ "disconnect_state (logged (LogEvent (''Disconnecting: '' @ r)) ?t)"]) simp
qed

lemma logout_fields:
  assumes "next_sender e s < 2 ^ 63" and "reason \<noteq> []"
  defines "wm \<equiv> outgoing e s (logout_message reason)"
  shows "seq_num wm = Inr (next_sender e s)" "msg_type wm = Inr MT_LOGOUT" "get_raw TEXT (body wm) = Some reason"
proof -
  show "seq_num wm = Inr (next_sender e s)" unfolding wm_def by (rule outgoing_seq [OF assms(1)])
  show "msg_type wm = Inr MT_LOGOUT"
    using assms(2)
    by (simp add: wm_def outgoing_def msg_type_def get_string_def fm_get_def logout_message_def with_type_def message_new_def
        set_header_def decode_string_def utf8_ok_ascii byte_of_def MT_LOGOUT_def)
  have b: "body (logout_message reason) = [tv TEXT reason]"
    using assms(2) by (simp add: logout_message_def set_body_def with_type_def message_new_def set_header_def)
  have "get_raw TEXT (body wm) = get_raw TEXT (body (logout_message reason))"
    unfolding wm_def by (rule get_raw_perm) (simp_all add: outgoing_fresh b)
  then show "get_raw TEXT (body wm) = Some reason" by (simp add: b)
qed

section \<open>A Logon that the application refuses\<close>

text \<open>A session that waits for the Logon of its peer: connected, nothing exchanged yet.\<close>

definition awaiting_logon :: "('st, 'ap) env \<Rightarrow> ('st, 'ap) session \<Rightarrow> bool" where
  "awaiting_logon e s \<longleftrightarrow> is_open s \<and> \<not> se_received_logon s \<and> \<not> se_sent_logon s \<and> \<not> se_sent_logout s
     \<and> \<not> se_received_reset s \<and> se_stash s = [] \<and> se_resend_range s = None
     \<and> \<not> is_initiator e \<and> \<not> cfg_refresh_on_logon (en_cfg e) \<and> \<not> cfg_reset_on_logon (en_cfg e)"

text \<open>A frame that passes every check of the session itself; \<open>mt\<close> is its type and \<open>n\<close> its number.\<close>

definition valid_frame :: "('st, 'ap) env \<Rightarrow> ('st, 'ap) session \<Rightarrow> bytes \<Rightarrow> message \<Rightarrow> bytes \<Rightarrow> u64 \<Rightarrow> bool" where
  "valid_frame e s raw m mt n \<longleftrightarrow>
     message_parse raw (cfg_validate_length_checksum (en_cfg e)) = Ok m \<and> msg_type m = Inr mt \<and> seq_num m = Inr n
     \<and> get_raw BEGIN_STRING (header m) = Some (the_begin e) \<and> dictionary_reject e m = None \<and> acceptable e s m"

lemma process_valid:
  assumes "valid_frame e s raw m mt n"
  shows "process e m = dispatch e mt m"
  using assms by (simp add: valid_frame_def process_def)

lemma handle_logon_checks:
  assumes "awaiting_logon e s" and "logon_time_ok e m" and "\<not> has_reset_flag m"
  shows "handle_logon e m s = if_continue (verify e m False True) (accept_logon e m) s"
  using assms
  by (simp add: handle_logon_def awaiting_logon_def logon_reset_def acceptor_prepare_def cmd_defs)

text \<open>The number of the frame moves the expected number; in memory this cannot fail.\<close>

definition counted :: "(memory_store, 'ap) session \<Rightarrow> (memory_store, 'ap) session" where
  "counted s = s\<lparr>se_store := (se_store s)\<lparr>ms_next_target := u64_add (ms_next_target (se_store s)) 1\<rparr>\<rparr>"

lemma incr_target_op_memory: "en_ops e = memory_ops \<Longrightarrow> incr_target_op e s = (Done (), counted s)"
  by (simp add: incr_target_op_def on_store_def memory_ops_def counted_def)

lemma callback_refuses_logon:
  assumes "plain_system e" and "is_admin m" and "ap_from_admin (en_application e) m (the_sid e) (se_app s) = (Some (RejectLogon reason), a)"
    and "se_outbound s = Some out" "\<not> out_closed out" and "next_sender e s < 2 ^ 63"
  shows "run_from_callback e m s =
    (Fail (''logon rejected by application: '' @ reason), logged_out e reason (counted (s\<lparr>se_app := a\<rparr>)))"
proof -
  have ns: "next_sender e (counted (s\<lparr>se_app := a\<rparr>)) = next_sender e s" "se_outbound (counted (s\<lparr>se_app := a\<rparr>)) = Some out"
    using assms(1,4) by (simp_all add: counted_def next_sender_def plain_system_def memory_ops_def)
  have i: "initiate_logout e reason (counted (s\<lparr>se_app := a\<rparr>)) = (Done (), logged_out e reason (counted (s\<lparr>se_app := a\<rparr>)))"
    using initiate_logout_open [OF assms(1) ns(2) assms(5)] ns(1) assms(6) by simp
  show ?thesis
    using assms(1-3) i incr_target_op_memory [of e]
    by (simp add: run_from_callback_def call_from_def bnd_def thn_def discard_def raise_def plain_system_def)
qed

text \<open>
  C13. A Logon that the application refuses ends the connection and nothing else. An acceptor
  waits for its peer's Logon; the one that arrives passes every check of the session, and
  \<open>from_admin\<close> answers with \<open>RejectLogon\<close>. Then exactly one frame goes out, a Logout with the
  application's reason under the session's next number; the session is disconnected and not
  logged on; the numbers of the Logon and of the Logout are used up; and the application hears
  nothing more, neither \<open>on_logon\<close> nor \<open>on_logout\<close>: its state is the one its verdict left.
\<close>

theorem refused_logon_closes:
  assumes "plain_system e" and "awaiting_logon e s" and "next_sender e s < 2 ^ 63" and "next_target e s < 2 ^ 63"
    and "valid_frame e s raw m MT_LOGON (next_target e s)" and "logon_time_ok e m" and "\<not> has_reset_flag m"
    and "ap_from_admin (en_application e) m (the_sid e) (se_app s) = (Some (RejectLogon reason), a)" and "reason \<noteq> []"
  shows "\<exists>s' wm. (on_inbound e fuel raw s :: ('e, unit) outcome \<times> _) = (Done (), s')
    \<and> outgoing_log s' = outgoing_log s @ [to_bytes wm]
    \<and> seq_num wm = Inr (next_sender e s) \<and> msg_type wm = Inr MT_LOGOUT \<and> get_raw TEXT (body wm) = Some reason
    \<and> next_sender e s' = next_sender e s + 1 \<and> next_target e s' = next_target e s + 1
    \<and> \<not> is_connected s' \<and> \<not> is_logged_on s' \<and> se_app s' = a"
proof -
  let ?n = "next_target e s"
  let ?s1 = "s\<lparr>se_log := se_log s @ [LogIncoming raw], se_last_received_seq := ?n\<rparr>"
  let ?h = "heard e ?s1"
  let ?c = "counted (?h\<lparr>se_app := a\<rparr>)"
  obtain out where out: "se_outbound s = Some out" "\<not> out_closed out"
    using assms(2) by (auto simp: awaiting_logon_def is_open_def split: option.splits)
  have v: "message_parse raw (cfg_validate_length_checksum (en_cfg e)) = Ok m" "msg_type m = Inr MT_LOGON" "seq_num m = Inr ?n"
    "acceptable e ?s1 m" "next_target e ?s1 = ?n" "awaiting_logon e ?s1"
    using assms(2,5)
    by (simp_all add: valid_frame_def acceptable_def valid_logon_state_def next_target_def awaiting_logon_def is_open_def)
  have ad: "is_admin m" using msg_type_admin(1) [OF v(2)] by (simp add: is_admin_type_def MT_LOGON_def)
  have "verify e m False True ?s1 = run_from_callback e m ?h"
    using verify_in_sequence [OF v(4)] v(3,5) by simp
  also have "\<dots> = (Fail (''logon rejected by application: '' @ reason), logged_out e reason ?c)"
    using assms(3,8) out by (intro callback_refuses_logon [OF assms(1) ad]) (simp_all add: heard_def next_sender_def)
  finally have "process e m ?s1 = (Fail (''logon rejected by application: '' @ reason), logged_out e reason ?c)"
    using process_valid [OF assms(5)] handle_logon_checks [OF v(6) assms(6,7)]
    by (simp add: dispatch_def if_continue_def bnd_def)
  moreover have c: "is_open ?c" "next_sender e ?c = next_sender e s" "next_target e ?c = ?n + 1" "se_app ?c = a"
    "outgoing_log ?c = outgoing_log s" "\<not> se_received_logon ?c" "\<not> se_sent_logon ?c"
    using out assms(1,2,4)
    by (simp_all add: is_open_def counted_def heard_def next_sender_def next_target_def plain_system_def memory_ops_def
        u64_add_exact outgoing_log_def map_filter_append map_filter_simps awaiting_logon_def)
  moreover have "next_sender e ?c < 2 ^ 63" using c(2) assms(3) by simp
  ultimately obtain s' where s': "(on_inbound e fuel raw s :: ('e, unit) outcome \<times> _) = (Done (), s')"
    "outgoing_log s' = outgoing_log s @ [to_bytes (outgoing e ?c (logout_message reason))]"
    "next_sender e s' = next_sender e s + 1" "next_target e s' = ?n + 1" "se_app s' = a" "\<not> is_connected s'" "\<not> is_logged_on s'"
    using refuse_and_close [OF assms(1) _ _ _ _ v(1,3), of ?c s _ reason fuel, where ?'e = 'e] by metis
  then show ?thesis
    using logout_fields [of e ?c reason] c(2) assms(3,9)
    by (intro exI [of _ s'] exI [of _ "outgoing e ?c (logout_message reason)"]) simp
qed

section \<open>An application message that the application rejects\<close>

lemma body_route_field [simp]: "body (route_field offender b m p) = body m"
  by (cases p) (simp add: route_field_def split: option.splits)

lemma body_reverse_route [simp]: "body (reverse_route offender m b) = body m"
proof -
  have "body (foldl (route_field offender b) m ps) = body m" for ps
    by (induction ps arbitrary: m) simp_all
  then show ?thesis by (simp add: reverse_route_def)
qed

lemma reject_message_fields:
  fixes rej :: reject_error
  assumes "msg_type m = Inr mt" and "seq_num m = Inr n" and "n < 2 ^ 63" and "next_sender e t < 2 ^ 63"
  defines "wm \<equiv> outgoing e t (reject_message e m rej)"
  shows "seq_num wm = Inr (next_sender e t)" "msg_type wm = Inr MT_REJECT"
    "get_ok decode_u64 REF_SEQ_NUM (body wm) = Some n" "get_raw TEXT (body wm) = Some (reject_text e rej)"
proof -
  show "seq_num wm = Inr (next_sender e t)" unfolding wm_def by (rule outgoing_seq [OF assms(4)])
  have h: "get_raw MSG_TYPE (header (route_field m b r p)) = get_raw MSG_TYPE (header r)" if "p \<in> set route_pairs" for b r p
    using that by (auto simp: route_field_def route_pairs_def header_tag_defs ON_BEHALF_OF_COMP_ID_def ON_BEHALF_OF_SUB_ID_def
        ON_BEHALF_OF_LOCATION_ID_def DELIVER_TO_COMP_ID_def DELIVER_TO_SUB_ID_def DELIVER_TO_LOCATION_ID_def split: option.splits)
  have "get_raw MSG_TYPE (header (foldl (route_field m b) r ps)) = get_raw MSG_TYPE (header r)" if "set ps \<subseteq> set route_pairs" for b r ps
    using that h by (induction ps arbitrary: r) auto
  then have rr: "get_raw MSG_TYPE (header (reverse_route m r b)) = get_raw MSG_TYPE (header r)" for r b
    by (simp add: reverse_route_def)
  show "msg_type wm = Inr MT_REJECT"
    using rr by (simp add: wm_def outgoing_def msg_type_def get_string_def fm_get_def reject_message_def set_ref_seq_def set_ref_type_def
        assms(1,2) Let_def with_type_def message_new_def decode_string_def utf8_ok_ascii byte_of_def MT_REJECT_def header_tag_defs
        split: option.splits)
  let ?rm = "reject_message e m rej"
  have b: "distinct (map tv_tag (body ?rm))" "get_raw REF_SEQ_NUM (body ?rm) = Some (encode_u64 n)"
    "get_raw TEXT (body ?rm) = Some (reject_text e rej)"
    using assms(1,2)
    by (simp_all add: reject_message_def set_ref_seq_def set_ref_type_def Let_def set_body_def with_type_def message_new_def
        set_header_def distinct_set_raw TEXT_def REF_SEQ_NUM_def REF_TAG_ID_def REF_MSG_TYPE_def SESSION_REJECT_REASON_def
        split: option.splits)
  have g: "get_raw x (body wm) = get_raw x (body ?rm)" for x
    unfolding wm_def by (rule get_raw_perm [OF _ b(1)]) (simp add: outgoing_fresh)
  show "get_raw TEXT (body wm) = Some (reject_text e rej)" unfolding g by (rule b(3))
  show "get_ok decode_u64 REF_SEQ_NUM (body wm) = Some n"
    using assms(3) b(2) by (simp add: g get_ok_def fm_get_opt_def decode_u64_encode)
qed

text \<open>
  C14. An application message in sequence that \<open>from_app\<close> rejects is answered by exactly one frame, a
  Reject under the session's next number that names the rejected number and carries the
  application's text; the number of the message is consumed, so it is not asked for again; the
  session stays connected and logged on; and the application has seen the message once.
\<close>

theorem rejected_message_answered:
  assumes "plain_system e" and "can_transmit s" and "next_sender e s < 2 ^ 63" and "next_target e s < 2 ^ 63"
    and "deliverable e s raw m"
    and "ap_from_app (en_application e) m (the_sid e) (se_app s) = (Some (AppReject rej), a)"
  shows "\<exists>s' wm. (on_inbound e fuel raw s :: ('e, unit) outcome \<times> _) = (Done (), s')
    \<and> sent_frames s' = sent_frames s @ [to_bytes wm]
    \<and> seq_num wm = Inr (next_sender e s) \<and> msg_type wm = Inr MT_REJECT
    \<and> get_ok decode_u64 REF_SEQ_NUM (body wm) = Some (next_target e s) \<and> get_raw TEXT (body wm) = Some (reject_text e rej)
    \<and> next_sender e s' = next_sender e s + 1 \<and> next_target e s' = next_target e s + 1
    \<and> is_connected s' \<and> is_logged_on s' = is_logged_on s \<and> se_app s' = a"
proof -
  let ?n = "next_target e s"
  let ?s1 = "s\<lparr>se_log := se_log s @ [LogIncoming raw], se_last_received_seq := ?n\<rparr>"
  let ?t = "logged (LogEvent (''Message rejected: '' @ reject_display rej)) (counted ((heard e ?s1)\<lparr>se_app := a\<rparr>))"
  let ?wm = "outgoing e ?t (reject_message e m rej)"
  let ?u = "after_transmit e (to_bytes ?wm) (?t\<lparr>se_store := stored_as (to_bytes ?wm) (se_store ?t)\<rparr>)"
  obtain mt where mt: "msg_type m = Inr mt" "\<not> is_admin_type mt"
    and parse: "message_parse raw (cfg_validate_length_checksum (en_cfg e)) = Ok m"
    and bs: "get_raw BEGIN_STRING (header m) = Some (the_begin e)" and dr: "dictionary_reject e m = None"
    and acc: "acceptable e s m" and seq: "seq_num m = Inr ?n" and gap: "se_stash s = []" "se_resend_range s = None"
    using assms(5) unfolding deliverable_def by blast
  have na: "\<not> is_admin m" using msg_type_admin(1) [OF mt(1)] mt(2) by simp
  have ty: "type_or_empty m \<noteq> MT_LOGON" "type_or_empty m \<noteq> MT_SEQUENCE_RESET"
    using mt by (auto simp: type_or_empty_def is_admin_type_def MT_LOGON_def MT_SEQUENCE_RESET_def)
  have t: "next_sender e ?t = next_sender e s" "can_transmit ?t" "next_target e ?t = ?n + 1" "se_store ?t = se_store (counted s)"
    using assms(1,2,4)
    by (auto simp: next_sender_def next_target_def counted_def heard_def plain_system_def memory_ops_def can_transmit_def
        u64_add_exact split: option.splits)
  have p: "persist_op e (next_sender e ?t) (to_bytes ?wm) (se_store ?t) = (Ok (), stored_as (to_bytes ?wm) (se_store ?t))"
    using assms(1) memory_persist [of e] by (simp add: plain_system_def stored_as_def next_sender_def memory_ops_def)
  have send: "send_message e (reject_message e m rej) ?t = (Done (), ?u)"
    using send_message_done [OF _ _ t(2) p] assms(1,3) t(1) by (simp add: plain_system_def)
  have cb: "run_from_callback e m (heard e ?s1) = (Done StopFlow, ?u)"
    using assms(1,6) na ty seq send incr_target_op_memory [of e]
    by (simp add: run_from_callback_def call_from_def send_reject_def bnd_def [abs_def] thn_def discard_def gets_def whenM_def ret_def
        plain_system_def heard_def next_target_def event_eq)
  have a1: "acceptable e ?s1 m" "next_target e ?s1 = ?n"
    using acc by (simp_all add: acceptable_def valid_logon_state_def next_target_def)
  have "process e m ?s1 = (Done (), ?u)"
    using process_app_message [OF mt bs dr] verify_in_sequence [OF a1(1)] a1(2) seq cb
    by (simp add: handle_app_message_def if_continue_def bnd_def ret_def)
  moreover have "drain_stash e fuel (?u\<lparr>se_last_processed_was_queued := False\<rparr>) = (Done (), ?u\<lparr>se_last_processed_was_queued := False\<rparr>)"
    using gap(1) by (cases fuel) (simp_all add: look_def ret_def counted_def heard_def)
  moreover have "(check_resend_chunks e (?u\<lparr>se_last_processed_was_queued := False\<rparr>) :: ('e, unit) outcome \<times> _) =
      (Done (), ?u\<lparr>se_last_processed_was_queued := False\<rparr>)"
    using gap(2) by (simp add: check_resend_chunks_def bnd_def gets_def ret_def counted_def heard_def logged_def)
  ultimately have "(on_inbound e fuel raw s :: ('e, unit) outcome \<times> _) = (Done (), ?u\<lparr>se_last_processed_was_queued := False\<rparr>)"
    by (rule on_inbound_done [OF parse seq])
  moreover have "sent_frames ?u = sent_frames s @ [to_bytes ?wm]" "is_connected ?u" "is_logged_on ?u = is_logged_on s" "se_app ?u = a"
    using sent_frames_after [of "?t\<lparr>se_store := stored_as (to_bytes ?wm) (se_store ?t)\<rparr>" e "to_bytes ?wm"] t(2) assms(2)
    by (auto simp: sent_frames_def counted_def heard_def is_connected_def is_logged_on_def after_transmit_def push_out_def can_transmit_def
        logged_def split: option.splits)
  moreover have "next_sender e ?u = next_sender e s + 1" "next_target e ?u = ?n + 1"
    using assms(1,3) t(1,3) by (simp_all add: next_sender_def next_target_def plain_system_def memory_ops_def stored_as_def ms_save_def u64_add_exact)
  ultimately show ?thesis
    using reject_message_fields [OF mt(1) seq assms(4), of e ?t rej] t(1) assms(3)
    by (intro exI [of _ "?u\<lparr>se_last_processed_was_queued := False\<rparr>"] exI [of _ ?wm])
       (simp add: next_sender_def next_target_def is_connected_def is_logged_on_def sent_frames_def)
qed

section \<open>A sequence reset before anybody has logged on\<close>

text \<open>The state after the reset: the expected number moved, nothing else but the application's state and the log.\<close>

definition moved :: "(memory_store, 'ap) env \<Rightarrow> bytes \<Rightarrow> u64 \<Rightarrow> u64 \<Rightarrow> 'ap \<Rightarrow> (memory_store, 'ap) session \<Rightarrow> (memory_store, 'ap) session" where
  "moved e raw k n a s =
     (logged (LogEvent (''Received SequenceReset (GapFill=N) NewSeqNo='' @ dec_nat n))
       ((heard e (s\<lparr>se_log := se_log s @ [LogIncoming raw], se_last_received_seq := k\<rparr>))\<lparr>se_app := a\<rparr>))
       \<lparr>se_store := (se_store s)\<lparr>ms_next_target := n\<rparr>, se_stash := [], se_last_processed_was_queued := False\<rparr>"

lemma reset_obeyed:
  assumes "plain_system e" and "awaiting_logon e s" and "valid_frame e s raw m MT_SEQUENCE_RESET k"
    and "get_raw GAP_FILL_FLAG (body m) \<noteq> Some ''Y''" and "get_ok decode_u64 NEW_SEQ_NO (body m) = Some n"
    and "next_target e s < n" and "ap_from_admin (en_application e) m (the_sid e) (se_app s) = (None, a)"
  shows "(on_inbound e fuel raw s :: ('e, unit) outcome \<times> _) = (Done (), moved e raw k n a s)"
proof -
  let ?s1 = "s\<lparr>se_log := se_log s @ [LogIncoming raw], se_last_received_seq := k\<rparr>"
  have v: "message_parse raw (cfg_validate_length_checksum (en_cfg e)) = Ok m" "msg_type m = Inr MT_SEQUENCE_RESET" "seq_num m = Inr k"
    "acceptable e ?s1 m"
    using assms(3) by (simp_all add: valid_frame_def acceptable_def valid_logon_state_def)
  have ad: "is_admin m" using msg_type_admin(1) [OF v(2)] by (simp add: is_admin_type_def MT_SEQUENCE_RESET_def)
  have "verify e m False False ?s1 = (Done Continue, (heard e ?s1)\<lparr>se_app := a\<rparr>)"
    using verify_acceptable [OF v(4), of False False] assms(7) ad
    by (simp add: verify_seq_def bnd_def thn_def modify_def ret_def run_from_callback_def call_from_def heard_def)
  then have p: "process e m ?s1 = (Done (), (moved e raw k n a s)\<lparr>se_last_processed_was_queued := se_last_processed_was_queued s\<rparr>)"
    using process_valid [OF assms(3)] assms(1,2,4-6)
    by (simp add: dispatch_def handle_sequence_reset_def if_continue_def bnd_def [abs_def] thn_def gets_def event_eq map_err_def on_store_def
        modify_def moved_def plain_system_def memory_ops_def next_target_def heard_def awaiting_logon_def logged_def
        MT_LOGON_def MT_HEARTBEAT_def MT_REJECT_def MT_TEST_REQUEST_def MT_RESEND_REQUEST_def MT_SEQUENCE_RESET_def)
  have m: "(moved e raw k n a s)\<lparr>se_last_processed_was_queued := b\<rparr>\<lparr>se_last_processed_was_queued := False\<rparr> = moved e raw k n a s" for b
    by (simp add: moved_def)
  have d: "drain_stash e fuel (moved e raw k n a s) = (Done (), moved e raw k n a s)"
    by (cases fuel) (simp_all add: look_def ret_def moved_def)
  have c: "(check_resend_chunks e (moved e raw k n a s) :: ('e, unit) outcome \<times> _) = (Done (), moved e raw k n a s)"
    using assms(2) by (simp add: check_resend_chunks_def bnd_def gets_def ret_def moved_def heard_def logged_def awaiting_logon_def)
  show ?thesis by (rule on_inbound_done [OF v(1,3) p, unfolded m, OF d c])
qed

lemma low_logon_refused:
  assumes "plain_system e" and "awaiting_logon e s" and "\<not> se_last_processed_was_queued s" and "next_sender e s < 2 ^ 63"
    and "valid_frame e s raw m MT_LOGON k" and "logon_time_ok e m" and "\<not> has_reset_flag m" and "\<not> poss_dup m" and "k < next_target e s"
  shows "\<exists>s' wm. (on_inbound e fuel raw s :: ('e, unit) outcome \<times> _) = (Done (), s')
    \<and> outgoing_log s' = outgoing_log s @ [to_bytes wm] \<and> msg_type wm = Inr MT_LOGOUT
    \<and> \<not> is_connected s' \<and> \<not> is_logged_on s' \<and> se_app s' = se_app s"
proof -
  let ?s1 = "s\<lparr>se_log := se_log s @ [LogIncoming raw], se_last_received_seq := k\<rparr>"
  let ?r = "''MsgSeqNum too low, expecting '' @ dec_nat (next_target e s) @ '' but received '' @ dec_nat k"
  obtain out where out: "se_outbound s = Some out" "\<not> out_closed out"
    using assms(2) by (auto simp: awaiting_logon_def is_open_def split: option.splits)
  have v: "message_parse raw (cfg_validate_length_checksum (en_cfg e)) = Ok m" "msg_type m = Inr MT_LOGON" "seq_num m = Inr k"
    "acceptable e ?s1 m" "next_target e ?s1 = next_target e s" "awaiting_logon e ?s1"
    "next_sender e ?s1 = next_sender e s" "is_open ?s1" "\<not> se_received_logon ?s1" "\<not> se_sent_logon ?s1"
    using assms(2,5)
    by (simp_all add: valid_frame_def acceptable_def valid_logon_state_def next_target_def next_sender_def awaiting_logon_def is_open_def)
  have i: "initiate_logout e ?r ?s1 = (Done (), logged_out e ?r ?s1)"
    using initiate_logout_open [OF assms(1) _ out(2), of ?s1 ?r] out(1) v(7) assms(4) by simp
  have "verify e m False True ?s1 = (Fail ?r, logged_out e ?r ?s1)"
    using verify_acceptable [OF v(4), of False True] v(3,5) i assms(3,8,9)
    by (simp add: verify_seq_def on_target_too_low_def bnd_def thn_def gets_def discard_def raise_def Let_def)
  then have "process e m ?s1 = (Fail ?r, logged_out e ?r ?s1)"
    using process_valid [OF assms(5)] handle_logon_checks [OF v(6) assms(6,7)]
    by (simp add: dispatch_def if_continue_def bnd_def)
  then obtain s' where "(on_inbound e fuel raw s :: ('e, unit) outcome \<times> _) = (Done (), s')"
    "outgoing_log s' = outgoing_log ?s1 @ [to_bytes (outgoing e ?s1 (logout_message ?r))]"
    "se_app s' = se_app ?s1" "\<not> is_connected s'" "\<not> is_logged_on s'"
    using refuse_and_close [OF assms(1) v(8) _ v(9,10,1,3), of s ?r ?r fuel, where ?'e = 'e] v(7) assms(4) by auto
  then show ?thesis
    using logout_fields(2) [of e ?s1 ?r] v(7) assms(4)
    by (intro exI [of _ s'] exI [of _ "outgoing e ?s1 (logout_message ?r)"])
       (simp add: outgoing_log_def map_filter_append map_filter_simps)
qed

text \<open>
  C15. A SequenceReset that arrives before anybody has logged on is obeyed. On a new connection whose
  first frame is a SequenceReset in reset mode with the right CompIDs and a NewSeqNo above the
  expected number, the session moves its expected number there: no Logon was exchanged, the
  application had no Logon to refuse, and nothing was sent. From then on the Logon of the real peer, with
  any number below, is refused as too low and its connection closed.
\<close>

theorem reset_before_logon_obeyed:
  assumes "plain_system e" and "awaiting_logon e s" and "next_sender e s < 2 ^ 63"
    and "valid_frame e s raw m MT_SEQUENCE_RESET k" and "get_raw GAP_FILL_FLAG (body m) \<noteq> Some ''Y''"
    and "get_ok decode_u64 NEW_SEQ_NO (body m) = Some n" and "next_target e s < n"
    and "ap_from_admin (en_application e) m (the_sid e) (se_app s) = (None, a)"
  shows "\<exists>s1. (on_inbound e fuel raw s :: ('e, unit) outcome \<times> _) = (Done (), s1)
    \<and> next_target e s1 = n \<and> awaiting_logon e s1 \<and> sent_frames s1 = sent_frames s
    \<and> (\<forall>raw' m' k'. valid_frame e s1 raw' m' MT_LOGON k' \<and> logon_time_ok e m' \<and> \<not> has_reset_flag m' \<and> \<not> poss_dup m' \<and> k' < n \<longrightarrow>
        (\<exists>s2 wm. (on_inbound e fuel raw' s1 :: ('f, unit) outcome \<times> _) = (Done (), s2)
          \<and> outgoing_log s2 = outgoing_log s1 @ [to_bytes wm] \<and> msg_type wm = Inr MT_LOGOUT
          \<and> \<not> is_connected s2 \<and> \<not> is_logged_on s2))"
proof -
  let ?s1 = "moved e raw k n a s"
  have m: "next_target e ?s1 = n" "next_sender e ?s1 = next_sender e s" "awaiting_logon e ?s1" "sent_frames ?s1 = sent_frames s"
    "\<not> se_last_processed_was_queued ?s1"
    using assms(1,2)
    by (simp_all add: moved_def heard_def next_target_def next_sender_def plain_system_def memory_ops_def awaiting_logon_def is_open_def
        logged_def sent_frames_def)
  have "\<exists>s2 wm. (on_inbound e fuel raw' ?s1 :: ('f, unit) outcome \<times> _) = (Done (), s2)
      \<and> outgoing_log s2 = outgoing_log ?s1 @ [to_bytes wm] \<and> msg_type wm = Inr MT_LOGOUT
      \<and> \<not> is_connected s2 \<and> \<not> is_logged_on s2"
    if "valid_frame e ?s1 raw' m' MT_LOGON k'" "logon_time_ok e m'" "\<not> has_reset_flag m'" "\<not> poss_dup m'" "k' < n" for raw' m' k'
    using low_logon_refused [OF assms(1) m(3,5) _ that(1-4), of fuel, where ?'e = 'f] m(1,2) assms(3) that(5) by auto
  then show ?thesis
    using reset_obeyed [OF assms(1,2,4-8), of fuel, where ?'e = 'e] m by blast
qed

section \<open>Examples\<close>

text \<open>An application that refuses every Logon and every order, and counts what it sees.\<close>

definition strict_application :: "nat application" where
  "strict_application = default_application
     \<lparr>ap_from_admin := (\<lambda>m sid n. (if msg_type m = Inr MT_LOGON then Some (RejectLogon ''invalid password'') else None, n + 1)),
      ap_from_app := (\<lambda>m sid n. (Some (AppReject (reject_other ''over limit'' 38)), n + 1))\<rparr>"

definition strict_env :: "(memory_store, nat) env" where
  "strict_env =
     \<lparr>en_cfg = sample_cfg, en_ops = memory_ops, en_application = strict_application, en_dictionary = None,
      en_admin_dictionary = None, en_chrono = sample_chrono, en_cals = utc_only, en_now = 0, en_utc = 0\<rparr>"

definition strict_session :: "(memory_store, nat) session" where
  "strict_session = attach_state strict_env False True (session_spawn strict_env (memory_store_new 0) 0)"

lemma strict_simps [simp]:
  "en_cfg strict_env = sample_cfg" "en_ops strict_env = memory_ops" "en_application strict_env = strict_application"
  "en_dictionary strict_env = None" "en_admin_dictionary strict_env = None" "en_chrono strict_env = sample_chrono"
  "en_utc strict_env = 0" "en_now strict_env = 0"
  by (simp_all add: strict_env_def)

lemma strict_plain: "plain_system strict_env"
proof -
  have "passive_application strict_application"
    by unfold_locales (simp_all add: strict_application_def default_application_def)
  then show ?thesis by (simp add: plain_system_def sample_cfg_def)
qed

lemma strict_waits: "awaiting_logon strict_env strict_session" "next_sender strict_env strict_session = 1" "next_target strict_env strict_session = 1"
  "outgoing_log strict_session = []" "se_app strict_session = 0" "sent_frames strict_session = []"
  by (simp_all add: awaiting_logon_def strict_session_def attach_state_def session_spawn_def is_open_def is_initiator_def sample_cfg_def
      next_sender_def next_target_def memory_ops_def memory_store_new_def outgoing_log_def map_filter_simps strict_application_def
      default_application_def sent_frames_def)

text \<open>Frames of the peer with the number 1.\<close>

definition peer_message :: "bytes \<Rightarrow> field_map \<Rightarrow> message" where
  "peer_message mt fs =
     \<lparr>header = [tv 35 mt, tv 8 ''FIX.4.4'', tv 34 ''1'', tv 49 ''CLI'', tv 52 ''19700101-00:00:00.000'', tv 56 ''SRV''],
      body = fs, trailer = [], structure_error = None\<rparr>"

definition sample_body :: "bytes \<Rightarrow> field_map" where
  "sample_body mt = (if mt = ''A'' then [tv 98 ''0'', tv 108 ''30''] else if mt = ''4'' then [tv 36 ''9''] else [tv 11 ''id''])"

lemma peer_message_wf:
  assumes "mt = ''A'' \<or> mt = ''4'' \<or> mt = ''D''"
  shows "message_wf (peer_message mt (sample_body mt))"
proof (rule small_message_wf)
  let ?m = "peer_message mt (sample_body mt)"
  have f: "wire_fields ?m = [tv 35 mt, tv 34 ''1'', tv 49 ''CLI'', tv 52 ''19700101-00:00:00.000'', tv 56 ''SRV''] @ sample_body mt"
    by (simp add: wire_fields_def peer_message_def msg_type_field_def header_rest_def trailer_rest_def)
  show "wire_ok None (wire_fields ?m)" "length (write_to (wire_fields ?m)) < 2 ^ 20"
    unfolding f using assms by (auto simp: small_wire sample_body_def)
qed (use assms in \<open>auto simp: peer_message_def sample_body_def begin_string_of_def small_wire\<close>)

lemma peer_message_reads:
  assumes "mt = ''A'' \<or> mt = ''4'' \<or> mt = ''D''"
  defines "m \<equiv> wire_form (peer_message mt (sample_body mt))"
  shows "message_parse (to_bytes (peer_message mt (sample_body mt))) b = Ok m" "msg_type m = Inr mt" "type_or_empty m = mt"
    "seq_num m = Inr 1" "get_raw BEGIN_STRING (header m) = Some ''FIX.4.4''" "body m = sample_body mt" "\<not> poss_dup m"
    "get_time strict_env SENDING_TIME m = Some \<lparr>ts_time = 0, ts_precision = Millis\<rparr>" "comp_ids_ok strict_env m"
    "dictionary_reject strict_env m = None"
proof -
  have p: "header (peer_message mt (sample_body mt)) =
      [tv 35 mt, tv 8 ''FIX.4.4'', tv 34 ''1'', tv 49 ''CLI'', tv 52 ''19700101-00:00:00.000'', tv 56 ''SRV'']"
    by (simp add: peer_message_def)
  note h = get_raw_wire_form [of _ "peer_message mt (sample_body mt)"] p
  have t: "utf8_ok mt" using assms(1) by (auto simp: utf8_ok_ascii byte_of_def)
  show "message_parse (to_bytes (peer_message mt (sample_body mt))) b = Ok m"
    unfolding m_def by (rule parse_to_bytes [OF peer_message_wf [OF assms(1)]])
  show mt: "msg_type m = Inr mt"
    using t by (simp add: m_def msg_type_def get_string_def fm_get_def h decode_string_def)
  then show "type_or_empty m = mt" by (simp add: type_or_empty_def)
  show "seq_num m = Inr 1" by (simp add: m_def seq_num_def fm_get_def h decode_u64_def bytes_simps)
  show "get_raw BEGIN_STRING (header m) = Some ''FIX.4.4''"
    unfolding m_def begin_wire_form by (simp add: begin_string_of_def p)
  show "body m = sample_body mt" by (simp add: m_def wire_form_reads) (simp add: peer_message_def)
  show "\<not> poss_dup m" by (simp add: m_def poss_dup_def h)
  show "get_time strict_env SENDING_TIME m = Some \<lparr>ts_time = 0, ts_precision = Millis\<rparr>"
    by (simp add: m_def get_time_def get_ok_def fm_get_opt_def h decode_timestamp_def utf8_ok_ascii byte_of_def
      precision_of_length_def sample_chrono_def)
  show "comp_ids_ok strict_env m"
    by (simp add: m_def comp_ids_ok_def h sample_cfg_def session_id_new_def)
  show "dictionary_reject strict_env m = None" by (simp add: dictionary_reject_def)
qed

abbreviation peer_frame :: "bytes \<Rightarrow> bytes" where
  "peer_frame mt \<equiv> to_bytes (peer_message mt (sample_body mt))"

abbreviation peer_reads :: "bytes \<Rightarrow> message" where
  "peer_reads mt \<equiv> wire_form (peer_message mt (sample_body mt))"

lemma peer_valid:
  assumes "mt = ''A'' \<or> mt = ''4''" and "\<not> se_received_logon s"
  shows "valid_frame strict_env s (peer_frame mt) (peer_reads mt) mt 1"
  using peer_message_reads [of mt] assms
  by (auto simp: valid_frame_def acceptable_def valid_logon_state_def too_late_def sample_cfg_def session_id_new_def MT_LOGON_def
      MT_SEQUENCE_RESET_def)

lemma peer_logon: "logon_time_ok strict_env (peer_reads ''A'')" "\<not> has_reset_flag (peer_reads ''A'')"
  using peer_message_reads(6,8) [of "''A''"]
  by (simp_all add: logon_time_ok_def has_reset_flag_def sample_body_def too_late_def sample_cfg_def)

theorem refused_logon_closes_witness:
  "\<exists>s' wm. (on_inbound strict_env 0 (peer_frame ''A'') strict_session :: (unit, unit) outcome \<times> _) = (Done (), s')
     \<and> outgoing_log s' = [to_bytes wm] \<and> get_raw TEXT (body wm) = Some ''invalid password'' \<and> \<not> is_logged_on s' \<and> se_app s' = 1"
proof -
  have "valid_frame strict_env strict_session (peer_frame ''A'') (peer_reads ''A'') MT_LOGON (next_target strict_env strict_session)"
    using peer_valid [of "''A''" strict_session] strict_waits by (simp add: MT_LOGON_def awaiting_logon_def)
  moreover have "ap_from_admin (en_application strict_env) (peer_reads ''A'') (the_sid strict_env) (se_app strict_session) =
      (Some (RejectLogon ''invalid password''), 1)"
    using peer_message_reads(2) [of "''A''"] strict_waits(5) by (simp add: strict_application_def MT_LOGON_def)
  moreover have "next_sender strict_env strict_session < 2 ^ 63" "next_target strict_env strict_session < 2 ^ 63"
    using strict_waits(2,3) by simp_all
  ultimately have "\<exists>s' wm. (on_inbound strict_env 0 (peer_frame ''A'') strict_session :: (unit, unit) outcome \<times> _) = (Done (), s')
     \<and> outgoing_log s' = outgoing_log strict_session @ [to_bytes wm] \<and> get_raw TEXT (body wm) = Some ''invalid password''
     \<and> \<not> is_logged_on s' \<and> se_app s' = 1"
    using refused_logon_closes [OF strict_plain strict_waits(1) _ _ _ peer_logon, of "peer_frame ''A''" "''invalid password''" 1 0,
        where ?'e = unit] by blast
  then show ?thesis using strict_waits(4) by simp
qed

theorem reset_before_logon_obeyed_witness:
  "\<exists>s1 s2. (on_inbound strict_env 0 (peer_frame ''4'') strict_session :: (unit, unit) outcome \<times> _) = (Done (), s1)
     \<and> next_target strict_env s1 = 9
     \<and> (on_inbound strict_env 0 (peer_frame ''A'') s1 :: (unit, unit) outcome \<times> _) = (Done (), s2) \<and> \<not> is_connected s2"
proof -
  have v: "valid_frame strict_env strict_session (peer_frame ''4'') (peer_reads ''4'') MT_SEQUENCE_RESET 1"
    using peer_valid [of "''4''" strict_session] strict_waits by (simp add: MT_SEQUENCE_RESET_def awaiting_logon_def)
  have b: "get_raw GAP_FILL_FLAG (body (peer_reads ''4'')) \<noteq> Some ''Y''" "get_ok decode_u64 NEW_SEQ_NO (body (peer_reads ''4'')) = Some 9"
    by (simp_all add: peer_message_def sample_body_def get_ok_def fm_get_opt_def decode_u64_def bytes_simps)
  have a: "ap_from_admin (en_application strict_env) (peer_reads ''4'') (the_sid strict_env) (se_app strict_session) = (None, 1)"
    using peer_message_reads(2) [of "''4''"] strict_waits(5) by (simp add: strict_application_def MT_LOGON_def)
  have n: "next_sender strict_env strict_session < 2 ^ 63" "next_target strict_env strict_session < 9" using strict_waits(2,3) by simp_all
  obtain s1 where s1: "(on_inbound strict_env 0 (peer_frame ''4'') strict_session :: (unit, unit) outcome \<times> _) = (Done (), s1)"
    "next_target strict_env s1 = 9" "awaiting_logon strict_env s1"
    "\<forall>raw' m' k'. valid_frame strict_env s1 raw' m' MT_LOGON k' \<and> logon_time_ok strict_env m' \<and> \<not> has_reset_flag m' \<and> \<not> poss_dup m' \<and> k' < 9 \<longrightarrow>
        (\<exists>s2 wm. (on_inbound strict_env 0 raw' s1 :: (unit, unit) outcome \<times> _) = (Done (), s2)
          \<and> outgoing_log s2 = outgoing_log s1 @ [to_bytes wm] \<and> msg_type wm = Inr MT_LOGOUT
          \<and> \<not> is_connected s2 \<and> \<not> is_logged_on s2)"
    using reset_before_logon_obeyed [OF strict_plain strict_waits(1) n(1) v b n(2) a, of 0, where ?'e = unit and ?'f = unit] by blast
  have "valid_frame strict_env s1 (peer_frame ''A'') (peer_reads ''A'') MT_LOGON 1"
    using peer_valid [of "''A''" s1] s1(3) by (simp add: MT_LOGON_def awaiting_logon_def)
  moreover have "\<not> poss_dup (peer_reads ''A'')" using peer_message_reads(7) [of "''A''"] by simp
  ultimately obtain s2 where "(on_inbound strict_env 0 (peer_frame ''A'') s1 :: (unit, unit) outcome \<times> _) = (Done (), s2)" "\<not> is_connected s2"
    using s1(4) [rule_format, of "peer_frame ''A''" "peer_reads ''A''" 1] peer_logon by auto
  then show ?thesis using s1(1,2) by blast
qed

definition strict_online :: "(memory_store, nat) session" where
  "strict_online = strict_session\<lparr>se_received_logon := True, se_sent_logon := True\<rparr>"

theorem rejected_message_answered_witness:
  "\<exists>s' wm. (on_inbound strict_env 0 (peer_frame ''D'') strict_online :: (unit, unit) outcome \<times> _) = (Done (), s')
     \<and> sent_frames s' = [to_bytes wm] \<and> msg_type wm = Inr MT_REJECT \<and> get_ok decode_u64 REF_SEQ_NUM (body wm) = Some 1
     \<and> get_raw TEXT (body wm) = Some (reject_text strict_env (reject_other ''over limit'' 38)) \<and> is_logged_on s' \<and> se_app s' = 1"
proof -
  have o: "can_transmit strict_online" "next_sender strict_env strict_online = 1" "next_target strict_env strict_online = 1"
    "se_stash strict_online = []" "se_resend_range strict_online = None" "se_received_logon strict_online" "se_app strict_online = 0"
    "is_logged_on strict_online" "sent_frames strict_online = []"
    using strict_waits
    by (simp_all add: strict_online_def can_transmit_def awaiting_logon_def is_open_def next_sender_def next_target_def is_logged_on_def
        sent_frames_def)
  have "deliverable strict_env strict_online (peer_frame ''D'') (peer_reads ''D'')"
    using peer_message_reads [of "''D''"] o
    by (auto simp: deliverable_def acceptable_def valid_logon_state_def too_late_def sample_cfg_def session_id_new_def
        is_admin_type_def MT_LOGON_def)
  moreover have "ap_from_app (en_application strict_env) (peer_reads ''D'') (the_sid strict_env) (se_app strict_online) =
      (Some (AppReject (reject_other ''over limit'' 38)), 1)"
    using o(7) by (simp add: strict_application_def)
  ultimately show ?thesis
    using rejected_message_answered [OF strict_plain o(1), of "peer_frame ''D''" "peer_reads ''D''" "reject_other ''over limit'' 38" 1 0,
        where ?'e = unit] o by auto
qed

end
