(* ===== verification/Fixt11_Session.thy ===== *)
theory Fixt11_Session
  imports Fixt11 Session_Veto Session_Handle
begin

text \<open>
  The typed messages of \<open>src/fixt11\<close> and the session layer. The session builds its administrative
  messages field by field from raw tags; they are the messages that the typed constructors
  build. A field that an application sets through a marker on a message it sends is what the
  peer's accessor reads from the frame. And the repeating group of the logon survives the wire.
\<close>

section \<open>What the session builds\<close>

lemma encode_int_u64: "n < 2 ^ 63 \<Longrightarrow> encode_int (int n) = encode_u64 n"
  by (simp add: encode_int_def encode_u64_def as_i64_def)

lemmas session_tags = BEGIN_SEQ_NO_def END_SEQ_NO_def NEW_SEQ_NO_def GAP_FILL_FLAG_def TEST_REQ_ID_def TEXT_def
  ENCRYPT_METHOD_def HEART_BT_INT_def RESET_SEQ_NUM_FLAG_def DEFAULT_APPL_VER_ID_def NEXT_EXPECTED_MSG_SEQ_NUM_def
  REF_SEQ_NUM_def REF_TAG_ID_def REF_MSG_TYPE_def SESSION_REJECT_REASON_def

lemmas session_types = MT_HEARTBEAT_def MT_LOGON_def MT_LOGOUT_def MT_REJECT_def MT_RESEND_REQUEST_def MT_SEQUENCE_RESET_def
  MT_TEST_REQUEST_def

lemma typed_set_raw: "typed_set F v m = set_body (mk_tag F) (mk_encode F v) m"
  by (simp add: typed_set_def set_body_def set_field_def)

lemmas typed_build = typed_set_raw fixt11_markers field_kinds fixt11_types encode_str_def

text \<open>The optional fields of the logon and of the reply to one, and of a reject.\<close>

definition logon_options :: "('st, 'ap) env \<Rightarrow> bool \<Rightarrow> u64 \<Rightarrow> Logon \<Rightarrow> Logon" where
  "logon_options e reset expected l =
     (let l1 = (if reset then Logon_set_reset_seq_num_flag True l else l)
      in if cfg_send_next_expected_msg_seq_num (en_cfg e)
         then Logon_set_next_expected_msg_seq_num (int expected) l1 else l1)"

definition typed_logon :: "('st, 'ap) env \<Rightarrow> ('st, 'ap) session \<Rightarrow> bytes \<Rightarrow> Logon" where
  "typed_logon e s ver =
     logon_options e (should_reset e s) (next_target e s)
       (Logon_new 0 (int (as_secs (se_heart_bt_int s))) (appl_ver_id_enum ver))"

definition typed_logon_reply :: "('st, 'ap) env \<Rightarrow> ('st, 'ap) session \<Rightarrow> bytes \<Rightarrow> Logon" where
  "typed_logon_reply e s ver =
     logon_options e (se_received_reset s \<and> cfg_send_next_expected_msg_seq_num (en_cfg e)) (next_target e s + 1)
       (Logon_new 0 (int (as_secs (se_heart_bt_int s))) (appl_ver_id_enum ver))"

definition typed_reject :: "int \<Rightarrow> bytes \<Rightarrow> int option \<Rightarrow> bytes \<Rightarrow> int \<Rightarrow> Reject" where
  "typed_reject n txt t mt code =
     (let r1 = Reject_set_text txt (Reject_new n);
          r2 = (case t of Some i \<Rightarrow> Reject_set_ref_tag_id i r1 | None \<Rightarrow> r1)
      in Reject_set_session_reject_reason code (Reject_set_ref_msg_type mt r2))"

text \<open>A gap fill is a typed sequence reset in the envelope of a possible duplicate.\<close>

definition as_gap_fill :: "('st, 'ap) env \<Rightarrow> ('st, 'ap) session \<Rightarrow> u64 \<Rightarrow> message \<Rightarrow> message" where
  "as_gap_fill e s b m =
     set_header ORIG_SENDING_TIME (encode_timestamp (en_chrono e) (now_stamp e))
       (set_header POSS_DUP_FLAG (encode_bool True) (set_header MSG_SEQ_NUM (encode_u64 b) (fill_header e s m)))"

definition same_up_to_order :: "message \<Rightarrow> message \<Rightarrow> bool" where
  "same_up_to_order m m' \<longleftrightarrow> m\<lparr>body := []\<rparr> = m'\<lparr>body := []\<rparr> \<and> mset (body m) = mset (body m')"

lemma reason_code_small: "reason_code r < 2 ^ 63"
  by (cases r) simp_all

lemma set_body_set_header: "set_body t v (set_header t' v' m) = set_header t' v' (set_body t v m)"
  by (simp add: set_body_def set_header_def)

lemma set_body_unless_empty: "set_body t v (set_unless_empty t' v' m) = set_unless_empty t' v' (set_body t v m)"
  by (simp add: set_unless_empty_def set_body_set_header)

lemma set_body_fill: "set_body t v (fill_header e s m) = fill_header e s (set_body t v m)"
  by (simp add: fill_header_def Let_def stamp_sending_time_def set_body_set_header set_body_unless_empty)

lemma set_body_route: "set_body t v (reverse_route offender m b) = reverse_route offender (set_body t v m) b"
proof -
  have step: "set_body t v (route_field offender b m p) = route_field offender b (set_body t v m) p" for m p
    by (cases p) (simp add: route_field_def set_body_set_header split: option.split)
  have "set_body t v (foldl (route_field offender b) m ps) = foldl (route_field offender b) (set_body t v m) ps" for ps
    by (induction ps arbitrary: m) (simp_all add: step)
  then show ?thesis by (simp add: reverse_route_def)
qed

text \<open>
  C35. The administrative messages that a FIXT.1.1 session builds from raw tags are those that the
  typed constructors and setters build, for sequence numbers that fit. Heartbeat, test request and
  the heartbeat that answers one, logout with and without a reason and resend request are equal to
  the typed message; a gap fill is the typed sequence reset with the flag set, numbered, stamped and
  marked as a possible duplicate; a reject of a message with a number and a type is the typed reject
  with the routing of that message reversed; the logon of a session with a default application
  version and the reply to one differ from the typed ones at most in the order of the body fields.
\<close>

theorem session_messages_are_typed:
  assumes "n < 2 ^ 63" and "resend_end_field e c < 2 ^ 63" and "reason \<noteq> []"
    and "cfg_default_appl_ver_id (en_cfg e) = Some ver" and "as_secs (se_heart_bt_int s) < 2 ^ 63" and "next_target e s + 1 < 2 ^ 63"
    and "the_begin e = ''FIXT.1.1''" and "seq_num offender = Inr n" and "msg_type offender = Inr mt"
  shows "with_type MT_HEARTBEAT = Heartbeat_inner Heartbeat_new
    \<and> heartbeat_reply m = Heartbeat_inner (case get_raw TEST_REQ_ID (body m) of
         Some v \<Rightarrow> Heartbeat_set_test_req_id v Heartbeat_new | None \<Rightarrow> Heartbeat_new)
    \<and> test_request_message = TestRequest_inner (TestRequest_new ''TEST'')
    \<and> logout_message [] = Logout_inner Logout_new
    \<and> logout_message reason = Logout_inner (Logout_set_text reason Logout_new)
    \<and> resend_request_message e n c = ResendRequest_inner (ResendRequest_new (int n) (int (resend_end_field e c)))
    \<and> gap_fill_message e s b n =
         as_gap_fill e s b (SequenceReset_inner (SequenceReset_set_gap_fill_flag True (SequenceReset_new (int n))))
    \<and> reject_message e offender rej = reverse_route offender
         (Reject_inner (typed_reject (int n) (reject_text e rej) (rej_ref_tag rej) mt (int (reason_code (rej_reason rej))))) (the_begin e)
    \<and> same_up_to_order (logon_message e s) (Logon_inner (typed_logon e s ver))
    \<and> same_up_to_order (logon_reply_message e s) (Logon_inner (typed_logon_reply e s ver))"
proof (intro conjI)
  show "with_type MT_HEARTBEAT = Heartbeat_inner Heartbeat_new"
    by (simp add: Heartbeat_new_def session_types fixt11_types)
  show "heartbeat_reply m = Heartbeat_inner (case get_raw TEST_REQ_ID (body m) of
         Some v \<Rightarrow> Heartbeat_set_test_req_id v Heartbeat_new | None \<Rightarrow> Heartbeat_new)"
    by (simp add: heartbeat_reply_def Heartbeat_new_def Heartbeat_set_test_req_id_def session_types session_tags typed_build
        split: option.split)
  show "test_request_message = TestRequest_inner (TestRequest_new ''TEST'')"
    by (simp add: test_request_message_def TestRequest_new_def session_types session_tags typed_build)
  show "logout_message [] = Logout_inner Logout_new" "logout_message reason = Logout_inner (Logout_set_text reason Logout_new)"
    using assms(3) by (simp_all add: logout_message_def Logout_new_def Logout_set_text_def session_types session_tags typed_build)
  show "resend_request_message e n c = ResendRequest_inner (ResendRequest_new (int n) (int (resend_end_field e c)))"
    using assms(1,2)
    by (simp add: resend_request_message_def ResendRequest_new_def session_types session_tags typed_build encode_int_u64)
  show "gap_fill_message e s b n =
         as_gap_fill e s b (SequenceReset_inner (SequenceReset_set_gap_fill_flag True (SequenceReset_new (int n))))"
    using assms(1)
    by (simp add: gap_fill_message_def as_gap_fill_def SequenceReset_set_gap_fill_flag_def SequenceReset_new_def Let_def
        set_body_set_header set_body_fill session_types session_tags typed_build encode_int_u64)
  show "reject_message e offender rej = reverse_route offender
         (Reject_inner (typed_reject (int n) (reject_text e rej) (rej_ref_tag rej) mt (int (reason_code (rej_reason rej))))) (the_begin e)"
    using assms(1,7-9) reason_code_small [of "rej_reason rej"]
    by (simp add: reject_message_def typed_reject_def Reject_new_def Reject_set_text_def Reject_set_ref_tag_id_def Reject_set_ref_msg_type_def
        Reject_set_session_reject_reason_def set_ref_seq_def set_ref_type_def fix42_plus_def is_fixt_def Let_def set_body_route
        session_types session_tags typed_build encode_int_u64 split: option.splits)
  have small: "next_target e s < 2 ^ 63" "u64_add (next_target e s) (Suc 0) = Suc (next_target e s)"
    using assms(6) by (simp_all add: u64_add_exact)
  show "same_up_to_order (logon_message e s) (Logon_inner (typed_logon e s ver))"
    using assms(4,5) small(1)
    by (simp add: same_up_to_order_def logon_message_def typed_logon_def logon_options_def Logon_new_def Logon_set_reset_seq_num_flag_def
        set_appl_ver_def Logon_set_next_expected_msg_seq_num_def Let_def session_types session_tags typed_build encode_int_u64
        set_body_def with_type_def message_new_def set_header_def encode_int_u64 [of 0, simplified])
  show "same_up_to_order (logon_reply_message e s) (Logon_inner (typed_logon_reply e s ver))"
    using assms(4-6) small
    by (simp add: same_up_to_order_def logon_reply_message_def typed_logon_reply_def logon_options_def Logon_new_def
        Logon_set_reset_seq_num_flag_def set_appl_ver_def Logon_set_next_expected_msg_seq_num_def Let_def session_types session_tags
        typed_build encode_int_u64 [of "Suc _", simplified] encode_int_u64
        set_body_def with_type_def message_new_def set_header_def encode_int_u64 [of 0, simplified])
qed

section \<open>What the peer reads\<close>

lemma parse_outgoing:
  assumes "message_wf (outgoing e s m)"
  shows "message_parse (to_bytes (outgoing e s m)) v = Ok (wire_form (outgoing e s m))"
    and "msg_type (wire_form (outgoing e s m)) = msg_type m"
    and "mset (body (wire_form (outgoing e s m))) = mset (body m)"
proof -
  show "msg_type (wire_form (outgoing e s m)) = msg_type m"
    by (simp add: wire_form_reads) (simp add: msg_type_def get_string_def fm_get_def outgoing_def)
qed (simp_all add: parse_to_bytes [OF assms] outgoing_fresh)

text \<open>
  C36. A field that is set through its marker on a message handed to the session is read by the
  peer's typed accessor from the frame the session sends: the frame parses, it is dispatched to the
  same typed message, the accessor of the field gives the value and every other accessor what it
  gave before. The session's own header fields and the canonical order of a dictionary do not
  interfere.
\<close>

theorem typed_field_survives_the_wire:
  fixes F :: "'a marker" and G :: "'b marker"
  assumes "typed_field F valid" and "valid v" and "distinct (map tv_tag (body m))"
    and "message_wf (outgoing e s (typed_set F v m))"
  shows "\<exists>m'. message_parse (to_bytes (outgoing e s (typed_set F v m))) validating = Ok m'
    \<and> classify m' = with_inner m' (classify m)
    \<and> get_field F (body m') = Inr v \<and> (mk_tag G \<noteq> mk_tag F \<longrightarrow> get_field G (body m') = get_field G (body m))"
proof -
  let ?m = "typed_set F v m"
  note p = parse_outgoing [OF assms(4)]
  have d: "distinct (map tv_tag (body ?m))" using assms(3) by (simp add: set_field_def distinct_set_raw)
  have "get_field F (body (wire_form (outgoing e s ?m))) = get_field F (body ?m)"
    "get_field G (body (wire_form (outgoing e s ?m))) = get_field G (body ?m)"
    by (rule get_field_perm [OF p(3) [symmetric] d])+
  then show ?thesis
    using p(1) classify_cong [of "wire_form (outgoing e s ?m)" m] p(2) typed_field.get_set [OF assms(1,2)]
      get_set_other(1) [of F G]
    by (intro exI [of _ "wire_form (outgoing e s ?m)"]) auto
qed

section \<open>The repeating group\<close>

lemma write_groups_other:
  assumes "gt_num_tag tpl \<noteq> t" and "\<not> is_member tpl t" and "delimiter tpl \<noteq> t" and "list_all (group_instance tpl) gs"
  shows "get_raw t (write_groups tpl gs fm) = get_raw t fm"
proof -
  have "tv_tag f \<noteq> t" if "g \<in> set gs" "f \<in> set g" for f g
  proof -
    have "group_instance tpl g" using assms(4) that(1) by (simp add: list_all_iff)
    then have "tv_tag f = delimiter tpl \<or> is_member tpl (tv_tag f)"
      using that(2) by (cases g) (auto simp: group_instance_def list_all_iff)
    then show ?thesis using assms(2,3) by auto
  qed
  then have "t \<notin> tv_tag ` set (concat gs)" by auto
  then have "get_raw t (concat gs) = None" by (simp add: get_raw_None_iff)
  then show ?thesis using assms(1) by (simp add: write_groups_def get_raw_append split: option.splits)
qed

text \<open>
  C37. The message types of a logon survive the wire. A typed logon that has no such group yet
  gets one from instances whose RefMsgType was set first; serialised and parsed, with or without
  validation, it is dispatched as a logon whose accessor returns exactly these instances, in
  order, and every field outside the group reads as before.
\<close>

theorem logon_group_round_trip:
  fixes F :: "'a marker"
  assumes "Logon_from_message (Logon_inner l) = Inr l" and "\<not> has_field NoMsgTypes (body (Logon_inner l))"
    and "list_all started gs" and "length gs < 2 ^ 63" and "message_wf (Logon_inner (Logon_set_no_msg_types gs l))"
  shows "\<exists>l'. message_parse (to_bytes (Logon_inner (Logon_set_no_msg_types gs l))) validating = Ok (Logon_inner l')
    \<and> classify (Logon_inner l') = Any_Logon l' \<and> Logon_no_msg_types l' = Inr gs
    \<and> (mk_tag F \<notin> {384, 372, 385, 1130, 1131} \<longrightarrow> get_field F (body (Logon_inner l')) = get_field F (body (Logon_inner l)))"
proof -
  let ?l = "Logon_set_no_msg_types gs l"
  let ?w = "wire_form (Logon_inner ?l)"
  have "msg_type (Logon_inner l) = Inr Logon_MSG_TYPE"
    using assms(1) by (simp add: Logon_from_message_def split: if_splits)
  then have "msg_type ?w = Inr Logon_MSG_TYPE"
    by (simp add: wire_form_reads) (simp add: Logon_set_no_msg_types_def msg_type_def)
  then have c: "classify ?w = Any_Logon (Logon_msg ?w)" by (simp add: classify_iff Logon_from_message_def)
  have g: "Logon_no_msg_types (Logon_msg ?w) = Inr gs"
    using logon_groups_read_back [OF assms(2-4)] by (simp add: Logon_no_msg_types_def)
  have "list_all (group_instance no_msg_types_template) (map NoMsgTypes_fields gs)"
    using assms(3) by (simp add: list_all_iff started_def)
  from write_groups_other [OF _ _ _ this, of t "body (Logon_inner l)" for t]
  have "mk_tag F \<notin> {384, 372, 385, 1130, 1131} \<longrightarrow> get_field F (body ?w) = get_field F (body (Logon_inner l))"
    by (simp add: get_field_def fm_get_def Logon_set_no_msg_types_def no_msg_types_template_def is_member_def delimiter_def)
  then show ?thesis
    using c g parse_to_bytes [OF assms(5)] by (intro exI [of _ "Logon_msg ?w"]) simp
qed

text \<open>A second group does not replace the first: the accessor then fails, whatever is set.\<close>

lemma logon_group_set_twice:
  assumes "\<not> has_field NoMsgTypes (body (Logon_inner l))" and "list_all started gs" and "list_all started hs"
    and "gs \<noteq> []" and "length hs < 2 ^ 63"
  shows "Logon_no_msg_types (Logon_set_no_msg_types hs (Logon_set_no_msg_types gs l)) =
    Inl (InvalidValue 384 (dec_nat (length hs)))"
proof -
  have "list_all (group_instance no_msg_types_template) (map NoMsgTypes_fields xs)" if "list_all started xs" for xs
    using that by (simp add: list_all_iff started_def)
  then have "read_groups no_msg_types_template (write_groups no_msg_types_template (map NoMsgTypes_fields hs)
      (write_groups no_msg_types_template (map NoMsgTypes_fields gs) (body (Logon_inner l)))) =
      Inl (InvalidValue (gt_num_tag no_msg_types_template) (dec_nat (length (map NoMsgTypes_fields hs))))"
    using assms
    by (intro write_groups_twice_unreadable)
       (simp_all add: has_field_def contains_iff NoMsgTypes_def no_msg_types_template_def delimiter_def)
  then show ?thesis by (simp add: Logon_no_msg_types_def Logon_set_no_msg_types_def no_msg_types_template_def)
qed

section \<open>The named constants\<close>

text \<open>
  The constants of the markers agree with the rest of the crate: each reject reason of \<open>error.rs\<close> has
  a constant with its code, the application versions of the logon are those of the session's
  table, and the administrative message types those of \<open>tags.rs\<close>.
\<close>

lemma constants_agree:
  "int (reason_code r) \<in> snd ` set SessionRejectReason_consts"
  "distinct (map snd SessionRejectReason_consts)" "length SessionRejectReason_consts = 19"
  "map_of ApplVerID_consts ''FIX44'' = Some (appl_ver_id_enum ''FIX.4.4'')"
  "map_of ApplVerID_consts ''FIX50'' = Some (appl_ver_id_enum ''FIX.5.0'')"
  "map_of ApplVerID_consts ''FIX50SP1'' = Some (appl_ver_id_enum ''FIX.5.0SP1'')"
  "map_of ApplVerID_consts ''FIX50SP2'' = Some (appl_ver_id_enum ''FIX.5.0SP2'')"
  "map (map_of MsgType_consts) [''HEARTBEAT'', ''TEST_REQUEST'', ''RESEND_REQUEST'', ''REJECT'', ''SEQUENCE_RESET'', ''LOGOUT'', ''LOGON'']
     = map Some [MT_HEARTBEAT, MT_TEST_REQUEST, MT_RESEND_REQUEST, MT_REJECT, MT_SEQUENCE_RESET, MT_LOGOUT, MT_LOGON]"
  by (cases r; simp add: SessionRejectReason_consts_def)
     (simp_all add: SessionRejectReason_consts_def ApplVerID_consts_def appl_ver_id_enum_def MsgType_consts_def session_types)

section \<open>Examples\<close>

definition fixt_env :: "(memory_store, session_event list) env" where
  "fixt_env = sample_env\<lparr>en_cfg := sample_cfg\<lparr>cfg_session_id := session_id_new ''FIXT.1.1'' ''SRV'' ''CLI'',
     cfg_default_appl_ver_id := Some ''FIX.5.0SP2''\<rparr>\<rparr>"

definition sample_reject :: reject_error where
  "sample_reject = \<lparr>rej_reason = ValueIsIncorrect, rej_ref_tag = Some 54, rej_text = None, rej_is_garbled = False\<rparr>"

definition fixt_offender :: message where
  "fixt_offender = set_header MSG_SEQ_NUM ''4'' (with_type ''D'')"

theorem session_messages_are_typed_witness:
  "resend_request_message fixt_env 4 9 = ResendRequest_inner (ResendRequest_new 4 0)
   \<and> reject_message fixt_env fixt_offender sample_reject = reverse_route fixt_offender
       (Reject_inner (typed_reject 4 (reject_text fixt_env sample_reject) (Some 54) ''D'' 5)) ''FIXT.1.1''
   \<and> same_up_to_order (logon_reply_message fixt_env online_session) (Logon_inner (Logon_new 0 30 ''9''))"
proof -
  have o: "seq_num fixt_offender = Inr 4" "msg_type fixt_offender = Inr ''D''"
    by (simp_all add: fixt_offender_def set_header_def with_type_def message_new_def seq_num_def msg_type_def get_string_def fm_get_def
        decode_u64_def decode_string_def utf8_ok_ascii byte_of_def bytes_simps)
  have c: "resend_end_field fixt_env 9 = 0" "as_secs (se_heart_bt_int online_session) = 30" "next_target fixt_env online_session = 1"
    "the_begin fixt_env = ''FIXT.1.1''" "cfg_default_appl_ver_id (en_cfg fixt_env) = Some ''FIX.5.0SP2''"
    by (simp_all add: fixt_env_def resend_end_field_def sample_cfg_def fix42_plus_def is_fixt_def session_id_new_def online_session_def
        attached_session_eq fresh_session_def session_spawn_def as_secs_def secs_def next_target_def memory_ops_def memory_store_new_def)
  have l: "typed_logon_reply fixt_env online_session ''FIX.5.0SP2'' = Logon_new 0 30 ''9''"
    by (simp add: typed_logon_reply_def logon_options_def c appl_ver_id_enum_def Let_def) (simp add: fixt_env_def sample_cfg_def)
  show ?thesis
    using session_messages_are_typed [of 4 fixt_env 9 "''bye''" "''FIX.5.0SP2''" online_session fixt_offender "''D''" m 1 sample_reject for m] o c l
    by (simp add: sample_reject_def Let_def)
qed

theorem typed_field_survives_the_wire_witness:
  "\<exists>m'. message_parse (to_bytes (outgoing sample_env fresh_session (typed_set (string_field 11) ''id'' (with_type ''D'')))) True = Ok m'
     \<and> get_field (string_field 11) (body m') = Inr ''id''"
proof -
  have "typed_set (string_field 11) ''id'' (with_type ''D'') = offline_order"
    by (simp add: typed_set_raw field_kinds encode_str_def offline_order_def)
  then have "message_wf (outgoing sample_env fresh_session (typed_set (string_field 11) ''id'' (with_type ''D'')))"
    using sample_offline_wf by (simp add: sample_offline_def)
  moreover have "utf8_ok ''id''" "distinct (map tv_tag (body (with_type ''D'')))"
    by (simp_all add: utf8_ok_ascii byte_of_def with_type_def message_new_def set_header_def)
  ultimately show ?thesis
    using typed_field_survives_the_wire [OF str.typed_field_axioms, of "''id''" "with_type ''D''" sample_env fresh_session 11 True "Text"]
    by blast
qed

definition sample_logon :: Logon where
  "sample_logon = Logon_msg (set_header 8 ''FIX.4.4'' (Logon_inner (Logon_new 0 30 ''9'')))"

definition sample_types :: "NoMsgTypes_group list" where
  "sample_types =
     [NoMsgTypes_set_msg_direction ''S'' (NoMsgTypes_set_ref_msg_type ''D'' NoMsgTypes_new),
      NoMsgTypes_set_ref_msg_type ''8'' NoMsgTypes_new]"

lemma sample_logon_fields:
  "header (Logon_inner sample_logon) = [tv 35 ''A'', tv 8 ''FIX.4.4'']"
  "body (Logon_inner sample_logon) = [tv 98 ''0'', tv 108 ''30'', tv 1137 ''9'']"
  "trailer (Logon_inner sample_logon) = []"
  by (simp_all add: sample_logon_def Logon_new_def typed_build set_body_def set_header_def with_type_def message_new_def
      encode_int_def bytes_simps)

lemma sample_types_fields:
  "map NoMsgTypes_fields sample_types = [[tv 372 ''D'', tv 385 ''S''], [tv 372 ''8'']]"
  by (simp add: sample_types_def NoMsgTypes_new_def NoMsgTypes_set_msg_direction_def NoMsgTypes_set_ref_msg_type_def set_field_def
      fixt11_markers field_kinds encode_str_def encode_char_def)

lemma sample_logon_wf: "message_wf (Logon_inner (Logon_set_no_msg_types sample_types sample_logon))"
proof -
  let ?m = "Logon_inner (Logon_set_no_msg_types sample_types sample_logon)"
  have b: "body ?m = [tv 98 ''0'', tv 108 ''30'', tv 1137 ''9'', tv 384 ''2'', tv 372 ''D'', tv 385 ''S'', tv 372 ''8'']"
    "header ?m = [tv 35 ''A'', tv 8 ''FIX.4.4'']" "trailer ?m = []"
    using sample_types_fields arg_cong [OF sample_types_fields, of length]
    by (simp_all add: Logon_set_no_msg_types_def sample_logon_fields write_groups_def no_msg_types_template_def encode_u64_def
        as_i64_def bytes_simps)
  have f: "wire_fields ?m = tv 35 ''A'' # body ?m"
    by (simp add: wire_fields_def b msg_type_field_def header_rest_def trailer_rest_def)
  show ?thesis
  proof (rule small_message_wf)
    show "wire_ok None (wire_fields ?m)" "length (write_to (wire_fields ?m)) < 2 ^ 20"
      unfolding f b by (simp_all add: small_wire)
  qed (simp_all add: b begin_string_of_def small_wire)
qed

theorem logon_group_round_trip_witness:
  "\<exists>l'. message_parse (to_bytes (Logon_inner (Logon_set_no_msg_types sample_types sample_logon))) True = Ok (Logon_inner l')
     \<and> Logon_no_msg_types l' = Inr sample_types \<and> Logon_heart_bt_int l' = Inr 30"
proof -
  have t: "Logon_from_message (Logon_inner sample_logon) = Inr sample_logon"
    by (simp add: Logon_from_message_def msg_type_def get_string_def fm_get_def sample_logon_fields decode_string_def utf8_ok_ascii
        byte_of_def fixt11_types)
  have n: "\<not> has_field NoMsgTypes (body (Logon_inner sample_logon))"
    by (simp add: has_field_def contains_iff sample_logon_fields NoMsgTypes_def)
  have st: "list_all started sample_types" by (simp add: sample_types_def started_sets)
  have h: "get_field HeartBtInt (body (Logon_inner sample_logon)) = Inr 30" "length sample_types < 2 ^ 63"
    by (simp_all add: get_field_def fm_get_def sample_logon_fields fixt11_markers field_kinds decode_i64_def bytes_simps sample_types_def)
  show ?thesis
    using logon_group_round_trip [OF t n st h(2) sample_logon_wf, of True HeartBtInt] h(1)
    by (auto simp: Logon_heart_bt_int_def fixt11_markers)
qed

end
