(* ===== verification/Fixt11_Dictionary.thy ===== *)
theory Fixt11_Dictionary
  imports Dictionary_Load
begin

text \<open>
  \<open>spec/FIXT11.xml\<close>, the dictionary \<open>src/fixt11\<close> was generated from, as the tree of elements the XML reader
  builds (the attributes of an element are a map: their order is immaterial), and the dictionary
  \<open>DataDictionary::parse\<close> makes of it.
\<close>

section \<open>The document\<close>

definition value_nodes :: "(bytes \<times> bytes) list \<Rightarrow> node list" where
  "value_nodes vs = map (\<lambda>(v, d). Node ''value'' [(''enum'', v), (''description'', d)] []) vs"

definition MsgType_values :: "(bytes \<times> bytes) list" where
  "MsgType_values =
     [(''0'', ''HEARTBEAT''), (''1'', ''TEST_REQUEST''), (''2'', ''RESEND_REQUEST''), (''3'', ''REJECT''),
      (''4'', ''SEQUENCE_RESET''), (''5'', ''LOGOUT''), (''6'', ''INDICATION_OF_INTEREST''),
      (''7'', ''ADVERTISEMENT''), (''8'', ''EXECUTION_REPORT''), (''9'', ''ORDER_CANCEL_REJECT''),
      (''A'', ''LOGON''), (''B'', ''NEWS''), (''C'', ''EMAIL''), (''D'', ''ORDER_SINGLE''),
      (''E'', ''ORDER_LIST''), (''F'', ''ORDER_CANCEL_REQUEST''), (''G'', ''ORDER_CANCEL_REPLACE_REQUEST''),
      (''H'', ''ORDER_STATUS_REQUEST''), (''J'', ''ALLOCATION_INSTRUCTION''), (''K'', ''LIST_CANCEL_REQUEST''),
      (''L'', ''LIST_EXECUTE''), (''M'', ''LIST_STATUS_REQUEST''), (''N'', ''LIST_STATUS''),
      (''P'', ''ALLOCATION_INSTRUCTION_ACK''), (''Q'', ''DONT_KNOW_TRADE''), (''R'', ''QUOTE_REQUEST''),
      (''S'', ''QUOTE''), (''T'', ''SETTLEMENT_INSTRUCTIONS''), (''V'', ''MARKET_DATA_REQUEST''),
      (''W'', ''MARKET_DATA_SNAPSHOT_FULL_REFRESH''), (''X'', ''MARKET_DATA_INCREMENTAL_REFRESH''),
      (''Y'', ''MARKET_DATA_REQUEST_REJECT''), (''Z'', ''QUOTE_CANCEL''), (''a'', ''QUOTE_STATUS_REQUEST''),
      (''b'', ''MASS_QUOTE_ACKNOWLEDGEMENT''), (''c'', ''SECURITY_DEFINITION_REQUEST''),
      (''d'', ''SECURITY_DEFINITION''), (''e'', ''SECURITY_STATUS_REQUEST''), (''f'', ''SECURITY_STATUS''),
      (''g'', ''TRADING_SESSION_STATUS_REQUEST''), (''h'', ''TRADING_SESSION_STATUS''), (''i'', ''MASS_QUOTE''),
      (''j'', ''BUSINESS_MESSAGE_REJECT''), (''k'', ''BID_REQUEST''), (''l'', ''BID_RESPONSE''),
      (''m'', ''LIST_STRIKE_PRICE''), (''n'', ''XML_MESSAGE''), (''o'', ''REGISTRATION_INSTRUCTIONS''),
      (''p'', ''REGISTRATION_INSTRUCTIONS_RESPONSE''), (''q'', ''ORDER_MASS_CANCEL_REQUEST''),
      (''r'', ''ORDER_MASS_CANCEL_REPORT''), (''s'', ''NEW_ORDER_CROSS''),
      (''t'', ''CROSS_ORDER_CANCEL_REPLACE_REQUEST''), (''u'', ''CROSS_ORDER_CANCEL_REQUEST''),
      (''v'', ''SECURITY_TYPE_REQUEST''), (''w'', ''SECURITY_TYPES''), (''x'', ''SECURITY_LIST_REQUEST''),
      (''y'', ''SECURITY_LIST''), (''z'', ''DERIVATIVE_SECURITY_LIST_REQUEST''),
      (''AA'', ''DERIVATIVE_SECURITY_LIST''), (''AB'', ''NEW_ORDER_MULTILEG''),
      (''AC'', ''MULTILEG_ORDER_CANCEL_REPLACE''), (''AD'', ''TRADE_CAPTURE_REPORT_REQUEST''),
      (''AE'', ''TRADE_CAPTURE_REPORT''), (''AF'', ''ORDER_MASS_STATUS_REQUEST''),
      (''AG'', ''QUOTE_REQUEST_REJECT''), (''AH'', ''RFQ_REQUEST''), (''AI'', ''QUOTE_STATUS_REPORT''),
      (''AJ'', ''QUOTE_RESPONSE''), (''AK'', ''CONFIRMATION''), (''AL'', ''POSITION_MAINTENANCE_REQUEST''),
      (''AM'', ''POSITION_MAINTENANCE_REPORT''), (''AN'', ''REQUEST_FOR_POSITIONS''),
      (''AO'', ''REQUEST_FOR_POSITIONS_ACK''), (''AP'', ''POSITION_REPORT''),
      (''AQ'', ''TRADE_CAPTURE_REPORT_REQUEST_ACK''), (''AR'', ''TRADE_CAPTURE_REPORT_ACK''),
      (''AS'', ''ALLOCATION_REPORT''), (''AT'', ''ALLOCATION_REPORT_ACK''), (''AU'', ''CONFIRMATION_ACK''),
      (''AV'', ''SETTLEMENT_INSTRUCTION_REQUEST''), (''AW'', ''ASSIGNMENT_REPORT''),
      (''AX'', ''COLLATERAL_REQUEST''), (''AY'', ''COLLATERAL_ASSIGNMENT''), (''AZ'', ''COLLATERAL_RESPONSE''),
      (''BA'', ''COLLATERAL_REPORT''), (''BB'', ''COLLATERAL_INQUIRY''), (''BC'', ''NETWORK_STATUS_REQUEST''),
      (''BD'', ''NETWORK_STATUS_RESPONSE''), (''BE'', ''USER_REQUEST''), (''BF'', ''USER_RESPONSE''),
      (''BG'', ''COLLATERAL_INQUIRY_ACK''), (''BH'', ''CONFIRMATION_REQUEST''),
      (''BI'', ''TRADING_SESSION_LIST_REQUEST''), (''BJ'', ''TRADING_SESSION_LIST''),
      (''BK'', ''SECURITY_LIST_UPDATE_REPORT''), (''BL'', ''ADJUSTED_POSITION_REPORT''),
      (''BM'', ''ALLOCATION_INSTRUCTION_ALERT''), (''BN'', ''EXECUTION_ACKNOWLEDGEMENT''),
      (''BO'', ''CONTRARY_INTENTION_REPORT''), (''BP'', ''SECURITY_DEFINITION_UPDATE_REPORT'')]"

definition EncryptMethod_values :: "(bytes \<times> bytes) list" where
  "EncryptMethod_values =
     [(''0'', ''NONE_OTHER''), (''1'', ''PKCS''), (''2'', ''DES''), (''3'', ''PKCS_DES''), (''4'', ''PGP_DES''),
      (''5'', ''PGP_DES_MD5''), (''6'', ''PEM_DES_MD5'')]"

definition MessageEncoding_values :: "(bytes \<times> bytes) list" where
  "MessageEncoding_values =
     [(''ISO-2022-JP'', ''ISO_2022_JP''), (''EUC-JP'', ''EUC_JP''), (''SHIFT_JIS'', ''SHIFT_JIS''),
      (''UTF-8'', ''UTF_8'')]"

definition SessionRejectReason_values :: "(bytes \<times> bytes) list" where
  "SessionRejectReason_values =
     [(''0'', ''INVALID_TAG_NUMBER''), (''1'', ''REQUIRED_TAG_MISSING''),
      (''10'', ''SENDINGTIME_ACCURACY_PROBLEM''), (''11'', ''INVALID_MSGTYPE''),
      (''12'', ''XML_VALIDATION_ERROR''), (''13'', ''TAG_APPEARS_MORE_THAN_ONCE''),
      (''14'', ''TAG_SPECIFIED_OUT_OF_REQUIRED_ORDER''), (''15'', ''REPEATING_GROUP_FIELDS_OUT_OF_ORDER''),
      (''16'', ''INCORRECT_NUMINGROUP_COUNT_FOR_REPEATING_GROUP''),
      (''17'', ''NON_DATA_VALUE_INCLUDES_FIELD_DELIMITER''), (''2'', ''TAG_NOT_DEFINED_FOR_THIS_MESSAGE_TYPE''),
      (''3'', ''UNDEFINED_TAG''), (''4'', ''TAG_SPECIFIED_WITHOUT_A_VALUE''), (''5'', ''VALUE_IS_INCORRECT''),
      (''6'', ''INCORRECT_DATA_FORMAT_FOR_VALUE''), (''7'', ''DECRYPTION_PROBLEM''),
      (''8'', ''SIGNATURE_PROBLEM''), (''9'', ''COMPID_PROBLEM''), (''99'', ''OTHER'')]"

definition MsgDirection_values :: "(bytes \<times> bytes) list" where
  "MsgDirection_values =
     [(''R'', ''RECEIVE''), (''S'', ''SEND'')]"

definition ApplVerID_values :: "(bytes \<times> bytes) list" where
  "ApplVerID_values =
     [(''0'', ''FIX27''), (''1'', ''FIX30''), (''2'', ''FIX40''), (''3'', ''FIX41''), (''4'', ''FIX42''),
      (''5'', ''FIX43''), (''6'', ''FIX44''), (''7'', ''FIX50''), (''8'', ''FIX50SP1''), (''9'', ''FIX50SP2'')]"

definition spec_header :: node where
  "spec_header =
     Node ''header'' [] [
       Node ''field'' [(''name'', ''BeginString''), (''required'', ''Y'')] [],
       Node ''field'' [(''name'', ''BodyLength''), (''required'', ''Y'')] [],
       Node ''field'' [(''name'', ''MsgType''), (''required'', ''Y'')] [],
       Node ''field'' [(''name'', ''SenderCompID''), (''required'', ''Y'')] [],
       Node ''field'' [(''name'', ''TargetCompID''), (''required'', ''Y'')] [],
       Node ''field'' [(''name'', ''OnBehalfOfCompID''), (''required'', ''N'')] [],
       Node ''field'' [(''name'', ''DeliverToCompID''), (''required'', ''N'')] [],
       Node ''field'' [(''name'', ''SecureDataLen''), (''required'', ''N'')] [],
       Node ''field'' [(''name'', ''SecureData''), (''required'', ''N'')] [],
       Node ''field'' [(''name'', ''MsgSeqNum''), (''required'', ''Y'')] [],
       Node ''field'' [(''name'', ''SenderSubID''), (''required'', ''N'')] [],
       Node ''field'' [(''name'', ''SenderLocationID''), (''required'', ''N'')] [],
       Node ''field'' [(''name'', ''TargetSubID''), (''required'', ''N'')] [],
       Node ''field'' [(''name'', ''TargetLocationID''), (''required'', ''N'')] [],
       Node ''field'' [(''name'', ''OnBehalfOfSubID''), (''required'', ''N'')] [],
       Node ''field'' [(''name'', ''OnBehalfOfLocationID''), (''required'', ''N'')] [],
       Node ''field'' [(''name'', ''DeliverToSubID''), (''required'', ''N'')] [],
       Node ''field'' [(''name'', ''DeliverToLocationID''), (''required'', ''N'')] [],
       Node ''field'' [(''name'', ''PossDupFlag''), (''required'', ''N'')] [],
       Node ''field'' [(''name'', ''PossResend''), (''required'', ''N'')] [],
       Node ''field'' [(''name'', ''SendingTime''), (''required'', ''Y'')] [],
       Node ''field'' [(''name'', ''OrigSendingTime''), (''required'', ''N'')] [],
       Node ''field'' [(''name'', ''XmlDataLen''), (''required'', ''N'')] [],
       Node ''field'' [(''name'', ''XmlData''), (''required'', ''N'')] [],
       Node ''field'' [(''name'', ''MessageEncoding''), (''required'', ''N'')] [],
       Node ''field'' [(''name'', ''LastMsgSeqNumProcessed''), (''required'', ''N'')] [],
       Node ''component'' [(''name'', ''HopGrp''), (''required'', ''N'')] [],
       Node ''field'' [(''name'', ''ApplVerID''), (''required'', ''N'')] [],
       Node ''field'' [(''name'', ''CstmApplVerID''), (''required'', ''N'')] []]"

definition spec_trailer :: node where
  "spec_trailer =
     Node ''trailer'' [] [
       Node ''field'' [(''name'', ''SignatureLength''), (''required'', ''N'')] [],
       Node ''field'' [(''name'', ''Signature''), (''required'', ''N'')] [],
       Node ''field'' [(''name'', ''CheckSum''), (''required'', ''Y'')] []]"

definition spec_messages :: node where
  "spec_messages =
     Node ''messages'' [] [
       Node ''message'' [(''msgcat'', ''admin''), (''msgtype'', ''0''), (''name'', ''Heartbeat'')] [
         Node ''field'' [(''name'', ''TestReqID''), (''required'', ''N'')] []],
       Node ''message'' [(''msgcat'', ''admin''), (''msgtype'', ''1''), (''name'', ''TestRequest'')] [
         Node ''field'' [(''name'', ''TestReqID''), (''required'', ''Y'')] []],
       Node ''message'' [(''msgcat'', ''admin''), (''msgtype'', ''2''), (''name'', ''ResendRequest'')] [
         Node ''field'' [(''name'', ''BeginSeqNo''), (''required'', ''Y'')] [],
         Node ''field'' [(''name'', ''EndSeqNo''), (''required'', ''Y'')] []],
       Node ''message'' [(''msgcat'', ''admin''), (''msgtype'', ''3''), (''name'', ''Reject'')] [
         Node ''field'' [(''name'', ''RefSeqNum''), (''required'', ''Y'')] [],
         Node ''field'' [(''name'', ''RefTagID''), (''required'', ''N'')] [],
         Node ''field'' [(''name'', ''RefMsgType''), (''required'', ''N'')] [],
         Node ''field'' [(''name'', ''SessionRejectReason''), (''required'', ''N'')] [],
         Node ''field'' [(''name'', ''Text''), (''required'', ''N'')] [],
         Node ''field'' [(''name'', ''EncodedTextLen''), (''required'', ''N'')] [],
         Node ''field'' [(''name'', ''EncodedText''), (''required'', ''N'')] []],
       Node ''message'' [(''msgcat'', ''admin''), (''msgtype'', ''4''), (''name'', ''SequenceReset'')] [
         Node ''field'' [(''name'', ''GapFillFlag''), (''required'', ''N'')] [],
         Node ''field'' [(''name'', ''NewSeqNo''), (''required'', ''Y'')] []],
       Node ''message'' [(''msgcat'', ''admin''), (''msgtype'', ''5''), (''name'', ''Logout'')] [
         Node ''field'' [(''name'', ''Text''), (''required'', ''N'')] [],
         Node ''field'' [(''name'', ''EncodedTextLen''), (''required'', ''N'')] [],
         Node ''field'' [(''name'', ''EncodedText''), (''required'', ''N'')] []],
       Node ''message'' [(''msgcat'', ''admin''), (''msgtype'', ''A''), (''name'', ''Logon'')] [
         Node ''field'' [(''name'', ''EncryptMethod''), (''required'', ''Y'')] [],
         Node ''field'' [(''name'', ''HeartBtInt''), (''required'', ''Y'')] [],
         Node ''field'' [(''name'', ''RawDataLength''), (''required'', ''N'')] [],
         Node ''field'' [(''name'', ''RawData''), (''required'', ''N'')] [],
         Node ''field'' [(''name'', ''ResetSeqNumFlag''), (''required'', ''N'')] [],
         Node ''field'' [(''name'', ''NextExpectedMsgSeqNum''), (''required'', ''N'')] [],
         Node ''field'' [(''name'', ''MaxMessageSize''), (''required'', ''N'')] [],
         Node ''field'' [(''name'', ''TestMessageIndicator''), (''required'', ''N'')] [],
         Node ''field'' [(''name'', ''Username''), (''required'', ''N'')] [],
         Node ''field'' [(''name'', ''Password''), (''required'', ''N'')] [],
         Node ''field'' [(''name'', ''DefaultApplVerID''), (''required'', ''Y'')] [],
         Node ''component'' [(''name'', ''MsgTypeGrp''), (''required'', ''N'')] []]]"

definition spec_components :: node where
  "spec_components =
     Node ''components'' [] [
       Node ''component'' [(''name'', ''HopGrp'')] [
         Node ''group'' [(''name'', ''NoHops''), (''required'', ''N'')] [
           Node ''field'' [(''name'', ''HopCompID''), (''required'', ''N'')] [],
           Node ''field'' [(''name'', ''HopSendingTime''), (''required'', ''N'')] [],
           Node ''field'' [(''name'', ''HopRefID''), (''required'', ''N'')] []]],
       Node ''component'' [(''name'', ''MsgTypeGrp'')] [
         Node ''group'' [(''name'', ''NoMsgTypes''), (''required'', ''N'')] [
           Node ''field'' [(''name'', ''RefMsgType''), (''required'', ''N'')] [],
           Node ''field'' [(''name'', ''MsgDirection''), (''required'', ''N'')] [],
           Node ''field'' [(''name'', ''RefApplVerID''), (''required'', ''N'')] [],
           Node ''field'' [(''name'', ''RefCstmApplVerID''), (''required'', ''N'')] []]]]"

definition spec_fields :: node where
  "spec_fields =
     Node ''fields'' [] [
       Node ''field'' [(''name'', ''BeginSeqNo''), (''number'', ''7''), (''type'', ''SEQNUM'')] [],
       Node ''field'' [(''name'', ''BeginString''), (''number'', ''8''), (''type'', ''STRING'')] [],
       Node ''field'' [(''name'', ''BodyLength''), (''number'', ''9''), (''type'', ''LENGTH'')] [],
       Node ''field'' [(''name'', ''CheckSum''), (''number'', ''10''), (''type'', ''STRING'')] [],
       Node ''field'' [(''name'', ''EndSeqNo''), (''number'', ''16''), (''type'', ''SEQNUM'')] [],
       Node ''field'' [(''name'', ''MsgSeqNum''), (''number'', ''34''), (''type'', ''SEQNUM'')] [],
       Node ''field'' [(''name'', ''MsgType''), (''number'', ''35''), (''type'', ''STRING'')] (value_nodes MsgType_values),
       Node ''field'' [(''name'', ''NewSeqNo''), (''number'', ''36''), (''type'', ''SEQNUM'')] [],
       Node ''field'' [(''name'', ''PossDupFlag''), (''number'', ''43''), (''type'', ''BOOLEAN'')] [],
       Node ''field'' [(''name'', ''RefSeqNum''), (''number'', ''45''), (''type'', ''SEQNUM'')] [],
       Node ''field'' [(''name'', ''SenderCompID''), (''number'', ''49''), (''type'', ''STRING'')] [],
       Node ''field'' [(''name'', ''SenderSubID''), (''number'', ''50''), (''type'', ''STRING'')] [],
       Node ''field'' [(''name'', ''SendingTime''), (''number'', ''52''), (''type'', ''UTCTIMESTAMP'')] [],
       Node ''field'' [(''name'', ''TargetCompID''), (''number'', ''56''), (''type'', ''STRING'')] [],
       Node ''field'' [(''name'', ''TargetSubID''), (''number'', ''57''), (''type'', ''STRING'')] [],
       Node ''field'' [(''name'', ''Text''), (''number'', ''58''), (''type'', ''STRING'')] [],
       Node ''field'' [(''name'', ''Signature''), (''number'', ''89''), (''type'', ''DATA'')] [],
       Node ''field'' [(''name'', ''SecureDataLen''), (''number'', ''90''), (''type'', ''LENGTH'')] [],
       Node ''field'' [(''name'', ''SecureData''), (''number'', ''91''), (''type'', ''DATA'')] [],
       Node ''field'' [(''name'', ''SignatureLength''), (''number'', ''93''), (''type'', ''LENGTH'')] [],
       Node ''field'' [(''name'', ''RawDataLength''), (''number'', ''95''), (''type'', ''LENGTH'')] [],
       Node ''field'' [(''name'', ''RawData''), (''number'', ''96''), (''type'', ''DATA'')] [],
       Node ''field'' [(''name'', ''PossResend''), (''number'', ''97''), (''type'', ''BOOLEAN'')] [],
       Node ''field'' [(''name'', ''EncryptMethod''), (''number'', ''98''), (''type'', ''INT'')] (value_nodes EncryptMethod_values),
       Node ''field'' [(''name'', ''HeartBtInt''), (''number'', ''108''), (''type'', ''INT'')] [],
       Node ''field'' [(''name'', ''TestReqID''), (''number'', ''112''), (''type'', ''STRING'')] [],
       Node ''field'' [(''name'', ''OnBehalfOfCompID''), (''number'', ''115''), (''type'', ''STRING'')] [],
       Node ''field'' [(''name'', ''OnBehalfOfSubID''), (''number'', ''116''), (''type'', ''STRING'')] [],
       Node ''field'' [(''name'', ''OrigSendingTime''), (''number'', ''122''), (''type'', ''UTCTIMESTAMP'')] [],
       Node ''field'' [(''name'', ''GapFillFlag''), (''number'', ''123''), (''type'', ''BOOLEAN'')] [],
       Node ''field'' [(''name'', ''DeliverToCompID''), (''number'', ''128''), (''type'', ''STRING'')] [],
       Node ''field'' [(''name'', ''DeliverToSubID''), (''number'', ''129''), (''type'', ''STRING'')] [],
       Node ''field'' [(''name'', ''ResetSeqNumFlag''), (''number'', ''141''), (''type'', ''BOOLEAN'')] [],
       Node ''field'' [(''name'', ''SenderLocationID''), (''number'', ''142''), (''type'', ''STRING'')] [],
       Node ''field'' [(''name'', ''TargetLocationID''), (''number'', ''143''), (''type'', ''STRING'')] [],
       Node ''field'' [(''name'', ''OnBehalfOfLocationID''), (''number'', ''144''), (''type'', ''STRING'')] [],
       Node ''field'' [(''name'', ''DeliverToLocationID''), (''number'', ''145''), (''type'', ''STRING'')] [],
       Node ''field'' [(''name'', ''XmlDataLen''), (''number'', ''212''), (''type'', ''LENGTH'')] [],
       Node ''field'' [(''name'', ''XmlData''), (''number'', ''213''), (''type'', ''DATA'')] [],
       Node ''field'' [(''name'', ''MessageEncoding''), (''number'', ''347''), (''type'', ''STRING'')] (value_nodes MessageEncoding_values),
       Node ''field'' [(''name'', ''EncodedTextLen''), (''number'', ''354''), (''type'', ''LENGTH'')] [],
       Node ''field'' [(''name'', ''EncodedText''), (''number'', ''355''), (''type'', ''DATA'')] [],
       Node ''field'' [(''name'', ''LastMsgSeqNumProcessed''), (''number'', ''369''), (''type'', ''SEQNUM'')] [],
       Node ''field'' [(''name'', ''RefTagID''), (''number'', ''371''), (''type'', ''INT'')] [],
       Node ''field'' [(''name'', ''RefMsgType''), (''number'', ''372''), (''type'', ''STRING'')] [],
       Node ''field'' [(''name'', ''SessionRejectReason''), (''number'', ''373''), (''type'', ''INT'')] (value_nodes SessionRejectReason_values),
       Node ''field'' [(''name'', ''MaxMessageSize''), (''number'', ''383''), (''type'', ''LENGTH'')] [],
       Node ''field'' [(''name'', ''NoMsgTypes''), (''number'', ''384''), (''type'', ''NUMINGROUP'')] [],
       Node ''field'' [(''name'', ''MsgDirection''), (''number'', ''385''), (''type'', ''CHAR'')] (value_nodes MsgDirection_values),
       Node ''field'' [(''name'', ''TestMessageIndicator''), (''number'', ''464''), (''type'', ''BOOLEAN'')] [],
       Node ''field'' [(''name'', ''Username''), (''number'', ''553''), (''type'', ''STRING'')] [],
       Node ''field'' [(''name'', ''Password''), (''number'', ''554''), (''type'', ''STRING'')] [],
       Node ''field'' [(''name'', ''NoHops''), (''number'', ''627''), (''type'', ''NUMINGROUP'')] [],
       Node ''field'' [(''name'', ''HopCompID''), (''number'', ''628''), (''type'', ''STRING'')] [],
       Node ''field'' [(''name'', ''HopSendingTime''), (''number'', ''629''), (''type'', ''UTCTIMESTAMP'')] [],
       Node ''field'' [(''name'', ''HopRefID''), (''number'', ''630''), (''type'', ''SEQNUM'')] [],
       Node ''field'' [(''name'', ''NextExpectedMsgSeqNum''), (''number'', ''789''), (''type'', ''SEQNUM'')] [],
       Node ''field'' [(''name'', ''ApplVerID''), (''number'', ''1128''), (''type'', ''STRING'')] (value_nodes ApplVerID_values),
       Node ''field'' [(''name'', ''CstmApplVerID''), (''number'', ''1129''), (''type'', ''STRING'')] [],
       Node ''field'' [(''name'', ''RefApplVerID''), (''number'', ''1130''), (''type'', ''STRING'')] [],
       Node ''field'' [(''name'', ''RefCstmApplVerID''), (''number'', ''1131''), (''type'', ''STRING'')] [],
       Node ''field'' [(''name'', ''DefaultApplVerID''), (''number'', ''1137''), (''type'', ''STRING'')] []]"

definition fixt11_spec :: node where
  "fixt11_spec =
     Node ''fix'' [(''type'', ''FIXT''), (''major'', ''1''), (''minor'', ''1''), (''servicepack'', ''0'')]
       [spec_header, spec_trailer, spec_messages, spec_components, spec_fields]"

section \<open>The dictionary\<close>

definition field_entry :: "tag \<Rightarrow> bytes \<Rightarrow> field_type \<Rightarrow> (bytes \<times> bytes) list \<Rightarrow> field_def" where
  "field_entry t n ft vs =
     \<lparr>fd_tag = t, fd_name = n, fd_type = ft, fd_values = map fst vs, fd_enum_values = vs\<rparr>"

definition fixt11_fields :: "field_def list" where
  "fixt11_fields =
     [field_entry 7 ''BeginSeqNo'' FtSeqNum [], field_entry 8 ''BeginString'' FtString [],
      field_entry 9 ''BodyLength'' FtLength [], field_entry 10 ''CheckSum'' FtString [],
      field_entry 16 ''EndSeqNo'' FtSeqNum [], field_entry 34 ''MsgSeqNum'' FtSeqNum [],
      field_entry 35 ''MsgType'' FtString MsgType_values, field_entry 36 ''NewSeqNo'' FtSeqNum [],
      field_entry 43 ''PossDupFlag'' FtBoolean [], field_entry 45 ''RefSeqNum'' FtSeqNum [],
      field_entry 49 ''SenderCompID'' FtString [], field_entry 50 ''SenderSubID'' FtString [],
      field_entry 52 ''SendingTime'' FtUtcTimestamp [], field_entry 56 ''TargetCompID'' FtString [],
      field_entry 57 ''TargetSubID'' FtString [], field_entry 58 ''Text'' FtString [],
      field_entry 89 ''Signature'' FtData [], field_entry 90 ''SecureDataLen'' FtLength [],
      field_entry 91 ''SecureData'' FtData [], field_entry 93 ''SignatureLength'' FtLength [],
      field_entry 95 ''RawDataLength'' FtLength [], field_entry 96 ''RawData'' FtData [],
      field_entry 97 ''PossResend'' FtBoolean [], field_entry 98 ''EncryptMethod'' FtInt EncryptMethod_values,
      field_entry 108 ''HeartBtInt'' FtInt [], field_entry 112 ''TestReqID'' FtString [],
      field_entry 115 ''OnBehalfOfCompID'' FtString [], field_entry 116 ''OnBehalfOfSubID'' FtString [],
      field_entry 122 ''OrigSendingTime'' FtUtcTimestamp [], field_entry 123 ''GapFillFlag'' FtBoolean [],
      field_entry 128 ''DeliverToCompID'' FtString [], field_entry 129 ''DeliverToSubID'' FtString [],
      field_entry 141 ''ResetSeqNumFlag'' FtBoolean [], field_entry 142 ''SenderLocationID'' FtString [],
      field_entry 143 ''TargetLocationID'' FtString [], field_entry 144 ''OnBehalfOfLocationID'' FtString [],
      field_entry 145 ''DeliverToLocationID'' FtString [], field_entry 212 ''XmlDataLen'' FtLength [],
      field_entry 213 ''XmlData'' FtData [],
      field_entry 347 ''MessageEncoding'' FtString MessageEncoding_values,
      field_entry 354 ''EncodedTextLen'' FtLength [], field_entry 355 ''EncodedText'' FtData [],
      field_entry 369 ''LastMsgSeqNumProcessed'' FtSeqNum [], field_entry 371 ''RefTagID'' FtInt [],
      field_entry 372 ''RefMsgType'' FtString [],
      field_entry 373 ''SessionRejectReason'' FtInt SessionRejectReason_values,
      field_entry 383 ''MaxMessageSize'' FtLength [], field_entry 384 ''NoMsgTypes'' FtNumInGroup [],
      field_entry 385 ''MsgDirection'' FtChar MsgDirection_values,
      field_entry 464 ''TestMessageIndicator'' FtBoolean [], field_entry 553 ''Username'' FtString [],
      field_entry 554 ''Password'' FtString [], field_entry 627 ''NoHops'' FtNumInGroup [],
      field_entry 628 ''HopCompID'' FtString [], field_entry 629 ''HopSendingTime'' FtUtcTimestamp [],
      field_entry 630 ''HopRefID'' FtSeqNum [], field_entry 789 ''NextExpectedMsgSeqNum'' FtSeqNum [],
      field_entry 1128 ''ApplVerID'' FtString ApplVerID_values, field_entry 1129 ''CstmApplVerID'' FtString [],
      field_entry 1130 ''RefApplVerID'' FtString [], field_entry 1131 ''RefCstmApplVerID'' FtString [],
      field_entry 1137 ''DefaultApplVerID'' FtString []]"

definition msg_type_group :: group_def where
  "msg_type_group = GroupDef 384 372 [372, 385, 1130, 1131] [] [] [372, 385, 1130, 1131]"

definition Heartbeat_entry :: message_def where
  "Heartbeat_entry =
     \<lparr>md_name = ''Heartbeat'', md_msg_type = ''0'', md_tags = [112],
        md_required = [], md_groups = [],
        md_field_order = [112]\<rparr>"

definition TestRequest_entry :: message_def where
  "TestRequest_entry =
     \<lparr>md_name = ''TestRequest'', md_msg_type = ''1'', md_tags = [112],
        md_required = [112], md_groups = [],
        md_field_order = [112]\<rparr>"

definition ResendRequest_entry :: message_def where
  "ResendRequest_entry =
     \<lparr>md_name = ''ResendRequest'', md_msg_type = ''2'', md_tags = [7, 16],
        md_required = [7, 16], md_groups = [],
        md_field_order = [7, 16]\<rparr>"

definition Reject_entry :: message_def where
  "Reject_entry =
     \<lparr>md_name = ''Reject'', md_msg_type = ''3'', md_tags = [45, 371, 372, 373, 58, 354, 355],
        md_required = [45], md_groups = [],
        md_field_order = [45, 371, 372, 373, 58, 354, 355]\<rparr>"

definition SequenceReset_entry :: message_def where
  "SequenceReset_entry =
     \<lparr>md_name = ''SequenceReset'', md_msg_type = ''4'', md_tags = [123, 36],
        md_required = [36], md_groups = [],
        md_field_order = [123, 36]\<rparr>"

definition Logout_entry :: message_def where
  "Logout_entry =
     \<lparr>md_name = ''Logout'', md_msg_type = ''5'', md_tags = [58, 354, 355],
        md_required = [], md_groups = [],
        md_field_order = [58, 354, 355]\<rparr>"

definition Logon_entry :: message_def where
  "Logon_entry =
     \<lparr>md_name = ''Logon'', md_msg_type = ''A'', md_tags = [98, 108, 95, 96, 141, 789, 383, 464, 553, 554, 1137, 384, 372, 385, 1130, 1131],
        md_required = [98, 108, 1137], md_groups = [(384, msg_type_group)],
        md_field_order = [98, 108, 95, 96, 141, 789, 383, 464, 553, 554, 1137, 384]\<rparr>"

definition fixt11_dictionary :: data_dictionary where
  "fixt11_dictionary =
     \<lparr>dd_begin_string = ''FIXT.1.1'',
      dd_fields_by_tag = rev (map (\<lambda>f. (fd_tag f, f)) fixt11_fields),
      dd_tags_by_name = rev (map (\<lambda>f. (fd_name f, fd_tag f)) fixt11_fields),
      dd_header_tags = [8, 9, 35, 49, 56, 115, 128, 90, 91, 34, 50, 142, 57, 143, 116, 144, 129, 145, 43, 97, 52, 122, 212,
         213, 347, 369, 627, 628, 629, 630, 1128, 1129],
      dd_header_required = [8, 9, 35, 49, 56, 34, 52], dd_trailer_tags = [93, 89, 10], dd_trailer_required = [10],
      dd_messages =
        [(''A'', Logon_entry), (''5'', Logout_entry), (''4'', SequenceReset_entry), (''3'', Reject_entry),
         (''2'', ResendRequest_entry), (''1'', TestRequest_entry), (''0'', Heartbeat_entry)]\<rparr>"

section \<open>Loading the document gives the dictionary\<close>

lemma value_nodes_values:
  "List.map_filter (\<lambda>c. case map_of (nd_attrs c) ''enum'' of
     None \<Rightarrow> None | Some v \<Rightarrow> Some (v, attr_or_empty c ''description'')) (filter (\<lambda>c. nd_name c = ''value'') (value_nodes vs)) = vs"
  unfolding value_nodes_def by (induction vs) (auto simp: attr_or_empty_def List.map_filter_simps)

lemma read_field_entry:
  assumes "parse_i32 k \<noteq> None"
  shows "read_field False (Node ''field'' [(''name'', n), (''number'', k), (''type'', ty)] (value_nodes vs))
    = Ok (field_entry (the (parse_i32 k)) n (field_type_from_name ty) vs)"
  using assms unfolding read_field_def
  by (auto simp: value_nodes_values attr_or_empty_def field_entry_def)

lemmas read_field_plain = read_field_entry [where vs = "[]", unfolded value_nodes_def, simplified]

text \<open>Fields with distinct names and tags are all kept, the last one first.\<close>

lemma hm_insert_fresh: "k \<notin> fst ` set m \<Longrightarrow> hm_insert k v m = (k, v) # m"
  unfolding hm_insert_def by (auto simp: image_iff intro!: filter_True)

lemma load_fields_distinct:
  assumes "map (read_field cis) fs = map Ok fds"
    and "distinct (map fd_tag fds)" and "fd_tag ` set fds \<inter> fst ` set (dd_fields_by_tag dd) = {}"
    and "distinct (map fd_name fds)" and "fd_name ` set fds \<inter> fst ` set (dd_tags_by_name dd) = {}"
  shows "load_fields cis fs dd = Ok (dd\<lparr>
      dd_fields_by_tag := rev (map (\<lambda>f. (fd_tag f, f)) fds) @ dd_fields_by_tag dd,
      dd_tags_by_name := rev (map (\<lambda>f. (fd_name f, fd_tag f)) fds) @ dd_tags_by_name dd\<rparr>)"
  using assms
proof (induction fs arbitrary: fds dd)
  case (Cons f fs)
  then obtain fd fds' where fds: "fds = fd # fds'" "read_field cis f = Ok fd" "map (read_field cis) fs = map Ok fds'"
    by (cases fds) auto
  have "fd_tag fd \<notin> fst ` set (dd_fields_by_tag dd)" "fd_name fd \<notin> fst ` set (dd_tags_by_name dd)"
    using Cons.prems(3,5) fds(1) by auto
  note fresh = this [THEN hm_insert_fresh]
  define dd' where "dd' = dd\<lparr>dd_tags_by_name := (fd_name fd, fd_tag fd) # dd_tags_by_name dd,
    dd_fields_by_tag := (fd_tag fd, fd) # dd_fields_by_tag dd\<rparr>"
  have "load_fields cis fs dd' = Ok (dd'\<lparr>
      dd_fields_by_tag := rev (map (\<lambda>f. (fd_tag f, f)) fds') @ dd_fields_by_tag dd',
      dd_tags_by_name := rev (map (\<lambda>f. (fd_name f, fd_tag f)) fds') @ dd_tags_by_name dd'\<rparr>)"
    by (rule Cons.IH [OF fds(3)]) (use Cons.prems(2-5) fds(1) in \<open>auto simp: dd'_def\<close>)
  then show ?case by (simp add: fds(1,2) fresh dd'_def)
qed simp

lemma field_entry_simps [simp]:
  "fd_tag (field_entry t n ft vs) = t" "fd_name (field_entry t n ft vs) = n" "fd_type (field_entry t n ft vs) = ft"
  "fd_enum_values (field_entry t n ft vs) = vs" "fd_values (field_entry t n ft vs) = map fst vs"
  by (simp_all add: field_entry_def)

lemma fixt11_tags_distinct: "distinct (map fd_tag fixt11_fields)"
  by (simp add: fixt11_fields_def)

lemma fixt11_names_distinct: "distinct (map fd_name fixt11_fields)"
  by (simp add: fixt11_fields_def)

lemmas number_eval = parse_i32_def parse_signed_def strip_plus_def is_digit_def digit_val_def byte_of_def

lemma fixt11_field_nodes: "map (read_field False) (nd_children spec_fields) = map Ok fixt11_fields"
  unfolding spec_fields_def fixt11_fields_def
  by (simp add: read_field_plain read_field_entry field_type_from_name_def number_eval)

text \<open>Every name the document uses is a field of it.\<close>

lemma fixt11_lookup_all:
  "list_all (\<lambda>f. lookup_tag (dd_tags_by_name fixt11_dictionary) what (fd_name f) = Ok (fd_tag f)) fixt11_fields"
proof -
  have "map_of (dd_tags_by_name fixt11_dictionary) (fd_name f) = Some (fd_tag f)" if "f \<in> set fixt11_fields" for f
    using that fixt11_names_distinct
    by (intro map_of_is_SomeI) (auto simp: fixt11_dictionary_def rev_map [symmetric] comp_def)
  then show ?thesis by (auto simp: list_all_iff lookup_tag_def)
qed

lemmas fixt11_lookup = fixt11_lookup_all [unfolded fixt11_fields_def, simplified]

lemma fixt11_components:
  "lookup_component (load_components fixt11_spec) ''HopGrp''
    = Ok (hd (nd_children spec_components))"
  "lookup_component (load_components fixt11_spec) ''MsgTypeGrp''
    = Ok (nd_children spec_components ! 1)"
  by (simp_all add: lookup_component_def load_components_def elements_def child_def fixt11_spec_def spec_header_def
      spec_trailer_def spec_messages_def spec_components_def hm_insert_def)

lemmas collect_eval =
  collect.simps collect_group.simps attr_or_empty_def is_required_def fixt11_lookup fixt11_components
  message_field_def message_group_def empty_message_def empty_group_def group_field_def close_group_def
  hs_insert_def hs_extend_def push_if_def hm_insert_def msg_type_group_def

lemma collect_header:
  "collect (Suc (Suc d)) (dd_tags_by_name fixt11_dictionary) (load_components fixt11_spec) (nd_children spec_header) empty_message
    = Some (Ok \<lparr>ma_tags = [8, 9, 35, 49, 56, 115, 128, 90, 91, 34, 50, 142, 57, 143, 116, 144, 129, 145, 43, 97, 52, 122, 212, 213, 347, 369, 627, 628, 629, 630, 1128, 1129], ma_required = [8, 9, 35, 49, 56, 34, 52], ma_groups = [(627, GroupDef 627 628 [628, 629, 630] [] [] [628, 629, 630])], ma_order = [8, 9, 35, 49, 56, 115, 128, 90, 91, 34, 50, 142, 57, 143, 116, 144, 129, 145, 43, 97, 52, 122, 212, 213, 347, 369, 627, 1128, 1129]\<rparr>)"
  by (simp add: spec_header_def spec_components_def collect_eval)

lemma collect_trailer:
  "collect (Suc (Suc d)) (dd_tags_by_name fixt11_dictionary) (load_components fixt11_spec) (nd_children spec_trailer) empty_message
    = Some (Ok \<lparr>ma_tags = [93, 89, 10], ma_required = [10], ma_groups = [], ma_order = [93, 89, 10]\<rparr>)"
  by (simp add: spec_trailer_def collect_eval)

lemma collect_Heartbeat:
  "collect (Suc (Suc d)) (dd_tags_by_name fixt11_dictionary) (load_components fixt11_spec) (nd_children (nd_children spec_messages ! 0)) empty_message
    = Some (Ok \<lparr>ma_tags = md_tags Heartbeat_entry, ma_required = md_required Heartbeat_entry, ma_groups = md_groups Heartbeat_entry, ma_order = md_field_order Heartbeat_entry\<rparr>)"
  by (simp add: spec_messages_def spec_components_def Heartbeat_entry_def collect_eval)

lemma collect_TestRequest:
  "collect (Suc (Suc d)) (dd_tags_by_name fixt11_dictionary) (load_components fixt11_spec) (nd_children (nd_children spec_messages ! 1)) empty_message
    = Some (Ok \<lparr>ma_tags = md_tags TestRequest_entry, ma_required = md_required TestRequest_entry, ma_groups = md_groups TestRequest_entry, ma_order = md_field_order TestRequest_entry\<rparr>)"
  by (simp add: spec_messages_def spec_components_def TestRequest_entry_def collect_eval)

lemma collect_ResendRequest:
  "collect (Suc (Suc d)) (dd_tags_by_name fixt11_dictionary) (load_components fixt11_spec) (nd_children (nd_children spec_messages ! 2)) empty_message
    = Some (Ok \<lparr>ma_tags = md_tags ResendRequest_entry, ma_required = md_required ResendRequest_entry, ma_groups = md_groups ResendRequest_entry, ma_order = md_field_order ResendRequest_entry\<rparr>)"
  by (simp add: spec_messages_def spec_components_def ResendRequest_entry_def collect_eval)

lemma collect_Reject:
  "collect (Suc (Suc d)) (dd_tags_by_name fixt11_dictionary) (load_components fixt11_spec) (nd_children (nd_children spec_messages ! 3)) empty_message
    = Some (Ok \<lparr>ma_tags = md_tags Reject_entry, ma_required = md_required Reject_entry, ma_groups = md_groups Reject_entry, ma_order = md_field_order Reject_entry\<rparr>)"
  by (simp add: spec_messages_def spec_components_def Reject_entry_def collect_eval)

lemma collect_SequenceReset:
  "collect (Suc (Suc d)) (dd_tags_by_name fixt11_dictionary) (load_components fixt11_spec) (nd_children (nd_children spec_messages ! 4)) empty_message
    = Some (Ok \<lparr>ma_tags = md_tags SequenceReset_entry, ma_required = md_required SequenceReset_entry, ma_groups = md_groups SequenceReset_entry, ma_order = md_field_order SequenceReset_entry\<rparr>)"
  by (simp add: spec_messages_def spec_components_def SequenceReset_entry_def collect_eval)

lemma collect_Logout:
  "collect (Suc (Suc d)) (dd_tags_by_name fixt11_dictionary) (load_components fixt11_spec) (nd_children (nd_children spec_messages ! 5)) empty_message
    = Some (Ok \<lparr>ma_tags = md_tags Logout_entry, ma_required = md_required Logout_entry, ma_groups = md_groups Logout_entry, ma_order = md_field_order Logout_entry\<rparr>)"
  by (simp add: spec_messages_def spec_components_def Logout_entry_def collect_eval)

lemma collect_Logon:
  "collect (Suc (Suc d)) (dd_tags_by_name fixt11_dictionary) (load_components fixt11_spec) (nd_children (nd_children spec_messages ! 6)) empty_message
    = Some (Ok \<lparr>ma_tags = md_tags Logon_entry, ma_required = md_required Logon_entry, ma_groups = md_groups Logon_entry, ma_order = md_field_order Logon_entry\<rparr>)"
  by (simp add: spec_messages_def spec_components_def Logon_entry_def collect_eval)

lemma fixt11_sections:
  "child fixt11_spec ''header'' = Some spec_header" "child fixt11_spec ''trailer'' = Some spec_trailer"
  "elements fixt11_spec ''fields'' ''field'' = nd_children spec_fields"
  "elements fixt11_spec ''messages'' ''message'' = nd_children spec_messages"
  by (simp_all add: elements_def child_def fixt11_spec_def spec_header_def spec_trailer_def spec_messages_def
      spec_components_def spec_fields_def)

lemma fixt11_load_fields:
  "load_fields False (nd_children spec_fields) (new_dictionary fixt11_spec)
    = Ok (new_dictionary fixt11_spec\<lparr>dd_fields_by_tag := dd_fields_by_tag fixt11_dictionary,
        dd_tags_by_name := dd_tags_by_name fixt11_dictionary\<rparr>)"
  using fixt11_field_nodes fixt11_tags_distinct fixt11_names_distinct
  by (subst load_fields_distinct) (simp_all add: new_dictionary_def fixt11_dictionary_def)

text \<open>The element of a message and the definition it gives.\<close>

definition message_loads :: "nat \<Rightarrow> (bytes \<times> tag) list \<Rightarrow> (bytes \<times> node) list \<Rightarrow> node \<Rightarrow> message_def \<Rightarrow> bool" where
  "message_loads depth tbn comps nd e \<longleftrightarrow>
     map_of (nd_attrs nd) ''msgtype'' = Some (md_msg_type e) \<and> attr_or_empty nd ''name'' = md_name e
     \<and> collect depth tbn comps (nd_children nd) empty_message
       = Some (Ok \<lparr>ma_tags = md_tags e, ma_required = md_required e, ma_groups = md_groups e, ma_order = md_field_order e\<rparr>)"

lemma message_def_eta:
  "\<lparr>md_name = md_name e, md_msg_type = md_msg_type e, md_tags = md_tags e, md_required = md_required e,
    md_groups = md_groups e, md_field_order = md_field_order e\<rparr> = e"
  by (cases e) simp

lemma load_messages_entries:
  assumes "list_all2 (message_loads depth (dd_tags_by_name dd) comps) nds es"
  shows "load_messages depth comps nds dd
    = Some (Ok (dd\<lparr>dd_messages := foldl (\<lambda>m e. hm_insert (md_msg_type e) e m) (dd_messages dd) es\<rparr>))"
  using assms
proof (induction nds arbitrary: es dd)
  case (Cons nd nds)
  then obtain e es' where es: "es = e # es'" "message_loads depth (dd_tags_by_name dd) comps nd e"
    "list_all2 (message_loads depth (dd_tags_by_name dd) comps) nds es'"
    by (cases es) auto
  then show ?case
    using Cons.IH [of "dd\<lparr>dd_messages := hm_insert (md_msg_type e) e (dd_messages dd)\<rparr>" es']
    by (simp add: message_def_eta message_loads_def [of _ _ _ nd])
qed simp

definition fixt11_entries :: "message_def list" where
  "fixt11_entries =
     [Heartbeat_entry, TestRequest_entry, ResendRequest_entry, Reject_entry, SequenceReset_entry, Logout_entry, Logon_entry]"

lemmas entry_defs = Heartbeat_entry_def TestRequest_entry_def ResendRequest_entry_def Reject_entry_def
  SequenceReset_entry_def Logout_entry_def Logon_entry_def

lemmas collect_messages = collect_Heartbeat collect_TestRequest collect_ResendRequest collect_Reject
  collect_SequenceReset collect_Logout collect_Logon

lemma fixt11_message_nodes:
  "map (\<lambda>nd. (map_of (nd_attrs nd) ''msgtype'', attr_or_empty nd ''name'')) (nd_children spec_messages)
    = map (\<lambda>e. (Some (md_msg_type e), md_name e)) fixt11_entries"
  by (simp add: fixt11_entries_def entry_defs spec_messages_def attr_or_empty_def)

lemma fixt11_messages_load:
  "list_all2 (message_loads (Suc (Suc d)) (dd_tags_by_name fixt11_dictionary) (load_components fixt11_spec))
    (nd_children spec_messages) fixt11_entries"
proof -
  have len: "length (nd_children spec_messages) = length fixt11_entries"
    using fixt11_message_nodes map_eq_imp_length_eq by blast
  have "message_loads (Suc (Suc d)) (dd_tags_by_name fixt11_dictionary) (load_components fixt11_spec)
      (nd_children spec_messages ! i) (fixt11_entries ! i)" if "i < length fixt11_entries" for i
  proof -
    have "i \<in> {0, 1, 2, 3, 4, 5, 6}" using that by (auto simp: fixt11_entries_def)
    then have "collect (Suc (Suc d)) (dd_tags_by_name fixt11_dictionary) (load_components fixt11_spec)
        (nd_children (nd_children spec_messages ! i)) empty_message
      = Some (Ok \<lparr>ma_tags = md_tags (fixt11_entries ! i), ma_required = md_required (fixt11_entries ! i),
          ma_groups = md_groups (fixt11_entries ! i), ma_order = md_field_order (fixt11_entries ! i)\<rparr>)"
      by (elim insertE emptyE) (simp_all add: fixt11_entries_def collect_messages [simplified])
    moreover have "(map_of (nd_attrs (nd_children spec_messages ! i)) ''msgtype'', attr_or_empty (nd_children spec_messages ! i) ''name'')
        = (Some (md_msg_type (fixt11_entries ! i)), md_name (fixt11_entries ! i))"
      using arg_cong [OF fixt11_message_nodes, of "\<lambda>xs. xs ! i"] that len by simp
    ultimately show ?thesis by (simp add: message_loads_def)
  qed
  then show ?thesis using len by (simp add: list_all2_conv_all_nth)
qed

lemma fixt11_collected_messages:
  "foldl (\<lambda>m e. hm_insert (md_msg_type e) e m) [] fixt11_entries = dd_messages fixt11_dictionary"
  by (simp add: fixt11_entries_def entry_defs fixt11_dictionary_def hm_insert_def)

lemma fixt11_collected:
  "new_dictionary fixt11_spec\<lparr>dd_fields_by_tag := dd_fields_by_tag fixt11_dictionary,
      dd_tags_by_name := dd_tags_by_name fixt11_dictionary, dd_header_tags := dd_header_tags fixt11_dictionary,
      dd_header_required := dd_header_required fixt11_dictionary, dd_trailer_tags := dd_trailer_tags fixt11_dictionary,
      dd_trailer_required := dd_trailer_required fixt11_dictionary, dd_messages := dd_messages fixt11_dictionary\<rparr>
    = fixt11_dictionary"
  "dd_messages (new_dictionary fixt11_spec) = []"
  by (simp_all add: new_dictionary_def fixt11_spec_def attr_or_empty_def fixt11_dictionary_def)

lemma fixt11_field_all:
  "list_all (\<lambda>f. map_of (dd_fields_by_tag fixt11_dictionary) (fd_tag f) = Some f) fixt11_fields"
proof -
  have "map_of (dd_fields_by_tag fixt11_dictionary) (fd_tag f) = Some f" if "f \<in> set fixt11_fields" for f
    using that fixt11_tags_distinct
    by (intro map_of_is_SomeI) (auto simp: fixt11_dictionary_def rev_map [symmetric] comp_def)
  then show ?thesis by (auto simp: list_all_iff)
qed

lemmas fixt11_field = fixt11_field_all [unfolded fixt11_fields_def, simplified]

lemma fixt11_dictionary_loads: "dictionary_of (Suc (Suc d)) fixt11_spec = Some (Ok fixt11_dictionary)"
proof -
  have cis: "\<not> (map_of (nd_attrs fixt11_spec) ''type'' \<noteq> Some ''FIXT'' \<and> b)" for b
    by (simp add: fixt11_spec_def)
  let ?dd = "new_dictionary fixt11_spec\<lparr>dd_fields_by_tag := dd_fields_by_tag fixt11_dictionary,
        dd_tags_by_name := dd_tags_by_name fixt11_dictionary\<rparr>"
  have "load_messages (Suc (Suc d)) (load_components fixt11_spec) (nd_children spec_messages)
      (?dd\<lparr>dd_header_tags := dd_header_tags fixt11_dictionary, dd_header_required := dd_header_required fixt11_dictionary,
        dd_trailer_tags := dd_trailer_tags fixt11_dictionary, dd_trailer_required := dd_trailer_required fixt11_dictionary\<rparr>)
    = Some (Ok fixt11_dictionary)"
    by (subst load_messages_entries [where es = fixt11_entries])
      (simp_all add: fixt11_messages_load fixt11_collected_messages fixt11_collected)
  moreover have "dd_header_tags fixt11_dictionary = ma_tags acc" "dd_header_required fixt11_dictionary = ma_required acc"
    if "collect (Suc (Suc d)) (dd_tags_by_name fixt11_dictionary) (load_components fixt11_spec) (nd_children spec_header) empty_message
      = Some (Ok acc)" for acc
    using that unfolding collect_header by (auto simp: fixt11_dictionary_def)
  moreover have "dd_trailer_tags fixt11_dictionary = ma_tags acc" "dd_trailer_required fixt11_dictionary = ma_required acc"
    if "collect (Suc (Suc d)) (dd_tags_by_name fixt11_dictionary) (load_components fixt11_spec) (nd_children spec_trailer) empty_message
      = Some (Ok acc)" for acc
    using that unfolding collect_trailer by (auto simp: fixt11_dictionary_def)
  ultimately show ?thesis
    unfolding dictionary_of_def Let_def collect_section_def fixt11_sections
    using collect_header [of d] collect_trailer [of d]
    by (simp add: cis fixt11_load_fields set_header_section_def set_trailer_section_def)
qed

end
