(* ===== verification/Fixt11_Generated.thy ===== *)
theory Fixt11_Generated
  imports Module_Generator Fixt11_Dictionary
begin

text \<open>
  The generator of \<open>src/bin/generate-fix.rs\<close>, run on the FIXT.1.1 dictionary, writes the files of
  \<open>src/fixt11\<close> as they are committed. The three files are transcribed line by line; the modules and the
  fields are generated one at a time and compared line with line.
\<close>

section \<open>The committed files\<close>

definition messages_rs_start :: bytes where
  "messages_rs_start = text_lines
     [''//! GENERATED by `generate-fix` '' @ [CHR 0xE2, CHR 0x80, CHR 0x94] @ '' do not edit by hand.'',
      ''#![allow(clippy::all, unused_imports, unused_mut, dead_code, non_upper_case_globals)]'',
      [],
      ''//! One module per message; structs wrap [`crate::Message`] and expose'',
      ''//! typed accessors. Constructors take the message's required fields.'',
      []]"

definition heartbeat_rs :: bytes where
  "heartbeat_rs = text_lines
     [''pub mod heartbeat {'',
      ''    use crate::field_map::{Field, FieldMap};'',
      ''    use crate::error::ConversionError;'',
      ''    use super::super::fields;'',
      [],
      ''    /// Heartbeat (35=0).'',
      ''    #[derive(Debug, Clone)]'',
      ''    pub struct Heartbeat(pub crate::Message);'',
      ''    impl Heartbeat {'',
      ''        pub const MSG_TYPE: &'static str = \"0\";'',
      ''        #[allow(clippy::too_many_arguments)]'',
      ''        pub fn new() -> Self {'',
      ''            let mut m = crate::Message::with_type(Self::MSG_TYPE);'',
      ''            Self(m)'',
      ''        }'',
      [],
      ''        /// Wrap a generic message; fails unless 35=\"0\".'',
      ''        pub fn from_message(msg: crate::Message) -> Result<Self, crate::Message> {'',
      ''            if msg.msg_type().ok().as_deref() == Some(Self::MSG_TYPE) { Ok(Self(msg)) } else { Err(msg) }'',
      ''        }'',
      [],
      ''        pub fn test_req_id(&self) -> Result<String, ConversionError> { self.0.body.get_field::<fields::TestReqID>() }'',
      ''        pub fn set_test_req_id(&mut self, v: impl Into<String>) { self.0.body.set_field::<fields::TestReqID>(v.into()); }'',
      ''        pub fn has_test_req_id(&self) -> bool { self.0.body.has_field::<fields::TestReqID>() }'',
      ''    }'',
      ''    impl std::ops::Deref for Heartbeat {'',
      ''        type Target = crate::Message;'',
      ''        fn deref(&self) -> &crate::Message { &self.0 }'',
      ''    }'',
      ''    impl std::ops::DerefMut for Heartbeat {'',
      ''        fn deref_mut(&mut self) -> &mut crate::Message { &mut self.0 }'',
      ''    }'',
      ''    impl From<Heartbeat> for crate::Message {'',
      ''        fn from(m: Heartbeat) -> crate::Message { m.0 }'',
      ''    }'',
      [],
      ''}'',
      ''pub use heartbeat::Heartbeat;'',
      []]"

definition logon_rs :: bytes where
  "logon_rs = text_lines
     [''pub mod logon {'',
      ''    use crate::field_map::{Field, FieldMap};'',
      ''    use crate::error::ConversionError;'',
      ''    use super::super::fields;'',
      [],
      ''    /// Logon (35=A).'',
      ''    #[derive(Debug, Clone)]'',
      ''    pub struct Logon(pub crate::Message);'',
      ''    impl Logon {'',
      ''        pub const MSG_TYPE: &'static str = \"A\";'',
      ''        #[allow(clippy::too_many_arguments)]'',
      ''        pub fn new(encrypt_method: i64, heart_bt_int: i64, default_appl_ver_id: impl Into<String>) -> Self {'',
      ''            let mut m = crate::Message::with_type(Self::MSG_TYPE);'',
      ''            m.body.set_field::<fields::EncryptMethod>(encrypt_method);'',
      ''            m.body.set_field::<fields::HeartBtInt>(heart_bt_int);'',
      ''            m.body.set_field::<fields::DefaultApplVerID>(default_appl_ver_id.into());'',
      ''            Self(m)'',
      ''        }'',
      [],
      ''        /// Wrap a generic message; fails unless 35=\"A\".'',
      ''        pub fn from_message(msg: crate::Message) -> Result<Self, crate::Message> {'',
      ''            if msg.msg_type().ok().as_deref() == Some(Self::MSG_TYPE) { Ok(Self(msg)) } else { Err(msg) }'',
      ''        }'',
      [],
      ''        pub fn encrypt_method(&self) -> Result<i64, ConversionError> { self.0.body.get_field::<fields::EncryptMethod>() }'',
      ''        pub fn set_encrypt_method(&mut self, v: i64) { self.0.body.set_field::<fields::EncryptMethod>(v); }'',
      ''        pub fn has_encrypt_method(&self) -> bool { self.0.body.has_field::<fields::EncryptMethod>() }'',
      ''        pub fn heart_bt_int(&self) -> Result<i64, ConversionError> { self.0.body.get_field::<fields::HeartBtInt>() }'',
      ''        pub fn set_heart_bt_int(&mut self, v: i64) { self.0.body.set_field::<fields::HeartBtInt>(v); }'',
      ''        pub fn has_heart_bt_int(&self) -> bool { self.0.body.has_field::<fields::HeartBtInt>() }'',
      ''        pub fn raw_data_length(&self) -> Result<i64, ConversionError> { self.0.body.get_field::<fields::RawDataLength>() }'',
      ''        pub fn set_raw_data_length(&mut self, v: i64) { self.0.body.set_field::<fields::RawDataLength>(v); }'',
      ''        pub fn has_raw_data_length(&self) -> bool { self.0.body.has_field::<fields::RawDataLength>() }'',
      ''        pub fn raw_data(&self) -> Result<Vec<u8>, ConversionError> { self.0.body.get_field::<fields::RawData>() }'',
      ''        pub fn set_raw_data(&mut self, v: impl Into<Vec<u8>>) { self.0.body.set_field::<fields::RawData>(v.into()); }'',
      ''        pub fn has_raw_data(&self) -> bool { self.0.body.has_field::<fields::RawData>() }'',
      ''        pub fn reset_seq_num_flag(&self) -> Result<bool, ConversionError> { self.0.body.get_field::<fields::ResetSeqNumFlag>() }'',
      ''        pub fn set_reset_seq_num_flag(&mut self, v: bool) { self.0.body.set_field::<fields::ResetSeqNumFlag>(v); }'',
      ''        pub fn has_reset_seq_num_flag(&self) -> bool { self.0.body.has_field::<fields::ResetSeqNumFlag>() }'',
      ''        pub fn next_expected_msg_seq_num(&self) -> Result<i64, ConversionError> { self.0.body.get_field::<fields::NextExpectedMsgSeqNum>() }'',
      ''        pub fn set_next_expected_msg_seq_num(&mut self, v: i64) { self.0.body.set_field::<fields::NextExpectedMsgSeqNum>(v); }'',
      ''        pub fn has_next_expected_msg_seq_num(&self) -> bool { self.0.body.has_field::<fields::NextExpectedMsgSeqNum>() }'',
      ''        pub fn max_message_size(&self) -> Result<i64, ConversionError> { self.0.body.get_field::<fields::MaxMessageSize>() }'',
      ''        pub fn set_max_message_size(&mut self, v: i64) { self.0.body.set_field::<fields::MaxMessageSize>(v); }'',
      ''        pub fn has_max_message_size(&self) -> bool { self.0.body.has_field::<fields::MaxMessageSize>() }'',
      ''        pub fn test_message_indicator(&self) -> Result<bool, ConversionError> { self.0.body.get_field::<fields::TestMessageIndicator>() }'',
      ''        pub fn set_test_message_indicator(&mut self, v: bool) { self.0.body.set_field::<fields::TestMessageIndicator>(v); }'',
      ''        pub fn has_test_message_indicator(&self) -> bool { self.0.body.has_field::<fields::TestMessageIndicator>() }'',
      ''        pub fn username(&self) -> Result<String, ConversionError> { self.0.body.get_field::<fields::Username>() }'',
      ''        pub fn set_username(&mut self, v: impl Into<String>) { self.0.body.set_field::<fields::Username>(v.into()); }'',
      ''        pub fn has_username(&self) -> bool { self.0.body.has_field::<fields::Username>() }'',
      ''        pub fn password(&self) -> Result<String, ConversionError> { self.0.body.get_field::<fields::Password>() }'',
      ''        pub fn set_password(&mut self, v: impl Into<String>) { self.0.body.set_field::<fields::Password>(v.into()); }'',
      ''        pub fn has_password(&self) -> bool { self.0.body.has_field::<fields::Password>() }'',
      ''        pub fn default_appl_ver_id(&self) -> Result<String, ConversionError> { self.0.body.get_field::<fields::DefaultApplVerID>() }'',
      ''        pub fn set_default_appl_ver_id(&mut self, v: impl Into<String>) { self.0.body.set_field::<fields::DefaultApplVerID>(v.into()); }'',
      ''        pub fn has_default_appl_ver_id(&self) -> bool { self.0.body.has_field::<fields::DefaultApplVerID>() }'',
      ''        pub fn no_msg_types(&self) -> Result<Vec<NoMsgTypes>, ConversionError> {'',
      ''            Ok(self.0.body.read_groups(&no_msg_types_template())?.into_iter().map(NoMsgTypes).collect())'',
      ''        }'',
      ''        pub fn set_no_msg_types(&mut self, groups: impl IntoIterator<Item = NoMsgTypes>) {'',
      ''            let maps: Vec<FieldMap> = groups.into_iter().map(|g| g.0).collect();'',
      ''            self.0.body.write_groups(&no_msg_types_template(), &maps);'',
      ''        }'',
      ''    }'',
      ''    impl std::ops::Deref for Logon {'',
      ''        type Target = crate::Message;'',
      ''        fn deref(&self) -> &crate::Message { &self.0 }'',
      ''    }'',
      ''    impl std::ops::DerefMut for Logon {'',
      ''        fn deref_mut(&mut self) -> &mut crate::Message { &mut self.0 }'',
      ''    }'',
      ''    impl From<Logon> for crate::Message {'',
      ''        fn from(m: Logon) -> crate::Message { m.0 }'',
      ''    }'',
      [],
      [],
      ''    pub(crate) fn no_msg_types_template() -> crate::GroupTemplate {'',
      ''        crate::GroupTemplate::new(384, vec![372, 385, 1130, 1131])'',
      ''    }'',
      ''    /// Repeating group counted by NoMsgTypes (384). Set the delimiter'',
      ''    /// field (372) first.'',
      ''    #[derive(Debug, Clone, Default)]'',
      ''    pub struct NoMsgTypes(pub FieldMap);'',
      ''    impl NoMsgTypes {'',
      ''        pub fn new() -> Self { Self(FieldMap::new()) }'',
      ''        pub fn ref_msg_type(&self) -> Result<String, ConversionError> { self.0.get_field::<fields::RefMsgType>() }'',
      ''        pub fn set_ref_msg_type(&mut self, v: impl Into<String>) { self.0.set_field::<fields::RefMsgType>(v.into()); }'',
      ''        pub fn has_ref_msg_type(&self) -> bool { self.0.has_field::<fields::RefMsgType>() }'',
      ''        pub fn msg_direction(&self) -> Result<char, ConversionError> { self.0.get_field::<fields::MsgDirection>() }'',
      ''        pub fn set_msg_direction(&mut self, v: char) { self.0.set_field::<fields::MsgDirection>(v); }'',
      ''        pub fn has_msg_direction(&self) -> bool { self.0.has_field::<fields::MsgDirection>() }'',
      ''        pub fn ref_appl_ver_id(&self) -> Result<String, ConversionError> { self.0.get_field::<fields::RefApplVerID>() }'',
      ''        pub fn set_ref_appl_ver_id(&mut self, v: impl Into<String>) { self.0.set_field::<fields::RefApplVerID>(v.into()); }'',
      ''        pub fn has_ref_appl_ver_id(&self) -> bool { self.0.has_field::<fields::RefApplVerID>() }'',
      ''        pub fn ref_cstm_appl_ver_id(&self) -> Result<String, ConversionError> { self.0.get_field::<fields::RefCstmApplVerID>() }'',
      ''        pub fn set_ref_cstm_appl_ver_id(&mut self, v: impl Into<String>) { self.0.set_field::<fields::RefCstmApplVerID>(v.into()); }'',
      ''        pub fn has_ref_cstm_appl_ver_id(&self) -> bool { self.0.has_field::<fields::RefCstmApplVerID>() }'',
      ''    }'',
      ''}'',
      ''pub use logon::Logon;'',
      []]"

definition logout_rs :: bytes where
  "logout_rs = text_lines
     [''pub mod logout {'',
      ''    use crate::field_map::{Field, FieldMap};'',
      ''    use crate::error::ConversionError;'',
      ''    use super::super::fields;'',
      [],
      ''    /// Logout (35=5).'',
      ''    #[derive(Debug, Clone)]'',
      ''    pub struct Logout(pub crate::Message);'',
      ''    impl Logout {'',
      ''        pub const MSG_TYPE: &'static str = \"5\";'',
      ''        #[allow(clippy::too_many_arguments)]'',
      ''        pub fn new() -> Self {'',
      ''            let mut m = crate::Message::with_type(Self::MSG_TYPE);'',
      ''            Self(m)'',
      ''        }'',
      [],
      ''        /// Wrap a generic message; fails unless 35=\"5\".'',
      ''        pub fn from_message(msg: crate::Message) -> Result<Self, crate::Message> {'',
      ''            if msg.msg_type().ok().as_deref() == Some(Self::MSG_TYPE) { Ok(Self(msg)) } else { Err(msg) }'',
      ''        }'',
      [],
      ''        pub fn text(&self) -> Result<String, ConversionError> { self.0.body.get_field::<fields::Text>() }'',
      ''        pub fn set_text(&mut self, v: impl Into<String>) { self.0.body.set_field::<fields::Text>(v.into()); }'',
      ''        pub fn has_text(&self) -> bool { self.0.body.has_field::<fields::Text>() }'',
      ''        pub fn encoded_text_len(&self) -> Result<i64, ConversionError> { self.0.body.get_field::<fields::EncodedTextLen>() }'',
      ''        pub fn set_encoded_text_len(&mut self, v: i64) { self.0.body.set_field::<fields::EncodedTextLen>(v); }'',
      ''        pub fn has_encoded_text_len(&self) -> bool { self.0.body.has_field::<fields::EncodedTextLen>() }'',
      ''        pub fn encoded_text(&self) -> Result<Vec<u8>, ConversionError> { self.0.body.get_field::<fields::EncodedText>() }'',
      ''        pub fn set_encoded_text(&mut self, v: impl Into<Vec<u8>>) { self.0.body.set_field::<fields::EncodedText>(v.into()); }'',
      ''        pub fn has_encoded_text(&self) -> bool { self.0.body.has_field::<fields::EncodedText>() }'',
      ''    }'',
      ''    impl std::ops::Deref for Logout {'',
      ''        type Target = crate::Message;'',
      ''        fn deref(&self) -> &crate::Message { &self.0 }'',
      ''    }'',
      ''    impl std::ops::DerefMut for Logout {'',
      ''        fn deref_mut(&mut self) -> &mut crate::Message { &mut self.0 }'',
      ''    }'',
      ''    impl From<Logout> for crate::Message {'',
      ''        fn from(m: Logout) -> crate::Message { m.0 }'',
      ''    }'',
      [],
      ''}'',
      ''pub use logout::Logout;'',
      []]"

definition reject_rs :: bytes where
  "reject_rs = text_lines
     [''pub mod reject {'',
      ''    use crate::field_map::{Field, FieldMap};'',
      ''    use crate::error::ConversionError;'',
      ''    use super::super::fields;'',
      [],
      ''    /// Reject (35=3).'',
      ''    #[derive(Debug, Clone)]'',
      ''    pub struct Reject(pub crate::Message);'',
      ''    impl Reject {'',
      ''        pub const MSG_TYPE: &'static str = \"3\";'',
      ''        #[allow(clippy::too_many_arguments)]'',
      ''        pub fn new(ref_seq_num: i64) -> Self {'',
      ''            let mut m = crate::Message::with_type(Self::MSG_TYPE);'',
      ''            m.body.set_field::<fields::RefSeqNum>(ref_seq_num);'',
      ''            Self(m)'',
      ''        }'',
      [],
      ''        /// Wrap a generic message; fails unless 35=\"3\".'',
      ''        pub fn from_message(msg: crate::Message) -> Result<Self, crate::Message> {'',
      ''            if msg.msg_type().ok().as_deref() == Some(Self::MSG_TYPE) { Ok(Self(msg)) } else { Err(msg) }'',
      ''        }'',
      [],
      ''        pub fn ref_seq_num(&self) -> Result<i64, ConversionError> { self.0.body.get_field::<fields::RefSeqNum>() }'',
      ''        pub fn set_ref_seq_num(&mut self, v: i64) { self.0.body.set_field::<fields::RefSeqNum>(v); }'',
      ''        pub fn has_ref_seq_num(&self) -> bool { self.0.body.has_field::<fields::RefSeqNum>() }'',
      ''        pub fn ref_tag_id(&self) -> Result<i64, ConversionError> { self.0.body.get_field::<fields::RefTagID>() }'',
      ''        pub fn set_ref_tag_id(&mut self, v: i64) { self.0.body.set_field::<fields::RefTagID>(v); }'',
      ''        pub fn has_ref_tag_id(&self) -> bool { self.0.body.has_field::<fields::RefTagID>() }'',
      ''        pub fn ref_msg_type(&self) -> Result<String, ConversionError> { self.0.body.get_field::<fields::RefMsgType>() }'',
      ''        pub fn set_ref_msg_type(&mut self, v: impl Into<String>) { self.0.body.set_field::<fields::RefMsgType>(v.into()); }'',
      ''        pub fn has_ref_msg_type(&self) -> bool { self.0.body.has_field::<fields::RefMsgType>() }'',
      ''        pub fn session_reject_reason(&self) -> Result<i64, ConversionError> { self.0.body.get_field::<fields::SessionRejectReason>() }'',
      ''        pub fn set_session_reject_reason(&mut self, v: i64) { self.0.body.set_field::<fields::SessionRejectReason>(v); }'',
      ''        pub fn has_session_reject_reason(&self) -> bool { self.0.body.has_field::<fields::SessionRejectReason>() }'',
      ''        pub fn text(&self) -> Result<String, ConversionError> { self.0.body.get_field::<fields::Text>() }'',
      ''        pub fn set_text(&mut self, v: impl Into<String>) { self.0.body.set_field::<fields::Text>(v.into()); }'',
      ''        pub fn has_text(&self) -> bool { self.0.body.has_field::<fields::Text>() }'',
      ''        pub fn encoded_text_len(&self) -> Result<i64, ConversionError> { self.0.body.get_field::<fields::EncodedTextLen>() }'',
      ''        pub fn set_encoded_text_len(&mut self, v: i64) { self.0.body.set_field::<fields::EncodedTextLen>(v); }'',
      ''        pub fn has_encoded_text_len(&self) -> bool { self.0.body.has_field::<fields::EncodedTextLen>() }'',
      ''        pub fn encoded_text(&self) -> Result<Vec<u8>, ConversionError> { self.0.body.get_field::<fields::EncodedText>() }'',
      ''        pub fn set_encoded_text(&mut self, v: impl Into<Vec<u8>>) { self.0.body.set_field::<fields::EncodedText>(v.into()); }'',
      ''        pub fn has_encoded_text(&self) -> bool { self.0.body.has_field::<fields::EncodedText>() }'',
      ''    }'',
      ''    impl std::ops::Deref for Reject {'',
      ''        type Target = crate::Message;'',
      ''        fn deref(&self) -> &crate::Message { &self.0 }'',
      ''    }'',
      ''    impl std::ops::DerefMut for Reject {'',
      ''        fn deref_mut(&mut self) -> &mut crate::Message { &mut self.0 }'',
      ''    }'',
      ''    impl From<Reject> for crate::Message {'',
      ''        fn from(m: Reject) -> crate::Message { m.0 }'',
      ''    }'',
      [],
      ''}'',
      ''pub use reject::Reject;'',
      []]"

definition resend_request_rs :: bytes where
  "resend_request_rs = text_lines
     [''pub mod resend_request {'',
      ''    use crate::field_map::{Field, FieldMap};'',
      ''    use crate::error::ConversionError;'',
      ''    use super::super::fields;'',
      [],
      ''    /// ResendRequest (35=2).'',
      ''    #[derive(Debug, Clone)]'',
      ''    pub struct ResendRequest(pub crate::Message);'',
      ''    impl ResendRequest {'',
      ''        pub const MSG_TYPE: &'static str = \"2\";'',
      ''        #[allow(clippy::too_many_arguments)]'',
      ''        pub fn new(begin_seq_no: i64, end_seq_no: i64) -> Self {'',
      ''            let mut m = crate::Message::with_type(Self::MSG_TYPE);'',
      ''            m.body.set_field::<fields::BeginSeqNo>(begin_seq_no);'',
      ''            m.body.set_field::<fields::EndSeqNo>(end_seq_no);'',
      ''            Self(m)'',
      ''        }'',
      [],
      ''        /// Wrap a generic message; fails unless 35=\"2\".'',
      ''        pub fn from_message(msg: crate::Message) -> Result<Self, crate::Message> {'',
      ''            if msg.msg_type().ok().as_deref() == Some(Self::MSG_TYPE) { Ok(Self(msg)) } else { Err(msg) }'',
      ''        }'',
      [],
      ''        pub fn begin_seq_no(&self) -> Result<i64, ConversionError> { self.0.body.get_field::<fields::BeginSeqNo>() }'',
      ''        pub fn set_begin_seq_no(&mut self, v: i64) { self.0.body.set_field::<fields::BeginSeqNo>(v); }'',
      ''        pub fn has_begin_seq_no(&self) -> bool { self.0.body.has_field::<fields::BeginSeqNo>() }'',
      ''        pub fn end_seq_no(&self) -> Result<i64, ConversionError> { self.0.body.get_field::<fields::EndSeqNo>() }'',
      ''        pub fn set_end_seq_no(&mut self, v: i64) { self.0.body.set_field::<fields::EndSeqNo>(v); }'',
      ''        pub fn has_end_seq_no(&self) -> bool { self.0.body.has_field::<fields::EndSeqNo>() }'',
      ''    }'',
      ''    impl std::ops::Deref for ResendRequest {'',
      ''        type Target = crate::Message;'',
      ''        fn deref(&self) -> &crate::Message { &self.0 }'',
      ''    }'',
      ''    impl std::ops::DerefMut for ResendRequest {'',
      ''        fn deref_mut(&mut self) -> &mut crate::Message { &mut self.0 }'',
      ''    }'',
      ''    impl From<ResendRequest> for crate::Message {'',
      ''        fn from(m: ResendRequest) -> crate::Message { m.0 }'',
      ''    }'',
      [],
      ''}'',
      ''pub use resend_request::ResendRequest;'',
      []]"

definition sequence_reset_rs :: bytes where
  "sequence_reset_rs = text_lines
     [''pub mod sequence_reset {'',
      ''    use crate::field_map::{Field, FieldMap};'',
      ''    use crate::error::ConversionError;'',
      ''    use super::super::fields;'',
      [],
      ''    /// SequenceReset (35=4).'',
      ''    #[derive(Debug, Clone)]'',
      ''    pub struct SequenceReset(pub crate::Message);'',
      ''    impl SequenceReset {'',
      ''        pub const MSG_TYPE: &'static str = \"4\";'',
      ''        #[allow(clippy::too_many_arguments)]'',
      ''        pub fn new(new_seq_no: i64) -> Self {'',
      ''            let mut m = crate::Message::with_type(Self::MSG_TYPE);'',
      ''            m.body.set_field::<fields::NewSeqNo>(new_seq_no);'',
      ''            Self(m)'',
      ''        }'',
      [],
      ''        /// Wrap a generic message; fails unless 35=\"4\".'',
      ''        pub fn from_message(msg: crate::Message) -> Result<Self, crate::Message> {'',
      ''            if msg.msg_type().ok().as_deref() == Some(Self::MSG_TYPE) { Ok(Self(msg)) } else { Err(msg) }'',
      ''        }'',
      [],
      ''        pub fn gap_fill_flag(&self) -> Result<bool, ConversionError> { self.0.body.get_field::<fields::GapFillFlag>() }'',
      ''        pub fn set_gap_fill_flag(&mut self, v: bool) { self.0.body.set_field::<fields::GapFillFlag>(v); }'',
      ''        pub fn has_gap_fill_flag(&self) -> bool { self.0.body.has_field::<fields::GapFillFlag>() }'',
      ''        pub fn new_seq_no(&self) -> Result<i64, ConversionError> { self.0.body.get_field::<fields::NewSeqNo>() }'',
      ''        pub fn set_new_seq_no(&mut self, v: i64) { self.0.body.set_field::<fields::NewSeqNo>(v); }'',
      ''        pub fn has_new_seq_no(&self) -> bool { self.0.body.has_field::<fields::NewSeqNo>() }'',
      ''    }'',
      ''    impl std::ops::Deref for SequenceReset {'',
      ''        type Target = crate::Message;'',
      ''        fn deref(&self) -> &crate::Message { &self.0 }'',
      ''    }'',
      ''    impl std::ops::DerefMut for SequenceReset {'',
      ''        fn deref_mut(&mut self) -> &mut crate::Message { &mut self.0 }'',
      ''    }'',
      ''    impl From<SequenceReset> for crate::Message {'',
      ''        fn from(m: SequenceReset) -> crate::Message { m.0 }'',
      ''    }'',
      [],
      ''}'',
      ''pub use sequence_reset::SequenceReset;'',
      []]"

definition test_request_rs :: bytes where
  "test_request_rs = text_lines
     [''pub mod test_request {'',
      ''    use crate::field_map::{Field, FieldMap};'',
      ''    use crate::error::ConversionError;'',
      ''    use super::super::fields;'',
      [],
      ''    /// TestRequest (35=1).'',
      ''    #[derive(Debug, Clone)]'',
      ''    pub struct TestRequest(pub crate::Message);'',
      ''    impl TestRequest {'',
      ''        pub const MSG_TYPE: &'static str = \"1\";'',
      ''        #[allow(clippy::too_many_arguments)]'',
      ''        pub fn new(test_req_id: impl Into<String>) -> Self {'',
      ''            let mut m = crate::Message::with_type(Self::MSG_TYPE);'',
      ''            m.body.set_field::<fields::TestReqID>(test_req_id.into());'',
      ''            Self(m)'',
      ''        }'',
      [],
      ''        /// Wrap a generic message; fails unless 35=\"1\".'',
      ''        pub fn from_message(msg: crate::Message) -> Result<Self, crate::Message> {'',
      ''            if msg.msg_type().ok().as_deref() == Some(Self::MSG_TYPE) { Ok(Self(msg)) } else { Err(msg) }'',
      ''        }'',
      [],
      ''        pub fn test_req_id(&self) -> Result<String, ConversionError> { self.0.body.get_field::<fields::TestReqID>() }'',
      ''        pub fn set_test_req_id(&mut self, v: impl Into<String>) { self.0.body.set_field::<fields::TestReqID>(v.into()); }'',
      ''        pub fn has_test_req_id(&self) -> bool { self.0.body.has_field::<fields::TestReqID>() }'',
      ''    }'',
      ''    impl std::ops::Deref for TestRequest {'',
      ''        type Target = crate::Message;'',
      ''        fn deref(&self) -> &crate::Message { &self.0 }'',
      ''    }'',
      ''    impl std::ops::DerefMut for TestRequest {'',
      ''        fn deref_mut(&mut self) -> &mut crate::Message { &mut self.0 }'',
      ''    }'',
      ''    impl From<TestRequest> for crate::Message {'',
      ''        fn from(m: TestRequest) -> crate::Message { m.0 }'',
      ''    }'',
      [],
      ''}'',
      ''pub use test_request::TestRequest;'',
      []]"

definition messages_rs :: bytes where
  "messages_rs = messages_rs_start @ heartbeat_rs @ logon_rs @ logout_rs @ reject_rs @ resend_request_rs @ sequence_reset_rs @ test_request_rs"

definition mod_rs :: bytes where
  "mod_rs = text_lines
     [''//! GENERATED by `generate-fix` '' @ [CHR 0xE2, CHR 0x80, CHR 0x94] @ '' do not edit by hand.'',
      ''#![allow(clippy::all, unused_imports, unused_mut, dead_code, non_upper_case_globals)]'',
      [],
      ''//! Typed messages for FIXT.1.1 '' @ [CHR 0xE2, CHR 0x80, CHR 0x94] @ '' generated from its spec XML.'',
      [],
      ''pub mod fields;'',
      ''pub mod messages;'',
      ''pub use messages::*;'',
      [],
      ''pub const BEGIN_STRING: &str = \"FIXT.1.1\";'',
      [],
      ''/// Every message type of this FIX version, for typed dispatch.'',
      ''#[derive(Debug, Clone)]'',
      ''pub enum AnyMessage {'',
      ''    Heartbeat(messages::heartbeat::Heartbeat),'',
      ''    Logon(messages::logon::Logon),'',
      ''    Logout(messages::logout::Logout),'',
      ''    Reject(messages::reject::Reject),'',
      ''    ResendRequest(messages::resend_request::ResendRequest),'',
      ''    SequenceReset(messages::sequence_reset::SequenceReset),'',
      ''    TestRequest(messages::test_request::TestRequest),'',
      ''    /// MsgType not defined by this dictionary.'',
      ''    Unknown(crate::Message),'',
      ''}'',
      [],
      ''/// Classify a generic message into its typed representation.'',
      ''pub fn classify(msg: crate::Message) -> AnyMessage {'',
      ''    match msg.msg_type().ok().as_deref().unwrap_or(\"\") {'',
      ''        \"0\" => AnyMessage::Heartbeat(messages::heartbeat::Heartbeat(msg)),'',
      ''        \"A\" => AnyMessage::Logon(messages::logon::Logon(msg)),'',
      ''        \"5\" => AnyMessage::Logout(messages::logout::Logout(msg)),'',
      ''        \"3\" => AnyMessage::Reject(messages::reject::Reject(msg)),'',
      ''        \"2\" => AnyMessage::ResendRequest(messages::resend_request::ResendRequest(msg)),'',
      ''        \"4\" => AnyMessage::SequenceReset(messages::sequence_reset::SequenceReset(msg)),'',
      ''        \"1\" => AnyMessage::TestRequest(messages::test_request::TestRequest(msg)),'',
      ''        _ => AnyMessage::Unknown(msg),'',
      ''    }'',
      ''}'']"

definition fields_rs_start :: bytes where
  "fields_rs_start = text_lines
     [''//! GENERATED by `generate-fix` '' @ [CHR 0xE2, CHR 0x80, CHR 0x94] @ '' do not edit by hand.'',
      ''#![allow(clippy::all, unused_imports, unused_mut, dead_code, non_upper_case_globals)]'',
      [],
      ''//! Typed field markers: `fields::ClOrdID::TAG` etc, with enum value'',
      ''//! constants attached (`fields::Side::BUY`).'',
      [],
      ''use crate::field_map::Field;'',
      ''use crate::message::Tag;'',
      []]"

definition fields_rs_1 :: bytes where
  "fields_rs_1 = text_lines
     [''/// BeginSeqNo (7).'',
      ''pub struct BeginSeqNo;'',
      ''impl Field for BeginSeqNo { const TAG: Tag = 7; type Value = i64; }'',
      [],
      ''/// BeginString (8).'',
      ''pub struct BeginString;'',
      ''impl Field for BeginString { const TAG: Tag = 8; type Value = String; }'',
      [],
      ''/// BodyLength (9).'',
      ''pub struct BodyLength;'',
      ''impl Field for BodyLength { const TAG: Tag = 9; type Value = i64; }'',
      [],
      ''/// CheckSum (10).'',
      ''pub struct CheckSum;'',
      ''impl Field for CheckSum { const TAG: Tag = 10; type Value = String; }'',
      [],
      ''/// EndSeqNo (16).'',
      ''pub struct EndSeqNo;'',
      ''impl Field for EndSeqNo { const TAG: Tag = 16; type Value = i64; }'',
      [],
      ''/// MsgSeqNum (34).'',
      ''pub struct MsgSeqNum;'',
      ''impl Field for MsgSeqNum { const TAG: Tag = 34; type Value = i64; }'',
      []]"

definition fields_rs_2 :: bytes where
  "fields_rs_2 = text_lines
     [''/// MsgType (35).'',
      ''pub struct MsgType;'',
      ''impl Field for MsgType { const TAG: Tag = 35; type Value = String; }'',
      ''impl MsgType {'',
      ''    pub const HEARTBEAT: &'static str = \"0\";'',
      ''    pub const TEST_REQUEST: &'static str = \"1\";'',
      ''    pub const RESEND_REQUEST: &'static str = \"2\";'',
      ''    pub const REJECT: &'static str = \"3\";'',
      ''    pub const SEQUENCE_RESET: &'static str = \"4\";'',
      ''    pub const LOGOUT: &'static str = \"5\";'',
      ''    pub const INDICATION_OF_INTEREST: &'static str = \"6\";'',
      ''    pub const ADVERTISEMENT: &'static str = \"7\";'',
      ''    pub const EXECUTION_REPORT: &'static str = \"8\";'',
      ''    pub const ORDER_CANCEL_REJECT: &'static str = \"9\";'',
      ''    pub const LOGON: &'static str = \"A\";'',
      ''    pub const NEWS: &'static str = \"B\";'',
      ''    pub const EMAIL: &'static str = \"C\";'',
      ''    pub const ORDER_SINGLE: &'static str = \"D\";'',
      ''    pub const ORDER_LIST: &'static str = \"E\";'',
      ''    pub const ORDER_CANCEL_REQUEST: &'static str = \"F\";'',
      ''    pub const ORDER_CANCEL_REPLACE_REQUEST: &'static str = \"G\";'',
      ''    pub const ORDER_STATUS_REQUEST: &'static str = \"H\";'',
      ''    pub const ALLOCATION_INSTRUCTION: &'static str = \"J\";'',
      ''    pub const LIST_CANCEL_REQUEST: &'static str = \"K\";'',
      ''    pub const LIST_EXECUTE: &'static str = \"L\";'',
      ''    pub const LIST_STATUS_REQUEST: &'static str = \"M\";'',
      ''    pub const LIST_STATUS: &'static str = \"N\";'',
      ''    pub const ALLOCATION_INSTRUCTION_ACK: &'static str = \"P\";'',
      ''    pub const DONT_KNOW_TRADE: &'static str = \"Q\";'',
      ''    pub const QUOTE_REQUEST: &'static str = \"R\";'',
      ''    pub const QUOTE: &'static str = \"S\";'',
      ''    pub const SETTLEMENT_INSTRUCTIONS: &'static str = \"T\";'',
      ''    pub const MARKET_DATA_REQUEST: &'static str = \"V\";'',
      ''    pub const MARKET_DATA_SNAPSHOT_FULL_REFRESH: &'static str = \"W\";'',
      ''    pub const MARKET_DATA_INCREMENTAL_REFRESH: &'static str = \"X\";'',
      ''    pub const MARKET_DATA_REQUEST_REJECT: &'static str = \"Y\";'',
      ''    pub const QUOTE_CANCEL: &'static str = \"Z\";'',
      ''    pub const QUOTE_STATUS_REQUEST: &'static str = \"a\";'',
      ''    pub const MASS_QUOTE_ACKNOWLEDGEMENT: &'static str = \"b\";'',
      ''    pub const SECURITY_DEFINITION_REQUEST: &'static str = \"c\";'',
      ''    pub const SECURITY_DEFINITION: &'static str = \"d\";'',
      ''    pub const SECURITY_STATUS_REQUEST: &'static str = \"e\";'',
      ''    pub const SECURITY_STATUS: &'static str = \"f\";'',
      ''    pub const TRADING_SESSION_STATUS_REQUEST: &'static str = \"g\";'',
      ''    pub const TRADING_SESSION_STATUS: &'static str = \"h\";'',
      ''    pub const MASS_QUOTE: &'static str = \"i\";'',
      ''    pub const BUSINESS_MESSAGE_REJECT: &'static str = \"j\";'',
      ''    pub const BID_REQUEST: &'static str = \"k\";'',
      ''    pub const BID_RESPONSE: &'static str = \"l\";'',
      ''    pub const LIST_STRIKE_PRICE: &'static str = \"m\";'',
      ''    pub const XML_MESSAGE: &'static str = \"n\";'',
      ''    pub const REGISTRATION_INSTRUCTIONS: &'static str = \"o\";'',
      ''    pub const REGISTRATION_INSTRUCTIONS_RESPONSE: &'static str = \"p\";'',
      ''    pub const ORDER_MASS_CANCEL_REQUEST: &'static str = \"q\";'',
      ''    pub const ORDER_MASS_CANCEL_REPORT: &'static str = \"r\";'',
      ''    pub const NEW_ORDER_CROSS: &'static str = \"s\";'',
      ''    pub const CROSS_ORDER_CANCEL_REPLACE_REQUEST: &'static str = \"t\";'',
      ''    pub const CROSS_ORDER_CANCEL_REQUEST: &'static str = \"u\";'',
      ''    pub const SECURITY_TYPE_REQUEST: &'static str = \"v\";'',
      ''    pub const SECURITY_TYPES: &'static str = \"w\";'',
      ''    pub const SECURITY_LIST_REQUEST: &'static str = \"x\";'',
      ''    pub const SECURITY_LIST: &'static str = \"y\";'',
      ''    pub const DERIVATIVE_SECURITY_LIST_REQUEST: &'static str = \"z\";'',
      ''    pub const DERIVATIVE_SECURITY_LIST: &'static str = \"AA\";'',
      ''    pub const NEW_ORDER_MULTILEG: &'static str = \"AB\";'',
      ''    pub const MULTILEG_ORDER_CANCEL_REPLACE: &'static str = \"AC\";'',
      ''    pub const TRADE_CAPTURE_REPORT_REQUEST: &'static str = \"AD\";'',
      ''    pub const TRADE_CAPTURE_REPORT: &'static str = \"AE\";'',
      ''    pub const ORDER_MASS_STATUS_REQUEST: &'static str = \"AF\";'',
      ''    pub const QUOTE_REQUEST_REJECT: &'static str = \"AG\";'',
      ''    pub const RFQ_REQUEST: &'static str = \"AH\";'',
      ''    pub const QUOTE_STATUS_REPORT: &'static str = \"AI\";'',
      ''    pub const QUOTE_RESPONSE: &'static str = \"AJ\";'',
      ''    pub const CONFIRMATION: &'static str = \"AK\";'',
      ''    pub const POSITION_MAINTENANCE_REQUEST: &'static str = \"AL\";'',
      ''    pub const POSITION_MAINTENANCE_REPORT: &'static str = \"AM\";'',
      ''    pub const REQUEST_FOR_POSITIONS: &'static str = \"AN\";'',
      ''    pub const REQUEST_FOR_POSITIONS_ACK: &'static str = \"AO\";'',
      ''    pub const POSITION_REPORT: &'static str = \"AP\";'',
      ''    pub const TRADE_CAPTURE_REPORT_REQUEST_ACK: &'static str = \"AQ\";'',
      ''    pub const TRADE_CAPTURE_REPORT_ACK: &'static str = \"AR\";'',
      ''    pub const ALLOCATION_REPORT: &'static str = \"AS\";'',
      ''    pub const ALLOCATION_REPORT_ACK: &'static str = \"AT\";'',
      ''    pub const CONFIRMATION_ACK: &'static str = \"AU\";'',
      ''    pub const SETTLEMENT_INSTRUCTION_REQUEST: &'static str = \"AV\";'',
      ''    pub const ASSIGNMENT_REPORT: &'static str = \"AW\";'',
      ''    pub const COLLATERAL_REQUEST: &'static str = \"AX\";'',
      ''    pub const COLLATERAL_ASSIGNMENT: &'static str = \"AY\";'',
      ''    pub const COLLATERAL_RESPONSE: &'static str = \"AZ\";'',
      ''    pub const COLLATERAL_REPORT: &'static str = \"BA\";'',
      ''    pub const COLLATERAL_INQUIRY: &'static str = \"BB\";'',
      ''    pub const NETWORK_STATUS_REQUEST: &'static str = \"BC\";'',
      ''    pub const NETWORK_STATUS_RESPONSE: &'static str = \"BD\";'',
      ''    pub const USER_REQUEST: &'static str = \"BE\";'',
      ''    pub const USER_RESPONSE: &'static str = \"BF\";'',
      ''    pub const COLLATERAL_INQUIRY_ACK: &'static str = \"BG\";'',
      ''    pub const CONFIRMATION_REQUEST: &'static str = \"BH\";'',
      ''    pub const TRADING_SESSION_LIST_REQUEST: &'static str = \"BI\";'',
      ''    pub const TRADING_SESSION_LIST: &'static str = \"BJ\";'',
      ''    pub const SECURITY_LIST_UPDATE_REPORT: &'static str = \"BK\";'',
      ''    pub const ADJUSTED_POSITION_REPORT: &'static str = \"BL\";'',
      ''    pub const ALLOCATION_INSTRUCTION_ALERT: &'static str = \"BM\";'',
      ''    pub const EXECUTION_ACKNOWLEDGEMENT: &'static str = \"BN\";'',
      ''    pub const CONTRARY_INTENTION_REPORT: &'static str = \"BO\";'',
      ''    pub const SECURITY_DEFINITION_UPDATE_REPORT: &'static str = \"BP\";'',
      ''}'',
      []]"

definition fields_rs_3 :: bytes where
  "fields_rs_3 = text_lines
     [''/// NewSeqNo (36).'',
      ''pub struct NewSeqNo;'',
      ''impl Field for NewSeqNo { const TAG: Tag = 36; type Value = i64; }'',
      [],
      ''/// PossDupFlag (43).'',
      ''pub struct PossDupFlag;'',
      ''impl Field for PossDupFlag { const TAG: Tag = 43; type Value = bool; }'',
      [],
      ''/// RefSeqNum (45).'',
      ''pub struct RefSeqNum;'',
      ''impl Field for RefSeqNum { const TAG: Tag = 45; type Value = i64; }'',
      [],
      ''/// SenderCompID (49).'',
      ''pub struct SenderCompID;'',
      ''impl Field for SenderCompID { const TAG: Tag = 49; type Value = String; }'',
      [],
      ''/// SenderSubID (50).'',
      ''pub struct SenderSubID;'',
      ''impl Field for SenderSubID { const TAG: Tag = 50; type Value = String; }'',
      [],
      ''/// SendingTime (52).'',
      ''pub struct SendingTime;'',
      ''impl Field for SendingTime { const TAG: Tag = 52; type Value = crate::UtcTimestamp; }'',
      [],
      ''/// TargetCompID (56).'',
      ''pub struct TargetCompID;'',
      ''impl Field for TargetCompID { const TAG: Tag = 56; type Value = String; }'',
      [],
      ''/// TargetSubID (57).'',
      ''pub struct TargetSubID;'',
      ''impl Field for TargetSubID { const TAG: Tag = 57; type Value = String; }'',
      [],
      ''/// Text (58).'',
      ''pub struct Text;'',
      ''impl Field for Text { const TAG: Tag = 58; type Value = String; }'',
      [],
      ''/// Signature (89).'',
      ''pub struct Signature;'',
      ''impl Field for Signature { const TAG: Tag = 89; type Value = Vec<u8>; }'',
      [],
      ''/// SecureDataLen (90).'',
      ''pub struct SecureDataLen;'',
      ''impl Field for SecureDataLen { const TAG: Tag = 90; type Value = i64; }'',
      [],
      ''/// SecureData (91).'',
      ''pub struct SecureData;'',
      ''impl Field for SecureData { const TAG: Tag = 91; type Value = Vec<u8>; }'',
      [],
      ''/// SignatureLength (93).'',
      ''pub struct SignatureLength;'',
      ''impl Field for SignatureLength { const TAG: Tag = 93; type Value = i64; }'',
      [],
      ''/// RawDataLength (95).'',
      ''pub struct RawDataLength;'',
      ''impl Field for RawDataLength { const TAG: Tag = 95; type Value = i64; }'',
      [],
      ''/// RawData (96).'',
      ''pub struct RawData;'',
      ''impl Field for RawData { const TAG: Tag = 96; type Value = Vec<u8>; }'',
      [],
      ''/// PossResend (97).'',
      ''pub struct PossResend;'',
      ''impl Field for PossResend { const TAG: Tag = 97; type Value = bool; }'',
      []]"

definition fields_rs_4 :: bytes where
  "fields_rs_4 = text_lines
     [''/// EncryptMethod (98).'',
      ''pub struct EncryptMethod;'',
      ''impl Field for EncryptMethod { const TAG: Tag = 98; type Value = i64; }'',
      ''impl EncryptMethod {'',
      ''    pub const NONE_OTHER: i64 = 0;'',
      ''    pub const PKCS: i64 = 1;'',
      ''    pub const DES: i64 = 2;'',
      ''    pub const PKCS_DES: i64 = 3;'',
      ''    pub const PGP_DES: i64 = 4;'',
      ''    pub const PGP_DES_MD5: i64 = 5;'',
      ''    pub const PEM_DES_MD5: i64 = 6;'',
      ''}'',
      []]"

definition fields_rs_5 :: bytes where
  "fields_rs_5 = text_lines
     [''/// HeartBtInt (108).'',
      ''pub struct HeartBtInt;'',
      ''impl Field for HeartBtInt { const TAG: Tag = 108; type Value = i64; }'',
      [],
      ''/// TestReqID (112).'',
      ''pub struct TestReqID;'',
      ''impl Field for TestReqID { const TAG: Tag = 112; type Value = String; }'',
      [],
      ''/// OnBehalfOfCompID (115).'',
      ''pub struct OnBehalfOfCompID;'',
      ''impl Field for OnBehalfOfCompID { const TAG: Tag = 115; type Value = String; }'',
      [],
      ''/// OnBehalfOfSubID (116).'',
      ''pub struct OnBehalfOfSubID;'',
      ''impl Field for OnBehalfOfSubID { const TAG: Tag = 116; type Value = String; }'',
      [],
      ''/// OrigSendingTime (122).'',
      ''pub struct OrigSendingTime;'',
      ''impl Field for OrigSendingTime { const TAG: Tag = 122; type Value = crate::UtcTimestamp; }'',
      [],
      ''/// GapFillFlag (123).'',
      ''pub struct GapFillFlag;'',
      ''impl Field for GapFillFlag { const TAG: Tag = 123; type Value = bool; }'',
      [],
      ''/// DeliverToCompID (128).'',
      ''pub struct DeliverToCompID;'',
      ''impl Field for DeliverToCompID { const TAG: Tag = 128; type Value = String; }'',
      [],
      ''/// DeliverToSubID (129).'',
      ''pub struct DeliverToSubID;'',
      ''impl Field for DeliverToSubID { const TAG: Tag = 129; type Value = String; }'',
      [],
      ''/// ResetSeqNumFlag (141).'',
      ''pub struct ResetSeqNumFlag;'',
      ''impl Field for ResetSeqNumFlag { const TAG: Tag = 141; type Value = bool; }'',
      [],
      ''/// SenderLocationID (142).'',
      ''pub struct SenderLocationID;'',
      ''impl Field for SenderLocationID { const TAG: Tag = 142; type Value = String; }'',
      [],
      ''/// TargetLocationID (143).'',
      ''pub struct TargetLocationID;'',
      ''impl Field for TargetLocationID { const TAG: Tag = 143; type Value = String; }'',
      [],
      ''/// OnBehalfOfLocationID (144).'',
      ''pub struct OnBehalfOfLocationID;'',
      ''impl Field for OnBehalfOfLocationID { const TAG: Tag = 144; type Value = String; }'',
      [],
      ''/// DeliverToLocationID (145).'',
      ''pub struct DeliverToLocationID;'',
      ''impl Field for DeliverToLocationID { const TAG: Tag = 145; type Value = String; }'',
      [],
      ''/// XmlDataLen (212).'',
      ''pub struct XmlDataLen;'',
      ''impl Field for XmlDataLen { const TAG: Tag = 212; type Value = i64; }'',
      [],
      ''/// XmlData (213).'',
      ''pub struct XmlData;'',
      ''impl Field for XmlData { const TAG: Tag = 213; type Value = Vec<u8>; }'',
      []]"

definition fields_rs_6 :: bytes where
  "fields_rs_6 = text_lines
     [''/// MessageEncoding (347).'',
      ''pub struct MessageEncoding;'',
      ''impl Field for MessageEncoding { const TAG: Tag = 347; type Value = String; }'',
      ''impl MessageEncoding {'',
      ''    pub const ISO_2022_JP: &'static str = \"ISO-2022-JP\";'',
      ''    pub const EUC_JP: &'static str = \"EUC-JP\";'',
      ''    pub const SHIFT_JIS: &'static str = \"SHIFT_JIS\";'',
      ''    pub const UTF_8: &'static str = \"UTF-8\";'',
      ''}'',
      []]"

definition fields_rs_7 :: bytes where
  "fields_rs_7 = text_lines
     [''/// EncodedTextLen (354).'',
      ''pub struct EncodedTextLen;'',
      ''impl Field for EncodedTextLen { const TAG: Tag = 354; type Value = i64; }'',
      [],
      ''/// EncodedText (355).'',
      ''pub struct EncodedText;'',
      ''impl Field for EncodedText { const TAG: Tag = 355; type Value = Vec<u8>; }'',
      [],
      ''/// LastMsgSeqNumProcessed (369).'',
      ''pub struct LastMsgSeqNumProcessed;'',
      ''impl Field for LastMsgSeqNumProcessed { const TAG: Tag = 369; type Value = i64; }'',
      [],
      ''/// RefTagID (371).'',
      ''pub struct RefTagID;'',
      ''impl Field for RefTagID { const TAG: Tag = 371; type Value = i64; }'',
      [],
      ''/// RefMsgType (372).'',
      ''pub struct RefMsgType;'',
      ''impl Field for RefMsgType { const TAG: Tag = 372; type Value = String; }'',
      []]"

definition fields_rs_8 :: bytes where
  "fields_rs_8 = text_lines
     [''/// SessionRejectReason (373).'',
      ''pub struct SessionRejectReason;'',
      ''impl Field for SessionRejectReason { const TAG: Tag = 373; type Value = i64; }'',
      ''impl SessionRejectReason {'',
      ''    pub const INVALID_TAG_NUMBER: i64 = 0;'',
      ''    pub const REQUIRED_TAG_MISSING: i64 = 1;'',
      ''    pub const SENDINGTIME_ACCURACY_PROBLEM: i64 = 10;'',
      ''    pub const INVALID_MSGTYPE: i64 = 11;'',
      ''    pub const XML_VALIDATION_ERROR: i64 = 12;'',
      ''    pub const TAG_APPEARS_MORE_THAN_ONCE: i64 = 13;'',
      ''    pub const TAG_SPECIFIED_OUT_OF_REQUIRED_ORDER: i64 = 14;'',
      ''    pub const REPEATING_GROUP_FIELDS_OUT_OF_ORDER: i64 = 15;'',
      ''    pub const INCORRECT_NUMINGROUP_COUNT_FOR_REPEATING_GROUP: i64 = 16;'',
      ''    pub const NON_DATA_VALUE_INCLUDES_FIELD_DELIMITER: i64 = 17;'',
      ''    pub const TAG_NOT_DEFINED_FOR_THIS_MESSAGE_TYPE: i64 = 2;'',
      ''    pub const UNDEFINED_TAG: i64 = 3;'',
      ''    pub const TAG_SPECIFIED_WITHOUT_A_VALUE: i64 = 4;'',
      ''    pub const VALUE_IS_INCORRECT: i64 = 5;'',
      ''    pub const INCORRECT_DATA_FORMAT_FOR_VALUE: i64 = 6;'',
      ''    pub const DECRYPTION_PROBLEM: i64 = 7;'',
      ''    pub const SIGNATURE_PROBLEM: i64 = 8;'',
      ''    pub const COMPID_PROBLEM: i64 = 9;'',
      ''    pub const OTHER: i64 = 99;'',
      ''}'',
      []]"

definition fields_rs_9 :: bytes where
  "fields_rs_9 = text_lines
     [''/// MaxMessageSize (383).'',
      ''pub struct MaxMessageSize;'',
      ''impl Field for MaxMessageSize { const TAG: Tag = 383; type Value = i64; }'',
      [],
      ''/// NoMsgTypes (384).'',
      ''pub struct NoMsgTypes;'',
      ''impl Field for NoMsgTypes { const TAG: Tag = 384; type Value = i64; }'',
      []]"

definition fields_rs_10 :: bytes where
  "fields_rs_10 = text_lines
     [''/// MsgDirection (385).'',
      ''pub struct MsgDirection;'',
      ''impl Field for MsgDirection { const TAG: Tag = 385; type Value = char; }'',
      ''impl MsgDirection {'',
      ''    pub const RECEIVE: char = 'R';'',
      ''    pub const SEND: char = 'S';'',
      ''}'',
      []]"

definition fields_rs_11 :: bytes where
  "fields_rs_11 = text_lines
     [''/// TestMessageIndicator (464).'',
      ''pub struct TestMessageIndicator;'',
      ''impl Field for TestMessageIndicator { const TAG: Tag = 464; type Value = bool; }'',
      [],
      ''/// Username (553).'',
      ''pub struct Username;'',
      ''impl Field for Username { const TAG: Tag = 553; type Value = String; }'',
      [],
      ''/// Password (554).'',
      ''pub struct Password;'',
      ''impl Field for Password { const TAG: Tag = 554; type Value = String; }'',
      [],
      ''/// NoHops (627).'',
      ''pub struct NoHops;'',
      ''impl Field for NoHops { const TAG: Tag = 627; type Value = i64; }'',
      [],
      ''/// HopCompID (628).'',
      ''pub struct HopCompID;'',
      ''impl Field for HopCompID { const TAG: Tag = 628; type Value = String; }'',
      [],
      ''/// HopSendingTime (629).'',
      ''pub struct HopSendingTime;'',
      ''impl Field for HopSendingTime { const TAG: Tag = 629; type Value = crate::UtcTimestamp; }'',
      [],
      ''/// HopRefID (630).'',
      ''pub struct HopRefID;'',
      ''impl Field for HopRefID { const TAG: Tag = 630; type Value = i64; }'',
      [],
      ''/// NextExpectedMsgSeqNum (789).'',
      ''pub struct NextExpectedMsgSeqNum;'',
      ''impl Field for NextExpectedMsgSeqNum { const TAG: Tag = 789; type Value = i64; }'',
      []]"

definition fields_rs_12 :: bytes where
  "fields_rs_12 = text_lines
     [''/// ApplVerID (1128).'',
      ''pub struct ApplVerID;'',
      ''impl Field for ApplVerID { const TAG: Tag = 1128; type Value = String; }'',
      ''impl ApplVerID {'',
      ''    pub const FIX27: &'static str = \"0\";'',
      ''    pub const FIX30: &'static str = \"1\";'',
      ''    pub const FIX40: &'static str = \"2\";'',
      ''    pub const FIX41: &'static str = \"3\";'',
      ''    pub const FIX42: &'static str = \"4\";'',
      ''    pub const FIX43: &'static str = \"5\";'',
      ''    pub const FIX44: &'static str = \"6\";'',
      ''    pub const FIX50: &'static str = \"7\";'',
      ''    pub const FIX50SP1: &'static str = \"8\";'',
      ''    pub const FIX50SP2: &'static str = \"9\";'',
      ''}'',
      []]"

definition fields_rs_13 :: bytes where
  "fields_rs_13 = text_lines
     [''/// CstmApplVerID (1129).'',
      ''pub struct CstmApplVerID;'',
      ''impl Field for CstmApplVerID { const TAG: Tag = 1129; type Value = String; }'',
      [],
      ''/// RefApplVerID (1130).'',
      ''pub struct RefApplVerID;'',
      ''impl Field for RefApplVerID { const TAG: Tag = 1130; type Value = String; }'',
      [],
      ''/// RefCstmApplVerID (1131).'',
      ''pub struct RefCstmApplVerID;'',
      ''impl Field for RefCstmApplVerID { const TAG: Tag = 1131; type Value = String; }'',
      [],
      ''/// DefaultApplVerID (1137).'',
      ''pub struct DefaultApplVerID;'',
      ''impl Field for DefaultApplVerID { const TAG: Tag = 1137; type Value = String; }'',
      []]"

definition fields_rs :: bytes where
  "fields_rs = fields_rs_start @ fields_rs_1 @ fields_rs_2 @ fields_rs_3 @ fields_rs_4 @ fields_rs_5 @ fields_rs_6
     @ fields_rs_7 @ fields_rs_8 @ fields_rs_9 @ fields_rs_10 @ fields_rs_11 @ fields_rs_12 @ fields_rs_13"

section \<open>Running the generator\<close>

lemma text_lines_append:
  "text_lines xs @ text_lines ys = text_lines (xs @ ys)" "text_lines xs @ text_lines ys @ zs = text_lines (xs @ ys) @ zs"
  "text_lines [] = []" "writeln s = text_lines [s]"
  by (simp_all add: text_lines_def)

lemma dec_int_tag: "0 \<le> t \<Longrightarrow> t < 10 \<Longrightarrow> dec_int t = [digit_char (nat t)]"
  "10 \<le> t \<Longrightarrow> dec_int t = dec_int (t div 10) @ [digit_char (nat (t mod 10))]"
  by (auto simp: dec_int_def dec_nat.simps nat_div_distrib nat_mod_distrib)

lemma digit_chars:
  "char_of (48 :: nat) = CHR ''0''" "char_of (49 :: nat) = CHR ''1''" "char_of (50 :: nat) = CHR ''2''"
  "char_of (51 :: nat) = CHR ''3''" "char_of (52 :: nat) = CHR ''4''" "char_of (53 :: nat) = CHR ''5''"
  "char_of (54 :: nat) = CHR ''6''" "char_of (55 :: nat) = CHR ''7''" "char_of (56 :: nat) = CHR ''8''"
  "char_of (57 :: nat) = CHR ''9''"
  by (simp_all add: char_of_def bit_0)

lemma fixt11_field_of_all: "list_all (\<lambda>f. field_of fixt11_dictionary (fd_tag f) = Ok f) fixt11_fields"
  using fixt11_field_all by (auto simp: list_all_iff field_of_def)

lemmas fixt11_field_of = fixt11_field_of_all [unfolded fixt11_fields_def, simplified]

lemma names_in_snake_case:
  "snake ''BeginSeqNo'' = ''begin_seq_no''"
  "snake ''EndSeqNo'' = ''end_seq_no''"
  "snake ''NewSeqNo'' = ''new_seq_no''"
  "snake ''RefSeqNum'' = ''ref_seq_num''"
  "snake ''Text'' = ''text''"
  "snake ''RawDataLength'' = ''raw_data_length''"
  "snake ''RawData'' = ''raw_data''"
  "snake ''EncryptMethod'' = ''encrypt_method''"
  "snake ''HeartBtInt'' = ''heart_bt_int''"
  "snake ''TestReqID'' = ''test_req_id''"
  "snake ''GapFillFlag'' = ''gap_fill_flag''"
  "snake ''ResetSeqNumFlag'' = ''reset_seq_num_flag''"
  "snake ''EncodedTextLen'' = ''encoded_text_len''"
  "snake ''EncodedText'' = ''encoded_text''"
  "snake ''RefTagID'' = ''ref_tag_id''"
  "snake ''RefMsgType'' = ''ref_msg_type''"
  "snake ''SessionRejectReason'' = ''session_reject_reason''"
  "snake ''MaxMessageSize'' = ''max_message_size''"
  "snake ''NoMsgTypes'' = ''no_msg_types''"
  "snake ''MsgDirection'' = ''msg_direction''"
  "snake ''TestMessageIndicator'' = ''test_message_indicator''"
  "snake ''Username'' = ''username''"
  "snake ''Password'' = ''password''"
  "snake ''NextExpectedMsgSeqNum'' = ''next_expected_msg_seq_num''"
  "snake ''RefApplVerID'' = ''ref_appl_ver_id''"
  "snake ''RefCstmApplVerID'' = ''ref_cstm_appl_ver_id''"
  "snake ''DefaultApplVerID'' = ''default_appl_ver_id''"
  "snake ''Heartbeat'' = ''heartbeat''"
  "snake ''Logon'' = ''logon''"
  "snake ''Logout'' = ''logout''"
  "snake ''Reject'' = ''reject''"
  "snake ''ResendRequest'' = ''resend_request''"
  "snake ''SequenceReset'' = ''sequence_reset''"
  "snake ''TestRequest'' = ''test_request''"
  by code_simp+

lemmas module_eval =
  gen_message_module_def gen_message_struct_def gen_constructor_def from_message_fn_def deref_impls_def
  gen_field_accessors_def gen_group_accessors_def group_methods_def constructor_arg_def constructor_set_def param_style_def
  template_fn_def group_struct_def gen_group_member_def msg_type_group_def Let_def
  text_lines_append fixt11_field_of names_in_snake_case debug_str_def escape_debug_def byte_of_def dec_int_tag digit_char_def digit_chars

lemma heartbeat_module: "gen_message_module fixt11_dictionary Heartbeat_entry = Ok heartbeat_rs"
  by (simp add: module_eval Heartbeat_entry_def heartbeat_rs_def)

lemma logon_module: "gen_message_module fixt11_dictionary Logon_entry = Ok logon_rs"
  by (simp add: module_eval Logon_entry_def logon_rs_def)

lemma logout_module: "gen_message_module fixt11_dictionary Logout_entry = Ok logout_rs"
  by (simp add: module_eval Logout_entry_def logout_rs_def)

lemma reject_module: "gen_message_module fixt11_dictionary Reject_entry = Ok reject_rs"
  by (simp add: module_eval Reject_entry_def reject_rs_def)

lemma resend_request_module: "gen_message_module fixt11_dictionary ResendRequest_entry = Ok resend_request_rs"
  by (simp add: module_eval ResendRequest_entry_def resend_request_rs_def)

lemma sequence_reset_module: "gen_message_module fixt11_dictionary SequenceReset_entry = Ok sequence_reset_rs"
  by (simp add: module_eval SequenceReset_entry_def sequence_reset_rs_def)

lemma test_request_module: "gen_message_module fixt11_dictionary TestRequest_entry = Ok test_request_rs"
  by (simp add: module_eval TestRequest_entry_def test_request_rs_def)

lemma fixt11_by_name:
  "messages_by_name fixt11_dictionary =
     [Heartbeat_entry, Logon_entry, Logout_entry, Reject_entry, ResendRequest_entry, SequenceReset_entry, TestRequest_entry]"
  by code_simp

lemma messages_generated: "gen_messages fixt11_dictionary = Ok messages_rs"
  unfolding gen_messages_def fixt11_by_name messages_rs_def
  by (simp add: heartbeat_module logon_module logout_module reject_module resend_request_module sequence_reset_module
      test_request_module messages_rs_start_def HEADER_TEXT_def text_lines_append)

lemma mod_generated: "gen_mod fixt11_dictionary = mod_rs"
  unfolding gen_mod_def fixt11_by_name mod_rs_def
  by (simp add: variant_line_def classify_arm_def HEADER_TEXT_def text_lines_append names_in_snake_case entry_defs
      fixt11_dictionary_def debug_str_def escape_debug_def byte_of_def)

section \<open>The fields\<close>

text \<open>A description that is a name already: words of capitals and digits with single underscores between them.\<close>

fun plain_words :: "bool \<Rightarrow> bytes \<Rightarrow> bool" where
  "plain_words sep [] \<longleftrightarrow> \<not> sep"
| "plain_words sep (c # cs) \<longleftrightarrow>
     (if c = CHR ''_'' then \<not> sep \<and> plain_words True cs
      else (ascii_uppercase c \<or> is_digit c) \<and> plain_words False cs)"

definition plain_name :: "bytes \<Rightarrow> bool" where
  "plain_name d \<longleftrightarrow> plain_words True d \<and> \<not> is_digit (hd d)"

lemma push_plain_char: "ascii_uppercase c \<or> is_digit c \<Longrightarrow> push_const_char out c = out @ [c] \<and> c \<noteq> CHR ''_''"
  by (auto simp: push_const_char_def ascii_alnum_def ascii_upper_def ascii_uppercase_def is_digit_def byte_of_def)

lemma push_plain_words:
  "plain_words sep d \<Longrightarrow> \<not> sep \<Longrightarrow> out \<noteq> [] \<and> last out \<noteq> CHR ''_'' \<Longrightarrow>
    foldl push_const_char out d = out @ d \<and> last (out @ d) \<noteq> CHR ''_''"
  "plain_words sep d \<Longrightarrow> sep \<Longrightarrow> foldl push_const_char out d = out @ d \<and> last d \<noteq> CHR ''_'' \<and> d \<noteq> [] \<and> hd d \<noteq> CHR ''_''"
proof (induction d arbitrary: out sep)
  case (Cons c d)
  {
    case 1
    then show ?case
      using Cons.IH(2) [of True "out @ ''_''"] Cons.IH(1) [of False "out @ [c]"] push_plain_char [of c out]
      by (cases "c = CHR ''_''") (auto simp: push_const_char_def ascii_alnum_def ascii_uppercase_def ascii_lowercase_def
          is_digit_def byte_of_def)
  next
    case 2
    then show ?case
      using Cons.IH(1) [of False "out @ [c]"] push_plain_char [of c out]
      by (auto split: if_splits)
  }
qed auto

lemma const_name_plain: "plain_name d \<Longrightarrow> const_name v d = d"
proof -
  assume d: "plain_name d"
  then have p: "foldl push_const_char [] d = d" "last d \<noteq> CHR ''_''" "d \<noteq> []" "hd d \<noteq> CHR ''_''"
    using push_plain_words(2) [of True d "[]"] by (simp_all add: plain_name_def)
  have "dropWhile (\<lambda>c. c = CHR ''_'') d = d" "dropWhile (\<lambda>c. c = CHR ''_'') (rev d) = rev d"
    using p(2-4) by (cases d; simp) (cases d rule: rev_cases; use p in simp)
  then have "trim_underscores d = d" by (simp add: trim_underscores_def)
  then show ?thesis using d p(1,3) by (simp add: const_name_def plain_name_def)
qed

lemma const_lines_plain:
  assumes "list_all (\<lambda>(v, d). plain_name d) vs" and "distinct (map snd vs)" and "set seen \<inter> snd ` set vs = {}"
  shows "const_lines vt seen vs = concat (map (\<lambda>(v, d). const_line vt d v) vs)"
  using assms
proof (induction vs arbitrary: seen)
  case (Cons vd vs)
  then show ?case by (cases vd) (auto simp: const_name_plain Let_def)
qed simp

lemma tree_collect_descending:
  "sorted_wrt (\<lambda>x y. fst x < fst y) xs \<Longrightarrow> tree_collect (rev xs) = xs"
proof -
  assume a: "sorted_wrt (\<lambda>x y. fst x < fst y) xs"
  have "foldr (\<lambda>x. tree_insert (fst x) (snd x)) xs [] = xs"
    using a by (induction xs rule: induct_list012) auto
  then show ?thesis by (simp add: tree_collect_def foldl_conv_foldr case_prod_beta)
qed

lemma fixt11_fields_sorted: "fields_sorted fixt11_dictionary = map (\<lambda>f. (fd_tag f, f)) fixt11_fields"
proof -
  have "sorted_wrt (<) (map fd_tag fixt11_fields)" by (simp add: fixt11_fields_def)
  then show ?thesis
    unfolding fields_sorted_def
    by (subst tree_collect_descending [symmetric]) (simp_all add: sorted_wrt_map fixt11_dictionary_def)
qed

lemma gen_field_entry:
  "gen_field (t, field_entry t n ft []) = text_lines
     [''/// '' @ n @ '' ('' @ dec_int t @ '').'', ''pub struct '' @ n @ '';'',
      ''impl Field for '' @ n @ '' { const TAG: Tag = '' @ dec_int t @ ''; type Value = '' @ value_type ft @ ''; }'', []]"
  by (simp add: gen_field_def text_lines_append)

lemma gen_field_values:
  assumes "list_all (\<lambda>(v, d). plain_name d) vs" and "distinct (map snd vs)" and "vs \<noteq> []"
    and "value_type ft \<in> set [''char'', ''String'', ''i64'']"
  shows "gen_field (t, field_entry t n ft vs) = text_lines
     [''/// '' @ n @ '' ('' @ dec_int t @ '').'', ''pub struct '' @ n @ '';'',
      ''impl Field for '' @ n @ '' { const TAG: Tag = '' @ dec_int t @ ''; type Value = '' @ value_type ft @ ''; }'',
      ''impl '' @ n @ '' {'']
     @ concat (map (\<lambda>(v, d). const_line (value_type ft) d v) vs) @ text_lines [''}'', []]"
  using assms(3,4) const_lines_plain [OF assms(1,2), of "[]"]
  by (auto simp: gen_field_def text_lines_append Let_def)

lemma values_plain:
  "list_all (\<lambda>(v, d). plain_name d) MsgType_values"
  "list_all (\<lambda>(v, d). plain_name d) EncryptMethod_values"
  "list_all (\<lambda>(v, d). plain_name d) MessageEncoding_values"
  "list_all (\<lambda>(v, d). plain_name d) SessionRejectReason_values"
  "list_all (\<lambda>(v, d). plain_name d) MsgDirection_values"
  "list_all (\<lambda>(v, d). plain_name d) ApplVerID_values"
  by (simp_all add: plain_name_def ascii_uppercase_def is_digit_def byte_of_def MsgType_values_def EncryptMethod_values_def MessageEncoding_values_def SessionRejectReason_values_def MsgDirection_values_def ApplVerID_values_def)

lemma values_distinct:
  "distinct (map snd MsgType_values)"
  "distinct (map snd EncryptMethod_values)"
  "distinct (map snd MessageEncoding_values)"
  "distinct (map snd SessionRejectReason_values)"
  "distinct (map snd MsgDirection_values)"
  "distinct (map snd ApplVerID_values)"
  by (simp_all add: MsgType_values_def EncryptMethod_values_def MessageEncoding_values_def SessionRejectReason_values_def MsgDirection_values_def ApplVerID_values_def)

lemmas field_eval = gen_field_entry text_lines_append dec_int_tag digit_char_def digit_chars const_line_def debug_str_def
  escape_debug_def byte_of_def number_eval parse_i64_def

lemma fields_rs_1_generated:
  "concat (map gen_field
      [(7, field_entry 7 ''BeginSeqNo'' FtSeqNum []), (8, field_entry 8 ''BeginString'' FtString []),
       (9, field_entry 9 ''BodyLength'' FtLength []), (10, field_entry 10 ''CheckSum'' FtString []),
       (16, field_entry 16 ''EndSeqNo'' FtSeqNum []), (34, field_entry 34 ''MsgSeqNum'' FtSeqNum [])]) = fields_rs_1"
  by (simp add: field_eval fields_rs_1_def)

lemma fields_rs_2_generated:
  "gen_field (35, field_entry 35 ''MsgType'' FtString MsgType_values) = fields_rs_2"
  using gen_field_values [OF values_plain(1) values_distinct(1), where t = 35 and n = "''MsgType''" and ft = FtString]
  by (simp add: field_eval MsgType_values_def fields_rs_2_def)

lemma fields_rs_3_generated:
  "concat (map gen_field
      [(36, field_entry 36 ''NewSeqNo'' FtSeqNum []), (43, field_entry 43 ''PossDupFlag'' FtBoolean []),
       (45, field_entry 45 ''RefSeqNum'' FtSeqNum []), (49, field_entry 49 ''SenderCompID'' FtString []),
       (50, field_entry 50 ''SenderSubID'' FtString []), (52, field_entry 52 ''SendingTime'' FtUtcTimestamp []),
       (56, field_entry 56 ''TargetCompID'' FtString []), (57, field_entry 57 ''TargetSubID'' FtString []),
       (58, field_entry 58 ''Text'' FtString []), (89, field_entry 89 ''Signature'' FtData []),
       (90, field_entry 90 ''SecureDataLen'' FtLength []), (91, field_entry 91 ''SecureData'' FtData []),
       (93, field_entry 93 ''SignatureLength'' FtLength []), (95, field_entry 95 ''RawDataLength'' FtLength []),
       (96, field_entry 96 ''RawData'' FtData []), (97, field_entry 97 ''PossResend'' FtBoolean [])]) = fields_rs_3"
  by (simp add: field_eval fields_rs_3_def)

lemma fields_rs_4_generated:
  "gen_field (98, field_entry 98 ''EncryptMethod'' FtInt EncryptMethod_values) = fields_rs_4"
  using gen_field_values [OF values_plain(2) values_distinct(2), where t = 98 and n = "''EncryptMethod''" and ft = FtInt]
  by (simp add: field_eval EncryptMethod_values_def fields_rs_4_def)

lemma fields_rs_5_generated:
  "concat (map gen_field
      [(108, field_entry 108 ''HeartBtInt'' FtInt []), (112, field_entry 112 ''TestReqID'' FtString []),
       (115, field_entry 115 ''OnBehalfOfCompID'' FtString []),
       (116, field_entry 116 ''OnBehalfOfSubID'' FtString []),
       (122, field_entry 122 ''OrigSendingTime'' FtUtcTimestamp []),
       (123, field_entry 123 ''GapFillFlag'' FtBoolean []),
       (128, field_entry 128 ''DeliverToCompID'' FtString []),
       (129, field_entry 129 ''DeliverToSubID'' FtString []),
       (141, field_entry 141 ''ResetSeqNumFlag'' FtBoolean []),
       (142, field_entry 142 ''SenderLocationID'' FtString []),
       (143, field_entry 143 ''TargetLocationID'' FtString []),
       (144, field_entry 144 ''OnBehalfOfLocationID'' FtString []),
       (145, field_entry 145 ''DeliverToLocationID'' FtString []),
       (212, field_entry 212 ''XmlDataLen'' FtLength []), (213, field_entry 213 ''XmlData'' FtData [])]) = fields_rs_5"
  by (simp add: field_eval fields_rs_5_def)

lemma fields_rs_6_generated:
  "gen_field (347, field_entry 347 ''MessageEncoding'' FtString MessageEncoding_values) = fields_rs_6"
  using gen_field_values [OF values_plain(3) values_distinct(3), where t = 347 and n = "''MessageEncoding''" and ft = FtString]
  by (simp add: field_eval MessageEncoding_values_def fields_rs_6_def)

lemma fields_rs_7_generated:
  "concat (map gen_field
      [(354, field_entry 354 ''EncodedTextLen'' FtLength []), (355, field_entry 355 ''EncodedText'' FtData []),
       (369, field_entry 369 ''LastMsgSeqNumProcessed'' FtSeqNum []),
       (371, field_entry 371 ''RefTagID'' FtInt []), (372, field_entry 372 ''RefMsgType'' FtString [])]) = fields_rs_7"
  by (simp add: field_eval fields_rs_7_def)

lemma fields_rs_8_generated:
  "gen_field (373, field_entry 373 ''SessionRejectReason'' FtInt SessionRejectReason_values) = fields_rs_8"
  using gen_field_values [OF values_plain(4) values_distinct(4), where t = 373 and n = "''SessionRejectReason''" and ft = FtInt]
  by (simp add: field_eval SessionRejectReason_values_def fields_rs_8_def)

lemma fields_rs_9_generated:
  "concat (map gen_field
      [(383, field_entry 383 ''MaxMessageSize'' FtLength []),
       (384, field_entry 384 ''NoMsgTypes'' FtNumInGroup [])]) = fields_rs_9"
  by (simp add: field_eval fields_rs_9_def)

lemma fields_rs_10_generated:
  "gen_field (385, field_entry 385 ''MsgDirection'' FtChar MsgDirection_values) = fields_rs_10"
  using gen_field_values [OF values_plain(5) values_distinct(5), where t = 385 and n = "''MsgDirection''" and ft = FtChar]
  by (simp add: field_eval MsgDirection_values_def fields_rs_10_def)

lemma fields_rs_11_generated:
  "concat (map gen_field
      [(464, field_entry 464 ''TestMessageIndicator'' FtBoolean []),
       (553, field_entry 553 ''Username'' FtString []), (554, field_entry 554 ''Password'' FtString []),
       (627, field_entry 627 ''NoHops'' FtNumInGroup []), (628, field_entry 628 ''HopCompID'' FtString []),
       (629, field_entry 629 ''HopSendingTime'' FtUtcTimestamp []),
       (630, field_entry 630 ''HopRefID'' FtSeqNum []),
       (789, field_entry 789 ''NextExpectedMsgSeqNum'' FtSeqNum [])]) = fields_rs_11"
  by (simp add: field_eval fields_rs_11_def)

lemma fields_rs_12_generated:
  "gen_field (1128, field_entry 1128 ''ApplVerID'' FtString ApplVerID_values) = fields_rs_12"
  using gen_field_values [OF values_plain(6) values_distinct(6), where t = 1128 and n = "''ApplVerID''" and ft = FtString]
  by (simp add: field_eval ApplVerID_values_def fields_rs_12_def)

lemma fields_rs_13_generated:
  "concat (map gen_field
      [(1129, field_entry 1129 ''CstmApplVerID'' FtString []),
       (1130, field_entry 1130 ''RefApplVerID'' FtString []),
       (1131, field_entry 1131 ''RefCstmApplVerID'' FtString []),
       (1137, field_entry 1137 ''DefaultApplVerID'' FtString [])]) = fields_rs_13"
  by (simp add: field_eval fields_rs_13_def)

lemmas field_chunks = fields_rs_1_generated fields_rs_2_generated fields_rs_3_generated fields_rs_4_generated
  fields_rs_5_generated fields_rs_6_generated fields_rs_7_generated fields_rs_8_generated fields_rs_9_generated
  fields_rs_10_generated fields_rs_11_generated fields_rs_12_generated fields_rs_13_generated

lemma fields_generated: "gen_fields fixt11_dictionary = fields_rs"
proof -
  have "concat (map gen_field (fields_sorted fixt11_dictionary))
      = fields_rs_1 @ fields_rs_2 @ fields_rs_3 @ fields_rs_4 @ fields_rs_5 @ fields_rs_6 @ fields_rs_7 @ fields_rs_8
        @ fields_rs_9 @ fields_rs_10 @ fields_rs_11 @ fields_rs_12 @ fields_rs_13"
    unfolding field_chunks [symmetric] fixt11_fields_sorted by (simp add: fixt11_fields_def)
  moreover have "HEADER_TEXT @ text_lines
      [''//! Typed field markers: `fields::ClOrdID::TAG` etc, with enum value'',
       ''//! constants attached (`fields::Side::BUY`).'', '''',
       ''use crate::field_map::Field;'', ''use crate::message::Tag;'', ''''] = fields_rs_start"
    by (simp add: HEADER_TEXT_def fields_rs_start_def text_lines_append)
  ultimately show ?thesis
    unfolding gen_fields_def fields_rs_def append_assoc [symmetric] by simp
qed

section \<open>The committed modules are what the generator writes\<close>

text \<open>
  Loading \<open>spec/FIXT11.xml\<close> and running the generator on the dictionary writes \<open>fields.rs\<close>,
  \<open>messages.rs\<close> and \<open>mod.rs\<close> of \<open>src/fixt11\<close> byte for byte as they are committed: no file was edited by
  hand, and neither the specification nor the generator has changed since. Two levels of recursion
  are enough for the components and groups of this document.
\<close>

lemma committed_modules_regenerate:
  "call_bind (dictionary_of (Suc (Suc d)) fixt11_spec) (\<lambda>dd. Some (generate dd))
    = Some (Ok (fields_rs, messages_rs, mod_rs))"
  by (simp add: fixt11_dictionary_loads generate_def messages_generated fields_generated mod_generated)

end
