(* ===== verification/Fixt11_Validation.thy ===== *)
theory Fixt11_Validation
  imports Fixt11_Session Fixt11_Dictionary
begin

text \<open>
  The session layer against the FIXT.1.1 dictionary: what a session sends on its own behalf is accepted
  by the validation of a peer that loads \<open>spec/FIXT11.xml\<close>, under any of its settings.
\<close>

section \<open>Checking a field against the dictionary\<close>

definition passes :: "chrono \<Rightarrow> tag \<Rightarrow> bytes \<Rightarrow> bool" where
  "passes ch t v \<longleftrightarrow>
     v \<noteq> [] \<and> (\<exists>fd. map_of (dd_fields_by_tag fixt11_dictionary) t = Some fd \<and> check_format ch fd v
       \<and> (fd_values fd = [] \<or> utf8_ok v \<and> CHR '' '' \<notin> set v \<and> v \<in> set (fd_values fd)))"

lemma split_on_absent: "d \<notin> set v \<Longrightarrow> split_on d v = [v]"
  by (induction v) auto

lemma passes_check:
  assumes "passes ch t v" and "is_body \<Longrightarrow> t \<in> set (md_tags def)"
  shows "check_field ch fixt11_dictionary def vs is_body t v = None"
  using assms by (auto simp: passes_def check_field_def split_on_absent from_utf8_lossy_ok)

lemmas passes_eval = passes_def fixt11_field check_format_def

lemma passes_string:
  "v \<noteq> [] \<Longrightarrow> t \<in> {8, 49, 50, 56, 57, 58, 112, 115, 116, 128, 129, 142, 143, 144, 145, 372, 1137, 10} \<Longrightarrow> passes ch t v"
  by (auto simp: passes_eval)

lemma dec_int_nonempty [simp]: "dec_int i \<noteq> []"
  by (simp add: dec_int_def)

lemma encode_u64_nonempty: "encode_u64 n \<noteq> []"
  by (simp add: encode_u64_def)

lemma passes_number:
  assumes "n < 2 ^ 63" and "t \<in> {7, 16, 34, 36, 45, 108, 369, 789}"
  shows "passes ch t (encode_u64 n)"
proof -
  have "decode_i64 u (encode_u64 n) = Inr (int n)" for u
    using assms(1) by (simp add: decode_i64_def encode_u64_def as_i64_def parse_i64_def parse_signed_dec_int)
  with assms show ?thesis by (auto simp: passes_eval decode_u64_encode encode_u64_nonempty)
qed

lemma passes_flag: "t \<in> {43, 123, 141} \<Longrightarrow> passes ch t (encode_bool b)"
  by (auto simp: passes_eval encode_bool_def)

lemma passes_length: "n < 2 ^ 64 \<Longrightarrow> passes ch 9 (dec_nat n)"
  by (simp add: passes_eval decode_u64_def)

lemma passes_time: "\<not> isl (decode_timestamp ch t v) \<Longrightarrow> t \<in> {52, 122} \<Longrightarrow> passes ch t v"
  by (auto simp: passes_eval decode_timestamp_def precision_of_length_def)

lemma passes_encrypt: "passes ch 98 (encode_int 0)"
  by (simp add: passes_eval EncryptMethod_values_def encode_int_def dec_int_def dec_nat.simps digit_char_def
      utf8_ok_ascii byte_of_def decode_i64_def number_eval parse_i64_def char_of_def bit_0)

lemma passes_ref_tag: "- (2 ^ 63) \<le> i \<Longrightarrow> i < 2 ^ 63 \<Longrightarrow> passes ch 371 (encode_int i)"
  by (simp add: passes_eval encode_int_def decode_i64_def parse_i64_def parse_signed_dec_int)

lemma passes_msg_type: "e \<in> set fixt11_entries \<Longrightarrow> passes ch 35 (md_msg_type e)"
  by (auto simp: passes_def fixt11_field check_format_def fixt11_entries_def entry_defs MsgType_values_def
      utf8_ok_ascii byte_of_def)

lemma passes_reason: "passes ch 373 (encode_u64 (reason_code r))"
proof -
  have "decode_i64 373 (encode_u64 (reason_code r)) = Inr (int (reason_code r))"
    using reason_code_small [of r]
    by (simp add: decode_i64_def encode_u64_def as_i64_def parse_i64_def parse_signed_dec_int)
  then show ?thesis
    by (simp add: passes_eval)
      (cases r; simp add: SessionRejectReason_values_def utf8_ok_ascii byte_of_def encode_u64_small dec_nat.simps digit_char_def char_of_def bit_0)
qed

section \<open>Checking a message on the wire\<close>

definition header_passes :: "chrono \<Rightarrow> message \<Rightarrow> bool" where
  "header_passes ch m \<longleftrightarrow> (\<forall>f \<in> set (header m). passes ch (tv_tag f) (tv_value f))"

lemma set_set_raw: "set (set_raw t v fm) \<subseteq> insert (tv t v) (set fm)"
  by (induction fm) auto

lemma header_passes_set: "passes ch t v \<Longrightarrow> header_passes ch m \<Longrightarrow> header_passes ch (set_header t v m)"
  using set_set_raw [of t v "header m"] by (auto simp: header_passes_def set_header_def)

lemma header_passes_drop: "header_passes ch m \<Longrightarrow> header_passes ch (drop_header t m)"
  by (auto simp: header_passes_def drop_header_def set_fst_fm_remove)

lemma header_passes_set_body [simp]: "header_passes ch (set_body t v m) = header_passes ch m"
  by (simp add: header_passes_def set_body_def)

lemma header_passes_unless_empty:
  "(v \<noteq> [] \<Longrightarrow> passes ch t v) \<Longrightarrow> header_passes ch m \<Longrightarrow> header_passes ch (set_unless_empty t v m)"
  by (simp add: set_unless_empty_def header_passes_set)

lemmas wire_tag_defs = header_tag_defs BODY_LENGTH_def CHECK_SUM_def ON_BEHALF_OF_COMP_ID_def TARGET_SUB_ID_def
  DELIVER_TO_COMP_ID_def ON_BEHALF_OF_SUB_ID_def DELIVER_TO_SUB_ID_def ON_BEHALF_OF_LOCATION_ID_def DELIVER_TO_LOCATION_ID_def

text \<open>What a session of FIXT.1.1 needs for its header fields to be in range.\<close>

definition header_ready :: "('st, 'ap) env \<Rightarrow> ('st, 'ap) session \<Rightarrow> bool" where
  "header_ready e s \<longleftrightarrow>
     the_begin e = ''FIXT.1.1'' \<and> sid_sender_comp_id (the_sid e) \<noteq> [] \<and> sid_target_comp_id (the_sid e) \<noteq> []
     \<and> next_sender e s < 2 ^ 63 \<and> se_last_received_seq s < 2 ^ 63
     \<and> (\<forall>t. \<not> isl (decode_timestamp (en_chrono e) t (encode_timestamp (en_chrono e) (now_stamp e))))"

lemma header_passes_fill:
  assumes "header_ready e s" and "header_passes (en_chrono e) m"
  shows "header_passes (en_chrono e) (fill_header e s m)"
proof -
  note r = assms(1) [unfolded header_ready_def]
  show ?thesis
    unfolding fill_header_def Let_def stamp_sending_time_def wire_tag_defs
    using r assms(2)
    by (simp add: header_passes_set header_passes_unless_empty passes_string passes_number passes_time)
qed

lemma header_passes_route_field:
  assumes "snd p \<in> {115, 116, 128, 129, 144, 145}" and "header_passes ch m"
  shows "header_passes ch (route_field offender b m p)"
  using assms by (cases p) (auto simp: route_field_def intro!: header_passes_set passes_string split: option.splits)

lemma header_passes_route: "header_passes ch m \<Longrightarrow> header_passes ch (reverse_route offender m b)"
  unfolding reverse_route_def route_pairs_def wire_tag_defs by (simp add: header_passes_route_field)

text \<open>The body of a message of the dictionary, without groups.\<close>

definition body_passes :: "chrono \<Rightarrow> message_def \<Rightarrow> field_map \<Rightarrow> bool" where
  "body_passes ch d fm \<longleftrightarrow>
     (\<forall>f \<in> set fm. passes ch (tv_tag f) (tv_value f) \<and> tv_tag f \<in> set (md_tags d) - {384})
     \<and> distinct (map tv_tag fm)"

text \<open>The verdict on a body of which only a required field can be missing.\<close>

definition missing_verdict :: "message_def \<Rightarrow> field_map \<Rightarrow> reject_error option" where
  "missing_verdict d fm = missing_required (md_required d) fm"

lemma entry_types:
  "md_msg_type Heartbeat_entry = ''0''" "md_msg_type TestRequest_entry = ''1''" "md_msg_type ResendRequest_entry = ''2''"
  "md_msg_type Reject_entry = ''3''" "md_msg_type SequenceReset_entry = ''4''" "md_msg_type Logout_entry = ''5''"
  "md_msg_type Logon_entry = ''A''"
  by (simp_all add: entry_defs)

lemma fixt11_messages: "dd_messages fixt11_dictionary = rev (map (\<lambda>d. (md_msg_type d, d)) fixt11_entries)"
  by (simp add: fixt11_dictionary_def fixt11_entries_def entry_types)

lemma entry_facts:
  assumes "d \<in> set fixt11_entries"
  shows "map_of (dd_messages fixt11_dictionary) (md_msg_type d) = Some d" and "utf8_ok (md_msg_type d)"
    and "md_groups d = [] \<or> md_groups d = [(384, msg_type_group)]" and "md_msg_type d \<noteq> ''n''"
proof -
  have "distinct (map md_msg_type fixt11_entries)" by (simp add: fixt11_entries_def entry_types)
  then show "map_of (dd_messages fixt11_dictionary) (md_msg_type d) = Some d"
    using assms unfolding fixt11_messages
    by (intro map_of_is_SomeI) (auto simp: rev_map [symmetric] comp_def)
  have "md_msg_type d \<in> {''0'', ''1'', ''2'', ''3'', ''4'', ''5'', ''A''}"
    using assms unfolding fixt11_entries_def by (auto simp: entry_types)
  then show "utf8_ok (md_msg_type d)" "md_msg_type d \<noteq> ''n''" by (auto simp: utf8_ok_ascii byte_of_def)
  have "list_all (\<lambda>d. md_groups d = [] \<or> md_groups d = [(384, msg_type_group)]) fixt11_entries"
    by (simp add: fixt11_entries_def) (simp add: entry_defs)
  then show "md_groups d = [] \<or> md_groups d = [(384, msg_type_group)]"
    using assms by (simp add: list_all_iff)
qed

lemma body_passes_valid:
  assumes "d \<in> set fixt11_entries" and "body_passes ch d fm"
  shows "delimiters_first (md_groups d) fm" and "counts_match (md_groups d) fm" and "fields_ok ch fixt11_dictionary d vs True fm"
    and "distinct (filter (\<lambda>t. t \<notin> set (group_member_tags d)) (map tv_tag fm))"
proof -
  have no: "get_raw 384 fm = None" if "md_groups d = [(384, msg_type_group)]"
    using assms(2) that by (auto simp: body_passes_def get_raw_None_iff)
  show "delimiters_first (md_groups d) fm"
    using entry_facts(3) [OF assms(1)] no
    by (auto simp: delimiters_first_def msg_type_group_def get_ok_def fm_get_opt_def split: if_splits)
  show "counts_match (md_groups d) fm"
    using entry_facts(3) [OF assms(1)] no by (auto simp: counts_match_def msg_type_group_def)
  show "fields_ok ch fixt11_dictionary d vs True fm"
    using assms(2) by (auto simp: fields_ok_def body_passes_def intro!: passes_check split: if_splits)
  show "distinct (filter (\<lambda>t. t \<notin> set (group_member_tags d)) (map tv_tag fm))"
    using assms(2) by (simp add: body_passes_def)
qed

lemma get_raw_member: "get_raw t fm = Some v \<Longrightarrow> \<exists>f \<in> set fm. tv_tag f = t \<and> tv_value f = v"
  by (induction fm) (auto split: if_splits)

lemma fixt11_required:
  "dd_header_required fixt11_dictionary = [8, 9, 35, 49, 56, 34, 52]" "dd_trailer_required fixt11_dictionary = [10]"
  by (simp_all add: fixt11_dictionary_def)

text \<open>When everything else is in order, the verdict is that on the required fields of the body.\<close>

lemma validate_up_to_missing:
  assumes "structure_error m = None" and "delimiters_first (md_groups d) (body m)"
    and "\<forall>t \<in> set (dd_header_required dd). contains t (header m)" and "\<forall>t \<in> set (dd_trailer_required dd). contains t (trailer m)"
    and "distinct (filter (\<lambda>t. t \<notin> set (group_member_tags d)) (map tv_tag (body m)))" and "counts_match (md_groups d) (body m)"
    and "fields_ok ch dd d vs False (header m)" and "fields_ok ch dd d vs True (body m)" and "fields_ok ch dd d vs False (trailer m)"
  shows "validate_with_def ch dd d m vs = missing_required (md_required d) (body m)"
proof (cases "missing_required (md_required d) (body m)")
  case None
  then have "\<forall>t \<in> set (md_required d). contains t (body m)" by (auto simp: missing_required_def split: if_splits)
  with assms None show ?thesis
    using validate_with_def_None [of ch dd d m vs] by (simp add: every_check_passes_def)
next
  case (Some r)
  have "check_delimiters (md_groups d) (body m) (body m) = None"
    using assms(2) unfolding check_delimiters_None delimiters_first_def .
  moreover have "missing_required (dd_header_required dd) (header m) = None" "missing_required (dd_trailer_required dd) (trailer m) = None"
    using assms(3,4) by (simp_all add: missing_required_def)
  ultimately show ?thesis
    using Some assms(1) by (simp add: validate_with_def_def)
qed

lemma wire_form_verdict:
  assumes "header_passes ch m" and "d \<in> set fixt11_entries" and "get_raw 35 (header m) = Some (md_msg_type d)"
    and "\<forall>t \<in> {8, 34, 49, 52, 56}. get_raw t (header m) \<noteq> None" and "trailer m = []"
    and "body_passes ch d (body m)" and "message_wf m"
  shows "validate ch fixt11_dictionary (wire_form m) vs = missing_verdict d (body m)"
proof -
  note d = entry_facts [OF assms(2)]
  obtain b where b: "get_raw 8 (header m) = Some b" using assms(4) by auto
  then have "passes ch 8 b" using assms(1) get_raw_member [of 8 "header m" b] by (auto simp: header_passes_def)
  have h: "header (wire_form m) = tv 8 b # tv 9 (dec_nat (length (to_bytes_inner m))) # tv 35 (md_msg_type d) # header_rest (header m)"
    using b assms(3) by (simp add: wire_form_def begin_string_of_def msg_type_field_def wire_tag_defs)
  have "length (to_bytes_inner m) < 2 ^ 64"
    using assms(7) by (simp add: message_wf_def to_bytes_def Let_def)
  then have "fields_ok ch fixt11_dictionary d vs False (header (wire_form m))"
    using assms(1,2) \<open>passes ch 8 b\<close> unfolding h fields_ok_def header_passes_def
    by (auto simp: passes_check passes_length passes_msg_type header_rest_def)
  moreover have "contains t (header (wire_form m))" if "t \<in> {8, 9, 35, 49, 56, 34, 52}" for t
    using that assms(4) unfolding h contains_iff by (auto simp: header_rest_def wire_tag_defs get_raw_None_iff)
  moreover have "fields_ok ch fixt11_dictionary d vs False (trailer (wire_form m))" "contains 10 (trailer (wire_form m))"
    using assms(5) by (auto simp: wire_form_def trailer_rest_def fields_ok_def wire_tag_defs contains_iff pad_zero_def
        intro!: passes_check passes_string)
  moreover have "get_string MSG_TYPE (header (wire_form m)) = Inr (md_msg_type d)"
    using d(2) by (simp add: h get_string_def fm_get_def wire_tag_defs decode_string_def)
  moreover have "structure_error (wire_form m) = None" by (simp add: wire_form_def)
  ultimately show ?thesis
    using d(1,4) body_passes_valid [OF assms(2,6)]
    by (simp add: validate_def validate_up_to_missing fixt11_required wire_form_reads missing_verdict_def)
qed

section \<open>What the session sends on its own behalf\<close>

text \<open>
  The messages handed to \<open>send_message\<close> by the session itself, one rule for each call in
  \<open>session.rs\<close> of an administrative message: the timer's heartbeat and test request
  (\<open>on_protocol_deadline\<close>), the answer to a test request (\<open>handle_test_request\<close>),
  \<open>initiate_logout\<close>, \<open>send_resend_request\<close>, \<open>send_logon\<close>, \<open>send_logon_reply\<close> and \<open>send_reject\<close>. The only
  other ones are the business reject, an application message, and what the user sends; and past
  \<open>send_message\<close> go the gap fills of \<open>send_gap_fill\<close> and the stored messages that are resent.
\<close>

inductive session_builds :: "('st, 'ap) env \<Rightarrow> ('st, 'ap) session \<Rightarrow> message \<Rightarrow> message_def \<Rightarrow> bool"
  for e :: "('st, 'ap) env" and s :: "('st, 'ap) session" where
  builds_heartbeat: "session_builds e s (with_type MT_HEARTBEAT) Heartbeat_entry"
| builds_reply: "get_raw TEST_REQ_ID (body m) \<noteq> Some [] \<Longrightarrow> session_builds e s (heartbeat_reply m) Heartbeat_entry"
| builds_test: "session_builds e s test_request_message TestRequest_entry"
| builds_logout: "session_builds e s (logout_message reason) Logout_entry"
| builds_request: "n < 2 ^ 63 \<Longrightarrow> resend_end_field e c < 2 ^ 63 \<Longrightarrow>
    session_builds e s (resend_request_message e n c) ResendRequest_entry"
| builds_logon: "cfg_default_appl_ver_id (en_cfg e) = Some v \<Longrightarrow> appl_ver_id_enum v \<noteq> [] \<Longrightarrow>
    as_secs (se_heart_bt_int s) < 2 ^ 63 \<Longrightarrow> next_target e s < 2 ^ 63 \<Longrightarrow> session_builds e s (logon_message e s) Logon_entry"
| builds_logon_reply: "cfg_default_appl_ver_id (en_cfg e) = Some v \<Longrightarrow> appl_ver_id_enum v \<noteq> [] \<Longrightarrow>
    as_secs (se_heart_bt_int s) < 2 ^ 63 \<Longrightarrow> next_target e s + 1 < 2 ^ 63 \<Longrightarrow>
    session_builds e s (logon_reply_message e s) Logon_entry"
| builds_reject: "(\<And>n. seq_num offender = Inr n \<Longrightarrow> n < 2 ^ 63) \<Longrightarrow> msg_type offender \<noteq> Inr [] \<Longrightarrow> reject_text e rej \<noteq> [] \<Longrightarrow>
    (\<And>t. rej_ref_tag rej = Some t \<Longrightarrow> - (2 ^ 31) \<le> t \<and> t < 2 ^ 31) \<Longrightarrow>
    session_builds e s (reject_message e offender rej) Reject_entry"

lemma body_passes_mset: "mset fm = mset fm' \<Longrightarrow> body_passes ch d fm = body_passes ch d fm'"
  using mset_eq_setD [of fm fm'] mset_eq_imp_distinct_iff [of "map tv_tag fm" "map tv_tag fm'"]
  by (simp add: body_passes_def)

lemma route_body: "body (reverse_route offender m b) = body m" "trailer (reverse_route offender m b) = trailer m"
proof -
  have "body (foldl (route_field offender b) m ps) = body m \<and> trailer (foldl (route_field offender b) m ps) = trailer m" for ps
    by (induction ps arbitrary: m) (auto simp: route_field_def split: option.splits)
  then show "body (reverse_route offender m b) = body m" "trailer (reverse_route offender m b) = trailer m"
    by (simp_all add: reverse_route_def)
qed

lemma new_message: "body (with_type mt) = []" "trailer (with_type mt) = []" "get_raw 35 (header (with_type mt)) = Some mt"
  by (simp_all add: with_type_def message_new_def set_header_def wire_tag_defs)

lemmas builds_eval = body_passes_def entry_defs heartbeat_reply_def test_request_message_def logout_message_def
  resend_request_message_def logon_message_def logon_reply_message_def reject_message_def set_appl_ver_def set_ref_seq_def set_ref_type_def
  session_tags set_body_def Let_def route_body new_message

lemma session_builds_body:
  assumes "session_builds e s m d" and "the_begin e = ''FIXT.1.1''"
  shows "body_passes ch d (body m)"
  using assms(1)
proof cases
  case (builds_reply m0)
  then show ?thesis by (cases "get_raw 112 (body m0)") (auto simp: builds_eval intro!: passes_string)
next
  case (builds_logon v)
  then show ?thesis
    by (simp add: builds_eval passes_string passes_number passes_flag passes_encrypt)
next
  case (builds_logon_reply v)
  then have "u64_add (next_target e s) 1 < 2 ^ 63" by (simp add: u64_add_exact)
  with builds_logon_reply show ?thesis
    by (simp add: builds_eval passes_string passes_number passes_flag passes_encrypt)
next
  case (builds_reject offender rej)
  then show ?thesis
    using assms(2)
    by (auto simp: builds_eval fix42_plus_def is_fixt_def passes_string passes_number passes_ref_tag passes_reason
        split: option.splits sum.splits)
qed (simp_all add: builds_eval passes_string passes_number)

text \<open>The only required field that can be missing is the number in a reject.\<close>

lemma missing_verdict_perm: "mset fm = mset fm' \<Longrightarrow> missing_verdict d fm = missing_verdict d fm'"
  using mset_eq_setD [of fm fm'] by (simp add: missing_verdict_def missing_required_def contains_iff)

lemma session_builds_verdict:
  assumes "session_builds e s m d"
  shows "missing_verdict d (body m) =
    (if md_msg_type d = MT_REJECT \<and> 45 \<notin> tv_tag ` set (body m) then Some (reject_with_tag RequiredTagMissing 45) else None)"
  using assms
proof cases
  case (builds_reply m0)
  then show ?thesis by (simp add: missing_verdict_def missing_required_def entry_defs session_types)
next
  case (builds_reject offender rej)
  then show ?thesis
    by (simp add: missing_verdict_def missing_required_def entry_types session_types contains_iff)
      (simp add: entry_defs contains_iff)
qed (auto simp: missing_verdict_def missing_required_def builds_eval session_types contains_iff)

lemma header_passes_new: "d \<in> set fixt11_entries \<Longrightarrow> header_passes ch (with_type (md_msg_type d))"
  by (simp add: header_passes_def with_type_def message_new_def set_header_def wire_tag_defs passes_msg_type)

lemma route_type: "get_raw 35 (header (reverse_route offender m b)) = get_raw 35 (header m)"
  unfolding reverse_route_def route_pairs_def wire_tag_defs by (simp add: route_field_def split: option.splits)

lemma session_builds_header:
  assumes "session_builds e s m d"
  shows "d \<in> set fixt11_entries \<and> header_passes ch m \<and> get_raw 35 (header m) = Some (md_msg_type d) \<and> trailer m = []"
proof -
  have m: "d \<in> set fixt11_entries" and h: "header m = header (with_type (md_msg_type d))
      \<or> (\<exists>off b. header m = header (reverse_route off (with_type (md_msg_type d)) b))" and t: "trailer m = []"
    using assms
    by (cases; auto simp: fixt11_entries_def session_types entry_types heartbeat_reply_def test_request_message_def logout_message_def
        resend_request_message_def logon_message_def logon_reply_message_def set_appl_ver_def reject_message_def set_ref_seq_def set_ref_type_def
        Let_def set_body_def route_body new_message split: option.splits sum.splits)+
  have "header_passes ch m = header_passes ch m'" if "header m = header m'" for m' using that by (simp add: header_passes_def)
  with h have "header_passes ch m" using header_passes_new [OF m] header_passes_route by metis
  with m h t show ?thesis by (auto simp: new_message route_type)
qed

inductive session_sends :: "('st, 'ap) env \<Rightarrow> ('st, 'ap) session \<Rightarrow> message \<Rightarrow> bool"
  for e :: "('st, 'ap) env" and s :: "('st, 'ap) session" where
  sends_built: "session_builds e s m d \<Longrightarrow> session_sends e s (outgoing e s m)"
| sends_gap_fill: "b < 2 ^ 63 \<Longrightarrow> new_seq < 2 ^ 63 \<Longrightarrow> session_sends e s (gap_fill_message e s b new_seq)"

lemma fill_header_trailer: "trailer (fill_header e s m) = trailer m"
  by (simp add: fill_header_def Let_def stamp_sending_time_def set_unless_empty_def)

lemma outgoing_parts:
  "header (outgoing e s m) = header (prepare e s m)" "trailer (outgoing e s m) = trailer m"
  by (simp_all add: outgoing_def canonical_def canonicalize_body_def prepare_def drop_header_def fill_header_trailer
      split: option.splits sum.splits)

lemma header_filled: "t \<in> {8, 34, 49, 52, 56} \<Longrightarrow> get_raw t (header (fill_header e s m)) \<noteq> None"
  by auto

text \<open>A reject that names no message.\<close>

definition numberless_reject :: "message \<Rightarrow> bool" where
  "numberless_reject m \<longleftrightarrow> get_raw MSG_TYPE (header m) = Some MT_REJECT \<and> get_raw REF_SEQ_NUM (body m) = None"

lemma session_sends_verdict:
  assumes "session_sends e s m" and "header_ready e s" and "message_wf m"
  shows "validate (en_chrono e) fixt11_dictionary (wire_form m) vs =
    (if numberless_reject m then Some (reject_with_tag RequiredTagMissing REF_SEQ_NUM) else None)"
  using assms(1)
proof cases
  case (sends_built m0 d)
  note h = session_builds_header [OF sends_built(2), of "en_chrono e"]
  have "the_begin e = ''FIXT.1.1''" using assms(2) by (simp add: header_ready_def)
  note b = session_builds_body [OF sends_built(2) this, of "en_chrono e"]
  have t: "get_raw 35 (header m) = Some (md_msg_type d)"
    using h by (simp add: sends_built(1) outgoing_parts prepare_def wire_tag_defs)
  have perm: "mset (body m) = mset (body m0)" unfolding sends_built(1) by (rule outgoing_fresh(2))
  have "validate (en_chrono e) fixt11_dictionary (wire_form m) vs = missing_verdict d (body m)"
  proof (rule wire_form_verdict [OF _ _ t _ _ _ assms(3)])
    have "header_passes (en_chrono e) (prepare e s m0)"
      unfolding prepare_def using assms(2) h by (intro header_passes_fill header_passes_drop) auto
    then show "header_passes (en_chrono e) m" by (simp add: sends_built(1) outgoing_parts header_passes_def)
    show "\<forall>t \<in> {8, 34, 49, 52, 56}. get_raw t (header m) \<noteq> None"
      using header_filled by (simp add: sends_built(1) outgoing_parts prepare_def)
    show "body_passes (en_chrono e) d (body m)" unfolding body_passes_mset [OF perm] by (rule b)
  qed (use h in \<open>simp_all add: sends_built(1) outgoing_parts\<close>)
  also have "\<dots> = (if numberless_reject m then Some (reject_with_tag RequiredTagMissing REF_SEQ_NUM) else None)"
    unfolding missing_verdict_perm [OF perm] session_builds_verdict [OF sends_built(2)]
    using t mset_eq_setD [OF perm] by (simp add: numberless_reject_def session_tags wire_tag_defs get_raw_None_iff)
  finally show ?thesis .
next
  case (sends_gap_fill b new_seq)
  have "validate (en_chrono e) fixt11_dictionary (wire_form m) vs = missing_verdict SequenceReset_entry (body m)"
  proof (rule wire_form_verdict [OF _ _ _ _ _ _ assms(3)])
    have d: "SequenceReset_entry \<in> set fixt11_entries" by (simp add: fixt11_entries_def)
    have "header_passes (en_chrono e) (fill_header e s (with_type MT_SEQUENCE_RESET))"
      using header_passes_fill [OF assms(2) header_passes_new [OF d]] by (simp add: entry_types session_types)
    moreover have "passes (en_chrono e) 122 (encode_timestamp (en_chrono e) (now_stamp e))"
      using assms(2) by (simp add: header_ready_def passes_time)
    ultimately show "header_passes (en_chrono e) m"
      using sends_gap_fill by (simp add: gap_fill_message_def Let_def wire_tag_defs header_passes_set passes_flag passes_number)
    show "body_passes (en_chrono e) SequenceReset_entry (body m)"
      using sends_gap_fill
      by (simp add: gap_fill_message_def builds_eval passes_flag passes_number)
  qed (use sends_gap_fill in \<open>simp_all add: fixt11_entries_def gap_fill_message_def Let_def wire_tag_defs new_message entry_types session_types
        set_body_def fill_header_trailer\<close>)
  moreover have "missing_verdict SequenceReset_entry (body m) = None"
    using sends_gap_fill by (simp add: missing_verdict_def missing_required_def gap_fill_message_def builds_eval contains_iff)
  moreover have "\<not> numberless_reject m"
    using sends_gap_fill by (simp add: numberless_reject_def gap_fill_message_def Let_def wire_tag_defs new_message session_types set_body_def)
  ultimately show ?thesis by simp
qed

text \<open>The reject of a message without a readable number is such a one.\<close>

lemma numberless_offender:
  assumes "seq_num offender = Inl er"
  shows "numberless_reject (outgoing e s (reject_message e offender rej))"
proof -
  have "get_raw 45 (body (reject_message e offender rej)) = None"
    using assms by (simp add: builds_eval split: option.split sum.split)
  then have "45 \<notin> tv_tag ` set (body (outgoing e s (reject_message e offender rej)))"
    using mset_eq_setD [OF outgoing_fresh(2) [of e s "reject_message e offender rej"]] by (simp add: get_raw_None_iff)
  moreover have "get_raw 35 (header (reject_message e offender rej)) = Some MT_REJECT"
    by (simp add: reject_message_def set_ref_seq_def set_ref_type_def set_body_def Let_def route_type new_message split: option.split sum.split)
  ultimately show ?thesis
    by (simp add: numberless_reject_def session_tags get_raw_None_iff outgoing_parts prepare_def wire_tag_defs)
qed

text \<open>
  C34. Every administrative message that a FIXT.1.1 session sends on its own behalf is valid under the
  FIXT.1.1 dictionary, with one exception: heartbeats, test requests and the replies to them, resend
  requests, rejects, logouts, the logon of a session with a default application version and the reply
  to one, and gap fills. The frame parses, and the peer's validation against \<open>spec/FIXT11.xml\<close> raises no
  reject, whatever its settings - except for the reject of a message without a readable MsgSeqNum, which
  has no RefSeqNum and is refused for it. This holds provided that the identities are not empty, the
  numbers are below \<open>2^63\<close>, the clock's timestamps are read back, the reject has a text, and an echoed
  TestReqID or MsgType is not empty.
\<close>

theorem session_messages_validate:
  assumes "session_sends e s m" and "header_ready e s" and "message_wf m"
  shows "\<exists>m'. message_parse (to_bytes m) validating = Ok m'
    \<and> validate (en_chrono e) fixt11_dictionary m' vs =
      (if numberless_reject m then Some (reject_with_tag RequiredTagMissing REF_SEQ_NUM) else None)"
  using parse_to_bytes [OF assms(3)] session_sends_verdict [OF assms] by blast

definition sample_test_request :: message where
  "sample_test_request = outgoing fixt_env online_session test_request_message"

lemma sample_test_request_parts:
  "header sample_test_request = [tv 35 ''1'', tv 8 ''FIXT.1.1'', tv 49 ''SRV'', tv 56 ''CLI'', tv 34 ''1'',
     tv 52 ''19700101-00:00:00.000'']"
  "body sample_test_request = [tv 112 ''TEST'']" "trailer sample_test_request = []"
  by (simp_all add: sample_test_request_def test_request_message_def fixt_env_def outgoing_def canonical_def prepare_def fill_header_def
      with_type_def message_new_def set_header_def set_body_def set_unless_empty_def drop_header_def fm_remove_def
      sample_simps sample_cfg_def session_id_new_def encode_timestamp_def sample_chrono_def now_stamp_def stamp_sending_time_def
      next_sender_def online_store memory_store_new_def memory_ops_def encode_u64_def as_i64_def bytes_simps Let_def
      session_types session_tags wire_tag_defs)

lemma sample_test_request_wf: "message_wf sample_test_request"
proof (rule small_message_wf)
  have f: "wire_fields sample_test_request =
    [tv 35 ''1'', tv 34 ''1'', tv 49 ''SRV'', tv 52 ''19700101-00:00:00.000'', tv 56 ''CLI'', tv 112 ''TEST'']"
    by (simp add: wire_fields_def sample_test_request_parts msg_type_field_def header_rest_def trailer_rest_def)
  show "wire_ok None (wire_fields sample_test_request)" "length (write_to (wire_fields sample_test_request)) < 2 ^ 20"
    unfolding f by (simp_all add: small_wire)
qed (simp_all add: sample_test_request_parts begin_string_of_def small_wire)

theorem session_messages_validate_witness:
  "\<exists>m'. message_parse (to_bytes sample_test_request) True = Ok m'
     \<and> validate sample_chrono fixt11_dictionary m' validation_default = None"
proof -
  have "session_sends fixt_env online_session sample_test_request"
    unfolding sample_test_request_def by (rule sends_built [OF builds_test])
  moreover have "header_ready fixt_env online_session"
    by (simp add: header_ready_def fixt_env_def sample_simps sample_cfg_def session_id_new_def next_sender_def online_store
        memory_store_new_def memory_ops_def online_session_def attached_session_eq fresh_session_def session_spawn_def
        encode_timestamp_def sample_chrono_def now_stamp_def decode_timestamp_def precision_of_length_def utf8_ok_ascii byte_of_def)
  moreover have "en_chrono fixt_env = sample_chrono" by (simp add: fixt_env_def sample_env_def)
  moreover have "\<not> numberless_reject sample_test_request"
    by (simp add: numberless_reject_def sample_test_request_parts session_types)
  ultimately show ?thesis
    using session_messages_validate [of fixt_env online_session sample_test_request] sample_test_request_wf by auto
qed

end
