(* ===== verification/Validation_Spec.thy ===== *)
theory Validation_Spec
  imports Session_Sample
begin

text \<open>
  What the validation of a received message accepts, stated on the text of its frame: how a frame is
  cut into fields, in which order the sections come, and for each type of the dictionary which texts
  are its values. None of it uses the checks of \<open>Data_Dictionary\<close>; the lemmas show that they decide it.
\<close>

section \<open>Texts of numbers\<close>

definition digit_text :: "bytes \<Rightarrow> bool" where
  "digit_text ds \<longleftrightarrow> ds \<noteq> [] \<and> list_all is_digit ds"

definition decimal :: "bytes \<Rightarrow> nat" where
  "decimal ds = foldl (\<lambda>n c. 10 * n + digit_val c) 0 ds"

text \<open>An unsigned 64-bit number may carry a plus sign, a signed one either sign.\<close>

definition unsigned_text :: "bytes \<Rightarrow> nat \<Rightarrow> bool" where
  "unsigned_text v n \<longleftrightarrow>
     (\<exists>ds. digit_text ds \<and> (v = ds \<or> v = CHR ''+'' # ds) \<and> n = decimal ds \<and> n < 2 ^ 64)"

definition signed_text :: "bytes \<Rightarrow> bool" where
  "signed_text v \<longleftrightarrow>
     (\<exists>ds. digit_text ds \<and>
        ((v = ds \<or> v = CHR ''+'' # ds) \<and> decimal ds < 2 ^ 63 \<or> v = CHR ''-'' # ds \<and> decimal ds \<le> 2 ^ 63))"

text \<open>A decimal fraction: an optional minus, digits with at most one point among or beside them.\<close>

definition float_text :: "bytes \<Rightarrow> bool" where
  "float_text v \<longleftrightarrow>
     (\<exists>sign whole point frac. v = sign @ whole @ point @ frac \<and> sign \<in> {[], ''-''} \<and> point \<in> {[], ''.''}
        \<and> list_all is_digit whole \<and> list_all is_digit frac \<and> whole @ frac \<noteq> [])"

lemma digits_val_decimal: "digits_val a ds = (if list_all is_digit ds then Some (foldl (\<lambda>n c. 10 * n + digit_val c) a ds) else None)"
  by (induction ds arbitrary: a) auto

lemma digits_val_text: "digits_val 0 ds = (if list_all is_digit ds then Some (decimal ds) else None)"
  by (simp add: digits_val_decimal decimal_def)

lemma sign_no_digit [simp]: "\<not> is_digit (CHR ''+'')" "\<not> is_digit (CHR ''-'')" "\<not> is_digit (CHR ''.'')"
  by (simp_all add: is_digit_def byte_of_def)

lemma parse_u64_iff: "parse_u64 v = Some n \<longleftrightarrow> unsigned_text v n"
proof -
  have "parse_u64 v = Some n \<longleftrightarrow> digit_text (strip_plus v) \<and> n = decimal (strip_plus v) \<and> n < 2 ^ 64"
    by (auto simp: parse_u64_def parse_unsigned_def digits_val_text digit_text_def split: option.splits)
  also have "\<dots> \<longleftrightarrow> unsigned_text v n"
    by (cases v) (auto simp: unsigned_text_def strip_plus_def digit_text_def)
  finally show ?thesis .
qed

lemma parse_i64_iff: "parse_i64 v \<noteq> None \<longleftrightarrow> signed_text v"
proof (cases v)
  case Nil
  then show ?thesis by (auto simp: parse_i64_def parse_signed_def signed_text_def digit_text_def)
next
  case (Cons c cs)
  show ?thesis
  proof (cases "c = CHR ''-''")
    case True
    with Cons show ?thesis
      by (auto simp: parse_i64_def parse_signed_def signed_text_def digit_text_def digits_val_text split: option.splits)
  next
    case False
    have "parse_i64 v \<noteq> None \<longleftrightarrow> digit_text (strip_plus v) \<and> decimal (strip_plus v) < 2 ^ 63"
      using False Cons
      by (auto simp: parse_i64_def parse_signed_def digit_text_def digits_val_text split: option.splits)
    also have "\<dots> \<longleftrightarrow> signed_text v"
      using False Cons by (auto simp: signed_text_def strip_plus_def digit_text_def)
    finally show ?thesis .
  qed
qed

lemma float_body_iff:
  "float_body b \<longleftrightarrow> (\<exists>whole point frac. b = whole @ point @ frac \<and> point \<in> {[], ''.''}
     \<and> list_all is_digit whole \<and> list_all is_digit frac \<and> whole @ frac \<noteq> [])"
proof
  assume b: "float_body b"
  show "\<exists>whole point frac. b = whole @ point @ frac \<and> point \<in> {[], ''.''}
     \<and> list_all is_digit whole \<and> list_all is_digit frac \<and> whole @ frac \<noteq> []"
  proof (cases "CHR ''.'' \<in> set b")
    case False
    with b show ?thesis
      by (intro exI [of _ b] exI [of _ "[]"]) (auto simp: float_body_def list_all_iff list_ex_iff)
  next
    case True
    then obtain whole frac where w: "b = whole @ CHR ''.'' # frac" "CHR ''.'' \<notin> set whole"
      by (meson split_list_first)
    then have "filter (\<lambda>c. c = CHR ''.'') whole = []" by (auto simp: filter_empty_conv)
    with b w have "CHR ''.'' \<notin> set frac" by (auto simp: float_body_def filter_empty_conv)
    with b w show ?thesis
      by (intro exI [of _ whole] exI [of _ "''.''"] exI [of _ frac]) (auto simp: float_body_def list_all_iff list_ex_iff)
  qed
next
  have no: "list_all is_digit ds \<Longrightarrow> filter (\<lambda>c. c = CHR ''.'') ds = []" for ds
    by (auto simp: list_all_iff filter_empty_conv)
  assume "\<exists>whole point frac. b = whole @ point @ frac \<and> point \<in> {[], ''.''}
     \<and> list_all is_digit whole \<and> list_all is_digit frac \<and> whole @ frac \<noteq> []"
  then show "float_body b"
    using no by (auto simp: float_body_def list_all_iff list_ex_iff neq_Nil_conv)
qed

lemma decode_f64_ok_iff: "decode_f64_ok v \<longleftrightarrow> float_text v"
proof -
  have charset: "float_body b \<Longrightarrow> float_charset b" for b by (auto simp: float_body_def float_charset_def list_all_iff)
  have minus: "\<not> float_body (CHR ''-'' # b)" for b by (simp add: float_body_def)
  have "decode_f64_ok v \<longleftrightarrow> (\<exists>sign b. v = sign @ b \<and> sign \<in> {[], ''-''} \<and> float_body b)"
  proof (cases "\<exists>b. v = CHR ''-'' # b")
    case True
    then obtain b where v: "v = CHR ''-'' # b" ..
    have "decode_f64_ok v \<longleftrightarrow> float_body b"
      using charset [of b] by (auto simp: v decode_f64_ok_def float_charset_def)
    moreover have "(\<exists>sign a. v = sign @ a \<and> sign \<in> {[], ''-''} \<and> float_body a) \<longleftrightarrow> float_body b"
    proof
      assume "float_body b"
      then show "\<exists>sign a. v = sign @ a \<and> sign \<in> {[], ''-''} \<and> float_body a"
        by (intro exI [of _ "''-''"] exI [of _ b]) (simp add: v)
    qed (use minus in \<open>auto simp: v\<close>)
    ultimately show ?thesis by simp
  next
    case False
    then have "decode_f64_ok v \<longleftrightarrow> float_body v"
      using charset [of v] by (auto simp: decode_f64_ok_def split: list.splits)
    then show ?thesis using False by auto
  qed
  also have "\<dots> \<longleftrightarrow> float_text v"
    unfolding float_body_iff float_text_def by blast
  finally show ?thesis .
qed

section \<open>The values of a field\<close>

text \<open>Calendar texts are the parameter's; a timestamp has one of four lengths, by its precision.\<close>

definition timestamp_text :: "chrono \<Rightarrow> bytes \<Rightarrow> bool" where
  "timestamp_text ch v \<longleftrightarrow>
     utf8_ok v \<and> (\<exists>(p, n) \<in> {(Seconds, 17), (Millis, 21), (Micros, 24), (Nanos, 27)}.
       length v = n \<and> ch_parse ch (ts_format p) v \<noteq> None)"

fun value_format :: "chrono \<Rightarrow> field_type \<Rightarrow> bytes \<Rightarrow> bool" where
  "value_format ch FtInt v \<longleftrightarrow> signed_text v"
| "value_format ch FtLength v \<longleftrightarrow> (\<exists>n. unsigned_text v n)"
| "value_format ch FtSeqNum v \<longleftrightarrow> (\<exists>n. unsigned_text v n)"
| "value_format ch FtNumInGroup v \<longleftrightarrow> (\<exists>n. unsigned_text v n)"
| "value_format ch FtDayOfMonth v \<longleftrightarrow> (\<exists>n \<in> {1..31}. unsigned_text v n)"
| "value_format ch FtFloat v \<longleftrightarrow> float_text v"
| "value_format ch FtQty v \<longleftrightarrow> float_text v"
| "value_format ch FtPrice v \<longleftrightarrow> float_text v"
| "value_format ch FtPriceOffset v \<longleftrightarrow> float_text v"
| "value_format ch FtAmt v \<longleftrightarrow> float_text v"
| "value_format ch FtPercentage v \<longleftrightarrow> float_text v"
| "value_format ch FtChar v \<longleftrightarrow> (\<exists>c. v = [c])"
| "value_format ch FtBoolean v \<longleftrightarrow> v \<in> {''Y'', ''N''}"
| "value_format ch FtUtcTimestamp v \<longleftrightarrow> timestamp_text ch v"
| "value_format ch FtUtcDateOnly v \<longleftrightarrow> utf8_ok v \<and> ch_date_ok ch ''%Y%m%d'' v"
| "value_format ch FtLocalMktDate v \<longleftrightarrow> utf8_ok v \<and> ch_date_ok ch ''%Y%m%d'' v"
| "value_format ch FtMonthYear v \<longleftrightarrow> (\<exists>ym rest. v = ym @ rest \<and> length ym = 6 \<and> list_all is_digit ym)"
| "value_format ch FtUtcTimeOnly v \<longleftrightarrow> True"
| "value_format ch FtString v \<longleftrightarrow> True"
| "value_format ch FtData v \<longleftrightarrow> True"
| "value_format ch FtOther v \<longleftrightarrow> True"

text \<open>A value is one or several words with single spaces between them.\<close>

fun spaced :: "bytes list \<Rightarrow> bytes" where
  "spaced [] = []"
| "spaced [w] = w"
| "spaced (w # ws) = w @ CHR '' '' # spaced ws"

definition enumerated :: "bytes list \<Rightarrow> bytes \<Rightarrow> bool" where
  "enumerated values v \<longleftrightarrow>
     (\<exists>words. words \<noteq> [] \<and> from_utf8_lossy v = spaced words
        \<and> (\<forall>w \<in> set words. CHR '' '' \<notin> set w \<and> w \<in> set values))"

lemma timestamp_text_iff: "\<not> isl (decode_timestamp ch t v) \<longleftrightarrow> timestamp_text ch v"
  by (auto simp: timestamp_text_def decode_timestamp_def precision_of_length_def split: option.splits)

lemma month_year_iff:
  "6 \<le> length v \<and> list_all is_digit (take 6 v) \<longleftrightarrow> (\<exists>ym rest. v = ym @ rest \<and> length ym = 6 \<and> list_all is_digit ym)"
proof
  assume "6 \<le> length v \<and> list_all is_digit (take 6 v)"
  then show "\<exists>ym rest. v = ym @ rest \<and> length ym = 6 \<and> list_all is_digit ym"
    by (intro exI [of _ "take 6 v"] exI [of _ "drop 6 v"]) simp
qed auto

lemma check_format_iff: "check_format ch fd v \<longleftrightarrow> value_format ch (fd_type fd) v"
proof -
  have u: "\<not> isl (decode_u64 t v) \<longleftrightarrow> (\<exists>n. unsigned_text v n)" for t
    using parse_u64_iff [of v] by (auto simp: decode_u64_def split: option.splits)
  have d: "(case decode_u64 t v of Inr d \<Rightarrow> 1 \<le> d \<and> d \<le> 31 | Inl _ \<Rightarrow> False) \<longleftrightarrow> (\<exists>n \<in> {1..31}. unsigned_text v n)" for t
    unfolding parse_u64_iff [of v, symmetric] by (auto simp: decode_u64_def split: option.splits)
  have i: "\<not> isl (decode_i64 t v) \<longleftrightarrow> signed_text v" for t
    using parse_i64_iff [of v] by (auto simp: decode_i64_def split: option.splits)
  have c: "length v = 1 \<longleftrightarrow> (\<exists>c. v = [c])" by (auto simp: length_Suc_conv)
  show ?thesis
    by (cases "fd_type fd")
      (simp_all only: check_format_def field_type.case value_format.simps u d i c decode_f64_ok_iff timestamp_text_iff
        month_year_iff decode_fix_date_ok_def insert_iff empty_iff simp_thms)
qed

lemma split_on_not_Nil: "split_on d s \<noteq> []"
  by (induction s) (auto split: list.splits)

lemma spaced_split_on: "spaced (split_on (CHR '' '') s) = s"
proof (induction s)
  case (Cons c s)
  then show ?case
    using split_on_not_Nil [of "CHR '' ''" s] by (cases "split_on (CHR '' '') s" rule: spaced.cases) auto
qed simp

lemma split_on_words: "w \<in> set (split_on d s) \<Longrightarrow> d \<notin> set w"
  by (induction s arbitrary: w) (auto split: if_splits list.splits)

lemma split_on_word: "d \<notin> set w \<Longrightarrow> split_on d (w @ d # s) = w # split_on d s"
  by (induction w) auto

lemma split_on_last: "d \<notin> set w \<Longrightarrow> split_on d w = [w]"
  by (induction w) auto

lemma split_on_spaced:
  "words \<noteq> [] \<Longrightarrow> \<forall>w \<in> set words. CHR '' '' \<notin> set w \<Longrightarrow> split_on (CHR '' '') (spaced words) = words"
  by (induction words rule: spaced.induct) (auto simp: split_on_word split_on_last)

lemma enumerated_iff:
  "list_all (\<lambda>part. part \<in> set values) (split_on (CHR '' '') (from_utf8_lossy v)) \<longleftrightarrow> enumerated values v"
proof
  let ?ws = "split_on (CHR '' '') (from_utf8_lossy v)"
  assume "list_all (\<lambda>part. part \<in> set values) ?ws"
  then show "enumerated values v"
    using split_on_not_Nil split_on_words [of _ "CHR '' ''" "from_utf8_lossy v"]
    by (auto simp: enumerated_def spaced_split_on list_all_iff intro!: exI [of _ ?ws])
next
  assume "enumerated values v"
  then obtain words where "words \<noteq> []" "from_utf8_lossy v = spaced words"
    "\<forall>w \<in> set words. CHR '' '' \<notin> set w" "\<forall>w \<in> set words. w \<in> set values"
    by (auto simp: enumerated_def)
  then show "list_all (\<lambda>part. part \<in> set values) (split_on (CHR '' '') (from_utf8_lossy v))"
    by (simp add: split_on_spaced list_all_iff)
qed

section \<open>The fields of a frame\<close>

text \<open>
  \<open>cut p raw fs\<close>: the text is the fields \<open>fs\<close>, each a tag, an equals sign, a value and an SOH. A
  value has no SOH in it, unless the field before declared the length of a data field of this tag
  (\<open>p\<close>), which the value then has.
\<close>

inductive cut :: "(tag \<times> nat) option \<Rightarrow> bytes \<Rightarrow> field_map \<Rightarrow> bool" where
  cut_end: "cut p [] []"
| cut_field: "parse_i32 digits = Some t \<Longrightarrow> CHR ''='' \<notin> set digits \<Longrightarrow>
     p = Some (t, length v) \<or> (\<forall>n. p \<noteq> Some (t, n)) \<and> SOH \<notin> set v \<Longrightarrow>
     cut (next_pending t v) rest fs \<Longrightarrow> cut p (digits @ CHR ''='' # v @ SOH # rest) (tv t v # fs)"

text \<open>The sections of a message, by tag: header, body and trailer.\<close>

definition section_of :: "tag_value \<Rightarrow> nat" where
  "section_of f = (if is_header_tag (tv_tag f) then 0 else if is_trailer_tag (tv_tag f) then 2 else 1)"

definition in_section :: "nat \<Rightarrow> field_map \<Rightarrow> field_map" where
  "in_section k fs = filter (\<lambda>f. section_of f = k) fs"

lemma check_sum_section: "is_trailer_tag CHECK_SUM" "\<not> is_header_tag CHECK_SUM"
  by (simp_all add: is_trailer_tag_def is_header_tag_def header_tags_def)

lemma field_at_cut:
  assumes "field_at raw pos p = Ok (t, v, next)" and "\<forall>d n. p = Some (d, n) \<longrightarrow> n < 2 ^ 64"
  obtains digits where "drop pos raw = digits @ CHR ''='' # v @ SOH # drop next raw"
    and "parse_i32 digits = Some t" and "CHR ''='' \<notin> set digits"
    and "p = Some (t, length v) \<or> (\<forall>n. p \<noteq> Some (t, n)) \<and> SOH \<notin> set v"
proof -
  obtain k e where k: "position (\<lambda>b. b = CHR ''='') (drop pos raw) = Some k"
    and t: "parse_i32 (take k (drop pos raw)) = Some t"
    and e: "value_end raw (pos + k + 1) t p = Ok e" and le: "pos + k + 1 \<le> e"
    and v: "v = take (e - (pos + k + 1)) (drop (pos + k + 1) raw)" and nx: "next = e + 1"
    using assms(1) by (auto simp: field_at_def res_bind_Ok_iff Let_def split: option.splits if_splits)
  let ?vs = "pos + k + 1" and ?digits = "take k (drop pos raw)"
  have kl: "k < length (drop pos raw)" "drop pos raw ! k = CHR ''=''" using position_Some_lt [OF k] position_Some_nth [OF k] by simp_all
  have d: "drop pos raw = ?digits @ CHR ''='' # drop ?vs raw"
    using id_take_nth_drop [OF kl(1)] kl(2) by (simp add: add.commute)
  have noeq: "CHR ''='' \<notin> set ?digits"
    using position_Some_before [OF k] kl(1) by (auto simp: in_set_conv_nth)
  have val: "e < length raw \<and> raw ! e = SOH \<and> (p = Some (t, e - ?vs) \<or> (\<forall>n. p \<noteq> Some (t, n)) \<and> SOH \<notin> set v)"
  proof (cases "\<exists>n. p = Some (t, n)")
    case True
    then obtain n where p: "p = Some (t, n)" ..
    then have ev: "e = u64_add ?vs n" "e < length raw" "raw ! e = SOH"
      using e by (auto simp: value_end_def Let_def split: if_splits)
    have n: "n < 2 ^ 64" using assms(2) p by blast
    have "e < 2 ^ 64" unfolding ev(1) by (rule u64_add_lt)
    then have "?vs < 2 ^ 64" using le by simp
    have "?vs + n < 2 ^ 64"
    proof (rule ccontr)
      assume "\<not> ?vs + n < 2 ^ 64"
      then have "e = ?vs + n - 2 ^ 64" unfolding ev(1) using \<open>?vs < 2 ^ 64\<close> n by (intro u64_add_wraps) simp_all
      with n le show False by simp
    qed
    then have "e = ?vs + n" unfolding ev(1) by (rule u64_add_exact)
    with ev p show ?thesis by simp
  next
    case False
    then obtain j where j: "position (\<lambda>b. b = SOH) (drop ?vs raw) = Some j" and ej: "e = ?vs + j"
      using e by (auto simp: value_end_def Let_def split: option.splits if_splits)
    have "SOH \<notin> set v"
      using position_Some_before [OF j] position_Some_lt [OF j] unfolding v ej by (auto simp: in_set_conv_nth)
    with False position_Some_lt [OF j] position_Some_nth [OF j] ej show ?thesis by (auto simp: add.assoc)
  qed
  have lv: "length v = e - ?vs" using conjunct1 [OF val] le by (simp add: v)
  have "drop ?vs raw = v @ drop e raw"
    using append_take_drop_id [of "e - ?vs" "drop ?vs raw"] le by (simp add: v)
  moreover have "drop e raw = SOH # drop next raw" using val Cons_nth_drop_Suc [of e raw] by (simp add: nx)
  ultimately show thesis using that [of ?digits] d t noeq val lv by simp
qed

lemma route_sections:
  "header (ps_msg (route n t v ps)) = header (ps_msg ps) @ in_section 0 [tv t v]"
  "body (ps_msg (route n t v ps)) = body (ps_msg ps) @ in_section 1 [tv t v]"
  "trailer (ps_msg (route n t v ps)) = trailer (ps_msg ps) @ in_section 2 [tv t v]"
  "ps_section ps \<le> 2 \<Longrightarrow> ps_section (route n t v ps) = max (ps_section ps) (section_of (tv t v))"
  "ps_section ps \<le> 2 \<Longrightarrow> structure_error (ps_msg (route n t v ps)) = None \<longleftrightarrow>
     structure_error (ps_msg ps) = None \<and> ps_section ps \<le> section_of (tv t v)"
  using check_sum_section
  by (auto simp: route_def Let_def in_section_def section_of_def get_or_insert_def split: option.splits)

lemma parse_loop_cuts:
  assumes "parse_loop raw ps = Ok ps'" and "ps_section ps \<le> 2" and "\<forall>d n. ps_pending ps = Some (d, n) \<longrightarrow> n < 2 ^ 64"
  shows "\<exists>fs. cut (ps_pending ps) (drop (ps_pos ps) raw) fs
    \<and> header (ps_msg ps') = header (ps_msg ps) @ in_section 0 fs
    \<and> body (ps_msg ps') = body (ps_msg ps) @ in_section 1 fs
    \<and> trailer (ps_msg ps') = trailer (ps_msg ps) @ in_section 2 fs
    \<and> (structure_error (ps_msg ps') = None \<longleftrightarrow>
        structure_error (ps_msg ps) = None \<and> sorted (ps_section ps # map section_of fs))"
  using assms
proof (induction raw ps rule: parse_loop.induct)
  case (1 raw ps)
  show ?case
  proof (cases "ps_pos ps < length raw")
    case False
    with 1(2) have "ps' = ps" by (simp add: parse_loop.simps [of raw ps])
    with False show ?thesis by (intro exI [of _ "[]"]) (simp add: cut_end in_section_def)
  next
    case True
    with 1(2) obtain ps1 where step: "parse_step raw ps = Ok ps1" and loop: "parse_loop raw ps1 = Ok ps'"
      by (auto simp: parse_loop.simps [of raw ps] split: res.splits)
    obtain t v nx where at: "field_at raw (ps_pos ps) (ps_pending ps) = Ok (t, v, nx)"
      and ps1: "ps1 = (route (ps_pos ps) t v ps)\<lparr>ps_pos := nx, ps_index := ps_index ps + 1, ps_pending := next_pending t v\<rparr>"
      using step by (auto simp: parse_step_def res_bind_Ok_iff split: option.splits)
    obtain digits where d: "drop (ps_pos ps) raw = digits @ CHR ''='' # v @ SOH # drop nx raw"
      "parse_i32 digits = Some t" "CHR ''='' \<notin> set digits"
      "ps_pending ps = Some (t, length v) \<or> (\<forall>n. ps_pending ps \<noteq> Some (t, n)) \<and> SOH \<notin> set v"
      by (rule field_at_cut [OF at 1(4)])
    have pend: "\<forall>d n. ps_pending ps1 = Some (d, n) \<longrightarrow> n < 2 ^ 64"
      by (auto simp: ps1 next_pending_def parse_u64_def dest!: parse_unsigned_bound split: option.splits)
    have sec: "ps_section ps1 = max (ps_section ps) (section_of (tv t v))" "ps_section ps1 \<le> 2"
      using route_sections(4) [OF 1(3)] 1(3) by (simp_all add: ps1 section_of_def)
    have at1: "ps_pos ps1 = nx" "ps_pending ps1 = next_pending t v" by (simp_all add: ps1)
    note IH = 1(1) [OF True step loop sec(2) pend, unfolded at1]
    then obtain fs where fs: "cut (next_pending t v) (drop nx raw) fs"
      "header (ps_msg ps') = header (ps_msg ps1) @ in_section 0 fs"
      "body (ps_msg ps') = body (ps_msg ps1) @ in_section 1 fs"
      "trailer (ps_msg ps') = trailer (ps_msg ps1) @ in_section 2 fs"
      "structure_error (ps_msg ps') = None \<longleftrightarrow>
        structure_error (ps_msg ps1) = None \<and> sorted (ps_section ps1 # map section_of fs)"
      by (elim exE conjE) (rule that)
    have "cut (ps_pending ps) (drop (ps_pos ps) raw) (tv t v # fs)"
      unfolding d(1) by (rule cut_field [OF d(2-4) fs(1)])
    moreover have "structure_error (ps_msg ps') = None \<longleftrightarrow>
        structure_error (ps_msg ps) = None \<and> sorted (ps_section ps # map section_of (tv t v # fs))"
    proof (cases "ps_section ps \<le> section_of (tv t v)")
      case True
      with fs(5) route_sections(5) [OF 1(3), of "ps_pos ps" t v] show ?thesis
        unfolding sec(1) by (auto simp: ps1 max_def dest: order.trans [OF True])
    next
      case False
      with fs(5) route_sections(5) [OF 1(3), of "ps_pos ps" t v] show ?thesis by (simp add: ps1)
    qed
    moreover have "header (ps_msg ps') = header (ps_msg ps) @ in_section 0 (tv t v # fs)"
      "body (ps_msg ps') = body (ps_msg ps) @ in_section 1 (tv t v # fs)"
      "trailer (ps_msg ps') = trailer (ps_msg ps) @ in_section 2 (tv t v # fs)"
      using fs(2-4) by (simp_all add: ps1 route_sections in_section_def)
    ultimately show ?thesis by (intro exI [of _ "tv t v # fs"] conjI)
  qed
qed

lemma parsed_message:
  assumes "message_parse raw chk = Ok m"
  obtains fs where "cut None raw fs" and "header m = in_section 0 fs" and "body m = in_section 1 fs"
    and "trailer m = in_section 2 fs" and "structure_error m = None \<longleftrightarrow> sorted (map section_of fs)"
proof -
  obtain ps where ps: "parse_loop raw parse_init = Ok ps" and m: "ps_msg ps = m"
    using assms by (auto simp: message_parse_def validate_wire_def res_bind_Ok_iff Let_def
      split: if_splits option.splits sum.splits)
  from parse_loop_cuts [OF ps] show thesis
    using that m by (auto simp: parse_init_def message_new_def)
qed

section \<open>What validation accepts\<close>

text \<open>The conditions on a field, on the order of a repeating group and on its count.\<close>

definition field_valid ::
  "chrono \<Rightarrow> data_dictionary \<Rightarrow> message_def \<Rightarrow> validation_settings \<Rightarrow> tag_value \<Rightarrow> bool" where
  "field_valid ch dd def vs f \<longleftrightarrow>
     (USER_DEFINED_TAG_MIN \<le> tv_tag f \<and> \<not> vs_check_user_defined_fields vs)
     \<or> (vs_check_fields_have_values vs \<longrightarrow> tv_value f \<noteq> [])
       \<and> (case map_of (dd_fields_by_tag dd) (tv_tag f) of
            None \<Rightarrow> vs_allow_unknown_message_fields vs
          | Some fd \<Rightarrow>
              (section_of f = 1 \<longrightarrow> vs_allow_unknown_message_fields vs \<or> tv_tag f \<in> set (md_tags def)
                 \<or> USER_DEFINED_TAG_MIN \<le> tv_tag f)
              \<and> value_format ch (fd_type fd) (tv_value f)
              \<and> (fd_values fd \<noteq> [] \<longrightarrow> enumerated (fd_values fd) (tv_value f)))"

text \<open>
  The field after a group counter that announces entries, when it belongs to the group, is the
  group's delimiter. A count is the number of delimiters in the body.
\<close>

definition groups_begin_well :: "(tag \<times> group_def) list \<Rightarrow> field_map \<Rightarrow> bool" where
  "groups_begin_well groups fs \<longleftrightarrow>
     (\<forall>before f g' after g n. fs = before @ f # g' # after \<longrightarrow> map_of groups (tv_tag f) = Some g \<longrightarrow>
        (\<exists>v. get_raw (gd_counter g) fs = Some v \<and> unsigned_text v n) \<longrightarrow> 0 < n \<longrightarrow>
        tv_tag g' \<in> set (gd_tags g) \<longrightarrow> tv_tag g' = gd_delimiter g)"

definition groups_counted :: "(tag \<times> group_def) list \<Rightarrow> field_map \<Rightarrow> bool" where
  "groups_counted groups fs \<longleftrightarrow>
     (\<forall>(k, g) \<in> set groups. \<forall>v. get_raw (gd_counter g) fs = Some v \<longrightarrow>
        unsigned_text v (count_list (map tv_tag fs) (gd_delimiter g)))"

definition required_in :: "tag list \<Rightarrow> field_map \<Rightarrow> bool" where
  "required_in req fs \<longleftrightarrow> set req \<subseteq> tv_tag ` set fs"

definition message_valid ::
  "chrono \<Rightarrow> data_dictionary \<Rightarrow> validation_settings \<Rightarrow> message_def \<Rightarrow> field_map \<Rightarrow> bool" where
  "message_valid ch dd vs def fs \<longleftrightarrow>
     (vs_check_fields_out_of_order vs \<longrightarrow> sorted (map section_of fs))
     \<and> required_in (dd_header_required dd) (in_section 0 fs)
     \<and> required_in (md_required def) (in_section 1 fs)
     \<and> required_in (dd_trailer_required dd) (in_section 2 fs)
     \<and> distinct (filter (\<lambda>t. \<forall>(k, g) \<in> set (md_groups def). t \<notin> set (gd_tags g)) (map tv_tag (in_section 1 fs)))
     \<and> groups_begin_well (md_groups def) (in_section 1 fs)
     \<and> groups_counted (md_groups def) (in_section 1 fs)
     \<and> (\<forall>f \<in> set fs. field_valid ch dd def vs f)"

definition frame_valid :: "chrono \<Rightarrow> data_dictionary \<Rightarrow> validation_settings \<Rightarrow> field_map \<Rightarrow> bool" where
  "frame_valid ch dd vs fs \<longleftrightarrow>
     (\<exists>mt. get_raw MSG_TYPE fs = Some mt \<and> utf8_ok mt
        \<and> (mt = ''n'' \<or> (\<exists>def. map_of (dd_messages dd) mt = Some def \<and> message_valid ch dd vs def fs)))"

lemma check_field_iff:
  "check_field ch dd def vs (section_of f = 1) (tv_tag f) (tv_value f) = None \<longleftrightarrow> field_valid ch dd def vs f"
  unfolding check_field_def field_valid_def check_format_iff enumerated_iff
  by (auto split: option.splits)

lemma fields_ok_sections:
  "fields_ok ch dd def vs False (in_section 0 fs) \<and> fields_ok ch dd def vs True (in_section 1 fs)
     \<and> fields_ok ch dd def vs False (in_section 2 fs) \<longleftrightarrow> (\<forall>f \<in> set fs. field_valid ch dd def vs f)"
proof -
  have "section_of f \<in> {0, 1, 2}" for f by (simp add: section_of_def)
  then show ?thesis
    unfolding check_field_iff [symmetric] fields_ok_def in_section_def
    by fastforce
qed

lemma groups_begin_well_iff: "delimiters_first groups fs \<longleftrightarrow> groups_begin_well groups fs"
proof -
  have u: "get_ok decode_u64 t fs = Some n \<longleftrightarrow> (\<exists>v. get_raw t fs = Some v \<and> unsigned_text v n)" for t n
    by (auto simp: get_ok_def fm_get_opt_def decode_u64_def parse_u64_iff [symmetric] split: option.splits sum.splits)
  have "P fs (fs ! i) (fs ! (i + 1)) \<longleftrightarrow> P fs (fs ! i) (fs ! (i + 1))" for P i by simp
  have at: "(\<forall>i. i + 1 < length fs \<longrightarrow> Q (fs ! i) (fs ! (i + 1))) \<longleftrightarrow>
      (\<forall>before f g' after. fs = before @ f # g' # after \<longrightarrow> Q f g')" for Q
  proof
    assume l: "\<forall>i. i + 1 < length fs \<longrightarrow> Q (fs ! i) (fs ! (i + 1))"
    show "\<forall>before f g' after. fs = before @ f # g' # after \<longrightarrow> Q f g'"
    proof (intro allI impI)
      fix before f g' after assume "fs = before @ f # g' # after"
      with l [rule_format, of "length before"] show "Q f g'" by (simp add: nth_append)
    qed
  next
    assume r: "\<forall>before f g' after. fs = before @ f # g' # after \<longrightarrow> Q f g'"
    show "\<forall>i. i + 1 < length fs \<longrightarrow> Q (fs ! i) (fs ! (i + 1))"
    proof (intro allI impI)
      fix i assume i: "i + 1 < length fs"
      then have "fs = take i fs @ fs ! i # fs ! (i + 1) # drop (i + 2) fs"
        using id_take_nth_drop [of i fs] Cons_nth_drop_Suc [of "i + 1" fs] by simp
      then show "Q (fs ! i) (fs ! (i + 1))" using r by blast
    qed
  qed
  show ?thesis
    using at [of "\<lambda>f g'. \<forall>g n. map_of groups (tv_tag f) = Some g \<longrightarrow>
        (\<exists>v. get_raw (gd_counter g) fs = Some v \<and> unsigned_text v n) \<longrightarrow> 0 < n \<longrightarrow>
        tv_tag g' \<in> set (gd_tags g) \<longrightarrow> tv_tag g' = gd_delimiter g"]
    unfolding delimiters_first_def groups_begin_well_def u by blast
qed

lemma groups_counted_iff: "counts_match groups fs \<longleftrightarrow> groups_counted groups fs"
proof -
  have c: "length (filter (\<lambda>f. tv_tag f = t) fs) = count_list (map tv_tag fs) t" for t
    by (induction fs) auto
  have "utf8_ok v" if "unsigned_text v n" for v n
  proof (rule utf8_ok_ascii, rule ballI)
    fix c assume "c \<in> set v"
    with that have "c = CHR ''+'' \<or> is_digit c" by (auto simp: unsigned_text_def digit_text_def list_all_iff)
    then show "byte_of c < 128" by (auto simp: is_digit_def byte_of_def)
  qed
  then show ?thesis
    unfolding counts_match_def groups_counted_def parse_u64_iff c by blast
qed

lemma checks_iff_message_valid:
  assumes "header m = in_section 0 fs" and "body m = in_section 1 fs" and "trailer m = in_section 2 fs"
    and "structure_error m = None \<longleftrightarrow> sorted (map section_of fs)"
  shows "validate_with_def ch dd def m vs = None \<longleftrightarrow> message_valid ch dd vs def fs"
proof -
  have req: "(\<forall>t \<in> set req. contains t fm) \<longleftrightarrow> required_in req fm" for req fm
    by (auto simp: required_in_def contains_iff)
  have grp: "t \<notin> set (group_member_tags def) \<longleftrightarrow> (\<forall>(k, g) \<in> set (md_groups def). t \<notin> set (gd_tags g))" for t
    by (auto simp: group_member_tags_def)
  show ?thesis
    unfolding validate_with_def_None every_check_passes_def message_valid_def assms req grp groups_begin_well_iff groups_counted_iff
      fields_ok_sections [symmetric] by blast
qed

lemma get_raw_in_section: "section_of (tv t v) = k \<Longrightarrow> get_raw t (in_section k fs) = get_raw t fs"
  by (induction fs) (auto simp: in_section_def section_of_def)

text \<open>
  C23. Validation accepts exactly the received messages that meet the dictionary. For any frame the
  parser takes, any dictionary, any iteration order of its hash maps and any settings: the frame is
  cut into fields, the message is those fields by section, and no reject is returned if and only if
  the frame has a MsgType that is text and is XMLnonFIX or defined, and then: the sections come in
  order; every required header, body and trailer field is there; no body field outside the groups
  comes twice; the field after a group counter is the delimiter; every count is the number of
  delimiters; and every field has a value of the form its type prescribes, enumerated where the
  dictionary enumerates, and is known and defined for the message - each unless a setting waives it.
\<close>

theorem validate_accepts_iff:
  assumes "message_parse raw chk = Ok m"
  shows "\<exists>fs. cut None raw fs \<and> header m = in_section 0 fs \<and> body m = in_section 1 fs \<and> trailer m = in_section 2 fs
    \<and> (validate ch dd m vs = None \<longleftrightarrow> frame_valid ch dd vs fs)"
proof -
  obtain fs where fs: "cut None raw fs" "header m = in_section 0 fs" "body m = in_section 1 fs"
    "trailer m = in_section 2 fs" "structure_error m = None \<longleftrightarrow> sorted (map section_of fs)"
    by (rule parsed_message [OF assms])
  have "section_of (tv MSG_TYPE v) = 0" for v
    by (simp add: section_of_def is_header_tag_def header_tags_def)
  then have mt: "get_raw MSG_TYPE (header m) = get_raw MSG_TYPE fs"
    unfolding fs(2) by (rule get_raw_in_section)
  have "validate ch dd m vs = None \<longleftrightarrow> frame_valid ch dd vs fs"
  proof (cases "\<exists>v. get_raw MSG_TYPE fs = Some v \<and> utf8_ok v")
    case True
    then obtain v where v: "get_raw MSG_TYPE fs = Some v" "utf8_ok v" by blast
    then have "get_string MSG_TYPE (header m) = Inr v"
      unfolding get_string_def fm_get_def mt v(1) by (simp add: decode_string_def)
    with v show ?thesis
      unfolding validate_def frame_valid_def
      using checks_iff_message_valid [OF fs(2-5), of ch dd _ vs] by (simp split: option.split)
  next
    case False
    then show ?thesis
      unfolding validate_def frame_valid_def get_string_def fm_get_def mt
      by (auto simp: decode_string_def split: option.splits)
  qed
  with fs(1-4) show ?thesis by (intro exI [of _ fs] conjI)
qed

section \<open>A concrete dictionary\<close>

text \<open>
  News messages with a headline, and raw data with its length; the sample message conforms, and the
  same frame without its MsgSeqNum does not.
\<close>

definition plain_field :: "tag \<Rightarrow> field_type \<Rightarrow> tag \<times> field_def" where
  "plain_field t ty = (t, \<lparr>fd_tag = t, fd_name = [], fd_type = ty, fd_values = [], fd_enum_values = []\<rparr>)"

definition news_dictionary :: data_dictionary where
  "news_dictionary =
     \<lparr>dd_begin_string = ''FIX.4.2'',
      dd_fields_by_tag =
        [plain_field 8 FtString, plain_field 9 FtLength, plain_field 35 FtString, plain_field 34 FtSeqNum,
         plain_field 49 FtString, plain_field 56 FtString, plain_field 95 FtLength, plain_field 96 FtData,
         plain_field 58 FtString, plain_field 10 FtString],
      dd_tags_by_name = [], dd_header_tags = [], dd_header_required = [8, 9, 35, 34], dd_trailer_tags = [],
      dd_trailer_required = [10],
      dd_messages = [(''B'', \<lparr>md_name = ''News'', md_msg_type = ''B'', md_tags = [58, 95, 96], md_required = [58],
        md_groups = [], md_field_order = []\<rparr>)]\<rparr>"

lemma sample_conforms: "validate ch news_dictionary (wire_form sample_message) validation_default = None"
proof -
  define len where "len = length (to_bytes_inner sample_message)"
  define sum where "sum = pad_zero 3 (dec_nat (checksum (out_prefix sample_message)))"
  have m: "wire_form sample_message =
     \<lparr>header = [tv 8 ''FIX.4.2'', tv 9 (dec_nat len), tv 35 ''B'', tv 34 ''2'', tv 49 ''TW'', tv 56 ''ISLD''],
      body = [tv 95 ''3'', tv 96 [CHR ''a'', CHR 0x01, CHR ''b''], tv 58 ''after''], trailer = [tv 10 sum],
      structure_error = None\<rparr>"
    by (simp add: wire_form_def len_def sum_def sample_message_def begin_string_of_def msg_type_field_def
        header_rest_def trailer_rest_def)
  have "len < 2 ^ 20"
    unfolding len_def to_bytes_inner_eq sample_message_wire_fields by (simp add: bytes_simps)
  then have l: "decode_u64 9 (dec_nat len) = Inr len" by (simp add: decode_u64_def parse_u64_def)
  have "length sum \<ge> 3" by (simp add: sum_def pad_zero_length)
  then have s: "sum \<noteq> []" by auto
  have mt: "get_string MSG_TYPE (header (wire_form sample_message)) = Inr ''B''"
    by (simp add: m get_string_def fm_get_def decode_string_def utf8_ok_ascii byte_of_def)
  have d: "map_of (dd_messages news_dictionary) ''B'' =
      Some \<lparr>md_name = ''News'', md_msg_type = ''B'', md_tags = [58, 95, 96], md_required = [58],
        md_groups = [], md_field_order = []\<rparr>"
    by (simp add: news_dictionary_def)
  have n: "decode_u64 34 ''2'' = Inr 2" "decode_u64 95 ''3'' = Inr 3"
    by (simp_all add: decode_u64_def bytes_simps)
  show ?thesis
    unfolding validate_def mt
    by (simp add: d validate_with_def_def validation_default_def m check_section_def check_field_def check_format_def
      news_dictionary_def plain_field_def l s n missing_required_def contains_iff USER_DEFINED_TAG_MIN_def
      group_member_tags_def)
qed

theorem validate_accepts_iff_witness:
  "\<exists>fs. cut None (to_bytes sample_message) fs \<and> in_section 1 fs = body sample_message
    \<and> frame_valid sample_chrono news_dictionary validation_default fs"
proof -
  have p: "message_parse (to_bytes sample_message) True = Ok (wire_form sample_message)"
    by (rule parse_to_bytes [OF sample_message_wf])
  show ?thesis
    using validate_accepts_iff [OF p, of sample_chrono news_dictionary validation_default] sample_conforms [of sample_chrono]
    by (auto simp: wire_form_def)
qed

end
