(* ===== verification/Spec2Isabelle.thy ===== *)
theory Spec2Isabelle
  imports Engine Module_Generator File_Store File_Log Session_Stash Session_Exchange Session_Handle Fixt11_Session
    Fixt11_Generated Fixt11_Validation Validation_Spec
begin

text \<open>
  \<^bold>\<open>A FIX protocol engine: model and correctness\<close>

  The program is a FIX engine on tokio. A connection is a byte stream; \<open>src/transport.rs\<close> reads it,
  \<open>src/parser.rs\<close> cuts it into frames and \<open>src/message.rs\<close> parses a frame into a message, three ordered
  field maps (\<open>src/field_map.rs\<close>). One task per session (\<open>src/session.rs\<close>) owns the protocol state: it
  verifies received messages against the expected sequence number, the schedule
  (\<open>src/schedule.rs\<close>) and a data dictionary (\<open>src/datadictionary.rs\<close>), answers them, recovers gaps in
  both directions, calls the application (\<open>src/application.rs\<close>), and numbers and persists what it
  sends in a message store (\<open>src/store.rs\<close>). Sessions are configured by \<open>src/settings.rs\<close> and named by
  \<open>src/session_id.rs\<close>; \<open>src/engine.rs\<close> starts them, with their dictionaries, logs (\<open>src/log.rs\<close>), listeners
  and TLS (\<open>src/tls.rs\<close>).

  \<^bold>\<open>Theories\<close>

  \<^item> \<open>Fix_Prelude\<close>: byte strings, wrapping 64-bit arithmetic, results that may unwind.
  \<^item> \<open>Rust_Std\<close>, \<open>Rust_Text\<close>: what the code uses of Rust's standard library: decimal printing and
    parsing, UTF-8, \<open>trim\<close>, \<open>split\<close>, paths, ordered and hashed maps.
  \<^item> \<open>Fix_Tags\<close>, \<open>Fix_Error\<close>, \<open>Fix_Value\<close>: \<open>tags.rs\<close>, \<open>error.rs\<close>, \<open>value.rs\<close>.
  \<^item> \<open>Field_Map\<close>: \<open>field_map.rs\<close>; fields keyed by tag (locale \<open>keyed_fields\<close>), repeating groups.
  \<^item> \<open>Typed_Field\<close>: the typed accessors of \<open>field_map.rs\<close>, the laws of a field marker (locale
    \<open>typed_field\<close>, interpreted for each value type).
  \<^item> \<open>Fixt11\<close>: the generated modules of \<open>src/fixt11\<close>, markers, messages with their accessors, dispatch;
    \<open>Fixt11_Session\<close>: the session builds what the typed constructors build, and typed fields and
    groups survive the wire.
  \<^item> \<open>Fixt11_Dictionary\<close>: \<open>spec/FIXT11.xml\<close> as a tree and the dictionary it loads to; \<open>Fixt11_Generated\<close>: the
    generator, run on it, writes the files of \<open>src/fixt11\<close> as committed; \<open>Fixt11_Validation\<close>: what a FIXT.1.1
    session sends on its own behalf is valid under it.
  \<^item> \<open>Fix_Message\<close>, \<open>Wire_Round_Trip\<close>: \<open>message.rs\<close>; parsing inverts serialising.
  \<^item> \<open>Frame_Parser\<close>: \<open>parser.rs\<close> and the read and write tasks of \<open>transport.rs\<close>; framing does not depend on
    the cuts of the stream, and of serialised messages written to a socket that may fail exactly
    the complete ones are delivered.
  \<^item> \<open>Session_Id\<close>: \<open>session_id.rs\<close> and the paths of a session's files.
  \<^item> \<open>Message_Store\<close>: the store trait as a record of operations, its contract (locale
    \<open>message_store\<close>), and the in-memory store.
  \<^item> \<open>File_Store\<close>: the file store over the contents of its files; it refines the in-memory store
    (locale \<open>store_refinement\<close>), refreshes and reopening included. It records what the files hold
    after each write; the states a crash can leave are those recorded: saving and counting is safe
    in all of them, a reset is not.
  \<^item> \<open>Schedule\<close>: \<open>schedule.rs\<close>; the range tests against the occurrences of a window in a zone with a fixed
    offset, windows that start and end on one day or at one time included.
  \<^item> \<open>Data_Dictionary\<close>: validation, canonical order and merging of \<open>datadictionary.rs\<close>.
    \<open>Validation_Spec\<close>: what validation accepts, stated on the text of the frame and proved of the checks.
  \<^item> \<open>Dictionary_Load\<close>: its loader, from the events of the XML reader; every dictionary that loads is
    well-formed, and loading ends when component references are acyclic.
  \<^item> \<open>Module_Generator\<close>: \<open>bin/generate-fix.rs\<close>, the text of the typed modules; generation ends for every
    dictionary that loads and does not depend on the order of hash maps, and what it writes is complete.
  \<^item> \<open>Settings\<close>, \<open>Settings_Text\<close>: \<open>settings.rs\<close>; what a configuration file means. \<open>Application\<close>: \<open>application.rs\<close>.
  \<^item> \<open>File_Log\<close>: the rotating files of \<open>log.rs\<close>; a log keeps a suffix of what was written.
  \<^item> \<open>Session_State\<close>, \<open>Session_Outbound\<close>, \<open>Session_Inbound\<close>, \<open>Session_Run\<close>: \<open>session.rs\<close> in the order of the
    code: state and the language of handlers, sending, receiving, timers and the run loop.
  \<^item> \<open>Session_Sample\<close>: a concrete session for examples.
  \<^item> \<open>Session_Steps\<close>: relations between the states before and after a handler, as locales
    (\<open>transmit_relation\<close> to \<open>uniform_relation\<close>): a relation kept by the primitive steps is kept by every handler.
  \<^item> \<open>Session_Invariant\<close>: the invariant of all reachable session states.
  \<^item> \<open>Session_Send\<close>: numbering, persistence and errors of \<open>send_message\<close> (locale \<open>passive_application\<close>).
  \<^item> \<open>Session_Resend\<close>: the answer to a resend request tiles the requested range.
  \<^item> \<open>Session_Delivery\<close>: application messages are delivered in order and at most once between restarts
    of the expected number, which a counter beside the in-memory store records.
  \<^item> \<open>Session_Stash\<close>: handling a frame ends; a queued message that is lost.
  \<^item> \<open>Session_Recovery\<close>, \<open>Session_Exchange\<close>: two sessions together: a lost range is asked for, answered and
    delivered, once and in order.
  \<^item> \<open>Session_Veto\<close>: what the application refuses, and a sequence reset before anybody has logged on.
  \<^item> \<open>Session_Handle\<close>: the calls of a \<open>SessionHandle\<close>; what is sent offline is kept for the peer and resent
    in any later state whose store still holds it.
  \<^item> \<open>Session_Timers\<close>: the timer handler makes progress at its deadline and does nothing before it.
  \<^item> \<open>Tls_Config\<close>: \<open>tls.rs\<close>. \<open>Connections\<close>: new connections of \<open>transport.rs\<close> reach their session complete.
  \<^item> \<open>Engine\<close>: \<open>engine.rs\<close>; connections are routed to the configured session, the dictionary cache
    changes nothing; whom a listener and an initiator trust.

  \<^bold>\<open>How state and effects are modelled\<close>

  A session's state is the record \<open>session\<close>, its fields those of \<open>struct Session\<close>. A handler is a
  function from the state to an outcome and a new state; \<open>bnd\<close>, \<open>discard\<close>, \<open>map_err\<close> and \<open>attempt\<close> stand for
  \<open>?\<close>, \<open>let _ =\<close>, \<open>map_err\<close> and \<open>match\<close> on a result. The clocks are read once per step. Panics
  are outcomes (\<open>Panic\<close>, \<open>Unwind\<close>). The run loop is the inductive relation \<open>reachable\<close>: any enabled input
  of the \<open>select!\<close> may be taken at any time.

  \<^bold>\<open>Bounds and fuel\<close>

  Integers that are only compared and printed are natural numbers; additions and subtractions that
  can leave 64 bits wrap (\<open>u64_add\<close>, \<open>u64_sub\<close>). The one loop whose end depends on the peer,
  the replay of stashed messages, takes fuel, one unit per replayed message; running out is an outcome of
  its own, and \<open>on_inbound_terminates\<close> shows that twice the size of the stash plus three is enough. The
  expansion of components takes the depth of the call stack; \<open>acyclic_components_load\<close> shows that
  acyclic dictionaries have enough. All other loops are recursion on data or have a measure.

  \<^bold>\<open>What is not modelled\<close>

  Sockets, channels and tasks, the bytes of a TLS handshake. The generated messages of FIXT.1.1 are
  modelled in full; those of FIX 4.4 and 5.0, whose message modules are not part of the repository
  as given, only as the text that the generator writes. Files are their contents: opening and renaming succeed or fail as a
  parameter says. chrono (printing and parsing of times, time zones) is a parameter with the
  laws \<open>calendar_ok\<close> and \<open>rfc3339_ok\<close>. \<open>fsync\<close> does not change the contents of a file.
\<close>

end
